(* ===== verification/Oyster_Prelude.thy ===== *)
theory Oyster_Prelude
  imports Main
begin

text \<open>
  Shared vocabulary of the development: the JavaScript containers the program keeps its state
  in (an insertion-ordered \<^verbatim>\<open>Map\<close>, an insertion-ordered \<^verbatim>\<open>Set\<close>), the string operations of
  the standard library the components call, and the generic list lemmas and fact collections the
  component theories share.  Strings are lists of UTF-16 code units of the Latin-1 range, as
  Isabelle's \<^typ>\<open>string\<close> gives them.
\<close>

named_theorems js_simps \<open>equations of the JavaScript containers and string operations\<close>
named_theorems inv_rules \<open>one preservation lemma per operation and invariant\<close>

section \<open>JavaScript Map: an association list that keeps insertion order\<close>

type_synonym ('k, 'v) jsmap = "('k \<times> 'v) list"

fun jsmap_set :: "'k \<Rightarrow> 'v \<Rightarrow> ('k, 'v) jsmap \<Rightarrow> ('k, 'v) jsmap" where
  "jsmap_set k v [] = [(k, v)]"
| "jsmap_set k v ((k', v') # m) =
     (if k = k' then (k', v) # m else (k', v') # jsmap_set k v m)"

definition jsmap_delete :: "'k \<Rightarrow> ('k, 'v) jsmap \<Rightarrow> ('k, 'v) jsmap" where
  "jsmap_delete k m = filter (\<lambda>kv. fst kv \<noteq> k) m"

abbreviation jsmap_get :: "('k, 'v) jsmap \<Rightarrow> 'k \<Rightarrow> 'v option" where
  "jsmap_get m k \<equiv> map_of m k"

abbreviation jsmap_keys :: "('k, 'v) jsmap \<Rightarrow> 'k list" where
  "jsmap_keys m \<equiv> map fst m"

abbreviation jsmap_values :: "('k, 'v) jsmap \<Rightarrow> 'v list" where
  "jsmap_values m \<equiv> map snd m"

definition jsmap_ok :: "('k, 'v) jsmap \<Rightarrow> bool" where
  "jsmap_ok m \<longleftrightarrow> distinct (map fst m)"

lemma jsmap_get_set [js_simps, simp]:
  "map_of (jsmap_set k v m) k' = (if k = k' then Some v else map_of m k')"
  by (induction m) auto

lemma jsmap_get_delete [js_simps, simp]:
  "map_of (jsmap_delete k m) k' = (if k = k' then None else map_of m k')"
  by (induction m) (auto simp: jsmap_delete_def)

lemma jsmap_keys_set [js_simps, simp]:
  "map fst (jsmap_set k v m) = (if k \<in> fst ` set m then map fst m else map fst m @ [k])"
  by (induction m) force+

lemma jsmap_keys_delete [js_simps, simp]:
  "map fst (jsmap_delete k m) = filter (\<lambda>k'. k' \<noteq> k) (map fst m)"
  by (induction m) (auto simp: jsmap_delete_def)

lemma jsmap_ok_Nil [simp, intro]: "jsmap_ok []"
  by (simp add: jsmap_ok_def)

lemma jsmap_ok_set [inv_rules, intro]: "jsmap_ok m \<Longrightarrow> jsmap_ok (jsmap_set k v m)"
  by (auto simp: jsmap_ok_def)

lemma jsmap_ok_delete [inv_rules, intro]: "jsmap_ok m \<Longrightarrow> jsmap_ok (jsmap_delete k m)"
  by (simp add: jsmap_ok_def)

lemma jsmap_get_None_iff: "map_of m k = None \<longleftrightarrow> k \<notin> set (map fst m)"
  by (simp add: map_of_eq_None_iff)

lemma set_jsmap_delete: "set (jsmap_delete k m) = {kv \<in> set m. fst kv \<noteq> k}"
  by (auto simp: jsmap_delete_def)

section \<open>JavaScript Set: a duplicate-free list in insertion order\<close>

definition jsset_add :: "'a \<Rightarrow> 'a list \<Rightarrow> 'a list" where
  "jsset_add x xs = (if x \<in> set xs then xs else xs @ [x])"

definition jsset_delete :: "'a \<Rightarrow> 'a list \<Rightarrow> 'a list" where
  "jsset_delete x xs = filter (\<lambda>y. y \<noteq> x) xs"

lemma set_jsset_add [js_simps, simp]: "set (jsset_add x xs) = insert x (set xs)"
  by (auto simp: jsset_add_def)

lemma set_jsset_delete [js_simps, simp]: "set (jsset_delete x xs) = set xs - {x}"
  by (auto simp: jsset_delete_def)

lemma distinct_jsset_add [inv_rules, intro]: "distinct xs \<Longrightarrow> distinct (jsset_add x xs)"
  by (simp add: jsset_add_def)

lemma distinct_jsset_delete [inv_rules, intro]: "distinct xs \<Longrightarrow> distinct (jsset_delete x xs)"
  by (simp add: jsset_delete_def)

section \<open>The contract of a keyed store, and its provider\<close>

text \<open>
  Several components only need a store that returns what was put last under a key and forgets what
  was deleted.  Their lemmas are proved once over this contract; the JavaScript \<^verbatim>\<open>Map\<close> above
  provides it.
\<close>

locale keyed_store =
  fixes empty :: "'m"
    and get :: "'m \<Rightarrow> 'k \<Rightarrow> 'v option"
    and put :: "'k \<Rightarrow> 'v \<Rightarrow> 'm \<Rightarrow> 'm"
    and del :: "'k \<Rightarrow> 'm \<Rightarrow> 'm"
    and ok :: "'m \<Rightarrow> bool"
  assumes get_empty: "get empty k = None"
    and get_put: "get (put k v m) k' = (if k = k' then Some v else get m k')"
    and get_del: "get (del k m) k' = (if k = k' then None else get m k')"
    and ok_empty: "ok empty"
    and ok_put: "ok m \<Longrightarrow> ok (put k v m)"
    and ok_del: "ok m \<Longrightarrow> ok (del k m)"
begin

lemma ok_fold_put: "ok m \<Longrightarrow> ok (fold (\<lambda>(k, v). put k v) kvs m)"
  by (induction kvs arbitrary: m) (auto intro: ok_put)

lemma get_fold_put:
  "get (fold (\<lambda>(k, v). put k v) kvs m) k =
     (case map_of (rev kvs) k of Some v \<Rightarrow> Some v | None \<Rightarrow> get m k)"
  by (induction kvs arbitrary: m) (auto simp: get_put map_add_def split: option.splits)

lemma get_fold_del:
  "get (fold del ks m) k = (if k \<in> set ks then None else get m k)"
  by (induction ks arbitrary: m) (auto simp: get_del)

end

interpretation jsm: keyed_store "[]" "map_of" jsmap_set jsmap_delete jsmap_ok
  by unfold_locales auto

section \<open>Strings\<close>

text \<open>
  White space as \<^verbatim>\<open>String.prototype.trim\<close> and the regular expression class \<^verbatim>\<open>\s\<close> know it
  within Latin-1: tab, line feed, vertical tab, form feed, carriage return, space and the
  no-break space.
\<close>

definition js_space :: "char \<Rightarrow> bool" where
  "js_space c \<longleftrightarrow> (of_char c :: nat) \<in> {9, 10, 11, 12, 13, 32, 160}"

definition js_trim_start :: "string \<Rightarrow> string" where
  "js_trim_start s = dropWhile js_space s"

definition js_trim :: "string \<Rightarrow> string" where
  "js_trim s = rev (dropWhile js_space (rev (dropWhile js_space s)))"

text \<open>\<^verbatim>\<open>toLowerCase\<close> on the Latin-1 range: A--Z and the accented capitals except the times sign.\<close>

definition js_lower_char :: "char \<Rightarrow> char" where
  "js_lower_char c =
     (let n = (of_char c :: nat)
      in if (65 \<le> n \<and> n \<le> 90) \<or> (192 \<le> n \<and> n \<le> 222 \<and> n \<noteq> 215) then char_of (n + 32) else c)"

definition js_lower :: "string \<Rightarrow> string" where
  "js_lower s = map js_lower_char s"

text \<open>
  \<^verbatim>\<open>text.indexOf(pattern, from)\<close>: the least start position not below \<open>from\<close>, if any.
\<close>

fun prefix_of :: "'a list \<Rightarrow> 'a list \<Rightarrow> bool" where
  "prefix_of [] ys = True"
| "prefix_of (x # xs) [] = False"
| "prefix_of (x # xs) (y # ys) = (x = y \<and> prefix_of xs ys)"

fun index_in :: "'a list \<Rightarrow> 'a list \<Rightarrow> nat option" where
  "index_in pat [] = (if pat = [] then Some 0 else None)"
| "index_in pat (y # ys) =
     (if prefix_of pat (y # ys) then Some 0 else map_option Suc (index_in pat ys))"

definition js_index_of :: "'a list \<Rightarrow> 'a list \<Rightarrow> nat \<Rightarrow> nat option" where
  "js_index_of text pat from =
     map_option (\<lambda>i. i + min from (length text)) (index_in pat (drop from text))"

definition js_includes :: "'a list \<Rightarrow> 'a list \<Rightarrow> bool" where
  "js_includes text pat \<longleftrightarrow> index_in pat text \<noteq> None"

definition js_starts_with :: "'a list \<Rightarrow> 'a list \<Rightarrow> bool" where
  "js_starts_with text pat \<longleftrightarrow> prefix_of pat text"

definition js_ends_with :: "'a list \<Rightarrow> 'a list \<Rightarrow> bool" where
  "js_ends_with text pat \<longleftrightarrow> prefix_of (rev pat) (rev text)"

text \<open>\<^verbatim>\<open>Array.prototype.join\<close> on strings, and \<^verbatim>\<open>split\<close> on one separator character.\<close>

fun js_join :: "'a list \<Rightarrow> 'a list list \<Rightarrow> 'a list" where
  "js_join sep [] = []"
| "js_join sep [x] = x"
| "js_join sep (x # y # xs) = x @ sep @ js_join sep (y # xs)"

fun js_split :: "'a \<Rightarrow> 'a list \<Rightarrow> 'a list list" where
  "js_split sep [] = [[]]"
| "js_split sep (c # cs) =
     (if c = sep then [] # js_split sep cs
      else case js_split sep cs of [] \<Rightarrow> [[c]] | w # ws \<Rightarrow> (c # w) # ws)"

lemma prefix_of_iff: "prefix_of xs ys \<longleftrightarrow> (\<exists>zs. ys = xs @ zs)"
  by (induction xs ys rule: prefix_of.induct) auto

lemma prefix_of_append [simp]: "prefix_of xs (xs @ ys)"
  by (auto simp: prefix_of_iff)

lemma index_in_Some:
  "index_in pat xs = Some i \<Longrightarrow> i \<le> length xs \<and> take (length pat) (drop i xs) = pat
     \<and> i + length pat \<le> length xs"
proof (induction pat xs arbitrary: i rule: index_in.induct)
  case (1 pat)
  then show ?case by (auto split: if_splits)
next
  case (2 pat y ys)
  show ?case
  proof (cases "prefix_of pat (y # ys)")
    case True
    then obtain zs where zs: "y # ys = pat @ zs" by (auto simp: prefix_of_iff)
    from True "2.prems" have "i = 0" by simp
    with zs show ?thesis by simp
  next
    case False
    with "2.prems" obtain j where j: "index_in pat ys = Some j" "i = Suc j" by auto
    with "2.IH" [OF False j(1)] show ?thesis by auto
  qed
qed

lemma index_in_None: "index_in pat xs = None \<Longrightarrow> take (length pat) (drop i xs) = pat \<Longrightarrow> False"
proof (induction pat xs arbitrary: i rule: index_in.induct)
  case (1 pat)
  then show ?case by (cases pat) auto
next
  case (2 pat y ys)
  then have np: "\<not> prefix_of pat (y # ys)" and n: "index_in pat ys = None"
    by (auto split: if_splits)
  show ?case
  proof (cases i)
    case 0
    with "2.prems" np show ?thesis
      by (metis append_take_drop_id drop0 prefix_of_append)
  next
    case (Suc j)
    with "2.prems" have "take (length pat) (drop j ys) = pat" by simp
    with "2.IH" [OF np n] show ?thesis by blast
  qed
qed

lemma js_split_nonempty [simp]: "js_split sep xs \<noteq> []"
  by (induction xs) (auto split: list.splits)

lemma js_join_Cons: "ws \<noteq> [] \<Longrightarrow> js_join sep (w # ws) = w @ sep @ js_join sep ws"
  by (cases ws) auto

lemma js_join_split [simp]: "js_join [sep] (js_split sep xs) = xs"
proof (induction xs)
  case (Cons c cs)
  obtain w ws where s: "js_split sep cs = w # ws"
    using js_split_nonempty [of sep cs] by (cases "js_split sep cs") blast+
  then show ?case using Cons by (cases ws) auto
qed simp

lemma js_split_chars: "w \<in> set (js_split sep d) \<Longrightarrow> set w \<subseteq> set d"
proof (induction d arbitrary: w)
  case (Cons c d)
  obtain v vs where v: "js_split sep d = v # vs" by (metis js_split_nonempty neq_Nil_conv)
  have "set u \<subseteq> set d" if "u = v \<or> u \<in> set vs" for u using Cons.IH [of u] that v by auto
  then show ?case using Cons.prems v by (auto split: if_splits) blast+
qed simp

lemma js_split_no_sep: "w \<in> set (js_split sep xs) \<Longrightarrow> sep \<notin> set w"
proof (induction xs arbitrary: w)
  case (Cons c cs)
  obtain v vs where s: "js_split sep cs = v # vs"
    using js_split_nonempty [of sep cs] by (cases "js_split sep cs") blast+
  from Cons.prems s Cons.IH show ?case by (auto split: if_splits)
qed simp

lemma dropWhile_id_iff: "dropWhile P xs = xs \<longleftrightarrow> xs = [] \<or> \<not> P (hd xs)"
proof (cases xs)
  case (Cons a ys)
  have "dropWhile P ys \<noteq> a # ys"
    by (metis impossible_Cons length_dropWhile_le)
  with Cons show ?thesis by simp
qed simp

lemma js_trim_idem [simp]: "js_trim (js_trim s) = js_trim s"
proof -
  let ?d = "dropWhile js_space s"
  let ?t = "rev (dropWhile js_space (rev ?d))"
  have "?t = [] \<or> \<not> js_space (hd ?t)"
  proof (cases "?t = []")
    case False
    have "?d = ?t @ rev (takeWhile js_space (rev ?d))"
      by (metis rev_append rev_rev_ident takeWhile_dropWhile_id)
    with False have "hd ?d = hd ?t" by (metis hd_append2)
    moreover from False have "?d \<noteq> []" by (metis dropWhile.simps(1) rev.simps(1))
    ultimately show ?thesis by (metis hd_dropWhile)
  qed simp
  then have "dropWhile js_space ?t = ?t" by (simp only: dropWhile_id_iff)
  moreover have "dropWhile js_space (rev ?t) = rev ?t" by simp
  ultimately show ?thesis by (simp only: js_trim_def rev_rev_ident)
qed

end
