(* ===== verification/Js_Json.thy ===== *)
theory Js_Json
  imports Oyster_Prelude
begin

text \<open>
  The part of the standard library's \<^verbatim>\<open>JSON\<close> object the program relies on: values,
  \<^verbatim>\<open>JSON.stringify\<close> without a replacer or indentation, and \<^verbatim>\<open>JSON.parse\<close>.  Numbers are
  integers (the program stores only integral numbers in the texts it parses back) and strings range
  over the Latin-1 code units; a text with a fraction, an exponent or a \<^verbatim>\<open>\u\<close> escape above
  \<open>00ff\<close> is not represented and reads as a syntax error.  The main result is that parsing undoes
  printing for every value whose objects have distinct keys.
\<close>

datatype json =
    JNull
  | JBool bool
  | JNum int
  | JStr string
  | JArr "json list"
  | JObj "(string \<times> json) list"

text \<open>Property access \<^verbatim>\<open>value.key\<close>; \<^term>\<open>None\<close> is \<^verbatim>\<open>undefined\<close>.\<close>

fun js_get :: "json \<Rightarrow> string \<Rightarrow> json option" where
  "js_get (JObj m) k = map_of m k"
| "js_get _ k = None"

section \<open>Printing\<close>

definition hex_digit :: "nat \<Rightarrow> char" where
  "hex_digit n = (if n < 10 then char_of (48 + n) else char_of (87 + n))"

definition json_escape :: "char \<Rightarrow> string" where
  "json_escape c =
     (if c = CHR 0x22 then [CHR 0x5C, CHR 0x22]
      else if c = CHR 0x5C then [CHR 0x5C, CHR 0x5C]
      else if c = CHR 0x08 then [CHR 0x5C, CHR ''b'']
      else if c = CHR 0x09 then [CHR 0x5C, CHR ''t'']
      else if c = CHR 0x0A then [CHR 0x5C, CHR ''n'']
      else if c = CHR 0x0C then [CHR 0x5C, CHR ''f'']
      else if c = CHR 0x0D then [CHR 0x5C, CHR ''r'']
      else if (of_char c :: nat) < 32
        then [CHR 0x5C, CHR ''u'', CHR ''0'', CHR ''0'',
              hex_digit (of_char c div 16), hex_digit (of_char c mod 16)]
      else [c])"

definition json_quote :: "string \<Rightarrow> string" where
  "json_quote s = [CHR 0x22] @ concat (map json_escape s) @ [CHR 0x22]"

fun nat_text :: "nat \<Rightarrow> string" where
  "nat_text n = (if n < 10 then [char_of (48 + n)] else nat_text (n div 10) @ [char_of (48 + n mod 10)])"

declare nat_text.simps [simp del]

definition int_text :: "int \<Rightarrow> string" where
  "int_text i = (if i < 0 then CHR ''-'' # nat_text (nat (- i)) else nat_text (nat i))"

fun json_text :: "json \<Rightarrow> string"
  and json_items :: "json list \<Rightarrow> string"
  and json_fields :: "(string \<times> json) list \<Rightarrow> string" where
  "json_text JNull = ''null''"
| "json_text (JBool True) = ''true''"
| "json_text (JBool False) = ''false''"
| "json_text (JNum i) = int_text i"
| "json_text (JStr s) = json_quote s"
| "json_text (JArr vs) = CHR ''['' # json_items vs @ '']''"
| "json_text (JObj fs) = CHR ''{'' # json_fields fs @ ''}''"
| "json_items [] = []"
| "json_items [v] = json_text v"
| "json_items (v # w # vs) = json_text v @ '','' @ json_items (w # vs)"
| "json_fields [] = []"
| "json_fields [(k, v)] = json_quote k @ '':'' @ json_text v"
| "json_fields ((k, v) # f # fs) = json_quote k @ '':'' @ json_text v @ '','' @ json_fields (f # fs)"

section \<open>Parsing\<close>

definition json_ws :: "char \<Rightarrow> bool" where
  "json_ws c \<longleftrightarrow> c = CHR 0x20 \<or> c = CHR 0x09 \<or> c = CHR 0x0A \<or> c = CHR 0x0D"

abbreviation skip_ws :: "string \<Rightarrow> string" where
  "skip_ws s \<equiv> dropWhile json_ws s"

definition is_digit :: "char \<Rightarrow> bool" where
  "is_digit c \<longleftrightarrow> 48 \<le> (of_char c :: nat) \<and> (of_char c :: nat) \<le> 57"

definition hex_value :: "char \<Rightarrow> nat option" where
  "hex_value c =
     (let n = (of_char c :: nat)
      in if 48 \<le> n \<and> n \<le> 57 then Some (n - 48)
         else if 97 \<le> n \<and> n \<le> 102 then Some (n - 87)
         else if 65 \<le> n \<and> n \<le> 70 then Some (n - 55) else None)"

definition json_unescape :: "char \<Rightarrow> char option" where
  "json_unescape c =
     (if c = CHR 0x22 then Some (CHR 0x22) else if c = CHR 0x5C then Some (CHR 0x5C)
      else if c = CHR 0x2F then Some (CHR 0x2F) else if c = CHR ''b'' then Some (CHR 0x08)
      else if c = CHR ''t'' then Some (CHR 0x09) else if c = CHR ''n'' then Some (CHR 0x0A)
      else if c = CHR ''f'' then Some (CHR 0x0C) else if c = CHR ''r'' then Some (CHR 0x0D)
      else None)"

definition json_unicode :: "char \<Rightarrow> char \<Rightarrow> char \<Rightarrow> char \<Rightarrow> char option" where
  "json_unicode a b c d =
     (case (hex_value a, hex_value b, hex_value c, hex_value d) of
        (Some w, Some x, Some y, Some z) \<Rightarrow>
          if w = 0 \<and> x = 0 then Some (char_of (16 * y + z)) else None
      | _ \<Rightarrow> None)"

text \<open>The body of a string literal after its opening quote: the string and the text behind it.\<close>

fun parse_chars :: "string \<Rightarrow> (string \<times> string) option" where
  "parse_chars [] = None"
| "parse_chars (c # cs) =
     (if c = CHR 0x22 then Some ([], cs)
      else if c = CHR 0x5C then
        (case cs of
           [] \<Rightarrow> None
         | e # es \<Rightarrow>
             if e = CHR ''u'' then
               (case es of
                  a # b # x # y # rest \<Rightarrow>
                    (case json_unicode a b x y of
                       None \<Rightarrow> None
                     | Some d \<Rightarrow> map_option (\<lambda>(s, r). (d # s, r)) (parse_chars rest))
                | _ \<Rightarrow> None)
             else
               (case json_unescape e of
                  None \<Rightarrow> None
                | Some d \<Rightarrow> map_option (\<lambda>(s, r). (d # s, r)) (parse_chars es)))
      else if (of_char c :: nat) < 32 then None
      else map_option (\<lambda>(s, r). (c # s, r)) (parse_chars cs))"

fun digits_value :: "nat \<Rightarrow> string \<Rightarrow> nat" where
  "digits_value n [] = n"
| "digits_value n (c # cs) = digits_value (10 * n + (of_char c - 48)) cs"

definition parse_nat :: "string \<Rightarrow> (nat \<times> string) option" where
  "parse_nat s =
     (let ds = takeWhile is_digit s; rest = dropWhile is_digit s
      in if ds = [] \<or> (length ds > 1 \<and> hd ds = CHR ''0'')
            \<or> (rest \<noteq> [] \<and> hd rest \<in> {CHR ''.'', CHR ''e'', CHR ''E''}) then None
         else Some (digits_value 0 ds, rest))"

definition parse_int :: "string \<Rightarrow> (int \<times> string) option" where
  "parse_int s =
     (case s of
        [] \<Rightarrow> None
      | c # cs \<Rightarrow>
          if c = CHR ''-'' then map_option (\<lambda>(n, r). (- int n, r)) (parse_nat cs)
          else map_option (\<lambda>(n, r). (int n, r)) (parse_nat s))"

text \<open>
  The recursive descent, on fuel.  At most two recursive calls follow one consumed character, so
  twice the length of the text is enough for \<open>json_parse\<close> below; \<open>json_parse_text\<close> shows that it is
  for every printed value.
\<close>

fun parse_value :: "nat \<Rightarrow> string \<Rightarrow> (json \<times> string) option"
  and parse_items :: "nat \<Rightarrow> string \<Rightarrow> (json list \<times> string) option"
  and parse_fields :: "nat \<Rightarrow> string \<Rightarrow> ((string \<times> json) list \<times> string) option" where
  "parse_value 0 s = None"
| "parse_value (Suc n) s =
     (case skip_ws s of
        [] \<Rightarrow> None
      | c # cs \<Rightarrow>
          if c = CHR 0x22 then map_option (\<lambda>(t, r). (JStr t, r)) (parse_chars cs)
          else if c = CHR ''['' then
            (case skip_ws cs of
               d # ds \<Rightarrow> if d = CHR '']'' then Some (JArr [], ds)
                         else map_option (\<lambda>(vs, r). (JArr vs, r)) (parse_items n cs)
             | [] \<Rightarrow> None)
          else if c = CHR ''{'' then
            (case skip_ws cs of
               d # ds \<Rightarrow> if d = CHR ''}'' then Some (JObj [], ds)
                         else map_option (\<lambda>(fs, r). (JObj (fold (\<lambda>(k, v). jsmap_set k v) fs []), r))
                                (parse_fields n cs)
             | [] \<Rightarrow> None)
          else if prefix_of ''null'' (c # cs) then Some (JNull, drop 4 (c # cs))
          else if prefix_of ''true'' (c # cs) then Some (JBool True, drop 4 (c # cs))
          else if prefix_of ''false'' (c # cs) then Some (JBool False, drop 5 (c # cs))
          else map_option (\<lambda>(i, r). (JNum i, r)) (parse_int (c # cs)))"
| "parse_items 0 s = None"
| "parse_items (Suc n) s =
     (case parse_value n s of
        None \<Rightarrow> None
      | Some (v, r) \<Rightarrow>
          (case skip_ws r of
             c # cs \<Rightarrow>
               if c = CHR '']'' then Some ([v], cs)
               else if c = CHR '','' then map_option (\<lambda>(vs, t). (v # vs, t)) (parse_items n cs)
               else None
           | [] \<Rightarrow> None))"
| "parse_fields 0 s = None"
| "parse_fields (Suc n) s =
     (case skip_ws s of
        [] \<Rightarrow> None
      | q # qs \<Rightarrow>
          if q \<noteq> CHR 0x22 then None
          else
            (case parse_chars qs of
               None \<Rightarrow> None
             | Some (k, r) \<Rightarrow>
                 (case skip_ws r of
                    [] \<Rightarrow> None
                  | c # cs \<Rightarrow>
                      if c \<noteq> CHR '':'' then None
                      else
                        (case parse_value n cs of
                           None \<Rightarrow> None
                         | Some (v, r') \<Rightarrow>
                             (case skip_ws r' of
                                d # ds \<Rightarrow>
                                  if d = CHR ''}'' then Some ([(k, v)], ds)
                                  else if d = CHR '',''
                                    then map_option (\<lambda>(fs, t). ((k, v) # fs, t)) (parse_fields n ds)
                                  else None
                              | [] \<Rightarrow> None)))))"

definition json_parse :: "string \<Rightarrow> json option" where
  "json_parse s =
     (case parse_value (2 * length s + 2) s of
        Some (v, r) \<Rightarrow> if skip_ws r = [] then Some v else None
      | None \<Rightarrow> None)"

section \<open>Parsing undoes printing\<close>

fun json_ok :: "json \<Rightarrow> bool" where
  "json_ok (JArr vs) = (\<forall>v \<in> set vs. json_ok v)"
| "json_ok (JObj fs) = (distinct (map fst fs) \<and> (\<forall>kv \<in> set fs. json_ok (snd kv)))"
| "json_ok _ = True"

definition num_stop :: "string \<Rightarrow> bool" where
  "num_stop s \<longleftrightarrow> (case s of [] \<Rightarrow> True
     | c # _ \<Rightarrow> \<not> is_digit c \<and> c \<notin> {CHR ''.'', CHR ''e'', CHR ''E''})"

lemma num_stop_simps [simp]:
  "num_stop []" "num_stop (CHR '']'' # s)" "num_stop (CHR '','' # s)" "num_stop (CHR ''}'' # s)"
  by (simp_all add: num_stop_def is_digit_def)

lemma hex_value_digit: "k < 16 \<Longrightarrow> hex_value (hex_digit k) = Some k"
  by (auto simp: hex_value_def hex_digit_def of_char_of Let_def)

lemma json_unicode_escape:
  assumes "(of_char c :: nat) < 32"
  shows "json_unicode (CHR ''0'') (CHR ''0'') (hex_digit (of_char c div 16))
     (hex_digit (of_char c mod 16)) = Some c"
proof -
  have "hex_value (CHR ''0'') = Some 0" by (simp add: hex_value_def)
  moreover have "(of_char c :: nat) div 16 < 16" using assms by simp
  ultimately show ?thesis
    by (simp add: json_unicode_def hex_value_digit)
qed

lemma parse_chars_escape:
  "parse_chars (json_escape c @ t) = map_option (\<lambda>(s, r). (c # s, r)) (parse_chars t)"
proof (cases "c \<in> {CHR 0x22, CHR 0x5C, CHR 0x08, CHR 0x09, CHR 0x0A, CHR 0x0C, CHR 0x0D}")
  case True
  then show ?thesis by (auto simp: json_escape_def json_unescape_def)
next
  case False
  then show ?thesis
    by (cases "(of_char c :: nat) < 32")
      (auto simp: json_escape_def json_unicode_escape simp del: parse_chars.simps(1))
qed

lemma parse_chars_quote:
  "parse_chars (concat (map json_escape s) @ CHR 0x22 # rest) = Some (s, rest)"
  by (induction s) (simp_all add: parse_chars_escape del: parse_chars.simps(2), simp)

lemma is_digit_char_of: "(d::nat) < 10 \<Longrightarrow> is_digit (char_of (48 + d))"
  by (simp add: is_digit_def of_char_of)

lemma nat_text_digits: "c \<in> set (nat_text n) \<Longrightarrow> is_digit c"
proof (induction n rule: nat_text.induct)
  case (1 n)
  then show ?case
    by (subst (asm) (2) nat_text.simps) (auto split: if_splits intro: is_digit_char_of)
qed

lemma nat_text_nonempty [simp]: "nat_text n \<noteq> []"
  by (subst nat_text.simps) simp

lemma digits_value_append: "digits_value k (xs @ ys) = digits_value (digits_value k xs) ys"
  by (induction xs arbitrary: k) auto

lemma digits_value_nat_text: "digits_value 0 (nat_text n) = n"
proof (induction n rule: nat_text.induct)
  case (1 n)
  show ?case
  proof (cases "n < 10")
    case True
    then show ?thesis by (subst nat_text.simps) (simp add: of_char_of)
  next
    case False
    with 1 have "digits_value 0 (nat_text (n div 10)) = n div 10" by simp
    with False show ?thesis
      by (subst nat_text.simps) (simp add: digits_value_append of_char_of)
  qed
qed

lemma nat_text_no_leading_zero: "hd (nat_text n) = CHR ''0'' \<Longrightarrow> length (nat_text n) = 1"
proof (induction n rule: nat_text.induct)
  case (1 n)
  show ?case
  proof (cases "n < 10")
    case True
    then show ?thesis by (subst nat_text.simps) simp
  next
    case False
    have e: "nat_text n = nat_text (n div 10) @ [char_of (48 + n mod 10)]"
      using False by (subst nat_text.simps) simp
    with "1.prems" have z: "hd (nat_text (n div 10)) = CHR ''0''" by simp
    with "1.IH" False have l: "length (nat_text (n div 10)) = 1" by simp
    with z have "nat_text (n div 10) = [CHR ''0'']"
      by (cases "nat_text (n div 10)") auto
    then have "n div 10 = 0" using digits_value_nat_text [of "n div 10"] by simp
    with False show ?thesis by simp
  qed
qed

lemma parse_nat_text: "num_stop rest \<Longrightarrow> parse_nat (nat_text n @ rest) = Some (n, rest)"
proof -
  assume stop: "num_stop rest"
  have "takeWhile is_digit rest = []" "dropWhile is_digit rest = rest"
    using stop by (cases rest; simp add: num_stop_def)+
  then have t: "takeWhile is_digit (nat_text n @ rest) = nat_text n"
    and d: "dropWhile is_digit (nat_text n @ rest) = rest"
    using nat_text_digits by (simp_all add: takeWhile_append2 dropWhile_append2)
  have h: "rest = [] \<or> hd rest \<notin> {CHR ''.'', CHR ''e'', CHR ''E''}"
    using stop by (cases rest) (auto simp: num_stop_def)
  show ?thesis
    using nat_text_no_leading_zero [of n] h
    by (auto simp: parse_nat_def t d Let_def digits_value_nat_text)
qed

lemma nat_text_hd: "\<exists>c cs. nat_text n = c # cs \<and> is_digit c"
  using nat_text_digits [of _ n] by (cases "nat_text n") auto

lemma parse_int_text: "num_stop rest \<Longrightarrow> parse_int (int_text i @ rest) = Some (i, rest)"
proof -
  assume stop: "num_stop rest"
  obtain c cs where c: "nat_text (nat i) = c # cs" "is_digit c" using nat_text_hd by blast
  then have "c \<noteq> CHR ''-''" by (auto simp: is_digit_def)
  with c stop parse_nat_text [OF stop, of "nat i"] show ?thesis
    by (auto simp: parse_int_def int_text_def parse_nat_text)
qed

definition text_start :: "char \<Rightarrow> bool" where
  "text_start c \<longleftrightarrow> \<not> json_ws c \<and> c \<notin> {CHR '']'', CHR ''}'', CHR '','', CHR '':''}"

lemma json_text_head: "\<exists>c cs. json_text v = c # cs \<and> text_start c"
proof (cases v)
  case (JBool b)
  then show ?thesis by (cases b) (auto simp: text_start_def json_ws_def)
next
  case (JNum i)
  obtain c cs where "nat_text (nat i) = c # cs" "is_digit c" using nat_text_hd by blast
  then show ?thesis using JNum
    by (auto simp: int_text_def text_start_def json_ws_def is_digit_def)
qed (auto simp: json_quote_def text_start_def json_ws_def)

lemma json_items_head:
  assumes "vs \<noteq> []"
  shows "\<exists>c cs. json_items vs = c # cs \<and> text_start c"
proof -
  from assms obtain v ws where vs: "vs = v # ws" by (cases vs) auto
  obtain c cs where "json_text v = c # cs" "text_start c" using json_text_head by blast
  then show ?thesis using vs by (cases ws) auto
qed

lemma json_fields_head: "fs \<noteq> [] \<Longrightarrow> \<exists>cs. json_fields fs = CHR 0x22 # cs"
  by (cases fs rule: json_fields.cases) (auto simp: json_quote_def)

lemma skip_ws_start: "text_start c \<Longrightarrow> skip_ws (c # cs) = c # cs"
  by (simp add: text_start_def)

lemma fold_jsmap_set:
  "distinct (map fst m @ map fst fs) \<Longrightarrow> fold (\<lambda>(k, v). jsmap_set k v) fs m = m @ fs"
proof (induction fs arbitrary: m)
  case (Cons f fs)
  obtain k v where f: "f = (k, v)" by fastforce
  have "k \<notin> set (map fst m) \<Longrightarrow> jsmap_set k v m = m @ [(k, v)]" for m :: "('a, 'b) jsmap"
    by (induction m) auto
  then have "jsmap_set k v m = m @ [(k, v)]" using Cons.prems f by simp
  then show ?case using Cons.IH [of "m @ [(k, v)]"] Cons.prems f by simp
qed simp

text \<open>The value, item list and field list statements, for one proof by simultaneous induction.\<close>

definition reads_value :: "json \<Rightarrow> bool" where
  "reads_value v \<longleftrightarrow> (\<forall>n rest. json_ok v \<longrightarrow> num_stop rest \<longrightarrow> 2 * length (json_text v) \<le> n \<longrightarrow>
     parse_value n (json_text v @ rest) = Some (v, rest))"

definition reads_items :: "json list \<Rightarrow> bool" where
  "reads_items vs \<longleftrightarrow> (\<forall>n rest. vs \<noteq> [] \<longrightarrow> (\<forall>v \<in> set vs. json_ok v) \<longrightarrow>
     2 * length (json_items vs) + 1 \<le> n \<longrightarrow>
     parse_items n (json_items vs @ '']'' @ rest) = Some (vs, rest))"

definition reads_fields :: "(string \<times> json) list \<Rightarrow> bool" where
  "reads_fields fs \<longleftrightarrow> (\<forall>n rest. fs \<noteq> [] \<longrightarrow> (\<forall>kv \<in> set fs. json_ok (snd kv)) \<longrightarrow>
     2 * length (json_fields fs) + 1 \<le> n \<longrightarrow>
     parse_fields n (json_fields fs @ ''}'' @ rest) = Some (fs, rest))"

lemma reads_num: "reads_value (JNum i)"
  unfolding reads_value_def
proof (intro allI impI)
  fix n rest
  assume stop: "num_stop rest" and n: "2 * length (json_text (JNum i)) \<le> n"
  obtain c cs where c: "int_text i = c # cs" "c = CHR ''-'' \<or> is_digit c"
    using nat_text_hd [of "nat i"] by (cases "i < 0") (auto simp: int_text_def)
  then obtain m where m: "n = Suc m" using n by (cases n) auto
  from c(2) have "\<not> json_ws c" "c \<notin> {CHR 0x22, CHR ''['', CHR ''{'', CHR ''n'', CHR ''t'', CHR ''f''}"
    by (auto simp: is_digit_def json_ws_def)
  then show "parse_value n (json_text (JNum i) @ rest) = Some (JNum i, rest)"
    using c(1) m parse_int_text [OF stop, of i] by (auto split: if_splits)
qed

lemma reads_array:
  assumes "reads_items vs"
  shows "reads_value (JArr vs)"
  unfolding reads_value_def
proof (intro allI impI)
  fix n rest
  assume ok: "json_ok (JArr vs)" and n: "2 * length (json_text (JArr vs)) \<le> n"
  obtain m where m: "n = Suc m" using n by (cases n) auto
  show "parse_value n (json_text (JArr vs) @ rest) = Some (JArr vs, rest)"
  proof (cases "vs = []")
    case True
    then show ?thesis using m by (simp add: json_ws_def)
  next
    case False
    obtain c cs where c: "json_items vs = c # cs" "text_start c"
      using json_items_head [OF False] by blast
    have "parse_items m (json_items vs @ '']'' @ rest) = Some (vs, rest)"
      using assms ok False n m by (auto simp: reads_items_def)
    then show ?thesis using c m by (auto simp: json_ws_def text_start_def)
  qed
qed

lemma reads_object:
  assumes "reads_fields fs"
  shows "reads_value (JObj fs)"
  unfolding reads_value_def
proof (intro allI impI)
  fix n rest
  assume ok: "json_ok (JObj fs)" and n: "2 * length (json_text (JObj fs)) \<le> n"
  obtain m where m: "n = Suc m" using n by (cases n) auto
  show "parse_value n (json_text (JObj fs) @ rest) = Some (JObj fs, rest)"
  proof (cases "fs = []")
    case True
    then show ?thesis using m by (simp add: json_ws_def)
  next
    case False
    obtain cs where c: "json_fields fs = CHR 0x22 # cs"
      using json_fields_head [OF False] by blast
    have "parse_fields m (json_fields fs @ ''}'' @ rest) = Some (fs, rest)"
      using assms ok False n m by (auto simp: reads_fields_def)
    then show ?thesis using c m ok fold_jsmap_set [of "[]" fs] by (auto simp: json_ws_def)
  qed
qed

lemma reads_item_last: "reads_value v \<Longrightarrow> reads_items [v]"
  unfolding reads_items_def
proof (intro allI impI)
  fix n rest
  assume v: "reads_value v" and ok: "\<forall>v \<in> set [v]. json_ok v" and n: "2 * length (json_items [v]) + 1 \<le> n"
  obtain m where m: "n = Suc m" using n by (cases n) auto
  have "parse_value m (json_text v @ '']'' @ rest) = Some (v, '']'' @ rest)"
    using v ok n m by (auto simp: reads_value_def)
  then show "parse_items n (json_items [v] @ '']'' @ rest) = Some ([v], rest)"
    using m by (simp add: json_ws_def)
qed

lemma reads_item_more:
  assumes "reads_value v" and "reads_items (w # vs)"
  shows "reads_items (v # w # vs)"
  unfolding reads_items_def
proof (intro allI impI)
  fix n rest
  assume ok: "\<forall>u \<in> set (v # w # vs). json_ok u" and n: "2 * length (json_items (v # w # vs)) + 1 \<le> n"
  obtain m where m: "n = Suc m" using n by (cases n) auto
  let ?t = "json_items (w # vs) @ '']'' @ rest"
  have "parse_value m (json_text v @ '','' @ ?t) = Some (v, '','' @ ?t)"
    using assms(1) ok n m by (auto simp: reads_value_def)
  moreover have "parse_items m ?t = Some (w # vs, rest)"
    using assms(2) ok n m by (auto simp: reads_items_def)
  ultimately show "parse_items n (json_items (v # w # vs) @ '']'' @ rest) = Some (v # w # vs, rest)"
    using m by (simp add: json_ws_def)
qed

lemma parse_field_step:
  "parse_fields (Suc m) (json_quote k @ '':'' @ t) =
     (case parse_value m t of
        None \<Rightarrow> None
      | Some (v, r') \<Rightarrow>
          (case skip_ws r' of
             d # ds \<Rightarrow>
               if d = CHR ''}'' then Some ([(k, v)], ds)
               else if d = CHR '','' then map_option (\<lambda>(fs, t). ((k, v) # fs, t)) (parse_fields m ds)
               else None
           | [] \<Rightarrow> None))"
proof -
  have "parse_chars (concat (map json_escape k) @ CHR 0x22 # CHR '':'' # t) = Some (k, CHR '':'' # t)"
    by (rule parse_chars_quote)
  then show ?thesis by (simp add: json_quote_def json_ws_def)
qed

lemma reads_field_last: "reads_value v \<Longrightarrow> reads_fields [(k, v)]"
  unfolding reads_fields_def
proof (intro allI impI)
  fix n rest
  assume v: "reads_value v" and ok: "\<forall>kv \<in> set [(k, v)]. json_ok (snd kv)"
    and n: "2 * length (json_fields [(k, v)]) + 1 \<le> n"
  obtain m where m: "n = Suc m" using n by (cases n) auto
  have "parse_value m (json_text v @ ''}'' @ rest) = Some (v, ''}'' @ rest)"
    using v ok n m by (auto simp: reads_value_def)
  then show "parse_fields n (json_fields [(k, v)] @ ''}'' @ rest) = Some ([(k, v)], rest)"
    using m parse_field_step [of m k "json_text v @ ''}'' @ rest"] by (simp add: json_ws_def)
qed

lemma reads_field_more:
  assumes "reads_value v" and "reads_fields (f # fs)"
  shows "reads_fields ((k, v) # f # fs)"
  unfolding reads_fields_def
proof (intro allI impI)
  fix n rest
  assume ok: "\<forall>kv \<in> set ((k, v) # f # fs). json_ok (snd kv)"
    and n: "2 * length (json_fields ((k, v) # f # fs)) + 1 \<le> n"
  obtain m where m: "n = Suc m" using n by (cases n) auto
  let ?t = "json_fields (f # fs) @ ''}'' @ rest"
  have "parse_value m (json_text v @ '','' @ ?t) = Some (v, '','' @ ?t)"
    using assms(1) ok n m by (auto simp: reads_value_def)
  moreover have "parse_fields m ?t = Some (f # fs, rest)"
    using assms(2) ok n m by (auto simp: reads_fields_def)
  ultimately show "parse_fields n (json_fields ((k, v) # f # fs) @ ''}'' @ rest) = Some ((k, v) # f # fs, rest)"
    using m parse_field_step [of m k "json_text v @ '','' @ ?t"] by (simp add: json_ws_def)
qed

lemma reads_atoms: "reads_value JNull" "reads_value (JBool b)" "reads_value (JStr s)"
proof -
  have suc: "\<And>n. (0::nat) < n \<Longrightarrow> \<exists>m. n = Suc m" using gr0_implies_Suc by blast
  show "reads_value JNull" by (auto simp: reads_value_def json_ws_def dest!: suc [OF less_le_trans, rotated])
  show "reads_value (JBool b)"
    by (cases b) (auto simp: reads_value_def json_ws_def dest!: suc [OF less_le_trans, rotated])
  show "reads_value (JStr s)"
    by (auto simp: reads_value_def json_quote_def json_ws_def parse_chars_quote
        dest!: suc [OF less_le_trans, rotated])
qed

lemma reads_all: "reads_value v" "vs \<noteq> [] \<longrightarrow> reads_items vs" "fs \<noteq> [] \<longrightarrow> reads_fields fs"
proof (induction v and vs and fs rule: json_text_json_items_json_fields.induct)
  case (6 vs)
  moreover have "reads_items []" by (simp add: reads_items_def)
  ultimately show ?case by (cases "vs = []") (simp_all add: reads_array)
next
  case (7 fs)
  moreover have "reads_fields []" by (simp add: reads_fields_def)
  ultimately show ?case by (cases "fs = []") (simp_all add: reads_object)
qed (auto intro: reads_atoms reads_num reads_item_last reads_item_more reads_field_last reads_field_more)

lemma json_parse_text: "json_ok v \<Longrightarrow> json_parse (json_text v) = Some v"
proof -
  assume ok: "json_ok v"
  have "parse_value (2 * length (json_text v) + 2) (json_text v @ []) = Some (v, [])"
    using reads_all(1) [of v] ok unfolding reads_value_def by (metis le_add1 num_stop_simps(1))
  then show ?thesis by (simp add: json_parse_def del: parse_value.simps)
qed

end
