(* ===== verification/Session_References.thy ===== *)
theory Session_References
  imports Js_Json
begin

text \<open>
  \<^verbatim>\<open>server/session-references.mjs\<close>: the validation of session references against the configured
  store roots, the opaque \<^verbatim>\<open>ps1_\<close> keys that carry them over HTTP, and the resolver that accepts
  keys and legacy paths.  Raised errors are values of \<open>ref_error\<close>.  \<^verbatim>\<open>node:path\<close> is modelled for
  POSIX paths, \<^verbatim>\<open>Buffer\<close> for UTF-8 and base64url.  The text of a key is restricted to code points
  below 256, so a payload with other code points, or with malformed UTF-8 (which \<^verbatim>\<open>Buffer\<close> would
  replace by U+FFFD), reads as a bad payload.
\<close>

section \<open>POSIX paths\<close>

fun path_step :: "string list \<Rightarrow> string \<Rightarrow> string list" where
  "path_step acc seg =
     (if seg = [] \<or> seg = ''.'' then acc
      else if seg = ''..'' then butlast acc
      else acc @ [seg])"

definition path_segments :: "string \<Rightarrow> string list" where
  "path_segments p = foldl path_step [] (js_split (CHR ''/'') p)"

definition is_absolute :: "string \<Rightarrow> bool" where
  "is_absolute p \<longleftrightarrow> js_starts_with p ''/''"

definition path_of_segments :: "string list \<Rightarrow> string" where
  "path_of_segments segs = CHR ''/'' # js_join ''/'' segs"

text \<open>\<^verbatim>\<open>resolve(base, p)\<close> for an absolute \<open>base\<close>.\<close>

definition path_resolve :: "string \<Rightarrow> string \<Rightarrow> string" where
  "path_resolve base p =
     path_of_segments (path_segments (if is_absolute p then p else base @ ''/'' @ p))"

fun strip_common :: "'a list \<Rightarrow> 'a list \<Rightarrow> 'a list \<times> 'a list" where
  "strip_common (x # xs) (y # ys) = (if x = y then strip_common xs ys else (x # xs, y # ys))"
| "strip_common xs ys = (xs, ys)"

text \<open>\<^verbatim>\<open>relative(from, to)\<close> on absolute paths.\<close>

definition path_relative :: "string \<Rightarrow> string \<Rightarrow> string" where
  "path_relative from to =
     (case strip_common (path_segments from) (path_segments to) of
        (ups, downs) \<Rightarrow> js_join ''/'' (map (\<lambda>_. ''..'') ups @ downs))"

definition confinedTo :: "string \<Rightarrow> string \<Rightarrow> bool" where
  "confinedTo path root =
     (let rel = path_relative root path
      in rel = [] \<or> (\<not> js_starts_with rel ''..'' \<and> \<not> is_absolute rel))"

section \<open>The codec and its validation\<close>

datatype ref_error =
    BadPathOption string
  | NotAnObject
  | UnsupportedBackend
  | BadId
  | ExternalWithPath
  | MissingPath
  | OutsideJsonlRoot
  | WrongDatabase
  | BadKeyFormat
  | BadKeyPayload

record session_ref =
  sr_backend :: string
  sr_id :: string
  sr_path :: "string option"

record codec =
  cd_cwd :: string
  cd_agentDir :: string
  cd_jsonlRoot :: string
  cd_sqlitePath :: string

definition max_session_reference_length :: nat where
  "max_session_reference_length = 256"

definition external_backends :: "string list" where
  "external_backends = [''claude-code'', ''codex'', ''gemini'', ''amp'', ''antigravity'']"

definition backends :: "string list" where
  "backends = [''jsonl'', ''sqlite''] @ external_backends"

definition control_char :: "char \<Rightarrow> bool" where
  "control_char c \<longleftrightarrow> (of_char c :: nat) < 32 \<or> (127 \<le> (of_char c :: nat) \<and> (of_char c :: nat) \<le> 159)"

text \<open>
  \<^verbatim>\<open>requirePathOption\<close>: with \<open>optional\<close>, \<^verbatim>\<open>undefined\<close> (\<^term>\<open>None\<close>) passes through.
\<close>

definition requirePathOption :: "json option \<Rightarrow> string \<Rightarrow> bool \<Rightarrow> ref_error + string option" where
  "requirePathOption v name optional =
     (if optional \<and> v = None then Inr None
      else case v of
        Some (JStr s) \<Rightarrow> if js_trim s = [] then Inl (BadPathOption name) else Inr (Some s)
      | _ \<Rightarrow> Inl (BadPathOption name))"

definition requireId :: "json option \<Rightarrow> ref_error + string" where
  "requireId v =
     (case v of
        Some (JStr s) \<Rightarrow>
          if s = [] \<or> s \<noteq> js_trim s \<or> length s > max_session_reference_length
             \<or> (\<exists>c \<in> set s. control_char c)
          then Inl BadId else Inr s
      | _ \<Rightarrow> Inl BadId)"

definition createSessionReferenceCodec ::
  "string \<Rightarrow> json option \<Rightarrow> json option \<Rightarrow> json option \<Rightarrow> ref_error + codec" where
  "createSessionReferenceCodec cwd agentDir sqlitePath jsonlRoot =
     (case requirePathOption agentDir ''agentDir'' False of
        Inl e \<Rightarrow> Inl e
      | Inr dir \<Rightarrow>
          (let resolvedAgentDir = path_resolve cwd (the dir) in
           case requirePathOption jsonlRoot ''jsonlRoot'' True of
             Inl e \<Rightarrow> Inl e
           | Inr root \<Rightarrow>
               (case requirePathOption sqlitePath ''sqlitePath'' True of
                  Inl e \<Rightarrow> Inl e
                | Inr db \<Rightarrow> Inr \<lparr>
                    cd_cwd = cwd,
                    cd_agentDir = resolvedAgentDir,
                    cd_jsonlRoot = (case root of None \<Rightarrow> path_resolve resolvedAgentDir ''sessions''
                                    | Some r \<Rightarrow> path_resolve cwd r),
                    cd_sqlitePath = (case db of None \<Rightarrow> path_resolve resolvedAgentDir ''sessions.sqlite''
                                     | Some d \<Rightarrow> path_resolve cwd d)\<rparr>)))"

definition validateStoragePath :: "codec \<Rightarrow> string \<Rightarrow> json option \<Rightarrow> ref_error + string" where
  "validateStoragePath cd backend v =
     (case v of
        Some (JStr s) \<Rightarrow>
          if s = [] then Inl MissingPath
          else
            (let storagePath = path_resolve (cd_cwd cd) s in
             if backend = ''jsonl'' \<and> (\<not> js_ends_with storagePath ''.jsonl''
                  \<or> \<not> confinedTo storagePath (cd_jsonlRoot cd) \<or> storagePath = cd_jsonlRoot cd)
             then Inl OutsideJsonlRoot
             else if backend = ''sqlite'' \<and> storagePath \<noteq> cd_sqlitePath cd then Inl WrongDatabase
             else Inr storagePath)
      | _ \<Rightarrow> Inl MissingPath)"

definition validate :: "codec \<Rightarrow> json option \<Rightarrow> ref_error + session_ref" where
  "validate cd reference =
     (case reference of
        Some (JObj flds) \<Rightarrow>
          (case map_of flds ''backend'' of
             Some (JStr backend) \<Rightarrow>
               if backend \<notin> set backends then Inl UnsupportedBackend
               else
                 (case requireId (map_of flds ''id'') of
                    Inl e \<Rightarrow> Inl e
                  | Inr i \<Rightarrow>
                      if backend \<in> set external_backends then
                        (if map_of flds ''storagePath'' \<noteq> Some JNull \<and> map_of flds ''storagePath'' \<noteq> None
                         then Inl ExternalWithPath
                         else Inr \<lparr>sr_backend = backend, sr_id = i, sr_path = None\<rparr>)
                      else
                        (case validateStoragePath cd backend (map_of flds ''storagePath'') of
                           Inl e \<Rightarrow> Inl e
                         | Inr p \<Rightarrow> Inr \<lparr>sr_backend = backend, sr_id = i, sr_path = Some p\<rparr>))
           | _ \<Rightarrow> Inl UnsupportedBackend)
      | _ \<Rightarrow> Inl NotAnObject)"

definition path_json :: "string option \<Rightarrow> json" where
  "path_json p = (case p of None \<Rightarrow> JNull | Some s \<Rightarrow> JStr s)"

text \<open>A reference as the object the code passes around.\<close>

definition ref_json :: "session_ref \<Rightarrow> json" where
  "ref_json r = JObj [(''backend'', JStr (sr_backend r)), (''id'', JStr (sr_id r)),
                      (''storagePath'', path_json (sr_path r))]"

definition equals :: "codec \<Rightarrow> json option \<Rightarrow> json option \<Rightarrow> ref_error + bool" where
  "equals cd left right =
     (case validate cd left of
        Inl e \<Rightarrow> Inl e
      | Inr a \<Rightarrow>
          (case validate cd right of
             Inl e \<Rightarrow> Inl e
           | Inr b \<Rightarrow> Inr (sr_backend a = sr_backend b \<and> sr_id a = sr_id b \<and> sr_path a = sr_path b)))"

section \<open>UTF-8 and base64url\<close>

fun utf8_encode :: "string \<Rightarrow> nat list" where
  "utf8_encode [] = []"
| "utf8_encode (c # cs) =
     (let n = of_char c in
      if n < 128 then n # utf8_encode cs
      else (192 + n div 64) # (128 + n mod 64) # utf8_encode cs)"

fun utf8_decode :: "nat list \<Rightarrow> string option" where
  "utf8_decode [] = Some []"
| "utf8_decode (b # bs) =
     (if b < 128 then map_option (\<lambda>s. char_of b # s) (utf8_decode bs)
      else if b = 194 \<or> b = 195 then
        (case bs of
           d # ds \<Rightarrow> if 128 \<le> d \<and> d < 192
                     then map_option (\<lambda>s. char_of ((b - 192) * 64 + (d - 128)) # s) (utf8_decode ds)
                     else None
         | [] \<Rightarrow> None)
      else None)"

definition b64_char :: "nat \<Rightarrow> char" where
  "b64_char n =
     (if n < 26 then char_of (65 + n) else if n < 52 then char_of (71 + n)
      else if n < 62 then char_of (n - 4) else if n = 62 then CHR ''-'' else CHR ''_'')"

definition b64_value :: "char \<Rightarrow> nat" where
  "b64_value c =
     (let n = of_char c in
      if 65 \<le> n \<and> n \<le> 90 then n - 65 else if 97 \<le> n \<and> n \<le> 122 then n - 71
      else if 48 \<le> n \<and> n \<le> 57 then n + 4 else if c = CHR ''-'' then 62 else 63)"

definition b64_alphabet :: "char \<Rightarrow> bool" where
  "b64_alphabet c \<longleftrightarrow>
     (let n = (of_char c :: nat) in (65 \<le> n \<and> n \<le> 90) \<or> (97 \<le> n \<and> n \<le> 122) \<or> (48 \<le> n \<and> n \<le> 57))
     \<or> c = CHR ''-'' \<or> c = CHR ''_''"

fun b64_sextets :: "nat list \<Rightarrow> nat list" where
  "b64_sextets [] = []"
| "b64_sextets [a] = [a div 4, (a mod 4) * 16]"
| "b64_sextets [a, b] = [a div 4, (a mod 4) * 16 + b div 16, (b mod 16) * 4]"
| "b64_sextets (a # b # c # bs) =
     a div 4 # ((a mod 4) * 16 + b div 16) # ((b mod 16) * 4 + c div 64) # c mod 64 # b64_sextets bs"

fun b64_bytes :: "nat list \<Rightarrow> nat list" where
  "b64_bytes (w # x # y # z # r) =
     (w * 4 + x div 16) # ((x mod 16) * 16 + y div 4) # ((y mod 4) * 64 + z) # b64_bytes r"
| "b64_bytes [w, x, y] = [w * 4 + x div 16, (x mod 16) * 16 + y div 4]"
| "b64_bytes [w, x] = [w * 4 + x div 16]"
| "b64_bytes _ = []"

definition b64_encode :: "nat list \<Rightarrow> string" where
  "b64_encode bs = map b64_char (b64_sextets bs)"

definition b64_decode :: "string \<Rightarrow> nat list" where
  "b64_decode s = b64_bytes (map b64_value s)"

section \<open>Keys\<close>

definition key_prefix :: string where
  "key_prefix = ''ps1_''"

definition canonical_text :: "session_ref \<Rightarrow> string" where
  "canonical_text r =
     json_text (JObj [(''b'', JStr (sr_backend r)), (''i'', JStr (sr_id r)), (''p'', path_json (sr_path r))])"

definition serialize :: "codec \<Rightarrow> json option \<Rightarrow> ref_error + string" where
  "serialize cd reference =
     (case validate cd reference of
        Inl e \<Rightarrow> Inl e
      | Inr valid \<Rightarrow> Inr (key_prefix @ b64_encode (utf8_encode (canonical_text valid))))"

definition parse_payload :: "codec \<Rightarrow> string \<Rightarrow> session_ref option" where
  "parse_payload cd encoded =
     (let bytes = b64_decode encoded in
      if b64_encode bytes \<noteq> encoded then None
      else
        (case utf8_decode bytes of
           None \<Rightarrow> None
         | Some text \<Rightarrow>
             (case json_parse text of
                Some (JObj payload) \<Rightarrow>
                  (case validate cd (Some (JObj
                          (concat [case map_of payload ''b'' of None \<Rightarrow> [] | Some v \<Rightarrow> [(''backend'', v)],
                                   case map_of payload ''i'' of None \<Rightarrow> [] | Some v \<Rightarrow> [(''id'', v)],
                                   case map_of payload ''p'' of None \<Rightarrow> [] | Some v \<Rightarrow> [(''storagePath'', v)]]))) of
                     Inl _ \<Rightarrow> None
                   | Inr reference \<Rightarrow> if text \<noteq> canonical_text reference then None else Some reference)
              | _ \<Rightarrow> None)))"

definition parse_key :: "codec \<Rightarrow> json option \<Rightarrow> ref_error + session_ref" where
  "parse_key cd key =
     (case key of
        Some (JStr k) \<Rightarrow>
          if \<not> js_starts_with k key_prefix \<or> drop (length key_prefix) k = []
             \<or> (\<exists>c \<in> set (drop (length key_prefix) k). \<not> b64_alphabet c)
          then Inl BadKeyFormat
          else
            (case parse_payload cd (drop (length key_prefix) k) of
               None \<Rightarrow> Inl BadKeyPayload
             | Some r \<Rightarrow> Inr r)
      | _ \<Rightarrow> Inl BadKeyFormat)"

section \<open>Encoding lemmas\<close>

lemma char_code_less: "(of_char c :: nat) < 256"
  by (metis of_char_mod_256 mod_less_divisor zero_less_numeral)

lemma utf8_decode_encode [simp]: "utf8_decode (utf8_encode s) = Some s"
proof (induction s)
  case (Cons c cs)
  have lt: "(of_char c :: nat) < 256" by (rule char_code_less)
  show ?case
  proof (cases "(of_char c :: nat) < 128")
    case True
    then show ?thesis using Cons by (simp add: Let_def)
  next
    case False
    then have d: "(of_char c :: nat) div 64 = 2 \<or> (of_char c :: nat) div 64 = 3" using lt by linarith
    have "(of_char c div 64) * 64 + of_char c mod 64 = (of_char c :: nat)" by (simp add: mult.commute)
    moreover have "char_of (of_char c :: nat) = c" by simp
    ultimately show ?thesis using Cons False d by (auto simp: Let_def)
  qed
qed simp

lemma utf8_encode_decode: "utf8_decode bs = Some s \<Longrightarrow> utf8_encode s = bs"
proof (induction bs arbitrary: s rule: utf8_decode.induct)
  case (2 b bs)
  show ?case
  proof (cases "b < 128")
    case True
    then obtain t where "utf8_decode bs = Some t" "s = char_of b # t" using "2.prems" by auto
    then show ?thesis using "2.IH"(1) True by (simp add: of_char_of Let_def)
  next
    case False
    then obtain d ds t where d: "bs = d # ds" "128 \<le> d" "d < 192" "utf8_decode ds = Some t"
        "s = char_of ((b - 192) * 64 + (d - 128)) # t" and b: "b = 194 \<or> b = 195"
      using "2.prems" by (auto split: if_splits list.splits)
    then have t: "utf8_encode t = ds" using "2.IH"(2) False by auto
    let ?n = "(b - 192) * 64 + (d - 128)"
    have n: "?n < 256" "128 \<le> ?n" using b d(2,3) by auto
    have "?n div 64 = b - 192" "?n mod 64 = d - 128"
      using d(2,3) by (simp_all only: div_mult_self3 mod_mult_self3, simp_all)
    then have "192 + ?n div 64 = b" "128 + ?n mod 64 = d" using b d(2) by auto
    moreover have "(of_char (char_of ?n :: char) :: nat) = ?n"
      using n by (simp only: of_char_of) simp
    ultimately have "utf8_encode (char_of ?n # t) = b # d # ds"
      using n t by (simp only: utf8_encode.simps Let_def) simp
    then show ?thesis using d by simp
  qed
qed simp

lemma utf8_encode_bytes: "b \<in> set (utf8_encode s) \<Longrightarrow> b < 256"
proof (induction s)
  case (Cons c cs)
  have "(of_char c :: nat) < 256" by (rule char_code_less)
  then have "(of_char c :: nat) div 64 < 4" "(of_char c :: nat) mod 64 < 64"
    by (simp_all add: less_mult_imp_div_less)
  with Cons show ?case by (auto simp: Let_def split: if_splits)
qed simp

lemma b64_bytes_sextets: "(\<forall>b \<in> set bs. b < 256) \<Longrightarrow> b64_bytes (b64_sextets bs) = bs"
proof (induction bs rule: b64_sextets.induct)
  case (4 a b c bs)
  have "(a mod 4 * 16 + b div 16) div 16 = a mod 4" "(a mod 4 * 16 + b div 16) mod 16 = b div 16"
    "(b mod 16 * 4 + c div 64) div 4 = b mod 16" "(b mod 16 * 4 + c div 64) mod 4 = c div 64"
    using "4.prems" by auto
  with 4 show ?case by (simp add: mult.commute)
next
  case (3 a b)
  have "(a mod 4 * 16 + b div 16) div 16 = a mod 4" "(a mod 4 * 16 + b div 16) mod 16 = b div 16"
    using "3.prems" by auto
  with 3 show ?case by (simp add: mult.commute)
qed (simp_all add: mult.commute)

lemma b64_sextets_bound: "(\<forall>b \<in> set bs. b < 256) \<Longrightarrow> n \<in> set (b64_sextets bs) \<Longrightarrow> n < 64"
  by (induction bs rule: b64_sextets.induct) auto

lemma b64_value_char: "n < 64 \<Longrightarrow> b64_value (b64_char n) = n"
  by (auto simp: b64_value_def b64_char_def of_char_of Let_def)

lemma b64_alphabet_char: "n < 64 \<Longrightarrow> b64_alphabet (b64_char n)"
  by (auto simp: b64_alphabet_def b64_char_def of_char_of Let_def)

lemma b64_decode_encode:
  assumes "\<forall>b \<in> set bs. b < 256"
  shows "b64_decode (b64_encode bs) = bs"
proof -
  have "map (b64_value \<circ> b64_char) (b64_sextets bs) = b64_sextets bs"
    using b64_sextets_bound [OF assms] by (auto intro!: map_idI simp: b64_value_char)
  then show ?thesis using assms by (simp add: b64_decode_def b64_encode_def b64_bytes_sextets)
qed

section \<open>Path lemmas\<close>

lemma js_split_join:
  "ws \<noteq> [] \<Longrightarrow> (\<forall>w \<in> set ws. sep \<notin> set w) \<Longrightarrow> js_split sep (js_join [sep] ws) = ws"
proof (induction ws)
  case (Cons w ws)
  have one: "js_split sep w = [w]" if "sep \<notin> set w" for w :: "'a list"
    using that by (induction w) auto
  have more: "js_split sep (w @ sep # t) = w # js_split sep t" if "sep \<notin> set w" for w t :: "'a list"
    using that by (induction w) auto
  show ?case
    using Cons one [of w] more [of w] by (cases ws) auto
qed simp

definition clean_segment :: "string \<Rightarrow> bool" where
  "clean_segment w \<longleftrightarrow> w \<noteq> [] \<and> w \<noteq> ''.'' \<and> w \<noteq> ''..'' \<and> CHR ''/'' \<notin> set w"

lemma foldl_path_step_clean:
  "(\<forall>w \<in> set acc. clean_segment w) \<Longrightarrow> (\<forall>w \<in> set ws. CHR ''/'' \<notin> set w)
     \<Longrightarrow> \<forall>w \<in> set (foldl path_step acc ws). clean_segment w"
proof (induction ws arbitrary: acc)
  case (Cons w ws)
  have "\<forall>v \<in> set (path_step acc w). clean_segment v"
    using Cons.prems by (auto simp: clean_segment_def dest: in_set_butlastD)
  then show ?case using Cons by simp
qed simp

lemma path_segments_clean: "\<forall>w \<in> set (path_segments p). clean_segment w"
  using foldl_path_step_clean [of "[]"] js_split_no_sep by (force simp: path_segments_def)

lemma foldl_path_step_id:
  "\<forall>w \<in> set ws. clean_segment w \<Longrightarrow> foldl path_step acc ws = acc @ ws"
  by (induction ws arbitrary: acc) (auto simp: clean_segment_def)

lemma path_segments_of_segments:
  assumes "\<forall>w \<in> set ws. clean_segment w"
  shows "path_segments (path_of_segments ws) = ws"
proof (cases "ws = []")
  case True
  then show ?thesis by (simp add: path_segments_def path_of_segments_def)
next
  case False
  have "js_split (CHR ''/'') (js_join ''/'' ws) = ws"
    using assms by (intro js_split_join False) (auto simp: clean_segment_def)
  then show ?thesis
    using foldl_path_step_id [OF assms, of "[]"]
    by (simp add: path_segments_def path_of_segments_def)
qed

lemma path_resolve_absolute [simp]: "is_absolute (path_resolve cwd p)"
  by (simp add: path_resolve_def path_of_segments_def is_absolute_def js_starts_with_def)

lemma path_resolve_idem [simp]: "path_resolve cwd' (path_resolve cwd p) = path_resolve cwd p"
proof -
  let ?q = "path_resolve cwd p"
  have "path_resolve cwd' ?q = path_of_segments (path_segments ?q)"
    using path_resolve_absolute by (simp add: path_resolve_def [of cwd' ?q])
  also have "path_segments ?q = path_segments (if is_absolute p then p else cwd @ ''/'' @ p)"
    by (simp add: path_resolve_def path_segments_of_segments path_segments_clean)
  finally show ?thesis by (simp add: path_resolve_def)
qed

lemma path_resolve_nonempty [simp]: "path_resolve cwd p \<noteq> []"
  by (simp add: path_resolve_def path_of_segments_def)

text \<open>What lexical confinement means on segments: the root's segments are a prefix of the path's.\<close>

lemma strip_common_append:
  "strip_common xs ys = (us, ds) \<Longrightarrow> \<exists>zs. xs = zs @ us \<and> ys = zs @ ds"
proof (induction xs ys rule: strip_common.induct)
  case (1 x xs y ys)
  show ?case
  proof (cases "x = y")
    case True
    with 1 obtain zs where "xs = zs @ us" "ys = zs @ ds" by auto
    with True have "x # xs = (x # zs) @ us \<and> y # ys = (x # zs) @ ds" by simp
    then show ?thesis by blast
  qed (use 1 in simp)
qed simp_all

lemma confinedTo_prefix:
  assumes "confinedTo path root"
  shows "\<exists>rest. path_segments path = path_segments root @ rest"
proof -
  obtain us ds where sc: "strip_common (path_segments root) (path_segments path) = (us, ds)"
    by fastforce
  then obtain zs where zs: "path_segments root = zs @ us" "path_segments path = zs @ ds"
    using strip_common_append by blast
  show ?thesis
  proof (cases us)
    case Nil
    with zs show ?thesis by simp
  next
    case (Cons u us')
    then have "path_relative root path = ''..'' \<or>
        (\<exists>t. path_relative root path = ''..'' @ t)"
      using sc by (cases "map (\<lambda>_. ''..'') us' @ ds") (auto simp: path_relative_def)
    then have "js_starts_with (path_relative root path) ''..''" and "path_relative root path \<noteq> []"
      by (auto simp: js_starts_with_def)
    with assms show ?thesis by (simp add: confinedTo_def Let_def)
  qed
qed

section \<open>Validation and keys\<close>

lemma validate_InrD:
  assumes "validate cd v = Inr r"
  obtains flds b i where "v = Some (JObj flds)" "map_of flds ''backend'' = Some (JStr b)" "b \<in> set backends"
    "requireId (map_of flds ''id'') = Inr i" "sr_backend r = b" "sr_id r = i"
    "b \<in> set external_backends \<longrightarrow> sr_path r = None"
    "b \<notin> set external_backends \<longrightarrow>
       (\<exists>p. validateStoragePath cd b (map_of flds ''storagePath'') = Inr p \<and> sr_path r = Some p)"
proof -
  obtain flds where flds: "v = Some (JObj flds)"
    using assms by (simp add: validate_def split: option.splits json.splits)
  obtain b where b: "map_of flds ''backend'' = Some (JStr b)"
    using assms flds by (simp add: validate_def split: option.splits json.splits)
  have bb: "b \<in> set backends"
    using assms flds b by (simp add: validate_def split: if_splits)
  obtain i where i: "requireId (map_of flds ''id'') = Inr i"
    using assms flds b bb by (simp add: validate_def split: sum.splits)
  show thesis
  proof (cases "b \<in> set external_backends")
    case True
    then show thesis using that [OF flds b bb i] assms flds b bb i
      by (auto simp: validate_def split: if_splits)
  next
    case False
    then show thesis using that [OF flds b bb i] assms flds b bb i
      by (auto simp: validate_def split: sum.splits)
  qed
qed

lemma requireId_InrD: "requireId v = Inr i \<Longrightarrow> v = Some (JStr i)"
  by (simp add: requireId_def split: option.splits json.splits if_splits)

lemma validateStoragePath_InrD:
  "validateStoragePath cd b v = Inr p \<Longrightarrow> \<exists>s. v = Some (JStr s) \<and> s \<noteq> [] \<and> p = path_resolve (cd_cwd cd) s"
  by (simp add: validateStoragePath_def Let_def split: option.splits json.splits if_splits)

lemma validateStoragePath_idem:
  assumes "validateStoragePath cd b v = Inr p"
  shows "validateStoragePath cd b (Some (JStr p)) = Inr p"
proof -
  obtain s where "v = Some (JStr s)" "p = path_resolve (cd_cwd cd) s" "s \<noteq> []"
    using validateStoragePath_InrD [OF assms] by blast
  with assms show ?thesis by (simp add: validateStoragePath_def Let_def)
qed

lemma ref_json_fields:
  "map_of [(''backend'', a), (''id'', b), (''storagePath'', c)] ''backend'' = Some a"
  "map_of [(''backend'', a), (''id'', b), (''storagePath'', c)] ''id'' = Some b"
  "map_of [(''backend'', a), (''id'', b), (''storagePath'', c)] ''storagePath'' = Some c"
  by simp_all

lemma validate_ref_json:
  "validate cd (Some (ref_json r)) =
     (if sr_backend r \<notin> set backends then Inl UnsupportedBackend
      else case requireId (Some (JStr (sr_id r))) of
        Inl e \<Rightarrow> Inl e
      | Inr i \<Rightarrow>
          if sr_backend r \<in> set external_backends then
            (if sr_path r \<noteq> None then Inl ExternalWithPath
             else Inr \<lparr>sr_backend = sr_backend r, sr_id = i, sr_path = None\<rparr>)
          else case validateStoragePath cd (sr_backend r) (Some (path_json (sr_path r))) of
            Inl e \<Rightarrow> Inl e
          | Inr p \<Rightarrow> Inr \<lparr>sr_backend = sr_backend r, sr_id = i, sr_path = Some p\<rparr>)"
proof -
  have c: "(Some (path_json (sr_path r)) \<noteq> Some JNull \<and> Some (path_json (sr_path r)) \<noteq> None)
     \<longleftrightarrow> sr_path r \<noteq> None"
    by (simp add: path_json_def split: option.splits)
  show ?thesis
    unfolding validate_def ref_json_def option.case json.case ref_json_fields c by simp
qed

lemma validate_sound:
  assumes "validate cd v = Inr r"
  shows "sr_backend r \<in> set backends" and "requireId (Some (JStr (sr_id r))) = Inr (sr_id r)"
    and "sr_backend r \<in> set external_backends \<Longrightarrow> sr_path r = None"
    and "sr_backend r \<notin> set external_backends \<Longrightarrow>
       \<exists>p. sr_path r = Some p \<and> validateStoragePath cd (sr_backend r) (Some (JStr p)) = Inr p"
  by (rule validate_InrD [OF assms], use requireId_InrD validateStoragePath_idem in metis)+

lemma validate_idem:
  assumes "validate cd v = Inr r"
  shows "validate cd (Some (ref_json r)) = Inr r"
proof (cases "sr_backend r \<in> set external_backends")
  case True
  then show ?thesis using validate_sound [OF assms] by (simp add: validate_ref_json)
next
  case False
  then obtain p where "sr_path r = Some p" "validateStoragePath cd (sr_backend r) (Some (JStr p)) = Inr p"
    using validate_sound(4) [OF assms False] by blast
  then show ?thesis using validate_sound(1,2) [OF assms] False
    by (simp add: validate_ref_json path_json_def)
qed

lemma canonical_parse:
  "json_parse (canonical_text r) =
     Some (JObj [(''b'', JStr (sr_backend r)), (''i'', JStr (sr_id r)), (''p'', path_json (sr_path r))])"
  unfolding canonical_text_def
  by (rule json_parse_text) (auto simp: path_json_def split: option.splits)

lemma b64_encode_alphabet:
  "\<forall>b \<in> set bs. b < 256 \<Longrightarrow> c \<in> set (b64_encode bs) \<Longrightarrow> b64_alphabet c"
  using b64_sextets_bound [of bs] by (auto simp: b64_encode_def b64_alphabet_char)

lemma b64_encode_nonempty: "bs \<noteq> [] \<Longrightarrow> b64_encode bs \<noteq> []"
  by (cases bs rule: b64_sextets.cases) (auto simp: b64_encode_def)

text \<open>The object \<^verbatim>\<open>{ backend: payload.b, id: payload.i, storagePath: payload.p }\<close>.\<close>

lemma parse_payload_serialize:
  assumes "validate cd (Some (ref_json r)) = Inr r"
  shows "parse_payload cd (b64_encode (utf8_encode (canonical_text r))) = Some r"
proof -
  let ?bytes = "utf8_encode (canonical_text r)"
  have d: "b64_decode (b64_encode ?bytes) = ?bytes"
    by (rule b64_decode_encode) (auto intro: utf8_encode_bytes)
  have v: "validate cd (Some (JObj [(''backend'', JStr (sr_backend r)), (''id'', JStr (sr_id r)),
      (''storagePath'', path_json (sr_path r))])) = Inr r"
    using assms by (simp only: ref_json_def)
  show ?thesis
    by (simp add: parse_payload_def d canonical_parse Let_def v)
qed

lemma parse_payload_SomeD:
  assumes "parse_payload cd encoded = Some r"
  obtains v where "b64_encode (b64_decode encoded) = encoded"
    "utf8_decode (b64_decode encoded) = Some (canonical_text r)" "validate cd v = Inr r"
proof -
  have e: "b64_encode (b64_decode encoded) = encoded"
    using assms by (simp add: parse_payload_def Let_def split: if_splits)
  obtain str where t: "utf8_decode (b64_decode encoded) = Some str"
    using assms e by (simp add: parse_payload_def Let_def split: option.splits)
  obtain payload where p: "json_parse str = Some (JObj payload)"
    using assms e t by (simp add: parse_payload_def Let_def split: option.splits json.splits)
  obtain v where "validate cd v = Inr r" "str = canonical_text r"
    using assms e t p by (simp add: parse_payload_def Let_def split: sum.splits if_splits)
  with that e t show thesis by blast
qed

lemma parse_payload_canonical:
  assumes "parse_payload cd encoded = Some r"
  shows "encoded = b64_encode (utf8_encode (canonical_text r))" and "validate cd (Some (ref_json r)) = Inr r"
  by (rule parse_payload_SomeD [OF assms], use utf8_encode_decode validate_idem in metis)+

end
