(* ===== verification/Session_Keys.thy ===== *)
theory Session_Keys
  imports Session_References
begin

text \<open>
  The rest of \<^verbatim>\<open>server/session-references.mjs\<close>: the resolver that turns keys and legacy paths of
  a request into references, and the properties of keys.
\<close>

section \<open>The request resolver\<close>

text \<open>
  \<^verbatim>\<open>createSessionRequestResolver\<close> adapts opaque keys and legacy paths.  Its injected functions are
  arguments: \<open>fileParam\<close> (\<^verbatim>\<open>sessionFileParam\<close>), \<open>fileFromSearch\<close> and \<open>headerInfo\<close>
  (\<^verbatim>\<open>readSessionHeaderInfo\<close>, the session id of a file) return \<^term>\<open>Inl e\<close> where they throw.  A
  URL is the outcome of reading its \<^verbatim>\<open>key\<close> parameter: \<^term>\<open>Inl e\<close> when the access throws, else
  the parameter, if present.
\<close>

record 'u resolver =
  rv_codec :: codec
  rv_fileParam :: "string \<Rightarrow> unit + string option"
  rv_fileFromSearch :: "'u \<Rightarrow> unit + string option"
  rv_headerInfo :: "string \<Rightarrow> unit + string option"
  rv_searchKey :: "'u \<Rightarrow> unit + string option"

definition try_null :: "'e + 'a option \<Rightarrow> 'a option" where
  "try_null r = (case r of Inl _ \<Rightarrow> None | Inr v \<Rightarrow> v)"

definition referenceFor :: "'u resolver \<Rightarrow> string \<Rightarrow> string \<Rightarrow> ref_error + session_ref" where
  "referenceFor rv i path =
     validate (rv_codec rv) (Some (JObj [(''backend'', JStr ''jsonl''), (''id'', JStr i), (''storagePath'', JStr path)]))"

definition parseKey :: "'u resolver \<Rightarrow> json option \<Rightarrow> session_ref option" where
  "parseKey rv key = (case parse_key (rv_codec rv) key of Inl _ \<Rightarrow> None | Inr r \<Rightarrow> Some r)"

definition referenceForTarget :: "'u resolver \<Rightarrow> string option \<Rightarrow> session_ref option" where
  "referenceForTarget rv target =
     (case target of
        None \<Rightarrow> None
      | Some file \<Rightarrow>
          if file = [] then None
          else
            (case rv_headerInfo rv file of
               Inr (Some i) \<Rightarrow>
                 if i = [] then None
                 else (case referenceFor rv i file of Inl _ \<Rightarrow> None | Inr r \<Rightarrow> Some r)
             | _ \<Rightarrow> None))"

definition targetFromSearch :: "'u resolver \<Rightarrow> 'u \<Rightarrow> string option" where
  "targetFromSearch rv url =
     (case rv_searchKey rv url of
        Inl _ \<Rightarrow> None
      | Inr None \<Rightarrow> try_null (rv_fileFromSearch rv url)
      | Inr (Some key) \<Rightarrow>
          (case parseKey rv (Some (JStr key)) of
             None \<Rightarrow> None
           | Some reference \<Rightarrow>
               if sr_backend reference \<noteq> ''jsonl'' then None
               else (case sr_path reference of None \<Rightarrow> None | Some p \<Rightarrow> try_null (rv_fileParam rv p))))"

definition referenceFromSearch :: "'u resolver \<Rightarrow> 'u \<Rightarrow> session_ref option" where
  "referenceFromSearch rv url =
     (case rv_searchKey rv url of
        Inl _ \<Rightarrow> None
      | Inr (Some key) \<Rightarrow> parseKey rv (Some (JStr key))
      | Inr None \<Rightarrow> referenceForTarget rv (try_null (rv_fileFromSearch rv url)))"

definition referenceParam :: "'u resolver \<Rightarrow> json option \<Rightarrow> string option \<Rightarrow> session_ref option" where
  "referenceParam rv sessionKey sessionPath =
     (if sessionKey \<noteq> None \<and> sessionKey \<noteq> Some JNull then parseKey rv sessionKey
      else
        (case sessionPath of
           None \<Rightarrow> None
         | Some path \<Rightarrow>
             if path = [] then None
             else (case rv_fileParam rv path of Inl _ \<Rightarrow> None | Inr file \<Rightarrow> referenceForTarget rv file)))"

text \<open>Every reference a resolver returns went through the codec's validation.\<close>

lemma referenceForTarget_valid:
  "referenceForTarget rv t = Some r \<Longrightarrow> \<exists>v. validate (rv_codec rv) v = Inr r"
  by (auto simp: referenceForTarget_def referenceFor_def split: option.splits if_splits sum.splits)

lemma parse_key_InrD:
  assumes "parse_key cd (Some (JStr k)) = Inr r"
  shows "k = key_prefix @ b64_encode (utf8_encode (canonical_text r))" and "validate cd (Some (ref_json r)) = Inr r"
proof -
  have h: "js_starts_with k key_prefix" and p: "parse_payload cd (drop (length key_prefix) k) = Some r"
    using assms by (auto simp: parse_key_def split: if_splits option.splits)
  have "k = key_prefix @ drop (length key_prefix) k"
    using h by (auto simp: js_starts_with_def prefix_of_iff)
  then show "k = key_prefix @ b64_encode (utf8_encode (canonical_text r))"
    using parse_payload_canonical(1) [OF p] by simp
  show "validate cd (Some (ref_json r)) = Inr r" by (rule parse_payload_canonical(2) [OF p])
qed

lemma parseKey_valid: "parseKey rv key = Some r \<Longrightarrow> \<exists>v. validate (rv_codec rv) v = Inr r"
  using parse_key_InrD(2)
  by (auto simp: parseKey_def parse_key_def split: sum.splits option.splits json.splits if_splits
      intro: parse_payload_canonical(2))

section \<open>Properties\<close>

text \<open>C4: the key of a valid reference parses back to exactly that reference.\<close>

theorem session_key_roundtrip:
  assumes "validate cd v = Inr r"
  shows "\<exists>k. serialize cd v = Inr k \<and> parse_key cd (Some (JStr k)) = Inr r"
proof -
  let ?e = "b64_encode (utf8_encode (canonical_text r))"
  have "canonical_text r \<noteq> []" by (simp add: canonical_text_def)
  then have "utf8_encode (canonical_text r) \<noteq> []" by (cases "canonical_text r") (auto simp: Let_def)
  then have "?e \<noteq> []" by (rule b64_encode_nonempty)
  moreover have "\<forall>c \<in> set ?e. b64_alphabet c"
    by (auto intro!: b64_encode_alphabet dest: utf8_encode_bytes)
  ultimately have "parse_key cd (Some (JStr (key_prefix @ ?e))) = Inr r"
    using parse_payload_serialize [OF validate_idem [OF assms]]
    by (simp add: parse_key_def js_starts_with_def)
  then show ?thesis using assms by (simp add: serialize_def)
qed

theorem session_key_roundtrip_witness:
  "\<exists>cd v r k. validate cd v = Inr r \<and> serialize cd v = Inr k \<and> parse_key cd (Some (JStr k)) = Inr r"
proof -
  let ?cd = "\<lparr>cd_cwd = ''/w'', cd_agentDir = ''/a'', cd_jsonlRoot = ''/a/s'', cd_sqlitePath = ''/a/db''\<rparr>"
  let ?v = "Some (ref_json \<lparr>sr_backend = ''jsonl'', sr_id = ''x'', sr_path = Some ''/a/s/../s/t.jsonl''\<rparr>)"
  have "validate ?cd ?v = Inr \<lparr>sr_backend = ''jsonl'', sr_id = ''x'', sr_path = Some ''/a/s/t.jsonl''\<rparr>"
    by code_simp
  from session_key_roundtrip [OF this] this show ?thesis by blast
qed

text \<open>a key that is accepted is the only key of its reference: keys have no second spelling.\<close>

theorem session_key_canonical:
  assumes "parse_key cd (Some (JStr k)) = Inr r"
  shows "serialize cd (Some (ref_json r)) = Inr k"
  using parse_key_InrD [OF assms] by (simp add: serialize_def)

theorem session_key_canonical_witness:
  "\<exists>cd k r. parse_key cd (Some (JStr k)) = Inr r \<and> serialize cd (Some (ref_json r)) = Inr k"
proof -
  let ?cd = "\<lparr>cd_cwd = ''/w'', cd_agentDir = ''/a'', cd_jsonlRoot = ''/a/s'', cd_sqlitePath = ''/a/db''\<rparr>"
  have "parse_key ?cd (Some (JStr ''ps1_eyJiIjoiY29kZXgiLCJpIjoieCIsInAiOm51bGx9''))
      = Inr \<lparr>sr_backend = ''codex'', sr_id = ''x'', sr_path = None\<rparr>"
    by code_simp
  from session_key_canonical [OF this] this show ?thesis by blast
qed

text \<open>
  C5: a JSONL reference decoded from a key names a \<^verbatim>\<open>.jsonl\<close> file strictly below the
  configured root, however the key was made.
\<close>

theorem session_key_confined:
  assumes "createSessionReferenceCodec cwd agentDir sqlitePath jsonlRoot = Inr cd"
    and "parse_key cd (Some (JStr k)) = Inr r" and "sr_backend r = ''jsonl''"
  shows "\<exists>p rest. sr_path r = Some p \<and> js_ends_with p ''.jsonl'' \<and> rest \<noteq> []
     \<and> path_segments p = path_segments (cd_jsonlRoot cd) @ rest"
proof -
  have "sr_backend r \<notin> set external_backends" using assms(3) by (simp add: external_backends_def)
  then obtain p where p: "sr_path r = Some p" "validateStoragePath cd (sr_backend r) (Some (JStr p)) = Inr p"
    using validate_sound(4) [OF parse_key_InrD(2) [OF assms(2)]] by blast
  then have r: "path_resolve (cd_cwd cd) p = p" "js_ends_with p ''.jsonl''" "confinedTo p (cd_jsonlRoot cd)"
      "p \<noteq> cd_jsonlRoot cd"
    using assms(3) by (auto simp: validateStoragePath_def Let_def split: if_splits)
  obtain rest where rest: "path_segments p = path_segments (cd_jsonlRoot cd) @ rest"
    using confinedTo_prefix [OF r(3)] by blast
  have abs: "path_of_segments (path_segments q) = q" if "path_resolve b q' = q" for b q q'
    using that path_resolve_idem [of b b q'] by (metis path_resolve_absolute path_resolve_def)
  obtain b q where "path_resolve b q = cd_jsonlRoot cd"
    using assms(1) unfolding createSessionReferenceCodec_def Let_def
    by (auto split: sum.splits option.splits)
  then have "rest \<noteq> []" using abs r(1,4) rest by (metis append_Nil2)
  with p r rest show ?thesis by blast
qed

theorem session_key_confined_witness:
  "\<exists>cd k r. createSessionReferenceCodec ''/w'' (Some (JStr ''/a'')) None None = Inr cd
     \<and> parse_key cd (Some (JStr k)) = Inr r \<and> sr_backend r = ''jsonl''
     \<and> (\<exists>p rest. sr_path r = Some p \<and> js_ends_with p ''.jsonl'' \<and> rest \<noteq> []
          \<and> path_segments p = path_segments (cd_jsonlRoot cd) @ rest)"
proof -
  let ?cd = "\<lparr>cd_cwd = ''/w'', cd_agentDir = ''/a'', cd_jsonlRoot = ''/a/sessions'',
               cd_sqlitePath = ''/a/sessions.sqlite''\<rparr>"
  let ?r = "\<lparr>sr_backend = ''jsonl'', sr_id = ''x'', sr_path = Some ''/a/sessions/t.jsonl''\<rparr>"
  have c: "createSessionReferenceCodec ''/w'' (Some (JStr ''/a'')) None None = Inr ?cd"
    by code_simp
  have p: "parse_key ?cd (Some (JStr ''ps1_eyJiIjoianNvbmwiLCJpIjoieCIsInAiOiIvYS9zZXNzaW9ucy90Lmpzb25sIn0'')) = Inr ?r"
    by code_simp
  have b: "sr_backend ?r = ''jsonl''" by simp
  from session_key_confined [OF c p b] c p b show ?thesis by blast
qed

end
