(* ===== verification/Runner_Model.thy ===== *)
theory Runner_Model
  imports Session_References
begin

text \<open>
  The data of \<^verbatim>\<open>server/runners.mjs\<close>: the runner object with its durable and ephemeral fields, the
  manager's state, and the operations that run without suspension.  Runner objects live in a heap
  (\<open>m_obj\<close>) because suspended calls hold a reference to them; \<open>m_order\<close> is the key list of
  \<^verbatim>\<open>state.runners\<close>.  What the code calls and does not define (the database, the driver of a
  harness, the SSE clients, process signals) is an effect in \<open>m_log\<close>, oldest first; console output
  is not modelled.  Every suspension point (\<^verbatim>\<open>await\<close>) of a modelled call leaves a \<open>task\<close> in
  \<open>m_tasks\<close>, which the transitions of \<open>Runner_Lifecycle\<close> resume in any order.
\<close>

section \<open>Constants\<close>

definition runner_event_max_bytes :: nat where "runner_event_max_bytes = 1024 * 1024"
definition runner_buffer_max :: nat where "runner_buffer_max = 400"
definition watchdog_max_misses :: nat where "watchdog_max_misses = 2"
definition respawn_debounce_ms :: int where "respawn_debounce_ms = 2000"
definition max_orphan_age_ms :: int where "max_orphan_age_ms = 60 * 60 * 1000"
definition max_runner_id_attempts :: nat where "max_runner_id_attempts = 8"

definition non_replayable_runner_events :: "string list" where
  "non_replayable_runner_events =
     [''response'', ''message_update'', ''tool_execution_update'', ''agent_end'', ''turn_end'']"

definition clarification_methods :: "string list" where
  "clarification_methods = [''select'', ''confirm'', ''input'', ''editor'']"

definition brokered_ui_methods :: "string list" where
  "brokered_ui_methods = [''input'', ''confirm'']"

section \<open>Runners, processes, tasks and the manager\<close>

type_synonym runner_id = string
type_synonym pid = nat
type_synonym timer_id = nat

datatype attention = Clarification | Completed

record runner =
  r_id :: runner_id
  r_dir :: string
  r_harness :: string
  r_ref :: "session_ref option"
  r_sessionFile :: "string option"
  r_sessionId :: "string option"
  r_sessionName :: "string option"
  r_initialized :: "bool option" \<comment> \<open>\<^term>\<open>None\<close> is \<^verbatim>\<open>undefined\<close>\<close>
  r_attention :: "attention option"
  r_unread :: bool
  r_startCount :: nat
  r_proc :: "pid option"
  r_reader :: "pid option" \<comment> \<open>\<^verbatim>\<open>stdoutReader\<close>, named by the process it reads\<close>
  r_emit :: "pid option" \<comment> \<open>\<^verbatim>\<open>driverEmit\<close>, named by the process it closes over\<close>
  r_busy :: bool
  r_resumeId :: "string option"
  r_resumeQueue :: "json list"
  r_resumeTimer :: "timer_id option"
  r_startTimer :: "timer_id option"
  r_lastSpawnAt :: int
  r_lastLineAt :: int
  r_probeSentAt :: "int option"
  r_probeMisses :: nat
  r_watchdogOk :: bool
  r_titleProcess :: "pid option"
  r_titleSessionId :: "string option"
  r_titleLoading :: "string option"
  r_initialArgs :: "string list"
  r_pendingUi :: "string list" \<comment> \<open>\<^verbatim>\<open>pendingExtensionUiRequestIds\<close>\<close>
  r_brokered :: "string list" \<comment> \<open>keys of \<^verbatim>\<open>brokeredUiRequests\<close>\<close>

text \<open>The exit listener a process carries: the one of its start, or the one a stop put in its place.\<close>

datatype exit_listener = ExitOfStart | ExitOfStop "pid option"

record proc_info =
  p_owner :: runner_id
  p_launchFailed :: bool
  p_reader :: bool \<comment> \<open>whether the start has created its reader (\<^verbatim>\<open>rl\<close> is no longer \<^verbatim>\<open>null\<close>)\<close>
  p_listener :: exit_listener
  p_exited :: bool

text \<open>
  Suspended calls.  A \<open>cont\<close> is what awaits a start: nothing, the command of a
  \<^verbatim>\<open>sendToRunner\<close>, or the \<^verbatim>\<open>defaultRunner\<close> that spawned the runner.
\<close>

datatype cont = NoCont | SendCont json | DefaultCont

datatype task =
    StartLaunch runner_id cont
  | StartFailed runner_id string cont
  | StartReady runner_id pid cont
  | StopRest runner_id "pid option"
  | ExitRest runner_id json json
  | SendRest runner_id json
  | StatePersist runner_id "session_ref option" bool json
  | StateRest runner_id json
  | SpawnOwner string string "session_ref option" bool "string list" cont
  | SpawnRest runner_id string string "session_ref option" bool "string list" cont
  | DefaultRest runner_id
  | DefaultSettings runner_id
  | RefOwner runner_id session_ref
  | RefRest runner_id

datatype timer = StartTimer runner_id | ResumeTimer runner_id | KillTimer pid | UiTimer runner_id string

record runner_info =
  i_id :: runner_id
  i_dir :: string
  i_harness :: string
  i_ref :: "session_ref option"
  i_sessionFile :: "string option"
  i_sessionId :: "string option"
  i_sessionName :: "string option"
  i_attention :: "attention option"
  i_unread :: bool
  i_busy :: bool
  i_alive :: bool

datatype eff =
    RepoUpdate runner_id "(string \<times> json) list"
  | RepoCreate runner_id string
  | RepoSetDefault runner_id
  | SettingsSetDefault "runner_id option"
  | Broadcast "runner_info list" bool
  | RunnerEvent runner_id json
  | DriverSend runner_id pid json
  | Signal pid string
  | Notify runner_id json
  | AuthFailure runner_id json
  | FlushTranscript runner_id
  | Unarchive session_ref
  | Reidentify session_ref session_ref
  | UiResolved runner_id string json

record sse_client =
  c_runner :: runner_id
  c_ended :: bool
  c_destroyed :: bool

record mgr =
  m_obj :: "runner_id \<Rightarrow> runner"
  m_order :: "runner_id list"
  m_default :: "runner_id option"
  m_currentDir :: string
  m_clients :: "sse_client list"
  m_seq :: nat
  m_now :: int
  m_procs :: "pid \<Rightarrow> proc_info"
  m_nextPid :: pid
  m_tasks :: "task list"
  m_timers :: "(timer_id \<times> timer) list"
  m_nextTimer :: timer_id
  m_log :: "eff list"

text \<open>
  A driver, by the methods of \<^verbatim>\<open>contract.mjs\<close> the manager calls.  \<open>d_send\<close> is the result of
  \<^verbatim>\<open>sendCommand\<close>, \<open>d_startup\<close> the commands and the resume response id, \<open>d_sessionReference\<close> the
  reference extracted from a state (\<^term>\<open>None\<close> when falsy).
\<close>

record driver =
  d_label :: string
  d_compatible :: "session_ref option \<Rightarrow> bool"
  d_send :: "runner \<Rightarrow> pid \<Rightarrow> json \<Rightarrow> bool"
  d_stateCommand :: "string \<Rightarrow> json"
  d_healthCommand :: "(string \<Rightarrow> json) option"
  d_startup :: "runner \<Rightarrow> string \<Rightarrow> json list \<times> string option"
  d_sessionReference :: "json \<Rightarrow> session_ref option \<Rightarrow> json option"

text \<open>
  The manager's dependencies: the registered harnesses in order, their drivers, the codec, the
  backend of the session catalogue (if any) and whether the driver of a harness flushes transcripts.
\<close>

record env =
  e_harnesses :: "string list"
  e_defaultHarness :: string
  e_driver :: "string \<Rightarrow> driver"
  e_codec :: codec
  e_catalogBackend :: "string option"
  e_flushes :: "string \<Rightarrow> bool"

abbreviation driverFor :: "env \<Rightarrow> runner \<Rightarrow> driver" where
  "driverFor env r \<equiv> e_driver env (r_harness r)"

section \<open>Building runner objects\<close>

definition initializeRunnerRuntime ::
  "runner_id \<Rightarrow> string \<Rightarrow> string \<Rightarrow> session_ref option \<Rightarrow> string option \<Rightarrow> string option
   \<Rightarrow> string option \<Rightarrow> bool option \<Rightarrow> attention option \<Rightarrow> bool \<Rightarrow> nat \<Rightarrow> string list \<Rightarrow> runner" where
  "initializeRunnerRuntime i dir harness ref file sid name initialized att unread starts args =
     \<lparr>r_id = i, r_dir = dir, r_harness = harness, r_ref = ref, r_sessionFile = file, r_sessionId = sid,
      r_sessionName = name, r_initialized = initialized, r_attention = att, r_unread = unread,
      r_startCount = starts, r_proc = None, r_reader = None, r_emit = None, r_busy = False,
      r_resumeId = None, r_resumeQueue = [], r_resumeTimer = None, r_startTimer = None,
      r_lastSpawnAt = 0, r_lastLineAt = 0, r_probeSentAt = None, r_probeMisses = 0,
      r_watchdogOk = False, r_titleProcess = None, r_titleSessionId = None, r_titleLoading = None,
      r_initialArgs = args, r_pendingUi = [], r_brokered = []\<rparr>"

definition jsonl_path :: "session_ref option \<Rightarrow> string option" where
  "jsonl_path ref = (case ref of None \<Rightarrow> None
     | Some r \<Rightarrow> if sr_backend r = ''jsonl'' then sr_path r else None)"

text \<open>A row of the runner table, as \<^verbatim>\<open>loadPersistedRunners\<close> reads it.\<close>

record runner_row =
  w_id :: runner_id
  w_dir :: string
  w_harness :: "string option"
  w_backend :: "string option"
  w_sessionId :: "string option"
  w_storagePath :: "string option"
  w_sessionName :: "string option"
  w_initialized :: int
  w_attention :: "attention option"
  w_unread :: int
  w_startCount :: nat
  w_isDefault :: int
  w_status :: string

definition opt_json :: "string option \<Rightarrow> json" where
  "opt_json v = (case v of None \<Rightarrow> JNull | Some s \<Rightarrow> JStr s)"

definition persistedReference :: "codec \<Rightarrow> runner_row \<Rightarrow> ref_error + session_ref option" where
  "persistedReference cd row =
     (case w_backend row of
        None \<Rightarrow> Inr None
      | Some b \<Rightarrow>
          if b = [] then Inr None
          else (case validate cd (Some (JObj [(''backend'', JStr b), (''id'', opt_json (w_sessionId row)),
                         (''storagePath'', opt_json (w_storagePath row))])) of
                  Inl e \<Rightarrow> Inl e | Inr r \<Rightarrow> Inr (Some r)))"

definition runnerFromPersisted :: "runner_row \<Rightarrow> session_ref option \<Rightarrow> string \<Rightarrow> runner" where
  "runnerFromPersisted row reference defaultHarness =
     initializeRunnerRuntime (w_id row) (w_dir row)
       (case w_harness row of None \<Rightarrow> defaultHarness | Some h \<Rightarrow> h)
       reference (jsonl_path reference) (map_option sr_id reference) (w_sessionName row)
       (Some (w_initialized row \<noteq> 0)) (w_attention row) (w_unread row = 1) (w_startCount row) []"

section \<open>State access\<close>

definition upd :: "runner_id \<Rightarrow> (runner \<Rightarrow> runner) \<Rightarrow> mgr \<Rightarrow> mgr" where
  "upd i f s = s\<lparr>m_obj := (m_obj s)(i := f (m_obj s i))\<rparr>"

definition emitE :: "eff \<Rightarrow> mgr \<Rightarrow> mgr" where
  "emitE e s = s\<lparr>m_log := m_log s @ [e]\<rparr>"

definition spawn_task :: "task \<Rightarrow> mgr \<Rightarrow> mgr" where
  "spawn_task t s = s\<lparr>m_tasks := m_tasks s @ [t]\<rparr>"

definition arm :: "timer \<Rightarrow> mgr \<Rightarrow> timer_id \<times> mgr" where
  "arm t s = (m_nextTimer s, s\<lparr>m_timers := m_timers s @ [(m_nextTimer s, t)], m_nextTimer := Suc (m_nextTimer s)\<rparr>)"

definition disarm :: "timer_id option \<Rightarrow> mgr \<Rightarrow> mgr" where
  "disarm t s = (case t of None \<Rightarrow> s | Some i \<Rightarrow> s\<lparr>m_timers := filter (\<lambda>x. fst x \<noteq> i) (m_timers s)\<rparr>)"

text \<open>JavaScript truthiness of a nullable string, and reading a message field.\<close>

definition truthy :: "string option \<Rightarrow> bool" where
  "truthy v \<longleftrightarrow> v \<noteq> None \<and> v \<noteq> Some []"

fun truthy_json :: "json option \<Rightarrow> bool" where
  "truthy_json None = False"
| "truthy_json (Some JNull) = False"
| "truthy_json (Some (JBool b)) = b"
| "truthy_json (Some (JNum n)) = (n \<noteq> 0)"
| "truthy_json (Some (JStr t)) = (t \<noteq> [])"
| "truthy_json (Some _) = True"

fun str_field :: "json option \<Rightarrow> string option" where
  "str_field (Some (JStr t)) = Some t"
| "str_field _ = None"

definition has_type :: "json \<Rightarrow> string \<Rightarrow> bool" where
  "has_type msg t \<longleftrightarrow> js_get msg ''type'' = Some (JStr t)"

text \<open>\<^verbatim>\<open>value === field\<close> for a nullable string held by a runner and a field of a message.\<close>

definition same_value :: "string option \<Rightarrow> json option \<Rightarrow> bool" where
  "same_value held field \<longleftrightarrow> field = Some (opt_json held)"

section \<open>Operations without suspension\<close>

definition srvId :: "mgr \<Rightarrow> string \<times> mgr" where
  "srvId s = (''_srv-'' @ nat_text (Suc (m_seq s)), s\<lparr>m_seq := Suc (m_seq s)\<rparr>)"

definition runnerInfo :: "runner \<Rightarrow> runner_info" where
  "runnerInfo r = \<lparr>i_id = r_id r, i_dir = r_dir r, i_harness = r_harness r, i_ref = r_ref r,
     i_sessionFile = jsonl_path (r_ref r), i_sessionId = r_sessionId r, i_sessionName = r_sessionName r,
     i_attention = r_attention r, i_unread = r_unread r, i_busy = r_busy r, i_alive = (r_proc r \<noteq> None)\<rparr>"

definition listRunnerInfo :: "mgr \<Rightarrow> runner_info list" where
  "listRunnerInfo s = map (\<lambda>i. runnerInfo (m_obj s i)) (m_order s)"

definition runnersChanged :: "runner_id option \<Rightarrow> mgr \<Rightarrow> mgr" where
  "runnersChanged changed s =
     (case changed of
        Some i \<Rightarrow> emitE (Broadcast [runnerInfo (m_obj s i)] True) s
      | None \<Rightarrow> emitE (Broadcast (listRunnerInfo s) False) s)"

definition attention_json :: "attention option \<Rightarrow> json" where
  "attention_json a = (case a of None \<Rightarrow> JNull | Some Clarification \<Rightarrow> JStr ''clarification''
     | Some Completed \<Rightarrow> JStr ''completed'')"

definition setRunnerAttention :: "runner_id \<Rightarrow> attention option \<Rightarrow> bool \<Rightarrow> mgr \<Rightarrow> bool \<times> mgr" where
  "setRunnerAttention i status unread s =
     (if r_attention (m_obj s i) = status \<and> r_unread (m_obj s i) = unread then (False, s)
      else (True,
        emitE (RepoUpdate i [(''attention_status'', attention_json status),
                             (''attention_unread'', JNum (if unread then 1 else 0))])
          (runnersChanged (Some i) (upd i (\<lambda>r. r\<lparr>r_attention := status, r_unread := unread\<rparr>) s))))"

definition acknowledgeRunnerAttention :: "runner_id \<Rightarrow> mgr \<Rightarrow> bool \<times> mgr" where
  "acknowledgeRunnerAttention i s =
     (if \<not> r_unread (m_obj s i) then (False, s)
      else setRunnerAttention i (r_attention (m_obj s i)) False s)"

text \<open>\<^verbatim>\<open>runnerEvent\<close>: the object with \<^verbatim>\<open>_server\<close> and \<^verbatim>\<open>runner\<close> added, delivered by \<^verbatim>\<open>runnerWrite\<close>.\<close>

definition runnerEvent :: "runner_id \<Rightarrow> (string \<times> json) list \<Rightarrow> mgr \<Rightarrow> mgr" where
  "runnerEvent i obj s = emitE (RunnerEvent i (JObj (obj @ [(''_server'', JBool True), (''runner'', JStr i)]))) s"

text \<open>\<^verbatim>\<open>driver.sendCommand\<close>: the command goes out when the driver accepts it.\<close>

definition driver_send :: "env \<Rightarrow> runner_id \<Rightarrow> pid \<Rightarrow> json \<Rightarrow> mgr \<Rightarrow> bool \<times> mgr" where
  "driver_send env i p c s =
     (if d_send (driverFor env (m_obj s i)) (m_obj s i) p c then (True, emitE (DriverSend i p c) s) else (False, s))"

text \<open>\<^verbatim>\<open>finishResume\<close> flushes what was held back while a session resume was in flight.\<close>

fun flush_queue :: "env \<Rightarrow> runner_id \<Rightarrow> json list \<Rightarrow> mgr \<Rightarrow> mgr" where
  "flush_queue env i [] s = s"
| "flush_queue env i (c # cs) s =
     flush_queue env i cs (case r_proc (m_obj s i) of None \<Rightarrow> s | Some p \<Rightarrow> snd (driver_send env i p c s))"

definition finishResume :: "env \<Rightarrow> runner_id \<Rightarrow> mgr \<Rightarrow> mgr" where
  "finishResume env i s =
     (if \<not> truthy (r_resumeId (m_obj s i)) then s
      else
        (let queued = r_resumeQueue (m_obj s i);
             s1 = disarm (r_resumeTimer (m_obj s i)) s;
             s2 = upd i (\<lambda>r. r\<lparr>r_resumeId := None, r_resumeTimer := None, r_resumeQueue := []\<rparr>) s1
         in flush_queue env i queued s2))"

text \<open>\<^verbatim>\<open>unarchivePromptedSession\<close>: only references of the catalogue's backend.\<close>

definition unarchivePromptedSession :: "env \<Rightarrow> runner_id \<Rightarrow> mgr \<Rightarrow> mgr" where
  "unarchivePromptedSession env i s =
     (case r_ref (m_obj s i) of
        None \<Rightarrow> s
      | Some ref \<Rightarrow>
          if truthy (e_catalogBackend env) \<and> Some (sr_backend ref) \<noteq> e_catalogBackend env then s
          else emitE (Unarchive ref) s)"

text \<open>The part of \<^verbatim>\<open>sendToRunner\<close> behind the start it may await (lines 877--891).\<close>

definition send_rest :: "env \<Rightarrow> runner_id \<Rightarrow> json \<Rightarrow> mgr \<Rightarrow> bool \<times> mgr" where
  "send_rest env i obj s =
     (case r_proc (m_obj s i) of
        None \<Rightarrow> (False, s)
      | Some p \<Rightarrow>
          (let (sent, s1) =
             (if truthy (r_resumeId (m_obj s i))
              then (True, upd i (\<lambda>r. r\<lparr>r_resumeQueue := r_resumeQueue r @ [obj]\<rparr>) s)
              else driver_send env i p obj s)
           in if \<not> sent then (False, s1)
              else if has_type obj ''prompt''
                then (True, unarchivePromptedSession env i (snd (setRunnerAttention i None False s1)))
              else if has_type obj ''extension_ui_response''
                then (True, snd (setRunnerAttention i None False
                       (if truthy (str_field (js_get obj ''id''))
                        then upd i (\<lambda>r. r\<lparr>r_pendingUi :=
                               jsset_delete (the (str_field (js_get obj ''id''))) (r_pendingUi r)\<rparr>) s1
                        else s1)))
              else (True, s1)))"

text \<open>
  \<^verbatim>\<open>brokeredUiResult\<close>, and the settling closure \<^verbatim>\<open>finish\<close> of \<^verbatim>\<open>requestRunnerUi\<close>: the first
  settlement wins, later ones find the id gone.
\<close>

definition brokeredUiResult :: "json \<Rightarrow> json" where
  "brokeredUiResult obj =
     (if js_get obj ''cancelled'' = Some (JBool True) then JObj [(''cancelled'', JBool True)]
      else case js_get obj ''confirmed'' of
        Some (JBool b) \<Rightarrow> JObj [(''confirmed'', JBool b)]
      | _ \<Rightarrow> (case js_get obj ''value'' of
               Some (JStr v) \<Rightarrow> JObj [(''value'', JStr v)]
             | _ \<Rightarrow> JObj [(''cancelled'', JBool True)]))"

definition finish_ui :: "runner_id \<Rightarrow> string \<Rightarrow> json \<Rightarrow> mgr \<Rightarrow> mgr" where
  "finish_ui i u result s =
     (if u \<notin> set (r_brokered (m_obj s i)) then s
      else
        (let s1 = upd i (\<lambda>r. r\<lparr>r_brokered := jsset_delete u (r_brokered r),
                                r_pendingUi := jsset_delete u (r_pendingUi r)\<rparr>)
                    (s\<lparr>m_timers := filter (\<lambda>x. snd x \<noteq> UiTimer i u) (m_timers s)\<rparr>);
             s2 = (if r_brokered (m_obj s1 i) = [] \<and> r_attention (m_obj s1 i) = Some Clarification
                   then snd (setRunnerAttention i None False s1) else s1)
         in emitE (UiResolved i u result) s2))"

end
