(* ===== verification/Runner_Lifecycle.thy ===== *)
theory Runner_Lifecycle
  imports Runner_Model
begin

text \<open>
  The asynchronous operations of \<^verbatim>\<open>server/runners.mjs\<close>, cut at their \<^verbatim>\<open>await\<close>s: the part up
  to the first suspension is the operation itself, each later part a transition that resumes its
  task.  Timestamp columns of the database are left out of the logged updates.
\<close>

section \<open>Starting a process\<close>

definition deferRunnerStart :: "runner_id \<Rightarrow> mgr \<Rightarrow> mgr" where
  "deferRunnerStart i s =
     (if r_startTimer (m_obj s i) \<noteq> None then s
      else (let (t, s1) = arm (StartTimer i) s in upd i (\<lambda>r. r\<lparr>r_startTimer := Some t\<rparr>) s1))"

text \<open>What awaits the start becomes runnable again.\<close>

fun after_start :: "runner_id \<Rightarrow> cont \<Rightarrow> mgr \<Rightarrow> mgr" where
  "after_start i NoCont s = s"
| "after_start i (SendCont obj) s = spawn_task (SendRest i obj) s"
| "after_start i DefaultCont s = spawn_task (DefaultRest i) s"

definition startRunner :: "runner_id \<Rightarrow> cont \<Rightarrow> mgr \<Rightarrow> mgr" where
  "startRunner i k s =
     (if r_proc (m_obj s i) \<noteq> None then after_start i k s
      else if m_now s - r_lastSpawnAt (m_obj s i) < respawn_debounce_ms \<and> r_startCount (m_obj s i) > 0
        then after_start i k (deferRunnerStart i s)
      else
        (let s1 = upd i (\<lambda>r. r\<lparr>r_lastSpawnAt := m_now s, r_startCount := Suc (r_startCount r)\<rparr>) s
         in spawn_task (StartLaunch i k)
              (emitE (RepoUpdate i [(''desired_state'', JStr ''running''), (''last_status'', JStr ''starting''),
                                    (''start_count'', JNum (int (r_startCount (m_obj s1 i))))]) s1)))"

text \<open>The debounce timer: it only starts a runner that is still registered and still without process.\<close>

definition fire_start_timer :: "timer_id \<Rightarrow> runner_id \<Rightarrow> mgr \<Rightarrow> mgr" where
  "fire_start_timer t i s =
     (if r_startTimer (m_obj s i) \<noteq> Some t then s
      else
        (let s1 = upd i (\<lambda>r. r\<lparr>r_startTimer := None\<rparr>) s
         in if r_proc (m_obj s1 i) = None \<and> i \<in> set (m_order s1) then startRunner i NoCont s1 else s1))"

text \<open>
  Launching: \<open>outcome\<close> is what \<^verbatim>\<open>driver.launch\<close> did, an error or a new process.  The listeners
  are attached before the next suspension.
\<close>

definition start_launch :: "string + unit \<Rightarrow> runner_id \<Rightarrow> cont \<Rightarrow> mgr \<Rightarrow> mgr" where
  "start_launch outcome i k s =
     (let s0 = upd i (\<lambda>r. r\<lparr>r_initialArgs := []\<rparr>) s in
      case outcome of
        Inl err \<Rightarrow>
          spawn_task (StartFailed i err k) (emitE (RepoUpdate i [(''last_status'', JStr ''dead'')]) s0)
      | Inr _ \<Rightarrow>
          (let p = m_nextPid s0;
               s1 = upd i (\<lambda>r. r\<lparr>r_proc := Some p\<rparr>)
                      (s0\<lparr>m_nextPid := Suc p,
                          m_procs := (m_procs s0)(p := \<lparr>p_owner = i, p_launchFailed = False, p_reader = False,
                                                        p_listener = ExitOfStart, p_exited = False\<rparr>)\<rparr>)
           in spawn_task (StartReady i p k) (emitE (RepoUpdate i [(''last_status'', JStr ''running'')]) s1)))"

definition start_failed :: "runner_id \<Rightarrow> string \<Rightarrow> cont \<Rightarrow> mgr \<Rightarrow> mgr" where
  "start_failed i err k s =
     after_start i k (runnersChanged (Some i)
       (runnerEvent i [(''type'', JStr ''pi_error''), (''error'', JStr err)] s))"

fun send_commands :: "env \<Rightarrow> runner_id \<Rightarrow> pid \<Rightarrow> json list \<Rightarrow> mgr \<Rightarrow> mgr" where
  "send_commands env i p [] s = s"
| "send_commands env i p (c # cs) s = send_commands env i p cs (snd (driver_send env i p c s))"

definition start_ready :: "env \<Rightarrow> runner_id \<Rightarrow> pid \<Rightarrow> cont \<Rightarrow> mgr \<Rightarrow> mgr" where
  "start_ready env i p k s =
     (if p_launchFailed (m_procs s p) \<or> r_proc (m_obj s i) \<noteq> Some p then after_start i k s
      else
        (let s1 = upd i (\<lambda>r. r\<lparr>r_watchdogOk := True, r_lastLineAt := m_now s, r_probeSentAt := None,
                                r_probeMisses := 0, r_emit := Some p, r_reader := Some p\<rparr>)
                    (s\<lparr>m_procs := (m_procs s)(p := (m_procs s p)\<lparr>p_reader := True\<rparr>)\<rparr>);
             (request, s2) = srvId s1;
             (commands, resume) = d_startup (driverFor env (m_obj s2 i)) (m_obj s2 i) request;
             s3 = send_commands env i p commands (upd i (\<lambda>r. r\<lparr>r_resumeId := resume\<rparr>) s2);
             s4 = (if truthy resume
                   then (let (t, s') = arm (ResumeTimer i) (disarm (r_resumeTimer (m_obj s3 i)) s3)
                         in upd i (\<lambda>r. r\<lparr>r_resumeTimer := Some t\<rparr>) s')
                   else s3)
         in after_start i k
              (runnerEvent i [(''type'', JStr ''pi_started''),
                              (''startCount'', JNum (int (r_startCount (m_obj s4 i))))]
                (runnersChanged (Some i) s4))))"

section \<open>Process events\<close>

definition reader_of :: "mgr \<Rightarrow> pid \<Rightarrow> pid option" where
  "reader_of s p = (if p_reader (m_procs s p) then Some p else None)"

text \<open>The \<^verbatim>\<open>error\<close> listener: an executable or directory failure reported after the launch.\<close>

definition proc_error :: "pid \<Rightarrow> string \<Rightarrow> mgr \<Rightarrow> mgr" where
  "proc_error p err s =
     (let i = p_owner (m_procs s p);
          s1 = runnerEvent i [(''type'', JStr ''pi_error''), (''error'', JStr err)]
                 (s\<lparr>m_procs := (m_procs s)(p := (m_procs s p)\<lparr>p_launchFailed := True\<rparr>)\<rparr>);
          s2 = upd i (\<lambda>r. if r_proc r = Some p then r\<lparr>r_proc := None, r_emit := None\<rparr> else r) s1;
          s3 = upd i (\<lambda>r. if r_reader r = reader_of s p then r\<lparr>r_reader := None\<rparr> else r) s2
      in runnersChanged (Some i) (emitE (RepoUpdate i [(''last_status'', JStr ''dead'')]) s3))"

definition proc_exit :: "pid \<Rightarrow> json \<Rightarrow> json \<Rightarrow> mgr \<Rightarrow> mgr" where
  "proc_exit p code sig s =
     (let i = p_owner (m_procs s p);
          s1 = s\<lparr>m_procs := (m_procs s)(p := (m_procs s p)\<lparr>p_exited := True\<rparr>)\<rparr>
      in case p_listener (m_procs s p) of
           ExitOfStart \<Rightarrow>
             if r_proc (m_obj s1 i) \<noteq> Some p then s1
             else spawn_task (ExitRest i code sig)
                    (emitE (RepoUpdate i [(''last_status'', JStr ''dead'')])
                      (upd i (\<lambda>r. r\<lparr>r_proc := None, r_emit := None, r_busy := False,
                                   r_reader := (if r_reader r = reader_of s p then None else r_reader r)\<rparr>) s1))
         | ExitOfStop reader \<Rightarrow>
             (let s2 = upd i (\<lambda>r. if r_reader r = reader then r\<lparr>r_reader := None\<rparr> else r) s1
              in if r_proc (m_obj s2 i) = None
                 then runnerEvent i [(''type'', JStr ''pi_exit''), (''code'', JNull), (''signal'', JStr ''SIGTERM'')] s2
                 else s2))"

definition exit_rest :: "runner_id \<Rightarrow> json \<Rightarrow> json \<Rightarrow> mgr \<Rightarrow> mgr" where
  "exit_rest i code sig s =
     runnersChanged (Some i)
       (runnerEvent i [(''type'', JStr ''pi_exit''), (''code'', code), (''signal'', sig)] s)"

section \<open>Stopping\<close>

definition stopRunner :: "runner_id \<Rightarrow> mgr \<Rightarrow> mgr" where
  "stopRunner i s =
     spawn_task (StopRest i (r_proc (m_obj s i)))
       (emitE (RepoUpdate i [(''desired_state'', JStr ''stopped''), (''last_status'', JStr ''stopped'')]) s)"

definition flushTranscript :: "env \<Rightarrow> runner_id \<Rightarrow> mgr \<Rightarrow> mgr" where
  "flushTranscript env i s = (if e_flushes env (r_harness (m_obj s i)) then emitE (FlushTranscript i) s else s)"

definition kill_title :: "runner_id \<Rightarrow> mgr \<Rightarrow> mgr" where
  "kill_title i s =
     upd i (\<lambda>r. r\<lparr>r_titleProcess := None\<rparr>)
       (case r_titleProcess (m_obj s i) of None \<Rightarrow> s | Some p \<Rightarrow> emitE (Signal p ''SIGTERM'') s)"

definition stop_rest :: "env \<Rightarrow> runner_id \<Rightarrow> pid option \<Rightarrow> mgr \<Rightarrow> mgr" where
  "stop_rest env i captured s =
     (let s0 = kill_title i s;
          s1 = upd i (\<lambda>r. r\<lparr>r_startTimer := None\<rparr>) (disarm (r_startTimer (m_obj s0 i)) s0)
      in case captured of
           None \<Rightarrow> flushTranscript env i s1
         | Some p \<Rightarrow>
             (let s2 = upd i (\<lambda>r. r\<lparr>r_proc := None, r_emit := None, r_busy := False, r_resumeTimer := None,
                                     r_resumeId := None, r_resumeQueue := []\<rparr>)
                         (disarm (r_resumeTimer (m_obj s1 i)) s1);
                  s3 = emitE (Signal p ''SIGTERM'')
                         (s2\<lparr>m_procs := (m_procs s2)(p := (m_procs s2 p)\<lparr>p_listener := ExitOfStop (r_reader (m_obj s2 i))\<rparr>)\<rparr>);
                  (t, s4) = arm (KillTimer p) s3
              in flushTranscript env i (runnersChanged (Some i) s4)))"

definition fire_kill_timer :: "pid \<Rightarrow> mgr \<Rightarrow> mgr" where
  "fire_kill_timer p s = (if p_exited (m_procs s p) then s else emitE (Signal p ''SIGKILL'') s)"

section \<open>Sending commands\<close>

text \<open>The result is \<^term>\<open>None\<close> while the call awaits a start.\<close>

definition sendToRunner :: "env \<Rightarrow> runner_id \<Rightarrow> json \<Rightarrow> bool \<Rightarrow> mgr \<Rightarrow> bool option \<times> mgr" where
  "sendToRunner env i obj autostart s =
     (if has_type obj ''extension_ui_response'' \<and> str_field (js_get obj ''id'') \<in> Some ` set (r_brokered (m_obj s i))
      then (Some True, finish_ui i (the (str_field (js_get obj ''id''))) (brokeredUiResult obj) s)
      else if r_proc (m_obj s i) = None \<and> autostart then (None, startRunner i (SendCont obj) s)
      else (case send_rest env i obj s of (ok, s') \<Rightarrow> (Some ok, s')))"

definition requestState :: "env \<Rightarrow> runner_id \<Rightarrow> mgr \<Rightarrow> mgr" where
  "requestState env i s =
     (let (rid, s1) = srvId s
      in snd (sendToRunner env i (d_stateCommand (driverFor env (m_obj s1 i)) rid) False s1))"

definition requestHealth :: "env \<Rightarrow> runner_id \<Rightarrow> mgr \<Rightarrow> mgr" where
  "requestHealth env i s =
     (let (rid, s1) = srvId s; driver = driverFor env (m_obj s1 i)
      in snd (sendToRunner env i
           (case d_healthCommand driver of Some command \<Rightarrow> command rid | None \<Rightarrow> d_stateCommand driver rid) False s1))"

section \<open>Tracking driver events\<close>

definition handleExtensionUiRequest :: "runner_id \<Rightarrow> json \<Rightarrow> mgr \<Rightarrow> mgr" where
  "handleExtensionUiRequest i msg s =
     (let s1 = (if truthy (str_field (js_get msg ''id''))
                then upd i (\<lambda>r. r\<lparr>r_pendingUi := jsset_add (the (str_field (js_get msg ''id''))) (r_pendingUi r)\<rparr>) s
                else s)
      in if str_field (js_get msg ''method'') \<in> Some ` set clarification_methods
         then snd (setRunnerAttention i (Some Clarification) True s1) else s1)"

definition resetRunnerTitleState :: "runner_id \<Rightarrow> mgr \<Rightarrow> mgr" where
  "resetRunnerTitleState i s = upd i (\<lambda>r. r\<lparr>r_titleSessionId := None\<rparr>) (kill_title i s)"

definition sessionChanged :: "runner \<Rightarrow> json \<Rightarrow> bool" where
  "sessionChanged r d \<longleftrightarrow> truthy (r_sessionId r) \<and> truthy_json (js_get d ''sessionId'')
     \<and> \<not> same_value (r_sessionId r) (js_get d ''sessionId'')"

definition sessionInitialized :: "json \<Rightarrow> bool" where
  "sessionInitialized d \<longleftrightarrow> js_get d ''sessionInitialized'' \<noteq> Some (JBool False)"

definition stateChanged :: "runner \<Rightarrow> json \<Rightarrow> session_ref option \<Rightarrow> bool" where
  "stateChanged r d next_ref \<longleftrightarrow>
     (next_ref \<noteq> None \<and> r_ref r \<noteq> next_ref)
     \<or> \<not> same_value (r_sessionId r) (js_get d ''sessionId'')
     \<or> \<not> same_value (r_sessionName r) (js_get d ''sessionName'')
     \<or> r_initialized r \<noteq> Some (sessionInitialized d)"

definition provisionalReference :: "runner \<Rightarrow> json \<Rightarrow> session_ref option" where
  "provisionalReference r d = (if sessionChanged r d \<and> r_initialized r = Some False then r_ref r else None)"

text \<open>The end of \<^verbatim>\<open>handleGetStateResponse\<close>; titling of new sessions is not modelled.\<close>

definition state_rest :: "runner_id \<Rightarrow> json \<Rightarrow> bool \<Rightarrow> mgr \<Rightarrow> mgr" where
  "state_rest i d changed s =
     (let s1 = upd i (\<lambda>r. r\<lparr>r_busy := (truthy_json (js_get d ''isStreaming'') \<or> truthy_json (js_get d ''isCompacting''))\<rparr>) s
      in if changed then runnersChanged (Some i) s1 else s1)"

definition persistRunnerState :: "runner_id \<Rightarrow> session_ref option \<Rightarrow> bool \<Rightarrow> mgr \<Rightarrow> mgr" where
  "persistRunnerState i next_ref initialized s =
     emitE (RepoUpdate i [(''session_backend'', opt_json (map_option sr_backend next_ref)),
                          (''session_id'', opt_json (map_option sr_id next_ref)),
                          (''session_storage_path'', opt_json (Option.bind next_ref sr_path)),
                          (''session_name'', opt_json (r_sessionName (m_obj s i))),
                          (''session_initialized'', JNum (if initialized then 1 else 0))]) s"

definition apply_state :: "runner_id \<Rightarrow> json \<Rightarrow> session_ref option \<Rightarrow> mgr \<Rightarrow> mgr" where
  "apply_state i d next_ref s =
     (let r = m_obj s i;
          s0 = (if sessionChanged r d then resetRunnerTitleState i s else s);
          s1 = upd i (\<lambda>r. r\<lparr>r_ref := next_ref, r_sessionFile := jsonl_path next_ref,
                             r_sessionId := (if str_field (js_get d ''sessionId'') = None then r_sessionId r
                                             else str_field (js_get d ''sessionId'')),
                             r_sessionName := str_field (js_get d ''sessionName''),
                             r_initialized := Some (sessionInitialized d)\<rparr>) s0
      in if stateChanged r d next_ref
         then spawn_task (StatePersist i next_ref (sessionInitialized d) d)
                (case (provisionalReference r d, next_ref) of
                   (Some old, Some new) \<Rightarrow> emitE (Reidentify old new) s1
                 | _ \<Rightarrow> s1)
         else state_rest i d False s1)"

text \<open>An extracted reference that does not validate rejects the handler before it changes anything.\<close>

definition handleGetStateResponse :: "env \<Rightarrow> runner_id \<Rightarrow> json \<Rightarrow> mgr \<Rightarrow> mgr" where
  "handleGetStateResponse env i d s =
     (case d_sessionReference (driverFor env (m_obj s i)) d (r_ref (m_obj s i)) of
        None \<Rightarrow> apply_state i d None s
      | Some extracted \<Rightarrow>
          (case validate (e_codec env) (Some extracted) of
             Inl _ \<Rightarrow> s
           | Inr next_ref \<Rightarrow> apply_state i d (Some next_ref) s))"

definition handleResponseEvent :: "env \<Rightarrow> runner_id \<Rightarrow> json \<Rightarrow> mgr \<Rightarrow> mgr" where
  "handleResponseEvent env i msg s =
     (if same_value (r_resumeId (m_obj s i)) (js_get msg ''id'')
      then (let s1 = finishResume env i s
            in if truthy_json (js_get msg ''success'') then requestState env i s1 else s1)
      else if \<not> truthy_json (js_get msg ''success'') then s
      else if js_get msg ''command'' = Some (JStr ''get_state'') \<and> truthy_json (js_get msg ''data'')
        then handleGetStateResponse env i (the (js_get msg ''data'')) s
      else if str_field (js_get msg ''command'') \<in> Some ` {''switch_session'', ''new_session'', ''set_session_name''}
        then requestState env i s
      else s)"

definition applyRunnerLifecycleEvent :: "env \<Rightarrow> runner_id \<Rightarrow> json \<Rightarrow> mgr \<Rightarrow> mgr" where
  "applyRunnerLifecycleEvent env i msg s =
     (let busy = (\<lambda>b. upd i (\<lambda>r. r\<lparr>r_busy := b\<rparr>)) in
      if has_type msg ''extension_ui_request'' then handleExtensionUiRequest i msg s
      else if has_type msg ''agent_start''
        then runnersChanged (Some i) (busy True (snd (setRunnerAttention i None False s)))
      else if has_type msg ''agent_end''
        then requestState env i (runnersChanged (Some i) (busy (truthy_json (js_get msg ''willRetry'')) s))
      else if has_type msg ''agent_settled''
        then (let s1 = busy False s;
                  s2 = (if r_attention (m_obj s1 i) \<noteq> Some Clarification
                        then snd (setRunnerAttention i (Some Completed) True s1) else s1)
              in requestState env i (runnersChanged (Some i) s2))
      else if has_type msg ''compaction_start'' then runnersChanged (Some i) (busy True s)
      else if has_type msg ''compaction_end'' \<and> js_get msg ''reason'' = Some (JStr ''manual'')
        then requestState env i (runnersChanged (Some i) (busy False s))
      else if has_type msg ''harness_auth_failed'' then emitE (AuthFailure i msg) s
      else if has_type msg ''response'' then handleResponseEvent env i msg s
      else s)"

definition trackRunner :: "env \<Rightarrow> runner_id \<Rightarrow> json \<Rightarrow> mgr \<Rightarrow> mgr" where
  "trackRunner env i msg s =
     (case msg of
        JObj _ \<Rightarrow> applyRunnerLifecycleEvent env i msg (emitE (Notify i msg) s)
      | _ \<Rightarrow> s)"

text \<open>\<^verbatim>\<open>emitDriverEvent\<close>, the closure of one process: it is silent once the process was replaced.\<close>

definition emitDriverEvent :: "env \<Rightarrow> pid \<Rightarrow> json \<Rightarrow> mgr \<Rightarrow> mgr" where
  "emitDriverEvent env p event s =
     (let i = p_owner (m_procs s p) in
      if r_proc (m_obj s i) \<noteq> Some p \<or> \<not> (case event of JObj _ \<Rightarrow> True | JArr _ \<Rightarrow> True | _ \<Rightarrow> False) then s
      else emitE (RunnerEvent i event) (trackRunner env i event s))"

fun emit_all :: "env \<Rightarrow> pid \<Rightarrow> json list \<Rightarrow> mgr \<Rightarrow> mgr" where
  "emit_all env p [] s = s"
| "emit_all env p (e # es) s = emit_all env p es (emitDriverEvent env p e s)"

text \<open>A line of output; \<open>decoded\<close> is what \<^verbatim>\<open>driver.decodeLine\<close> returned, or \<^term>\<open>None\<close> if it threw.\<close>

definition proc_line :: "env \<Rightarrow> pid \<Rightarrow> string \<Rightarrow> json list option \<Rightarrow> mgr \<Rightarrow> mgr" where
  "proc_line env p line decoded s =
     (let i = p_owner (m_procs s p) in
      if r_proc (m_obj s i) \<noteq> Some p \<or> js_trim line = [] then s
      else
        (let s1 = upd i (\<lambda>r. r\<lparr>r_lastLineAt := m_now s\<rparr>) s
         in case decoded of None \<Rightarrow> s1 | Some events \<Rightarrow> emit_all env p events s1))"

section \<open>Watchdog and reaper\<close>

definition hasSubscribers :: "mgr \<Rightarrow> runner_id \<Rightarrow> bool" where
  "hasSubscribers s i \<longleftrightarrow> (\<exists>c \<in> set (m_clients s). c_runner c = i \<and> \<not> c_ended c \<and> \<not> c_destroyed c)"

text \<open>One round of the loop in \<^verbatim>\<open>watchdogTick\<close>.\<close>

definition watchdog_runner :: "env \<Rightarrow> runner_id \<Rightarrow> mgr \<Rightarrow> mgr" where
  "watchdog_runner env i s =
     (let r = m_obj s i;
          probe = (\<lambda>s. requestHealth env i (upd i (\<lambda>r. r\<lparr>r_probeSentAt := Some (m_now s)\<rparr>) s))
      in if r_proc r = None \<or> \<not> r_watchdogOk r \<or> truthy (r_resumeId r) then s
         else if \<not> hasSubscribers s i then upd i (\<lambda>r. r\<lparr>r_probeSentAt := None, r_probeMisses := 0\<rparr>) s
         else if (case r_probeSentAt r of None \<Rightarrow> False | Some t \<Rightarrow> t \<noteq> 0 \<and> r_lastLineAt r < t) then
           (if Suc (r_probeMisses r) \<ge> watchdog_max_misses then
              startRunner i NoCont
                (stopRunner i
                  (runnerEvent i [(''type'', JStr ''runner_unhealthy''),
                                  (''reason'', JStr (d_label (driverFor env r) @ '' did not answer health probes'')),
                                  (''action'', JStr ''restart'')]
                    (upd i (\<lambda>r. r\<lparr>r_probeSentAt := None, r_probeMisses := 0\<rparr>) s)))
            else probe (upd i (\<lambda>r. r\<lparr>r_probeMisses := Suc (r_probeMisses r)\<rparr>) s))
         else probe (upd i (\<lambda>r. r\<lparr>r_probeMisses := 0\<rparr>) s))"

definition watchdogTick :: "env \<Rightarrow> mgr \<Rightarrow> mgr" where
  "watchdogTick env s = fold (watchdog_runner env) (m_order s) s"

definition reapable :: "mgr \<Rightarrow> runner_id \<Rightarrow> bool" where
  "reapable s i \<longleftrightarrow> r_proc (m_obj s i) \<noteq> None \<and> \<not> truthy (r_sessionName (m_obj s i)) \<and> \<not> r_busy (m_obj s i)
     \<and> m_now s - r_lastSpawnAt (m_obj s i) > max_orphan_age_ms"

definition reaperTick :: "mgr \<Rightarrow> mgr" where
  "reaperTick s = fold (\<lambda>i s. if reapable s i then stopRunner i s else s) (m_order s) s"

end
