(* ===== verification/Runner_Manager.thy ===== *)
theory Runner_Manager
  imports Runner_Lifecycle
begin

text \<open>
  The rest of the manager of \<^verbatim>\<open>server/runners.mjs\<close>: restoring the runner table at boot, allocating
  and spawning runners, the default runner, selecting the runner of a session, adopting a session
  identity, and the clarifications brokered to the browser.  The registry of drivers is that of
  \<^verbatim>\<open>runner-drivers/registry.mjs\<close>.
\<close>

section \<open>The driver registry\<close>

datatype registry_error =
    DriversRequired
  | DuplicateDriver string
  | BadDriverId
  | DefaultDriverUnavailable string
  | HarnessUnavailable string

text \<open>\<^verbatim>\<open>requireId\<close>: a non-empty string without surrounding white space.\<close>

definition require_trimmed :: "string \<Rightarrow> bool" where
  "require_trimmed s \<longleftrightarrow> js_trim s \<noteq> [] \<and> s = js_trim s"

text \<open>\<^verbatim>\<open>createRunnerDriverRegistry\<close> on drivers that passed \<^verbatim>\<open>validateRunnerDriver\<close>, named by their ids.\<close>

fun register_drivers :: "string list \<Rightarrow> string list \<Rightarrow> registry_error + string list" where
  "register_drivers done [] = Inr done"
| "register_drivers done (d # ds) =
     (if d \<in> set done then Inl (DuplicateDriver d) else register_drivers (done @ [d]) ds)"

definition createRunnerDriverRegistry :: "string list \<Rightarrow> string \<Rightarrow> registry_error + string list \<times> string" where
  "createRunnerDriverRegistry drivers defaultId =
     (if drivers = [] then Inl DriversRequired
      else (case register_drivers [] drivers of
              Inl e \<Rightarrow> Inl e
            | Inr ids \<Rightarrow>
                if \<not> require_trimmed defaultId then Inl BadDriverId
                else if defaultId \<notin> set ids then Inl (DefaultDriverUnavailable defaultId)
                else Inr (ids, defaultId)))"

definition registry_get :: "env \<Rightarrow> string \<Rightarrow> registry_error + driver" where
  "registry_get env i =
     (if \<not> require_trimmed i then Inl BadDriverId
      else if i \<in> set (e_harnesses env) then Inr (e_driver env i)
      else Inl (HarnessUnavailable i))"

definition registry_compatible :: "env \<Rightarrow> session_ref option \<Rightarrow> string option \<Rightarrow> string option" where
  "registry_compatible env reference preferred =
     (if truthy preferred \<and> the preferred \<in> set (e_harnesses env)
         \<and> d_compatible (e_driver env (the preferred)) reference
      then preferred
      else find (\<lambda>h. d_compatible (e_driver env h) reference) (e_harnesses env))"

section \<open>Restoring runners at boot\<close>

definition row_live :: "mgr \<Rightarrow> runner_row \<Rightarrow> bool" where
  "row_live s w \<longleftrightarrow> w_id w \<notin> set (m_order s) \<and> w_status w \<in> {''starting'', ''running''}"

text \<open>\<^verbatim>\<open>markPreviouslyLiveInterrupted\<close>: the rows come back from the table with their new status.\<close>

definition markPreviouslyLiveInterrupted :: "runner_row list \<Rightarrow> mgr \<Rightarrow> runner_row list \<times> mgr" where
  "markPreviouslyLiveInterrupted rows s =
     (map (\<lambda>w. if row_live s w then w\<lparr>w_status := ''interrupted''\<rparr> else w) rows,
      fold (\<lambda>w. emitE (RepoUpdate (w_id w) [(''desired_state'', JStr ''stopped''),
                                            (''last_status'', JStr ''interrupted'')]))
        (filter (row_live s) rows) s)"

definition set_runner :: "runner_id \<Rightarrow> runner \<Rightarrow> mgr \<Rightarrow> mgr" where
  "set_runner i r s = s\<lparr>m_obj := (m_obj s)(i := r), m_order := jsset_add i (m_order s)\<rparr>"

fun load_rows :: "env \<Rightarrow> runner_row list \<Rightarrow> mgr \<Rightarrow> ref_error + mgr" where
  "load_rows env [] s = Inr s"
| "load_rows env (w # ws) s =
     (if w_id w \<in> set (m_order s) then load_rows env ws s
      else (case persistedReference (e_codec env) w of
              Inl e \<Rightarrow> Inl e
            | Inr reference \<Rightarrow>
                load_rows env ws (set_runner (w_id w) (runnerFromPersisted w reference (e_defaultHarness env)) s)))"

definition loadPersistedRunners :: "env \<Rightarrow> runner_row list \<Rightarrow> mgr \<Rightarrow> ref_error + runner_row list \<times> mgr" where
  "loadPersistedRunners env rows s =
     (let (rows', s') = markPreviouslyLiveInterrupted rows s
      in case load_rows env rows' s' of Inl e \<Rightarrow> Inl e | Inr s'' \<Rightarrow> Inr (rows', s''))"

text \<open>\<^verbatim>\<open>undefined\<close>, a runner that is not in the map, is judged as a runner of the default harness.\<close>

definition compatibleWithConfiguredBackend :: "env \<Rightarrow> runner option \<Rightarrow> bool" where
  "compatibleWithConfiguredBackend env r =
     (case registry_get env (case r of None \<Rightarrow> e_defaultHarness env | Some x \<Rightarrow> r_harness x) of
        Inl _ \<Rightarrow> False
      | Inr d \<Rightarrow> d_compatible d (Option.bind r r_ref))"

definition runner_of :: "mgr \<Rightarrow> runner_id \<Rightarrow> runner option" where
  "runner_of s i = (if i \<in> set (m_order s) then Some (m_obj s i) else None)"

definition reconcileDefaultRunner :: "env \<Rightarrow> runner_row list \<Rightarrow> mgr \<Rightarrow> mgr" where
  "reconcileDefaultRunner env rows s =
     (let compatible = (\<lambda>s i. compatibleWithConfiguredBackend env (runner_of s i));
          persistedDefault = find (\<lambda>w. w_isDefault w = 1 \<and> compatible s (w_id w)) rows;
          s1 = (case m_default s of
                  Some d \<Rightarrow>
                    if d \<noteq> [] \<and> (d \<notin> set (m_order s) \<or> \<not> compatible s d)
                    then emitE (SettingsSetDefault None) (s\<lparr>m_default := None\<rparr>) else s
                | None \<Rightarrow> s)
      in case persistedDefault of
           Some w \<Rightarrow>
             if \<not> truthy (m_default s1)
             then emitE (SettingsSetDefault (Some (w_id w))) (s1\<lparr>m_default := Some (w_id w)\<rparr>) else s1
         | None \<Rightarrow> s1)"

fun ensure_references :: "codec \<Rightarrow> runner_id list \<Rightarrow> mgr \<Rightarrow> ref_error + mgr" where
  "ensure_references cd [] s = Inr s"
| "ensure_references cd (i # is) s =
     (let r = m_obj s i in
      if r_ref r = None \<and> truthy (r_sessionFile r) \<and> truthy (r_sessionId r)
      then (case validate cd (Some (JObj [(''backend'', JStr ''jsonl''), (''id'', JStr (the (r_sessionId r))),
                                          (''storagePath'', JStr (the (r_sessionFile r)))])) of
              Inl e \<Rightarrow> Inl e
            | Inr reference \<Rightarrow> ensure_references cd is (upd i (\<lambda>r. r\<lparr>r_ref := Some reference\<rparr>) s))
      else ensure_references cd is s)"

definition ensureRuntimeReferences :: "codec \<Rightarrow> mgr \<Rightarrow> ref_error + mgr" where
  "ensureRuntimeReferences cd s = ensure_references cd (m_order s) s"

text \<open>The part of \<^verbatim>\<open>createRunnerManager\<close> that builds the state.\<close>

definition createRunnerManager :: "env \<Rightarrow> runner_row list \<Rightarrow> mgr \<Rightarrow> ref_error + mgr" where
  "createRunnerManager env rows s =
     (case loadPersistedRunners env rows s of
        Inl e \<Rightarrow> Inl e
      | Inr (rows', s') \<Rightarrow> ensureRuntimeReferences (e_codec env) (reconcileDefaultRunner env rows' s'))"

section \<open>Spawning\<close>

datatype manager_error =
    InvalidRunnerToken
  | RepeatedRunnerToken
  | Registry registry_error
  | Reference ref_error
  | Incompatible string string
  | NoHarness "string option"
  | RunnerUnavailable
  | BadUiMethod
  | CatalogUnavailable \<comment> \<open>the \<^verbatim>\<open>TypeError\<close> of reading \<^verbatim>\<open>findById\<close> of a missing catalogue\<close>

definition id_char :: "char \<Rightarrow> bool" where
  "id_char c \<longleftrightarrow> (let n = (of_char c :: nat) in
     (97 \<le> n \<and> n \<le> 122) \<or> (65 \<le> n \<and> n \<le> 90) \<or> (48 \<le> n \<and> n \<le> 57) \<or> n = 95 \<or> n = 45)"

definition valid_runner_token :: "string \<Rightarrow> bool" where
  "valid_runner_token token \<longleftrightarrow> 8 \<le> length token \<and> length token \<le> 128 \<and> list_all id_char token"

text \<open>The attempts consume the generator's tokens in order.\<close>

fun allocate_from :: "runner_id list \<Rightarrow> string list \<Rightarrow> manager_error + runner_id" where
  "allocate_from taken [] = Inl RepeatedRunnerToken"
| "allocate_from taken (token # tokens) =
     (if \<not> valid_runner_token token then Inl InvalidRunnerToken
      else if ''r-'' @ token \<notin> set taken then Inr (''r-'' @ token)
      else allocate_from taken tokens)"

definition allocateRunnerId :: "string list \<Rightarrow> mgr \<Rightarrow> manager_error + runner_id" where
  "allocateRunnerId tokens s = allocate_from (m_order s) (take max_runner_id_attempts tokens)"

text \<open>\<^verbatim>\<open>spawnRunner\<close> after the owner is known, up to the awaited insertion.\<close>

definition spawn_allocate ::
  "string list \<Rightarrow> string \<Rightarrow> string \<Rightarrow> session_ref option \<Rightarrow> bool \<Rightarrow> string list \<Rightarrow> cont \<Rightarrow> mgr
   \<Rightarrow> manager_error + mgr" where
  "spawn_allocate tokens dir harness reference autostart args k s =
     (case allocateRunnerId tokens s of
        Inl e \<Rightarrow> Inl e
      | Inr i \<Rightarrow> Inr (spawn_task (SpawnRest i dir harness reference autostart args k)
                   (emitE (RepoCreate i (if autostart then ''starting'' else ''stopped'')) s)))"

definition spawnRunner ::
  "env \<Rightarrow> string list \<Rightarrow> string \<Rightarrow> string \<Rightarrow> json option \<Rightarrow> bool \<Rightarrow> string list \<Rightarrow> cont \<Rightarrow> mgr
   \<Rightarrow> manager_error + mgr" where
  "spawnRunner env tokens dir harness sessionRef autostart args k s =
     (case registry_get env harness of
        Inl e \<Rightarrow> Inl (Registry e)
      | Inr selected \<Rightarrow>
          if \<not> truthy_json sessionRef then spawn_allocate tokens dir harness None autostart args k s
          else (case validate (e_codec env) sessionRef of
                  Inl e \<Rightarrow> Inl (Reference e)
                | Inr reference \<Rightarrow>
                    if \<not> d_compatible selected (Some reference) then Inl (Incompatible (sr_id reference) harness)
                    else Inr (spawn_task (SpawnOwner dir harness (Some reference) autostart args k) s)))"

definition spawn_rest ::
  "runner_id \<Rightarrow> string \<Rightarrow> string \<Rightarrow> session_ref option \<Rightarrow> bool \<Rightarrow> string list \<Rightarrow> cont \<Rightarrow> mgr \<Rightarrow> mgr" where
  "spawn_rest i dir harness reference autostart args k s =
     (let s1 = set_runner i (initializeRunnerRuntime i dir harness reference (jsonl_path reference)
                               (map_option sr_id reference) None None None False 0 args) s
      in if autostart then startRunner i k s1 else after_start i k s1)"

section \<open>The default runner and the runner of a session\<close>

definition default_rest :: "runner_id \<Rightarrow> mgr \<Rightarrow> mgr" where
  "default_rest i s = spawn_task (DefaultSettings i) (emitE (RepoSetDefault i) (s\<lparr>m_default := Some i\<rparr>))"

text \<open>The result is \<^term>\<open>None\<close> while a new runner is being spawned.\<close>

definition defaultRunner :: "env \<Rightarrow> string list \<Rightarrow> mgr \<Rightarrow> manager_error + runner_id option \<times> mgr" where
  "defaultRunner env tokens s =
     (if m_default s \<noteq> None \<and> the (m_default s) \<in> set (m_order s) then Inr (m_default s, s)
      else
        (let compatible = filter (\<lambda>i. compatibleWithConfiguredBackend env (Some (m_obj s i))) (m_order s)
         in case find (\<lambda>i. r_proc (m_obj s i) \<noteq> None) compatible of
              Some i \<Rightarrow> Inr (Some i, default_rest i s)
            | None \<Rightarrow>
                (case compatible of
                   i # _ \<Rightarrow> Inr (Some i, default_rest i s)
                 | [] \<Rightarrow>
                     (case spawnRunner env tokens (m_currentDir s) (e_defaultHarness env) None True [] DefaultCont s of
                        Inl e \<Rightarrow> Inl e | Inr s' \<Rightarrow> Inr (None, s')))))"

text \<open>\<^verbatim>\<open>runnerFromReq\<close>, on the \<^verbatim>\<open>runner\<close> parameter of the request.\<close>

definition runnerFromReq :: "env \<Rightarrow> string list \<Rightarrow> string option \<Rightarrow> mgr \<Rightarrow> manager_error + runner_id option \<times> mgr" where
  "runnerFromReq env tokens i s =
     (if truthy i \<and> the i \<in> set (m_order s) \<and> compatibleWithConfiguredBackend env (Some (m_obj s (the i)))
      then Inr (i, s) else defaultRunner env tokens s)"

text \<open>Validated references are equal as backend-neutral identities exactly when they are equal records.\<close>

definition findRunnerByReference :: "session_ref \<Rightarrow> mgr \<Rightarrow> runner_id option" where
  "findRunnerByReference reference s = find (\<lambda>i. r_ref (m_obj s i) = Some reference) (m_order s)"

text \<open>
  \<open>saved\<close> is the harness the session catalogue has stored for an id.  The two backends are compared
  as nullable values, so a missing catalogue equals a missing reference.
\<close>

definition selectSessionHarness ::
  "env \<Rightarrow> (string \<Rightarrow> string option) \<Rightarrow> string option \<Rightarrow> session_ref option \<Rightarrow> manager_error + string option" where
  "selectSessionHarness env saved harness reference =
     (let matches = \<not> truthy harness \<and> map_option sr_backend reference = e_catalogBackend env
      in if matches \<and> reference = None then Inl CatalogUnavailable
         else
           (case harness of
              Some h \<Rightarrow> Inr (Some h)
            | None \<Rightarrow>
                (case (if matches then saved (sr_id (the reference)) else None) of
                   Some h \<Rightarrow> Inr (Some h)
                 | None \<Rightarrow>
                     Inr (if reference \<noteq> None then registry_compatible env reference None
                          else Some (e_defaultHarness env)))))"

definition inputReference :: "json option \<Rightarrow> string option \<Rightarrow> string option \<Rightarrow> json option" where
  "inputReference sessionRef sessionPath sessionId =
     (if sessionRef \<noteq> None \<and> sessionRef \<noteq> Some JNull then sessionRef
      else if truthy sessionPath \<and> truthy sessionId
        then Some (JObj [(''backend'', JStr ''jsonl''), (''id'', JStr (the sessionId)),
                         (''storagePath'', JStr (the sessionPath))])
      else None)"

definition openSessionRunner ::
  "env \<Rightarrow> (string \<Rightarrow> string option) \<Rightarrow> string list \<Rightarrow> string option \<Rightarrow> json option \<Rightarrow> string option
   \<Rightarrow> mgr \<Rightarrow> manager_error + runner_id option \<times> mgr" where
  "openSessionRunner env saved tokens harness input dir s =
     (case (if truthy_json input then map_sum id Some (validate (e_codec env) input) else Inr None) of
        Inl e \<Rightarrow> Inl (Reference e)
      | Inr reference \<Rightarrow>
          (case selectSessionHarness env saved harness reference of
             Inl e \<Rightarrow> Inl e
           | Inr selected \<Rightarrow>
               if \<not> truthy selected then Inl (NoHarness (map_option sr_id reference))
               else
                 (case Option.bind reference (\<lambda>r. findRunnerByReference r s) of
                    Some i \<Rightarrow> Inr (Some i, s)
                  | None \<Rightarrow>
                      (case spawnRunner env tokens (if truthy dir then the dir else m_currentDir s) (the selected)
                              (map_option ref_json reference) (reference = None) [] NoCont s of
                         Inl e \<Rightarrow> Inl e | Inr s' \<Rightarrow> Inr (None, s')))))"

section \<open>Adopting a session identity\<close>

definition updateRunnerSessionReference :: "env \<Rightarrow> runner_id \<Rightarrow> json option \<Rightarrow> mgr \<Rightarrow> manager_error + mgr" where
  "updateRunnerSessionReference env i reference s =
     (if i \<notin> set (m_order s) then Inl RunnerUnavailable
      else (case validate (e_codec env) reference of
              Inl e \<Rightarrow> Inl (Reference e)
            | Inr next_ref \<Rightarrow>
                (case registry_get env (r_harness (m_obj s i)) of
                   Inl e \<Rightarrow> Inl (Registry e)
                 | Inr d \<Rightarrow>
                     if \<not> d_compatible d (Some next_ref) then Inl (Incompatible (sr_id next_ref) (r_harness (m_obj s i)))
                     else
                       (let changed = (r_ref (m_obj s i) \<noteq> Some next_ref);
                            s1 = upd i (\<lambda>r. r\<lparr>r_ref := Some next_ref, r_sessionFile := jsonl_path (Some next_ref),
                                              r_sessionId := Some (sr_id next_ref)\<rparr>) s
                        in Inr (if changed then spawn_task (RefOwner i next_ref) s1 else s1)))))"

definition ref_owner :: "runner_id \<Rightarrow> session_ref \<Rightarrow> mgr \<Rightarrow> mgr" where
  "ref_owner i r s =
     spawn_task (RefRest i)
       (emitE (RepoUpdate i [(''session_backend'', JStr (sr_backend r)), (''session_id'', JStr (sr_id r)),
                             (''session_storage_path'', opt_json (sr_path r))]) s)"

section \<open>Brokered clarifications\<close>

text \<open>
  \<^verbatim>\<open>requestRunnerUi\<close> with the fields of the request, the generated id \<open>u\<close> and whether its signal
  is already aborted.  The answer arrives as the \<open>UiResolved\<close> effect of \<^const>\<open>finish_ui\<close>.
\<close>

definition ui_event :: "(string \<times> json) list \<Rightarrow> string \<Rightarrow> json" where
  "ui_event request u =
     JObj (jsmap_set ''id'' (JStr u)
       (fold (\<lambda>(k, v). jsmap_set k v) request [(''type'', JStr ''extension_ui_request'')]))"

definition aborted_result :: "string \<Rightarrow> json" where
  "aborted_result reason = JObj [(''cancelled'', JBool True), (''reason'', JStr reason)]"

definition requestRunnerUi :: "env \<Rightarrow> runner_id \<Rightarrow> (string \<times> json) list \<Rightarrow> string \<Rightarrow> bool \<Rightarrow> mgr \<Rightarrow> manager_error + mgr" where
  "requestRunnerUi env i request u aborted s =
     (if str_field (map_of request ''method'') \<notin> Some ` set brokered_ui_methods then Inl BadUiMethod
      else
        (let s1 = upd i (\<lambda>r. r\<lparr>r_brokered := jsset_add u (r_brokered r)\<rparr>) (snd (arm (UiTimer i u) s))
         in Inr (if aborted then finish_ui i u (aborted_result ''aborted'') s1
                 else emitE (RunnerEvent i (ui_event request u)) (trackRunner env i (ui_event request u) s1))))"

section \<open>Stopping and deleting\<close>

definition stopDrivers :: "mgr \<Rightarrow> mgr" where
  "stopDrivers s = fold stopRunner (m_order s) s"

end
