(* ===== verification/Runner_Steps.thy ===== *)
theory Runner_Steps
  imports Runner_Manager
begin

text \<open>
  The runner manager as a transition system.  A step is one uninterrupted run of the event loop:
  a call of an exported operation up to its first \<^verbatim>\<open>await\<close>, the continuation of a suspended one
  (in any order, or its rejection by the awaited database), an event of a child process, a timer, a
  periodic tick, a client coming or going.  The invariant is proved once for every operation and
  lifted to all reachable states.  Runner ids come from \<^verbatim>\<open>randomUUID\<close> and name one object each.
\<close>

section \<open>Continuations and timers\<close>

text \<open>
  \<open>outcome\<close> is what a launch does and \<open>tokens\<close> what the id generator returns, for the tasks that
  ask for them.
\<close>

fun resume_task :: "env \<Rightarrow> string + unit \<Rightarrow> string list \<Rightarrow> task \<Rightarrow> mgr \<Rightarrow> mgr" where
  "resume_task env outcome tokens (StartLaunch i k) s = start_launch outcome i k s"
| "resume_task env outcome tokens (StartFailed i err k) s = start_failed i err k s"
| "resume_task env outcome tokens (StartReady i p k) s = start_ready env i p k s"
| "resume_task env outcome tokens (StopRest i captured) s = stop_rest env i captured s"
| "resume_task env outcome tokens (ExitRest i code sig) s = exit_rest i code sig s"
| "resume_task env outcome tokens (SendRest i obj) s = snd (send_rest env i obj s)"
| "resume_task env outcome tokens (StatePersist i next_ref initialized d) s =
     spawn_task (StateRest i d) (persistRunnerState i next_ref initialized s)"
| "resume_task env outcome tokens (StateRest i d) s = state_rest i d True s"
| "resume_task env outcome tokens (SpawnOwner dir harness reference autostart args k) s =
     (case spawn_allocate tokens dir harness reference autostart args k s of Inl _ \<Rightarrow> s | Inr s' \<Rightarrow> s')"
| "resume_task env outcome tokens (SpawnRest i dir harness reference autostart args k) s =
     spawn_rest i dir harness reference autostart args k s"
| "resume_task env outcome tokens (DefaultRest i) s = default_rest i s"
| "resume_task env outcome tokens (DefaultSettings i) s = emitE (SettingsSetDefault (Some i)) s"
| "resume_task env outcome tokens (RefOwner i r) s = ref_owner i r s"
| "resume_task env outcome tokens (RefRest i) s = runnersChanged (Some i) s"

fun fire_timer :: "env \<Rightarrow> timer_id \<Rightarrow> timer \<Rightarrow> mgr \<Rightarrow> mgr" where
  "fire_timer env t (StartTimer i) s = fire_start_timer t i s"
| "fire_timer env t (ResumeTimer i) s = finishResume env i s"
| "fire_timer env t (KillTimer p) s = fire_kill_timer p s"
| "fire_timer env t (UiTimer i u) s = finish_ui i u (aborted_result ''timeout'') s"

definition forget_runner :: "runner_id \<Rightarrow> mgr \<Rightarrow> mgr" where
  "forget_runner i s =
     s\<lparr>m_order := jsset_delete i (m_order s), m_default := (if m_default s = Some i then None else m_default s)\<rparr>"

section \<open>The transition system\<close>

inductive mstep :: "env \<Rightarrow> mgr \<Rightarrow> mgr \<Rightarrow> bool" for env where
  start: "mstep env s (startRunner i NoCont s)"
| stop: "mstep env s (stopRunner i s)"
| send: "mstep env s (snd (sendToRunner env i obj autostart s))"
| spawn: "spawnRunner env tokens dir harness sessionRef autostart args NoCont s = Inr s' \<Longrightarrow> mstep env s s'"
| default_runner: "defaultRunner env tokens s = Inr (i, s') \<Longrightarrow> mstep env s s'"
| open_session: "openSessionRunner env saved tokens harness input dir s = Inr (i, s') \<Longrightarrow> mstep env s s'"
| adopt: "updateRunnerSessionReference env i reference s = Inr s' \<Longrightarrow> mstep env s s'"
| ui: "requestRunnerUi env i request u aborted s = Inr s' \<Longrightarrow> mstep env s s'"
| ui_abort: "mstep env s (finish_ui i u (aborted_result ''aborted'') s)"
| acknowledge: "mstep env s (snd (acknowledgeRunnerAttention i s))"
| resumed: "m_tasks s = before @ t # after \<Longrightarrow>
    mstep env s (resume_task env outcome tokens t (s\<lparr>m_tasks := before @ after\<rparr>))"
| rejected: "m_tasks s = before @ t # after \<Longrightarrow> mstep env s (s\<lparr>m_tasks := before @ after\<rparr>)"
| error: "p < m_nextPid s \<Longrightarrow> mstep env s (proc_error p err s)"
| exit: "p < m_nextPid s \<Longrightarrow> \<not> p_exited (m_procs s p) \<Longrightarrow> mstep env s (proc_exit p code sig s)"
| line: "p < m_nextPid s \<Longrightarrow> p_reader (m_procs s p) \<Longrightarrow> mstep env s (proc_line env p txt_line decoded s)"
| driver_event: "r_emit (m_obj s i) = Some p \<Longrightarrow> mstep env s (emitDriverEvent env p event s)"
| timer: "(t, tm) \<in> set (m_timers s) \<Longrightarrow>
    mstep env s (fire_timer env t tm (s\<lparr>m_timers := filter (\<lambda>x. fst x \<noteq> t) (m_timers s)\<rparr>))"
| watchdog: "mstep env s (watchdogTick env s)"
| reaper: "mstep env s (reaperTick s)"
| stop_all: "mstep env s (stopDrivers s)"
| forget: "mstep env s (forget_runner i s)"
| clock: "m_now s \<le> t \<Longrightarrow> mstep env s (s\<lparr>m_now := t\<rparr>)"
| clients: "mstep env s (s\<lparr>m_clients := cs\<rparr>)"

abbreviation msteps :: "env \<Rightarrow> mgr \<Rightarrow> mgr \<Rightarrow> bool" where
  "msteps env \<equiv> (mstep env)\<^sup>*\<^sup>*"

definition blank_runner :: runner where
  "blank_runner = initializeRunnerRuntime [] [] [] None None None None None None False 0 []"

text \<open>The state object of a fresh process: no runner, no child, nothing suspended.\<close>

definition empty_mgr :: "string \<Rightarrow> runner_id option \<Rightarrow> int \<Rightarrow> mgr" where
  "empty_mgr dir dflt now =
     \<lparr>m_obj = \<lambda>_. blank_runner, m_order = [], m_default = dflt, m_currentDir = dir, m_clients = [],
      m_seq = 0, m_now = now,
      m_procs = \<lambda>_. \<lparr>p_owner = [], p_launchFailed = False, p_reader = False, p_listener = ExitOfStart, p_exited = False\<rparr>,
      m_nextPid = 0, m_tasks = [], m_timers = [], m_nextTimer = 0, m_log = []\<rparr>"

definition reachable :: "env \<Rightarrow> mgr \<Rightarrow> bool" where
  "reachable env s \<longleftrightarrow> (\<exists>rows dir dflt now s0.
     createRunnerManager env rows (empty_mgr dir dflt now) = Inr s0 \<and> msteps env s0 s)"

section \<open>The ownership invariant\<close>

text \<open>
  A process belongs to the runner that launched it and to no other; a runner without a process has
  no live event emitter; a start that waits for the database waits for a process of its own runner;
  the runner map has one entry per id, which carries that id.
\<close>

definition owns :: "mgr \<Rightarrow> runner_id \<Rightarrow> pid \<Rightarrow> bool" where
  "owns s i p \<longleftrightarrow> p < m_nextPid s \<and> p_owner (m_procs s p) = i"

fun task_ok :: "mgr \<Rightarrow> task \<Rightarrow> bool" where
  "task_ok s (StartReady i p k) = owns s i p"
| "task_ok s (StopRest i (Some p)) = owns s i p"
| "task_ok s _ = True"

definition runner_ok :: "mgr \<Rightarrow> runner_id \<Rightarrow> bool" where
  "runner_ok s i \<longleftrightarrow>
     (\<forall>p. r_proc (m_obj s i) = Some p \<longrightarrow> owns s i p)
     \<and> (\<forall>p. r_emit (m_obj s i) = Some p \<longrightarrow> owns s i p)
     \<and> (r_proc (m_obj s i) = None \<longrightarrow> r_emit (m_obj s i) = None)
     \<and> (i \<in> set (m_order s) \<longrightarrow> r_id (m_obj s i) = i)"

text \<open>\<open>G\<close> is a set of processes that their runners have given up.\<close>

definition gone :: "mgr \<Rightarrow> pid \<Rightarrow> bool" where
  "gone s p \<longleftrightarrow> (\<exists>i. owns s i p \<and> r_proc (m_obj s i) \<noteq> Some p)"

definition mgr_inv :: "pid set \<Rightarrow> mgr \<Rightarrow> bool" where
  "mgr_inv G s \<longleftrightarrow> distinct (m_order s) \<and> (\<forall>i. runner_ok s i) \<and> (\<forall>t \<in> set (m_tasks s). task_ok s t)
     \<and> (\<forall>p \<in> G. gone s p)"

lemma task_ok_mono:
  "task_ok s t \<Longrightarrow> (\<And>i p. owns s i p \<Longrightarrow> owns s' i p) \<Longrightarrow> task_ok s' t"
  by (induction s t rule: task_ok.induct) auto

lemma mgr_invI_frame:
  assumes "mgr_inv G s" and "m_order s' = m_order s" and "\<And>i p. owns s' i p = owns s i p"
    and "\<And>i. r_proc (m_obj s' i) = r_proc (m_obj s i)" and "\<And>i. r_emit (m_obj s' i) = r_emit (m_obj s i)"
    and "\<And>i. r_id (m_obj s' i) = r_id (m_obj s i)" and "set (m_tasks s') \<subseteq> set (m_tasks s)"
  shows "mgr_inv G s'"
proof -
  have "runner_ok s' i" for i
    using assms(1) by (auto simp: mgr_inv_def runner_ok_def assms(2-6))
  moreover have "task_ok s' t" if "t \<in> set (m_tasks s')" for t
    using assms(1,7) that task_ok_mono [of s t s'] by (auto simp: mgr_inv_def assms(3))
  moreover have "gone s' p" if g: "p \<in> G" for p
    using g assms(1) by (auto simp: mgr_inv_def gone_def assms(3,4))
  ultimately show ?thesis using assms(1,2) by (simp add: mgr_inv_def)
qed

lemma inv_emitE [inv_rules, intro]: "mgr_inv G s \<Longrightarrow> mgr_inv G (emitE e s)"
  by (erule mgr_invI_frame) (simp_all add: emitE_def owns_def)

lemma inv_upd [inv_rules]:
  assumes "mgr_inv G s" and "r_proc (f (m_obj s i)) = r_proc (m_obj s i)"
    and "r_emit (f (m_obj s i)) = r_emit (m_obj s i)" and "r_id (f (m_obj s i)) = r_id (m_obj s i)"
  shows "mgr_inv G (upd i f s)"
  using assms by (auto elim!: mgr_invI_frame simp: upd_def owns_def)

text \<open>An update that drops the process and its emitter.\<close>

lemma inv_upd_drop:
  assumes "mgr_inv G s" and "r_proc (f (m_obj s i)) = None" and "r_emit (f (m_obj s i)) = None"
    and "r_id (f (m_obj s i)) = r_id (m_obj s i)"
  shows "mgr_inv G (upd i f s)"
proof -
  have o: "owns (upd i f s) j p = owns s j p" for j p by (simp add: upd_def owns_def)
  have "runner_ok (upd i f s) j" for j
    using assms by (cases "j = i") (auto simp: mgr_inv_def runner_ok_def o, auto simp: upd_def)
  moreover have "task_ok (upd i f s) t" if "t \<in> set (m_tasks s)" for t
    using assms(1) that task_ok_mono [of s t "upd i f s"] by (auto simp: mgr_inv_def o)
  moreover have "gone (upd i f s) p" if g: "p \<in> G" for p
  proof -
    obtain j where "owns s j p" "r_proc (m_obj s j) \<noteq> Some p" using g assms(1) by (auto simp: mgr_inv_def gone_def)
    then show ?thesis unfolding gone_def o by (intro exI [of _ j]) (simp add: upd_def assms(2))
  qed
  ultimately show ?thesis using assms(1) by (simp add: mgr_inv_def) (simp add: upd_def)
qed

lemma inv_upd_either:
  assumes "mgr_inv G s" and "\<And>r. r_id (f r) = r_id r"
    and "\<And>r. (r_proc (f r) = r_proc r \<and> r_emit (f r) = r_emit r) \<or> (r_proc (f r) = None \<and> r_emit (f r) = None)"
  shows "mgr_inv G (upd i f s)"
  using assms(3) [of "m_obj s i"] by (auto intro: inv_upd_drop inv_upd assms(1,2))

lemma inv_spawn_task [inv_rules]: "mgr_inv G s \<Longrightarrow> task_ok s t \<Longrightarrow> mgr_inv G (spawn_task t s)"
proof -
  assume "mgr_inv G s" "task_ok s t"
  moreover have "runner_ok (spawn_task t s) i = runner_ok s i" for i
    by (simp add: runner_ok_def owns_def spawn_task_def)
  moreover have "task_ok (spawn_task t s) u" if "task_ok s u" for u
    using that by (rule task_ok_mono) (simp add: owns_def spawn_task_def)
  moreover have "gone (spawn_task t s) p = gone s p" for p
    by (simp add: gone_def owns_def spawn_task_def)
  ultimately show ?thesis by (simp add: mgr_inv_def) (auto simp: spawn_task_def)
qed

lemma inv_arm [inv_rules, intro]: "mgr_inv G s \<Longrightarrow> mgr_inv G (snd (arm t s))"
  by (erule mgr_invI_frame) (simp_all add: arm_def owns_def)

lemma inv_disarm [inv_rules, intro]: "mgr_inv G s \<Longrightarrow> mgr_inv G (disarm t s)"
  by (erule mgr_invI_frame) (simp_all add: disarm_def owns_def split: option.splits)

lemma inv_srvId [inv_rules, intro]: "mgr_inv G s \<Longrightarrow> mgr_inv G (snd (srvId s))"
  by (erule mgr_invI_frame) (simp_all add: srvId_def owns_def)

lemma inv_runnersChanged [inv_rules, intro]: "mgr_inv G s \<Longrightarrow> mgr_inv G (runnersChanged c s)"
  by (auto simp: runnersChanged_def split: option.splits)

lemma inv_runnerEvent [inv_rules, intro]: "mgr_inv G s \<Longrightarrow> mgr_inv G (runnerEvent i e s)"
  by (auto simp: runnerEvent_def)

lemma inv_setRunnerAttention [inv_rules, intro]: "mgr_inv G s \<Longrightarrow> mgr_inv G (snd (setRunnerAttention i a u s))"
  by (auto simp: setRunnerAttention_def intro!: inv_emitE inv_runnersChanged inv_upd)

lemma inv_acknowledge [inv_rules, intro]: "mgr_inv G s \<Longrightarrow> mgr_inv G (snd (acknowledgeRunnerAttention i s))"
  by (auto simp: acknowledgeRunnerAttention_def)

lemma inv_driver_send [inv_rules, intro]: "mgr_inv G s \<Longrightarrow> mgr_inv G (snd (driver_send env i p c s))"
  by (auto simp: driver_send_def)

lemma inv_flush_queue [inv_rules, intro]: "mgr_inv G s \<Longrightarrow> mgr_inv G (flush_queue env i cs s)"
  by (induction env i cs s rule: flush_queue.induct) (simp_all add: inv_driver_send split: option.splits)

lemma inv_send_commands [inv_rules, intro]: "mgr_inv G s \<Longrightarrow> mgr_inv G (send_commands env i p cs s)"
  by (induction env i p cs s rule: send_commands.induct) auto

lemma inv_finishResume [inv_rules, intro]: "mgr_inv G s \<Longrightarrow> mgr_inv G (finishResume env i s)"
  by (auto simp: finishResume_def Let_def intro!: inv_flush_queue inv_upd inv_disarm)

lemma inv_unarchive [inv_rules, intro]: "mgr_inv G s \<Longrightarrow> mgr_inv G (unarchivePromptedSession env i s)"
  by (auto simp: unarchivePromptedSession_def split: option.splits)

lemma inv_send_rest [inv_rules, intro]: "mgr_inv G s \<Longrightarrow> mgr_inv G (snd (send_rest env i obj s))"
proof -
  assume inv: "mgr_inv G s"
  define q where "q p = (if truthy (r_resumeId (m_obj s i))
      then (True, upd i (\<lambda>r. r\<lparr>r_resumeQueue := r_resumeQueue r @ [obj]\<rparr>) s) else driver_send env i p obj s)" for p
  have "mgr_inv G (snd (q p))" for p
    using inv by (auto simp: q_def intro!: inv_upd)
  then show ?thesis
    using inv unfolding send_rest_def q_def [symmetric]
    by (auto split: option.splits prod.splits intro!: inv_unarchive inv_setRunnerAttention inv_upd)
       (metis snd_conv)+
qed

lemma inv_finish_ui [inv_rules, intro]: "mgr_inv G s \<Longrightarrow> mgr_inv G (finish_ui i u result s)"
proof -
  assume inv: "mgr_inv G s"
  have "mgr_inv G (s\<lparr>m_timers := ts\<rparr>)" for ts
    using inv by (rule mgr_invI_frame) (simp_all add: owns_def)
  then show ?thesis
    using inv by (auto simp: finish_ui_def Let_def intro!: inv_emitE inv_setRunnerAttention inv_upd)
qed

lemma inv_deferRunnerStart [inv_rules, intro]: "mgr_inv G s \<Longrightarrow> mgr_inv G (deferRunnerStart i s)"
  using inv_arm [of G s "StartTimer i"]
  by (auto simp: deferRunnerStart_def split: prod.splits intro!: inv_upd)

lemma inv_after_start [inv_rules, intro]: "mgr_inv G s \<Longrightarrow> mgr_inv G (after_start i k s)"
  by (cases k) (auto intro: inv_spawn_task)

lemma inv_startRunner [inv_rules, intro]: "mgr_inv G s \<Longrightarrow> mgr_inv G (startRunner i k s)"
  by (auto simp: startRunner_def Let_def intro!: inv_after_start inv_spawn_task inv_emitE inv_upd)

lemma inv_stopRunner [inv_rules, intro]: "mgr_inv G s \<Longrightarrow> mgr_inv G (stopRunner i s)"
proof -
  assume inv: "mgr_inv G s"
  then have "task_ok (emitE e s) (StopRest i (r_proc (m_obj s i)))" for e
    by (cases "r_proc (m_obj s i)") (auto simp: mgr_inv_def runner_ok_def owns_def emitE_def)
  with inv show ?thesis by (auto simp: stopRunner_def intro: inv_spawn_task)
qed

lemma inv_sendToRunner [inv_rules, intro]: "mgr_inv G s \<Longrightarrow> mgr_inv G (snd (sendToRunner env i obj b s))"
  using inv_send_rest [of G s env i obj] by (auto simp: sendToRunner_def split: prod.splits)

lemma inv_requestState [inv_rules, intro]: "mgr_inv G s \<Longrightarrow> mgr_inv G (requestState env i s)"
  using inv_srvId [of G s] by (auto simp: requestState_def split: prod.splits)

lemma inv_requestHealth [inv_rules, intro]: "mgr_inv G s \<Longrightarrow> mgr_inv G (requestHealth env i s)"
  using inv_srvId [of G s] by (auto simp: requestHealth_def Let_def split: prod.splits)

lemma inv_fire_start_timer [inv_rules, intro]: "mgr_inv G s \<Longrightarrow> mgr_inv G (fire_start_timer t i s)"
  by (auto simp: fire_start_timer_def Let_def intro!: inv_startRunner inv_upd)

text \<open>A launch hands the runner a process no other runner has seen.\<close>

lemma inv_start_launch [inv_rules, intro]:
  assumes "mgr_inv G s" shows "mgr_inv G (start_launch outcome i k s)"
proof -
  define s0 where "s0 = upd i (\<lambda>r. r\<lparr>r_initialArgs := []\<rparr>) s"
  have inv: "mgr_inv G s0" using assms by (auto simp: s0_def intro!: inv_upd)
  define s1 where "s1 = upd i (\<lambda>r. r\<lparr>r_proc := Some (m_nextPid s0)\<rparr>)
    (s0\<lparr>m_nextPid := Suc (m_nextPid s0),
        m_procs := (m_procs s0)(m_nextPid s0 := \<lparr>p_owner = i, p_launchFailed = False, p_reader = False,
                                                   p_listener = ExitOfStart, p_exited = False\<rparr>)\<rparr>)"
  have mono: "owns s1 j p" if "owns s0 j p" for j p
    using that by (auto simp: s1_def owns_def upd_def)
  have new: "owns s1 i (m_nextPid s0)" by (simp add: s1_def owns_def upd_def)
  have "runner_ok s1 j" for j
    using inv mono new unfolding mgr_inv_def runner_ok_def
    by (cases "j = i") (auto simp: s1_def upd_def)
  moreover have "task_ok s1 t" if "t \<in> set (m_tasks s1)" for t
    using that inv by (intro task_ok_mono [of s0 t s1] mono) (auto simp: mgr_inv_def s1_def upd_def)
  moreover have "gone s1 p" if g: "p \<in> G" for p
  proof -
    obtain j where "owns s0 j p" "r_proc (m_obj s0 j) \<noteq> Some p" using g inv by (auto simp: mgr_inv_def gone_def)
    then show ?thesis using mono [of j p] unfolding gone_def
      by (intro exI [of _ j]) (auto simp: s1_def upd_def owns_def)
  qed
  ultimately have "mgr_inv G s1"
    using inv by (simp add: mgr_inv_def) (simp add: s1_def upd_def)
  moreover have "owns (emitE e s1) i (m_nextPid s0)" for e
    using new by (simp add: owns_def emitE_def)
  ultimately show ?thesis
    using inv by (auto simp: start_launch_def Let_def s0_def [symmetric] s1_def [symmetric]
        split: sum.splits intro!: inv_spawn_task inv_emitE)
qed

lemma inv_start_failed [inv_rules, intro]: "mgr_inv G s \<Longrightarrow> mgr_inv G (start_failed i err k s)"
  by (auto simp: start_failed_def intro!: inv_after_start)

text \<open>Updates of process records keep the invariant as long as the owner stays.\<close>

lemma inv_proc_update [inv_rules]:
  "mgr_inv G s \<Longrightarrow> p_owner (f (m_procs s p)) = p_owner (m_procs s p)
   \<Longrightarrow> mgr_inv G (s\<lparr>m_procs := (m_procs s)(p := f (m_procs s p))\<rparr>)"
  by (erule mgr_invI_frame) (auto simp: owns_def)

lemma inv_start_ready [inv_rules, intro]:
  assumes inv: "mgr_inv G s" and own: "owns s i p"
  shows "mgr_inv G (start_ready env i p k s)"
proof (cases "p_launchFailed (m_procs s p) \<or> r_proc (m_obj s i) \<noteq> Some p")
  case True
  then show ?thesis using inv by (auto simp: start_ready_def)
next
  case False
  define sp where "sp = s\<lparr>m_procs := (m_procs s)(p := (m_procs s p)\<lparr>p_reader := True\<rparr>)\<rparr>"
  define f where "f r = r\<lparr>r_watchdogOk := True, r_lastLineAt := m_now s, r_probeSentAt := None,
      r_probeMisses := 0, r_emit := Some p, r_reader := Some p\<rparr>" for r :: runner
  have sp: "mgr_inv G sp" using inv by (auto simp: sp_def intro!: inv_proc_update)
  have o: "owns (upd i f sp) j q = owns s j q" for j q by (simp add: owns_def upd_def sp_def)
  have "runner_ok (upd i f sp) j" for j
    using inv own False unfolding mgr_inv_def runner_ok_def o
    by (cases "j = i") (auto simp: upd_def f_def sp_def)
  moreover have "task_ok (upd i f sp) t" if "t \<in> set (m_tasks (upd i f sp))" for t
    using that inv by (intro task_ok_mono [of s t "upd i f sp"]) (simp_all add: mgr_inv_def o, simp add: upd_def sp_def)
  moreover have "gone (upd i f sp) q" if g: "q \<in> G" for q
  proof -
    obtain j where "owns s j q" "r_proc (m_obj s j) \<noteq> Some q" using g inv by (auto simp: mgr_inv_def gone_def)
    then show ?thesis unfolding gone_def o by (intro exI [of _ j]) (auto simp: upd_def f_def sp_def)
  qed
  ultimately have s1: "mgr_inv G (upd i f sp)"
    using sp by (simp add: mgr_inv_def) (simp add: upd_def)
  obtain request s2 where r: "srvId (upd i f sp) = (request, s2)" by fastforce
  then have s2: "mgr_inv G s2" using inv_srvId [OF s1] by simp
  obtain commands resume where c: "d_startup (driverFor env (m_obj s2 i)) (m_obj s2 i) request = (commands, resume)"
    by fastforce
  define s3 where "s3 = send_commands env i p commands (upd i (\<lambda>r. r\<lparr>r_resumeId := resume\<rparr>) s2)"
  have s3: "mgr_inv G s3" using s2 by (auto simp: s3_def intro!: inv_send_commands inv_upd)
  obtain t s' where a: "arm (ResumeTimer i) (disarm (r_resumeTimer (m_obj s3 i)) s3) = (t, s')" by fastforce
  then have "mgr_inv G s'" using inv_arm [OF inv_disarm [OF s3], of "ResumeTimer i" "r_resumeTimer (m_obj s3 i)"] by simp
  then have "mgr_inv G (upd i (\<lambda>r. r\<lparr>r_resumeTimer := Some t\<rparr>) s')" by (auto intro!: inv_upd)
  with s3 show ?thesis
    using False by (auto simp: start_ready_def Let_def sp_def [symmetric] f_def [symmetric] r c s3_def [symmetric] a
        intro!: inv_after_start inv_runnerEvent inv_runnersChanged)
qed

lemma inv_proc_error [inv_rules, intro]: "mgr_inv G s \<Longrightarrow> mgr_inv G (proc_error p err s)"
proof -
  assume inv: "mgr_inv G s"
  have "mgr_inv G (s\<lparr>m_procs := (m_procs s)(p := (m_procs s p)\<lparr>p_launchFailed := True\<rparr>)\<rparr>)"
    using inv by (auto intro!: inv_proc_update)
  then show ?thesis
    by (auto simp: proc_error_def Let_def intro!: inv_runnersChanged inv_emitE inv_upd_either inv_runnerEvent split: if_splits)
qed

lemma inv_proc_exit [inv_rules, intro]: "mgr_inv G s \<Longrightarrow> mgr_inv G (proc_exit p code sig s)"
proof -
  assume inv: "mgr_inv G s"
  have "mgr_inv G (s\<lparr>m_procs := (m_procs s)(p := (m_procs s p)\<lparr>p_exited := True\<rparr>)\<rparr>)"
    using inv by (auto intro!: inv_proc_update)
  then show ?thesis
    by (auto simp: proc_exit_def Let_def split: exit_listener.splits if_splits
        intro!: inv_spawn_task inv_emitE inv_runnerEvent inv_upd_either)
qed

lemma inv_exit_rest [inv_rules, intro]: "mgr_inv G s \<Longrightarrow> mgr_inv G (exit_rest i code sig s)"
  by (auto simp: exit_rest_def)

lemma inv_kill_title [inv_rules, intro]: "mgr_inv G s \<Longrightarrow> mgr_inv G (kill_title i s)"
  by (auto simp: kill_title_def split: option.splits intro!: inv_upd inv_emitE)

lemma inv_flushTranscript [inv_rules, intro]: "mgr_inv G s \<Longrightarrow> mgr_inv G (flushTranscript env i s)"
  by (auto simp: flushTranscript_def)

lemma inv_fire_kill_timer [inv_rules, intro]: "mgr_inv G s \<Longrightarrow> mgr_inv G (fire_kill_timer p s)"
  by (auto simp: fire_kill_timer_def)

lemma inv_stop_rest [inv_rules, intro]:
  assumes inv: "mgr_inv G s" shows "mgr_inv G (stop_rest env i captured s)"
proof -
  define s0 where "s0 = kill_title i s"
  define s1 where "s1 = upd i (\<lambda>r. r\<lparr>r_startTimer := None\<rparr>) (disarm (r_startTimer (m_obj s0 i)) s0)"
  have s1: "mgr_inv G s1" using inv by (auto simp: s1_def s0_def intro!: inv_upd)
  define s2 where "s2 = upd i (\<lambda>r. r\<lparr>r_proc := None, r_emit := None, r_busy := False, r_resumeTimer := None,
      r_resumeId := None, r_resumeQueue := []\<rparr>) (disarm (r_resumeTimer (m_obj s1 i)) s1)"
  have s2: "mgr_inv G s2" using s1 by (auto simp: s2_def intro!: inv_upd_drop)
  have "mgr_inv G (s2\<lparr>m_procs := (m_procs s2)(p := (m_procs s2 p)\<lparr>p_listener := l\<rparr>)\<rparr>)" for p l
    using s2 by (auto intro!: inv_proc_update)
  then have "mgr_inv G (snd (arm (KillTimer p) (emitE e (s2\<lparr>m_procs := (m_procs s2)(p := (m_procs s2 p)\<lparr>p_listener := l\<rparr>)\<rparr>))))" for p l e
    by auto
  with s1 show ?thesis
    by (auto simp: stop_rest_def Let_def s0_def [symmetric] s1_def [symmetric] s2_def [symmetric] split_beta
        split: option.splits intro!: inv_flushTranscript inv_runnersChanged)
qed

lemma inv_handleUi [inv_rules, intro]: "mgr_inv G s \<Longrightarrow> mgr_inv G (handleExtensionUiRequest i msg s)"
  by (auto simp: handleExtensionUiRequest_def Let_def intro!: inv_setRunnerAttention inv_upd)

lemma inv_resetTitle [inv_rules, intro]: "mgr_inv G s \<Longrightarrow> mgr_inv G (resetRunnerTitleState i s)"
  by (auto simp: resetRunnerTitleState_def intro!: inv_upd)

lemma inv_state_rest [inv_rules, intro]: "mgr_inv G s \<Longrightarrow> mgr_inv G (state_rest i d b s)"
  by (auto simp: state_rest_def Let_def intro!: inv_runnersChanged inv_upd)

lemma inv_persistRunnerState [inv_rules, intro]: "mgr_inv G s \<Longrightarrow> mgr_inv G (persistRunnerState i r b s)"
  by (auto simp: persistRunnerState_def)

lemma inv_apply_state [inv_rules, intro]: "mgr_inv G s \<Longrightarrow> mgr_inv G (apply_state i d r s)"
  by (auto simp: apply_state_def Let_def split: option.splits
      intro!: inv_spawn_task inv_emitE inv_state_rest inv_resetTitle inv_upd)

lemma inv_handleGetState [inv_rules, intro]: "mgr_inv G s \<Longrightarrow> mgr_inv G (handleGetStateResponse env i d s)"
  by (auto simp: handleGetStateResponse_def split: option.splits sum.splits)

lemma inv_handleResponse [inv_rules, intro]: "mgr_inv G s \<Longrightarrow> mgr_inv G (handleResponseEvent env i msg s)"
  by (simp add: handleResponseEvent_def Let_def inv_rules)

lemma inv_applyLifecycle [inv_rules, intro]: "mgr_inv G s \<Longrightarrow> mgr_inv G (applyRunnerLifecycleEvent env i msg s)"
  by (simp add: applyRunnerLifecycleEvent_def Let_def inv_rules)

lemma inv_trackRunner [inv_rules, intro]: "mgr_inv G s \<Longrightarrow> mgr_inv G (trackRunner env i msg s)"
  by (auto simp: trackRunner_def split: json.splits)

lemma inv_emitDriverEvent [inv_rules, intro]: "mgr_inv G s \<Longrightarrow> mgr_inv G (emitDriverEvent env p e s)"
  by (auto simp: emitDriverEvent_def Let_def)

lemma inv_emit_all [inv_rules, intro]: "mgr_inv G s \<Longrightarrow> mgr_inv G (emit_all env p es s)"
  by (induction env p es s rule: emit_all.induct) auto

lemma inv_proc_line [inv_rules, intro]: "mgr_inv G s \<Longrightarrow> mgr_inv G (proc_line env p l d s)"
  by (auto simp: proc_line_def Let_def split: option.splits intro!: inv_emit_all inv_upd)

lemma inv_watchdog_runner [inv_rules, intro]: "mgr_inv G s \<Longrightarrow> mgr_inv G (watchdog_runner env i s)"
  by (simp add: watchdog_runner_def Let_def inv_rules)

lemma inv_fold: "mgr_inv G s \<Longrightarrow> (\<And>x s. mgr_inv G s \<Longrightarrow> mgr_inv G (f x s)) \<Longrightarrow> mgr_inv G (fold f xs s)"
  by (induction xs arbitrary: s) auto

lemma inv_watchdogTick [inv_rules, intro]: "mgr_inv G s \<Longrightarrow> mgr_inv G (watchdogTick env s)"
  by (auto simp: watchdogTick_def intro!: inv_fold)

lemma inv_reaperTick [inv_rules, intro]: "mgr_inv G s \<Longrightarrow> mgr_inv G (reaperTick s)"
  by (auto simp: reaperTick_def intro!: inv_fold)

lemma inv_stopDrivers [inv_rules, intro]: "mgr_inv G s \<Longrightarrow> mgr_inv G (stopDrivers s)"
  by (auto simp: stopDrivers_def intro!: inv_fold)

lemma inv_set_runner [inv_rules]:
  assumes inv: "mgr_inv G s" and r: "r_id r = i" "r_proc r = None" "r_emit r = None"
  shows "mgr_inv G (set_runner i r s)"
proof -
  have o: "owns (set_runner i r s) j p = owns s j p" for j p by (simp add: owns_def set_runner_def)
  have "runner_ok (set_runner i r s) j" for j
    using inv r unfolding mgr_inv_def runner_ok_def o by (cases "j = i") (simp_all add: set_runner_def)
  moreover have "task_ok (set_runner i r s) t" if "t \<in> set (m_tasks s)" for t
    using that inv by (simp add: mgr_inv_def task_ok_mono [of s t] o)
  moreover have "gone (set_runner i r s) p" if g: "p \<in> G" for p
  proof -
    obtain j where "owns s j p" "r_proc (m_obj s j) \<noteq> Some p" using g inv by (auto simp: mgr_inv_def gone_def)
    then show ?thesis unfolding gone_def o by (intro exI [of _ j]) (simp add: set_runner_def r)
  qed
  moreover have "distinct (m_order (set_runner i r s))" "m_tasks (set_runner i r s) = m_tasks s"
    using inv by (simp_all add: mgr_inv_def set_runner_def distinct_jsset_add)
  ultimately show ?thesis using inv by (simp add: mgr_inv_def)
qed

lemma initialize_fields [simp]:
  "r_id (initializeRunnerRuntime i d h rf f sid n ini a u c args) = i"
  "r_proc (initializeRunnerRuntime i d h rf f sid n ini a u c args) = None"
  "r_emit (initializeRunnerRuntime i d h rf f sid n ini a u c args) = None"
  by (simp_all add: initializeRunnerRuntime_def)

lemma inv_spawn_allocate:
  "mgr_inv G s \<Longrightarrow> spawn_allocate tokens d h r a args k s = Inr s' \<Longrightarrow> mgr_inv G s'"
  by (clarsimp simp: spawn_allocate_def inv_rules split: sum.splits)

lemma inv_spawnRunner:
  "mgr_inv G s \<Longrightarrow> spawnRunner env tokens d h r a args k s = Inr s' \<Longrightarrow> mgr_inv G s'"
  by (clarsimp simp: spawnRunner_def inv_rules split: sum.splits if_splits; blast dest: inv_spawn_allocate)

lemma inv_spawn_rest [inv_rules, intro]: "mgr_inv G s \<Longrightarrow> mgr_inv G (spawn_rest i d h r a args k s)"
  by (simp add: spawn_rest_def Let_def inv_rules)

lemma inv_default_field: "mgr_inv G s \<Longrightarrow> mgr_inv G (s\<lparr>m_default := d\<rparr>)"
  by (erule mgr_invI_frame) (simp_all add: owns_def)

lemma inv_default_rest [inv_rules, intro]: "mgr_inv G s \<Longrightarrow> mgr_inv G (default_rest i s)"
  by (simp add: default_rest_def inv_rules inv_default_field)

lemma inv_defaultRunner:
  "mgr_inv G s \<Longrightarrow> defaultRunner env tokens s = Inr (i, s') \<Longrightarrow> mgr_inv G s'"
  by (auto simp: defaultRunner_def Let_def dest: inv_spawnRunner split: if_splits option.splits list.splits sum.splits)

lemma inv_openSessionRunner:
  "mgr_inv G s \<Longrightarrow> openSessionRunner env saved tokens h r d s = Inr (i, s') \<Longrightarrow> mgr_inv G s'"
  unfolding openSessionRunner_def by (auto dest: inv_spawnRunner split: sum.splits option.splits if_splits)

lemma inv_update_reference:
  "mgr_inv G s \<Longrightarrow> updateRunnerSessionReference env i r s = Inr s' \<Longrightarrow> mgr_inv G s'"
  by (auto simp: updateRunnerSessionReference_def Let_def split: if_splits sum.splits
      intro!: inv_spawn_task inv_upd)

lemma inv_ref_owner [inv_rules, intro]: "mgr_inv G s \<Longrightarrow> mgr_inv G (ref_owner i r s)"
  by (auto simp: ref_owner_def intro!: inv_spawn_task)

lemma inv_requestRunnerUi:
  "mgr_inv G s \<Longrightarrow> requestRunnerUi env i request u aborted s = Inr s' \<Longrightarrow> mgr_inv G s'"
  by (auto simp: requestRunnerUi_def Let_def split: if_splits
      intro!: inv_finish_ui inv_emitE inv_trackRunner inv_upd)

lemma inv_forget [inv_rules, intro]: "mgr_inv G s \<Longrightarrow> mgr_inv G (forget_runner i s)"
proof -
  assume inv: "mgr_inv G s"
  have o: "owns (forget_runner i s) j p = owns s j p" for j p by (simp add: owns_def forget_runner_def)
  have "runner_ok (forget_runner i s) j" for j
    using inv unfolding mgr_inv_def runner_ok_def o by (simp add: forget_runner_def)
  moreover have "task_ok (forget_runner i s) t" if "t \<in> set (m_tasks s)" for t
    using that inv by (simp add: mgr_inv_def task_ok_mono [of s t] o)
  moreover have "gone (forget_runner i s) p = gone s p" for p
    unfolding gone_def o by (simp add: forget_runner_def)
  moreover have "distinct (m_order (forget_runner i s))" "m_tasks (forget_runner i s) = m_tasks s"
    using inv by (simp_all add: mgr_inv_def forget_runner_def distinct_jsset_delete)
  ultimately show ?thesis using inv by (simp add: mgr_inv_def)
qed

lemma inv_resume_task:
  "mgr_inv G s \<Longrightarrow> task_ok s t \<Longrightarrow> mgr_inv G (resume_task env outcome tokens t s)"
  by (cases t) (auto split: sum.splits intro!: inv_spawn_task dest: inv_spawn_allocate)

lemma inv_fire_timer: "mgr_inv G s \<Longrightarrow> mgr_inv G (fire_timer env t tm s)"
  by (cases tm) auto

lemma inv_fields:
  "mgr_inv G s \<Longrightarrow> set ts \<subseteq> set (m_tasks s) \<Longrightarrow> mgr_inv G (s\<lparr>m_tasks := ts\<rparr>)"
  "mgr_inv G s \<Longrightarrow> mgr_inv G (s\<lparr>m_timers := tms\<rparr>)"
  "mgr_inv G s \<Longrightarrow> mgr_inv G (s\<lparr>m_now := n\<rparr>)"
  "mgr_inv G s \<Longrightarrow> mgr_inv G (s\<lparr>m_clients := cs\<rparr>)"
  by (erule mgr_invI_frame; simp add: owns_def)+

theorem mstep_inv: "mstep env s s' \<Longrightarrow> mgr_inv G s \<Longrightarrow> mgr_inv G s'"
proof (induction rule: mstep.induct)
  case (resumed s before t after outcome tokens)
  let ?s = "s\<lparr>m_tasks := before @ after\<rparr>"
  have "task_ok s t" using resumed by (simp add: mgr_inv_def)
  then have "task_ok ?s t" by (rule task_ok_mono) (simp add: owns_def)
  then show ?case using resumed by (intro inv_resume_task inv_fields) auto
next
  case (rejected s before t after)
  then show ?case by (intro inv_fields) auto
next
  case (timer t tm s)
  then show ?case by (intro inv_fire_timer inv_fields)
next
  case (spawn tokens dir harness sessionRef autostart args s s')
  then show ?case by (blast dest: inv_spawnRunner)
next
  case (default_runner tokens s i s')
  then show ?case by (blast dest: inv_defaultRunner)
next
  case (open_session saved tokens harness input dir s i s')
  then show ?case by (blast dest: inv_openSessionRunner)
next
  case (adopt i reference s s')
  then show ?case by (blast dest: inv_update_reference)
next
  case (ui i request u aborted s s')
  then show ?case by (blast dest: inv_requestRunnerUi)
qed (auto intro: inv_fields)

end
