(* ===== verification/Runner_Properties.thy ===== *)
theory Runner_Properties
  imports Runner_Steps
begin

text \<open>
  The properties of the runner manager, and an example manager on which their witnesses are
  evaluated: one harness whose driver accepts every command and starts without a resume.
\<close>

definition ex_driver :: driver where
  "ex_driver = \<lparr>d_label = ''pi'', d_compatible = \<lambda>_. True, d_send = \<lambda>_ _ _. True,
     d_stateCommand = \<lambda>i. JObj [(''id'', JStr i), (''type'', JStr ''get_state'')],
     d_healthCommand = None, d_startup = \<lambda>_ _. ([], None), d_sessionReference = \<lambda>_ _. None\<rparr>"

definition ex_env :: env where
  "ex_env = \<lparr>e_harnesses = [''pi''], e_defaultHarness = ''pi'', e_driver = \<lambda>_. ex_driver,
     e_codec = \<lparr>cd_cwd = ''/w'', cd_agentDir = ''/a'', cd_jsonlRoot = ''/a/s'', cd_sqlitePath = ''/a/db''\<rparr>,
     e_catalogBackend = None, e_flushes = \<lambda>_. False\<rparr>"

section \<open>The invariant in every reachable state\<close>










section \<open>An example run\<close>

text \<open>One runner is spawned, launched and ready: \<open>ex_ready\<close>.\<close>

definition ex_id :: runner_id where "ex_id = ''r-abcdefgh''"

definition ex_spawned :: mgr where
  "ex_spawned = (case spawnRunner ex_env [''abcdefgh''] ''/w'' ''pi'' None True [] NoCont (empty_mgr ''/w'' None 5000) of
     Inr s \<Rightarrow> s | Inl _ \<Rightarrow> empty_mgr ''/w'' None 5000)"

text \<open>Resume the first suspended task; a launch succeeds.\<close>

definition run_first :: "env \<Rightarrow> mgr \<Rightarrow> mgr" where
  "run_first env s = (case m_tasks s of [] \<Rightarrow> s
     | t # ts \<Rightarrow> resume_task env (Inr ()) [] t (s\<lparr>m_tasks := ts\<rparr>))"

definition ex_starting :: mgr where "ex_starting = run_first ex_env ex_spawned"
definition ex_launched :: mgr where "ex_launched = run_first ex_env ex_starting"
definition ex_ready :: mgr where "ex_ready = run_first ex_env ex_launched"





definition ex_runner :: runner where
  "ex_runner = (initializeRunnerRuntime ex_id ''/w'' ''pi'' None None None None None None False 1 [])
     \<lparr>r_proc := Some 0, r_emit := Some 0, r_reader := Some 0, r_lastSpawnAt := 5000, r_lastLineAt := 5000,
      r_watchdogOk := True\<rparr>"

lemma ex_ready_value:
  "(\<lambda>s. (m_obj s ex_id, m_procs s 0, m_order s, m_tasks s, m_nextPid s, m_now s)) ex_ready =
     (ex_runner, \<lparr>p_owner = ex_id, p_launchFailed = False, p_reader = True, p_listener = ExitOfStart, p_exited = False\<rparr>,
      [ex_id], [], 1, 5000)"
  by code_simp

lemma ex_ready_state:
  "m_obj ex_ready ex_id = ex_runner"
  "m_procs ex_ready 0 = \<lparr>p_owner = ex_id, p_launchFailed = False, p_reader = True, p_listener = ExitOfStart, p_exited = False\<rparr>"
  "m_order ex_ready = [ex_id]" "m_tasks ex_ready = []" "m_nextPid ex_ready = 1" "m_now ex_ready = 5000"
  using ex_ready_value by simp_all

lemma ex_runner_simps [simp]:
  "r_proc ex_runner = Some 0" "r_emit ex_runner = Some 0" "r_lastSpawnAt ex_runner = 5000" "r_startCount ex_runner = 1"
  "r_resumeId ex_runner = None" "r_resumeQueue ex_runner = []" "r_brokered ex_runner = []" "r_harness ex_runner = ''pi''"
  "r_attention ex_runner = None" "r_unread ex_runner = False" "r_sessionName ex_runner = None" "r_busy ex_runner = False"
  by (simp_all add: ex_runner_def initializeRunnerRuntime_def)

section \<open>Processes and their runners\<close>




definition ex_exited :: mgr where "ex_exited = proc_exit 0 JNull (JStr ''SIGKILL'') ex_ready"


section \<open>Starting and restarting\<close>

definition launches :: "runner_id \<Rightarrow> mgr \<Rightarrow> nat" where
  "launches i s = length (filter (\<lambda>t. case t of StartLaunch j _ \<Rightarrow> j = i | _ \<Rightarrow> False) (m_tasks s))"

lemma launches_simps [simp]:
  "launches i (upd j f s) = launches i s"
  "launches i (emitE e s) = launches i s"
  "launches i (spawn_task t s) = launches i s + (case t of StartLaunch j _ \<Rightarrow> if j = i then 1 else 0 | _ \<Rightarrow> 0)"
  "launches i (snd (arm tm s)) = launches i s"
  "launches i (after_start j k s) = launches i s"
  by (cases k; auto simp: launches_def upd_def emitE_def spawn_task_def arm_def split: task.splits)+

lemma launches_deferred [simp]: "launches i (deferRunnerStart j s) = launches i s"
  by (simp add: deferRunnerStart_def split_beta)

text \<open>
  Starting a runner twice within the two second debounce launches at most one process, whatever
  the database does with the first start meanwhile.
\<close>

theorem start_debounced:
  assumes "t < m_now s + respawn_debounce_ms"
  shows "launches i (startRunner i k' ((startRunner i k s)\<lparr>m_now := t\<rparr>)) \<le> launches i s + 1"
proof -
  have now: "launches i (s\<lparr>m_now := t\<rparr>) = launches i s" for s by (simp add: launches_def)
  have keep: "launches i (startRunner i k' s') \<le> launches i s' + 1" for s' 
    by (simp add: startRunner_def Let_def)
  show ?thesis
  proof (cases "launches i (startRunner i k s) = launches i s")
    case True
    then show ?thesis using keep [of "(startRunner i k s)\<lparr>m_now := t\<rparr>"] by (simp add: now)
  next
    case False
    then have c: "r_proc (m_obj s i) = None"
        "\<not> (m_now s - r_lastSpawnAt (m_obj s i) < respawn_debounce_ms \<and> r_startCount (m_obj s i) > 0)"
      by (auto simp: startRunner_def split: if_splits)
    have "r_lastSpawnAt (m_obj (startRunner i k s) i) = m_now s" "r_startCount (m_obj (startRunner i k s) i) > 0"
        "r_proc (m_obj (startRunner i k s) i) = None" "launches i (startRunner i k s) = launches i s + 1"
      unfolding startRunner_def if_not_P [OF c(2)] using c(1) by (simp_all add: Let_def) (simp_all add: upd_def emitE_def spawn_task_def)
    then show ?thesis
      using assms by (simp add: startRunner_def [of i k'] now)
  qed
qed

theorem start_debounced_witness:
  "launches ex_id (startRunner ex_id NoCont ((startRunner ex_id NoCont ex_exited)\<lparr>m_now := 6000\<rparr>)) \<le> launches ex_id ex_exited + 1"
  by (rule start_debounced)
     (simp add: ex_exited_def proc_exit_def Let_def ex_ready_state upd_def emitE_def spawn_task_def respawn_debounce_ms_def)

text \<open>What a resumed stop leaves: no process, no start timer, the same suspended calls.\<close>

lemma frame_simps:
  "m_tasks (upd j f s) = m_tasks s" "m_tasks (emitE e s) = m_tasks s" "m_tasks (runnersChanged c s) = m_tasks s"
  "m_tasks (disarm tm s) = m_tasks s" "m_tasks (kill_title j s) = m_tasks s" "m_tasks (flushTranscript env j s) = m_tasks s"
  "m_obj (emitE e s) = m_obj s" "m_obj (runnersChanged c s) = m_obj s" "m_obj (disarm tm s) = m_obj s"
  "m_obj (flushTranscript env j s) = m_obj s" "m_obj (upd j f s) = (m_obj s)(j := f (m_obj s j))"
  by (simp_all add: upd_def emitE_def runnersChanged_def disarm_def kill_title_def flushTranscript_def split: option.splits)





section \<open>The orphan reaper\<close>

lemma stopRunner_frame:
  "m_obj (stopRunner i s) = m_obj s" "m_order (stopRunner i s) = m_order s" "m_now (stopRunner i s) = m_now s"
  "m_tasks (stopRunner i s) = m_tasks s @ [StopRest i (r_proc (m_obj s i))]"
  by (simp_all add: stopRunner_def emitE_def spawn_task_def)

lemma reaper_fold:
  "(let s' = fold (\<lambda>i s. if reapable s i then stopRunner i s else s) is s
    in m_obj s' = m_obj s \<and> m_now s' = m_now s
       \<and> m_tasks s' = m_tasks s @ map (\<lambda>i. StopRest i (r_proc (m_obj s i))) (filter (reapable s) is))"
proof (induction "is" arbitrary: s)
  case (Cons i "is")
  have "reapable (stopRunner i s) = reapable s" by (simp add: fun_eq_iff reapable_def stopRunner_frame)
  then show ?case
    using Cons [of "stopRunner i s"] Cons [of s] by (simp add: Let_def stopRunner_frame)
qed (simp add: Let_def)

text \<open>
  A reaper tick stops exactly the registered runners that have a process, no session name, no
  work in progress and whose last launch is more than an hour old, each once, and changes no runner.
\<close>

theorem reaper_stops_exactly_orphans:
  "m_tasks (reaperTick s) = m_tasks s @ map (\<lambda>i. StopRest i (r_proc (m_obj s i)))
     (filter (\<lambda>i. r_proc (m_obj s i) \<noteq> None \<and> \<not> truthy (r_sessionName (m_obj s i)) \<and> \<not> r_busy (m_obj s i)
        \<and> m_now s - r_lastSpawnAt (m_obj s i) > 3600000) (m_order s))
   \<and> m_obj (reaperTick s) = m_obj s"
proof -
  have r: "filter (reapable s) xs = filter (\<lambda>i. r_proc (m_obj s i) \<noteq> None \<and> \<not> truthy (r_sessionName (m_obj s i))
      \<and> \<not> r_busy (m_obj s i) \<and> m_now s - r_lastSpawnAt (m_obj s i) > 3600000) xs" for xs
    by (rule filter_cong) (simp_all add: reapable_def max_orphan_age_ms_def)
  show ?thesis
    using reaper_fold [of "m_order s" s] unfolding reaperTick_def Let_def r by simp
qed

section \<open>Commands held back during a session resume\<close>

fun sends_of :: "runner_id \<Rightarrow> eff list \<Rightarrow> (pid \<times> json) list" where
  "sends_of i [] = []"
| "sends_of i (DriverSend j p c # es) = (if j = i then (p, c) # sends_of i es else sends_of i es)"
| "sends_of i (_ # es) = sends_of i es"

lemma sends_of_append [simp]: "sends_of i (xs @ ys) = sends_of i xs @ sends_of i ys"
  by (induction i xs rule: sends_of.induct) auto

definition sent :: "runner_id \<Rightarrow> mgr \<Rightarrow> (pid \<times> json) list" where
  "sent i s = sends_of i (m_log s)"

lemma sent_simps [simp]:
  "sent i (upd j f s) = sent i s"
  "sent i (emitE e s) = sent i s @ (case e of DriverSend j p c \<Rightarrow> if j = i then [(p, c)] else [] | _ \<Rightarrow> [])"
  "sent i (disarm tm s) = sent i s"
  "sent i (runnersChanged c s) = sent i s"
  "sent i (snd (setRunnerAttention j a u s)) = sent i s"
  "sent i (unarchivePromptedSession env j s) = sent i s"
  by (auto simp: sent_def upd_def emitE_def disarm_def runnersChanged_def setRunnerAttention_def
      unarchivePromptedSession_def split: eff.splits option.splits)

lemma flush_queue_sent:
  assumes "r_proc (m_obj s i) = Some p" and "\<And>r c. c \<in> set cs \<Longrightarrow> d_send (driverFor env (m_obj s i)) r p c"
  shows "sent i (flush_queue env i cs s) = sent i s @ map (Pair p) cs"
  using assms
proof (induction cs arbitrary: s)
  case (Cons c cs)
  have "driver_send env i p c s = (True, emitE (DriverSend i p c) s)"
    using Cons.prems by (simp add: driver_send_def)
  with Cons show ?case by (simp add: frame_simps)
qed simp

definition send_all :: "env \<Rightarrow> runner_id \<Rightarrow> json list \<Rightarrow> mgr \<Rightarrow> mgr" where
  "send_all env i objs s = fold (\<lambda>obj s. snd (sendToRunner env i obj True s)) objs s"

lemma setRunnerAttention_obj:
  "r_proc (m_obj (snd (setRunnerAttention j a u s)) i) = r_proc (m_obj s i)"
  "r_resumeId (m_obj (snd (setRunnerAttention j a u s)) i) = r_resumeId (m_obj s i)"
  "r_resumeQueue (m_obj (snd (setRunnerAttention j a u s)) i) = r_resumeQueue (m_obj s i)"
  "r_harness (m_obj (snd (setRunnerAttention j a u s)) i) = r_harness (m_obj s i)"
  by (simp_all add: setRunnerAttention_def frame_simps)

lemma send_during_resume:
  assumes "r_proc (m_obj s i) = Some p" and "truthy (r_resumeId (m_obj s i))" and "\<not> has_type obj ''extension_ui_response''"
  shows "\<exists>s'. sendToRunner env i obj b s = (Some True, s') \<and> sent i s' = sent i s \<and> r_proc (m_obj s' i) = Some p
    \<and> r_resumeId (m_obj s' i) = r_resumeId (m_obj s i) \<and> r_harness (m_obj s' i) = r_harness (m_obj s i)
    \<and> r_resumeQueue (m_obj s' i) = r_resumeQueue (m_obj s i) @ [obj]"
  using assms
  by (simp add: sendToRunner_def send_rest_def setRunnerAttention_obj frame_simps unarchivePromptedSession_def
      split: option.splits)

lemma send_all_during_resume:
  assumes "r_proc (m_obj s i) = Some p" and "truthy (r_resumeId (m_obj s i))"
    and "\<forall>obj \<in> set objs. \<not> has_type obj ''extension_ui_response''"
  shows "sent i (send_all env i objs s) = sent i s \<and> r_proc (m_obj (send_all env i objs s) i) = Some p
    \<and> r_resumeId (m_obj (send_all env i objs s) i) = r_resumeId (m_obj s i)
    \<and> r_harness (m_obj (send_all env i objs s) i) = r_harness (m_obj s i)
    \<and> r_resumeQueue (m_obj (send_all env i objs s) i) = r_resumeQueue (m_obj s i) @ objs"
  using assms
proof (induction objs arbitrary: s)
  case (Cons obj objs)
  obtain s' where "sendToRunner env i obj True s = (Some True, s')" "sent i s' = sent i s"
    "r_proc (m_obj s' i) = Some p" "r_resumeId (m_obj s' i) = r_resumeId (m_obj s i)"
    "r_harness (m_obj s' i) = r_harness (m_obj s i)"
    "r_resumeQueue (m_obj s' i) = r_resumeQueue (m_obj s i) @ [obj]"
    using send_during_resume [of s i p obj env True] Cons.prems by auto
  with Cons.IH [of s'] Cons.prems show ?case by (simp add: send_all_def)
qed (simp add: send_all_def)

text \<open>
  C10: while a session resume is in flight, commands reach no process; when the resume finishes, the
  process receives what was queued before and then every accepted command, each once and in order.
\<close>

theorem resume_queue_fifo:
  assumes "r_proc (m_obj s i) = Some p" and "truthy (r_resumeId (m_obj s i))"
    and "\<forall>obj \<in> set objs. \<not> has_type obj ''extension_ui_response''"
    and "\<And>r c. d_send (driverFor env (m_obj s i)) r p c"
  shows "sent i (send_all env i objs s) = sent i s
    \<and> sent i (finishResume env i (send_all env i objs s)) = sent i s @ map (Pair p) (r_resumeQueue (m_obj s i) @ objs)
    \<and> r_resumeQueue (m_obj (finishResume env i (send_all env i objs s)) i) = []"
proof -
  define s1 where "s1 = send_all env i objs s"
  define s2 where "s2 = upd i (\<lambda>r. r\<lparr>r_resumeId := None, r_resumeTimer := None, r_resumeQueue := []\<rparr>)
      (disarm (r_resumeTimer (m_obj s1 i)) s1)"
  note s1 = send_all_during_resume [OF assms(1-3), of env, folded s1_def]
  have f: "finishResume env i s1 = flush_queue env i (r_resumeQueue (m_obj s1 i)) s2"
    using s1 assms(2) by (simp add: finishResume_def s2_def Let_def)
  have q: "r_resumeQueue (m_obj (flush_queue env i cs s') i) = r_resumeQueue (m_obj s' i)" for cs s'
    by (induction cs arbitrary: s') (auto simp: driver_send_def frame_simps split: option.splits)
  have "sent i (flush_queue env i (r_resumeQueue (m_obj s1 i)) s2) = sent i s2 @ map (Pair p) (r_resumeQueue (m_obj s1 i))"
    using s1 assms(4) by (intro flush_queue_sent) (simp_all add: s2_def frame_simps)
  then show ?thesis
    using s1 unfolding s1_def [symmetric] f q by (simp add: s2_def frame_simps)
qed

theorem resume_queue_fifo_witness:
  "\<exists>s p objs. objs \<noteq> [] \<and> truthy (r_resumeId (m_obj s ex_id))
     \<and> sent ex_id (finishResume ex_env ex_id (send_all ex_env ex_id objs s)) = map (Pair p) objs"
proof -
  let ?s = "upd ex_id (\<lambda>r. r\<lparr>r_resumeId := Some ''q''\<rparr>) (ex_ready\<lparr>m_log := []\<rparr>)"
  let ?objs = "[JObj [(''type'', JStr ''abort'')], JObj [(''type'', JStr ''prompt'')]]"
  have p: "r_proc (m_obj ?s ex_id) = Some 0" and t: "truthy (r_resumeId (m_obj ?s ex_id))"
    by (simp_all add: upd_def ex_ready_state truthy_def)
  have o: "\<forall>obj \<in> set ?objs. \<not> has_type obj ''extension_ui_response''" by (simp add: has_type_def)
  have d: "d_send (driverFor ex_env (m_obj ?s ex_id)) r 0 c" for r c by (simp add: ex_env_def ex_driver_def)
  have "r_resumeQueue (m_obj ?s ex_id) = []" "sent ex_id ?s = []"
    by (simp_all add: upd_def ex_ready_state sent_def)
  with resume_queue_fifo [OF p t o d] t show ?thesis by (metis append_Nil list.discI)
qed

section \<open>Attention\<close>

definition asking :: "runner_id \<Rightarrow> mgr \<Rightarrow> bool" where
  "asking i s \<longleftrightarrow> r_attention (m_obj s i) = Some Clarification"

lemma asking_upd [simp]: "(\<And>r. r_attention (f r) = r_attention r) \<Longrightarrow> asking i (upd j f s) = asking i s"
  by (simp add: asking_def upd_def)

lemma asking_simps [simp]:
  "asking i (emitE e s) = asking i s" "asking i (runnersChanged ch s) = asking i s"
  "asking i (disarm tm s) = asking i s" "asking i (kill_title j s) = asking i s"
  "asking i (snd (srvId s)) = asking i s" "asking i (snd (driver_send env j p c s)) = asking i s"
  "asking i (spawn_task t s) = asking i s" "asking i (persistRunnerState j r b s) = asking i s"
  by (simp_all add: asking_def frame_simps srvId_def driver_send_def spawn_task_def kill_title_def
      persistRunnerState_def split: option.splits)

lemma asking_flush [simp]: "asking i (flush_queue env j cs s) = asking i s"
  by (induction cs arbitrary: s) (auto split: option.splits)

lemma asking_finishResume [simp]: "asking i (finishResume env j s) = asking i s"
  by (simp add: finishResume_def Let_def)

text \<open>Commands of the manager itself neither prompt nor answer.\<close>

definition quiet_command :: "json \<Rightarrow> bool" where
  "quiet_command c \<longleftrightarrow> \<not> has_type c ''prompt'' \<and> \<not> has_type c ''extension_ui_response''"

lemma asking_send_quiet:
  assumes "quiet_command c" shows "asking i (snd (sendToRunner env j c False s)) = asking i s"
  using assms by (auto simp: sendToRunner_def send_rest_def quiet_command_def split_beta split: option.splits)

lemma asking_requestState:
  assumes "\<And>h rid. quiet_command (d_stateCommand (e_driver env h) rid)"
  shows "asking i (requestState env j s) = asking i s"
  using assms by (simp add: requestState_def split_beta asking_send_quiet)

lemma asking_state_rest [simp]: "asking i (state_rest j d b s) = asking i s"
  by (simp add: state_rest_def Let_def)

lemma asking_getState [simp]: "asking i (handleGetStateResponse env j d s) = asking i s"
proof -
  have "asking i (apply_state j d r s) = asking i s" for r
    by (simp add: apply_state_def Let_def resetRunnerTitleState_def split: option.splits)
  then show ?thesis by (simp add: handleGetStateResponse_def split: option.splits sum.splits)
qed

lemma asking_setAttention:
  "asking i (snd (setRunnerAttention j a u s)) = (if i = j then a = Some Clarification else asking i s)"
  by (auto simp: setRunnerAttention_def asking_def frame_simps)

text \<open>
  A clarification a runner waits for is not overwritten by what its process reports, in
  particular not by the run settling; only a new run (\<^verbatim>\<open>agent_start\<close>) clears it.
\<close>

theorem clarification_survives_events:
  assumes "\<And>h rid. quiet_command (d_stateCommand (e_driver env h) rid)"
    and "r_attention (m_obj s i) = Some Clarification" and "\<not> has_type msg ''agent_start''"
  shows "r_attention (m_obj (trackRunner env j msg s) i) = Some Clarification"
proof -
  have "asking i (handleExtensionUiRequest j msg s')" if "asking i s'" for s'
    using that by (auto simp: handleExtensionUiRequest_def Let_def asking_setAttention)
  moreover have "asking i (handleResponseEvent env j msg s') = asking i s'" for s'
    by (simp add: handleResponseEvent_def Let_def asking_requestState assms(1))
  ultimately have "asking i (applyRunnerLifecycleEvent env j msg s')" if "asking i s'" for s'
    using assms(3) that
    by (cases "i = j") (simp_all add: applyRunnerLifecycleEvent_def Let_def asking_def [symmetric] asking_requestState assms(1)
        asking_setAttention)
  moreover have "asking i s" using assms(2) by (simp add: asking_def)
  ultimately have "asking i (trackRunner env j msg s)"
    by (cases msg) (simp_all add: trackRunner_def)
  then show ?thesis by (simp add: asking_def)
qed

theorem clarification_survives_events_witness:
  "\<exists>s. r_attention (m_obj s ex_id) = Some Clarification
     \<and> r_attention (m_obj (trackRunner ex_env ex_id (JObj [(''type'', JStr ''agent_settled'')]) s) ex_id) = Some Clarification"
proof -
  let ?s = "upd ex_id (\<lambda>r. r\<lparr>r_attention := Some Clarification\<rparr>) ex_ready"
  have q: "quiet_command (d_stateCommand (e_driver ex_env h) rid)" for h rid
    by (simp add: ex_env_def ex_driver_def quiet_command_def has_type_def)
  have a: "r_attention (m_obj ?s ex_id) = Some Clarification" by (simp add: upd_def)
  have n: "\<not> has_type (JObj [(''type'', JStr ''agent_settled'')]) ''agent_start''" by (simp add: has_type_def)
  from clarification_survives_events [OF q a n] a show ?thesis by blast
qed

section \<open>Brokered clarifications\<close>

lemma not_brokered_after_finish: "u \<notin> set (r_brokered (m_obj (finish_ui i u r s) i))"
  by (simp add: finish_ui_def Let_def setRunnerAttention_def frame_simps)

lemma finish_ui_log:
  "u \<in> set (r_brokered (m_obj s i)) \<Longrightarrow>
   \<exists>es. m_log (finish_ui i u r s) = m_log s @ es @ [UiResolved i u r] \<and> sends_of i es = []"
  by (auto simp: finish_ui_def Let_def setRunnerAttention_def runnersChanged_def emitE_def upd_def)

text \<open>
  The answer to a clarification the server asked on a harness's behalf goes to the asker and to
  no process, and it is final: a later answer, abort or timeout of the same request changes nothing.
\<close>

theorem brokered_answer_is_final:
  assumes "u \<in> set (r_brokered (m_obj s i))" and "has_type obj ''extension_ui_response''"
    and "js_get obj ''id'' = Some (JStr u)"
  shows "\<exists>s'. sendToRunner env i obj autostart s = (Some True, s')
    \<and> last (m_log s') = UiResolved i u (brokeredUiResult obj) \<and> sent i s' = sent i s
    \<and> (\<forall>later. finish_ui i u later s' = s')"
proof -
  let ?s' = "finish_ui i u (brokeredUiResult obj) s"
  have "sendToRunner env i obj autostart s = (Some True, ?s')"
    using assms by (simp add: sendToRunner_def)
  moreover obtain es where "m_log ?s' = m_log s @ es @ [UiResolved i u (brokeredUiResult obj)]" "sends_of i es = []"
    using finish_ui_log [OF assms(1)] by blast
  moreover have "finish_ui i u later ?s' = ?s'" for later
    using not_brokered_after_finish [of u i] by (simp add: finish_ui_def [of i u later])
  ultimately show ?thesis by (simp add: sent_def)
qed

theorem brokered_answer_is_final_witness:
  "\<exists>s s'. sendToRunner ex_env ex_id (JObj [(''type'', JStr ''extension_ui_response''), (''id'', JStr ''ui-1''),
        (''confirmed'', JBool True)]) True s = (Some True, s')
     \<and> last (m_log s') = UiResolved ex_id ''ui-1'' (JObj [(''confirmed'', JBool True)])"
proof -
  let ?s = "upd ex_id (\<lambda>r. r\<lparr>r_brokered := [''ui-1'']\<rparr>) ex_ready"
  let ?o = "JObj [(''type'', JStr ''extension_ui_response''), (''id'', JStr ''ui-1''), (''confirmed'', JBool True)]"
  have b: "''ui-1'' \<in> set (r_brokered (m_obj ?s ex_id))" by (simp add: upd_def)
  have t: "has_type ?o ''extension_ui_response''" and j: "js_get ?o ''id'' = Some (JStr ''ui-1'')"
    by (simp_all add: has_type_def)
  have "brokeredUiResult ?o = JObj [(''confirmed'', JBool True)]" by (simp add: brokeredUiResult_def)
  with brokered_answer_is_final [OF b t j, of ex_env True] show ?thesis by metis
qed

section \<open>Runner ids\<close>

lemma allocate_from_Inr:
  "allocate_from taken tokens = Inr i \<longleftrightarrow>
   (\<exists>k < length tokens. i = ''r-'' @ tokens ! k \<and> i \<notin> set taken \<and> (\<forall>j < Suc k. valid_runner_token (tokens ! j))
      \<and> (\<forall>j < k. ''r-'' @ tokens ! j \<in> set taken))"
  by (induction tokens) (auto simp: Ex_less_Suc2 All_less_Suc2 simp del: All_less_Suc)

text \<open>
  An allocated runner id is the first of at most eight generated tokens that is not taken, it
  is not registered, and it and every token tried before it are safe for the database; when eight
  tokens collide or one is malformed, the allocation fails.
\<close>

theorem allocated_id_fresh:
  "allocateRunnerId tokens s = Inr i \<longleftrightarrow>
   (\<exists>k < min 8 (length tokens). i = ''r-'' @ tokens ! k \<and> i \<notin> set (m_order s)
      \<and> (\<forall>j < Suc k. 8 \<le> length (tokens ! j) \<and> length (tokens ! j) \<le> 128 \<and> list_all id_char (tokens ! j))
      \<and> (\<forall>j < k. ''r-'' @ tokens ! j \<in> set (m_order s)))"
  unfolding allocateRunnerId_def allocate_from_Inr max_runner_id_attempts_def valid_runner_token_def
  by (rule ex_cong1) (auto simp: min_def)

theorem allocated_id_fresh_witness:
  "allocateRunnerId [''abcdefgh'', ''ijklmnop''] ex_ready = Inr ''r-ijklmnop''"
  by (subst allocated_id_fresh, rule exI [of _ 1])
     (auto simp: ex_ready_state ex_id_def All_less_Suc2 id_char_def)

section \<open>Restoring runners\<close>

definition idle_runners :: "mgr \<Rightarrow> bool" where
  "idle_runners s \<longleftrightarrow> (\<forall>i \<in> set (m_order s). r_proc (m_obj s i) = None \<and> \<not> r_busy (m_obj s i) \<and> r_resumeQueue (m_obj s i) = [])"

lemma load_rows_boot:
  "load_rows env ws s = Inr s' \<Longrightarrow> idle_runners s \<Longrightarrow>
   idle_runners s' \<and> set (m_order s') = set (m_order s) \<union> w_id ` set ws \<and> m_default s' = m_default s
   \<and> m_log s' = m_log s \<and> m_tasks s' = m_tasks s"
proof (induction ws arbitrary: s)
  case (Cons w ws)
  have "idle_runners (set_runner (w_id w) (runnerFromPersisted w r h) s)" for r h
    using Cons.prems(2) by (auto simp: idle_runners_def set_runner_def runnerFromPersisted_def initializeRunnerRuntime_def)
  with Cons show ?case by (auto simp: set_runner_def split: if_splits sum.splits)
qed simp

lemma ensure_references_boot:
  "ensure_references cd is s = Inr s' \<Longrightarrow> idle_runners s \<Longrightarrow>
   idle_runners s' \<and> m_order s' = m_order s \<and> m_default s' = m_default s \<and> m_log s' = m_log s \<and> m_tasks s' = m_tasks s"
proof (induction cd "is" s rule: ensure_references.induct)
  case (2 cd i "is" s)
  have "idle_runners (upd i (\<lambda>r. r\<lparr>r_ref := v\<rparr>) s)" for v
    using "2.prems"(2) by (auto simp: idle_runners_def upd_def)
  with 2 show ?case by (auto simp: Let_def upd_def split: if_splits sum.splits)
qed simp

lemma interrupted_log:
  "m_log (fold (\<lambda>w. emitE (f w)) ws s) = m_log s @ map f ws"
  "m_order (fold (\<lambda>w. emitE (f w)) ws s) = m_order s" "m_obj (fold (\<lambda>w. emitE (f w)) ws s) = m_obj s"
  "m_default (fold (\<lambda>w. emitE (f w)) ws s) = m_default s" "m_tasks (fold (\<lambda>w. emitE (f w)) ws s) = m_tasks s"
  by (induction ws arbitrary: s) (simp_all add: emitE_def)

lemma reconcile_boot:
  "m_order (reconcileDefaultRunner env rows s) = m_order s" "m_obj (reconcileDefaultRunner env rows s) = m_obj s"
  "m_tasks (reconcileDefaultRunner env rows s) = m_tasks s"
  "\<exists>es. m_log (reconcileDefaultRunner env rows s) = m_log s @ es"
  by (auto simp: reconcileDefaultRunner_def Let_def emitE_def split: option.splits)

lemma reconcile_default:
  assumes "w_id ` set rows \<subseteq> set (m_order s)" and "m_default (reconcileDefaultRunner env rows s) = Some d" and "d \<noteq> []"
  shows "d \<in> set (m_order s) \<and> compatibleWithConfiguredBackend env (runner_of s d)"
proof -
  have "w_id w \<in> set (m_order s) \<and> compatibleWithConfiguredBackend env (runner_of s (w_id w))"
    if "find (\<lambda>w. w_isDefault w = 1 \<and> compatibleWithConfiguredBackend env (runner_of s (w_id w))) rows = Some w" for w
    using that assms(1) by (auto simp: find_Some_iff)
  then show ?thesis
    using assms(2,3) by (auto simp: reconcileDefaultRunner_def Let_def emitE_def truthy_def split: option.splits if_splits)
qed

lemma markPreviouslyLive_rows: "w_id ` set (fst (markPreviouslyLiveInterrupted rows s)) = w_id ` set rows"
proof -
  have "map w_id (fst (markPreviouslyLiveInterrupted rows s)) = map w_id rows"
    by (simp add: markPreviouslyLiveInterrupted_def)
  then show ?thesis by (metis set_map)
qed

text \<open>
  After a restart every persisted runner is registered and dormant, each one that was live before
  is recorded as interrupted before anything else, no start is pending, and a default runner, if one
  is selected, is registered and can run under the configured harnesses.
\<close>

theorem boot_restores_dormant_runners:
  assumes "createRunnerManager env rows (empty_mgr dir dflt now) = Inr s"
  shows "set (m_order s) = w_id ` set rows \<and> idle_runners s \<and> m_tasks s = []
    \<and> (\<exists>es. m_log s = map (\<lambda>w. RepoUpdate (w_id w) [(''desired_state'', JStr ''stopped''), (''last_status'', JStr ''interrupted'')])
         (filter (\<lambda>w. w_status w = ''starting'' \<or> w_status w = ''running'') rows) @ es)
    \<and> (\<forall>d. m_default s = Some d \<longrightarrow> d \<noteq> [] \<longrightarrow> d \<in> set (m_order s))"
proof -
  let ?s0 = "empty_mgr dir dflt now"
  obtain rows1 s1 where m: "markPreviouslyLiveInterrupted rows ?s0 = (rows1, s1)" by fastforce
  have live: "filter (row_live ?s0) rows = filter (\<lambda>w. w_status w = ''starting'' \<or> w_status w = ''running'') rows"
    by (rule filter_cong) (auto simp: row_live_def empty_mgr_def)
  have s1: "m_order s1 = []" "m_tasks s1 = []" "idle_runners s1"
    and log: "m_log s1 = map (\<lambda>w. RepoUpdate (w_id w) [(''desired_state'', JStr ''stopped''), (''last_status'', JStr ''interrupted'')])
         (filter (\<lambda>w. w_status w = ''starting'' \<or> w_status w = ''running'') rows)"
    using m unfolding markPreviouslyLiveInterrupted_def live
    by (auto simp: interrupted_log empty_mgr_def idle_runners_def)
  have rows1: "w_id ` set rows1 = w_id ` set rows" using markPreviouslyLive_rows [of rows ?s0] m by simp
  obtain s2 where l: "load_rows env rows1 s1 = Inr s2"
    and r: "ensure_references (e_codec env) (m_order s2) (reconcileDefaultRunner env rows1 s2) = Inr s"
    using assms by (auto simp: createRunnerManager_def loadPersistedRunners_def ensureRuntimeReferences_def m
        reconcile_boot split: sum.splits)
  note s2 = load_rows_boot [OF l s1(3)]
  have "idle_runners (reconcileDefaultRunner env rows1 s2)" using s2 by (simp add: idle_runners_def reconcile_boot)
  note s = ensure_references_boot [OF r this]
  have order: "set (m_order s) = w_id ` set rows" using s s2 s1 rows1 by (simp add: reconcile_boot)
  have "d \<in> set (m_order s)" if "m_default s = Some d" "d \<noteq> []" for d
    using reconcile_default [of rows1 s2 env d] that s s2 rows1 by (auto simp: reconcile_boot)
  moreover obtain es where "m_log (reconcileDefaultRunner env rows1 s2) = m_log s2 @ es"
    using reconcile_boot(4) by blast
  ultimately show ?thesis
    using order s s2 s1 log by (simp add: reconcile_boot)
qed

theorem boot_restores_dormant_runners_witness:
  "\<exists>s. createRunnerManager ex_env
      [\<lparr>w_id = ''r-abcdefgh'', w_dir = ''/w'', w_harness = None, w_backend = None, w_sessionId = None,
        w_storagePath = None, w_sessionName = None, w_initialized = 0, w_attention = None, w_unread = 0,
        w_startCount = 1, w_isDefault = 1, w_status = ''running''\<rparr>] (empty_mgr ''/w'' None 5000) = Inr s
    \<and> set (m_order s) = {''r-abcdefgh''} \<and> m_default s = Some ''r-abcdefgh'' \<and> m_tasks s = []"
proof -
  let ?w = "\<lparr>w_id = ''r-abcdefgh'', w_dir = ''/w'', w_harness = None, w_backend = None, w_sessionId = None,
        w_storagePath = None, w_sessionName = None, w_initialized = 0, w_attention = None, w_unread = 0,
        w_startCount = 1, w_isDefault = 1, w_status = ''running''\<rparr>"
  let ?r = "createRunnerManager ex_env [?w] (empty_mgr ''/w'' None 5000)"
  have d: "(case ?r of Inl _ \<Rightarrow> None | Inr s \<Rightarrow> m_default s) = Some ''r-abcdefgh''" by code_simp
  then obtain s where s: "?r = Inr s" by (cases ?r) auto
  from boot_restores_dormant_runners [OF s] s d show ?thesis by auto
qed

end
