(* ===== verification/Event_Log.thy ===== *)
theory Event_Log
  imports Runner_Model
begin

text \<open>
  The way of a runner event from the process to the browser: \<^verbatim>\<open>runnerWrite\<close> and
  \<^verbatim>\<open>replayRunnerEvents\<close> of \<^verbatim>\<open>server/runners.mjs\<close>, the frames of \<^verbatim>\<open>server/sse.mjs\<close>, the
  \<^verbatim>\<open>runnerEvents\<close> table of \<^verbatim>\<open>server/persistence/appStore.mjs\<close>, and the de-duplication of
  \<^verbatim>\<open>public/src/runtime/eventStreamUtils.js\<close>.  The table and the de-duplicator are two bounded
  windows of the same kind; what both rely on is proved once, for the contract \<open>bounded_window\<close>.
\<close>

section \<open>Server-sent event frames\<close>

definition LF :: char where "LF = CHR 0x0A"
definition CR :: char where "CR = CHR 0x0D"

definition safe_event_id_max_length :: nat where "safe_event_id_max_length = 200"

definition safe_event_id :: "string \<Rightarrow> bool" where
  "safe_event_id s \<longleftrightarrow> s \<noteq> [] \<and> length s \<le> safe_event_id_max_length
     \<and> list_all (\<lambda>c. c \<noteq> CHR 0x00 \<and> c \<noteq> CR \<and> c \<noteq> LF) s"

definition sseEventId :: "string \<Rightarrow> string option" where
  "sseEventId data =
     (case Option.bind (json_parse data) (\<lambda>v. js_get v ''_sseId'') of
        Some (JStr s) \<Rightarrow> if safe_event_id s then Some s else None
      | _ \<Rightarrow> None)"

text \<open>\<^verbatim>\<open>split(/\r?\n/)\<close>.\<close>

definition chop_cr :: "string \<Rightarrow> string" where
  "chop_cr w = (if w \<noteq> [] \<and> last w = CR then butlast w else w)"

definition split_lines :: "string \<Rightarrow> string list" where
  "split_lines s = (let ws = js_split LF s in map chop_cr (butlast ws) @ [last ws])"

definition sseDataFrame :: "string \<Rightarrow> bool \<Rightarrow> string" where
  "sseDataFrame data includeId =
     (case (if includeId then sseEventId data else None) of
        None \<Rightarrow> [] | Some s \<Rightarrow> ''id: '' @ s @ [LF])
     @ js_join [LF] (map (\<lambda>l. ''data: '' @ l) (split_lines data)) @ [LF, LF]"

text \<open>\<^verbatim>\<open>normalizeLastEventId\<close> on a header value, which may be a list.\<close>

fun header_candidate :: "json option \<Rightarrow> json option" where
  "header_candidate (Some (JArr [])) = None"
| "header_candidate (Some (JArr (v # vs))) = Some v"
| "header_candidate v = v"

definition normalizeLastEventId :: "json option \<Rightarrow> string option" where
  "normalizeLastEventId value =
     (case header_candidate value of
        Some (JStr s) \<Rightarrow> if safe_event_id s then Some s else None
      | _ \<Rightarrow> None)"

text \<open>
  What a browser reads from one frame, by the processing rules of server-sent events: the last id
  and the data lines joined.
\<close>

definition field_value :: "string \<Rightarrow> string \<Rightarrow> string option" where
  "field_value name l = (if prefix_of (name @ '': '') l then Some (drop (length name + 2) l) else None)"

fun sse_read :: "string list \<Rightarrow> string option \<times> string list" where
  "sse_read [] = (None, [])"
| "sse_read (l # ls) =
     (case sse_read ls of (i, ds) \<Rightarrow>
        (case field_value ''id'' l of
           Some v \<Rightarrow> (if i = None then Some v else i, ds)
         | None \<Rightarrow> (case field_value ''data'' l of Some d \<Rightarrow> (i, d # ds) | None \<Rightarrow> (i, ds))))"

definition sse_event :: "string \<Rightarrow> string option \<times> string" where
  "sse_event frame = (case sse_read (js_split LF frame) of (i, ds) \<Rightarrow> (i, js_join [LF] ds))"

section \<open>The table of runner events\<close>

record event_row =
  ev_sequence :: nat
  ev_sseId :: "string option"
  ev_payload :: string

datatype event_error = BadPayloadCap | BadEventCap

definition list_events :: "int option \<Rightarrow> event_row list \<Rightarrow> event_error + event_row list" where
  "list_events maxPayloadBytes rows =
     (case maxPayloadBytes of
        None \<Rightarrow> Inr rows
      | Some n \<Rightarrow> if n < 1 then Inl BadPayloadCap
                  else Inr (filter (\<lambda>r. int (length (utf8_encode (ev_payload r))) \<le> n) rows))"

definition next_sequence :: "event_row list \<Rightarrow> nat" where
  "next_sequence rows = Suc (fold max (map ev_sequence rows) 0)"

definition append_event :: "int \<Rightarrow> string option \<Rightarrow> string \<Rightarrow> event_row list \<Rightarrow> event_error + event_row \<times> event_row list" where
  "append_event maxEntries sseId payload rows =
     (if maxEntries < 1 then Inl BadEventCap
      else
        (case (if sseId = None then None else find (\<lambda>r. ev_sseId r = sseId) rows) of
           Some existing \<Rightarrow> Inr (existing, rows)
         | None \<Rightarrow>
             (let n = next_sequence rows;
                  row = \<lparr>ev_sequence = n, ev_sseId = sseId, ev_payload = payload\<rparr>
              in Inr (row, filter (\<lambda>r. \<not> int (ev_sequence r) \<le> int n - maxEntries) (rows @ [row])))))"

section \<open>Writing and replaying events\<close>

definition withSseId :: "string \<Rightarrow> string \<Rightarrow> string" where
  "withSseId uuid line =
     (case json_parse line of
        Some (JObj fs) \<Rightarrow>
          json_text (JObj (if truthy_json (map_of fs ''_sseId'') then fs else jsmap_set ''_sseId'' (JStr uuid) fs))
      | Some (JArr vs) \<Rightarrow> json_text (JArr vs)
      | _ \<Rightarrow> line)"

record write_result =
  wr_frame :: string
  wr_targets :: "sse_client list"
  wr_append :: "(string option \<times> string) option" \<comment> \<open>the row to persist, if the event is replayable\<close>

definition replayable_event :: "string \<Rightarrow> bool" where
  "replayable_event eventLine \<longleftrightarrow>
     str_field (Option.bind (json_parse eventLine) (\<lambda>v. js_get v ''type'')) \<notin> Some ` set non_replayable_runner_events
     \<and> length (utf8_encode eventLine) \<le> runner_event_max_bytes"

definition runnerWrite :: "string \<Rightarrow> runner_id \<Rightarrow> string \<Rightarrow> sse_client list \<Rightarrow> write_result" where
  "runnerWrite uuid i line clients =
     (let eventLine = withSseId uuid line;
          sseId = str_field (Option.bind (json_parse eventLine) (\<lambda>v. js_get v ''_sseId''))
      in \<lparr>wr_frame = sseDataFrame eventLine (replayable_event eventLine),
          wr_targets = filter (\<lambda>c. c_runner c = i \<and> \<not> c_ended c \<and> \<not> c_destroyed c) clients,
          wr_append = (if replayable_event eventLine then Some (sseId, eventLine) else None)\<rparr>)"

fun position :: "('a \<Rightarrow> bool) \<Rightarrow> 'a list \<Rightarrow> nat option" where
  "position P [] = None"
| "position P (x # xs) = (if P x then Some 0 else map_option Suc (position P xs))"

text \<open>A stored prompt is replayed only while the runner still waits for its answer.\<close>

definition still_pending :: "string list \<Rightarrow> string \<Rightarrow> bool" where
  "still_pending pending payload \<longleftrightarrow>
     (case json_parse payload of
        None \<Rightarrow> True
      | Some event \<Rightarrow>
          event = JNull \<or> js_get event ''type'' \<noteq> Some (JStr ''extension_ui_request'')
          \<or> str_field (js_get event ''id'') \<in> Some ` set pending)"

definition replayRunnerEvents :: "string list \<Rightarrow> json option \<Rightarrow> event_row list \<Rightarrow> string list" where
  "replayRunnerEvents pending afterSseId rows =
     (let stored = (case list_events (Some (int runner_event_max_bytes)) rows of Inl _ \<Rightarrow> [] | Inr rs \<Rightarrow> rs);
          after = (case normalizeLastEventId afterSseId of
             None \<Rightarrow> stored
           | Some cursor \<Rightarrow>
               (case position (\<lambda>r. ev_sseId r = Some cursor) stored of
                  None \<Rightarrow> stored | Some k \<Rightarrow> drop (Suc k) stored))
      in filter (still_pending pending) (map ev_payload after))"

text \<open>
  The opening of \<^verbatim>\<open>GET /events\<close> in \<^verbatim>\<open>runnerRoutes.mjs\<close>: the replayed frames, then
  \<^verbatim>\<open>replay_done\<close> with the fields \<open>done\<close>.
\<close>

definition stream_opening :: "bool \<Rightarrow> string list \<Rightarrow> json option \<Rightarrow> event_row list \<Rightarrow> (string \<times> json) list \<Rightarrow> string list" where
  "stream_opening replay pending lastEventId rows done_fields =
     (if replay
      then map (\<lambda>l. sseDataFrame l True)
             (replayRunnerEvents pending (map_option JStr (normalizeLastEventId lastEventId)) rows)
      else [])
     @ [sseDataFrame (json_text (JObj ((''type'', JStr ''replay_done'') # (''_server'', JBool True) # done_fields))) True]"

section \<open>De-duplication in the browser\<close>

record deduper =
  dd_ids :: "json list"
  dd_queue :: "json list"

definition max_dedupe_ids :: nat where "max_dedupe_ids = 2000"

definition empty_deduper :: deduper where "empty_deduper = \<lparr>dd_ids = [], dd_queue = []\<rparr>"

function shrink :: "nat \<Rightarrow> deduper \<Rightarrow> deduper" where
  "shrink maxIds d =
     (if length (dd_queue d) > maxIds
      then shrink maxIds \<lparr>dd_ids = jsset_delete (hd (dd_queue d)) (dd_ids d), dd_queue = tl (dd_queue d)\<rparr>
      else d)"
  by pat_completeness auto
termination by (relation "measure (\<lambda>(n, d). length (dd_queue d))") auto

declare shrink.simps [simp del]

definition dedupe :: "nat \<Rightarrow> json \<Rightarrow> deduper \<Rightarrow> bool \<times> deduper" where
  "dedupe maxIds message d =
     (case js_get message ''_sseId'' of
        None \<Rightarrow> (False, d)
      | Some i \<Rightarrow>
          if \<not> truthy_json (Some i) then (False, d)
          else if i \<in> set (dd_ids d) then (True, d)
          else (False, shrink maxIds \<lparr>dd_ids = jsset_add i (dd_ids d), dd_queue = dd_queue d @ [i]\<rparr>))"

text \<open>\<^verbatim>\<open>processEventMessage\<close>: the message that is dispatched, if any.\<close>

definition processEventMessage :: "nat \<Rightarrow> string \<Rightarrow> deduper \<Rightarrow> json option \<times> deduper" where
  "processEventMessage maxIds raw d =
     (case json_parse raw of
        None \<Rightarrow> (None, d)
      | Some message \<Rightarrow>
          (case dedupe maxIds message d of (duplicate, d') \<Rightarrow> (if duplicate then None else Some message, d')))"

fun process_all :: "nat \<Rightarrow> string list \<Rightarrow> deduper \<Rightarrow> json list \<times> deduper" where
  "process_all n [] d = ([], d)"
| "process_all n (raw # raws) d =
     (case processEventMessage n raw d of (m, d') \<Rightarrow>
        (case process_all n raws d' of (ms, d'') \<Rightarrow> ((case m of None \<Rightarrow> ms | Some v \<Rightarrow> v # ms), d'')))"

end
