(* ===== verification/Event_Window.thy ===== *)
theory Event_Window
  imports Event_Log
begin

text \<open>
  The contract of a bounded window of keyed entries, its two providers (the table of runner events
  on the server, the de-duplicator in the browser), and what follows for a browser that reconnects.
\<close>

section \<open>The contract\<close>

locale bounded_window =
  fixes entries :: "'s \<Rightarrow> 'e list"
    and key :: "'e \<Rightarrow> 'k"
    and push :: "'e \<Rightarrow> 's \<Rightarrow> 's"
    and cap :: nat
    and ok :: "'s \<Rightarrow> bool"
  assumes ok_push: "ok s \<Longrightarrow> ok (push e s)"
    and push_known: "ok s \<Longrightarrow> key e \<in> key ` set (entries s) \<Longrightarrow> entries (push e s) = entries s"
    and push_new: "ok s \<Longrightarrow> key e \<notin> key ` set (entries s) \<Longrightarrow>
      entries (push e s) = drop (Suc (length (entries s)) - cap) (entries s @ [e])"
    and bounded: "ok s \<Longrightarrow> length (entries s) \<le> cap"
begin

lemma ok_fold: "ok s \<Longrightarrow> ok (fold push es s)"
  by (induction es arbitrary: s) (auto intro: ok_push)

lemma known_fold: "ok s \<Longrightarrow> key ` set es \<subseteq> key ` set (entries s) \<Longrightarrow> entries (fold push es s) = entries s"
proof (induction es arbitrary: s)
  case (Cons e es)
  then have "entries (push e s) = entries s" by (intro push_known) auto
  with Cons ok_push [of s e] show ?case by simp
qed simp

text \<open>New entries with distinct keys: the window holds the last \<open>cap\<close> of everything pushed.\<close>

lemma new_fold:
  assumes "ok s" and "distinct (map key (entries s @ es))"
  shows "entries (fold push es s) = drop (length (entries s) + length es - cap) (entries s @ es)"
  using assms
proof (induction es arbitrary: s)
  case Nil
  then show ?case using bounded [of s] by simp
next
  case (Cons e es)
  have e: "key e \<notin> key ` set (entries s)" using Cons.prems(2) by auto
  let ?k = "Suc (length (entries s)) - cap"
  have p: "entries (push e s) = drop ?k (entries s @ [e])" by (rule push_new [OF Cons.prems(1) e])
  have "map key (drop ?k (entries s @ [e]) @ es) = drop ?k (map key (entries s @ e # es))"
    by (cases "cap = 0") (auto simp: drop_map)
  then have "distinct (map key (entries (push e s) @ es))"
    unfolding p using Cons.prems(2) distinct_drop by metis
  then have "entries (fold push es (push e s)) =
      drop (length (entries (push e s)) + length es - cap) (entries (push e s) @ es)"
    by (rule Cons.IH [OF ok_push [OF Cons.prems(1)]])
  also have "\<dots> = drop (length (entries s) + length (e # es) - cap) (entries s @ e # es)"
    unfolding p using bounded [OF Cons.prems(1)]
    by (cases "cap = 0"; cases "length (entries s) = cap") (auto simp: drop_Cons' Suc_diff_le)
  finally show ?case by simp
qed

end

section \<open>The de-duplicator provides it\<close>

definition remember :: "nat \<Rightarrow> json \<Rightarrow> deduper \<Rightarrow> deduper" where
  "remember maxIds i d =
     (if i \<in> set (dd_ids d) then d
      else shrink maxIds \<lparr>dd_ids = jsset_add i (dd_ids d), dd_queue = dd_queue d @ [i]\<rparr>)"

definition dd_ok :: "nat \<Rightarrow> deduper \<Rightarrow> bool" where
  "dd_ok maxIds d \<longleftrightarrow> distinct (dd_queue d) \<and> set (dd_ids d) = set (dd_queue d) \<and> length (dd_queue d) \<le> maxIds"

lemma shrink_queue: "dd_queue (shrink n d) = drop (length (dd_queue d) - n) (dd_queue d)"
proof (induction n d rule: shrink.induct)
  case (1 n d)
  show ?case
  proof (cases "dd_queue d")
    case Nil
    then show ?thesis by (subst shrink.simps) simp
  next
    case (Cons q qs)
    show ?thesis
    proof (cases "n < length (dd_queue d)")
      case True
      with 1 [OF True] Cons show ?thesis by (subst shrink.simps) (simp add: Suc_diff_le)
    next
      case False
      then show ?thesis by (subst shrink.simps) simp
    qed
  qed
qed

lemma shrink_ids:
  "distinct (dd_queue d) \<Longrightarrow> set (dd_ids d) = set (dd_queue d) \<Longrightarrow> set (dd_ids (shrink n d)) = set (dd_queue (shrink n d))"
proof (induction n d rule: shrink.induct)
  case (1 n d)
  show ?case
  proof (cases "n < length (dd_queue d)")
    case True
    then obtain q qs where q: "dd_queue d = q # qs" by (cases "dd_queue d") auto
    show ?thesis
      using 1(1) [OF True] 1(2,3) True q by (subst (1 2) shrink.simps) auto
  next
    case False
    then show ?thesis using 1(3) by (subst (1 2) shrink.simps) simp
  qed
qed

interpretation dd: bounded_window dd_queue "\<lambda>i. i" "remember n" n "dd_ok n" for n
proof
  show "dd_ok n (remember n i d)" if d: "dd_ok n d" for d i
  proof (cases "i \<in> set (dd_ids d)")
    case False
    let ?e = "\<lparr>dd_ids = jsset_add i (dd_ids d), dd_queue = dd_queue d @ [i]\<rparr>"
    have "distinct (dd_queue d @ [i])" "set (dd_ids ?e) = set (dd_queue ?e)"
      using d False by (auto simp: dd_ok_def)
    then show ?thesis
      using d False shrink_ids [of ?e n] distinct_drop [of "dd_queue d @ [i]"]
      by (simp add: dd_ok_def remember_def shrink_queue del: drop_append)
  qed (simp add: d remember_def)
  show "dd_queue (remember n i d) = dd_queue d" if "dd_ok n d" "i \<in> (\<lambda>i. i) ` set (dd_queue d)" for d i
    using that by (simp add: dd_ok_def remember_def)
  show "dd_queue (remember n i d) = drop (Suc (length (dd_queue d)) - n) (dd_queue d @ [i])"
    if "dd_ok n d" "i \<notin> (\<lambda>i. i) ` set (dd_queue d)" for d i
    using that by (simp add: dd_ok_def remember_def shrink_queue)
  show "length (dd_queue d) \<le> n" if "dd_ok n d" for d
    using that by (simp add: dd_ok_def)
qed

lemma dedupe_remember:
  "js_get m ''_sseId'' = Some i \<Longrightarrow> truthy_json (Some i) \<Longrightarrow>
   dedupe n m d = (i \<in> set (dd_ids d), remember n i d)"
  by (simp add: dedupe_def remember_def)

section \<open>The table of runner events provides it\<close>

definition stored_entries :: "event_row list \<Rightarrow> (string \<times> string) list" where
  "stored_entries rows = map (\<lambda>r. (the (ev_sseId r), ev_payload r)) rows"

definition store_event :: "nat \<Rightarrow> string \<times> string \<Rightarrow> event_row list \<Rightarrow> event_row list" where
  "store_event n e rows =
     (case append_event (int n) (Some (fst e)) (snd e) rows of Inl _ \<Rightarrow> rows | Inr (_, rows') \<Rightarrow> rows')"

definition rows_ok :: "nat \<Rightarrow> event_row list \<Rightarrow> bool" where
  "rows_ok n rows \<longleftrightarrow> (\<forall>r \<in> set rows. ev_sseId r \<noteq> None) \<and> length rows \<le> n
     \<and> (\<exists>k. map ev_sequence rows = [Suc k..<Suc (k + length rows)])"

lemma filter_from_upt:
  "map f xs = [a..<b] \<Longrightarrow> filter (\<lambda>x. c \<le> f x) xs = drop (c - a) xs"
proof (induction xs arbitrary: a)
  case (Cons x xs)
  then have "[a..<b] = f x # map f xs" by simp
  then have "f x = a" "map f xs = [Suc a..<b]" by (auto simp: upt_eq_Cons_conv)
  moreover have "c - a = Suc (c - Suc a)" if "\<not> c \<le> a" using that by simp
  ultimately show ?case using Cons.IH [of "Suc a"] by (cases "c \<le> a") simp_all
qed simp

lemma next_sequence_upt:
  "map ev_sequence rows = [Suc k..<Suc (k + length rows)] \<Longrightarrow> rows \<noteq> [] \<Longrightarrow> next_sequence rows = Suc (k + length rows)"
proof -
  assume m: "map ev_sequence rows = [Suc k..<Suc (k + length rows)]" and n: "rows \<noteq> []"
  have "fold max [Suc k..<Suc (k + l)] 0 = k + l" if "l > 0" for l
    using that by (induction l rule: nat_induct_non_zero) auto
  from this [of "length rows"] n show ?thesis unfolding next_sequence_def m by simp
qed

lemma store_event_new:
  assumes ok: "rows_ok n rows" and n: "n > 0" and new: "i \<notin> fst ` set (stored_entries rows)"
  shows "\<exists>row. ev_sseId row = Some i \<and> ev_payload row = p
    \<and> store_event n (i, p) rows = drop (Suc (length rows) - n) (rows @ [row])
    \<and> (\<exists>k. map ev_sequence (rows @ [row]) = [Suc k..<Suc (Suc (k + length rows))])"
proof -
  obtain k where k: "map ev_sequence rows = [Suc k..<Suc (k + length rows)]" using ok by (auto simp: rows_ok_def)
  define k' where "k' = (if rows = [] then 0 else k)"
  define row where "row = \<lparr>ev_sequence = next_sequence rows, ev_sseId = Some i, ev_payload = p\<rparr>"
  have "next_sequence rows = Suc (k' + length rows)"
    using next_sequence_upt [OF k] by (cases "rows = []") (simp_all add: k'_def next_sequence_def)
  then have m: "map ev_sequence (rows @ [row]) = [Suc k'..<Suc (Suc (k' + length rows))]"
    using k by (cases "rows = []") (simp_all add: row_def k'_def)
  have "ev_sseId r \<noteq> Some i" if "r \<in> set rows" for r
    using that ok new by (force simp: rows_ok_def stored_entries_def)
  then have "find (\<lambda>r. ev_sseId r = Some i) rows = None" by (simp add: find_None_iff)
  then have "store_event n (i, p) rows
      = filter (\<lambda>r. \<not> int (ev_sequence r) \<le> int (next_sequence rows) - int n) (rows @ [row])"
    using n by (simp add: store_event_def append_event_def Let_def row_def del: filter_append)
  also have "\<dots> = filter (\<lambda>r. Suc (next_sequence rows) - n \<le> ev_sequence r) (rows @ [row])"
    by (rule filter_cong) auto
  also have "\<dots> = drop (Suc (next_sequence rows) - n - Suc k') (rows @ [row])"
    by (rule filter_from_upt [OF m])
  also have "Suc (next_sequence rows) - n - Suc k' = Suc (length rows) - n"
    using \<open>next_sequence rows = Suc (k' + length rows)\<close> by simp
  finally have "store_event n (i, p) rows = drop (Suc (length rows) - n) (rows @ [row])" .
  moreover have "ev_sseId row = Some i" "ev_payload row = p" by (simp_all add: row_def)
  ultimately show ?thesis using m by blast
qed

interpretation el: bounded_window stored_entries fst "store_event (Suc n)" "Suc n" "rows_ok (Suc n)" for n
proof
  fix rows :: "event_row list" and e :: "string \<times> string"
  assume ok: "rows_ok (Suc n) rows"
  show known: "stored_entries (store_event (Suc n) e rows) = stored_entries rows"
    if g: "fst e \<in> fst ` set (stored_entries rows)"
  proof -
    obtain r where r: "r \<in> set rows" "ev_sseId r = Some (fst e)"
      using g ok by (force simp: stored_entries_def rows_ok_def)
    then have "find (\<lambda>r. ev_sseId r = Some (fst e)) rows \<noteq> None" by (auto simp: find_None_iff)
    then show ?thesis by (auto simp: store_event_def append_event_def)
  qed
  show "stored_entries (store_event (Suc n) e rows) =
      drop (Suc (length (stored_entries rows)) - Suc n) (stored_entries rows @ [e])"
    if "fst e \<notin> fst ` set (stored_entries rows)"
    using store_event_new [OF ok _ that, of "snd e"] by (auto simp: stored_entries_def drop_map)
  show "rows_ok (Suc n) (store_event (Suc n) e rows)"
  proof (cases "fst e \<in> fst ` set (stored_entries rows)")
    case True
    then obtain r where r: "r \<in> set rows" "ev_sseId r = Some (fst e)"
      using ok by (force simp: stored_entries_def rows_ok_def)
    then have "find (\<lambda>r. ev_sseId r = Some (fst e)) rows \<noteq> None" by (auto simp: find_None_iff)
    then have "store_event (Suc n) e rows = rows" by (auto simp: store_event_def append_event_def)
    then show ?thesis using ok by simp
  next
    case False
    obtain row k where row: "ev_sseId row = Some (fst e)"
      "store_event (Suc n) e rows = drop (Suc (length rows) - Suc n) (rows @ [row])"
      "map ev_sequence (rows @ [row]) = [Suc k..<Suc (Suc (k + length rows))]"
      using store_event_new [OF ok _ False, of "snd e"] by auto
    let ?d = "Suc (length rows) - Suc n"
    have "map ev_sequence (drop ?d (rows @ [row])) = [Suc (k + ?d)..<Suc (Suc (k + length rows))]"
      using row(3) by (simp only: drop_map [symmetric] drop_upt) simp
    moreover have "length (drop ?d (rows @ [row])) = Suc (length rows) - ?d" by simp
    moreover have "Suc (Suc (k + length rows)) = Suc (k + ?d + (Suc (length rows) - ?d))" by simp
    moreover have "Suc (length rows) - ?d \<le> Suc n" by simp
    moreover have "\<forall>r \<in> set (drop ?d (rows @ [row])). ev_sseId r \<noteq> None"
      using ok row(1) by (auto simp: rows_ok_def dest!: in_set_dropD)
    ultimately show ?thesis unfolding rows_ok_def row(2) by metis
  qed
next
  show "length (stored_entries rows) \<le> Suc n" if "rows_ok (Suc n) rows" for rows
    using that by (simp add: rows_ok_def stored_entries_def)
qed

end
