(* ===== verification/Event_Properties.thy ===== *)
theory Event_Properties
  imports Event_Window
begin

text \<open>
  What a browser can rely on: frames carry their text unchanged, the cursor it returns with names a
  persisted event, and a reconnect delivers every retained event behind the cursor exactly once.
\<close>

section \<open>Frames\<close>

lemma json_chars_plain: "c \<in> set (json_escape d) \<Longrightarrow> c \<noteq> LF \<and> c \<noteq> CR"
proof -
  have "list_all (\<lambda>n. hex_digit n \<noteq> LF \<and> hex_digit n \<noteq> CR) [0..<16]" by code_simp
  then have h: "hex_digit n \<noteq> LF \<and> hex_digit n \<noteq> CR" if "n < 16" for n
    using that unfolding list_all_iff set_upt by fastforce
  have "of_char d < (16 * 16 :: nat)" using char_code_less [of d] by simp
  then have "of_char d div 16 < (16::nat)" by (rule less_mult_imp_div_less)
  then show "c \<in> set (json_escape d) \<Longrightarrow> ?thesis"
    using h [of "of_char d mod 16"] h [of "of_char d div 16"]
    by (auto simp: json_escape_def LF_def CR_def split: if_splits)
qed

lemma nat_text_plain: "c \<in> set (nat_text n) \<Longrightarrow> c \<noteq> LF \<and> c \<noteq> CR"
  using nat_text_digits [of c n] by (auto simp: is_digit_def LF_def CR_def)

lemma json_text_plain:
  "c \<in> set (json_text v) \<Longrightarrow> c \<noteq> LF \<and> c \<noteq> CR"
  "c \<in> set (json_items vs) \<Longrightarrow> c \<noteq> LF \<and> c \<noteq> CR"
  "c \<in> set (json_fields fs) \<Longrightarrow> c \<noteq> LF \<and> c \<noteq> CR"
  by (induction v and vs and fs rule: json_text_json_items_json_fields.induct)
     (auto simp: json_quote_def int_text_def LF_def CR_def
       dest: json_chars_plain [unfolded LF_def CR_def] nat_text_plain [unfolded LF_def CR_def] split: if_splits)

lemma json_text_no_break: "LF \<notin> set (json_text v)" "CR \<notin> set (json_text v)"
  using json_text_plain(1) by blast+

lemma js_join_two_empty: "ws \<noteq> [] \<Longrightarrow> js_join [LF] (ws @ [[], []]) = js_join [LF] ws @ [LF, LF]"
  by (induction ws rule: list_nonempty_induct) (simp_all add: js_join_Cons)

lemma split_lines_plain: "CR \<notin> set d \<Longrightarrow> split_lines d = js_split LF d"
proof -
  assume cr: "CR \<notin> set d"
  have sub: "set w \<subseteq> set d" if "w \<in> set (js_split LF d)" for w
    using that by (rule js_split_chars)
  have "chop_cr w = w" if "w \<in> set (js_split LF d)" for w
    using sub [OF that] cr last_in_set [of w] unfolding chop_cr_def by (metis subsetD)
  then have "map chop_cr (butlast (js_split LF d)) = butlast (js_split LF d)"
    by (intro map_idI) (auto dest: in_set_butlastD)
  then show ?thesis by (simp add: split_lines_def Let_def)
qed

lemma sse_read_data: "sse_read (map (\<lambda>l. ''data: '' @ l) ws @ [[], []]) = (None, ws)"
  by (induction ws) (simp_all add: field_value_def)

lemma sse_event_frame:
  assumes "CR \<notin> set d"
  shows "sse_event (sseDataFrame d includeId) = (if includeId then sseEventId d else None, d)"
proof -
  let ?ws = "js_split LF d"
  let ?data = "map (\<lambda>l. ''data: '' @ l) ?ws"
  have data: "js_split LF (js_join [LF] ?data @ [LF, LF]) = ?data @ [[], []]"
  proof -
    have "js_join [LF] (?data @ [[], []]) = js_join [LF] ?data @ [LF, LF]"
      by (rule js_join_two_empty) simp
    then show ?thesis
      using js_split_join [of "?data @ [[], []]" LF] js_split_no_sep [of _ LF d] by (auto simp: LF_def)
  qed
  have "sse_event (js_join [LF] ?data @ [LF, LF]) = (None, d)"
    unfolding sse_event_def data sse_read_data by simp
  moreover have "sse_event (''id: '' @ i @ LF # js_join [LF] ?data @ [LF, LF]) = (Some i, d)" if "LF \<notin> set i" for i
  proof -
    have "js_split LF (w @ LF # t) = w # js_split LF t" if "LF \<notin> set w" for w t
      using that by (induction w) auto
    moreover have "LF \<notin> set (''id: '' @ i)" using that by (simp add: LF_def)
    ultimately have e: "js_split LF (''id: '' @ i @ LF # js_join [LF] ?data @ [LF, LF]) = (''id: '' @ i) # ?data @ [[], []]"
      by (metis data append_assoc)
    have r: "sse_read ((''id: '' @ i) # ?data @ [[], []]) = (Some i, ?ws)"
      by (simp only: sse_read.simps(2) sse_read_data) (simp add: field_value_def)
    show ?thesis unfolding sse_event_def e r by simp
  qed
  moreover have "LF \<notin> set i" if "sseEventId d = Some i" for i
    using that by (auto simp: sseEventId_def safe_event_id_def list_all_iff split: option.splits json.splits if_splits)
  ultimately show ?thesis
    using assms by (auto simp: sseDataFrame_def split_lines_plain split: option.splits)
qed

text \<open>
  a browser reads from the frame of a JSON message exactly that message's text, and as event id
  exactly the message's own well-formed id, when ids are exposed at all.
\<close>

theorem sse_frame_roundtrip:
  "sse_event (sseDataFrame (json_text v) includeId) = (if includeId then sseEventId (json_text v) else None, json_text v)"
  by (rule sse_event_frame) (rule json_text_no_break)

section \<open>Only persisted events become cursors\<close>

lemma withSseId_plain: "CR \<notin> set (withSseId uuid (json_text v))"
  by (simp add: withSseId_def json_text_no_break del: json_text.simps split: option.splits json.splits)

text \<open>
  When a frame written for a message exposes an id, the same write persists exactly the text the
  browser reads, under that id; only clients of the runner that are still connected receive it.
\<close>

theorem cursor_is_durable:
  assumes "fst (sse_event (wr_frame (runnerWrite uuid i (json_text v) clients))) = Some cursor"
  shows "wr_append (runnerWrite uuid i (json_text v) clients)
      = Some (Some cursor, snd (sse_event (wr_frame (runnerWrite uuid i (json_text v) clients))))
    \<and> (\<forall>c \<in> set (wr_targets (runnerWrite uuid i (json_text v) clients)). c_runner c = i \<and> \<not> c_ended c \<and> \<not> c_destroyed c)"
proof -
  let ?e = "withSseId uuid (json_text v)"
  have f: "sse_event (sseDataFrame ?e b) = (if b then sseEventId ?e else None, ?e)" for b
    by (rule sse_event_frame) (rule withSseId_plain)
  have "replayable_event ?e" "sseEventId ?e = Some cursor"
    using assms by (simp_all add: runnerWrite_def Let_def f split: if_splits)
  moreover from this have "str_field (Option.bind (json_parse ?e) (\<lambda>v. js_get v ''_sseId'')) = Some cursor"
    by (auto simp: sseEventId_def split: option.splits json.splits if_splits)
  ultimately show ?thesis by (simp add: runnerWrite_def Let_def f)
qed

theorem cursor_is_durable_witness:
  "wr_append (runnerWrite ''u-1'' ''r-1'' (json_text (JObj [(''type'', JStr ''pi_started'')])) [])
     = Some (Some ''u-1'', json_text (JObj [(''type'', JStr ''pi_started''), (''_sseId'', JStr ''u-1'')]))"
proof -
  let ?v = "JObj [(''type'', JStr ''pi_started'')]"
  let ?w = "JObj [(''type'', JStr ''pi_started''), (''_sseId'', JStr ''u-1'')]"
  have "json_parse (json_text ?v) = Some ?v" and w: "json_parse (json_text ?w) = Some ?w"
    by (rule json_parse_text; simp)+
  then have e: "withSseId ''u-1'' (json_text ?v) = json_text ?w"
    by (simp add: withSseId_def del: json_text.simps)
  have l: "length (utf8_encode (json_text ?w)) = 36" by code_simp
  have "sseEventId (json_text ?w) = Some ''u-1''"
    by (simp add: sseEventId_def w safe_event_id_def safe_event_id_max_length_def CR_def LF_def del: json_text.simps)
  moreover have "replayable_event (json_text ?w)"
    by (simp add: replayable_event_def w l runner_event_max_bytes_def non_replayable_runner_events_def image_iff
        del: json_text.simps)
  ultimately have f: "sse_event (wr_frame (runnerWrite ''u-1'' ''r-1'' (json_text ?v) [])) = (Some ''u-1'', json_text ?w)"
    by (simp add: runnerWrite_def e sse_event_frame json_text_no_break Let_def del: json_text.simps)
  then have "fst (sse_event (wr_frame (runnerWrite ''u-1'' ''r-1'' (json_text ?v) []))) = Some ''u-1''" by simp
  from cursor_is_durable [OF this] f show ?thesis by (simp del: json_text.simps)
qed

section \<open>Reconnecting\<close>

text \<open>A persisted event with its id: as \<^const>\<open>runnerWrite\<close> stores it, and not a prompt.\<close>

definition durable_event :: "string \<times> string \<Rightarrow> bool" where
  "durable_event e \<longleftrightarrow> safe_event_id (fst e) \<and> length (utf8_encode (snd e)) \<le> runner_event_max_bytes
     \<and> (case json_parse (snd e) of
          Some (JObj fs) \<Rightarrow> map_of fs ''_sseId'' = Some (JStr (fst e))
            \<and> map_of fs ''type'' \<noteq> Some (JStr ''extension_ui_request'')
        | _ \<Rightarrow> False)"



lemma durable_event_message:
  "durable_event e \<Longrightarrow> \<exists>m. json_parse (snd e) = Some m \<and> js_get m ''_sseId'' = Some (JStr (fst e))
     \<and> truthy_json (Some (JStr (fst e))) \<and> still_pending pending (snd e)"
  by (auto simp: durable_event_def still_pending_def safe_event_id_def split: option.splits json.splits)

lemma disjoint_insert_mono: "S \<subseteq> insert x Q \<Longrightarrow> x \<notin> A \<Longrightarrow> A \<inter> Q = {} \<Longrightarrow> A \<inter> S = {}"
  by auto

lemma process_new:
  assumes "\<forall>e \<in> set evs. durable_event e" and "distinct (map fst evs)" and "dd_ok n d"
    and "JStr ` fst ` set evs \<inter> set (dd_queue d) = {}"
  shows "process_all n (map snd evs) d
    = (map (\<lambda>e. the (json_parse (snd e))) evs, fold (remember n) (map (\<lambda>e. JStr (fst e)) evs) d)"
  using assms
proof (induction evs arbitrary: d)
  case (Cons e evs)
  obtain m where m: "json_parse (snd e) = Some m" "js_get m ''_sseId'' = Some (JStr (fst e))" "truthy_json (Some (JStr (fst e)))"
    using durable_event_message [of e] Cons.prems(1) by auto
  have new: "JStr (fst e) \<notin> set (dd_queue d)" using Cons.prems(4) by auto
  then have out: "JStr (fst e) \<notin> set (dd_ids d)" using Cons.prems(3) by (simp add: dd_ok_def)
  have "dd_queue (remember n (JStr (fst e)) d) = drop (Suc (length (dd_queue d)) - n) (dd_queue d @ [JStr (fst e)])"
    using dd.push_new [OF Cons.prems(3)] new by simp
  then have sub: "set (dd_queue (remember n (JStr (fst e)) d)) \<subseteq> insert (JStr (fst e)) (set (dd_queue d))"
    using set_drop_subset [of _ "dd_queue d @ [JStr (fst e)]"] by (auto simp del: drop_append)
  have "JStr (fst e) \<notin> JStr ` fst ` set evs" using Cons.prems(2) by auto
  moreover have "JStr ` fst ` set evs \<inter> set (dd_queue d) = {}" using Cons.prems(4) by simp
  ultimately have dis: "JStr ` fst ` set evs \<inter> set (dd_queue (remember n (JStr (fst e)) d)) = {}"
    by (rule disjoint_insert_mono [OF sub])
  have "process_all n (map snd evs) (remember n (JStr (fst e)) d)
      = (map (\<lambda>e. the (json_parse (snd e))) evs, fold (remember n) (map (\<lambda>e. JStr (fst e)) evs) (remember n (JStr (fst e)) d))"
    using Cons.prems(1-3) by (intro Cons.IH dd.ok_push dis) simp_all
  then show ?case
    using m out by (simp add: processEventMessage_def dedupe_remember)
qed simp

lemma process_known:
  assumes "\<forall>e \<in> set evs. durable_event e" and "\<forall>e \<in> set evs. JStr (fst e) \<in> set (dd_ids d)"
  shows "process_all n (map snd evs) d = ([], d)"
  using assms
proof (induction evs)
  case (Cons e evs)
  obtain m where m: "json_parse (snd e) = Some m" "js_get m ''_sseId'' = Some (JStr (fst e))" "truthy_json (Some (JStr (fst e)))"
    using durable_event_message [of e] Cons.prems(1) by auto
  with Cons show ?case by (simp add: processEventMessage_def dedupe_remember remember_def)
qed simp







text \<open>
  events the browser already processed are not dispatched again, whatever part of them is sent
  again and in whatever order, as long as it processed at most 2000 with ids.
\<close>

theorem resent_events_ignored:
  assumes "\<forall>e \<in> set evs. durable_event e" and "distinct (map fst evs)" and "length evs \<le> max_dedupe_ids"
    and "set again \<subseteq> set evs"
  shows "fst (process_all max_dedupe_ids (map snd again) (snd (process_all max_dedupe_ids (map snd evs) empty_deduper))) = []"
proof -
  have e: "dd_ok max_dedupe_ids empty_deduper" by (simp add: dd_ok_def empty_deduper_def)
  let ?b = "fold (remember max_dedupe_ids) (map (\<lambda>e. JStr (fst e)) evs) empty_deduper"
  have b: "snd (process_all max_dedupe_ids (map snd evs) empty_deduper) = ?b"
    using process_new [OF assms(1,2) e] by (simp add: empty_deduper_def)
  have "distinct (map (\<lambda>e. JStr (fst e)) evs)" using assms(2) by (simp add: distinct_map inj_on_def)
  then have "dd_queue ?b = map (\<lambda>e. JStr (fst e)) evs"
    using dd.new_fold [OF e, of "map (\<lambda>e. JStr (fst e)) evs"] assms(3) by (simp add: empty_deduper_def)
  moreover have "dd_ok max_dedupe_ids ?b" by (rule dd.ok_fold [OF e])
  ultimately have ids: "set (dd_ids ?b) = JStr ` fst ` set evs" by (auto simp: dd_ok_def)
  have "JStr (fst e) \<in> set (dd_ids ?b)" "durable_event e" if "e \<in> set again" for e
    using ids that assms(1,4) by blast+
  then have "process_all max_dedupe_ids (map snd again) ?b = ([], ?b)" by (intro process_known) blast+
  then show ?thesis using b assms(4) by simp
qed

section \<open>Witnesses\<close>

definition ex_message :: "string \<Rightarrow> json" where
  "ex_message i = JObj [(''type'', JStr ''message_end''), (''_sseId'', JStr i)]"

definition ex_events :: "(string \<times> string) list" where
  "ex_events = map (\<lambda>i. (i, json_text (ex_message i))) [''a'', ''b'', ''c'']"

lemma ex_parse: "json_parse (json_text (ex_message i)) = Some (ex_message i)"
  by (rule json_parse_text) (simp add: ex_message_def)

lemma ex_length: "list_all (\<lambda>i. length (utf8_encode (json_text (ex_message i))) = 35) [''a'', ''b'', ''c'']"
  by code_simp

lemma ex_durable: "\<forall>e \<in> set ex_events. durable_event e"
  using ex_length by (simp add: ex_events_def durable_event_def ex_parse safe_event_id_def safe_event_id_max_length_def
      CR_def LF_def runner_event_max_bytes_def) (simp add: ex_message_def)

lemma ex_distinct: "distinct (map fst ex_events)"
  by (simp add: ex_events_def)


theorem resent_events_ignored_witness:
  "fst (process_all max_dedupe_ids (map snd (rev ex_events)) (snd (process_all max_dedupe_ids (map snd ex_events) empty_deduper))) = []"
  by (rule resent_events_ignored [OF ex_durable ex_distinct]) (simp_all add: ex_events_def max_dedupe_ids_def)

end
