(* ===== verification/Pinned_Widgets.thy ===== *)
theory Pinned_Widgets
  imports Runner_Model "HOL-Library.Multiset"
begin

text \<open>
  Pinned widgets and their groups (\<^verbatim>\<open>server/pinned-widgets.mjs\<close> with the \<^verbatim>\<open>pinnedWidgets\<close>
  repository of \<^verbatim>\<open>server/persistence/appStore.mjs\<close>): the two tables, scopes, placement, and the
  routes that change them.  A table is the list of its rows, unique by id.  Timestamps are left out.
  \<open>rank\<close> is the collation rank \<^verbatim>\<open>localeCompare\<close> gives an id; \<open>owner_of\<close> is
  \<^verbatim>\<open>ensureSessionOwner\<close>, the owner row of a known session.
\<close>

section \<open>Rows, errors, request values\<close>

datatype scope = SessionScope | WorkspaceScope

record widget =
  pw_id :: string
  pw_owner :: "int option"
  pw_scope :: scope
  pw_group :: "string option"
  pw_kind :: string
  pw_label :: string
  pw_position :: nat
  pw_target :: "string option"
  pw_hublot :: "string option"
  pw_mime :: "string option"

record widget_group =
  pg_id :: string
  pg_owner :: "int option"
  pg_scope :: scope
  pg_name :: string
  pg_position :: nat

datatype pin_event =
    WidgetCreated string
  | WidgetUpdated string
  | WidgetDeleted string
  | GroupUpdated string
  | GroupDeleted string "string list"

record pins =
  pt_widgets :: "widget list"
  pt_groups :: "widget_group list"
  pt_events :: "pin_event list"

text \<open>An error: its \<^verbatim>\<open>statusCode\<close> if it has one, whether SQLite raised it for a constraint, its message.\<close>

record http_error =
  he_status :: "int option"
  he_constraint :: bool
  he_message :: string

definition http_error :: "int \<Rightarrow> string \<Rightarrow> http_error" where
  "http_error status message = \<lparr>he_status = Some status, he_constraint = False, he_message = message\<rparr>"

definition constraint_error :: http_error where
  "constraint_error = \<lparr>he_status = None, he_constraint = True, he_message = ''SQLITE_CONSTRAINT''\<rparr>"

definition no_widget_error :: http_error where
  "no_widget_error = http_error 404 ''no such pinned widget''"

definition no_group_error :: http_error where
  "no_group_error = http_error 404 ''no such pinned widget group''"

definition builtin_error :: http_error where
  "builtin_error = http_error 409 ''built-in widgets cannot be unpinned''"

text \<open>\<^verbatim>\<open>sendError\<close>: the status and the message of the response.\<close>

definition sendError :: "http_error \<Rightarrow> int \<times> string" where
  "sendError e =
     (let status =
        (case he_status e of
           Some n \<Rightarrow> if 400 \<le> n \<and> n \<le> 599 then n else if he_constraint e then 409 else 500
         | None \<Rightarrow> if he_constraint e then 409 else 500)
      in (status,
          if status = 500 then ''internal server error''
          else if he_constraint e \<and> he_status e = None then ''request conflicts with existing pinned widget state''
          else if he_message e = [] then ''request failed'' else he_message e))"

text \<open>\<^verbatim>\<open>String(value)\<close>.\<close>

fun js_string :: "json \<Rightarrow> string" where
  "js_string JNull = ''null''"
| "js_string (JBool b) = (if b then ''true'' else ''false'')"
| "js_string (JNum n) = int_text n"
| "js_string (JStr s) = s"
| "js_string (JArr vs) = js_join '','' (map (\<lambda>v. if v = JNull then [] else js_string v) vs)"
| "js_string (JObj m) = ''[object Object]''"

definition js_string_opt :: "json option \<Rightarrow> string" where
  "js_string_opt v = (case v of None \<Rightarrow> ''undefined'' | Some j \<Rightarrow> js_string j)"

definition nullish :: "json option \<Rightarrow> bool" where
  "nullish v \<longleftrightarrow> v = None \<or> v = Some JNull"

definition session_id_max_chars :: nat where "session_id_max_chars = 100"
definition label_max_chars :: nat where "label_max_chars = 200"
definition group_name_max_chars :: nat where "group_name_max_chars = 80"

section \<open>Scopes\<close>

record identity =
  id_scope :: scope
  id_owner :: "int option"

definition workspace_identity :: identity where
  "workspace_identity = \<lparr>id_scope = WorkspaceScope, id_owner = None\<rparr>"

definition scopeIdentity :: "(string \<Rightarrow> int option) \<Rightarrow> json \<Rightarrow> http_error + identity" where
  "scopeIdentity owner_of body =
     (let rawScope = js_get body ''scope'' in
      if rawScope \<notin> {None, Some (JStr ''session''), Some (JStr ''workspace'')}
        then Inl (http_error 400 ''pinned widget scope must be session or workspace'')
      else if rawScope = Some (JStr ''workspace'') then Inr workspace_identity
      else
        (let sessionId = (if nullish (js_get body ''sessionId'') then []
                          else js_trim (js_string_opt (js_get body ''sessionId'')))
         in if sessionId = [] then
              (if rawScope = Some (JStr ''session'')
               then Inl (http_error 400 ''sessionId is required for session-scoped pinned widgets'')
               else Inr workspace_identity)
            else if length sessionId > session_id_max_chars then Inl (http_error 400 ''sessionId is too long'')
            else (case owner_of sessionId of
                    None \<Rightarrow> Inl (http_error 404 ''unknown session for pinned widget'')
                  | Some owner \<Rightarrow> Inr \<lparr>id_scope = SessionScope, id_owner = Some owner\<rparr>)))"

text \<open>
  \<open>session_of\<close> joins the session id of an owner row; the requested scope is \<^verbatim>\<open>all\<close>,
  \<^verbatim>\<open>workspace\<close> or (anything else) \<^verbatim>\<open>session\<close>.
\<close>

datatype view = ViewAll | ViewWorkspace | ViewSession

definition rowVisible :: "(int \<Rightarrow> string option) \<Rightarrow> scope \<Rightarrow> int option \<Rightarrow> string option \<Rightarrow> view \<Rightarrow> bool" where
  "rowVisible session_of row_scope row_owner sessionId view =
     (case view of
        ViewAll \<Rightarrow> True
      | ViewWorkspace \<Rightarrow> row_scope = WorkspaceScope
      | ViewSession \<Rightarrow> row_scope = WorkspaceScope
          \<or> (truthy sessionId \<and> Option.bind row_owner session_of = sessionId))"

definition listPinnedWidgets ::
  "(int \<Rightarrow> string option) \<Rightarrow> string option \<Rightarrow> view \<Rightarrow> pins \<Rightarrow> widget list \<times> widget_group list" where
  "listPinnedWidgets session_of sessionId view s =
     (filter (\<lambda>w. rowVisible session_of (pw_scope w) (pw_owner w) sessionId view) (pt_widgets s),
      filter (\<lambda>g. rowVisible session_of (pg_scope g) (pg_owner g) sessionId view) (pt_groups s))"

section \<open>The repository\<close>

definition find_widget :: "pins \<Rightarrow> string \<Rightarrow> widget option" where
  "find_widget s i = find (\<lambda>w. pw_id w = i) (pt_widgets s)"

definition find_group :: "pins \<Rightarrow> string \<Rightarrow> widget_group option" where
  "find_group s i = find (\<lambda>g. pg_id g = i) (pt_groups s)"

definition in_container :: "identity \<Rightarrow> string option \<Rightarrow> widget \<Rightarrow> bool" where
  "in_container identity grp w \<longleftrightarrow>
     pw_scope w = id_scope identity \<and> pw_owner w = id_owner identity \<and> pw_group w = grp"

definition container :: "pins \<Rightarrow> identity \<Rightarrow> string option \<Rightarrow> widget list" where
  "container s identity grp = filter (in_container identity grp) (pt_widgets s)"

definition group_container :: "pins \<Rightarrow> identity \<Rightarrow> widget_group list" where
  "group_container s identity =
     filter (\<lambda>g. pg_scope g = id_scope identity \<and> pg_owner g = id_owner identity) (pt_groups s)"

definition update_widget :: "string \<Rightarrow> (widget \<Rightarrow> widget) \<Rightarrow> pins \<Rightarrow> pins" where
  "update_widget i f s = s\<lparr>pt_widgets := map (\<lambda>w. if pw_id w = i then f w else w) (pt_widgets s)\<rparr>"

definition update_group :: "string \<Rightarrow> (widget_group \<Rightarrow> widget_group) \<Rightarrow> pins \<Rightarrow> pins" where
  "update_group i f s = s\<lparr>pt_groups := map (\<lambda>g. if pg_id g = i then f g else g) (pt_groups s)\<rparr>"

definition delete_widget :: "string \<Rightarrow> pins \<Rightarrow> pins" where
  "delete_widget i s = s\<lparr>pt_widgets := filter (\<lambda>w. pw_id w \<noteq> i) (pt_widgets s)\<rparr>"

text \<open>The foreign key of a widget's group is \<^verbatim>\<open>ON DELETE SET NULL\<close>.\<close>

definition delete_group :: "string \<Rightarrow> pins \<Rightarrow> pins" where
  "delete_group i s = s\<lparr>pt_groups := filter (\<lambda>g. pg_id g \<noteq> i) (pt_groups s),
     pt_widgets := map (\<lambda>w. if pw_group w = Some i then w\<lparr>pw_group := None\<rparr> else w) (pt_widgets s)\<rparr>"

definition next_of :: "nat list \<Rightarrow> nat" where
  "next_of ps = (if ps = [] then 0 else Suc (fold max ps 0))"

definition nextPosition :: "pins \<Rightarrow> identity \<Rightarrow> string option \<Rightarrow> nat" where
  "nextPosition s identity grp = next_of (map pw_position (container s identity grp))"

definition nextGroupPosition :: "pins \<Rightarrow> identity \<Rightarrow> nat" where
  "nextGroupPosition s identity = next_of (map pg_position (group_container s identity))"

definition create_widget :: "widget \<Rightarrow> pins \<Rightarrow> http_error + pins" where
  "create_widget w s =
     (if pw_id w \<in> pw_id ` set (pt_widgets s) \<or> (pw_hublot w \<noteq> None \<and> pw_hublot w \<in> pw_hublot ` set (pt_widgets s))
         \<or> (pw_group w \<noteq> None \<and> the (pw_group w) \<notin> pg_id ` set (pt_groups s))
      then Inl constraint_error else Inr (s\<lparr>pt_widgets := pt_widgets s @ [w]\<rparr>))"

definition create_group :: "widget_group \<Rightarrow> pins \<Rightarrow> http_error + pins" where
  "create_group g s =
     (if pg_id g \<in> pg_id ` set (pt_groups s) then Inl constraint_error
      else Inr (s\<lparr>pt_groups := pt_groups s @ [g]\<rparr>))"

definition emit_pin :: "pin_event \<Rightarrow> pins \<Rightarrow> pins" where
  "emit_pin e s = s\<lparr>pt_events := pt_events s @ [e]\<rparr>"

section \<open>Labels, groups, placement\<close>

definition normalizeLabel :: "json option \<Rightarrow> string option \<Rightarrow> http_error + string" where
  "normalizeLabel value fallback =
     (let label = take label_max_chars (js_trim
        (if \<not> nullish value then js_string_opt value else case fallback of Some f \<Rightarrow> f | None \<Rightarrow> []))
      in if label = [] then Inl (http_error 400 ''widget label is required'') else Inr label)"

definition assertGroup :: "pins \<Rightarrow> string option \<Rightarrow> identity \<Rightarrow> http_error + unit" where
  "assertGroup s groupId identity =
     (if \<not> truthy groupId then Inr ()
      else (case find_group s (the groupId) of
              None \<Rightarrow> Inl no_group_error
            | Some g \<Rightarrow>
                if pg_scope g \<noteq> id_scope identity \<or> pg_owner g \<noteq> id_owner identity
                then Inl (http_error 409 ''widget and group scopes do not match'') else Inr ()))"

definition by_position :: "(string \<Rightarrow> nat) \<Rightarrow> widget list \<Rightarrow> widget list" where
  "by_position rank ws = sort_key pw_position (sort_key (\<lambda>w. rank (pw_id w)) ws)"

fun renumber :: "nat \<Rightarrow> widget list \<Rightarrow> pins \<Rightarrow> pins" where
  "renumber n [] s = s"
| "renumber n (w # ws) s =
     renumber (Suc n) ws (if pw_position w \<noteq> n then update_widget (pw_id w) (\<lambda>w. w\<lparr>pw_position := n\<rparr>) s else s)"

definition normalizeContainer :: "(string \<Rightarrow> nat) \<Rightarrow> identity \<Rightarrow> string option \<Rightarrow> pins \<Rightarrow> pins" where
  "normalizeContainer rank identity groupId s =
     renumber 0 (by_position rank (container s identity groupId)) s"

definition groups_by_position :: "(string \<Rightarrow> nat) \<Rightarrow> widget_group list \<Rightarrow> widget_group list" where
  "groups_by_position rank gs = sort_key pg_position (sort_key (\<lambda>g. rank (pg_id g)) gs)"

fun renumber_groups :: "nat \<Rightarrow> widget_group list \<Rightarrow> pins \<Rightarrow> pins" where
  "renumber_groups n [] s = s"
| "renumber_groups n (g # gs) s =
     renumber_groups (Suc n) gs
       (if pg_position g \<noteq> n then update_group (pg_id g) (\<lambda>g. g\<lparr>pg_position := n\<rparr>) s else s)"

definition normalizeGroupContainer :: "(string \<Rightarrow> nat) \<Rightarrow> identity \<Rightarrow> pins \<Rightarrow> pins" where
  "normalizeGroupContainer rank identity s =
     renumber_groups 0 (groups_by_position rank (group_container s identity)) s"

text \<open>\<open>place\<close> writes the position of every sibling, and the new container into the moved row.\<close>

fun place :: "identity \<Rightarrow> string option \<Rightarrow> string \<Rightarrow> nat \<Rightarrow> widget list \<Rightarrow> pins \<Rightarrow> pins" where
  "place identity grp moved n [] s = s"
| "place identity grp moved n (w # ws) s =
     place identity grp moved (Suc n) ws
       (update_widget (pw_id w)
          (\<lambda>x. if pw_id w = moved
               then x\<lparr>pw_position := n, pw_owner := id_owner identity, pw_scope := id_scope identity, pw_group := grp\<rparr>
               else x\<lparr>pw_position := n\<rparr>) s)"

definition identity_of :: "widget \<Rightarrow> identity" where
  "identity_of w = \<lparr>id_scope = pw_scope w, id_owner = pw_owner w\<rparr>"

text \<open>\<^verbatim>\<open>findIndex\<close> by a key.\<close>

fun index_by :: "('r \<Rightarrow> 'k) \<Rightarrow> 'k \<Rightarrow> 'r list \<Rightarrow> nat option" where
  "index_by f i [] = None"
| "index_by f i (w # ws) = (if f w = i then Some 0 else map_option Suc (index_by f i ws))"

definition insert_at :: "nat \<Rightarrow> 'a \<Rightarrow> 'a list \<Rightarrow> 'a list" where
  "insert_at k x xs = take k xs @ [x] @ drop k xs"

text \<open>
  \<^verbatim>\<open>reorderWidget\<close>: \<open>groupId\<close> is \<^term>\<open>None\<close> when absent and \<^term>\<open>Some g\<close> for a requested group,
  itself nullable.
\<close>

definition next_group :: "widget \<Rightarrow> string option option \<Rightarrow> bool \<Rightarrow> string option" where
  "next_group row groupId scopeChanged =
     (case groupId of
        None \<Rightarrow> if scopeChanged then None else pw_group row
      | Some g \<Rightarrow> if truthy g then g else None)"

definition reorderWidget ::
  "(string \<Rightarrow> nat) \<Rightarrow> widget \<Rightarrow> string option option \<Rightarrow> string option \<Rightarrow> identity option \<Rightarrow> pins \<Rightarrow> http_error + pins" where
  "reorderWidget rank row groupId beforeId identity s =
     (let oldIdentity = identity_of row;
          nextIdentity = (case identity of None \<Rightarrow> oldIdentity | Some x \<Rightarrow> x);
          scopeChanged = (nextIdentity \<noteq> oldIdentity);
          nextGroupId = next_group row groupId scopeChanged;
          oldGroupId = pw_group row
      in case assertGroup s nextGroupId nextIdentity of
           Inl e \<Rightarrow> Inl e
         | Inr _ \<Rightarrow>
             if \<not> scopeChanged \<and> beforeId = Some (pw_id row) \<and> nextGroupId = oldGroupId then Inr s
             else
               (let siblings = by_position rank (filter (\<lambda>w. pw_id w \<noteq> pw_id row) (container s nextIdentity nextGroupId))
                in case (if truthy beforeId then index_by pw_id (the beforeId) siblings else Some (length siblings)) of
                     None \<Rightarrow> Inl (http_error 409 ''reorder target is not in the destination group'')
                   | Some k \<Rightarrow>
                       (let s1 = place nextIdentity nextGroupId (pw_id row) 0 (insert_at k row siblings) s
                        in Inr (if scopeChanged \<or> oldGroupId \<noteq> nextGroupId
                                then normalizeContainer rank oldIdentity oldGroupId s1 else s1))))"

section \<open>Live interfaces\<close>

record hublot =
  hb_id :: string
  hb_owner :: "int option"
  hb_label :: string

definition hublot_identity :: "hublot \<Rightarrow> identity" where
  "hublot_identity h = \<lparr>id_scope = (if hb_owner h = None then WorkspaceScope else SessionScope), id_owner = hb_owner h\<rparr>"

definition ensurePinnedHublot :: "(string \<Rightarrow> nat) \<Rightarrow> hublot \<Rightarrow> pins \<Rightarrow> http_error + pins" where
  "ensurePinnedHublot rank h s =
     (let identity = hublot_identity h in
      case find (\<lambda>w. pw_hublot w = Some (hb_id h)) (pt_widgets s) of
        Some existing \<Rightarrow>
          if pw_owner existing \<noteq> hb_owner h \<or> pw_scope existing \<noteq> id_scope identity
          then Inr (normalizeContainer rank (identity_of existing) (pw_group existing)
                 (update_widget (pw_id existing)
                    (\<lambda>w. w\<lparr>pw_owner := id_owner identity, pw_scope := id_scope identity, pw_group := None,
                           pw_position := nextPosition s identity None\<rparr>) s))
          else Inr s
      | None \<Rightarrow>
          create_widget \<lparr>pw_id = ''hublot:'' @ hb_id h, pw_owner = hb_owner h, pw_scope = id_scope identity,
            pw_group = None, pw_kind = ''live_interface'',
            pw_label = take label_max_chars (js_trim (if hb_label h = [] then ''Live interface'' else hb_label h)),
            pw_position = nextPosition s identity None, pw_target = None, pw_hublot = Some (hb_id h), pw_mime = None\<rparr> s)"

section \<open>The routes that change the tables\<close>

record materialized =
  mt_kind :: string
  mt_target :: string
  mt_mime :: "string option"
  mt_fallback :: string

definition findDuplicatePinnedWidget :: "pins \<Rightarrow> identity \<Rightarrow> materialized \<Rightarrow> widget option" where
  "findDuplicatePinnedWidget s identity m =
     find (\<lambda>w. pw_scope w = id_scope identity \<and> pw_owner w = id_owner identity
             \<and> pw_kind w = mt_kind m \<and> pw_target w = Some (mt_target m)) (pt_widgets s)"

definition opt_string :: "json option \<Rightarrow> string option" where
  "opt_string v = (if truthy_json v then Some (js_string_opt v) else None)"

definition createPinnedWidgetRecord ::
  "pins \<Rightarrow> identity \<Rightarrow> materialized \<Rightarrow> json \<Rightarrow> string \<Rightarrow> http_error + pins" where
  "createPinnedWidgetRecord s identity m body widgetId =
     (let groupId = opt_string (js_get body ''groupId'') in
      case assertGroup s groupId identity of
        Inl e \<Rightarrow> Inl e
      | Inr _ \<Rightarrow>
          (case normalizeLabel (js_get body ''label'') (Some (mt_fallback m)) of
             Inl e \<Rightarrow> Inl e
           | Inr label \<Rightarrow>
               create_widget \<lparr>pw_id = widgetId, pw_owner = id_owner identity, pw_scope = id_scope identity,
                 pw_group = groupId, pw_kind = mt_kind m, pw_label = label,
                 pw_position = nextPosition s identity groupId, pw_target = Some (mt_target m),
                 pw_hublot = None, pw_mime = mt_mime m\<rparr> s))"

text \<open>
  \<^verbatim>\<open>POST /pinned-widgets\<close>: \<open>materialize\<close> turns the body into a target or an existing live
  interface; the result has the id of the widget the response shows.
\<close>

definition post_widget ::
  "(string \<Rightarrow> nat) \<Rightarrow> (string \<Rightarrow> int option) \<Rightarrow> (json \<Rightarrow> http_error + materialized + hublot) \<Rightarrow> json \<Rightarrow> string \<Rightarrow> pins
   \<Rightarrow> http_error + string \<times> pins" where
  "post_widget rank owner_of materialize body widgetId s =
     (case scopeIdentity owner_of body of
        Inl e \<Rightarrow> Inl e
      | Inr identity \<Rightarrow>
          (case materialize body of
             Inl e \<Rightarrow> Inl e
           | Inr (Inr h) \<Rightarrow>
               (case ensurePinnedHublot rank h s of
                  Inl e \<Rightarrow> Inl e
                | Inr s' \<Rightarrow> Inr (case find (\<lambda>w. pw_hublot w = Some (hb_id h)) (pt_widgets s') of
                    Some w \<Rightarrow> pw_id w | None \<Rightarrow> [], s'))
           | Inr (Inl m) \<Rightarrow>
               (case findDuplicatePinnedWidget s identity m of
                  Some w \<Rightarrow> Inr (pw_id w, s)
                | None \<Rightarrow>
                    (case createPinnedWidgetRecord s identity m body widgetId of
                       Inl e \<Rightarrow> Inl e
                     | Inr s' \<Rightarrow> Inr (widgetId, emit_pin (WidgetCreated widgetId) s')))))"

definition scope_text :: "scope \<Rightarrow> string" where
  "scope_text sc = (case sc of SessionScope \<Rightarrow> ''session'' | WorkspaceScope \<Rightarrow> ''workspace'')"

definition patch_label :: "string option \<Rightarrow> string \<Rightarrow> pins \<Rightarrow> pins" where
  "patch_label label i s = (case label of None \<Rightarrow> s | Some l \<Rightarrow> update_widget i (\<lambda>w. w\<lparr>pw_label := l\<rparr>) s)"

definition patchPinnedWidget :: "(string \<Rightarrow> nat) \<Rightarrow> (string \<Rightarrow> int option) \<Rightarrow> json \<Rightarrow> pins \<Rightarrow> http_error + pins" where
  "patchPinnedWidget rank owner_of body s =
     (case find_widget s (if nullish (js_get body ''id'') then [] else js_string_opt (js_get body ''id'')) of
        None \<Rightarrow> Inl no_widget_error
      | Some row \<Rightarrow>
          (case (if js_get body ''label'' = None then Inr None
                 else map_sum id Some (normalizeLabel (js_get body ''label'') None)) of
             Inl e \<Rightarrow> Inl e
           | Inr label \<Rightarrow>
               map_sum id (patch_label label (pw_id row))
               (if js_get body ''groupId'' = None \<and> js_get body ''beforeId'' = None \<and> js_get body ''scope'' = None then Inr s
                else if pw_kind row = ''builtin'' \<and> js_get body ''scope'' \<noteq> None
                     \<and> js_get body ''scope'' \<noteq> Some (JStr (scope_text (pw_scope row)))
                then Inl (http_error 409 ''built-in widgets cannot change scope'')
                else
                  (case (if js_get body ''scope'' = None then Inr None else map_sum id Some (scopeIdentity owner_of body)) of
                     Inl e \<Rightarrow> Inl e
                   | Inr identity \<Rightarrow>
                       reorderWidget rank row
                         (if js_get body ''groupId'' = None then None else Some (opt_string (js_get body ''groupId'')))
                         (opt_string (js_get body ''beforeId'')) identity s))))"

definition patch_widget_route :: "(string \<Rightarrow> nat) \<Rightarrow> (string \<Rightarrow> int option) \<Rightarrow> json \<Rightarrow> pins \<Rightarrow> http_error + pins" where
  "patch_widget_route rank owner_of body s =
     map_sum id (emit_pin (WidgetUpdated (js_string_opt (js_get body ''id'')))) (patchPinnedWidget rank owner_of body s)"

definition delete_widget_route :: "(string \<Rightarrow> nat) \<Rightarrow> string \<Rightarrow> pins \<Rightarrow> http_error + pins" where
  "delete_widget_route rank widgetId s =
     (case find_widget s widgetId of
        None \<Rightarrow> Inl no_widget_error
      | Some row \<Rightarrow>
          if pw_kind row = ''builtin'' then Inl builtin_error
          else Inr (emit_pin (WidgetDeleted widgetId)
                 (normalizeContainer rank (identity_of row) (pw_group row) (delete_widget widgetId s))))"

definition post_group :: "(string \<Rightarrow> int option) \<Rightarrow> json \<Rightarrow> string \<Rightarrow> pins \<Rightarrow> http_error + pins" where
  "post_group owner_of body groupId s =
     (case scopeIdentity owner_of body of
        Inl e \<Rightarrow> Inl e
      | Inr identity \<Rightarrow>
          (case normalizeLabel (js_get body ''name'') None of
             Inl e \<Rightarrow> Inl e
           | Inr name \<Rightarrow>
               map_sum id (emit_pin (GroupUpdated groupId))
                 (create_group \<lparr>pg_id = groupId, pg_owner = id_owner identity, pg_scope = id_scope identity,
                    pg_name = take group_name_max_chars name, pg_position = nextGroupPosition s identity\<rparr> s)))"

definition group_identity :: "widget_group \<Rightarrow> identity" where
  "group_identity g = \<lparr>id_scope = pg_scope g, id_owner = pg_owner g\<rparr>"

definition move_group :: "(string \<Rightarrow> nat) \<Rightarrow> widget_group \<Rightarrow> identity \<Rightarrow> pins \<Rightarrow> pins" where
  "move_group rank g identity s =
     (let s1 = update_group (pg_id g)
            (\<lambda>x. x\<lparr>pg_owner := id_owner identity, pg_scope := id_scope identity, pg_position := nextGroupPosition s identity\<rparr>) s;
          s2 = s1\<lparr>pt_widgets := map (\<lambda>w. if pw_group w = Some (pg_id g)
                 then w\<lparr>pw_owner := id_owner identity, pw_scope := id_scope identity\<rparr> else w) (pt_widgets s1)\<rparr>
      in normalizeGroupContainer rank (group_identity g) s2)"

text \<open>A rejected name rolls the transaction back, so it is checked first.\<close>

definition patch_group :: "(string \<Rightarrow> nat) \<Rightarrow> (string \<Rightarrow> int option) \<Rightarrow> json \<Rightarrow> pins \<Rightarrow> http_error + pins" where
  "patch_group rank owner_of body s =
     (case find_group s (if nullish (js_get body ''id'') then [] else js_string_opt (js_get body ''id'')) of
        None \<Rightarrow> Inl no_group_error
      | Some g \<Rightarrow>
          (case (if js_get body ''scope'' = None then Inr (group_identity g) else scopeIdentity owner_of body) of
             Inl e \<Rightarrow> Inl e
           | Inr identity \<Rightarrow>
               (case (if js_get body ''name'' = None then Inr None
                      else map_sum id Some (normalizeLabel (js_get body ''name'') None)) of
                  Inl e \<Rightarrow> Inl e
                | Inr name \<Rightarrow>
                    (let s1 = (if identity \<noteq> group_identity g then move_group rank g identity s else s);
                         s2 = (case name of None \<Rightarrow> s1
                               | Some n \<Rightarrow> update_group (pg_id g) (\<lambda>x. x\<lparr>pg_name := take group_name_max_chars n\<rparr>) s1)
                     in Inr (emit_pin (GroupUpdated (pg_id g)) s2)))))"

definition delete_group_route :: "(string \<Rightarrow> nat) \<Rightarrow> string \<Rightarrow> bool \<Rightarrow> bool \<Rightarrow> pins \<Rightarrow> http_error + pins" where
  "delete_group_route rank groupId ungroup deleteWidgets s =
     (case find_group s groupId of
        None \<Rightarrow> Inl no_group_error
      | Some g \<Rightarrow>
          (let children = filter (\<lambda>w. pw_group w = Some groupId) (pt_widgets s) in
           if deleteWidgets \<and> (\<exists>w \<in> set children. pw_kind w = ''builtin'') then Inl builtin_error
           else if children \<noteq> [] \<and> \<not> ungroup \<and> \<not> deleteWidgets
             then Inl (http_error 409 ''group is not empty; request ungroup=1 to keep its widgets or deleteWidgets=1 to remove them'')
           else
             (let s1 = (if deleteWidgets
                        then fold delete_widget (map pw_id children) s
                        else fold (\<lambda>i. update_widget i (\<lambda>w. w\<lparr>pw_group := None\<rparr>)) (map pw_id children) s)
              in Inr (emit_pin (GroupDeleted groupId (if deleteWidgets then map pw_id children else []))
                   (normalizeContainer rank (group_identity g) None (delete_group groupId s1))))))"

end
