(* ===== verification/Pinned_Invariant.thy ===== *)
theory Pinned_Invariant
  imports Pinned_Widgets
begin

text \<open>
  The invariant of the pinned-widget tables and what each operation does to it.  Renumbering and
  placing are both maps over the rows; \<open>core\<close> forgets the position, the only column they share.
\<close>

section \<open>The invariant\<close>

definition positions_ok :: "nat list \<Rightarrow> bool" where
  "positions_ok ps \<longleftrightarrow> mset ps = mset [0..<length ps]"

definition core :: "widget \<Rightarrow> widget" where "core w = w\<lparr>pw_position := 0\<rparr>"
definition group_core :: "widget_group \<Rightarrow> widget_group" where "group_core g = g\<lparr>pg_position := 0\<rparr>"

definition scope_ok :: "scope \<Rightarrow> int option \<Rightarrow> bool" where
  "scope_ok sc owner \<longleftrightarrow> (sc = WorkspaceScope \<longleftrightarrow> owner = None)"

text \<open>A group is one level deep and holds widgets of its own scope only.\<close>

definition group_member :: "widget_group list \<Rightarrow> widget \<Rightarrow> bool" where
  "group_member gs w \<longleftrightarrow> (\<forall>g. pw_group w = Some g \<longrightarrow>
     (\<exists>x \<in> set gs. pg_id x = g \<and> pg_scope x = pw_scope w \<and> pg_owner x = pw_owner w))"

definition rows_inv :: "widget list \<Rightarrow> widget_group list \<Rightarrow> bool" where
  "rows_inv ws gs \<longleftrightarrow> distinct (map pw_id ws) \<and> distinct (map pg_id gs)
     \<and> (\<forall>w \<in> set ws. scope_ok (pw_scope w) (pw_owner w) \<and> group_member gs w)
     \<and> (\<forall>g \<in> set gs. scope_ok (pg_scope g) (pg_owner g) \<and> pg_id g \<noteq> [])"

text \<open>
  Widgets of a container are numbered without gaps.  Groups of a scope have different positions only:
  deleting a group leaves a gap behind, which no operation of the code closes before the next move.
\<close>

definition pins_inv :: "pins \<Rightarrow> bool" where
  "pins_inv s \<longleftrightarrow> rows_inv (pt_widgets s) (pt_groups s)
     \<and> (\<forall>i g. positions_ok (map pw_position (container s i g)))
     \<and> (\<forall>i. distinct (map pg_position (group_container s i)))"

section \<open>Positions\<close>

lemma positions_ok_Nil [simp]: "positions_ok []"
  by (simp add: positions_ok_def)

lemma positions_set: "positions_ok ps \<Longrightarrow> set ps = {0..<length ps}"
  unfolding positions_ok_def by (metis atLeastLessThan_upt mset_eq_setD)

lemma next_of_positions: "positions_ok ps \<Longrightarrow> next_of ps = length ps"
proof (cases "ps = []")
  case False
  assume "positions_ok ps"
  then have "set ps = {0..<length ps}" by (rule positions_set)
  then have "Max (set (0 # ps)) = length ps - 1"
    using False by (intro Max_eqI) (auto simp: length_greater_0_conv [symmetric] simp del: length_greater_0_conv)
  then have "fold max ps 0 = length ps - 1" by (simp only: Max.set_eq_fold)
  then show ?thesis using False by (cases ps) (simp_all add: next_of_def)
qed (simp add: next_of_def)

lemma positions_ok_distinct: "positions_ok ps \<Longrightarrow> distinct ps"
  unfolding positions_ok_def by (metis distinct_upt mset_eq_imp_distinct_iff)

lemma next_of_greater: "p \<in> set ps \<Longrightarrow> p < next_of ps"
proof -
  assume p: "p \<in> set ps"
  have "p \<le> Max (set (0 # ps))" using p by (intro Max_ge) auto
  then have "p \<le> fold max ps 0" by (simp only: Max.set_eq_fold)
  then show ?thesis using p by (cases ps) (simp_all add: next_of_def)
qed

lemma next_of_fresh [simp]: "next_of ps \<notin> set ps"
  using next_of_greater by blast

lemma positions_ok_append: "positions_ok ps \<Longrightarrow> positions_ok (ps @ [length ps])"
  by (simp add: positions_ok_def)

text \<open>The index of a key in a list of rows with distinct keys.\<close>

lemma index_by_None: "index_by f i ws = None \<longleftrightarrow> i \<notin> f ` set ws"
  by (induction ws) auto

lemma index_by_nth: "distinct (map f ws) \<Longrightarrow> k < length ws \<Longrightarrow> index_by f (f (ws ! k)) ws = Some k"
proof (induction ws arbitrary: k)
  case (Cons w ws)
  then show ?case by (cases k) (auto simp: nth_mem)
qed simp

lemma map_index_by: "distinct (map f ws) \<Longrightarrow> map (\<lambda>w. the (index_by f (f w) ws)) ws = [0..<length ws]"
  by (rule nth_equalityI) (simp_all add: index_by_nth)

section \<open>Tables whose rows carry a position in a container\<close>

text \<open>
  Both tables are renumbered the same way.  The contract: rows with an id and a position, update by
  id as a map over the rows, containers that a position does not decide and that do not overlap, and
  a renumbering with the recursion of the code.
\<close>

locale positioned_table =
  fixes rid :: "'r \<Rightarrow> string"
    and pos :: "'r \<Rightarrow> nat"
    and setpos :: "nat \<Rightarrow> 'r \<Rightarrow> 'r"
    and inside :: "'c \<Rightarrow> 'r \<Rightarrow> bool"
    and rows :: "'s \<Rightarrow> 'r list"
    and rest :: "'s \<Rightarrow> 'o"
    and renum :: "nat \<Rightarrow> 'r list \<Rightarrow> 's \<Rightarrow> 's"
    and upd_row :: "string \<Rightarrow> ('r \<Rightarrow> 'r) \<Rightarrow> 's \<Rightarrow> 's"
  assumes pos_setpos: "pos (setpos n r) = n"
    and rid_setpos: "rid (setpos n r) = rid r"
    and setpos_setpos: "setpos m (setpos n r) = setpos m r"
    and setpos_pos: "setpos (pos r) r = r"
    and inside_setpos: "inside c (setpos n r) = inside c r"
    and inside_unique: "inside c r \<Longrightarrow> inside c' r \<Longrightarrow> c = c'"
    and rows_upd: "rows (upd_row i f s) = map (\<lambda>r. if rid r = i then f r else r) (rows s)"
    and rest_upd: "rest (upd_row i f s) = rest s"
    and renum_Nil: "renum n [] s = s"
    and renum_Cons: "renum n (w # ws) s =
      renum (Suc n) ws (if pos w \<noteq> n then upd_row (rid w) (setpos n) s else s)"
begin

definition repos :: "'r list \<Rightarrow> nat \<Rightarrow> 'r \<Rightarrow> 'r" where
  "repos ws n r = (case index_by rid (rid r) ws of None \<Rightarrow> r | Some k \<Rightarrow> setpos (n + k) r)"

lemma repos_fields [simp]: "rid (repos ws n r) = rid r" "setpos 0 (repos ws n r) = setpos 0 r"
  "inside c (repos ws n r) = inside c r"
  by (simp_all add: repos_def rid_setpos setpos_setpos inside_setpos split: option.splits)

lemma renum_rows:
  assumes "distinct (map rid ws)" and "\<forall>w \<in> set ws. \<forall>r \<in> set (rows s). rid r = rid w \<longrightarrow> r = w"
  shows "rows (renum n ws s) = map (repos ws n) (rows s) \<and> rest (renum n ws s) = rest s"
  using assms
proof (induction ws arbitrary: n s)
  case Nil
  then show ?case by (simp add: repos_def map_idI renum_Nil)
next
  case (Cons w ws)
  let ?s = "if pos w \<noteq> n then upd_row (rid w) (setpos n) s else s"
  have rows: "rows ?s = map (\<lambda>r. if rid r = rid w then setpos n r else r) (rows s)"
    using Cons.prems(2) by (auto simp: rows_upd setpos_pos intro!: map_idI [symmetric])
  have "\<forall>v \<in> set ws. \<forall>r \<in> set (rows ?s). rid r = rid v \<longrightarrow> r = v"
    unfolding rows using Cons.prems by (auto simp: rid_setpos split: if_splits)
  with Cons.IH [of ?s "Suc n"] Cons.prems(1)
  have "rows (renum (Suc n) ws ?s) = map (repos ws (Suc n)) (rows ?s)" "rest (renum (Suc n) ws ?s) = rest ?s"
    by simp_all
  moreover have "repos ws (Suc n) (if rid r = rid w then setpos n r else r) = repos (w # ws) n r" for r
    using Cons.prems(1) index_by_None [of rid "rid w" ws]
    by (auto simp: repos_def rid_setpos split: option.splits)
  ultimately show ?case using rows by (simp add: o_def renum_Cons rest_upd)
qed

lemma repos_positions:
  assumes "distinct (map rid ws)" and "mset ws = mset rs"
  shows "positions_ok (map pos (map (repos ws 0) rs))"
proof -
  have "pos (repos ws 0 r) = the (index_by rid (rid r) ws)" if "r \<in> set rs" for r
    using that index_by_None [of rid "rid r" ws] mset_eq_setD [OF assms(2)]
    by (auto simp: repos_def pos_setpos split: option.splits)
  then have "map pos (map (repos ws 0) rs) = map (\<lambda>w. the (index_by rid (rid w) ws)) rs" by simp
  then have "mset (map pos (map (repos ws 0) rs)) = mset (map (\<lambda>w. the (index_by rid (rid w) ws)) rs)"
    by (simp only:)
  also have "\<dots> = mset (map (\<lambda>w. the (index_by rid (rid w) ws)) ws)" by (simp only: mset_map assms(2))
  also have "\<dots> = mset [0..<length ws]" by (simp only: map_index_by [OF assms(1)])
  also have "length ws = length rs" using assms(2) by (metis size_mset)
  finally show ?thesis by (simp add: positions_ok_def)
qed

lemma filter_map_inside:
  "(\<And>r. r \<in> set rs \<Longrightarrow> inside c (h r) = inside c r) \<Longrightarrow> filter (inside c) (map h rs) = map h (filter (inside c) rs)"
  by (induction rs) auto

text \<open>Renumbering a permutation of one container settles that container and touches no other.\<close>

lemma renumber_container:
  assumes d: "distinct (map rid (rows s))" and m: "mset ws = mset (filter (inside c) (rows s))"
  shows "positions_ok (map pos (filter (inside c) (rows (renum 0 ws s))))"
    and "c' \<noteq> c \<Longrightarrow> filter (inside c') (rows (renum 0 ws s)) = filter (inside c') (rows s)"
    and "map (setpos 0) (rows (renum 0 ws s)) = map (setpos 0) (rows s)"
    and "rest (renum 0 ws s) = rest s"
proof -
  have "distinct (map rid (filter (inside c) (rows s)))" using d by (rule distinct_map_filter)
  then have dws: "distinct (map rid ws)" using m by (metis mset_eq_imp_distinct_iff mset_map)
  have sub: "set ws = set (filter (inside c) (rows s))" using m by (rule mset_eq_setD)
  have inj: "inj_on rid (set (rows s))" using d by (simp add: distinct_map)
  have u: "\<forall>w \<in> set ws. \<forall>r \<in> set (rows s). rid r = rid w \<longrightarrow> r = w"
    unfolding sub using inj by (auto dest: inj_onD)
  note r = renum_rows [OF dws u, of 0]
  have f: "filter (inside x) (rows (renum 0 ws s)) = map (repos ws 0) (filter (inside x) (rows s))" for x
    using r by (simp add: filter_map_inside)
  show "positions_ok (map pos (filter (inside c) (rows (renum 0 ws s))))"
    unfolding f by (rule repos_positions [OF dws m])
  show "map (setpos 0) (rows (renum 0 ws s)) = map (setpos 0) (rows s)" "rest (renum 0 ws s) = rest s"
    using r by simp_all
  show "filter (inside c') (rows (renum 0 ws s)) = filter (inside c') (rows s)" if n: "c' \<noteq> c"
  proof -
    have "repos ws 0 q = q" if q: "q \<in> set (filter (inside c') (rows s))" for q
    proof -
      have "rid q \<notin> rid ` set ws"
        using q n inj inside_unique [of c' q c] unfolding sub by (auto dest: inj_onD)
      then show ?thesis using index_by_None [of rid "rid q" ws] by (simp add: repos_def)
    qed
    then show ?thesis unfolding f by (intro map_idI) blast
  qed
qed

end

interpretation wt: positioned_table pw_id pw_position "\<lambda>n w. w\<lparr>pw_position := n\<rparr>"
  "\<lambda>(i, g). in_container i g" pt_widgets pt_groups renumber update_widget
  by unfold_locales (auto simp: in_container_def update_widget_def identity.defs split: prod.splits)

lemma identity_eqI: "id_scope a = id_scope b \<Longrightarrow> id_owner a = id_owner b \<Longrightarrow> a = (b :: identity)"
  by (cases a; cases b) simp

interpretation gt: positioned_table pg_id pg_position "\<lambda>n g. g\<lparr>pg_position := n\<rparr>"
  "\<lambda>(i :: identity) g. pg_scope g = id_scope i \<and> pg_owner g = id_owner i" pt_groups pt_widgets renumber_groups update_group
  by unfold_locales (auto simp: update_group_def intro!: identity_eqI)

section \<open>Normalizing keeps the invariant and repairs one container\<close>

lemma core_fields:
  "core a = core b \<Longrightarrow> pw_id a = pw_id b \<and> pw_owner a = pw_owner b \<and> pw_scope a = pw_scope b \<and> pw_group a = pw_group b
     \<and> pw_kind a = pw_kind b \<and> pw_hublot a = pw_hublot b \<and> pw_label a = pw_label b \<and> pw_target a = pw_target b"
  by (cases a; cases b) (simp add: core_def)

lemma group_core_fields:
  "group_core a = group_core b \<Longrightarrow> pg_id a = pg_id b \<and> pg_owner a = pg_owner b \<and> pg_scope a = pg_scope b"
  by (cases a; cases b) (simp add: group_core_def)

lemma by_position_perm [simp]: "mset (by_position rank ws) = mset ws" "mset (groups_by_position rank gs) = mset gs"
  by (simp_all add: by_position_def groups_by_position_def)

lemma core_list:
  assumes "map core ws' = map core ws"
  shows "map pw_id ws' = map pw_id ws" and "w \<in> set ws' \<Longrightarrow> \<exists>v \<in> set ws. core v = core w"
proof -
  have l: "length ws' = length ws" and n: "k < length ws \<Longrightarrow> core (ws' ! k) = core (ws ! k)" for k
    using assms by (metis length_map) (metis assms length_map nth_map)
  show "map pw_id ws' = map pw_id ws" by (rule nth_equalityI) (simp_all add: l n [THEN core_fields, THEN conjunct1])
  show "w \<in> set ws' \<Longrightarrow> \<exists>v \<in> set ws. core v = core w" using l n by (metis in_set_conv_nth)
qed

lemma group_core_list:
  assumes "map group_core gs' = map group_core gs"
  shows "map pg_id gs' = map pg_id gs" and "g \<in> set gs' \<Longrightarrow> \<exists>v \<in> set gs. group_core v = group_core g"
proof -
  have l: "length gs' = length gs" and n: "k < length gs \<Longrightarrow> group_core (gs' ! k) = group_core (gs ! k)" for k
    using assms by (metis length_map) (metis assms length_map nth_map)
  show "map pg_id gs' = map pg_id gs" by (rule nth_equalityI) (simp_all add: l n [THEN group_core_fields, THEN conjunct1])
  show "g \<in> set gs' \<Longrightarrow> \<exists>v \<in> set gs. group_core v = group_core g" using l n by (metis in_set_conv_nth)
qed

lemma rows_inv_core:
  assumes inv: "rows_inv ws gs" and w: "map core ws' = map core ws" and g: "map group_core gs' = map group_core gs"
  shows "rows_inv ws' gs'"
proof -
  have "scope_ok (pw_scope v) (pw_owner v) \<and> group_member gs' v" if v: "v \<in> set ws'" for v
  proof -
    obtain u where u: "u \<in> set ws" "core u = core v" using core_list(2) [OF w v] by blast
    then have "scope_ok (pw_scope u) (pw_owner u)" "group_member gs u" using inv by (simp_all add: rows_inv_def)
    moreover have "\<exists>y \<in> set gs'. pg_id y = pg_id x \<and> pg_scope y = pg_scope x \<and> pg_owner y = pg_owner x" if "x \<in> set gs" for x
      using group_core_list(2) [OF g [symmetric] that] group_core_fields by metis
    ultimately show ?thesis using core_fields [OF u(2)] unfolding group_member_def by metis
  qed
  moreover have "scope_ok (pg_scope x) (pg_owner x) \<and> pg_id x \<noteq> []" if "x \<in> set gs'" for x
    using group_core_list(2) [OF g that] inv group_core_fields unfolding rows_inv_def by metis
  ultimately show ?thesis
    using inv core_list(1) [OF w] group_core_list(1) [OF g] by (simp add: rows_inv_def)
qed

lemma container_eq: "container s i g = filter ((\<lambda>(i, g). in_container i g) (i, g)) (pt_widgets s)"
  by (simp add: container_def)

lemma normalize_spec:
  assumes "distinct (map pw_id (pt_widgets s))"
  shows "positions_ok (map pw_position (container (normalizeContainer rank i g s) i g))"
    and "(i', g') \<noteq> (i, g) \<Longrightarrow> container (normalizeContainer rank i g s) i' g' = container s i' g'"
    and "map core (pt_widgets (normalizeContainer rank i g s)) = map core (pt_widgets s)"
    and "pt_groups (normalizeContainer rank i g s) = pt_groups s"
  using wt.renumber_container [OF assms, of "by_position rank (container s i g)" "(i, g)"]
    wt.renumber_container(2) [OF assms, of "by_position rank (container s i g)" "(i, g)" "(i', g')"]
  by (simp_all add: normalizeContainer_def container_def core_def [abs_def])

lemma group_container_eq: "group_container s i = filter ((\<lambda>(i :: identity) g. pg_scope g = id_scope i \<and> pg_owner g = id_owner i) i) (pt_groups s)"
  by (simp add: group_container_def)

lemma normalize_groups_spec:
  assumes "distinct (map pg_id (pt_groups s))"
  shows "positions_ok (map pg_position (group_container (normalizeGroupContainer rank i s) i))"
    and "i' \<noteq> i \<Longrightarrow> group_container (normalizeGroupContainer rank i s) i' = group_container s i'"
    and "map group_core (pt_groups (normalizeGroupContainer rank i s)) = map group_core (pt_groups s)"
    and "pt_widgets (normalizeGroupContainer rank i s) = pt_widgets s"
  using gt.renumber_container [OF assms, of "groups_by_position rank (group_container s i)" i]
    gt.renumber_container(2) [OF assms, of "groups_by_position rank (group_container s i)" i i']
  by (simp_all add: normalizeGroupContainer_def group_container_def group_core_def [abs_def])

lemma pins_inv_normalize:
  assumes "rows_inv (pt_widgets s) (pt_groups s)" and "\<And>i. distinct (map pg_position (group_container s i))"
    and "\<And>i' g'. (i', g') \<noteq> (i, g) \<Longrightarrow> positions_ok (map pw_position (container s i' g'))"
  shows "pins_inv (normalizeContainer rank i g s)"
proof -
  have d: "distinct (map pw_id (pt_widgets s))" using assms(1) by (simp add: rows_inv_def)
  note n = normalize_spec [OF d, where rank = rank and i = i and g = g]
  have "positions_ok (map pw_position (container (normalizeContainer rank i g s) i' g'))" for i' g'
    using n(1) n(2) [of i' g'] assms(3) [of i' g'] by (cases "(i', g') = (i, g)") auto
  moreover have "group_container (normalizeContainer rank i g s) j = group_container s j" for j
    by (simp add: group_container_def n(4))
  ultimately show ?thesis
    using rows_inv_core [OF assms(1) n(3), of "pt_groups s"] assms(2) by (simp add: pins_inv_def n(4))
qed

end
