(* ===== verification/Pinned_Routes.thy ===== *)
theory Pinned_Routes
  imports Pinned_Invariant
begin

text \<open>Every route that changes the pinned-widget tables preserves their invariant.\<close>

lemma pins_invD:
  assumes "pins_inv s"
  shows "rows_inv (pt_widgets s) (pt_groups s)" "distinct (map pw_id (pt_widgets s))" "distinct (map pg_id (pt_groups s))"
    "positions_ok (map pw_position (container s i g))" "distinct (map pg_position (group_container s j))"
  using assms by (simp_all add: pins_inv_def rows_inv_def)

lemma find_widgetD: "find_widget s i = Some w \<Longrightarrow> w \<in> set (pt_widgets s) \<and> pw_id w = i"
  by (auto simp: find_widget_def find_Some_iff)

lemma find_groupD: "find_group s i = Some g \<Longrightarrow> g \<in> set (pt_groups s) \<and> pg_id g = i"
  by (auto simp: find_group_def find_Some_iff)

lemma assertGroup_InrD:
  "assertGroup s g i = Inr u \<Longrightarrow> truthy g \<Longrightarrow>
   \<exists>x \<in> set (pt_groups s). pg_id x = the g \<and> pg_scope x = id_scope i \<and> pg_owner x = id_owner i"
  by (auto simp: assertGroup_def split: option.splits if_splits dest!: find_groupD)

lemma pins_inv_emit [simp]: "pins_inv (emit_pin e s) = pins_inv s"
  by (simp add: pins_inv_def emit_pin_def container_def group_container_def)

text \<open>An update that leaves identity, place and position alone.\<close>

lemma pins_inv_relabel:
  assumes inv: "pins_inv s"
    and f: "\<And>w. pw_id (f w) = pw_id w" "\<And>w. pw_owner (f w) = pw_owner w" "\<And>w. pw_scope (f w) = pw_scope w"
      "\<And>w. pw_group (f w) = pw_group w" "\<And>w. pw_position (f w) = pw_position w"
  shows "pins_inv (update_widget i f s)"
proof -
  define h where "h w = (if pw_id w = i then f w else w)" for w
  have h: "pw_id (h w) = pw_id w" "pw_owner (h w) = pw_owner w" "pw_scope (h w) = pw_scope w"
    "pw_group (h w) = pw_group w" "pw_position (h w) = pw_position w" for w
    by (simp_all add: h_def f)
  have t: "pt_widgets (update_widget i f s) = map h (pt_widgets s)" "pt_groups (update_widget i f s) = pt_groups s"
    by (simp_all add: update_widget_def h_def)
  have "map pw_position (container (update_widget i f s) j k) = map pw_position (container s j k)" for j k
    by (simp add: container_def t in_container_def [abs_def] filter_map o_def h)
  moreover have "rows_inv (map h (pt_widgets s)) (pt_groups s)"
    using pins_invD(1) [OF inv] by (simp add: rows_inv_def group_member_def h o_def)
  moreover have "group_container (update_widget i f s) j = group_container s j" for j
    by (simp add: group_container_def t)
  ultimately show ?thesis using pins_invD [OF inv] by (simp add: pins_inv_def t)
qed

section \<open>Creating\<close>

lemma pins_inv_create:
  assumes inv: "pins_inv s" and c: "create_widget w s = Inr s'" and sc: "scope_ok (pw_scope w) (pw_owner w)"
    and grp: "pw_group w = None \<or> group_member (pt_groups s) w"
    and pos: "pw_position w = nextPosition s (identity_of w) (pw_group w)"
  shows "pins_inv s'"
proof -
  have s': "s' = s\<lparr>pt_widgets := pt_widgets s @ [w]\<rparr>" and new: "pw_id w \<notin> pw_id ` set (pt_widgets s)"
    using c by (auto simp: create_widget_def split: if_splits)
  have "group_member (pt_groups s) w" using grp by (auto simp: group_member_def)
  then have "rows_inv (pt_widgets s') (pt_groups s')"
    using pins_invD(1) [OF inv] new sc by (auto simp: rows_inv_def s')
  moreover have "positions_ok (map pw_position (container s' i g))" for i g
  proof (cases "in_container i g w")
    case True
    then have "i = identity_of w" "g = pw_group w" by (auto simp: in_container_def identity_of_def intro: identity_eqI)
    then have "map pw_position (container s' i g) = map pw_position (container s i g) @ [length (map pw_position (container s i g))]"
      using True pos next_of_positions [OF pins_invD(4) [OF inv, of i g]]
      by (simp add: container_def s' nextPosition_def)
    then show ?thesis using positions_ok_append [OF pins_invD(4) [OF inv, of i g]] by simp
  next
    case False
    then show ?thesis using pins_invD(4) [OF inv, of i g] by (simp add: container_def s')
  qed
  moreover have "group_container s' i = group_container s i" for i by (simp add: group_container_def s')
  ultimately show ?thesis using pins_invD(5) [OF inv] by (simp add: pins_inv_def)
qed

lemma pins_inv_create_group:
  assumes inv: "pins_inv s" and c: "create_group g s = Inr s'" and sc: "scope_ok (pg_scope g) (pg_owner g)"
    and pos: "pg_position g = nextGroupPosition s (group_identity g)" and id: "pg_id g \<noteq> []"
  shows "pins_inv s'"
proof -
  have s': "s' = s\<lparr>pt_groups := pt_groups s @ [g]\<rparr>" and new: "pg_id g \<notin> pg_id ` set (pt_groups s)"
    using c by (auto simp: create_group_def split: if_splits)
  have "group_member (pt_groups s @ [g]) w" if "group_member (pt_groups s) w" for w
    using that by (auto simp: group_member_def)
  then have "rows_inv (pt_widgets s') (pt_groups s')"
    using pins_invD(1) [OF inv] new sc id by (auto simp: rows_inv_def s')
  moreover have "distinct (map pg_position (group_container s' i))" for i
  proof (cases "pg_scope g = id_scope i \<and> pg_owner g = id_owner i")
    case True
    then have "i = group_identity g" by (auto simp: group_identity_def intro: identity_eqI)
    then have "map pg_position (group_container s' i)
        = map pg_position (group_container s i) @ [next_of (map pg_position (group_container s i))]"
      using True pos by (simp add: group_container_def s' nextGroupPosition_def)
    then show ?thesis using pins_invD(5) [OF inv, of i] next_of_fresh [of "map pg_position (group_container s i)"] by simp
  next
    case False
    then have "group_container s' i = group_container s i" by (auto simp: group_container_def s')
    then show ?thesis using pins_invD(5) [OF inv, of i] by simp
  qed
  moreover have "container s' i k = container s i k" for i k by (simp add: container_def s')
  ultimately show ?thesis using pins_invD(4) [OF inv] by (simp add: pins_inv_def)
qed

lemma scopeIdentity_ok: "scopeIdentity owner_of body = Inr i \<Longrightarrow> scope_ok (id_scope i) (id_owner i)"
  by (auto simp: scopeIdentity_def Let_def scope_ok_def workspace_identity_def split: if_splits option.splits)

section \<open>Moving widgets between containers\<close>

text \<open>
  The general step: rows are mapped by \<open>h\<close>, which keeps ids and puts rows into their own group's
  scope, and every container except \<open>c\<close> ends with contiguous positions; normalizing \<open>c\<close> completes it.
\<close>

lemma rows_inv_map:
  assumes inv: "rows_inv ws gs" and id: "\<And>w. w \<in> set ws \<Longrightarrow> pw_id (h w) = pw_id w"
    and ok: "\<And>w. w \<in> set ws \<Longrightarrow> scope_ok (pw_scope (h w)) (pw_owner (h w)) \<and> group_member gs (h w)"
  shows "rows_inv (map h ws) gs"
proof -
  have "map pw_id (map h ws) = map pw_id ws" using id by simp
  then show ?thesis using inv ok unfolding rows_inv_def by (metis (no_types, lifting) imageE set_map)
qed

lemma rewrite_index:
  "w \<in> set ws \<Longrightarrow> \<exists>k. index_by pw_id (pw_id w) ws = Some k"
  using index_by_None [of pw_id "pw_id w" ws] by (cases "index_by pw_id (pw_id w) ws") auto

definition placed :: "identity \<Rightarrow> string option \<Rightarrow> string \<Rightarrow> widget list \<Rightarrow> nat \<Rightarrow> widget \<Rightarrow> widget" where
  "placed i g m ws n r = (case index_by pw_id (pw_id r) ws of None \<Rightarrow> r
     | Some k \<Rightarrow> if pw_id r = m then r\<lparr>pw_position := n + k, pw_owner := id_owner i, pw_scope := id_scope i, pw_group := g\<rparr>
                 else r\<lparr>pw_position := n + k\<rparr>)"

lemma place_rows:
  "distinct (map pw_id ws) \<Longrightarrow>
   pt_widgets (place i g m n ws s) = map (placed i g m ws n) (pt_widgets s) \<and> pt_groups (place i g m n ws s) = pt_groups s"
proof (induction ws arbitrary: n s)
  case Nil
  then show ?case by (simp add: placed_def map_idI)
next
  case (Cons w ws)
  have "placed i g m ws (Suc n)
      (if pw_id r = pw_id w then if pw_id w = m
         then r\<lparr>pw_position := n, pw_owner := id_owner i, pw_scope := id_scope i, pw_group := g\<rparr>
         else r\<lparr>pw_position := n\<rparr> else r)
      = placed i g m (w # ws) n r" for r
    using Cons.prems index_by_None [of pw_id "pw_id w" ws] by (auto simp: placed_def split: option.splits)
  with Cons show ?case by (simp add: o_def update_widget_def)
qed

lemma placed_fields [simp]: "pw_id (placed i g m ws n r) = pw_id r"
  by (simp add: placed_def split: option.splits)

text \<open>Placing a list \<open>ws\<close> that holds the moved row and exactly the rest of its new container.\<close>

lemma place_container:
  assumes d: "distinct (map pw_id (pt_widgets s))" and dw: "distinct (map pw_id ws)"
    and ws: "set ws = insert row (set (filter (\<lambda>w. pw_id w \<noteq> pw_id row) (container s i g)))"
    and row: "row \<in> set (pt_widgets s)"
  defines "s1 \<equiv> place i g (pw_id row) 0 ws s"
  shows "mset (container s1 i g) = mset (map (placed i g (pw_id row) ws 0) ws)"
    and "(i', g') \<noteq> (i, g) \<Longrightarrow> container s1 i' g' = filter (\<lambda>w. pw_id w \<noteq> pw_id row) (container s i' g')"
proof -
  let ?p = "placed i g (pw_id row) ws 0"
  have rows: "pt_widgets s1 = map ?p (pt_widgets s)" using place_rows [OF dw] by (simp add: s1_def)
  have inj: "r = q" if "r \<in> set (pt_widgets s)" "q \<in> set (pt_widgets s)" "pw_id r = pw_id q" for r q
    using d that by (auto simp: distinct_map inj_on_def)
  have sub: "set ws \<subseteq> set (pt_widgets s)" using ws row by (auto simp: container_def)
  have out: "?p r = r" if "r \<in> set (pt_widgets s)" "r \<notin> set ws" for r
  proof -
    have "pw_id r \<notin> pw_id ` set ws" using inj that sub by blast
    then show ?thesis using index_by_None [of pw_id "pw_id r" ws] by (simp add: placed_def)
  qed
  have into: "in_container i g (?p r)" if r: "r \<in> set ws" for r
    using rewrite_index [OF r] r ws by (auto simp: placed_def in_container_def container_def)
  have stay: "in_container i' g' (?p r) = in_container i' g' r" if "r \<in> set ws" "pw_id r \<noteq> pw_id row" for r i' g'
    using rewrite_index [OF that(1)] that(2) by (auto simp: placed_def in_container_def)
  have "filter (in_container i g) (map ?p (pt_widgets s)) = map ?p (filter (\<lambda>r. r \<in> set ws) (pt_widgets s))"
  proof -
    have "in_container i g (?p r) \<longleftrightarrow> r \<in> set ws" if r: "r \<in> set (pt_widgets s)" for r
    proof (cases "r \<in> set ws")
      case False
      then have "pw_id r \<noteq> pw_id row" using inj [OF r row] ws by auto
      then show ?thesis using False out [OF r False] r ws by (auto simp: container_def)
    qed (simp add: into)
    then show ?thesis by (simp add: filter_map o_def cong: filter_cong)
  qed
  moreover have "mset (filter (\<lambda>r. r \<in> set ws) (pt_widgets s)) = mset ws"
  proof -
    have "distinct (pt_widgets s)" "distinct ws" using d dw by (simp_all add: distinct_map)
    then show ?thesis using sub by (intro set_eq_iff_mset_eq_distinct [THEN iffD1]) auto
  qed
  ultimately show "mset (container s1 i g) = mset (map ?p ws)"
    by (simp add: container_def rows)
  assume n: "(i', g') \<noteq> (i, g)"
  have "in_container i' g' (?p r) \<longleftrightarrow> in_container i' g' r \<and> pw_id r \<noteq> pw_id row"
    "in_container i' g' (?p r) \<Longrightarrow> ?p r = r" if r: "r \<in> set (pt_widgets s)" for r
  proof -
    have disj: "\<not> in_container i' g' q" if "in_container i g q" for q
      using that n by (auto simp: in_container_def intro: identity_eqI)
    consider "r = row" | "r \<in> set ws" "r \<noteq> row" | "r \<notin> set ws" by blast
    then show "in_container i' g' (?p r) \<longleftrightarrow> in_container i' g' r \<and> pw_id r \<noteq> pw_id row"
    proof cases
      case 1
      then show ?thesis using disj [OF into] ws by auto
    next
      case 2
      then have "in_container i g r" "pw_id r \<noteq> pw_id row" using ws by (auto simp: container_def)
      then show ?thesis using disj stay [OF 2(1)] by auto
    next
      case 3
      then show ?thesis using out [OF r 3] inj [OF r row] ws by auto
    qed
    show "in_container i' g' (?p r) \<Longrightarrow> ?p r = r"
      using out [OF r] disj [OF into] by blast
  qed
  then have "filter (in_container i' g') (map ?p rs) = filter (\<lambda>w. pw_id w \<noteq> pw_id row) (filter (in_container i' g') rs)"
    if "set rs \<subseteq> set (pt_widgets s)" for rs
    using that by (induction rs) auto
  then show "container s1 i' g' = filter (\<lambda>w. pw_id w \<noteq> pw_id row) (container s i' g')"
    by (simp add: container_def rows)
qed

lemma placed_positions:
  assumes "distinct (map pw_id ws)"
  shows "map pw_position (map (placed i g m ws 0) ws) = [0..<length ws]"
proof (rule nth_equalityI)
  fix k assume "k < length (map pw_position (map (placed i g m ws 0) ws))"
  then show "map pw_position (map (placed i g m ws 0) ws) ! k = [0..<length ws] ! k"
    using index_by_nth [OF assms, of k] by (simp add: placed_def)
qed simp

lemma insert_at_set [simp]: "set (insert_at k x xs) = insert x (set xs)"
  by (metis Un_insert_right append_take_drop_id insert_at_def list.simps(15) set_append append_Cons append_Nil)

lemma insert_at_mset: "mset (insert_at k x xs) = add_mset x (mset xs)"
  by (simp add: insert_at_def) (metis append_take_drop_id mset_append)

lemma index_by_less: "index_by f i ws = Some k \<Longrightarrow> k < length ws"
  by (induction ws arbitrary: k) (auto split: if_splits)

text \<open>What a successful move did: nothing, or a placement followed by normalizing the old container.\<close>

lemma reorderWidget_cases:
  assumes "reorderWidget rank row groupId beforeId identity s = Inr s'"
  obtains (unchanged) "s' = s" "(case identity of None \<Rightarrow> identity_of row | Some x \<Rightarrow> x) = identity_of row"
      "beforeId = Some (pw_id row)" "next_group row groupId False = pw_group row"
  | (placed) i g siblings k s1 where "i = (case identity of None \<Rightarrow> identity_of row | Some x \<Rightarrow> x)"
      "g = next_group row groupId (i \<noteq> identity_of row)" "assertGroup s g i = Inr ()"
      "siblings = by_position rank (filter (\<lambda>w. pw_id w \<noteq> pw_id row) (container s i g))"
      "(if truthy beforeId then index_by pw_id (the beforeId) siblings else Some (length siblings)) = Some k"
      "s1 = place i g (pw_id row) 0 (insert_at k row siblings) s"
      "s' = (if i \<noteq> identity_of row \<or> pw_group row \<noteq> g then normalizeContainer rank (identity_of row) (pw_group row) s1 else s1)"
proof -
  define i where "i = (case identity of None \<Rightarrow> identity_of row | Some x \<Rightarrow> x)"
  define g where "g = next_group row groupId (i \<noteq> identity_of row)"
  define siblings where "siblings = by_position rank (filter (\<lambda>w. pw_id w \<noteq> pw_id row) (container s i g))"
  define at where "at = (if truthy beforeId then index_by pw_id (the beforeId) siblings else Some (length siblings))"
  have eq: "reorderWidget rank row groupId beforeId identity s =
    (case assertGroup s g i of Inl e \<Rightarrow> Inl e
     | Inr _ \<Rightarrow> if \<not> i \<noteq> identity_of row \<and> beforeId = Some (pw_id row) \<and> g = pw_group row then Inr s
       else (case at of None \<Rightarrow> Inl (http_error 409 ''reorder target is not in the destination group'')
             | Some k \<Rightarrow> Inr (if i \<noteq> identity_of row \<or> pw_group row \<noteq> g
                 then normalizeContainer rank (identity_of row) (pw_group row) (place i g (pw_id row) 0 (insert_at k row siblings) s)
                 else place i g (pw_id row) 0 (insert_at k row siblings) s)))"
    unfolding reorderWidget_def Let_def i_def g_def siblings_def at_def by (rule refl)
  obtain u where a: "assertGroup s g i = Inr u" using assms unfolding eq by (cases "assertGroup s g i") simp_all
  show thesis
  proof (cases "\<not> i \<noteq> identity_of row \<and> beforeId = Some (pw_id row) \<and> g = pw_group row")
    case True
    then have "i = identity_of row" "beforeId = Some (pw_id row)" "g = pw_group row" by auto
    moreover have "s' = s" using assms a unfolding eq if_P [OF True] by simp
    ultimately show thesis using unchanged by (simp add: i_def g_def)
  next
    case False
    obtain k where k: "at = Some k" using assms a False unfolding eq by (cases "at") (simp_all split: if_splits)
    have "s' = (if i \<noteq> identity_of row \<or> pw_group row \<noteq> g
        then normalizeContainer rank (identity_of row) (pw_group row) (place i g (pw_id row) 0 (insert_at k row siblings) s)
        else place i g (pw_id row) 0 (insert_at k row siblings) s)"
      using assms a k unfolding eq if_not_P [OF False] by simp
    then show thesis using a k by (intro placed [OF i_def g_def _ siblings_def _ refl]) (simp_all add: at_def)
  qed
qed

lemma place_inv:
  assumes inv: "pins_inv s" and row: "row \<in> set (pt_widgets s)" and sc: "scope_ok (id_scope i) (id_owner i)"
    and a: "assertGroup s g i = Inr ()" and g: "g = next_group row groupId (i \<noteq> identity_of row)"
    and sib: "siblings = by_position rank (filter (\<lambda>w. pw_id w \<noteq> pw_id row) (container s i g))"
    and s1: "s1 = place i g (pw_id row) 0 (insert_at k row siblings) s"
  shows "rows_inv (pt_widgets s1) (pt_groups s1)" and "pt_groups s1 = pt_groups s"
    and "positions_ok (map pw_position (container s1 i g))"
    and "(i', g') \<noteq> (i, g) \<Longrightarrow> (i', g') \<noteq> (identity_of row, pw_group row) \<Longrightarrow> container s1 i' g' = container s i' g'"
    and "distinct (map pw_id (insert_at k row siblings))"
    and "mset (container s1 i g) = mset (map (placed i g (pw_id row) (insert_at k row siblings) 0) (insert_at k row siblings))"
proof -
  let ?ws = "insert_at k row siblings"
  note D = pins_invD [OF inv]
  have ds: "distinct (map pw_id siblings)"
    using D(2) unfolding sib by (metis by_position_perm(1) container_def distinct_map_filter mset_eq_imp_distinct_iff mset_map)
  have ss: "set siblings = set (filter (\<lambda>w. pw_id w \<noteq> pw_id row) (container s i g))"
    unfolding sib using by_position_perm(1) mset_eq_setD by blast
  have "pw_id row \<notin> pw_id ` set siblings" unfolding ss by auto
  then have "distinct (pw_id row # map pw_id siblings)" using ds by simp
  moreover have "mset (map pw_id ?ws) = mset (pw_id row # map pw_id siblings)"
    by (simp add: insert_at_mset)
  ultimately have dw: "distinct (map pw_id ?ws)" using mset_eq_imp_distinct_iff by blast
  have ws: "set ?ws = insert row (set (filter (\<lambda>w. pw_id w \<noteq> pw_id row) (container s i g)))"
    unfolding insert_at_set ss by (rule refl)
  show "distinct (map pw_id ?ws)" by (rule dw)
  have groups: "pt_groups s1 = pt_groups s" and rows: "pt_widgets s1 = map (placed i g (pw_id row) ?ws 0) (pt_widgets s)"
    using place_rows [OF dw] by (simp_all add: s1)
  show "pt_groups s1 = pt_groups s" by (rule groups)
  note pc = place_container [OF D(2) dw ws row, folded s1]
  show "mset (container s1 i g) = mset (map (placed i g (pw_id row) ?ws 0) ?ws)" by (rule pc(1))
  have "mset (map pw_position (container s1 i g)) = mset (map pw_position (map (placed i g (pw_id row) ?ws 0) ?ws))"
    by (simp only: mset_map pc(1))
  also have "\<dots> = mset [0..<length ?ws]" by (simp only: placed_positions [OF dw])
  also have "length ?ws = length (map pw_position (container s1 i g))"
    using pc(1) by (metis length_map size_mset)
  finally show "positions_ok (map pw_position (container s1 i g))" unfolding positions_ok_def .
  show "container s1 i' g' = container s i' g'"
    if "(i', g') \<noteq> (i, g)" "(i', g') \<noteq> (identity_of row, pw_group row)"
  proof -
    have "pw_id w \<noteq> pw_id row" if w: "w \<in> set (container s i' g')" for w
    proof
      assume "pw_id w = pw_id row"
      then have "w = row" using w row D(2) by (auto simp: container_def distinct_map inj_on_def)
      then show False using w \<open>(i', g') \<noteq> (identity_of row, pw_group row)\<close>
        by (auto simp: container_def in_container_def identity_of_def intro: identity_eqI)
    qed
    then show ?thesis using pc(2) [OF that(1)] by (simp add: filter_id_conv)
  qed
  have member: "group_member (pt_groups s) (w\<lparr>pw_position := n, pw_owner := id_owner i, pw_scope := id_scope i, pw_group := g\<rparr>)" for w n
  proof (cases "truthy g")
    case True
    then show ?thesis using assertGroup_InrD [OF a] by (auto simp: group_member_def)
  next
    case False
    then consider "g = None" | "g = pw_group row" "i = identity_of row"
      using g by (auto simp: next_group_def truthy_def split: option.splits if_splits)
    then show ?thesis
    proof cases
      case 2
      have "group_member (pt_groups s) row" using D(1) row by (simp add: rows_inv_def)
      with 2 show ?thesis by (auto simp: group_member_def identity_of_def)
    qed (simp add: group_member_def)
  qed
  have "scope_ok (pw_scope (placed i g (pw_id row) ?ws 0 w)) (pw_owner (placed i g (pw_id row) ?ws 0 w))
      \<and> group_member (pt_groups s) (placed i g (pw_id row) ?ws 0 w)" if w: "w \<in> set (pt_widgets s)" for w
  proof -
    have "scope_ok (pw_scope w) (pw_owner w)" "group_member (pt_groups s) w" using D(1) w by (simp_all add: rows_inv_def)
    moreover have "group_member gs (w\<lparr>pw_position := n\<rparr>) = group_member gs w" for gs n by (simp add: group_member_def)
    ultimately show ?thesis
      using sc member [where w = w] by (simp add: placed_def split: option.splits)
  qed
  then show "rows_inv (pt_widgets s1) (pt_groups s1)"
    unfolding groups rows by (intro rows_inv_map [OF D(1)]) simp_all
qed

lemma pins_inv_reorder:
  assumes inv: "pins_inv s" and row: "row \<in> set (pt_widgets s)"
    and sc: "\<And>i. identity = Some i \<Longrightarrow> scope_ok (id_scope i) (id_owner i)"
    and r: "reorderWidget rank row groupId beforeId identity s = Inr s'"
  shows "pins_inv s'"
  using r
proof (cases rule: reorderWidget_cases)
  case unchanged
  then show ?thesis using inv by simp
next
  case (placed i g siblings k s1)
  have sci: "scope_ok (id_scope i) (id_owner i)"
  proof (cases identity)
    case None
    then show ?thesis using placed(1) pins_invD(1) [OF inv] row by (simp add: rows_inv_def identity_of_def)
  qed (use sc placed(1) in simp)
  note pi = place_inv [OF inv row sci placed(3,2,4,6)]
  have gc: "distinct (map pg_position (group_container s1 j))" for j
    using pins_invD(5) [OF inv, of j] by (simp add: group_container_def pi(2))
  show ?thesis
  proof (cases "i \<noteq> identity_of row \<or> pw_group row \<noteq> g")
    case True
    have "positions_ok (map pw_position (container s1 i' g'))" if "(i', g') \<noteq> (identity_of row, pw_group row)" for i' g'
      using that pi(3) pi(4) [of i' g'] pins_invD(4) [OF inv, of i' g'] by (cases "(i', g') = (i, g)") auto
    then show ?thesis using True placed(7) pins_inv_normalize [OF pi(1) gc] by simp
  next
    case False
    then have "positions_ok (map pw_position (container s1 i' g'))" for i' g'
      using pi(3) pi(4) [of i' g'] pins_invD(4) [OF inv, of i' g'] by (cases "(i', g') = (i, g)") auto
    then show ?thesis using False placed(7) pi(1) gc by (simp add: pins_inv_def)
  qed
qed

section \<open>Live interfaces and deleted widgets\<close>

text \<open>Taking a row out of its container, by deleting it or by sending it elsewhere.\<close>

lemma pins_inv_delete_widget:
  assumes inv: "pins_inv s" and row: "row \<in> set (pt_widgets s)"
  shows "pins_inv (normalizeContainer rank (identity_of row) (pw_group row) (delete_widget (pw_id row) s))"
proof (rule pins_inv_normalize)
  note D = pins_invD [OF inv]
  show "rows_inv (pt_widgets (delete_widget (pw_id row) s)) (pt_groups (delete_widget (pw_id row) s))"
    using D(1) by (auto simp: rows_inv_def delete_widget_def distinct_map_filter)
  show "distinct (map pg_position (group_container (delete_widget (pw_id row) s) i))" for i
    using D(5) [of i] by (simp add: group_container_def delete_widget_def)
  show "positions_ok (map pw_position (container (delete_widget (pw_id row) s) i' g'))"
    if n: "(i', g') \<noteq> (identity_of row, pw_group row)" for i' g'
  proof -
    have "w = row" if "w \<in> set (pt_widgets s)" "pw_id w = pw_id row" for w
      using that row D(2) by (auto simp: distinct_map inj_on_def)
    moreover have "\<not> in_container i' g' row" using n by (auto simp: in_container_def identity_of_def intro: identity_eqI)
    ultimately have "filter (in_container i' g') (filter (\<lambda>w. pw_id w \<noteq> pw_id row) (pt_widgets s)) = filter (in_container i' g') (pt_widgets s)"
      by (auto simp: filter_filter intro!: filter_cong)
    then show ?thesis using D(4) [of i' g'] by (simp add: container_def delete_widget_def)
  qed
qed

lemma pins_inv_hublot:
  assumes inv: "pins_inv s" and h: "ensurePinnedHublot rank h s = Inr s'"
  shows "pins_inv s'"
proof (cases "find (\<lambda>w. pw_hublot w = Some (hb_id h)) (pt_widgets s)")
  case None
  have "scope_ok (id_scope (hublot_identity h)) (hb_owner h)" by (simp add: scope_ok_def hublot_identity_def)
  moreover have "identity_of w = hublot_identity h" if "pw_scope w = id_scope (hublot_identity h)" "pw_owner w = hb_owner h" for w
    using that by (simp add: identity_of_def hublot_identity_def)
  ultimately show ?thesis
    using h None unfolding ensurePinnedHublot_def Let_def
    by (auto intro!: pins_inv_create [OF inv])
next
  case (Some row)
  let ?i = "hublot_identity h"
  have row: "row \<in> set (pt_widgets s)" using Some by (auto simp: find_Some_iff)
  note D = pins_invD [OF inv]
  show ?thesis
  proof (cases "pw_owner row \<noteq> hb_owner h \<or> pw_scope row \<noteq> id_scope ?i")
    case False
    then show ?thesis using h Some inv by (simp add: ensurePinnedHublot_def Let_def)
  next
    case True
    then have ne: "?i \<noteq> identity_of row" by (auto simp: identity_of_def hublot_identity_def)
    define f where "f w = w\<lparr>pw_owner := id_owner ?i, pw_scope := id_scope ?i, pw_group := None,
        pw_position := nextPosition s ?i None\<rparr>" for w :: widget
    define s1 where "s1 = update_widget (pw_id row) f s"
    have s': "s' = normalizeContainer rank (identity_of row) (pw_group row) s1"
      using h Some True by (simp add: ensurePinnedHublot_def Let_def s1_def f_def [abs_def])
    have rows: "pt_widgets s1 = map (\<lambda>w. if pw_id w = pw_id row then f w else w) (pt_widgets s)" "pt_groups s1 = pt_groups s"
      by (simp_all add: s1_def update_widget_def)
    have uniq: "w = row" if "w \<in> set (pt_widgets s)" "pw_id w = pw_id row" for w
      using that row D(2) by (auto simp: distinct_map inj_on_def)
    have "rows_inv (pt_widgets s1) (pt_groups s1)"
      unfolding rows by (rule rows_inv_map [OF D(1)])
        (use D(1) in \<open>auto simp: f_def rows_inv_def group_member_def scope_ok_def hublot_identity_def\<close>)
    moreover have "positions_ok (map pw_position (container s1 i' g'))"
      if n: "(i', g') \<noteq> (identity_of row, pw_group row)" for i' g'
    proof (cases "(i', g') = (?i, None)")
      case False
      then have fr: "\<not> in_container i' g' (f row)" "\<not> in_container i' g' row"
        using n by (auto simp: f_def in_container_def identity_of_def intro: identity_eqI)
      have "filter (in_container i' g') (map (\<lambda>w. if pw_id w = pw_id row then f w else w) rs) = filter (in_container i' g') rs"
        if "set rs \<subseteq> set (pt_widgets s)" for rs
        using that fr uniq by (induction rs) auto
      then show ?thesis using D(4) [of i' g'] by (simp add: container_def rows)
    next
      case True
      have ir: "in_container i' g' (f row)" "\<not> in_container i' g' row"
        using True ne by (auto simp: f_def in_container_def identity_of_def intro: identity_eqI)
      have "mset (map pw_position (filter (in_container i' g') (map (\<lambda>w. if pw_id w = pw_id row then f w else w) rs)))
          = mset (map pw_position (filter (in_container i' g') rs)) + (if row \<in> set rs then {#nextPosition s ?i None#} else {#})"
        if "set rs \<subseteq> set (pt_widgets s)" "distinct (map pw_id rs)" for rs
        using that
      proof (induction rs)
        case (Cons w rs)
        show ?case
        proof (cases "w = row")
          case True
          then have "pw_id v \<noteq> pw_id row" if "v \<in> set rs" for v
            using Cons.prems(2) that by (simp, metis image_eqI)
          then have "map (\<lambda>w. if pw_id w = pw_id row then f w else w) rs = rs" "row \<notin> set rs" by (auto intro: map_idI)
          then show ?thesis using True ir by (simp add: f_def)
        next
          case False
          then have "pw_id w \<noteq> pw_id row" using uniq Cons.prems(1) by auto
          then show ?thesis using Cons False by simp
        qed
      qed simp
      from this [of "pt_widgets s"] have "mset (map pw_position (container s1 i' g'))
          = mset (map pw_position (container s i' g') @ [length (map pw_position (container s i' g'))])"
        using row D(2) next_of_positions [OF D(4) [of i' g']] True by (simp add: container_def rows nextPosition_def)
      then show ?thesis using positions_ok_append [OF D(4) [of i' g']]
        unfolding positions_ok_def by (metis mset_eq_length)
    qed
    moreover have "distinct (map pg_position (group_container s1 j))" for j
      using D(5) [of j] by (simp add: group_container_def rows)
    ultimately show ?thesis unfolding s' by (intro pins_inv_normalize)
  qed
qed

end
