(* ===== verification/Pinned_Groups.thy ===== *)
theory Pinned_Groups
  imports Pinned_Routes
begin

text \<open>
  Renaming, moving and deleting groups keep the invariant of the pinned-widget tables.
\<close>

lemma update_group_frame:
  assumes inv: "pins_inv s"
    and f: "\<And>x. group_core (f x) = (group_core x)\<lparr>pg_name := pg_name (f x)\<rparr>" "\<And>x. pg_position (f x) = pg_position x"
  shows "pins_inv (update_group i f s)"
proof -
  have id: "pg_id (f x) = pg_id x" "pg_owner (f x) = pg_owner x" "pg_scope (f x) = pg_scope x" for x
    using f(1) [of x] by (cases x; cases "f x", simp add: group_core_def)+
  define h where "h x = (if pg_id x = i then f x else x)" for x
  have h: "pg_id (h x) = pg_id x" "pg_owner (h x) = pg_owner x" "pg_scope (h x) = pg_scope x" "pg_position (h x) = pg_position x" for x
    by (simp_all add: h_def id f(2))
  have g: "pt_groups (update_group i f s) = map h (pt_groups s)" "pt_widgets (update_group i f s) = pt_widgets s"
    by (simp_all add: update_group_def h_def [abs_def])
  note D = pins_invD [OF inv]
  have "map pg_position (group_container (update_group i f s) j) = map pg_position (group_container s j)" for j
    by (simp add: group_container_def g h filter_map o_def)
  moreover have "group_member (map h (pt_groups s)) w" if "group_member (pt_groups s) w" for w
    using that unfolding group_member_def by (metis (no_types, lifting) h(1) h(2) h(3) imageI set_map)
  then have "rows_inv (pt_widgets s) (map h (pt_groups s))"
    using D(1) by (auto simp: rows_inv_def h o_def)
  moreover have "container (update_group i f s) j k = container s j k" for j k
    by (simp add: container_def g)
  ultimately show ?thesis using inv D by (simp add: pins_inv_def g)
qed

lemma pins_inv_normalize_groups:
  assumes "rows_inv (pt_widgets s) (pt_groups s)" and "\<And>i g. positions_ok (map pw_position (container s i g))"
    and "\<And>j. j \<noteq> i \<Longrightarrow> distinct (map pg_position (group_container s j))"
  shows "pins_inv (normalizeGroupContainer rank i s)"
proof -
  have d: "distinct (map pg_id (pt_groups s))" using assms(1) by (simp add: rows_inv_def)
  note n = normalize_groups_spec [OF d, where rank = rank and i = i]
  have "distinct (map pg_position (group_container (normalizeGroupContainer rank i s) j))" for j
    using n(1) [THEN positions_ok_distinct] n(2) [of j] assms(3) [of j] by (cases "j = i") auto
  moreover have "container (normalizeGroupContainer rank i s) j g = container s j g" for j g
    by (simp add: container_def n(4))
  ultimately show ?thesis
    using rows_inv_core [OF assms(1), of "pt_widgets s"] n(3) assms(2) by (simp add: pins_inv_def n(4))
qed

text \<open>One more row enters a container wherever it stands in the table.\<close>

lemma positions_enter:
  assumes "distinct (map pos (filter P rs))" and "distinct (map rid rs)" and "row \<in> set rs"
    and "\<not> P row" and "P (f row)" and "pos (f row) = next_of (map pos (filter P rs))"
    and "\<And>w. w \<in> set rs \<Longrightarrow> w \<noteq> row \<Longrightarrow> h w = w" and "h row = f row"
  shows "distinct (map pos (filter P (map h rs)))"
proof -
  obtain xs ys where rs: "rs = xs @ row # ys" using assms(3) by (meson split_list)
  have ne: "w \<noteq> row" if "w \<in> set xs \<union> set ys" for w using assms(2) that unfolding rs by auto
  have "map h xs = xs" "map h ys = ys" using assms(7) ne unfolding rs by (auto intro!: map_idI)
  then have "mset (map pos (filter P (map h rs))) = mset (map pos (filter P rs) @ [next_of (map pos (filter P rs))])"
    using assms(4,5,6,8) by (simp add: rs)
  moreover have "distinct (map pos (filter P rs) @ [next_of (map pos (filter P rs))])"
    using assms(1) next_of_fresh [of "map pos (filter P rs)"] by simp
  ultimately show ?thesis using mset_eq_imp_distinct_iff by blast
qed

section \<open>Moving a group to another scope\<close>

lemma pins_inv_move_group:
  assumes inv: "pins_inv s" and g: "g \<in> set (pt_groups s)" and ne: "i \<noteq> group_identity g"
    and sc: "scope_ok (id_scope i) (id_owner i)"
  shows "pins_inv (move_group rank g i s)"
proof -
  note D = pins_invD [OF inv]
  define fg where "fg x = x\<lparr>pg_owner := id_owner i, pg_scope := id_scope i, pg_position := nextGroupPosition s i\<rparr>" for x :: widget_group
  define hg where "hg x = (if pg_id x = pg_id g then fg x else x)" for x
  define hw where "hw w = (if pw_group w = Some (pg_id g) then w\<lparr>pw_owner := id_owner i, pw_scope := id_scope i\<rparr> else w)" for w :: widget
  define s2 where "s2 = s\<lparr>pt_groups := map hg (pt_groups s), pt_widgets := map hw (pt_widgets s)\<rparr>"
  have m: "move_group rank g i s = normalizeGroupContainer rank (group_identity g) s2"
    unfolding move_group_def update_group_def s2_def hg_def fg_def hw_def Let_def by simp
  have uniq: "x = g" if "x \<in> set (pt_groups s)" "pg_id x = pg_id g" for x
    using that g D(3) by (auto simp: distinct_map inj_on_def)
  have idw: "pw_id (hw w) = pw_id w" "pw_group (hw w) = pw_group w" "pw_position (hw w) = pw_position w" for w
    by (simp_all add: hw_def)
  have idg: "pg_id (hg x) = pg_id x" for x by (simp add: hg_def fg_def)
  have "rows_inv (map hw (pt_widgets s)) (map hg (pt_groups s))"
  proof -
    have "group_member (map hg (pt_groups s)) (hw w)" if w: "group_member (pt_groups s) w" for w
    proof (cases "pw_group w = Some (pg_id g)")
      case True
      then show ?thesis
        unfolding group_member_def hw_def by simp (rule bexI [OF _ g], simp add: hg_def fg_def)
    next
      case False
      show ?thesis
        unfolding group_member_def
      proof (intro allI impI)
        fix k assume k: "pw_group (hw w) = Some k"
        then have wk: "pw_group w = Some k" "hw w = w" "k \<noteq> pg_id g" using False by (auto simp: hw_def)
        obtain x where x: "x \<in> set (pt_groups s)" "pg_id x = k" "pg_scope x = pw_scope w" "pg_owner x = pw_owner w"
          using w wk(1) by (auto simp: group_member_def)
        have "hg x = x" using x(2) wk(3) by (simp add: hg_def)
        then show "\<exists>x \<in> set (map hg (pt_groups s)). pg_id x = k \<and> pg_scope x = pw_scope (hw w) \<and> pg_owner x = pw_owner (hw w)"
          using x wk(2) by (metis image_eqI set_map)
      qed
    qed
    moreover have "scope_ok (pw_scope (hw w)) (pw_owner (hw w))" if "scope_ok (pw_scope w) (pw_owner w)" for w
      using that sc by (simp add: hw_def)
    moreover have "scope_ok (pg_scope (hg x)) (pg_owner (hg x)) \<and> pg_id (hg x) \<noteq> []"
      if "scope_ok (pg_scope x) (pg_owner x) \<and> pg_id x \<noteq> []" for x
      using that sc by (auto simp: hg_def fg_def)
    ultimately show ?thesis using D(1) by (simp add: rows_inv_def o_def idw idg)
  qed
  moreover have "positions_ok (map pw_position (container s2 j k))" for j k
  proof (cases "k = Some (pg_id g)")
    case False
    then have "in_container j k (hw w) = in_container j k w" for w by (auto simp: in_container_def hw_def)
    moreover have "hw w = w" if "in_container j k w" for w using that False by (auto simp: in_container_def hw_def)
    ultimately have "container s2 j k = container s j k"
      by (auto simp: container_def s2_def filter_map o_def intro!: map_idI)
    then show ?thesis using D(4) by simp
  next
    case True
    have mem: "in_container (group_identity g) k w" if mw: "w \<in> set (pt_widgets s)" "pw_group w = k" for w
    proof -
      obtain x where x: "x \<in> set (pt_groups s)" "pg_id x = pg_id g" "pg_scope x = pw_scope w" "pg_owner x = pw_owner w"
        using D(1) mw True unfolding rows_inv_def group_member_def by meson
      then show ?thesis using uniq [OF x(1,2)] mw(2) by (simp add: in_container_def group_identity_def)
    qed
    have "map pw_position (container s2 j k) = (if j = i then map pw_position (container s (group_identity g) k) else [])"
    proof -
      have "in_container j k (hw w) \<longleftrightarrow> j = i \<and> in_container (group_identity g) k w" if "w \<in> set (pt_widgets s)" for w
        using mem [OF that] True by (auto simp: in_container_def hw_def intro: identity_eqI)
      then have "filter (\<lambda>w. in_container j k (hw w)) (pt_widgets s)
          = filter (\<lambda>w. j = i \<and> in_container (group_identity g) k w) (pt_widgets s)" by (intro filter_cong) auto
      then show ?thesis by (simp add: container_def s2_def filter_map o_def idw)
    qed
    then show ?thesis using D(4) by simp
  qed
  moreover have "distinct (map pg_position (group_container s2 j))" if j: "j \<noteq> group_identity g" for j
  proof (cases "j = i")
    case True
    have "distinct (map pg_position (filter (\<lambda>x. pg_scope x = id_scope j \<and> pg_owner x = id_owner j) (map hg (pt_groups s))))"
    proof (rule positions_enter [where row = g and f = fg and rid = pg_id])
      show "hg w = w" if "w \<in> set (pt_groups s)" "w \<noteq> g" for w using that uniq by (auto simp: hg_def)
      show "\<not> (pg_scope g = id_scope j \<and> pg_owner g = id_owner j)"
        using j by (auto simp: group_identity_def intro: identity_eqI)
    qed (use D(3) D(5) [of j] g True in \<open>simp_all add: group_container_def fg_def hg_def nextGroupPosition_def\<close>)
    then show ?thesis by (simp add: group_container_def s2_def)
  next
    case False
    have "filter (\<lambda>x. pg_scope x = id_scope j \<and> pg_owner x = id_owner j) (map hg gs)
        = filter (\<lambda>x. pg_scope x = id_scope j \<and> pg_owner x = id_owner j) gs" if "set gs \<subseteq> set (pt_groups s)" for gs
      using that
    proof (induction gs)
      case (Cons x gs)
      have "x = g" if "pg_id x = pg_id g" using Cons.prems that uniq by auto
      then show ?case
        using Cons j False by (auto simp: hg_def fg_def group_identity_def intro: identity_eqI)
    qed simp
    then show ?thesis using D(5) [of j] by (simp add: group_container_def s2_def)
  qed
  ultimately show ?thesis unfolding m by (intro pins_inv_normalize_groups) (simp_all add: s2_def)
qed

section \<open>Deleting a group\<close>

definition ungrouped :: "string \<Rightarrow> widget \<Rightarrow> widget" where
  "ungrouped i w = (if pw_group w = Some i then w\<lparr>pw_group := None\<rparr> else w)"

lemma fold_ungroup:
  "fold (\<lambda>i. update_widget i (\<lambda>w. w\<lparr>pw_group := None\<rparr>)) is s
   = s\<lparr>pt_widgets := map (\<lambda>w. if pw_id w \<in> set is then w\<lparr>pw_group := None\<rparr> else w) (pt_widgets s)\<rparr>"
  by (induction "is" arbitrary: s) (auto simp: update_widget_def)

lemma fold_delete_widget:
  "fold delete_widget is s = s\<lparr>pt_widgets := filter (\<lambda>w. pw_id w \<notin> set is) (pt_widgets s)\<rparr>"
  by (induction "is" arbitrary: s) (auto simp: delete_widget_def intro: filter_cong)

lemma child_ids:
  assumes "distinct (map pw_id ws)" and "w \<in> set ws"
  shows "pw_id w \<in> pw_id ` {v \<in> set ws. pw_group v = Some i} \<longleftrightarrow> pw_group w = Some i"
  using assms by (auto simp: distinct_map dest: inj_onD)

text \<open>What is left of the tables once the children are ungrouped or deleted and the group is gone.\<close>

lemma delete_group_rows:
  assumes d: "distinct (map pw_id (pt_widgets s))"
    and children: "children = map pw_id (filter (\<lambda>w. pw_group w = Some i) (pt_widgets s))"
  shows "delete_group i (fold delete_widget children s)
      = s\<lparr>pt_groups := filter (\<lambda>g. pg_id g \<noteq> i) (pt_groups s),
          pt_widgets := filter (\<lambda>w. pw_group w \<noteq> Some i) (pt_widgets s)\<rparr>"
    and "delete_group i (fold (\<lambda>i. update_widget i (\<lambda>w. w\<lparr>pw_group := None\<rparr>)) children s)
      = s\<lparr>pt_groups := filter (\<lambda>g. pg_id g \<noteq> i) (pt_groups s), pt_widgets := map (ungrouped i) (pt_widgets s)\<rparr>"
proof -
  have c: "pw_id w \<in> set children \<longleftrightarrow> pw_group w = Some i" if "w \<in> set (pt_widgets s)" for w
    using child_ids [OF d that, of i] by (simp add: children)
  then have "filter (\<lambda>w. pw_id w \<notin> set children) (pt_widgets s) = filter (\<lambda>w. pw_group w \<noteq> Some i) (pt_widgets s)"
    by (auto intro: filter_cong)
  moreover have "map (\<lambda>w. if pw_group w = Some i then w\<lparr>pw_group := None\<rparr> else w) (filter (\<lambda>w. pw_group w \<noteq> Some i) (pt_widgets s))
      = filter (\<lambda>w. pw_group w \<noteq> Some i) (pt_widgets s)"
    by (rule map_idI) simp
  ultimately show "delete_group i (fold delete_widget children s)
      = s\<lparr>pt_groups := filter (\<lambda>g. pg_id g \<noteq> i) (pt_groups s),
          pt_widgets := filter (\<lambda>w. pw_group w \<noteq> Some i) (pt_widgets s)\<rparr>"
    unfolding fold_delete_widget delete_group_def by simp
  show "delete_group i (fold (\<lambda>i. update_widget i (\<lambda>w. w\<lparr>pw_group := None\<rparr>)) children s)
      = s\<lparr>pt_groups := filter (\<lambda>g. pg_id g \<noteq> i) (pt_groups s), pt_widgets := map (ungrouped i) (pt_widgets s)\<rparr>"
    unfolding fold_ungroup delete_group_def using c by (auto simp: ungrouped_def)
qed

lemma group_member_filter:
  assumes "group_member gs w" and "pw_group w \<noteq> Some i"
  shows "group_member (filter (\<lambda>x. pg_id x \<noteq> i) gs) w"
  unfolding group_member_def
proof (intro allI impI)
  fix k assume k: "pw_group w = Some k"
  then obtain x where "x \<in> set gs" "pg_id x = k \<and> pg_scope x = pw_scope w \<and> pg_owner x = pw_owner w"
    using assms(1) by (auto simp: group_member_def)
  then show "\<exists>x \<in> set (filter (\<lambda>x. pg_id x \<noteq> i) gs). pg_id x = k \<and> pg_scope x = pw_scope w \<and> pg_owner x = pw_owner w"
    using k assms(2) by (intro bexI [of _ x]) auto
qed

lemma pins_inv_delete_group:
  assumes inv: "pins_inv s" and g: "g \<in> set (pt_groups s)"
    and ws: "ws = filter (\<lambda>w. pw_group w \<noteq> Some (pg_id g)) (pt_widgets s) \<or> ws = map (ungrouped (pg_id g)) (pt_widgets s)"
  shows "pins_inv (normalizeContainer rank (group_identity g) None
           (s\<lparr>pt_groups := filter (\<lambda>x. pg_id x \<noteq> pg_id g) (pt_groups s), pt_widgets := ws\<rparr>))"
    (is "pins_inv (normalizeContainer _ _ _ ?s)")
proof (rule pins_inv_normalize)
  note D = pins_invD [OF inv]
  have keep: "group_member (filter (\<lambda>x. pg_id x \<noteq> pg_id g) (pt_groups s)) w"
    if "group_member (pt_groups s) w" "pw_group w \<noteq> Some (pg_id g)" for w
    using that by (rule group_member_filter)
  have un: "group_member (filter (\<lambda>x. pg_id x \<noteq> pg_id g) (pt_groups s)) (ungrouped (pg_id g) w)"
    if "group_member (pt_groups s) w" for w
    using that keep [of w] by (cases "pw_group w = Some (pg_id g)") (auto simp: ungrouped_def group_member_def)
  have fields: "pw_id (ungrouped i w) = pw_id w" "pw_scope (ungrouped i w) = pw_scope w" "pw_owner (ungrouped i w) = pw_owner w"
    for i w by (simp_all add: ungrouped_def)
  show "rows_inv (pt_widgets ?s) (pt_groups ?s)"
    using D(1) ws keep un by (auto simp: rows_inv_def distinct_map_filter fields o_def)
  show "distinct (map pg_position (group_container ?s j))" for j
  proof -
    have "group_container ?s j = filter (\<lambda>x. pg_id x \<noteq> pg_id g) (group_container s j)"
      by (auto simp: group_container_def intro: filter_cong)
    then show ?thesis using D(5) [of j] by (simp add: distinct_map_filter)
  qed
  show "positions_ok (map pw_position (container ?s j k))" if n: "(j, k) \<noteq> (group_identity g, None)" for j k
  proof -
    have mem: "identity_of w = group_identity g" if "w \<in> set (pt_widgets s)" "pw_group w = Some (pg_id g)" for w
      using D(1,3) that g unfolding rows_inv_def group_member_def distinct_map
      by (metis group_identity_def identity_of_def inj_onD)
    have "container ?s j k = (if k = Some (pg_id g) then [] else container s j k)" using ws
    proof
      assume ws: "ws = filter (\<lambda>w. pw_group w \<noteq> Some (pg_id g)) (pt_widgets s)"
      then show ?thesis by (auto simp: container_def in_container_def intro!: filter_cong filter_False)
    next
      assume ws: "ws = map (ungrouped (pg_id g)) (pt_widgets s)"
      have "in_container j k (ungrouped (pg_id g) w) \<longleftrightarrow> k \<noteq> Some (pg_id g) \<and> in_container j k w"
        if "w \<in> set (pt_widgets s)" for w
        using mem [OF that] n by (auto simp: ungrouped_def in_container_def identity_of_def group_identity_def)
      moreover have "ungrouped (pg_id g) w = w" if "in_container j k w" "k \<noteq> Some (pg_id g)" for w
        using that by (simp add: ungrouped_def in_container_def)
      ultimately show ?thesis
        by (auto simp: container_def ws filter_map o_def cong: filter_cong intro!: map_idI)
    qed
    then show ?thesis using D(4) by simp
  qed
qed

section \<open>Every route keeps the tables consistent\<close>

lemma pins_inv_patch_group:
  assumes inv: "pins_inv s" and r: "patch_group rank owner_of body s = Inr s'"
  shows "pins_inv s'"
proof -
  define i where "i = (if nullish (js_get body ''id'') then [] else js_string_opt (js_get body ''id''))"
  obtain g where fg: "find_group s i = Some g"
    using r by (cases "find_group s i") (simp_all add: patch_group_def i_def)
  then have g: "g \<in> set (pt_groups s)" by (simp add: find_groupD)
  obtain identity where i: "(if js_get body ''scope'' = None then Inr (group_identity g) else scopeIdentity owner_of body) = Inr identity"
    using r fg unfolding patch_group_def i_def by (auto split: sum.splits)
  obtain nm where nm: "(if js_get body ''name'' = None then Inr None
      else map_sum id Some (normalizeLabel (js_get body ''name'') None)) = Inr nm"
    using r fg i unfolding patch_group_def i_def by (auto split: sum.splits)
  have s': "s' = (let s1 = (if identity \<noteq> group_identity g then move_group rank g identity s else s);
                       s2 = (case nm of None \<Rightarrow> s1 | Some n \<Rightarrow> update_group (pg_id g) (\<lambda>x. x\<lparr>pg_name := take group_name_max_chars n\<rparr>) s1)
                   in emit_pin (GroupUpdated (pg_id g)) s2)"
    using r fg i nm unfolding patch_group_def i_def by (simp add: Let_def)
  have "scope_ok (pg_scope g) (pg_owner g)" using pins_invD(1) [OF inv] g by (simp add: rows_inv_def)
  then have "scope_ok (id_scope identity) (id_owner identity)"
    using i scopeIdentity_ok by (auto simp: group_identity_def split: if_splits)
  then have "pins_inv (if identity \<noteq> group_identity g then move_group rank g identity s else s)"
    using inv g pins_inv_move_group by simp
  then show ?thesis unfolding s' Let_def
    by (cases nm) (auto intro!: update_group_frame simp: group_core_def split: if_splits)
qed

lemma pins_inv_delete_group_route:
  assumes inv: "pins_inv s" and r: "delete_group_route rank i ungroup deleteWidgets s = Inr s'"
  shows "pins_inv s'"
proof -
  obtain g ids where g: "g \<in> set (pt_groups s)" "pg_id g = i"
    and s': "s' = emit_pin (GroupDeleted i ids) (normalizeContainer rank (group_identity g) None (delete_group i
        (if deleteWidgets
         then fold delete_widget (map pw_id (filter (\<lambda>w. pw_group w = Some i) (pt_widgets s))) s
         else fold (\<lambda>i. update_widget i (\<lambda>w. w\<lparr>pw_group := None\<rparr>)) (map pw_id (filter (\<lambda>w. pw_group w = Some i) (pt_widgets s))) s)))"
    using r unfolding delete_group_route_def Let_def by (auto split: option.splits if_splits dest!: find_groupD)
  show ?thesis
    unfolding s' pins_inv_emit
    using pins_inv_delete_group [OF inv g(1), where rank = rank] delete_group_rows [OF pins_invD(2) [OF inv] refl, of i]
    by (simp add: g(2) split: if_splits)
qed

lemma pins_inv_patch_label: "pins_inv s \<Longrightarrow> pins_inv (patch_label l i s)"
  by (cases l) (auto simp: patch_label_def intro!: pins_inv_relabel)

end
