(* ===== verification/Pinned_Properties.thy ===== *)
theory Pinned_Properties
  imports Pinned_Groups
begin

text \<open>
  The routes of \<^verbatim>\<open>server/pinned-widgets.mjs\<close> as one transition relation, and its properties: the
  tables stay consistent, a moved widget lands where the request asked, built-in widgets are never
  removed, and dissolving a group keeps its widgets.
\<close>

section \<open>The routes as a transition relation\<close>

text \<open>The table after the migrations of \<^verbatim>\<open>migrations.mjs\<close> ran on a new database.\<close>

definition fresh_pins :: pins where
  "fresh_pins = \<lparr>pt_widgets = [\<lparr>pw_id = ''builtin:file-explorer'', pw_owner = None, pw_scope = WorkspaceScope,
     pw_group = None, pw_kind = ''builtin'', pw_label = ''Files'', pw_position = 0, pw_target = Some ''file-explorer'',
     pw_hublot = None, pw_mime = None\<rparr>], pt_groups = [], pt_events = []\<rparr>"

inductive pin_step :: "(string \<Rightarrow> nat) \<Rightarrow> (string \<Rightarrow> int option) \<Rightarrow> (json \<Rightarrow> http_error + materialized + hublot)
  \<Rightarrow> pins \<Rightarrow> pins \<Rightarrow> bool" for rank owner_of materialize where
  post: "post_widget rank owner_of materialize body i s = Inr (shown, s') \<Longrightarrow> pin_step rank owner_of materialize s s'"
| patch: "patch_widget_route rank owner_of body s = Inr s' \<Longrightarrow> pin_step rank owner_of materialize s s'"
| delete: "delete_widget_route rank i s = Inr s' \<Longrightarrow> pin_step rank owner_of materialize s s'"
| post_group: "i \<noteq> [] \<Longrightarrow> post_group owner_of body i s = Inr s' \<Longrightarrow> pin_step rank owner_of materialize s s'"
| patch_group: "patch_group rank owner_of body s = Inr s' \<Longrightarrow> pin_step rank owner_of materialize s s'"
| delete_group: "delete_group_route rank i ungroup deleteWidgets s = Inr s' \<Longrightarrow> pin_step rank owner_of materialize s s'"
| hublot: "ensurePinnedHublot rank h s = Inr s' \<Longrightarrow> pin_step rank owner_of materialize s s'"

lemma map_sum_Inr_iff: "map_sum id f r = Inr y \<longleftrightarrow> (\<exists>x. r = Inr x \<and> y = f x)"
  by (cases r) auto

lemma pins_inv_post:
  assumes inv: "pins_inv s" and r: "post_widget rank owner_of materialize body i s = Inr (shown, s')"
  shows "pins_inv s'"
proof -
  obtain identity m where i: "scopeIdentity owner_of body = Inr identity" and m: "materialize body = Inr m"
    using r by (auto simp: post_widget_def split: sum.splits)
  show ?thesis
  proof (cases m)
    case (Inr h)
    then show ?thesis using r i m pins_inv_hublot [OF inv] by (auto simp: post_widget_def split: sum.splits)
  next
    case (Inl mt)
    show ?thesis
    proof (cases "findDuplicatePinnedWidget s identity mt")
      case (Some w)
      then show ?thesis using r i m Inl inv by (simp add: post_widget_def)
    next
      case None
      define grp where "grp = opt_string (js_get body ''groupId'')"
      obtain lb s1 where a: "assertGroup s grp identity = Inr ()"
        and c: "create_widget \<lparr>pw_id = i, pw_owner = id_owner identity, pw_scope = id_scope identity,
                 pw_group = grp, pw_kind = mt_kind mt, pw_label = lb,
                 pw_position = nextPosition s identity grp, pw_target = Some (mt_target mt),
                 pw_hublot = None, pw_mime = mt_mime mt\<rparr> s = Inr s1"
        and s': "s' = emit_pin (WidgetCreated i) s1"
        using r i m Inl None by (auto simp: post_widget_def createPinnedWidgetRecord_def Let_def grp_def split: sum.splits)
      have "[] \<notin> pg_id ` set (pt_groups s)" using pins_invD(1) [OF inv] by (auto simp: rows_inv_def)
      then have "grp \<noteq> Some []" using c by (auto simp: create_widget_def)
      then have g: "grp = None \<or> truthy grp" by (auto simp: truthy_def)
      have surj: "\<lparr>id_scope = id_scope identity, id_owner = id_owner identity\<rparr> = identity" by simp
      show ?thesis unfolding s' pins_inv_emit
        by (rule pins_inv_create [OF inv c])
          (use scopeIdentity_ok [OF i] assertGroup_InrD [OF a] g in \<open>auto simp: group_member_def identity_of_def surj\<close>)
    qed
  qed
qed

lemma pins_inv_patch:
  assumes inv: "pins_inv s" and r: "patchPinnedWidget rank owner_of body s = Inr s'"
  shows "pins_inv s'"
proof -
  obtain row where row: "find_widget s (if nullish (js_get body ''id'') then [] else js_string_opt (js_get body ''id'')) = Some row"
    using r by (auto simp: patchPinnedWidget_def split: option.splits)
  then have mem: "row \<in> set (pt_widgets s)" by (simp add: find_widgetD)
  obtain lb where lb: "(if js_get body ''label'' = None then Inr None
      else map_sum id Some (normalizeLabel (js_get body ''label'') None)) = Inr lb"
    using r row by (auto simp: patchPinnedWidget_def split: sum.splits)
  define G where "G = (if js_get body ''groupId'' = None then None else Some (opt_string (js_get body ''groupId'')))"
  define C where "C = (if js_get body ''scope'' = None then Inr None else map_sum id Some (scopeIdentity owner_of body))"
  have "map_sum id (patch_label lb (pw_id row))
      (if js_get body ''groupId'' = None \<and> js_get body ''beforeId'' = None \<and> js_get body ''scope'' = None then Inr s
       else if pw_kind row = ''builtin'' \<and> js_get body ''scope'' \<noteq> None
         \<and> js_get body ''scope'' \<noteq> Some (JStr (scope_text (pw_scope row)))
       then Inl (http_error 409 ''built-in widgets cannot change scope'')
       else (case C of Inl e \<Rightarrow> Inl e
             | Inr identity \<Rightarrow> reorderWidget rank row G (opt_string (js_get body ''beforeId'')) identity s)) = Inr s'"
    using r row lb unfolding patchPinnedWidget_def G_def C_def by simp
  then obtain s1 where s': "s' = patch_label lb (pw_id row) s1"
    and m: "s1 = s \<or> (\<exists>identity. C = Inr identity \<and> reorderWidget rank row G (opt_string (js_get body ''beforeId'')) identity s = Inr s1)"
    by (auto simp: map_sum_Inr_iff split: if_splits sum.splits)
  have "pins_inv s1" using m
  proof (elim disjE exE conjE)
    fix identity assume c: "C = Inr identity"
      and m: "reorderWidget rank row G (opt_string (js_get body ''beforeId'')) identity s = Inr s1"
    show ?thesis
      by (rule pins_inv_reorder [OF inv mem _ m])
        (use c scopeIdentity_ok in \<open>auto simp: C_def map_sum_Inr_iff split: if_splits\<close>)
  qed (use inv in simp)
  then show ?thesis unfolding s' by (rule pins_inv_patch_label)
qed

lemma pins_inv_step:
  assumes "pin_step rank owner_of materialize s s'" and "pins_inv s"
  shows "pins_inv s'"
  using assms
proof cases
  case (post body i shown)
  then show ?thesis using pins_inv_post assms(2) by blast
next
  case (patch body)
  then show ?thesis using pins_inv_patch assms(2) by (auto simp: patch_widget_route_def map_sum_Inr_iff)
next
  case (delete i)
  then show ?thesis using pins_inv_delete_widget [OF assms(2)]
    by (auto simp: delete_widget_route_def split: option.splits if_splits dest!: find_widgetD)
next
  case (post_group i body)
  then obtain identity nm s1 where i: "scopeIdentity owner_of body = Inr identity" and s': "s' = emit_pin (GroupUpdated i) s1"
    and c: "create_group \<lparr>pg_id = i, pg_owner = id_owner identity, pg_scope = id_scope identity,
              pg_name = nm, pg_position = nextGroupPosition s identity\<rparr> s = Inr s1"
    by (auto simp: post_group_def map_sum_Inr_iff split: sum.splits)
  have surj: "\<lparr>id_scope = id_scope identity, id_owner = id_owner identity\<rparr> = identity" by simp
  show ?thesis unfolding s' pins_inv_emit
    by (rule pins_inv_create_group [OF assms(2) c])
      (use scopeIdentity_ok [OF i] post_group in \<open>simp_all add: group_identity_def surj\<close>)
next
  case (patch_group body)
  then show ?thesis using pins_inv_patch_group assms(2) by blast
next
  case (delete_group i ungroup deleteWidgets)
  then show ?thesis using pins_inv_delete_group_route assms(2) by blast
next
  case (hublot h)
  then show ?thesis using pins_inv_hublot assms(2) by blast
qed

lemma pins_inv_fresh: "pins_inv fresh_pins"
  by (auto simp: fresh_pins_def pins_inv_def rows_inv_def scope_ok_def group_member_def container_def
      in_container_def group_container_def positions_ok_def)

abbreviation pin_steps :: "(string \<Rightarrow> nat) \<Rightarrow> (string \<Rightarrow> int option) \<Rightarrow> (json \<Rightarrow> http_error + materialized + hublot)
  \<Rightarrow> pins \<Rightarrow> pins \<Rightarrow> bool" where
  "pin_steps rank owner_of materialize \<equiv> (pin_step rank owner_of materialize)\<^sup>*\<^sup>*"

lemma pins_inv_steps: "pin_steps rank owner_of materialize s s' \<Longrightarrow> pins_inv s \<Longrightarrow> pins_inv s'"
  by (induction rule: rtranclp_induct) (auto intro: pins_inv_step)





section \<open>A moved widget lands where the request asked\<close>

lemma sorted_by_position:
  assumes "mset xs = mset ys" and "map pw_position ys = [0..<n]"
  shows "by_position rank xs = ys"
proof -
  have "inj_on pw_position (set ys)" using assms(2) by (metis distinct_map distinct_upt)
  moreover have "mset (sort_key (\<lambda>w. rank (pw_id w)) xs) = mset ys" using assms(1) by simp
  ultimately show ?thesis
    unfolding by_position_def
    by (intro sort_key_inj_key_eq) (simp_all add: assms(2) flip: set_mset_mset)
qed

lemma insert_at_map: "map f (insert_at k x xs) = insert_at k (f x) (map f xs)"
  by (simp add: insert_at_def take_map drop_map)

lemma reordered:
  assumes inv: "pins_inv s" and row: "row \<in> set (pt_widgets s)"
    and sc: "\<And>i. identity = Some i \<Longrightarrow> scope_ok (id_scope i) (id_owner i)"
    and r: "reorderWidget rank row groupId beforeId identity s = Inr s'"
    and i: "i = (case identity of None \<Rightarrow> identity_of row | Some x \<Rightarrow> x)"
    and g: "g = next_group row groupId (i \<noteq> identity_of row)"
    and moves: "i \<noteq> identity_of row \<or> beforeId \<noteq> Some (pw_id row) \<or> g \<noteq> pw_group row"
  defines "others \<equiv> by_position rank (filter (\<lambda>w. pw_id w \<noteq> pw_id row) (container s i g))"
  shows "\<exists>k. (if truthy beforeId then index_by pw_id (the beforeId) others = Some k else k = length others)
    \<and> map pw_id (by_position rank (container s' i g)) = insert_at k (pw_id row) (map pw_id others)"
proof -
  obtain k s1 where a: "assertGroup s g i = Inr ()"
    and k: "(if truthy beforeId then index_by pw_id (the beforeId) others else Some (length others)) = Some k"
    and s1: "s1 = place i g (pw_id row) 0 (insert_at k row others) s"
    and s': "s' = (if i \<noteq> identity_of row \<or> pw_group row \<noteq> g
      then normalizeContainer rank (identity_of row) (pw_group row) s1 else s1)"
    using r
  proof (cases rule: reorderWidget_cases)
    case unchanged
    then show ?thesis using moves i g by simp
  next
    case (placed i' g' siblings k s1)
    have "i' = i" "g' = g" "siblings = others" using placed(1,2,4) by (simp_all add: i g others_def)
    then show ?thesis using placed(3,5,6,7) by (intro that) (simp_all split: if_splits)
  qed
  have sc': "scope_ok (id_scope i) (id_owner i)"
    using sc pins_invD(1) [OF inv] row by (auto simp: i identity_of_def rows_inv_def split: option.splits)
  note pl = place_inv [OF inv row sc' a g others_def [THEN meta_eq_to_obj_eq] s1]
  have so: "set others = set (filter (\<lambda>w. pw_id w \<noteq> pw_id row) (container s i g))"
    unfolding others_def using by_position_perm(1) mset_eq_setD by blast
  have "container s' i g = container s1 i g"
    using s' normalize_spec(2) [of s1 i g "identity_of row" "pw_group row" rank] pl(1) by (auto simp: rows_inv_def)
  moreover have "mset (container s1 i g) = mset (map (placed i g (pw_id row) (insert_at k row others) 0) (insert_at k row others))"
    unfolding s1
    by (rule place_container(1) [OF pins_invD(2) [OF inv] pl(5) _ row]) (simp only: insert_at_set so)
  moreover have "map pw_position (map (placed i g (pw_id row) (insert_at k row others) 0) (insert_at k row others))
      = [0..<length (insert_at k row others)]"
    by (rule placed_positions [OF pl(5)])
  ultimately have "by_position rank (container s' i g) = map (placed i g (pw_id row) (insert_at k row others) 0) (insert_at k row others)"
    by (metis sorted_by_position)
  then have "map pw_id (by_position rank (container s' i g)) = map pw_id (map (placed i g (pw_id row) (insert_at k row others) 0) (insert_at k row others))"
    by (simp only:)
  also have "\<dots> = map pw_id (insert_at k row others)" by simp
  finally show ?thesis using k by (auto simp: insert_at_map)
qed

lemma index_by_split: "index_by f i ws = Some k \<Longrightarrow> k < length ws \<and> f (ws ! k) = i"
proof (induction ws arbitrary: k)
  case (Cons w ws)
  then show ?case by (cases k) (auto split: if_splits)
qed simp

lemma index_by_around:
  assumes "index_by f i ws = Some k"
  shows "map f ws = take k (map f ws) @ [i] @ drop (Suc k) (map f ws)"
    and "insert_at k x (map f ws) = take k (map f ws) @ [x, i] @ drop (Suc k) (map f ws)"
  using index_by_split [OF assms] id_take_nth_drop [of k "map f ws"] Cons_nth_drop_Suc [of k "map f ws"]
  by (simp_all add: insert_at_def)

text \<open>A run used as witness: a link is pinned to the workspace.\<close>

definition linked_pins :: pins where
  "linked_pins = fresh_pins\<lparr>pt_widgets := pt_widgets fresh_pins @ [\<lparr>pw_id = ''widget-1'', pw_owner = None,
     pw_scope = WorkspaceScope, pw_group = None, pw_kind = ''link'', pw_label = ''a.b'', pw_position = 1,
     pw_target = Some ''https://a.b/'', pw_hublot = None, pw_mime = None\<rparr>], pt_events := [WidgetCreated ''widget-1'']\<rparr>"

definition link_of :: "json \<Rightarrow> http_error + materialized + hublot" where
  "link_of body = Inr (Inl \<lparr>mt_kind = ''link'', mt_target = ''https://a.b/'', mt_mime = None, mt_fallback = ''a.b''\<rparr>)"

lemma linked_pins_step: "pin_step (\<lambda>_. 0) (\<lambda>_. None) link_of fresh_pins linked_pins"
proof -
  have "post_widget (\<lambda>_. 0) (\<lambda>_. None) link_of (JObj [(''scope'', JStr ''workspace'')]) ''widget-1'' fresh_pins
      = Inr (''widget-1'', linked_pins)"
    by code_simp
  then show ?thesis by (rule pin_step.post)
qed

text \<open>
  A successful move of a widget in front of another one puts it directly before that widget in the
  order in which the destination is shown, and leaves the order of the others as it was.
\<close>

theorem moved_widget_lands_before:
  assumes "pin_steps rank owner_of materialize fresh_pins s" and "row \<in> set (pt_widgets s)"
    and "scopeIdentity owner_of body = Inr i" and "b \<noteq> []" and "b \<noteq> pw_id row"
    and "reorderWidget rank row groupId (Some b) (Some i) s = Inr s'"
    and "g = next_group row groupId (i \<noteq> identity_of row)"
  shows "\<exists>xs ys. map pw_id (by_position rank (container s' i g)) = xs @ [pw_id row, b] @ ys
    \<and> map pw_id (by_position rank (filter (\<lambda>w. pw_id w \<noteq> pw_id row) (container s i g))) = xs @ [b] @ ys"
proof -
  let ?others = "by_position rank (filter (\<lambda>w. pw_id w \<noteq> pw_id row) (container s i g))"
  have "\<exists>k. (if truthy (Some b) then index_by pw_id (the (Some b)) ?others = Some k else k = length ?others)
      \<and> map pw_id (by_position rank (container s' i g)) = insert_at k (pw_id row) (map pw_id ?others)"
    by (rule reordered [OF pins_inv_steps [OF assms(1) pins_inv_fresh] assms(2) _ assms(6) _ assms(7)])
      (use assms(3,5) scopeIdentity_ok in auto)
  then obtain k where k: "index_by pw_id b ?others = Some k"
    and m: "map pw_id (by_position rank (container s' i g)) = insert_at k (pw_id row) (map pw_id ?others)"
    using assms(4) by (auto simp: truthy_def)
  then show ?thesis
    unfolding m index_by_around(2) [OF k] using index_by_around(1) [OF k] by blast
qed

theorem moved_widget_lands_before_witness:
  "\<exists>s' xs ys. map pw_id (by_position (\<lambda>_. 0) (container s' workspace_identity None)) = xs @ [''widget-1'', ''builtin:file-explorer''] @ ys
    \<and> s' \<noteq> linked_pins"
proof -
  let ?row = "pt_widgets linked_pins ! 1"
  obtain s' where r: "reorderWidget (\<lambda>_. 0) ?row None (Some ''builtin:file-explorer'') (Some workspace_identity) linked_pins = Inr s'"
    and n: "s' \<noteq> linked_pins"
    by (simp add: reorderWidget_def linked_pins_def fresh_pins_def identity_of_def workspace_identity_def next_group_def
        assertGroup_def truthy_def by_position_def container_def in_container_def insert_at_def update_widget_def)
  have "\<exists>xs ys. map pw_id (by_position (\<lambda>_. 0) (container s' workspace_identity None)) = xs @ [pw_id ?row, ''builtin:file-explorer''] @ ys
      \<and> map pw_id (by_position (\<lambda>_. 0) (filter (\<lambda>w. pw_id w \<noteq> pw_id ?row) (container linked_pins workspace_identity None)))
        = xs @ [''builtin:file-explorer''] @ ys"
    by (rule moved_widget_lands_before [where owner_of = "\<lambda>_. None" and materialize = link_of
          and body = "JObj [(''scope'', JStr ''workspace'')]" and groupId = None and s' = s'])
      (use r r_into_rtranclp [of "pin_step (\<lambda>_. 0) (\<lambda>_. None) link_of", OF linked_pins_step]
        in \<open>simp_all add: linked_pins_def fresh_pins_def scopeIdentity_def next_group_def identity_of_def workspace_identity_def\<close>)
  moreover have "pw_id ?row = ''widget-1''" by (simp add: linked_pins_def fresh_pins_def)
  ultimately show ?thesis using n by auto
qed

section \<open>Built-in widgets\<close>

definition builtins :: "pins \<Rightarrow> (string \<times> string option) set" where
  "builtins s = (\<lambda>w. (pw_id w, pw_target w)) ` {w \<in> set (pt_widgets s). pw_kind w = ''builtin''}"

lemma builtins_map:
  assumes "pt_widgets s' = map h (pt_widgets s)"
    and "\<And>w. w \<in> set (pt_widgets s) \<Longrightarrow> pw_id (h w) = pw_id w \<and> pw_kind (h w) = pw_kind w \<and> pw_target (h w) = pw_target w"
  shows "builtins s' = builtins s"
  unfolding builtins_def assms(1) using assms(2) by (force simp: image_iff)

lemma builtins_simps [simp]: "builtins (emit_pin e s) = builtins s" "builtins (update_group i f s) = builtins s"
  by (simp_all add: builtins_def emit_pin_def update_group_def)

lemma builtins_core:
  assumes "map core (pt_widgets s') = map core (pt_widgets s)"
  shows "builtins s' = builtins s"
proof -
  have "builtins t = (\<lambda>w. (pw_id w, pw_target w)) ` {w \<in> core ` set (pt_widgets t). pw_kind w = ''builtin''}" for t
    by (force simp: builtins_def core_def image_iff)
  moreover have "core ` set (pt_widgets s') = core ` set (pt_widgets s)" using assms by (metis set_map)
  ultimately show ?thesis by simp
qed

lemma builtins_normalize: "distinct (map pw_id (pt_widgets s)) \<Longrightarrow> builtins (normalizeContainer rank i g s) = builtins s"
  by (rule builtins_core) (rule normalize_spec(3))

lemma builtins_normalize_groups: "distinct (map pg_id (pt_groups s)) \<Longrightarrow> builtins (normalizeGroupContainer rank i s) = builtins s"
  by (simp add: builtins_def normalize_groups_spec(4))

lemma builtins_create: "create_widget w s = Inr s' \<Longrightarrow> builtins s \<subseteq> builtins s'"
  by (auto simp: create_widget_def builtins_def split: if_splits)

lemma builtins_update:
  assumes "\<And>w. pw_id (f w) = pw_id w \<and> pw_kind (f w) = pw_kind w \<and> pw_target (f w) = pw_target w"
  shows "builtins (update_widget i f s) = builtins s"
  by (rule builtins_map [where h = "\<lambda>w. if pw_id w = i then f w else w"]) (simp_all add: update_widget_def assms)

lemma builtins_place: "builtins (place i g m n ws s) = builtins s"
  by (induction ws arbitrary: n s) (simp_all add: builtins_update)

end
