(* ===== verification/Cloud_Authorization.thy ===== *)
theory Cloud_Authorization
  imports Pinned_Widgets
begin

text \<open>
  \<^verbatim>\<open>oyster-hub/cloud-authorization.mjs\<close>: the browser authorization flows of the cloud providers.
  Flow objects live in a heap (\<open>a_obj\<close>), because a suspended callback keeps its flow after the map
  dropped it; \<open>a_flows\<close> is the key list of the map \<^verbatim>\<open>flows\<close> and \<open>a_index\<close> the map
  \<^verbatim>\<open>stateIndex\<close>.  A callback is cut at its \<^verbatim>\<open>await\<close>s: what it leaves behind is a task.  The
  random values of \<^verbatim>\<open>start\<close> are arguments, and so is the digest function.
\<close>

section \<open>Flows, errors, configuration\<close>

definition flow_ttl_ms :: int where "flow_ttl_ms = 20 * 60 * 1000"
definition max_flows :: nat where "max_flows = 8"
definition provider_ids :: "string list" where "provider_ids = [''digitalocean'', ''gcp'']"

record auth_error =
  ae_message :: string
  ae_status :: int
  ae_code :: string

definition CloudAuthorizationError :: "string \<Rightarrow> auth_error" where
  "CloudAuthorizationError message = \<lparr>ae_message = message, ae_status = 400, ae_code = ''authorization_failed''\<rparr>"

datatype flow_status = Authorizing | Cancelled | Expired | Failed | Succeeded

record flow =
  fl_id :: string
  fl_provider :: string
  fl_state :: string
  fl_verifier :: string
  fl_url :: string
  fl_status :: flow_status
  fl_created :: int
  fl_expires :: int
  fl_account :: json
  fl_project :: json
  fl_error :: string

record oauth_settings =
  oc_clientId :: string
  oc_clientSecret :: string
  oc_redirectUrl :: string
  oc_scope :: string

record credential =
  cr_access :: string
  cr_refresh :: string
  cr_expires :: "int option" \<comment> \<open>\<^term>\<open>None\<close> where the code has \<^verbatim>\<open>null\<close> or \<^verbatim>\<open>NaN\<close>\<close>
  cr_tokenType :: json
  cr_scope :: json
  cr_account :: json

text \<open>What a suspended callback still has to do.\<close>

datatype auth_task =
    Exchange string string
  | Save string credential

record auth =
  a_obj :: "string \<Rightarrow> flow option"
  a_flows :: "string list"
  a_index :: "(string \<times> string) list"
  a_tasks :: "auth_task list"
  a_saved :: "(string \<times> string \<times> credential) list" \<comment> \<open>flow, provider and credential of each successful \<^verbatim>\<open>saveCredential\<close>\<close>
  a_now :: int

definition safeEqual :: "string \<Rightarrow> string \<Rightarrow> bool" where
  "safeEqual left right \<longleftrightarrow> utf8_encode left = utf8_encode right"

definition requiredString :: "json option \<Rightarrow> string \<Rightarrow> auth_error + string" where
  "requiredString value label =
     (case value of
        Some (JStr v) \<Rightarrow> if js_trim v = [] then Inl (CloudAuthorizationError (label @ '' is required'')) else Inr (js_trim v)
      | _ \<Rightarrow> Inl (CloudAuthorizationError (label @ '' is required'')))"

definition configured_settings :: "(string \<Rightarrow> oauth_settings option) \<Rightarrow> string \<Rightarrow> oauth_settings option" where
  "configured_settings config provider =
     (case config provider of
        Some v \<Rightarrow> if oc_clientId v \<noteq> [] \<and> oc_clientSecret v \<noteq> [] \<and> oc_redirectUrl v \<noteq> [] then Some v else None
      | None \<Rightarrow> None)"

definition oauthConfig :: "(string \<Rightarrow> oauth_settings option) \<Rightarrow> string \<Rightarrow> auth_error + oauth_settings" where
  "oauthConfig config provider =
     (case configured_settings config provider of
        Some v \<Rightarrow> Inr v
      | None \<Rightarrow> Inl \<lparr>ae_message = provider @ '' OAuth is not configured'', ae_status = 409, ae_code = ''oauth_not_configured''\<rparr>)"

definition providerName :: "string \<Rightarrow> string" where
  "providerName provider = (if provider = ''digitalocean'' then ''DigitalOcean'' else ''Google Cloud'')"

definition auth_configured :: "(string \<Rightarrow> oauth_settings option) \<Rightarrow> string \<Rightarrow> bool" where
  "auth_configured config provider \<longleftrightarrow> provider \<in> set provider_ids \<and> configured_settings config provider \<noteq> None"

text \<open>What a client sees of a flow; the times are kept in milliseconds.\<close>

record flow_view =
  fv_id :: string
  fv_provider :: string
  fv_status :: flow_status
  fv_created :: int
  fv_expires :: int
  fv_url :: "string option"
  fv_account :: "json option"
  fv_requiresProject :: "bool option"
  fv_error :: "string option"

definition flowSnapshot :: "flow \<Rightarrow> flow_view" where
  "flowSnapshot f =
     \<lparr>fv_id = fl_id f, fv_provider = fl_provider f, fv_status = fl_status f, fv_created = fl_created f,
      fv_expires = fl_expires f,
      fv_url = (if fl_status f = Authorizing then Some (fl_url f) else None),
      fv_account = (if fl_status f = Succeeded then Some (if truthy_json (Some (fl_account f)) then fl_account f else JNull) else None),
      fv_requiresProject = (if fl_status f = Succeeded
        then Some (fl_provider f = ''gcp'' \<and> \<not> truthy_json (Some (fl_project f))) else None),
      fv_error = (if fl_status f = Failed
        then Some (if fl_error f \<noteq> [] then fl_error f else providerName (fl_provider f) @ '' authorization failed'') else None)\<rparr>"

section \<open>The token exchange\<close>

text \<open>\<^verbatim>\<open>URLSearchParams\<close> printed: form encoding of the UTF-8 bytes.\<close>

definition hex_upper :: "nat \<Rightarrow> char" where
  "hex_upper n = (if n < 10 then char_of (48 + n) else char_of (55 + n))"

definition form_byte :: "nat \<Rightarrow> string" where
  "form_byte n =
     (if (48 \<le> n \<and> n \<le> 57) \<or> (65 \<le> n \<and> n \<le> 90) \<or> (97 \<le> n \<and> n \<le> 122) \<or> n \<in> {42, 45, 46, 95} then [char_of n]
      else if n = 32 then ''+''
      else [CHR ''%'', hex_upper (n div 16), hex_upper (n mod 16)])"

definition form_encode :: "(string \<times> string) list \<Rightarrow> string" where
  "form_encode ps = js_join ''&''
     (map (\<lambda>(k, v). concat (map form_byte (utf8_encode k)) @ ''='' @ concat (map form_byte (utf8_encode v))) ps)"

definition exchange_body :: "flow \<Rightarrow> oauth_settings \<Rightarrow> string \<Rightarrow> string" where
  "exchange_body f c code = form_encode
     [(''grant_type'', ''authorization_code''), (''code'', code), (''client_id'', oc_clientId c),
      (''client_secret'', oc_clientSecret c), (''redirect_uri'', oc_redirectUrl c), (''code_verifier'', fl_verifier f)]"

record response =
  rs_ok :: bool
  rs_status :: int
  rs_text :: string

definition jsonResponse :: "response \<Rightarrow> string \<Rightarrow> auth_error + json" where
  "jsonResponse r label =
     (case (if rs_text r = [] then Some (JObj []) else json_parse (rs_text r)) of
        None \<Rightarrow> Inl \<lparr>ae_message = label @ '' returned an invalid response'', ae_status = 502, ae_code = ''authorization_failed''\<rparr>
      | Some value \<Rightarrow>
          if \<not> rs_ok r
          then Inl \<lparr>ae_message = label @ '' rejected authorization'',
                    ae_status = (if rs_status r = 400 \<or> rs_status r = 401 then 401 else 502), ae_code = ''authorization_failed''\<rparr>
          else Inr value)"

text \<open>
  \<^verbatim>\<open>Number(value)\<close>, \<^term>\<open>None\<close> for \<^verbatim>\<open>NaN\<close>.  Texts of fractions and exponents are outside the
  model of numbers and count as \<^verbatim>\<open>NaN\<close>.
\<close>

definition js_number :: "json option \<Rightarrow> int option" where
  "js_number v =
     (case v of
        None \<Rightarrow> None
      | Some JNull \<Rightarrow> Some 0
      | Some (JBool b) \<Rightarrow> Some (if b then 1 else 0)
      | Some (JNum n) \<Rightarrow> Some n
      | Some (JObj _) \<Rightarrow> None
      | Some j \<Rightarrow>
          (let t = js_trim (js_string j) in
           if t = [] then Some 0
           else case t of
                  CHR ''-'' # ds \<Rightarrow> if ds \<noteq> [] \<and> list_all is_digit ds then Some (- int (digits_value 0 ds)) else None
                | _ \<Rightarrow> if list_all is_digit t then Some (int (digits_value 0 t)) else None))"

definition or_json :: "json option \<Rightarrow> json \<Rightarrow> json" where
  "or_json v dflt = (if truthy_json v then the v else dflt)"

text \<open>The body of the identity response, \<^term>\<open>None\<close> when the request failed or was not \<^verbatim>\<open>ok\<close>.\<close>

definition identity_json :: "response option \<Rightarrow> json option" where
  "identity_json r = (case r of Some x \<Rightarrow> if rs_ok x then json_parse (rs_text x) else None | None \<Rightarrow> None)"

definition exchangeDigitalOcean :: "int \<Rightarrow> response \<Rightarrow> response option \<Rightarrow> auth_error + credential" where
  "exchangeDigitalOcean now token account =
     (case jsonResponse token ''DigitalOcean'' of
        Inl e \<Rightarrow> Inl e
      | Inr value \<Rightarrow>
          (case requiredString (js_get value ''access_token'') ''DigitalOcean access token'' of
             Inl e \<Rightarrow> Inl e
           | Inr accessToken \<Rightarrow>
               (let who = Option.bind (identity_json account) (\<lambda>v. js_get v ''account'')
                in Inr \<lparr>cr_access = accessToken,
                  cr_refresh = (case js_get value ''refresh_token'' of Some (JStr t) \<Rightarrow> t | _ \<Rightarrow> []),
                  cr_expires = map_option (\<lambda>n. now + n * 1000) (js_number (js_get value ''expires_in'')),
                  cr_tokenType = or_json (js_get value ''token_type'') (JStr ''Bearer''),
                  cr_scope = or_json (js_get value ''scope'') (JStr ''read write''),
                  cr_account = or_json (Option.bind who (\<lambda>v. js_get v ''email''))
                                 (or_json (Option.bind who (\<lambda>v. js_get v ''uuid'')) JNull)\<rparr>)))"

definition exchangeGoogle :: "int \<Rightarrow> response \<Rightarrow> response option \<Rightarrow> auth_error + credential" where
  "exchangeGoogle now token account =
     (case jsonResponse token ''Google'' of
        Inl e \<Rightarrow> Inl e
      | Inr value \<Rightarrow>
          (case requiredString (js_get value ''access_token'') ''Google access token'' of
             Inl e \<Rightarrow> Inl e
           | Inr accessToken \<Rightarrow>
               Inr \<lparr>cr_access = accessToken,
                  cr_refresh = (case js_get value ''refresh_token'' of Some (JStr t) \<Rightarrow> t | _ \<Rightarrow> []),
                  cr_expires = map_option (\<lambda>n. now + n * 1000)
                    (js_number (Some (or_json (js_get value ''expires_in'') (JNum 3600)))),
                  cr_tokenType = or_json (js_get value ''token_type'') (JStr ''Bearer''),
                  cr_scope = or_json (js_get value ''scope'') (JStr []),
                  cr_account = or_json (Option.bind (identity_json account) (\<lambda>v. js_get v ''email'')) JNull\<rparr>))"

section \<open>The service\<close>

definition upd_flow :: "string \<Rightarrow> (flow \<Rightarrow> flow) \<Rightarrow> auth \<Rightarrow> auth" where
  "upd_flow i f s = s\<lparr>a_obj := (a_obj s)(i := map_option f (a_obj s i))\<rparr>"

definition sweep_flow :: "string \<Rightarrow> auth \<Rightarrow> auth" where
  "sweep_flow i s =
     (case a_obj s i of
        None \<Rightarrow> s
      | Some f \<Rightarrow>
          if fl_expires f \<le> a_now s
          then (upd_flow i (\<lambda>f. f\<lparr>fl_status := Expired, fl_verifier := [], fl_url := []\<rparr>) s)
                 \<lparr>a_index := jsmap_delete (fl_state f) (a_index s),
                  a_flows := (if a_now s - fl_expires f > flow_ttl_ms then jsset_delete i (a_flows s) else a_flows s)\<rparr>
          else s)"

definition sweep :: "auth \<Rightarrow> auth" where
  "sweep s = fold sweep_flow (a_flows s) s"

text \<open>The map \<^verbatim>\<open>flows\<close>.\<close>

definition flow_of :: "auth \<Rightarrow> string \<Rightarrow> flow option" where
  "flow_of s i = (if i \<in> set (a_flows s) then a_obj s i else None)"

definition get_flow :: "string \<Rightarrow> auth \<Rightarrow> auth_error + flow" where
  "get_flow i s =
     (case flow_of s i of
        Some f \<Rightarrow> Inr f
      | None \<Rightarrow> Inl \<lparr>ae_message = ''authorization flow not found'', ae_status = 404, ae_code = ''flow_not_found''\<rparr>)"

definition authorization_url :: "(nat list \<Rightarrow> nat list) \<Rightarrow> string \<Rightarrow> oauth_settings \<Rightarrow> string \<Rightarrow> string \<Rightarrow> string" where
  "authorization_url digest provider c st verifier =
     (let challenge = b64_encode (digest (utf8_encode verifier)) in
      if provider = ''digitalocean'' then
        ''https://cloud.digitalocean.com/v1/oauth/authorize?'' @ form_encode
          [(''client_id'', oc_clientId c), (''redirect_uri'', oc_redirectUrl c), (''response_type'', ''code''),
           (''scope'', if oc_scope c = [] then ''read write'' else oc_scope c), (''state'', st),
           (''code_challenge'', challenge), (''code_challenge_method'', ''S256'')]
      else
        ''https://accounts.google.com/o/oauth2/v2/auth?'' @ form_encode
          [(''client_id'', oc_clientId c), (''redirect_uri'', oc_redirectUrl c), (''response_type'', ''code''),
           (''access_type'', ''offline''), (''prompt'', ''consent select_account''),
           (''scope'', if oc_scope c = []
              then ''openid email https://www.googleapis.com/auth/compute https://www.googleapis.com/auth/cloudplatformprojects.readonly''
              else oc_scope c), (''state'', st),
           (''code_challenge'', challenge), (''code_challenge_method'', ''S256'')])"

definition authorizing :: "auth \<Rightarrow> flow list" where
  "authorizing s = filter (\<lambda>f. fl_status f = Authorizing) (List.map_filter (flow_of s) (a_flows s))"

definition start_flow ::
  "(string \<Rightarrow> oauth_settings option) \<Rightarrow> (nat list \<Rightarrow> nat list) \<Rightarrow> string \<Rightarrow> string \<Rightarrow> string \<Rightarrow> string \<Rightarrow> auth
   \<Rightarrow> (auth_error + flow_view) \<times> auth" where
  "start_flow config digest provider i st verifier s0 =
     (let s = sweep s0 in
      if provider \<notin> set provider_ids
        then (Inl \<lparr>ae_message = ''provider does not support browser authorization'', ae_status = 404, ae_code = ''provider_not_supported''\<rparr>, s)
      else case oauthConfig config provider of
        Inl e \<Rightarrow> (Inl e, s)
      | Inr c \<Rightarrow>
          if \<exists>f \<in> set (authorizing s). fl_provider f = provider
            then (Inl \<lparr>ae_message = providerName provider @ '' authorization is already active'', ae_status = 409, ae_code = ''flow_busy''\<rparr>, s)
          else if length (authorizing s) \<ge> max_flows
            then (Inl \<lparr>ae_message = ''too many active authorization flows'', ae_status = 409, ae_code = ''flow_limit''\<rparr>, s)
          else
            (let f = \<lparr>fl_id = i, fl_provider = provider, fl_state = st, fl_verifier = verifier,
                      fl_url = authorization_url digest provider c st verifier, fl_status = Authorizing,
                      fl_created = a_now s, fl_expires = a_now s + flow_ttl_ms, fl_account = JNull, fl_project = JNull, fl_error = []\<rparr>
             in (Inr (flowSnapshot f),
                 s\<lparr>a_obj := (a_obj s)(i := Some f), a_flows := jsset_add i (a_flows s), a_index := jsmap_set st i (a_index s)\<rparr>)))"

definition flow_status_of :: "string \<Rightarrow> auth \<Rightarrow> (auth_error + flow_view) \<times> auth" where
  "flow_status_of i s0 = (let s = sweep s0 in (map_sum id flowSnapshot (get_flow i s), s))"

definition cancel_flow :: "string \<Rightarrow> auth \<Rightarrow> (auth_error + flow_view) \<times> auth" where
  "cancel_flow i s0 =
     (let s = sweep s0 in
      case get_flow i s of
        Inl e \<Rightarrow> (Inl e, s)
      | Inr f \<Rightarrow>
          (let f' = f\<lparr>fl_status := (if fl_status f = Authorizing then Cancelled else fl_status f), fl_verifier := [], fl_url := []\<rparr>
           in (Inr (flowSnapshot f'),
               s\<lparr>a_obj := (a_obj s)(i := Some f'), a_index := jsmap_delete (fl_state f) (a_index s)\<rparr>)))"

definition fail_flow :: "string \<Rightarrow> string \<Rightarrow> auth \<Rightarrow> auth" where
  "fail_flow i err s = upd_flow i (\<lambda>f. f\<lparr>fl_status := Failed, fl_error := err, fl_verifier := []\<rparr>) s"

definition connect_error :: "string \<Rightarrow> string" where
  "connect_error provider = providerName provider @ '' could not be connected. Please try again.''"

text \<open>
  The part of \<^verbatim>\<open>callback\<close> up to the token request.  The result is the error it throws, or the flow it
  accepted; the request itself waits as a task that has captured the code.
\<close>

definition callback :: "(string \<Rightarrow> oauth_settings option) \<Rightarrow> string \<Rightarrow> json \<Rightarrow> auth \<Rightarrow> (auth_error + string) \<times> auth" where
  "callback config provider parameters s0 =
     (let s = sweep s0 in
      case requiredString (js_get parameters ''state'') ''OAuth state'' of
        Inl e \<Rightarrow> (Inl e, s)
      | Inr st \<Rightarrow>
          (let flow = Option.bind (map_of (a_index s) st) (\<lambda>i. if i = [] then None else map_option (Pair i) (flow_of s i)) in
           case flow of
             None \<Rightarrow> (Inl \<lparr>ae_message = ''authorization callback is invalid or expired'', ae_status = 400, ae_code = ''invalid_callback''\<rparr>, s)
           | Some (i, f) \<Rightarrow>
               if \<not> safeEqual (fl_state f) st \<or> fl_provider f \<noteq> provider \<or> fl_status f \<noteq> Authorizing
               then (Inl \<lparr>ae_message = ''authorization callback is invalid or expired'', ae_status = 400, ae_code = ''invalid_callback''\<rparr>, s)
               else
                 (let s1 = (upd_flow i (\<lambda>f. f\<lparr>fl_url := []\<rparr>) s)\<lparr>a_index := jsmap_delete (fl_state f) (a_index s)\<rparr>
                  in (Inr i,
                      if truthy_json (js_get parameters ''error'')
                      then fail_flow i (if js_get parameters ''error'' = Some (JStr ''access_denied'') then ''Authorization was declined.''
                             else providerName provider @ '' authorization failed.'') s1
                      else case requiredString (js_get parameters ''code'') ''OAuth code'' of
                             Inl _ \<Rightarrow> fail_flow i (connect_error provider) s1
                           | Inr code \<Rightarrow>
                               (case oauthConfig config provider of
                                  Inl _ \<Rightarrow> fail_flow i (connect_error provider) s1
                                | Inr c \<Rightarrow> s1\<lparr>a_tasks := a_tasks s1 @ [Exchange i (exchange_body f c code)]\<rparr>)))))"

text \<open>
  The responses arrive: \<open>token\<close> is \<^term>\<open>None\<close> when the request itself failed.  A credential goes on to
  \<^verbatim>\<open>saveCredential\<close>, whose outcome ends the callback.
\<close>

definition provider_of :: "auth \<Rightarrow> string \<Rightarrow> string" where
  "provider_of s i = (case a_obj s i of None \<Rightarrow> [] | Some f \<Rightarrow> fl_provider f)"

definition exchange_done :: "string \<Rightarrow> response option \<Rightarrow> response option \<Rightarrow> auth \<Rightarrow> auth" where
  "exchange_done i token account s =
     (case (case token of
              None \<Rightarrow> Inl (CloudAuthorizationError ''request failed'')
            | Some t \<Rightarrow> if provider_of s i = ''digitalocean'' then exchangeDigitalOcean (a_now s) t account
                        else exchangeGoogle (a_now s) t account) of
        Inl _ \<Rightarrow> fail_flow i (connect_error (provider_of s i)) s
      | Inr cred \<Rightarrow> s\<lparr>a_tasks := a_tasks s @ [Save i cred]\<rparr>)"

definition save_done :: "string \<Rightarrow> credential \<Rightarrow> bool \<Rightarrow> auth \<Rightarrow> auth" where
  "save_done i cred ok s =
     (if ok
      then (upd_flow i (\<lambda>f. f\<lparr>fl_status := Succeeded, fl_account := cr_account cred, fl_project := JNull, fl_verifier := []\<rparr>) s)
             \<lparr>a_saved := a_saved s @ [(i, provider_of s i, cred)]\<rparr>
      else fail_flow i (connect_error (provider_of s i)) s)"

definition close_flow :: "string \<Rightarrow> auth \<Rightarrow> auth" where
  "close_flow i = upd_flow i (\<lambda>f. f\<lparr>fl_verifier := [], fl_url := []\<rparr>)"

definition close_auth :: "auth \<Rightarrow> auth" where
  "close_auth s = (fold close_flow (a_flows s) s)\<lparr>a_flows := [], a_index := []\<rparr>"

section \<open>The transition system\<close>

definition empty_auth :: "int \<Rightarrow> auth" where
  "empty_auth now = \<lparr>a_obj = Map.empty, a_flows = [], a_index = [], a_tasks = [], a_saved = [], a_now = now\<rparr>"

text \<open>The 18 and 32 random bytes of a new flow are new: no earlier flow has the id or the state.\<close>

inductive auth_step :: "(string \<Rightarrow> oauth_settings option) \<Rightarrow> (nat list \<Rightarrow> nat list) \<Rightarrow> auth \<Rightarrow> auth \<Rightarrow> bool" for config digest where
  start: "i \<noteq> [] \<Longrightarrow> a_obj s i = None \<Longrightarrow> \<forall>j f. a_obj s j = Some f \<longrightarrow> fl_state f \<noteq> st \<Longrightarrow>
    auth_step config digest s (snd (start_flow config digest provider i st verifier s))"
| status: "auth_step config digest s (snd (flow_status_of i s))"
| cancel: "auth_step config digest s (snd (cancel_flow i s))"
| callback: "auth_step config digest s (snd (callback config provider parameters s))"
| exchanged: "a_tasks s = before @ Exchange i body # after \<Longrightarrow>
    auth_step config digest s (exchange_done i token account (s\<lparr>a_tasks := before @ after\<rparr>))"
| saved: "a_tasks s = before @ Save i cred # after \<Longrightarrow>
    auth_step config digest s (save_done i cred ok (s\<lparr>a_tasks := before @ after\<rparr>))"
| close: "auth_step config digest s (close_auth s)"
| tick: "a_now s \<le> t \<Longrightarrow> auth_step config digest s (s\<lparr>a_now := t\<rparr>)"

abbreviation auth_steps :: "(string \<Rightarrow> oauth_settings option) \<Rightarrow> (nat list \<Rightarrow> nat list) \<Rightarrow> auth \<Rightarrow> auth \<Rightarrow> bool" where
  "auth_steps config digest \<equiv> (auth_step config digest)\<^sup>*\<^sup>*"

definition auth_reachable :: "(string \<Rightarrow> oauth_settings option) \<Rightarrow> (nat list \<Rightarrow> nat list) \<Rightarrow> auth \<Rightarrow> bool" where
  "auth_reachable config digest s \<longleftrightarrow> (\<exists>now. auth_steps config digest (empty_auth now) s)"

end
