(* ===== verification/Cloud_Auth_Properties.thy ===== *)
theory Cloud_Auth_Properties
  imports Cloud_Authorization
begin

text \<open>
  Invariant and properties of the authorization service of \<^verbatim>\<open>oyster-hub/cloud-authorization.mjs\<close>.
\<close>

section \<open>The invariant\<close>

fun auth_task_flow :: "auth_task \<Rightarrow> string" where
  "auth_task_flow (Exchange i body) = i"
| "auth_task_flow (Save i cred) = i"

definition spent :: "auth \<Rightarrow> string list" where
  "spent s = map auth_task_flow (a_tasks s) @ map fst (a_saved s)"

definition flow_ok :: "auth \<Rightarrow> string \<Rightarrow> flow \<Rightarrow> bool" where
  "flow_ok s i f \<longleftrightarrow> fl_id f = i \<and> fl_provider f \<in> set provider_ids
     \<and> (fl_status f \<noteq> Authorizing \<longrightarrow> fl_verifier f = [] \<and> fl_url f = [])
     \<and> (i \<in> auth_task_flow ` set (a_tasks s) \<longrightarrow> fl_url f = [])"

definition one_active :: "auth \<Rightarrow> bool" where
  "one_active s \<longleftrightarrow> (\<forall>i j f g. flow_of s i = Some f \<longrightarrow> flow_of s j = Some g \<longrightarrow> fl_status f = Authorizing
     \<longrightarrow> fl_status g = Authorizing \<longrightarrow> fl_provider f = fl_provider g \<longrightarrow> i = j)"

definition auth_inv :: "auth \<Rightarrow> bool" where
  "auth_inv s \<longleftrightarrow> (\<forall>i f. a_obj s i = Some f \<longrightarrow> flow_ok s i f)
     \<and> (\<forall>i j f g. a_obj s i = Some f \<longrightarrow> a_obj s j = Some g \<longrightarrow> fl_state f = fl_state g \<longrightarrow> i = j)
     \<and> distinct (spent s) \<and> set (spent s) \<subseteq> dom (a_obj s)
     \<and> (\<forall>st i. (st, i) \<in> set (a_index s) \<longrightarrow> i \<notin> set (spent s) \<and> map_option fl_state (a_obj s i) = Some st)
     \<and> set (a_flows s) \<subseteq> dom (a_obj s) \<and> distinct (a_flows s) \<and> one_active s"

lemma auth_invD:
  assumes "auth_inv s"
  shows "a_obj s i = Some f \<Longrightarrow> flow_ok s i f" "distinct (spent s)" "set (spent s) \<subseteq> dom (a_obj s)"
    "(st, i) \<in> set (a_index s) \<Longrightarrow> i \<notin> set (spent s) \<and> map_option fl_state (a_obj s i) = Some st"
    "set (a_flows s) \<subseteq> dom (a_obj s)" "distinct (a_flows s)" "one_active s"
  using assms unfolding auth_inv_def by blast+

lemma auth_invI:
  assumes "\<And>i f. a_obj s i = Some f \<Longrightarrow> flow_ok s i f" "distinct (spent s)" "set (spent s) \<subseteq> dom (a_obj s)"
    "\<And>st i. (st, i) \<in> set (a_index s) \<Longrightarrow> i \<notin> set (spent s) \<and> map_option fl_state (a_obj s i) = Some st"
    "set (a_flows s) \<subseteq> dom (a_obj s)" "distinct (a_flows s)" "one_active s"
    "\<And>i j f g. a_obj s i = Some f \<Longrightarrow> a_obj s j = Some g \<Longrightarrow> fl_state f = fl_state g \<Longrightarrow> i = j"
  shows "auth_inv s"
  using assms unfolding auth_inv_def by blast

lemma auth_inv_state:
  "auth_inv s \<Longrightarrow> a_obj s i = Some f \<Longrightarrow> a_obj s j = Some g \<Longrightarrow> fl_state f = fl_state g \<Longrightarrow> i = j"
  unfolding auth_inv_def by blast

lemma auth_inv_empty: "auth_inv (empty_auth now)"
  by (simp add: auth_inv_def empty_auth_def spent_def one_active_def flow_of_def)

section \<open>Every operation keeps it\<close>

lemma inv_upd_flow [inv_rules]:
  assumes inv: "auth_inv s"
    and f: "\<And>x. fl_id (f x) = fl_id x" "\<And>x. fl_provider (f x) = fl_provider x" "\<And>x. fl_state (f x) = fl_state x"
    and st: "\<And>x. fl_status (f x) = Authorizing \<Longrightarrow> fl_status x = Authorizing"
    and ok: "\<And>x. a_obj s i = Some x \<Longrightarrow> fl_status (f x) \<noteq> Authorizing \<Longrightarrow> fl_verifier (f x) = [] \<and> fl_url (f x) = []"
    and url: "\<And>x. fl_url x = [] \<Longrightarrow> fl_url (f x) = []"
  shows "auth_inv (upd_flow i f s)"
proof -
  have u: "spent (upd_flow i f s) = spent s" "a_tasks (upd_flow i f s) = a_tasks s" "a_index (upd_flow i f s) = a_index s"
    "a_flows (upd_flow i f s) = a_flows s" "dom (a_obj (upd_flow i f s)) = dom (a_obj s)"
    by (auto simp: upd_flow_def spent_def split: if_splits)
  have o: "a_obj (upd_flow i f s) j = (if j = i then map_option f (a_obj s i) else a_obj s j)" for j
    by (simp add: upd_flow_def)
  have k: "map_option fl_state (a_obj (upd_flow i f s) j) = map_option fl_state (a_obj s j)" for j
    by (simp add: o f map_option.compositionality o_def)
  have "flow_ok (upd_flow i f s) j x" if "a_obj (upd_flow i f s) j = Some x" for j x
    using that auth_invD(1) [OF inv, of j] ok url
    by (auto simp: o flow_ok_def u f split: if_splits)
  moreover have "one_active (upd_flow i f s)"
    unfolding one_active_def
  proof (intro allI impI)
    fix a b x y
    assume h: "flow_of (upd_flow i f s) a = Some x" "flow_of (upd_flow i f s) b = Some y"
      "fl_status x = Authorizing" "fl_status y = Authorizing" "fl_provider x = fl_provider y"
    have "\<exists>x'. flow_of s c = Some x' \<and> fl_status x' = Authorizing \<and> fl_provider x' = fl_provider z"
      if "flow_of (upd_flow i f s) c = Some z" "fl_status z = Authorizing" for c z
      using that st by (auto simp: flow_of_def u o f split: if_splits)
    then show "a = b" using h auth_invD(7) [OF inv] unfolding one_active_def by metis
  qed
  moreover have "a = b" if eq: "a_obj (upd_flow i f s) a = Some x" "a_obj (upd_flow i f s) b = Some y" "fl_state x = fl_state y" for a b x y
  proof -
    have "map_option fl_state (a_obj s a) = Some (fl_state x)" "map_option fl_state (a_obj s b) = Some (fl_state y)"
      using k [of a] k [of b] eq(1,2) by simp_all
    then obtain x' y' where "a_obj s a = Some x'" "a_obj s b = Some y'" "fl_state x' = fl_state x" "fl_state y' = fl_state y"
      by auto
    then show ?thesis using inv eq(3) unfolding auth_inv_def by metis
  qed
  ultimately show ?thesis
    using inv unfolding auth_inv_def u k by blast
qed

text \<open>Forgetting index entries, flows of the map or finished work.\<close>

lemma auth_inv_shrink:
  assumes inv: "auth_inv s" and obj: "a_obj s' = a_obj s" and ix: "set (a_index s') \<subseteq> set (a_index s)"
    and fl: "set (a_flows s') \<subseteq> set (a_flows s)" "distinct (a_flows s')"
    and sp: "distinct (spent s')" "set (spent s') \<subseteq> set (spent s)"
    and ts: "auth_task_flow ` set (a_tasks s') \<subseteq> auth_task_flow ` set (a_tasks s)"
  shows "auth_inv s'"
proof -
  have "flow_ok s' i f" if "a_obj s' i = Some f" for i f
    using auth_invD(1) [OF inv, of i f] that ts unfolding obj flow_ok_def by blast
  moreover have "one_active s'"
    using auth_invD(7) [OF inv] fl(1) unfolding one_active_def flow_of_def obj by (smt (verit) option.distinct(1) subsetD)
  moreover have "i \<notin> set (spent s') \<and> map_option fl_state (a_obj s' i) = Some st" if "(st, i) \<in> set (a_index s')" for st i
    using auth_invD(4) [OF inv, of st i] that ix sp(2) unfolding obj by blast
  moreover have "set (spent s') \<subseteq> dom (a_obj s')" "set (a_flows s') \<subseteq> dom (a_obj s')"
    using auth_invD(3,5) [OF inv] sp(2) fl(1) unfolding obj by blast+
  moreover have "i = j" if "a_obj s' i = Some f" "a_obj s' j = Some g" "fl_state f = fl_state g" for i j f g
    using inv that unfolding auth_inv_def obj by blast
  ultimately show ?thesis using fl(2) sp(1) unfolding auth_inv_def by blast
qed

lemma spent_simps [simp]: "spent (s\<lparr>a_index := ix\<rparr>) = spent s" "spent (s\<lparr>a_flows := fs\<rparr>) = spent s"
  "spent (s\<lparr>a_flows := fs, a_index := ix\<rparr>) = spent s" "spent (s\<lparr>a_now := t\<rparr>) = spent s" "spent (upd_flow i f s) = spent s"
  "spent (s\<lparr>a_obj := ob\<rparr>) = spent s"
  by (simp_all add: spent_def upd_flow_def)

lemma inv_index_delete [inv_rules]: "auth_inv s \<Longrightarrow> auth_inv (s\<lparr>a_index := jsmap_delete st (a_index s)\<rparr>)"
  by (rule auth_inv_shrink) (auto simp: auth_invD(2,6) set_jsmap_delete)

lemma inv_flows_delete [inv_rules]: "auth_inv s \<Longrightarrow> auth_inv (s\<lparr>a_flows := jsset_delete i (a_flows s)\<rparr>)"
  by (rule auth_inv_shrink) (auto simp: auth_invD(2,6) distinct_jsset_delete)

lemma inv_now [inv_rules]: "auth_inv s \<Longrightarrow> auth_inv (s\<lparr>a_now := t\<rparr>)"
  by (rule auth_inv_shrink) (auto simp: auth_invD(2,6))

lemma inv_clear [inv_rules]: "auth_inv s \<Longrightarrow> auth_inv (s\<lparr>a_flows := [], a_index := []\<rparr>)"
  by (rule auth_inv_shrink) (auto simp: auth_invD(2,6))

lemma inv_task_drop [inv_rules]:
  assumes "auth_inv s" and t: "a_tasks s = before @ t # after"
  shows "auth_inv (s\<lparr>a_tasks := before @ after\<rparr>)"
  by (rule auth_inv_shrink [OF assms(1)])
    (use auth_invD(2,6) [OF assms(1)] in \<open>auto simp: spent_def t\<close>)

lemma inv_sweep_flow [inv_rules]: "auth_inv s \<Longrightarrow> auth_inv (sweep_flow i s)"
proof -
  assume inv: "auth_inv s"
  let ?s = "upd_flow i (\<lambda>f. f\<lparr>fl_status := Expired, fl_verifier := [], fl_url := []\<rparr>) s"
  have "auth_inv ?s" by (rule inv_upd_flow [OF inv]) simp_all
  moreover have "?s\<lparr>a_index := ix, a_flows := fs\<rparr> = (?s\<lparr>a_index := ix\<rparr>)\<lparr>a_flows := fs\<rparr>" for ix fs by simp
  ultimately show ?thesis
    using inv inv_index_delete [of ?s] inv_flows_delete [of "?s\<lparr>a_index := ix\<rparr>" for ix]
    by (auto simp: sweep_flow_def upd_flow_def split: option.splits)
qed

lemma inv_sweep [inv_rules]: "auth_inv s \<Longrightarrow> auth_inv (sweep s)"
proof -
  have "auth_inv s \<Longrightarrow> auth_inv (fold sweep_flow is s)" for "is"
    by (induction "is" arbitrary: s) (simp_all add: inv_sweep_flow)
  then show "auth_inv s \<Longrightarrow> auth_inv (sweep s)" by (simp add: sweep_def)
qed

text \<open>No operation but \<^const>\<open>start_flow\<close> adds a flow, and none changes the OAuth state of a flow.\<close>

lemma upd_states:
  "(\<And>x. fl_state (f x) = fl_state x) \<Longrightarrow> map_option fl_state (a_obj (upd_flow i f s) j) = map_option fl_state (a_obj s j)"
  by (simp add: upd_flow_def map_option.compositionality o_def)

lemma sweep_flow_states:
  "map_option fl_state (a_obj (sweep_flow i s) j) = map_option fl_state (a_obj s j) \<and> set (a_index (sweep_flow i s)) \<subseteq> set (a_index s)"
  by (auto simp: sweep_flow_def upd_flow_def set_jsmap_delete split: option.splits)

lemma sweep_states:
  "map_option fl_state (a_obj (sweep s) j) = map_option fl_state (a_obj s j)" "set (a_index (sweep s)) \<subseteq> set (a_index s)"
proof -
  have "map_option fl_state (a_obj (fold sweep_flow is s) j) = map_option fl_state (a_obj s j)
      \<and> set (a_index (fold sweep_flow is s)) \<subseteq> set (a_index s)" for "is"
    by (induction "is" arbitrary: s) (simp, metis (no_types, lifting) fold_simps(2) order_trans sweep_flow_states)
  then show "map_option fl_state (a_obj (sweep s) j) = map_option fl_state (a_obj s j)" "set (a_index (sweep s)) \<subseteq> set (a_index s)"
    by (simp_all add: sweep_def)
qed

lemma flow_ofD: "flow_of s i = Some f \<Longrightarrow> i \<in> set (a_flows s) \<and> a_obj s i = Some f"
  by (auto simp: flow_of_def split: if_splits)

lemma map_filter_mem: "y \<in> set (List.map_filter g xs) \<longleftrightarrow> (\<exists>x \<in> set xs. g x = Some y)"
  by (induction xs) (auto simp: List.map_filter_simps split: option.splits)

lemma authorizing_iff: "f \<in> set (authorizing s) \<longleftrightarrow> (\<exists>i. flow_of s i = Some f \<and> fl_status f = Authorizing)"
  unfolding authorizing_def by (auto simp: map_filter_mem dest: flow_ofD)

lemma jsmap_set_mem: "x \<in> set (jsmap_set k v m) \<Longrightarrow> x = (k, v) \<or> x \<in> set m"
  by (induction m) (auto split: if_splits)

text \<open>A new flow enters only when its provider has no active one.\<close>

lemma inv_new_flow:
  assumes inv: "auth_inv s" and new: "a_obj s i = None" "\<forall>j f. a_obj s j = Some f \<longrightarrow> fl_state f \<noteq> fl_state f0"
    and f0: "fl_id f0 = i" "fl_provider f0 \<in> set provider_ids" "fl_status f0 = Authorizing"
    and idle: "\<not> (\<exists>f \<in> set (authorizing s). fl_provider f = fl_provider f0)"
  shows "auth_inv (s\<lparr>a_obj := (a_obj s)(i := Some f0), a_flows := jsset_add i (a_flows s),
                     a_index := jsmap_set (fl_state f0) i (a_index s)\<rparr>)" (is "auth_inv ?s")
proof -
  have sp: "spent ?s = spent s" by (simp add: spent_def)
  have i: "i \<notin> set (spent s)" "i \<notin> set (a_flows s)" using auth_invD(3,5) [OF inv] new(1) by blast+
  have "i \<notin> auth_task_flow ` set (a_tasks s)" using i(1) by (auto simp: spent_def)
  then have "flow_ok ?s j f" if "a_obj ?s j = Some f" for j f
    using that auth_invD(1) [OF inv, of j f] f0 by (auto simp: flow_ok_def split: if_splits)
  moreover have "one_active ?s"
    unfolding one_active_def
  proof (intro allI impI)
    fix a b x y
    assume h: "flow_of ?s a = Some x" "flow_of ?s b = Some y" "fl_status x = Authorizing" "fl_status y = Authorizing"
      "fl_provider x = fl_provider y"
    have c: "(c = i \<and> z = f0) \<or> flow_of s c = Some z" if "flow_of ?s c = Some z" for c z
      using that by (auto simp: flow_of_def split: if_splits)
    have "z \<in> set (authorizing s)" if "flow_of s c = Some z" "fl_status z = Authorizing" for c z
      using that by (auto simp: authorizing_iff)
    then have "\<not> (flow_of s a = Some x \<and> b = i \<and> y = f0)" "\<not> (flow_of s b = Some y \<and> a = i \<and> x = f0)"
      using h(3,4,5) idle by metis+
    then show "a = b" using h(3,4,5) c [OF h(1)] c [OF h(2)] auth_invD(7) [OF inv] unfolding one_active_def by blast
  qed
  moreover have "j \<notin> set (spent ?s) \<and> map_option fl_state (a_obj ?s j) = Some st" if "(st, j) \<in> set (a_index ?s)" for st j
  proof -
    have "(st, j) = (fl_state f0, i) \<or> (st, j) \<in> set (a_index s)"
      using jsmap_set_mem [of "(st, j)" "fl_state f0" i "a_index s"] that by simp
    then show ?thesis using auth_invD(4) [OF inv, of st j] i(1) new(1) by (auto simp: sp)
  qed
  moreover have "a = b" if "a_obj ?s a = Some x" "a_obj ?s b = Some y" "fl_state x = fl_state y" for a b x y
  proof -
    have "(a = i \<and> x = f0) \<or> (a \<noteq> i \<and> a_obj s a = Some x)" "(b = i \<and> y = f0) \<or> (b \<noteq> i \<and> a_obj s b = Some y)"
      using that(1,2) by (auto split: if_splits)
    then show ?thesis
    proof (elim disjE conjE)
      assume "a \<noteq> i" "a_obj s a = Some x" "b \<noteq> i" "a_obj s b = Some y"
      then show ?thesis using that(3) auth_inv_state [OF inv] by blast
    next
      assume e: "x = f0" "a_obj s b = Some y"
      have "fl_state y \<noteq> fl_state f0" using new(2) e(2) by blast
      then show ?thesis using that(3) e(1) by simp
    next
      assume e: "y = f0" "a_obj s a = Some x"
      have "fl_state x \<noteq> fl_state f0" using new(2) e(2) by blast
      then show ?thesis using that(3) e(1) by simp
    qed simp
  qed
  ultimately show ?thesis
  proof (intro auth_invI)
    show "distinct (spent ?s)" "set (spent ?s) \<subseteq> dom (a_obj ?s)" "set (a_flows ?s) \<subseteq> dom (a_obj ?s)"
      using auth_invD(2,3,5) [OF inv] by (auto simp: sp)
    show "distinct (a_flows ?s)" using auth_invD(6) [OF inv] by (simp add: distinct_jsset_add)
  qed blast+
qed

lemma start_flow_cases:
  obtains (refused) e where "start_flow config digest provider i st verifier s = (Inl e, sweep s)"
  | (started) f0 where "fl_id f0 = i" "fl_provider f0 = provider" "provider \<in> set provider_ids" "fl_state f0 = st"
      "fl_status f0 = Authorizing" "\<not> (\<exists>f \<in> set (authorizing (sweep s)). fl_provider f = provider)"
      "start_flow config digest provider i st verifier s = (Inr (flowSnapshot f0),
        (sweep s)\<lparr>a_obj := (a_obj (sweep s))(i := Some f0), a_flows := jsset_add i (a_flows (sweep s)),
                  a_index := jsmap_set (fl_state f0) i (a_index (sweep s))\<rparr>)"
proof (cases "\<exists>e. start_flow config digest provider i st verifier s = (Inl e, sweep s)")
  case False
  then obtain c where c: "provider \<in> set provider_ids" "oauthConfig config provider = Inr c"
    "\<not> (\<exists>f \<in> set (authorizing (sweep s)). fl_provider f = provider)" "\<not> length (authorizing (sweep s)) \<ge> max_flows"
    unfolding start_flow_def Let_def by (auto split: sum.splits if_splits)
  let ?f = "\<lparr>fl_id = i, fl_provider = provider, fl_state = st, fl_verifier = verifier,
      fl_url = authorization_url digest provider c st verifier, fl_status = Authorizing,
      fl_created = a_now (sweep s), fl_expires = a_now (sweep s) + flow_ttl_ms, fl_account = JNull, fl_project = JNull, fl_error = []\<rparr>"
  show ?thesis
    by (rule started [of ?f]) (use c in \<open>simp_all add: start_flow_def Let_def\<close>)
qed (use refused in blast)

lemma inv_start_flow [inv_rules]:
  assumes "auth_inv s" and "a_obj s i = None" and "\<forall>j f. a_obj s j = Some f \<longrightarrow> fl_state f \<noteq> st"
  shows "auth_inv (snd (start_flow config digest provider i st verifier s))"
proof (cases rule: start_flow_cases [of config digest provider i st verifier s])
  case refused
  then show ?thesis using inv_sweep [OF assms(1)] by simp
next
  case (started f0)
  have "a_obj (sweep s) i = None" using sweep_states(1) [of s i] assms(2) by simp
  moreover have "\<forall>j f. a_obj (sweep s) j = Some f \<longrightarrow> fl_state f \<noteq> fl_state f0"
    using sweep_states(1) [of s] assms(3) started(4) by (metis (no_types, lifting) map_option_eq_Some)
  ultimately have "auth_inv ((sweep s)\<lparr>a_obj := (a_obj (sweep s))(i := Some f0), a_flows := jsset_add i (a_flows (sweep s)),
      a_index := jsmap_set (fl_state f0) i (a_index (sweep s))\<rparr>)"
    by (rule inv_new_flow [OF inv_sweep [OF assms(1)]]) (use started in auto)
  then show ?thesis using started(7) by simp
qed

definition cancelled :: "flow \<Rightarrow> flow" where
  "cancelled f = f\<lparr>fl_status := (if fl_status f = Authorizing then Cancelled else fl_status f), fl_verifier := [], fl_url := []\<rparr>"

lemma cancelled_fields [simp]: "fl_id (cancelled f) = fl_id f" "fl_provider (cancelled f) = fl_provider f"
  "fl_state (cancelled f) = fl_state f" "fl_verifier (cancelled f) = []" "fl_url (cancelled f) = []"
  "fl_status (cancelled f) \<noteq> Authorizing"
  by (simp_all add: cancelled_def)

lemma cancel_cases:
  obtains (refused) "snd (cancel_flow i s) = sweep s"
  | (found) f where "flow_of (sweep s) i = Some f"
      "cancel_flow i s = (Inr (flowSnapshot (cancelled f)), (upd_flow i cancelled (sweep s))\<lparr>a_index := jsmap_delete (fl_state f) (a_index (upd_flow i cancelled (sweep s)))\<rparr>)"
proof (cases "flow_of (sweep s) i")
  case None
  then show ?thesis using refused by (simp add: cancel_flow_def get_flow_def Let_def)
next
  case (Some f)
  then show ?thesis using flow_ofD [OF Some]
    by (intro found [of f]) (simp_all add: cancel_flow_def get_flow_def Let_def upd_flow_def cancelled_def)
qed

lemma inv_cancel_flow [inv_rules]: "auth_inv s \<Longrightarrow> auth_inv (snd (cancel_flow i s))"
proof (cases rule: cancel_cases [of i s])
  case refused
  assume "auth_inv s"
  then show ?thesis using refused by (simp add: inv_sweep)
next
  case (found f)
  assume inv: "auth_inv s"
  have "auth_inv (upd_flow i cancelled (sweep s))"
    by (rule inv_upd_flow [OF inv_sweep [OF inv]]) simp_all
  then show ?thesis unfolding found by (simp add: inv_index_delete)
qed

lemma inv_fail_flow [inv_rules]:
  assumes "auth_inv s" and "\<And>f. a_obj s i = Some f \<Longrightarrow> fl_url f = []"
  shows "auth_inv (fail_flow i err s)"
  unfolding fail_flow_def by (rule inv_upd_flow [OF assms(1)]) (simp_all add: assms(2))

lemma inv_add_task:
  assumes inv: "auth_inv s" and t: "auth_task_flow t = i" and new: "i \<notin> set (spent s)" "i \<in> dom (a_obj s)"
    and ix: "\<And>st. (st, i) \<notin> set (a_index s)" and url: "\<And>f. a_obj s i = Some f \<Longrightarrow> fl_url f = []"
  shows "auth_inv (s\<lparr>a_tasks := a_tasks s @ [t]\<rparr>)" (is "auth_inv ?s")
proof (rule auth_invI)
  have sp: "set (spent ?s) = insert i (set (spent s))" by (auto simp: spent_def t)
  show "distinct (spent ?s)" using auth_invD(2) [OF inv] new(1) by (auto simp: spent_def t)
  show "set (spent ?s) \<subseteq> dom (a_obj ?s)" using auth_invD(3) [OF inv] new(2) by (simp add: sp)
  show "j \<notin> set (spent ?s) \<and> map_option fl_state (a_obj ?s j) = Some st" if "(st, j) \<in> set (a_index ?s)" for st j
    using that auth_invD(4) [OF inv, of st j] ix by (auto simp: sp)
  show "flow_ok ?s j f" if "a_obj ?s j = Some f" for j f
    using that auth_invD(1) [OF inv, of j f] url by (auto simp: flow_ok_def t)
  show "one_active ?s" using auth_invD(7) [OF inv] by (simp add: one_active_def flow_of_def)
  show "a = b" if "a_obj ?s a = Some x" "a_obj ?s b = Some y" "fl_state x = fl_state y" for a b x y
    using that auth_inv_state [OF inv] by simp
qed (use auth_invD(5,6) [OF inv] in simp_all)


text \<open>
  What a callback does: it is refused, or it takes the flow of its OAuth state out of the index and
  fails it at once or leaves the token request as a task.
\<close>

lemma callback_cases:
  obtains (refused) e where "callback config provider parameters s = (Inl e, sweep s)"
  | (accepted) i f st s1 where "requiredString (js_get parameters ''state'') ''OAuth state'' = Inr st"
      "map_of (a_index (sweep s)) st = Some i" "flow_of (sweep s) i = Some f" "safeEqual (fl_state f) st"
      "fl_provider f = provider" "fl_status f = Authorizing"
      "s1 = (upd_flow i (\<lambda>f. f\<lparr>fl_url := []\<rparr>) (sweep s))\<lparr>a_index := jsmap_delete (fl_state f) (a_index (sweep s))\<rparr>"
      "(\<exists>err. callback config provider parameters s = (Inr i, fail_flow i err s1))
       \<or> (\<exists>body. callback config provider parameters s = (Inr i, s1\<lparr>a_tasks := a_tasks s1 @ [Exchange i body]\<rparr>))"
proof (cases "\<exists>e. callback config provider parameters s = (Inl e, sweep s)")
  case False
  obtain st where st: "requiredString (js_get parameters ''state'') ''OAuth state'' = Inr st"
    using False unfolding callback_def Let_def by (cases "requiredString (js_get parameters ''state'') ''OAuth state''") auto
  obtain i f where i: "map_of (a_index (sweep s)) st = Some i" "i \<noteq> []" "flow_of (sweep s) i = Some f"
    using False st unfolding callback_def Let_def
    by (cases "map_of (a_index (sweep s)) st"; cases "flow_of (sweep s) (the (map_of (a_index (sweep s)) st))") (auto split: if_splits)
  have c: "safeEqual (fl_state f) st" "fl_provider f = provider" "fl_status f = Authorizing"
    using False st i unfolding callback_def Let_def by (auto split: if_splits)
  show ?thesis
    by (rule accepted [OF st i(1,3) c refl])
      (use st i c in \<open>auto simp: callback_def Let_def split: if_splits sum.splits\<close>)
qed (use refused in blast)

lemma inv_callback [inv_rules]:
  assumes inv: "auth_inv s"
  shows "auth_inv (snd (callback config provider parameters s))"
proof (cases rule: callback_cases [of config provider parameters s])
  case refused
  then show ?thesis using inv_sweep [OF inv] by simp
next
  case (accepted i f st s1)
  have sw: "auth_inv (sweep s)" by (rule inv_sweep [OF inv])
  let ?u = "upd_flow i (\<lambda>f. f\<lparr>fl_url := []\<rparr>) (sweep s)"
  have u: "auth_inv ?u"
    by (rule inv_upd_flow [OF sw]) (use auth_invD(1) [OF sw, of i] in \<open>simp_all add: flow_ok_def\<close>)
  have s1: "s1 = ?u\<lparr>a_index := jsmap_delete (fl_state f) (a_index ?u)\<rparr>" using accepted(7) by (simp add: upd_flow_def)
  then have i1: "auth_inv s1" using u by (simp add: inv_index_delete)
  have url: "fl_url g = []" if "a_obj s1 i = Some g" for g
    using that by (auto simp: accepted(7) upd_flow_def)
  have ix: "i \<notin> set (spent (sweep s))" "map_option fl_state (a_obj (sweep s) i) = Some st"
    using auth_invD(4) [OF sw map_of_SomeD [OF accepted(2)]] by simp_all
  have f: "a_obj (sweep s) i = Some f" using flow_ofD [OF accepted(3)] by simp
  have new: "(st', i) \<notin> set (a_index s1)" for st'
  proof
    assume m: "(st', i) \<in> set (a_index s1)"
    then have "(st', i) \<in> set (a_index (sweep s))" "st' \<noteq> fl_state f" by (auto simp: accepted(7) set_jsmap_delete)
    then show False using auth_invD(4) [OF sw, of st' i] f by simp
  qed
  from accepted(8) show ?thesis
  proof
    assume "\<exists>err. callback config provider parameters s = (Inr i, fail_flow i err s1)"
    then show ?thesis using inv_fail_flow [OF i1 url] by auto
  next
    assume "\<exists>body. callback config provider parameters s = (Inr i, s1\<lparr>a_tasks := a_tasks s1 @ [Exchange i body]\<rparr>)"
    then obtain body where b: "callback config provider parameters s = (Inr i, s1\<lparr>a_tasks := a_tasks s1 @ [Exchange i body]\<rparr>)" by blast
    have "auth_inv (s1\<lparr>a_tasks := a_tasks s1 @ [Exchange i body]\<rparr>)"
      by (rule inv_add_task [OF i1 _ _ _ new url]) (use ix(1) f in \<open>auto simp: accepted(7) upd_flow_def spent_def\<close>)
    then show ?thesis using b by simp
  qed
qed

lemma inv_add_saved:
  assumes inv: "auth_inv s" and new: "i \<notin> set (spent s)" "i \<in> dom (a_obj s)" and ix: "\<And>st. (st, i) \<notin> set (a_index s)"
  shows "auth_inv (s\<lparr>a_saved := a_saved s @ [(i, p, c)]\<rparr>)" (is "auth_inv ?s")
proof (rule auth_invI)
  have sp: "set (spent ?s) = insert i (set (spent s))" by (auto simp: spent_def)
  show "distinct (spent ?s)" using auth_invD(2) [OF inv] new(1) by (auto simp: spent_def)
  show "set (spent ?s) \<subseteq> dom (a_obj ?s)" using auth_invD(3) [OF inv] new(2) by (simp add: sp)
  show "j \<notin> set (spent ?s) \<and> map_option fl_state (a_obj ?s j) = Some st" if "(st, j) \<in> set (a_index ?s)" for st j
    using that auth_invD(4) [OF inv, of st j] ix by (auto simp: sp)
  show "flow_ok ?s j f" if "a_obj ?s j = Some f" for j f
    using that auth_invD(1) [OF inv, of j f] by (simp add: flow_ok_def)
  show "one_active ?s" using auth_invD(7) [OF inv] by (simp add: one_active_def flow_of_def)
  show "a = b" if "a_obj ?s a = Some x" "a_obj ?s b = Some y" "fl_state x = fl_state y" for a b x y
    using that auth_inv_state [OF inv] by simp
qed (use auth_invD(5,6) [OF inv] in simp_all)

text \<open>The flow of a task that is taken up: its URL is erased, it left the index, and no other work names it.\<close>

lemma task_facts:
  assumes inv: "auth_inv s" and t: "a_tasks s = before @ t # after" and i: "auth_task_flow t = i"
  defines "s1 \<equiv> s\<lparr>a_tasks := before @ after\<rparr>"
  shows "auth_inv s1" "i \<notin> set (spent s1)" "i \<in> dom (a_obj s1)" "\<And>st. (st, i) \<notin> set (a_index s1)"
    "\<And>f. a_obj s1 i = Some f \<Longrightarrow> fl_url f = []"
proof -
  show "auth_inv s1" unfolding s1_def by (rule inv_task_drop [OF inv t])
  have m: "i \<in> set (spent s)" "i \<in> auth_task_flow ` set (a_tasks s)" using i by (auto simp: spent_def t)
  show "i \<notin> set (spent s1)" using auth_invD(2) [OF inv] i by (auto simp: spent_def s1_def t)
  show "i \<in> dom (a_obj s1)" using auth_invD(3) [OF inv] m(1) by (auto simp: s1_def)
  show "(st, i) \<notin> set (a_index s1)" for st using auth_invD(4) [OF inv, of st i] m(1) by (auto simp: s1_def)
  show "fl_url f = []" if "a_obj s1 i = Some f" for f
    using that auth_invD(1) [OF inv, of i f] m(2) by (simp add: s1_def flow_ok_def)
qed

lemma inv_exchange_done [inv_rules]:
  assumes "auth_inv s" and "a_tasks s = before @ Exchange i body # after"
  shows "auth_inv (exchange_done i token account (s\<lparr>a_tasks := before @ after\<rparr>))"
proof -
  note T = task_facts [OF assms auth_task_flow.simps(1)]
  show ?thesis
    unfolding exchange_done_def
    using inv_fail_flow [OF T(1) T(5)] inv_add_task [OF T(1) auth_task_flow.simps(2) T(2,3,4,5)]
    by (simp split: sum.splits)
qed

lemma inv_save_done [inv_rules]:
  assumes "auth_inv s" and "a_tasks s = before @ Save i cred # after"
  shows "auth_inv (save_done i cred ok (s\<lparr>a_tasks := before @ after\<rparr>))"
proof -
  note T = task_facts [OF assms auth_task_flow.simps(2)]
  let ?s1 = "s\<lparr>a_tasks := before @ after\<rparr>"
  let ?u = "upd_flow i (\<lambda>f. f\<lparr>fl_status := Succeeded, fl_account := cr_account cred, fl_project := JNull, fl_verifier := []\<rparr>) ?s1"
  have u: "auth_inv ?u" by (rule inv_upd_flow [OF T(1)]) (use T(5) in simp_all)
  have "auth_inv (?u\<lparr>a_saved := a_saved ?u @ [(i, provider_of ?s1 i, cred)]\<rparr>)"
    by (rule inv_add_saved [OF u]) (use T(2,3,4) in \<open>auto simp: upd_flow_def spent_def\<close>)
  moreover have "a_saved ?u = a_saved ?s1" by (simp add: upd_flow_def)
  ultimately show ?thesis
    using inv_fail_flow [OF T(1) T(5)] by (simp add: save_done_def)
qed

lemma inv_close [inv_rules]: "auth_inv s \<Longrightarrow> auth_inv (close_auth s)"
proof -
  have "auth_inv s \<Longrightarrow> auth_inv (fold close_flow is s)" for "is"
  proof (induction "is" arbitrary: s)
    case (Cons i "is")
    have "auth_inv (close_flow i s)"
      unfolding close_flow_def
      by (rule inv_upd_flow [OF Cons.prems]) (use auth_invD(1) [OF Cons.prems, of i] in \<open>simp_all add: flow_ok_def\<close>)
    then show ?case using Cons.IH by simp
  qed simp
  then show "auth_inv s \<Longrightarrow> auth_inv (close_auth s)" by (simp add: close_auth_def inv_clear)
qed

lemma auth_step_inv: "auth_step config digest s s' \<Longrightarrow> auth_inv s \<Longrightarrow> auth_inv s'"
  by (induction rule: auth_step.induct)
    (simp_all add: inv_start_flow inv_sweep flow_status_of_def Let_def inv_cancel_flow inv_callback
      inv_exchange_done inv_save_done inv_close inv_now)

lemma auth_reachable_inv: "auth_reachable config digest s \<Longrightarrow> auth_inv s"
proof -
  have "auth_steps config digest s0 s \<Longrightarrow> auth_inv s0 \<Longrightarrow> auth_inv s" for s0
    by (induction rule: rtranclp_induct) (auto intro: auth_step_inv)
  then show "auth_reachable config digest s \<Longrightarrow> auth_inv s"
    unfolding auth_reachable_def using auth_inv_empty by blast
qed

lemma authorizing_bound:
  assumes inv: "auth_inv s"
  shows "length (authorizing s) \<le> 2"
proof -
  define ids where "ids = filter (\<lambda>i. map_option fl_status (flow_of s i) = Some Authorizing) (a_flows s)"
  have len: "length (authorizing s) = length ids"
    unfolding authorizing_def ids_def List.map_filter_def filter_map length_map filter_filter
    by (rule arg_cong [where f = length], rule filter_cong) (auto simp: o_def)
  have active: "\<exists>f. flow_of s i = Some f \<and> fl_status f = Authorizing" if "i \<in> set ids" for i
    using that by (auto simp: ids_def)
  have "inj_on (\<lambda>i. fl_provider (the (flow_of s i))) (set ids)"
    using active auth_invD(7) [OF inv] unfolding one_active_def inj_on_def by (metis option.sel)
  moreover have "(\<lambda>i. fl_provider (the (flow_of s i))) ` set ids \<subseteq> set provider_ids"
    using active auth_invD(1) [OF inv] by (auto simp: flow_ok_def dest!: flow_ofD) (metis flow_ofD option.sel)
  ultimately have "card (set ids) \<le> card (set provider_ids)" by (intro card_inj_on_le) auto
  moreover have "card (set provider_ids) = 2" by (simp add: provider_ids_def)
  moreover have "distinct ids" using auth_invD(6) [OF inv] by (simp add: ids_def)
  ultimately show ?thesis unfolding len by (simp add: distinct_card)
qed

section \<open>Properties\<close>

text \<open>A run used as witness: DigitalOcean is authorized up to the pending token request.\<close>

definition do_settings :: "string \<Rightarrow> oauth_settings option" where
  "do_settings p = (if p = ''digitalocean''
     then Some \<lparr>oc_clientId = ''c'', oc_clientSecret = ''k'', oc_redirectUrl = ''r'', oc_scope = ''s''\<rparr> else None)"

definition do_started :: auth where
  "do_started = snd (start_flow do_settings id ''digitalocean'' ''flow-1'' ''state-1'' ''v'' (empty_auth 0))"

definition do_parameters :: json where
  "do_parameters = JObj [(''state'', JStr ''state-1''), (''code'', JStr ''x'')]"

definition do_called :: auth where
  "do_called = snd (callback do_settings ''digitalocean'' do_parameters do_started)"

lemma do_started_reachable: "auth_reachable do_settings id do_started"
proof -
  have "auth_step do_settings id (empty_auth 0) do_started"
    unfolding do_started_def by (rule auth_step.start) (simp_all add: empty_auth_def)
  then show ?thesis unfolding auth_reachable_def by blast
qed

lemma do_called_reachable: "auth_reachable do_settings id do_called"
proof -
  have "auth_step do_settings id do_started do_called"
    unfolding do_called_def by (rule auth_step.callback)
  then show ?thesis using do_started_reachable unfolding auth_reachable_def by (meson rtranclp.rtrancl_into_rtrancl)
qed

lemma do_started_state:
  "a_flows do_started = [''flow-1'']" "a_index do_started = [(''state-1'', ''flow-1'')]" "a_tasks do_started = []"
  "a_saved do_started = []" "a_now do_started = 0"
  "map_option fl_state (a_obj do_started ''flow-1'') = Some ''state-1''"
  "map_option fl_status (a_obj do_started ''flow-1'') = Some Authorizing"
  "map_option fl_provider (a_obj do_started ''flow-1'') = Some ''digitalocean''"
  "map_option fl_expires (a_obj do_started ''flow-1'') = Some flow_ttl_ms"
  by (simp_all add: do_started_def start_flow_def empty_auth_def sweep_def provider_ids_def oauthConfig_def
      configured_settings_def do_settings_def authorizing_def max_flows_def jsset_add_def List.map_filter_simps Let_def)

text \<open>
  In every reachable state at most one flow of each provider is being authorized, so that never
  more than two are and the limit of eight active flows, although checked, refuses no start.
\<close>

theorem one_active_flow_per_provider:
  assumes "auth_reachable config digest s"
  shows "(\<forall>i j f g. flow_of s i = Some f \<longrightarrow> flow_of s j = Some g \<longrightarrow> fl_status f = Authorizing \<longrightarrow>
      fl_status g = Authorizing \<longrightarrow> fl_provider f = fl_provider g \<longrightarrow> i = j)
    \<and> length (authorizing s) \<le> 2
    \<and> fst (start_flow config digest provider i st verifier s)
      \<noteq> Inl \<lparr>ae_message = ''too many active authorization flows'', ae_status = 409, ae_code = ''flow_limit''\<rparr>"
proof -
  have inv: "auth_inv s" by (rule auth_reachable_inv [OF assms])
  have le: "length (authorizing t) \<le> 2" if "auth_inv t" for t by (rule authorizing_bound [OF that])
  have "\<not> length (authorizing (sweep s)) \<ge> max_flows"
    using le [OF inv_sweep [OF inv]] by (simp add: max_flows_def)
  then have "fst (start_flow config digest provider i st verifier s)
      \<noteq> Inl \<lparr>ae_message = ''too many active authorization flows'', ae_status = 409, ae_code = ''flow_limit''\<rparr>"
    by (simp add: start_flow_def Let_def oauthConfig_def split: option.splits)
  then show ?thesis using auth_invD(7) [OF inv] le [OF inv] unfolding one_active_def by blast
qed

theorem one_active_flow_per_provider_witness:
  "length (authorizing do_started) \<le> 2 \<and> auth_reachable do_settings id do_started"
  using one_active_flow_per_provider [OF do_started_reachable] do_started_reachable by blast

text \<open>What no step undoes: an OAuth state that has left the index never comes back.\<close>

definition state_gone :: "string \<Rightarrow> auth \<Rightarrow> bool" where
  "state_gone st s \<longleftrightarrow> (\<exists>i. map_option fl_state (a_obj s i) = Some st) \<and> (\<forall>i. (st, i) \<notin> set (a_index s))"

lemma state_gone_frame:
  "state_gone st s \<Longrightarrow> (\<And>i. map_option fl_state (a_obj s' i) = map_option fl_state (a_obj s i))
   \<Longrightarrow> set (a_index s') \<subseteq> set (a_index s) \<Longrightarrow> state_gone st s'"
  unfolding state_gone_def by (metis subsetD)

lemma gone_sweep: "state_gone st s \<Longrightarrow> state_gone st (sweep s)"
  by (erule state_gone_frame) (rule sweep_states)+

lemma gone_upd:
  "state_gone st s \<Longrightarrow> (\<And>x. fl_state (f x) = fl_state x) \<Longrightarrow> state_gone st (upd_flow i f s)"
  by (erule state_gone_frame) (simp_all add: upd_states, simp add: upd_flow_def)

lemma gone_fields [simp]:
  "state_gone st (s\<lparr>a_tasks := t\<rparr>) = state_gone st s" "state_gone st (s\<lparr>a_saved := v\<rparr>) = state_gone st s"
  "state_gone st (s\<lparr>a_now := n\<rparr>) = state_gone st s"
  by (simp_all add: state_gone_def)

lemma gone_delete: "state_gone st s \<Longrightarrow> state_gone st (s\<lparr>a_index := jsmap_delete k (a_index s)\<rparr>)"
  by (erule state_gone_frame) (auto simp: set_jsmap_delete)

lemma gone_fail: "state_gone st s \<Longrightarrow> state_gone st (fail_flow i err s)"
  unfolding fail_flow_def by (rule gone_upd) simp_all

lemma gone_step:
  assumes "auth_step config digest s s'" and "state_gone st s"
  shows "state_gone st s'"
  using assms
proof (induction rule: auth_step.induct)
  case (start i s st' provider verifier)
  show ?case
  proof (cases rule: start_flow_cases [of config digest provider i st' verifier s])
    case refused
    then show ?thesis using gone_sweep [OF start.prems] by simp
  next
    case (started f0)
    obtain j where j: "map_option fl_state (a_obj s j) = Some st" using start.prems by (auto simp: state_gone_def)
    then have "j \<noteq> i" "st \<noteq> st'" using start.hyps by auto
    then have "map_option fl_state (((a_obj (sweep s))(i := Some f0)) j) = Some st"
      using j sweep_states(1) [of s j] by simp
    moreover have "(st, k) \<notin> set (jsmap_set (fl_state f0) i (a_index (sweep s)))" for k
      using jsmap_set_mem [of "(st, k)" "fl_state f0" i "a_index (sweep s)"] started(4) \<open>st \<noteq> st'\<close>
        gone_sweep [OF start.prems] unfolding state_gone_def by auto
    ultimately show ?thesis unfolding state_gone_def started(7)
      by (intro conjI exI [of _ j] allI) simp_all
  qed
next
  case (status s i)
  then show ?case by (simp add: flow_status_of_def Let_def gone_sweep)
next
  case (cancel s i)
  show ?case
  proof (cases rule: cancel_cases [of i s])
    case refused
    then show ?thesis using gone_sweep [OF cancel.prems] by simp
  next
    case (found f)
    then show ?thesis using gone_delete [OF gone_upd [OF gone_sweep [OF cancel.prems]]] by simp
  qed
next
  case (callback s provider parameters)
  show ?case
  proof (cases rule: callback_cases [of config provider parameters s])
    case refused
    then show ?thesis using gone_sweep [OF callback.prems] by simp
  next
    case (accepted i f st' s1)
    have "state_gone st (upd_flow i (\<lambda>f. f\<lparr>fl_url := []\<rparr>) (sweep s))"
      by (rule gone_upd [OF gone_sweep [OF callback.prems]]) simp
    then have "state_gone st s1"
      using gone_delete [of st "upd_flow i (\<lambda>f. f\<lparr>fl_url := []\<rparr>) (sweep s)" "fl_state f"] accepted(7) by (simp add: upd_flow_def)
    then show ?thesis using accepted(8) gone_fail by auto
  qed
next
  case (exchanged s before i body after token account)
  then show ?case by (simp add: exchange_done_def gone_fail split: sum.splits)
next
  case (saved s before i cred after ok)
  then show ?case by (simp add: save_done_def gone_fail gone_upd)
next
  case (close s)
  have "state_gone st s \<Longrightarrow> state_gone st (fold close_flow is s)" for s "is"
    by (induction "is" arbitrary: s) (simp_all add: close_flow_def gone_upd)
  from this [OF close.prems] show ?case
    unfolding close_auth_def by (rule state_gone_frame) simp_all
qed simp

lemma gone_steps: "auth_steps config digest s s' \<Longrightarrow> state_gone st s \<Longrightarrow> state_gone st s'"
  by (induction rule: rtranclp_induct) (auto intro: gone_step)

lemma gone_refused:
  assumes "state_gone st s" and "requiredString (js_get parameters ''state'') ''OAuth state'' = Inr st"
  shows "fst (callback config provider parameters s)
    = Inl \<lparr>ae_message = ''authorization callback is invalid or expired'', ae_status = 400, ae_code = ''invalid_callback''\<rparr>"
proof -
  have "map_of (a_index (sweep s)) st = None"
    using gone_sweep [OF assms(1)] unfolding state_gone_def by (metis map_of_SomeD not_None_eq)
  then show ?thesis using assms(2) by (simp add: callback_def Let_def)
qed

text \<open>
  C12: An OAuth state is accepted once.  After a callback with a state was accepted, every later callback
  with the same state is refused as invalid, whatever happens in between, for either provider and even
  if the first one failed.
\<close>

theorem oauth_state_single_use:
  assumes "auth_reachable config digest s"
    and "requiredString (js_get parameters ''state'') ''OAuth state'' = Inr st"
    and "callback config provider parameters s = (Inr i, s1)"
    and "auth_steps config digest s1 s2"
    and "requiredString (js_get parameters' ''state'') ''OAuth state'' = Inr st"
  shows "fst (callback config provider' parameters' s2)
    = Inl \<lparr>ae_message = ''authorization callback is invalid or expired'', ae_status = 400, ae_code = ''invalid_callback''\<rparr>"
proof -
  have sw: "auth_inv (sweep s)" by (rule inv_sweep [OF auth_reachable_inv [OF assms(1)]])
  have "state_gone st s1"
  proof (cases rule: callback_cases [of config provider parameters s])
    case (accepted j f st' u)
    have st': "st' = st" using accepted(1) assms(2) by simp
    have f: "map_option fl_state (a_obj (sweep s) j) = Some st" "a_obj (sweep s) j = Some f"
      using auth_invD(4) [OF sw map_of_SomeD [OF accepted(2)]] flow_ofD [OF accepted(3)] st' by simp_all
    have "state_gone st u"
      using f upd_states [of "\<lambda>f. f\<lparr>fl_url := []\<rparr>" j "sweep s" j]
      by (auto simp: state_gone_def accepted(7) set_jsmap_delete)
    then show ?thesis using accepted(8) assms(3) gone_fail by auto
  qed (use assms(3) in simp)
  then show ?thesis by (rule gone_refused [OF gone_steps [OF assms(4)] assms(5)])
qed

text \<open>The second callback of the witness run comes from the other provider.\<close>

lemma do_called_accepted: "callback do_settings ''digitalocean'' do_parameters do_started = (Inr ''flow-1'', do_called)"
  and do_called_tasks: "map auth_task_flow (a_tasks do_called) = [''flow-1'']"
proof -
  have sw: "sweep do_started = do_started"
    using do_started_state(7-9) by (auto simp: sweep_def sweep_flow_def do_started_state(1,5) flow_ttl_ms_def)
  have r: "requiredString (js_get do_parameters ''state'') ''OAuth state'' = Inr ''state-1''"
    "requiredString (js_get do_parameters ''code'') ''OAuth code'' = Inr ''x''" "js_get do_parameters ''error'' = None"
    by code_simp+
  obtain f where f: "a_obj do_started ''flow-1'' = Some f" "fl_state f = ''state-1''" "fl_provider f = ''digitalocean''" "fl_status f = Authorizing"
    using do_started_state(6-8) by auto
  have c: "oauthConfig do_settings ''digitalocean'' = Inr \<lparr>oc_clientId = ''c'', oc_clientSecret = ''k'', oc_redirectUrl = ''r'', oc_scope = ''s''\<rparr>"
    by (simp add: oauthConfig_def configured_settings_def do_settings_def)
  show "callback do_settings ''digitalocean'' do_parameters do_started = (Inr ''flow-1'', do_called)"
    "map auth_task_flow (a_tasks do_called) = [''flow-1'']"
    unfolding do_called_def
    by (simp_all add: callback_def sw r c f do_started_state flow_of_def safeEqual_def upd_flow_def)
qed

theorem oauth_state_single_use_witness:
  "fst (callback do_settings ''gcp'' do_parameters do_called)
   = Inl \<lparr>ae_message = ''authorization callback is invalid or expired'', ae_status = 400, ae_code = ''invalid_callback''\<rparr>"
proof (rule oauth_state_single_use [OF do_started_reachable _ do_called_accepted rtranclp.rtrancl_refl])
  show "requiredString (js_get do_parameters ''state'') ''OAuth state'' = Inr ''state-1''" by code_simp
  then show "requiredString (js_get do_parameters ''state'') ''OAuth state'' = Inr ''state-1''" .
qed

text \<open>
  Secrets do not outlive their flow: in every reachable state a flow that is no longer being
  authorized has neither PKCE verifier nor authorization URL, and neither shows in what clients see.
\<close>

theorem verifier_erased:
  assumes "auth_reachable config digest s" and "a_obj s i = Some f" and "fl_status f \<noteq> Authorizing"
  shows "fl_verifier f = [] \<and> fl_url f = [] \<and> fv_url (flowSnapshot f) = None"
  using auth_invD(1) [OF auth_reachable_inv [OF assms(1)] assms(2)] assms(3)
  by (simp add: flow_ok_def flowSnapshot_def)

definition do_cancelled :: auth where
  "do_cancelled = snd (cancel_flow ''flow-1'' do_called)"

lemma do_cancelled_reachable: "auth_reachable do_settings id do_cancelled"
proof -
  have "auth_step do_settings id do_called do_cancelled"
    unfolding do_cancelled_def by (rule auth_step.cancel)
  then show ?thesis using do_called_reachable unfolding auth_reachable_def by (meson rtranclp.rtrancl_into_rtrancl)
qed

lemma do_cancelled_state:
  "map_option fl_status (a_obj do_cancelled ''flow-1'') = Some Cancelled"
  "map_option fl_provider (a_obj do_cancelled ''flow-1'') = Some ''digitalocean''"
  "map auth_task_flow (a_tasks do_cancelled) = [''flow-1'']" "a_tasks do_cancelled = a_tasks do_called"
proof -
  have sw: "sweep do_started = do_started"
    using do_started_state(7-9) by (auto simp: sweep_def sweep_flow_def do_started_state(1,5) flow_ttl_ms_def)
  have r: "requiredString (js_get do_parameters ''state'') ''OAuth state'' = Inr ''state-1''"
    "requiredString (js_get do_parameters ''code'') ''OAuth code'' = Inr ''x''" "js_get do_parameters ''error'' = None"
    by code_simp+
  obtain f where f: "a_obj do_started ''flow-1'' = Some f" "fl_state f = ''state-1''" "fl_provider f = ''digitalocean''"
      "fl_status f = Authorizing" "fl_expires f = flow_ttl_ms"
    using do_started_state(6-9) by auto
  have c: "oauthConfig do_settings ''digitalocean'' = Inr \<lparr>oc_clientId = ''c'', oc_clientSecret = ''k'', oc_redirectUrl = ''r'', oc_scope = ''s''\<rparr>"
    by (simp add: oauthConfig_def configured_settings_def do_settings_def)
  have called: "a_obj do_called ''flow-1'' = Some (f\<lparr>fl_url := []\<rparr>)" "a_flows do_called = [''flow-1'']" "a_now do_called = 0"
    unfolding do_called_def
    by (simp_all add: callback_def sw r c f do_started_state flow_of_def safeEqual_def upd_flow_def)
  have sw': "sweep do_called = do_called"
    using called f(5) by (simp add: sweep_def sweep_flow_def flow_ttl_ms_def)
  show "map_option fl_status (a_obj do_cancelled ''flow-1'') = Some Cancelled"
    "map_option fl_provider (a_obj do_cancelled ''flow-1'') = Some ''digitalocean''" "a_tasks do_cancelled = a_tasks do_called"
    by (simp_all add: do_cancelled_def cancel_flow_def sw' get_flow_def flow_of_def called f Let_def)
  then show "map auth_task_flow (a_tasks do_cancelled) = [''flow-1'']" by (simp add: do_called_tasks)
qed

theorem verifier_erased_witness:
  "map_option fl_verifier (a_obj do_cancelled ''flow-1'') = Some []"
proof -
  obtain f where f: "a_obj do_cancelled ''flow-1'' = Some f" "fl_status f = Cancelled" using do_cancelled_state(1) by auto
  then show ?thesis using verifier_erased [OF do_cancelled_reachable f(1)] by simp
qed

text \<open>
  One authorization, one credential: in every reachable state the flows of the saved credentials
  and of the callbacks still at work are all different.
\<close>

theorem one_credential_per_flow:
  assumes "auth_reachable config digest s"
  shows "distinct (map fst (a_saved s) @ map auth_task_flow (a_tasks s))"
  using auth_invD(2) [OF auth_reachable_inv [OF assms]] by (auto simp: spent_def)

theorem one_credential_per_flow_witness: "distinct (map fst (a_saved do_called) @ map auth_task_flow (a_tasks do_called))"
  by (rule one_credential_per_flow [OF do_called_reachable])

text \<open>
  A cancelled flow can still connect: \<^verbatim>\<open>cancel\<close> does not reach a callback that waits for the
  token or for the credential store, and the callback then overwrites the status.
\<close>

lemma cancelled_flow_connects:
  assumes "a_tasks do_cancelled = before @ Exchange ''flow-1'' body # after"
    and "exchangeDigitalOcean 0 token account = Inr cred" and "a_now do_cancelled = 0"
  shows "\<exists>s. auth_steps do_settings id do_cancelled s \<and> map_option fl_status (a_obj s ''flow-1'') = Some Succeeded
    \<and> (''flow-1'', ''digitalocean'', cred) \<in> set (a_saved s)"
proof -
  let ?s1 = "exchange_done ''flow-1'' (Some token) account (do_cancelled\<lparr>a_tasks := before @ after\<rparr>)"
  have p: "provider_of (do_cancelled\<lparr>a_tasks := before @ after\<rparr>) ''flow-1'' = ''digitalocean''"
    using do_cancelled_state(2) by (auto simp: provider_of_def)
  then have s1: "?s1 = do_cancelled\<lparr>a_tasks := (before @ after) @ [Save ''flow-1'' cred]\<rparr>"
    using assms(2,3) by (simp add: exchange_done_def)
  have "auth_step do_settings id do_cancelled ?s1" by (rule auth_step.exchanged [OF assms(1)])
  moreover have "auth_step do_settings id ?s1 (save_done ''flow-1'' cred True (?s1\<lparr>a_tasks := (before @ after) @ []\<rparr>))"
    by (rule auth_step.saved) (simp add: s1)
  ultimately have "auth_steps do_settings id do_cancelled (save_done ''flow-1'' cred True (?s1\<lparr>a_tasks := (before @ after) @ []\<rparr>))"
    by (meson converse_rtranclp_into_rtranclp r_into_rtranclp)
  then show ?thesis
    using do_cancelled_state(1) p by (intro exI conjI) (auto simp: save_done_def s1 upd_flow_def provider_of_def)
qed

end
