(* ===== verification/Box_Dial.thy ===== *)
theory Box_Dial
  imports Cloud_Authorization
begin

text \<open>
  \<^verbatim>\<open>BoxDialStream\<close> of \<^verbatim>\<open>oyster-hub/box-registry.mjs\<close>: one byte stream tunnelled through the
  web socket of a box.  An operation takes whether the socket is open and returns the stream with the
  frames it hands to the socket.  Taking the stream out of its connection (\<^verbatim>\<open>onRemove\<close>) is left to
  \<^verbatim>\<open>Box_Registry\<close>, which does it for every stream that an operation destroyed.
\<close>

section \<open>Base64 with padding\<close>

definition std_char :: "nat \<Rightarrow> char" where
  "std_char n = (if n = 62 then CHR ''+'' else if n = 63 then CHR ''/'' else b64_char n)"

definition std_value :: "char \<Rightarrow> nat option" where
  "std_value c =
     (if c = CHR ''+'' then Some 62 else if c = CHR ''/'' then Some 63
      else if b64_alphabet c then Some (b64_value c) else None)"

definition base64_encode :: "nat list \<Rightarrow> string" where
  "base64_encode bs = map std_char (b64_sextets bs)
     @ (if length bs mod 3 = 1 then ''=='' else if length bs mod 3 = 2 then ''='' else [])"

text \<open>
  \<^verbatim>\<open>Buffer.from(value, "base64")\<close> skips what is not of either alphabet; it throws
  (\<^term>\<open>None\<close>) on what is neither a string nor an array.  JSON objects that imitate a
  \<^verbatim>\<open>Buffer\<close> are not told apart from the other objects.
\<close>

definition buffer_byte :: "json \<Rightarrow> nat" where
  "buffer_byte j = (case js_number (Some j) of Some n \<Rightarrow> nat (n mod 256) | None \<Rightarrow> 0)"

definition buffer_from :: "json option \<Rightarrow> nat list option" where
  "buffer_from v =
     (case v of
        Some (JStr s) \<Rightarrow> Some (b64_bytes (List.map_filter std_value s))
      | Some (JArr xs) \<Rightarrow> Some (map buffer_byte xs)
      | _ \<Rightarrow> None)"

section \<open>The stream\<close>

definition max_frame_bytes :: nat where "max_frame_bytes = 64 * 1024"
definition dial_chunk_bytes :: nat where "dial_chunk_bytes = 24 * 1024"
definition max_dial_streams :: nat where "max_dial_streams = 64"

record dial =
  ds_id :: string
  ds_port :: int
  ds_connecting :: bool
  ds_remoteClosed :: bool
  ds_destroyed :: bool
  ds_error :: "string option"
  ds_received :: "nat list list" \<comment> \<open>the chunks given to \<^verbatim>\<open>push\<close>, oldest first\<close>
  ds_ended :: bool \<comment> \<open>\<^verbatim>\<open>push(null)\<close> was called\<close>
  ds_parts :: "nat list list option" \<comment> \<open>what the running \<^verbatim>\<open>_write\<close> has still to send\<close>
  ds_queue :: "nat list list" \<comment> \<open>writes the stream buffers behind it\<close>
  ds_ending :: bool
  ds_final :: bool \<comment> \<open>\<^verbatim>\<open>_final\<close> has run\<close>

definition dial_frame :: "string \<Rightarrow> dial \<Rightarrow> (string \<times> json) list \<Rightarrow> json" where
  "dial_frame kind d extra = JObj ([(''type'', JStr kind), (''stream_id'', JStr (ds_id d))] @ extra)"

definition new_dial :: "string \<Rightarrow> int \<Rightarrow> dial \<times> json list" where
  "new_dial i port =
     (let d = \<lparr>ds_id = i, ds_port = port, ds_connecting = True, ds_remoteClosed = False, ds_destroyed = False, ds_error = None,
               ds_received = [], ds_ended = False, ds_parts = None, ds_queue = [], ds_ending = False, ds_final = False\<rparr>
      in (d, [dial_frame ''dial_open'' d [(''port'', JNum port)]]))"

definition opened :: "dial \<Rightarrow> dial" where
  "opened d = (if \<not> ds_connecting d \<or> ds_destroyed d then d else d\<lparr>ds_connecting := False\<rparr>)"

text \<open>\<^verbatim>\<open>destroy\<close> of the runtime calls \<^verbatim>\<open>_destroy\<close> once.\<close>

definition dial_destroy :: "bool \<Rightarrow> string option \<Rightarrow> dial \<Rightarrow> dial \<times> json list" where
  "dial_destroy live err d =
     (if ds_destroyed d then (d, [])
      else (d\<lparr>ds_destroyed := True, ds_error := err\<rparr>,
            if \<not> ds_remoteClosed d \<and> live then [dial_frame ''dial_close'' d []] else []))"

function split_parts :: "nat list \<Rightarrow> nat list list" where
  "split_parts [] = []"
| "split_parts (b # bs) = take dial_chunk_bytes (b # bs) # split_parts (drop dial_chunk_bytes (b # bs))"
  by pat_completeness auto
termination by (relation "measure length") (auto simp: dial_chunk_bytes_def)

text \<open>
  \<^verbatim>\<open>sendNext\<close>.  When the parts of a write are out its callback runs and the stream starts the next
  buffered write, or \<^verbatim>\<open>_final\<close> when it was asked to end.
\<close>

definition dial_final :: "bool \<Rightarrow> dial \<Rightarrow> dial \<times> json list" where
  "dial_final live d =
     (if ds_ending d \<and> \<not> ds_final d
      then (d\<lparr>ds_final := True\<rparr>, if live then [dial_frame ''dial_end'' d []] else [])
      else (d, []))"

fun send_next :: "bool \<Rightarrow> nat list list \<Rightarrow> nat list list \<Rightarrow> dial \<Rightarrow> dial \<times> json list" where
  "send_next live (p # ps) q d =
     (if live
      then (d\<lparr>ds_parts := Some ps, ds_queue := q\<rparr>, [dial_frame ''dial_data'' d [(''data'', JStr (base64_encode p))]])
      else dial_destroy live (Some ''box connection is closed'') (d\<lparr>ds_parts := None, ds_queue := []\<rparr>))"
| "send_next live [] (c # q) d = send_next live (split_parts c) q d"
| "send_next live [] [] d = dial_final live (d\<lparr>ds_parts := None, ds_queue := []\<rparr>)"

text \<open>The writable side as its consumer uses it, and the callback of a send.\<close>

definition dial_write :: "bool \<Rightarrow> nat list \<Rightarrow> dial \<Rightarrow> dial \<times> json list" where
  "dial_write live chunk d =
     (if ds_destroyed d then (d, [])
      else if ds_ending d then dial_destroy live (Some ''write after end'') d
      else case ds_parts d of
             None \<Rightarrow> send_next live (split_parts chunk) [] d
           | Some _ \<Rightarrow> (d\<lparr>ds_queue := ds_queue d @ [chunk]\<rparr>, []))"

definition dial_end :: "bool \<Rightarrow> dial \<Rightarrow> dial \<times> json list" where
  "dial_end live d =
     (if ds_destroyed d \<or> ds_ending d then (d, [])
      else if ds_parts d = None then dial_final live (d\<lparr>ds_ending := True\<rparr>)
      else (d\<lparr>ds_ending := True\<rparr>, []))"

definition dial_sent :: "bool \<Rightarrow> string option \<Rightarrow> dial \<Rightarrow> dial \<times> json list" where
  "dial_sent live err d =
     (if ds_destroyed d then (d, [])
      else case ds_parts d of
             None \<Rightarrow> (d, [])
           | Some ps \<Rightarrow>
               (case err of
                  Some e \<Rightarrow> dial_destroy live (Some e) d
                | None \<Rightarrow> send_next live ps (ds_queue d) d))"

text \<open>\<^verbatim>\<open>push\<close>: a chunk after the end of the readable side destroys the stream, an empty one does nothing.\<close>

definition dial_push :: "bool \<Rightarrow> nat list \<Rightarrow> dial \<Rightarrow> dial \<times> json list" where
  "dial_push live chunk d =
     (if chunk = [] then (d, [])
      else if ds_ended d then dial_destroy live (Some ''stream.push() after EOF'') d
      else if ds_destroyed d then (d, [])
      else (d\<lparr>ds_received := ds_received d @ [chunk]\<rparr>, []))"

definition error_text :: "json option \<Rightarrow> string" where
  "error_text v = (if truthy_json v then js_string (the v) else ''box dial failed'')"

definition receive :: "bool \<Rightarrow> json \<Rightarrow> dial \<Rightarrow> dial \<times> json list" where
  "receive live message d =
     (let kind = js_get message ''type'' in
      if kind = Some (JStr ''dial_opened'') then (opened d, [])
      else if kind = Some (JStr ''dial_data'') then
        (case buffer_from (js_get message ''data'') of
           None \<Rightarrow> dial_destroy live (Some ''invalid box dial data'') d
         | Some chunk \<Rightarrow>
             if length chunk > dial_chunk_bytes then dial_destroy live (Some ''box dial chunk exceeds limit'') d
             else dial_push live chunk d)
      else if kind = Some (JStr ''dial_end'') then (d\<lparr>ds_remoteClosed := True, ds_ended := True\<rparr>, [])
      else if kind = Some (JStr ''dial_error'') then
        dial_destroy live (Some (error_text (js_get message ''error''))) (d\<lparr>ds_remoteClosed := True\<rparr>)
      else if kind = Some (JStr ''dial_close'') then
        dial_destroy live None (d\<lparr>ds_remoteClosed := True, ds_ended := True\<rparr>)
      else (d, []))"

end
