(* ===== verification/Box_Registry.thy ===== *)
theory Box_Registry
  imports Box_Dial
begin

text \<open>
  \<^verbatim>\<open>oyster-hub/box-registry.mjs\<close>: the registrations of remote boxes and their connections.
  Registrations are never removed, so a key of \<open>g_records\<close> stands for the object the code passes
  around; connection objects live in a heap by their epoch (\<open>g_conn\<close>), and \<open>g_connections\<close> is the
  map \<^verbatim>\<open>connections\<close> from keys to epochs.  \<^verbatim>\<open>authenticate\<close> is cut at its two
  \<^verbatim>\<open>await\<close>s: a task waits for the verification, and the pending write of the state file carries
  what goes on after it.  Times are milliseconds; the hash and the random values are arguments.
\<close>

section \<open>Registrations\<close>

definition bootstrap_ttl_ms :: int where "bootstrap_ttl_ms = 20 * 60 * 1000"

record registration =
  br_boxId :: string
  br_generation :: string
  br_provider :: string
  br_instance :: "string option"
  br_bootstrapHash :: "string option"
  br_reconnectHash :: "string option"
  br_created :: int
  br_expires :: "int option" \<comment> \<open>\<^term>\<open>None\<close> where \<^verbatim>\<open>Date.parse\<close> gives \<^verbatim>\<open>NaN\<close>\<close>
  br_status :: string
  br_bootstrapUsed :: "int option"
  br_connected :: "int option"
  br_lastSeen :: "int option"
  br_disconnected :: "int option"
  br_revoked :: "int option"
  br_revokeReason :: "string option"
  br_agent :: json
  br_observed :: json

definition id_char :: "char \<Rightarrow> bool" where
  "id_char c \<longleftrightarrow> c \<in> set ''ABCDEFGHIJKLMNOPQRSTUVWXYZabcdefghijklmnopqrstuvwxyz0123456789''"

definition validIdentity :: "json option \<Rightarrow> bool" where
  "validIdentity v =
     (case v of
        Some (JStr (c # cs)) \<Rightarrow> id_char c \<and> length cs \<le> 127 \<and> list_all (\<lambda>d. id_char d \<or> d \<in> set ''._:-'') cs
      | _ \<Rightarrow> False)"

definition safeEqualHash :: "(string \<Rightarrow> string) \<Rightarrow> string option \<Rightarrow> json option \<Rightarrow> bool" where
  "safeEqualHash hash expected v =
     (case (expected, v) of
        (Some h, Some (JStr s)) \<Rightarrow> h \<noteq> [] \<and> utf8_encode h = utf8_encode (hash s)
      | _ \<Rightarrow> False)"

definition field2 :: "json \<Rightarrow> string \<Rightarrow> string \<Rightarrow> json option" where
  "field2 j a b = Option.bind (js_get j a) (\<lambda>v. js_get v b)"

text \<open>
  \<^verbatim>\<open>agent?.capabilities?.includes("dial_v1")\<close>; \<^term>\<open>None\<close> where \<^verbatim>\<open>includes\<close> is not a function
  of the value.
\<close>

definition dial_capable :: "registration \<Rightarrow> bool option" where
  "dial_capable r =
     (case js_get (br_agent r) ''capabilities'' of
        None \<Rightarrow> Some False
      | Some JNull \<Rightarrow> Some False
      | Some (JArr xs) \<Rightarrow> Some (JStr ''dial_v1'' \<in> set xs)
      | Some (JStr t) \<Rightarrow> Some (js_includes t ''dial_v1'')
      | _ \<Rightarrow> None)"

record public_registration =
  pr_boxId :: string
  pr_generation :: string
  pr_provider :: string
  pr_instance :: "string option"
  pr_status :: string
  pr_failureReason :: "string option"
  pr_created :: int
  pr_expires :: "int option"
  pr_connected :: "int option"
  pr_lastSeen :: "int option"
  pr_observed :: json

definition past :: "int option \<Rightarrow> int \<Rightarrow> bool" where
  "past deadline now = (case deadline of Some t \<Rightarrow> now > t | None \<Rightarrow> False)"

definition nonempty_text :: "string option \<Rightarrow> bool" where
  "nonempty_text v \<longleftrightarrow> v \<noteq> None \<and> v \<noteq> Some []"

definition publicRegistration :: "registration \<Rightarrow> bool \<Rightarrow> int \<Rightarrow> public_registration option" where
  "publicRegistration r connected timestamp =
     (case dial_capable r of
        None \<Rightarrow> None
      | Some capable \<Rightarrow>
          (let connectedStatus = (if js_get (br_observed r) ''service_state'' = Some (JStr ''ready'') \<and> capable
                                  then ''online'' else ''initializing'');
               bootstrapExpired = (\<not> connected \<and> br_status r = ''awaiting_agent'' \<and> \<not> nonempty_text (br_reconnectHash r)
                                   \<and> past (br_expires r) timestamp)
           in Some \<lparr>pr_boxId = br_boxId r, pr_generation = br_generation r, pr_provider = br_provider r,
                pr_instance = (if nonempty_text (br_instance r) then br_instance r else None),
                pr_status = (if connected then connectedStatus else if bootstrapExpired then ''failed'' else br_status r),
                pr_failureReason = (if bootstrapExpired
                  then Some ''agent did not register before the bootstrap credential expired'' else None),
                pr_created = br_created r, pr_expires = br_expires r, pr_connected = br_connected r,
                pr_lastSeen = br_lastSeen r, pr_observed = br_observed r\<rparr>))"

type_synonym box_error = "string \<times> string" \<comment> \<open>code and message\<close>

section \<open>Attestation\<close>

definition instance_missing :: box_error where
  "instance_missing = (''attestation_required'', ''provider instance identity is missing'')"

definition gcp_claims_ok :: "json \<Rightarrow> string \<Rightarrow> string \<Rightarrow> bool" where
  "gcp_claims_ok claims connectOrigin instanceId \<longleftrightarrow>
     js_get claims ''aud'' = Some (JStr connectOrigin)
     \<and> js_get claims ''iss'' \<in> {Some (JStr ''https://accounts.google.com''), Some (JStr ''accounts.google.com'')}
     \<and> js_string (or_json (Option.bind (js_get claims ''google'') (\<lambda>g. field2 g ''compute_engine'' ''instance_id'')) (JStr []))
       = instanceId"

definition attest_provider :: "registration \<Rightarrow> json \<Rightarrow> string \<Rightarrow> string \<Rightarrow> box_error + unit" where
  "attest_provider r attestation connectOrigin instanceId =
     (let fmt = js_get attestation ''format'' in
      if br_provider r = ''aws'' then
        (if fmt \<noteq> Some (JStr ''aws-iid-rsa2048'') \<or> \<not> truthy_json (js_get attestation ''document'')
            \<or> \<not> truthy_json (js_get attestation ''signature'')
         then Inl (''attestation_required'', ''AWS instance identity document is required'')
         else case json_parse (js_string (the (js_get attestation ''document''))) of
                None \<Rightarrow> Inl (''attestation_invalid'', ''AWS instance identity document is invalid'')
              | Some JNull \<Rightarrow> Inl (''registration_failed'', ''TypeError'')
              | Some document \<Rightarrow>
                  if js_string (or_json (js_get document ''instanceId'') (JStr [])) \<noteq> instanceId
                  then Inl (''identity_mismatch'', ''AWS instance identity does not match'') else Inr ())
      else if br_provider r = ''gcp'' then
        (case (fmt = Some (JStr ''gcp-identity-jwt''), js_get attestation ''token'') of
           (True, Some (JStr token)) \<Rightarrow>
             (let parts = js_split CHR ''.'' token in
              if length parts \<noteq> 3 then Inl (''attestation_invalid'', ''GCP identity token is invalid'')
              else case Option.bind (utf8_decode (b64_bytes (List.map_filter std_value (parts ! 1)))) json_parse of
                     None \<Rightarrow> Inl (''attestation_invalid'', ''GCP identity token is invalid'')
                   | Some JNull \<Rightarrow> Inl (''registration_failed'', ''TypeError'')
                   | Some claims \<Rightarrow>
                       if \<not> gcp_claims_ok claims connectOrigin instanceId
                       then Inl (''attestation_invalid'', ''GCP identity token claims are invalid'') else Inr ())
         | _ \<Rightarrow> Inl (''attestation_required'', ''GCP identity token is required''))
      else if br_provider r = ''digitalocean'' then
        (if fmt \<noteq> Some (JStr ''digitalocean-metadata-v1'')
         then Inl (''attestation_required'', ''DigitalOcean metadata identity is required'') else Inr ())
      else if br_provider r = ''hetzner'' then
        (if fmt \<noteq> Some (JStr ''hetzner-metadata-v1'')
         then Inl (''attestation_required'', ''Hetzner metadata identity is required'') else Inr ())
      else Inl (''attestation_invalid'', ''unsupported provider attestation''))"

definition defaultVerifyAttestation :: "registration \<Rightarrow> json \<Rightarrow> string \<Rightarrow> box_error + unit" where
  "defaultVerifyAttestation r hello connectOrigin =
     (if field2 hello ''provider'' ''kind'' \<noteq> Some (JStr (br_provider r))
      then Inl (''identity_mismatch'', ''provider identity mismatch'')
      else if \<not> validIdentity (field2 hello ''provider'' ''instance_id'') then Inl instance_missing
      else if \<not> nonempty_text (br_instance r)
      then Inl (''provider_pending'', ''provider is still binding the created instance'')
      else if Some (JStr (the (br_instance r))) \<noteq> field2 hello ''provider'' ''instance_id''
      then Inl (''identity_mismatch'', ''provider instance identity mismatch'')
      else case field2 hello ''provider'' ''attestation'' of
             Some (JObj fs) \<Rightarrow> attest_provider r (JObj fs) connectOrigin (the (br_instance r))
           | Some (JArr xs) \<Rightarrow> attest_provider r (JArr xs) connectOrigin (the (br_instance r))
           | _ \<Rightarrow> Inl (''attestation_required'', ''provider attestation is required''))"

section \<open>The registry\<close>

datatype sock_state = Open | Closing | Closed

text \<open>
  \<open>Fresh\<close>: no frame yet; \<open>Helloing\<close>: the handler of the first frame is running, or it failed and no other
  listener was added; \<open>Ready\<close>: \<^verbatim>\<open>authenticated\<close> is set and frames are handled.
\<close>

datatype sock_stage = Fresh | Helloing | Ready string string

record sock =
  so_state :: sock_state
  so_stage :: sock_stage
  so_origin :: string

record conn =
  cn_socket :: nat
  cn_instance :: string
  cn_streams :: "string list"

record greeting =
  we_socket :: nat
  we_key :: string
  we_epoch :: string
  we_credential :: "string option"

record registry =
  g_records :: "(string \<times> registration) list"
  g_connections :: "(string \<times> string) list"
  g_conn :: "string \<Rightarrow> conn option"
  g_streams :: "string \<Rightarrow> dial option"
  g_sockets :: "nat \<Rightarrow> sock option"
  g_sent :: "(nat \<times> json) list"
  g_verifying :: "(nat \<times> string \<times> json) list" \<comment> \<open>socket, key and hello whose attestation was accepted\<close>
  g_writes :: "(registration list \<times> greeting option) list" \<comment> \<open>snapshots of \<^verbatim>\<open>writeChain\<close>, oldest first\<close>
  g_file :: "registration list"
  g_now :: int
  g_unhandled :: nat \<comment> \<open>promises rejected with nobody to catch\<close>

definition keyOf :: "string \<Rightarrow> string \<Rightarrow> string" where
  "keyOf boxId generation = boxId @ CHR 0x00 # generation"

abbreviation record_of :: "registry \<Rightarrow> string \<Rightarrow> registration option" where
  "record_of s k \<equiv> map_of (g_records s) k"

definition connection_of :: "registry \<Rightarrow> string \<Rightarrow> (string \<times> conn) option" where
  "connection_of s k = Option.bind (map_of (g_connections s) k) (\<lambda>e. map_option (Pair e) (g_conn s e))"

definition upd_record :: "string \<Rightarrow> (registration \<Rightarrow> registration) \<Rightarrow> registry \<Rightarrow> registry" where
  "upd_record k f s =
     (case record_of s k of None \<Rightarrow> s | Some r \<Rightarrow> s\<lparr>g_records := jsmap_set k (f r) (g_records s)\<rparr>)"

text \<open>The repair of the records read from the state file.\<close>

definition load_record :: "registration \<Rightarrow> registration" where
  "load_record r =
     (if br_revoked r = None \<and> br_status r \<in> {''online'', ''initializing''}
      then r\<lparr>br_status := (if nonempty_text (br_reconnectHash r) then ''offline'' else ''awaiting_agent'')\<rparr>
      else r)"

definition load_registry :: "registration list \<Rightarrow> int \<Rightarrow> registry" where
  "load_registry rows now =
     \<lparr>g_records = fold (\<lambda>r m. jsmap_set (keyOf (br_boxId r) (br_generation r)) (load_record r) m) rows [],
      g_connections = [], g_conn = Map.empty, g_streams = Map.empty, g_sockets = Map.empty, g_sent = [],
      g_verifying = [], g_writes = [], g_file = rows, g_now = now, g_unhandled = 0\<rparr>"

definition persist :: "greeting option \<Rightarrow> registry \<Rightarrow> registry" where
  "persist waiter s = s\<lparr>g_writes := g_writes s @ [(map snd (g_records s), waiter)]\<rparr>"

text \<open>The socket library drops what is sent on a socket that is not open.\<close>

definition sock_open :: "nat \<Rightarrow> registry \<Rightarrow> bool" where
  "sock_open k s \<longleftrightarrow> (case g_sockets s k of Some x \<Rightarrow> so_state x = Open | None \<Rightarrow> False)"

definition send_frame :: "nat \<Rightarrow> json \<Rightarrow> registry \<Rightarrow> registry" where
  "send_frame k j s = (if sock_open k s then s\<lparr>g_sent := g_sent s @ [(k, j)]\<rparr> else s)"

definition upd_sock :: "nat \<Rightarrow> (sock \<Rightarrow> sock) \<Rightarrow> registry \<Rightarrow> registry" where
  "upd_sock k f s = s\<lparr>g_sockets := (g_sockets s)(k := map_option f (g_sockets s k))\<rparr>"

definition close_socket :: "nat \<Rightarrow> registry \<Rightarrow> registry" where
  "close_socket k = upd_sock k (\<lambda>x. if so_state x = Open then x\<lparr>so_state := Closing\<rparr> else x)"

definition sendError :: "nat \<Rightarrow> box_error \<Rightarrow> registry \<Rightarrow> registry" where
  "sendError k e = send_frame k (JObj [(''type'', JStr ''box_error''),
     (''error'', JObj [(''code'', JStr (fst e)), (''message'', JStr (snd e))])])"

definition refuse :: "nat \<Rightarrow> box_error \<Rightarrow> registry \<Rightarrow> registry" where
  "refuse k e s = close_socket k (sendError k e s)"

text \<open>
  An operation on the stream of connection \<open>e\<close>: its frames go to the socket of that connection, and a
  destroyed stream is taken out of it (\<^verbatim>\<open>onRemove\<close>).
\<close>

definition upd_conn :: "string \<Rightarrow> (conn \<Rightarrow> conn) \<Rightarrow> registry \<Rightarrow> registry" where
  "upd_conn e f s = s\<lparr>g_conn := (g_conn s)(e := map_option f (g_conn s e))\<rparr>"

definition on_stream :: "(bool \<Rightarrow> dial \<Rightarrow> dial \<times> json list) \<Rightarrow> string \<Rightarrow> string \<Rightarrow> registry \<Rightarrow> registry" where
  "on_stream f e i s =
     (case (g_conn s e, g_streams s i) of
        (Some c, Some d) \<Rightarrow>
          (let (d', frames) = f (sock_open (cn_socket c) s) d;
               s1 = fold (send_frame (cn_socket c)) frames (s\<lparr>g_streams := (g_streams s)(i \<mapsto> d')\<rparr>)
           in if ds_destroyed d' then upd_conn e (\<lambda>c. c\<lparr>cn_streams := jsset_delete i (cn_streams c)\<rparr>) s1 else s1)
      | _ \<Rightarrow> s)"

definition destroy_streams :: "string \<Rightarrow> string \<Rightarrow> registry \<Rightarrow> registry" where
  "destroy_streams message e s =
     (case g_conn s e of
        None \<Rightarrow> s
      | Some c \<Rightarrow>
          upd_conn e (\<lambda>c. c\<lparr>cn_streams := []\<rparr>)
            (fold (\<lambda>i. on_stream (\<lambda>live. dial_destroy live (Some message)) e i) (cn_streams c) s))"

section \<open>Connecting\<close>

definition new_socket :: "nat \<Rightarrow> string option \<Rightarrow> registry \<Rightarrow> registry" where
  "new_socket k host s =
     s\<lparr>g_sockets := (g_sockets s)(k \<mapsto> \<lparr>so_state = Open, so_stage = Fresh,
        so_origin = ''https://'' @ (case host of Some (c # cs) \<Rightarrow> c # cs | _ \<Rightarrow> ''hub.get-oyster.dev'')\<rparr>)\<rparr>"

definition first_frame_timeout :: "nat \<Rightarrow> registry \<Rightarrow> registry" where
  "first_frame_timeout k s =
     (if map_option so_stage (g_sockets s k) = Some Fresh then close_socket k s else s)"

definition hello_key :: "json \<Rightarrow> string" where
  "hello_key hello = keyOf (js_string (the (js_get hello ''box_id''))) (js_string (the (js_get hello ''generation'')))"

text \<open>\<^verbatim>\<open>authenticate\<close> up to the answer of \<^verbatim>\<open>verifyAttestation\<close>.\<close>

definition authenticate_start ::
  "(registration \<Rightarrow> json \<Rightarrow> string \<Rightarrow> box_error + unit) \<Rightarrow> string \<Rightarrow> json \<Rightarrow> registry \<Rightarrow> box_error + string" where
  "authenticate_start verify origin hello s =
     (if js_get hello ''type'' \<noteq> Some (JStr ''box_hello'') \<or> js_get hello ''protocol'' \<noteq> Some (JNum 1)
         \<or> \<not> validIdentity (js_get hello ''box_id'') \<or> \<not> validIdentity (js_get hello ''generation'')
      then Inl (''invalid_hello'', ''invalid box hello'')
      else case record_of s (hello_key hello) of
        None \<Rightarrow> Inl (''unknown_generation'', ''box generation is not pending or active'')
      | Some r \<Rightarrow>
          if br_revoked r \<noteq> None then Inl (''unknown_generation'', ''box generation is not pending or active'')
          else if field2 hello ''provider'' ''kind'' \<noteq> Some (JStr (br_provider r))
                  \<or> \<not> validIdentity (field2 hello ''provider'' ''instance_id'')
            then Inl (''identity_mismatch'', ''provider identity mismatch'')
          else if \<not> nonempty_text (br_instance r)
            then Inl (''provider_pending'', ''provider is still binding the created instance'')
          else if Some (JStr (the (br_instance r))) \<noteq> field2 hello ''provider'' ''instance_id''
            then Inl (''identity_mismatch'', ''provider instance identity mismatch'')
          else case verify r hello origin of Inl e \<Rightarrow> Inl e | Inr _ \<Rightarrow> Inr (hello_key hello))"

text \<open>
  The rest of it: the credentials of \<open>hello\<close> against the record as it is now.  With a bootstrap secret
  the record takes the hash of the new reconnect credential.
\<close>

definition check_credentials ::
  "(string \<Rightarrow> string) \<Rightarrow> int \<Rightarrow> string \<Rightarrow> json \<Rightarrow> registration \<Rightarrow> box_error + string option \<times> registration" where
  "check_credentials hash now fresh hello r =
     (let mode = field2 hello ''auth'' ''mode'' in
      if mode = Some (JStr ''bootstrap'') then
        (if br_bootstrapUsed r \<noteq> None \<or> past (br_expires r) now
         then Inl (''bootstrap_expired'', ''bootstrap credential expired or already used'')
         else if \<not> safeEqualHash hash (br_bootstrapHash r) (field2 hello ''auth'' ''secret'')
         then Inl (''authentication_failed'', ''bootstrap credential rejected'')
         else Inr (Some fresh, r\<lparr>br_bootstrapUsed := Some now, br_bootstrapHash := None, br_reconnectHash := Some (hash fresh)\<rparr>))
      else if mode = Some (JStr ''reconnect'') then
        (if \<not> safeEqualHash hash (br_reconnectHash r) (field2 hello ''auth'' ''credential'')
         then Inl (''authentication_failed'', ''reconnect credential rejected'')
         else Inr (None, r))
      else Inl (''authentication_failed'', ''unsupported box authentication mode''))"

definition supersede :: "string \<Rightarrow> nat \<Rightarrow> registry \<Rightarrow> registry" where
  "supersede old k s =
     (case g_conn s old of
        None \<Rightarrow> s
      | Some c \<Rightarrow> if cn_socket c = k then s
                  else close_socket (cn_socket c) (destroy_streams ''box connection superseded'' old s))"

definition mark_online :: "int \<Rightarrow> json \<Rightarrow> registration \<Rightarrow> registration" where
  "mark_online now hello r =
     r\<lparr>br_instance := (if nonempty_text (br_instance r) then br_instance r
          else map_option js_string (field2 hello ''provider'' ''instance_id'')),
       br_connected := Some now, br_lastSeen := Some now, br_status := ''online'',
       br_agent := or_json (js_get hello ''agent'') JNull, br_observed := or_json (js_get hello ''observed'') JNull\<rparr>"

definition authenticate_finish ::
  "(string \<Rightarrow> string) \<Rightarrow> string \<Rightarrow> string \<Rightarrow> nat \<Rightarrow> string \<Rightarrow> json \<Rightarrow> registry \<Rightarrow> box_error option \<times> registry" where
  "authenticate_finish hash fresh epoch k key hello s =
     (case record_of s key of
        None \<Rightarrow> (None, s)
      | Some r \<Rightarrow>
          (case check_credentials hash (g_now s) fresh hello r of
             Inl e \<Rightarrow> (Some e, s)
           | Inr (reconnectCredential, r1) \<Rightarrow>
               (let previous = map_of (g_connections s) key;
                    c = \<lparr>cn_socket = k, cn_instance = js_string (the (field2 hello ''provider'' ''instance_id'')), cn_streams = []\<rparr>;
                    s1 = s\<lparr>g_records := jsmap_set key r1 (g_records s), g_conn := (g_conn s)(epoch \<mapsto> c),
                           g_connections := jsmap_set key epoch (g_connections s)\<rparr>;
                    s2 = (case previous of None \<Rightarrow> s1 | Some old \<Rightarrow> supersede old k s1);
                    s3 = upd_record key (mark_online (g_now s) hello) s2
                in (None, persist (Some \<lparr>we_socket = k, we_key = key, we_epoch = epoch, we_credential = reconnectCredential\<rparr>) s3))))"

section \<open>Frames\<close>

definition welcome_json :: "greeting \<Rightarrow> json" where
  "welcome_json w = JObj ([(''type'', JStr ''box_welcome''), (''protocol'', JNum 1), (''connection_epoch'', JStr (we_epoch w))]
     @ (case we_credential w of Some (c # cs) \<Rightarrow> [(''credential'', JStr (c # cs))] | _ \<Rightarrow> [])
     @ [(''capabilities'', JArr [JStr ''register_v1'', JStr ''heartbeat_v1'', JStr ''dial_v1'']),
        (''limits'', JObj [(''max_frame_bytes'', JNum (int max_frame_bytes)), (''heartbeat_interval_ms'', JNum 15000),
           (''heartbeat_timeout_ms'', JNum 45000), (''max_streams'', JNum (int max_dial_streams)),
           (''max_inflight_requests'', JNum (int max_dial_streams))])])"

text \<open>The oldest write of the state file ends; a waiting \<^verbatim>\<open>authenticate\<close> then returns or throws.\<close>

definition persisted :: "bool \<Rightarrow> registry \<Rightarrow> registry" where
  "persisted ok s =
     (case g_writes s of
        [] \<Rightarrow> s
      | (snapshot, waiter) # rest \<Rightarrow>
          (let s1 = s\<lparr>g_writes := rest, g_file := (if ok then snapshot else g_file s)\<rparr> in
           case waiter of
             None \<Rightarrow> s1
           | Some w \<Rightarrow>
               if ok then send_frame (we_socket w) (welcome_json w) (upd_sock (we_socket w) (\<lambda>x. x\<lparr>so_stage := Ready (we_key w) (we_epoch w)\<rparr>) s1)
               else refuse (we_socket w) (''registration_failed'', ''registration failed'') s1))"

definition hello_frame ::
  "(registration \<Rightarrow> json \<Rightarrow> string \<Rightarrow> box_error + unit) \<Rightarrow> nat \<Rightarrow> bool \<Rightarrow> string \<Rightarrow> registry \<Rightarrow> registry" where
  "hello_frame verify k binary frame s =
     (case g_sockets s k of
        None \<Rightarrow> s
      | Some x \<Rightarrow>
          (let s1 = upd_sock k (\<lambda>x. x\<lparr>so_stage := Helloing\<rparr>) s in
           if binary then refuse k (''invalid_hello'', ''binary hello is not supported'') s1
           else case json_parse frame of
                  None \<Rightarrow> refuse k (''registration_failed'', ''SyntaxError'') s1
                | Some hello \<Rightarrow>
                    (case authenticate_start verify (so_origin x) hello s1 of
                       Inl e \<Rightarrow> refuse k e s1
                     | Inr key \<Rightarrow> s1\<lparr>g_verifying := g_verifying s1 @ [(k, key, hello)]\<rparr>)))"

definition verified :: "(string \<Rightarrow> string) \<Rightarrow> string \<Rightarrow> string \<Rightarrow> nat \<Rightarrow> string \<Rightarrow> json \<Rightarrow> registry \<Rightarrow> registry" where
  "verified hash fresh epoch k key hello s =
     (case authenticate_finish hash fresh epoch k key hello s of
        (Some e, s1) \<Rightarrow> refuse k e s1
      | (None, s1) \<Rightarrow> s1)"

definition dial_kinds :: "json option list" where
  "dial_kinds = map (\<lambda>t. Some (JStr t)) [''dial_opened'', ''dial_data'', ''dial_end'', ''dial_error'', ''dial_close'']"

text \<open>
  A frame on a socket that has been welcomed.  On the frame \<^verbatim>\<open>null\<close> the access to
  \<^verbatim>\<open>message.type\<close> throws in an \<^verbatim>\<open>async\<close> listener: nobody handles that rejection.
\<close>

definition stream_frame :: "nat \<Rightarrow> string \<Rightarrow> conn \<Rightarrow> json \<Rightarrow> registry \<Rightarrow> registry" where
  "stream_frame k epoch c message s =
     (if \<not> validIdentity (js_get message ''stream_id'') then close_socket k s
      else case js_get message ''stream_id'' of
             Some (JStr i) \<Rightarrow> if i \<in> set (cn_streams c) then on_stream (\<lambda>live. receive live message) epoch i s else s
           | _ \<Rightarrow> s)"

definition status_frame :: "nat \<Rightarrow> string \<Rightarrow> json \<Rightarrow> registry \<Rightarrow> registry" where
  "status_frame k key message s =
     (if js_get message ''type'' \<notin> {Some (JStr ''heartbeat''), Some (JStr ''status'')} then close_socket k s
      else persist None (upd_record key (\<lambda>r. r\<lparr>br_lastSeen := Some (g_now s), br_observed :=
             (case (js_get message ''type'' = Some (JStr ''status''), js_get message ''observed'') of
                (True, Some (JObj fs)) \<Rightarrow> JObj fs
              | (True, Some (JArr xs)) \<Rightarrow> JArr xs
              | _ \<Rightarrow> br_observed r)\<rparr>) s))"

definition frame_handler :: "nat \<Rightarrow> bool \<Rightarrow> string \<Rightarrow> registry \<Rightarrow> registry" where
  "frame_handler k binary frame s =
     (case map_option so_stage (g_sockets s k) of
        Some (Ready key epoch) \<Rightarrow>
          if binary \<or> length (utf8_encode frame) > max_frame_bytes then close_socket k s
          else (case json_parse frame of
                  None \<Rightarrow> close_socket k s
                | Some message \<Rightarrow>
                    (case connection_of s key of
                       None \<Rightarrow> s
                     | Some (e, c) \<Rightarrow>
                         if e \<noteq> epoch then s
                         else if message = JNull then s\<lparr>g_unhandled := g_unhandled s + 1\<rparr>
                         else if js_get message ''type'' \<in> set dial_kinds then stream_frame k epoch c message s
                         else status_frame k key message s))
      | _ \<Rightarrow> s)"

definition socket_closed :: "nat \<Rightarrow> registry \<Rightarrow> registry" where
  "socket_closed k s0 =
     (let s = upd_sock k (\<lambda>x. x\<lparr>so_state := Closed\<rparr>) s0 in
      case map_option so_stage (g_sockets s k) of
        Some (Ready key epoch) \<Rightarrow>
          if map_of (g_connections s) key \<noteq> Some epoch then s
          else persist None (upd_record key (\<lambda>r. r\<lparr>br_status := ''offline'', br_disconnected := Some (g_now s)\<rparr>)
                 (destroy_streams ''box connection closed'' epoch (s\<lparr>g_connections := jsmap_delete key (g_connections s)\<rparr>)))
      | _ \<Rightarrow> s)"

section \<open>The interface of the registry\<close>

text \<open>\<^verbatim>\<open>dial\<close>: the new stream, or the message of the error.\<close>

definition dial :: "json option \<Rightarrow> json option \<Rightarrow> int \<Rightarrow> string \<Rightarrow> registry \<Rightarrow> (string + string) \<times> registry" where
  "dial boxId generation port streamId s =
     (if \<not> validIdentity boxId \<or> \<not> validIdentity generation then (Inl ''invalid box dial identity'', s)
      else if port \<noteq> 8080 then (Inl ''box agent only permits localhost port 8080'', s)
      else
        (let key = keyOf (js_string (the boxId)) (js_string (the generation)) in
         case (connection_of s key, record_of s key) of
           (Some (e, c), Some r) \<Rightarrow>
             if br_revoked r \<noteq> None then (Inl ''box is not connected'', s)
             else (case dial_capable r of
                     None \<Rightarrow> (Inl ''TypeError'', s)
                   | Some False \<Rightarrow> (Inl ''box agent does not support localhost Dial'', s)
                   | Some True \<Rightarrow>
                       if length (cn_streams c) \<ge> max_dial_streams then (Inl ''box dial stream limit reached'', s)
                       else (Inr streamId,
                             fold (send_frame (cn_socket c)) (snd (new_dial streamId port))
                               (upd_conn e (\<lambda>c. c\<lparr>cn_streams := jsset_add streamId (cn_streams c)\<rparr>)
                                 (s\<lparr>g_streams := (g_streams s)(streamId \<mapsto> fst (new_dial streamId port))\<rparr>))))
         | _ \<Rightarrow> (Inl ''box is not connected'', s)))"

definition close_registry :: "registry \<Rightarrow> registry" where
  "close_registry s =
     (fold (\<lambda>(key, e) t. case g_conn t e of
              None \<Rightarrow> t
            | Some c \<Rightarrow> close_socket (cn_socket c) (destroy_streams ''box registry closed'' e t)) (g_connections s) s)
       \<lparr>g_connections := []\<rparr>"

definition prepareRegistration ::
  "(string \<Rightarrow> string) \<Rightarrow> json option \<Rightarrow> json option \<Rightarrow> int \<Rightarrow> string \<Rightarrow> string \<Rightarrow> registry \<Rightarrow> (string + registration) \<times> registry" where
  "prepareRegistration hash boxId provider ttlMs generation bootstrapSecret s =
     (if \<not> validIdentity boxId then (Inl ''invalid boxId'', s)
      else if \<not> validIdentity provider then (Inl ''invalid provider'', s)
      else
        (let r = \<lparr>br_boxId = js_string (the boxId), br_generation = generation, br_provider = js_lower (js_string (the provider)),
                  br_instance = None, br_bootstrapHash = Some (hash bootstrapSecret), br_reconnectHash = None,
                  br_created = g_now s, br_expires = Some (g_now s + ttlMs), br_status = ''awaiting_agent'',
                  br_bootstrapUsed = None, br_connected = None, br_lastSeen = None, br_disconnected = None,
                  br_revoked = None, br_revokeReason = None, br_agent = JNull, br_observed = JNull\<rparr>
         in (Inr r, persist None (s\<lparr>g_records := jsmap_set (keyOf (br_boxId r) generation) r (g_records s)\<rparr>))))"

definition bindProviderInstance ::
  "string \<Rightarrow> string \<Rightarrow> json option \<Rightarrow> registry \<Rightarrow> (string + public_registration) \<times> registry" where
  "bindProviderInstance boxId generation instanceId s =
     (if \<not> validIdentity instanceId then (Inl ''invalid provider instance id'', s)
      else
        (let key = keyOf boxId generation; inst = js_string (the instanceId) in
         case record_of s key of
           None \<Rightarrow> (Inl ''box registration not found'', s)
         | Some r \<Rightarrow>
             if nonempty_text (br_instance r) \<and> br_instance r \<noteq> Some inst
             then (Inl ''provider instance identity cannot be replaced'', s)
             else
               (let s1 = upd_record key (\<lambda>r. r\<lparr>br_instance := Some inst\<rparr>) s in
                case connection_of s1 key of
                  Some (e, c) \<Rightarrow>
                    if cn_instance c \<noteq> inst
                    then (Inl ''connected agent provider identity does not match created instance'',
                          close_socket (cn_socket c) (upd_record key (\<lambda>r. r\<lparr>br_revoked := Some (g_now s), br_status := ''failed''\<rparr>) s1))
                    else (case publicRegistration (r\<lparr>br_instance := Some inst\<rparr>) True (g_now s) of
                            None \<Rightarrow> (Inl ''TypeError'', persist None s1) | Some p \<Rightarrow> (Inr p, persist None s1))
                | None \<Rightarrow>
                    (case publicRegistration (r\<lparr>br_instance := Some inst\<rparr>) False (g_now s) of
                       None \<Rightarrow> (Inl ''TypeError'', persist None s1) | Some p \<Rightarrow> (Inr p, persist None s1)))))"

definition revoke :: "string \<Rightarrow> string \<Rightarrow> string \<Rightarrow> registry \<Rightarrow> bool \<times> registry" where
  "revoke boxId generation reason s =
     (let key = keyOf boxId generation in
      case record_of s key of
        None \<Rightarrow> (False, s)
      | Some r \<Rightarrow>
          (let s1 = upd_record key (\<lambda>r. r\<lparr>br_revoked := Some (g_now s), br_revokeReason := Some (take 256 reason),
                      br_bootstrapHash := None, br_reconnectHash := None, br_status := ''failed''\<rparr>) s;
               s2 = (case connection_of s1 key of None \<Rightarrow> s1 | Some (e, c) \<Rightarrow> close_socket (cn_socket c) s1)
           in (True, persist None (s2\<lparr>g_connections := jsmap_delete key (g_connections s2)\<rparr>))))"

definition get_registration :: "string \<Rightarrow> string \<Rightarrow> registry \<Rightarrow> public_registration option option" where
  "get_registration boxId generation s =
     (let key = keyOf boxId generation in
      map_option (\<lambda>r. publicRegistration r (map_of (g_connections s) key \<noteq> None) (g_now s)) (record_of s key))"

definition list_registrations :: "registry \<Rightarrow> public_registration option list" where
  "list_registrations s =
     map (\<lambda>(key, r). publicRegistration r (map_of (g_connections s) key \<noteq> None) (g_now s)) (g_records s)"

section \<open>The transition system\<close>

text \<open>Random ids are new: no registration, connection or stream has them yet.\<close>

inductive box_step :: "(registration \<Rightarrow> json \<Rightarrow> string \<Rightarrow> box_error + unit) \<Rightarrow> (string \<Rightarrow> string) \<Rightarrow> registry \<Rightarrow> registry \<Rightarrow> bool"
  for verify hash where
  prepared: "keyOf (js_string (the boxId)) generation \<notin> set (map fst (g_records s)) \<Longrightarrow>
    box_step verify hash s (snd (prepareRegistration hash boxId provider ttlMs generation bootstrapSecret s))"
| bound: "box_step verify hash s (snd (bindProviderInstance boxId generation instanceId s))"
| revoked: "box_step verify hash s (snd (revoke boxId generation reason s))"
| connected: "g_sockets s k = None \<Longrightarrow> box_step verify hash s (new_socket k host s)"
| timed_out: "box_step verify hash s (first_frame_timeout k s)"
| hello: "map_option so_stage (g_sockets s k) = Some Fresh \<Longrightarrow> map_option so_state (g_sockets s k) \<noteq> Some Closed \<Longrightarrow>
    box_step verify hash s (hello_frame verify k binary frame s)"
| checked: "g_verifying s = before @ (k, key, hello) # after \<Longrightarrow> g_conn s epoch = None \<Longrightarrow>
    box_step verify hash s (verified hash fresh epoch k key hello (s\<lparr>g_verifying := before @ after\<rparr>))"
| written: "box_step verify hash s (persisted ok s)"
| frame: "map_option so_state (g_sockets s k) \<noteq> Some Closed \<Longrightarrow> box_step verify hash s (frame_handler k binary frame s)"
| closed: "map_option so_state (g_sockets s k) \<noteq> Some Closed \<Longrightarrow> box_step verify hash s (socket_closed k s)"
| dialled: "g_streams s i = None \<Longrightarrow> box_step verify hash s (snd (dial boxId generation port i s))"
| used: "g_conn s e = Some c \<Longrightarrow> i \<in> set (cn_streams c) \<Longrightarrow>
    f \<in> {\<lambda>live. dial_write live chunk, dial_end, \<lambda>live. dial_sent live err, \<lambda>live. dial_destroy live err} \<Longrightarrow>
    box_step verify hash s (on_stream f e i s)"
| shut: "box_step verify hash s (close_registry s)"
| passed: "g_now s \<le> t \<Longrightarrow> box_step verify hash s (s\<lparr>g_now := t\<rparr>)"

definition box_reachable ::
  "(registration \<Rightarrow> json \<Rightarrow> string \<Rightarrow> box_error + unit) \<Rightarrow> (string \<Rightarrow> string) \<Rightarrow> registry \<Rightarrow> bool" where
  "box_reachable verify hash s \<longleftrightarrow> (\<exists>rows now. (box_step verify hash)\<^sup>*\<^sup>* (load_registry rows now) s)"

end
