(* ===== verification/Box_Properties.thy ===== *)
theory Box_Properties
  imports Box_Registry
begin

text \<open>
  Invariants and properties of the box registry of \<^verbatim>\<open>oyster-hub/box-registry.mjs\<close>.
\<close>

section \<open>What the helpers leave alone\<close>

lemma send_frame_frame [simp]:
  "g_records (send_frame k j s) = g_records s" "g_connections (send_frame k j s) = g_connections s"
  "g_conn (send_frame k j s) = g_conn s" "g_streams (send_frame k j s) = g_streams s"
  "g_verifying (send_frame k j s) = g_verifying s" "g_sockets (send_frame k j s) = g_sockets s"
  "g_now (send_frame k j s) = g_now s" "g_unhandled (send_frame k j s) = g_unhandled s"
  by (simp_all add: send_frame_def)

lemma send_frames_frame [simp]:
  "g_records (fold (send_frame k) js s) = g_records s" "g_connections (fold (send_frame k) js s) = g_connections s"
  "g_conn (fold (send_frame k) js s) = g_conn s" "g_streams (fold (send_frame k) js s) = g_streams s"
  "g_verifying (fold (send_frame k) js s) = g_verifying s" "g_sockets (fold (send_frame k) js s) = g_sockets s"
  "g_now (fold (send_frame k) js s) = g_now s" "g_unhandled (fold (send_frame k) js s) = g_unhandled s"
  by (induction js arbitrary: s) simp_all

lemma socket_frame [simp]:
  "g_records (upd_sock k f s) = g_records s" "g_connections (upd_sock k f s) = g_connections s"
  "g_conn (upd_sock k f s) = g_conn s" "g_streams (upd_sock k f s) = g_streams s" "g_verifying (upd_sock k f s) = g_verifying s"
  "g_records (close_socket k s) = g_records s" "g_connections (close_socket k s) = g_connections s"
  "g_conn (close_socket k s) = g_conn s" "g_streams (close_socket k s) = g_streams s" "g_verifying (close_socket k s) = g_verifying s"
  "g_records (refuse k e s) = g_records s" "g_connections (refuse k e s) = g_connections s"
  "g_conn (refuse k e s) = g_conn s" "g_streams (refuse k e s) = g_streams s" "g_verifying (refuse k e s) = g_verifying s"
  by (simp_all add: upd_sock_def close_socket_def refuse_def sendError_def)

lemma persist_frame [simp]:
  "g_records (persist w s) = g_records s" "g_connections (persist w s) = g_connections s" "g_conn (persist w s) = g_conn s"
  "g_streams (persist w s) = g_streams s" "g_verifying (persist w s) = g_verifying s" "g_sockets (persist w s) = g_sockets s"
  by (simp_all add: persist_def)

lemma upd_record_frame [simp]:
  "g_connections (upd_record k f s) = g_connections s" "g_conn (upd_record k f s) = g_conn s"
  "g_streams (upd_record k f s) = g_streams s" "g_verifying (upd_record k f s) = g_verifying s"
  "g_sockets (upd_record k f s) = g_sockets s" "g_now (upd_record k f s) = g_now s"
  by (simp_all add: upd_record_def split: option.splits)

lemma record_of_upd [simp]:
  "record_of (upd_record k f s) j = (if j = k then map_option f (record_of s k) else record_of s j)"
  by (auto simp: upd_record_def split: option.splits)

lemma keys_upd_record [simp]: "set (map fst (g_records (upd_record k f s))) = set (map fst (g_records s))"
proof (cases "record_of s k")
  case (Some r)
  then have "k \<in> fst ` set (g_records s)" by (force dest: map_of_SomeD)
  then show ?thesis using Some by (auto simp: upd_record_def)
qed (simp add: upd_record_def)

definition same_conns :: "registry \<Rightarrow> registry \<Rightarrow> bool" where
  "same_conns s t \<longleftrightarrow> g_records t = g_records s \<and> g_connections t = g_connections s \<and> g_verifying t = g_verifying s
     \<and> (\<forall>e. map_option (\<lambda>c. (cn_socket c, cn_instance c)) (g_conn t e) = map_option (\<lambda>c. (cn_socket c, cn_instance c)) (g_conn s e))"

lemma same_conns_refl [simp, intro]: "same_conns s s"
  by (simp add: same_conns_def)

lemma same_conns_trans: "same_conns s t \<Longrightarrow> same_conns t u \<Longrightarrow> same_conns s u"
  by (simp add: same_conns_def)

lemma same_conns_frame:
  "g_records t = g_records s \<Longrightarrow> g_connections t = g_connections s \<Longrightarrow> g_verifying t = g_verifying s \<Longrightarrow> g_conn t = g_conn s
   \<Longrightarrow> same_conns s t"
  by (simp add: same_conns_def)

lemma on_stream_same: "same_conns s (on_stream f e i s)"
proof (cases "g_conn s e")
  case (Some c)
  then show ?thesis
  proof (cases "g_streams s i")
    case (Some d)
    obtain d' js where f: "f (sock_open (cn_socket c) s) d = (d', js)" by (cases "f (sock_open (cn_socket c) s) d")
    show ?thesis
      by (auto simp: on_stream_def \<open>g_conn s e = Some c\<close> Some f same_conns_def upd_conn_def Let_def)
  qed (simp add: on_stream_def split: option.splits)
qed (simp add: on_stream_def)

lemma fold_on_stream_same: "same_conns s (fold (\<lambda>i. on_stream f e i) is s)"
  by (induction "is" arbitrary: s) (auto intro: same_conns_trans on_stream_same)

lemma upd_conn_same: "(\<And>c. cn_socket (f c) = cn_socket c \<and> cn_instance (f c) = cn_instance c) \<Longrightarrow> same_conns s (upd_conn e f s)"
  by (simp add: same_conns_def upd_conn_def option.map_comp o_def)

lemma destroy_streams_same: "same_conns s (destroy_streams m e s)"
proof (cases "g_conn s e")
  case (Some c)
  then show ?thesis
    unfolding destroy_streams_def Some option.case
    by (rule_tac same_conns_trans [OF fold_on_stream_same], rule_tac upd_conn_same) simp
qed (simp add: destroy_streams_def)

section \<open>Connections belong to the bound instance\<close>

definition conn_ok :: "registry \<Rightarrow> string \<Rightarrow> string \<Rightarrow> bool" where
  "conn_ok s k e \<longleftrightarrow> (\<exists>c r. g_conn s e = Some c \<and> record_of s k = Some r \<and> cn_instance c \<noteq> []
     \<and> br_instance r = Some (cn_instance c) \<and> br_revoked r = None)"

definition verifying_ok :: "registry \<Rightarrow> string \<Rightarrow> json \<Rightarrow> bool" where
  "verifying_ok s k hello \<longleftrightarrow> (\<exists>r inst. record_of s k = Some r \<and> field2 hello ''provider'' ''instance_id'' = Some (JStr inst)
     \<and> inst \<noteq> [] \<and> br_instance r = Some inst
     \<and> (br_revoked r \<noteq> None \<longrightarrow> br_bootstrapHash r = None \<and> br_reconnectHash r = None))"

definition conn_inv :: "registry \<Rightarrow> bool" where
  "conn_inv s \<longleftrightarrow> (\<forall>k e. map_of (g_connections s) k = Some e \<longrightarrow> conn_ok s k e)
     \<and> (\<forall>n k hello. (n, k, hello) \<in> set (g_verifying s) \<longrightarrow> verifying_ok s k hello)"

lemma conn_invI:
  "(\<And>k e. map_of (g_connections s) k = Some e \<Longrightarrow> conn_ok s k e)
   \<Longrightarrow> (\<And>n k hello. (n, k, hello) \<in> set (g_verifying s) \<Longrightarrow> verifying_ok s k hello) \<Longrightarrow> conn_inv s"
  unfolding conn_inv_def by blast

lemma conn_invD:
  assumes "conn_inv s"
  shows "map_of (g_connections s) k = Some e \<Longrightarrow> conn_ok s k e"
    "(n, k, hello) \<in> set (g_verifying s) \<Longrightarrow> verifying_ok s k hello"
  using assms unfolding conn_inv_def by blast+

lemma conn_ok_same: "same_conns s t \<Longrightarrow> conn_ok s k e \<Longrightarrow> conn_ok t k e"
proof -
  assume same: "same_conns s t" and ok: "conn_ok s k e"
  then obtain c r where c: "g_conn s e = Some c" "record_of s k = Some r" "cn_instance c \<noteq> []"
    "br_instance r = Some (cn_instance c)" "br_revoked r = None" unfolding conn_ok_def by blast
  from same have "map_option (\<lambda>c. (cn_socket c, cn_instance c)) (g_conn t e) = Some (cn_socket c, cn_instance c)"
    unfolding same_conns_def by (simp add: c)
  then obtain c' where "g_conn t e = Some c'" "cn_instance c' = cn_instance c" by auto
  then show ?thesis using same c unfolding conn_ok_def same_conns_def by auto
qed

lemma conn_inv_same [inv_rules]: "conn_inv s \<Longrightarrow> same_conns s t \<Longrightarrow> conn_inv t"
  using conn_ok_same [of s t] unfolding conn_inv_def verifying_ok_def by (auto simp: same_conns_def)

lemma conn_inv_verifying_drop:
  "conn_inv s \<Longrightarrow> g_verifying s = before @ x # after \<Longrightarrow> conn_inv (s\<lparr>g_verifying := before @ after\<rparr>)"
  unfolding conn_inv_def conn_ok_def verifying_ok_def by auto

text \<open>An update of a record that keeps its instance, its revocation and, where revoked, its hashes.\<close>

lemma conn_inv_upd_record:
  assumes inv: "conn_inv s"
    and f: "\<And>r. br_instance (f r) = br_instance r" "\<And>r. br_revoked (f r) = br_revoked r"
      "\<And>r. br_bootstrapHash (f r) = br_bootstrapHash r" "\<And>r. br_reconnectHash (f r) = br_reconnectHash r"
  shows "conn_inv (upd_record k f s)"
proof (rule conn_invI)
  fix j e assume "map_of (g_connections (upd_record k f s)) j = Some e"
  then have "conn_ok s j e" using conn_invD(1) [OF inv] by simp
  then show "conn_ok (upd_record k f s) j e" unfolding conn_ok_def by (auto simp: f)
next
  fix n j hello assume "(n, j, hello) \<in> set (g_verifying (upd_record k f s))"
  then have "verifying_ok s j hello" using conn_invD(2) [OF inv] by simp
  then show "verifying_ok (upd_record k f s) j hello" unfolding verifying_ok_def by (auto simp: f)
qed

lemma conn_inv_disconnect: "conn_inv s \<Longrightarrow> conn_inv (s\<lparr>g_connections := jsmap_delete k (g_connections s)\<rparr>)"
  unfolding conn_inv_def conn_ok_def verifying_ok_def by (auto split: if_splits)

lemma conn_inv_persist: "conn_inv s \<Longrightarrow> conn_inv (persist w s)"
  by (erule conn_inv_same) (simp add: same_conns_frame)

lemma conn_inv_prepare: "conn_inv s \<Longrightarrow> keyOf (js_string (the boxId)) generation \<notin> set (map fst (g_records s))
  \<Longrightarrow> conn_inv (snd (prepareRegistration hash boxId provider ttlMs generation bootstrapSecret s))"
proof -
  assume inv: "conn_inv s" and new: "keyOf (js_string (the boxId)) generation \<notin> set (map fst (g_records s))"
  then have none: "record_of s (keyOf (js_string (the boxId)) generation) = None" by (simp add: jsmap_get_None_iff)
  have "conn_inv (s\<lparr>g_records := jsmap_set (keyOf (js_string (the boxId)) generation) r (g_records s)\<rparr>)" for r
  proof (rule conn_invI)
    fix j e assume "map_of (g_connections (s\<lparr>g_records := jsmap_set (keyOf (js_string (the boxId)) generation) r (g_records s)\<rparr>)) j = Some e"
    then have "conn_ok s j e" using conn_invD(1) [OF inv] by simp
    then show "conn_ok (s\<lparr>g_records := jsmap_set (keyOf (js_string (the boxId)) generation) r (g_records s)\<rparr>) j e"
      unfolding conn_ok_def using none by auto
  next
    fix n j hello assume "(n, j, hello) \<in> set (g_verifying (s\<lparr>g_records := jsmap_set (keyOf (js_string (the boxId)) generation) r (g_records s)\<rparr>))"
    then have "verifying_ok s j hello" using conn_invD(2) [OF inv] by simp
    then show "verifying_ok (s\<lparr>g_records := jsmap_set (keyOf (js_string (the boxId)) generation) r (g_records s)\<rparr>) j hello"
      unfolding verifying_ok_def using none by auto
  qed
  then show ?thesis using inv by (simp add: prepareRegistration_def conn_inv_persist Let_def)
qed

lemma connection_of_SomeD:
  "connection_of s k = Some (e, c) \<Longrightarrow> map_of (g_connections s) k = Some e \<and> g_conn s e = Some c"
  by (auto simp: connection_of_def bind_eq_Some_conv)

text \<open>Binding: the record gets an instance it did not have, or keeps its own.\<close>

lemma conn_inv_bind_record:
  assumes inv: "conn_inv s" and r: "record_of s k = Some r" and ok: "\<not> (nonempty_text (br_instance r) \<and> br_instance r \<noteq> Some inst)"
  shows "conn_inv (upd_record k (\<lambda>r. r\<lparr>br_instance := Some inst\<rparr>) s)"
proof (rule conn_invI)
  fix j e assume "map_of (g_connections (upd_record k (\<lambda>r. r\<lparr>br_instance := Some inst\<rparr>) s)) j = Some e"
  then have "conn_ok s j e" using conn_invD(1) [OF inv] by simp
  then show "conn_ok (upd_record k (\<lambda>r. r\<lparr>br_instance := Some inst\<rparr>) s) j e"
    unfolding conn_ok_def using r ok by (auto simp: nonempty_text_def)
next
  fix n j hello assume "(n, j, hello) \<in> set (g_verifying (upd_record k (\<lambda>r. r\<lparr>br_instance := Some inst\<rparr>) s))"
  then have "verifying_ok s j hello" using conn_invD(2) [OF inv] by simp
  then show "verifying_ok (upd_record k (\<lambda>r. r\<lparr>br_instance := Some inst\<rparr>) s) j hello"
    unfolding verifying_ok_def using r ok by (auto simp: nonempty_text_def)
qed

lemma bind_no_mismatch:
  assumes inv: "conn_inv s" and r: "record_of s k = Some r" and ok: "\<not> (nonempty_text (br_instance r) \<and> br_instance r \<noteq> Some inst)"
    and c: "connection_of s k = Some (e, c)"
  shows "cn_instance c = inst"
  using conn_invD(1) [OF inv, of k e] connection_of_SomeD [OF c] r ok unfolding conn_ok_def by (auto simp: nonempty_text_def)

lemma connection_of_upd_record [simp]: "connection_of (upd_record k f s) j = connection_of s j"
  by (simp add: connection_of_def)

lemma bind_cases:
  assumes inv: "conn_inv s"
  obtains "snd (bindProviderInstance boxId generation instanceId s) = s"
  | r inst where "record_of s (keyOf boxId generation) = Some r" "\<not> (nonempty_text (br_instance r) \<and> br_instance r \<noteq> Some inst)"
      "snd (bindProviderInstance boxId generation instanceId s)
         = persist None (upd_record (keyOf boxId generation) (\<lambda>r. r\<lparr>br_instance := Some inst\<rparr>) s)"
proof (cases "record_of s (keyOf boxId generation)")
  case None
  then show ?thesis using that(1) by (simp add: bindProviderInstance_def Let_def)
next
  case (Some r)
  show ?thesis
  proof (cases "validIdentity instanceId \<and> \<not> (nonempty_text (br_instance r) \<and> br_instance r \<noteq> Some (js_string (the instanceId)))")
    case True
    then have "snd (bindProviderInstance boxId generation instanceId s)
      = persist None (upd_record (keyOf boxId generation) (\<lambda>r. r\<lparr>br_instance := Some (js_string (the instanceId))\<rparr>) s)"
      using bind_no_mismatch [OF inv Some, of "js_string (the instanceId)"]
      by (auto simp: bindProviderInstance_def Let_def Some split: option.splits prod.splits)
    then show ?thesis using that(2) Some True by blast
  next
    case False
    then have "snd (bindProviderInstance boxId generation instanceId s) = s"
      unfolding bindProviderInstance_def Let_def using Some by auto
    then show ?thesis by (rule that(1))
  qed
qed

lemma conn_inv_bind: "conn_inv s \<Longrightarrow> conn_inv (snd (bindProviderInstance boxId generation instanceId s))"
  by (rule bind_cases [of s boxId generation instanceId]) (auto intro: conn_inv_persist conn_inv_bind_record)

lemma conn_inv_revoke: "conn_inv s \<Longrightarrow> conn_inv (snd (revoke boxId generation reason s))"
proof (cases "record_of s (keyOf boxId generation)")
  case (Some r)
  assume inv: "conn_inv s"
  let ?k = "keyOf boxId generation"
  let ?f = "\<lambda>r. r\<lparr>br_revoked := Some (g_now s), br_revokeReason := Some (take 256 reason),
    br_bootstrapHash := None, br_reconnectHash := None, br_status := ''failed''\<rparr>"
  define t where "t = (upd_record ?k ?f s)\<lparr>g_connections := jsmap_delete ?k (g_connections s)\<rparr>"
  have "conn_inv t"
  proof (rule conn_invI)
    fix j e assume "map_of (g_connections t) j = Some e"
    then show "conn_ok t j e" using conn_invD(1) [OF inv, of j e] unfolding conn_ok_def t_def by (auto split: if_splits)
  next
    fix n j hello assume "(n, j, hello) \<in> set (g_verifying t)"
    then show "verifying_ok t j hello" using conn_invD(2) [OF inv, of n j hello] unfolding verifying_ok_def t_def by auto
  qed
  moreover have "same_conns t (snd (revoke boxId generation reason s))"
    by (auto simp: revoke_def Some Let_def t_def same_conns_def split: option.splits)
  ultimately show ?thesis by (rule conn_inv_same)
qed (simp add: revoke_def)

lemma authenticate_start_Inr:
  assumes "authenticate_start verify origin hello s = Inr key"
  obtains r inst where "key = hello_key hello" "record_of s key = Some r" "br_revoked r = None" "br_instance r = Some inst" "inst \<noteq> []"
    "field2 hello ''provider'' ''instance_id'' = Some (JStr inst)"
  using assms by (auto simp: authenticate_start_def nonempty_text_def split: if_splits option.splits sum.splits)

lemma conn_inv_hello: "conn_inv s \<Longrightarrow> conn_inv (hello_frame verify k binary frame s)"
proof -
  assume inv: "conn_inv s"
  define s1 where "s1 = upd_sock k (\<lambda>x. x\<lparr>so_stage := Helloing\<rparr>) s"
  have s1: "conn_inv s1" unfolding s1_def by (rule conn_inv_same [OF inv]) (simp add: same_conns_frame)
  have "conn_inv (s1\<lparr>g_verifying := g_verifying s1 @ [(k, key, hello)]\<rparr>)"
    if start: "authenticate_start verify origin hello s1 = Inr key" for origin hello key
  proof -
    obtain r inst where r: "record_of s1 key = Some r" "br_revoked r = None" "br_instance r = Some inst" "inst \<noteq> []"
      "field2 hello ''provider'' ''instance_id'' = Some (JStr inst)" using start by (rule authenticate_start_Inr)
    then have "verifying_ok s1 key hello" by (auto simp: verifying_ok_def)
    then show ?thesis using s1 unfolding conn_inv_def conn_ok_def verifying_ok_def by auto
  qed
  then show ?thesis
    using inv s1 unfolding hello_frame_def s1_def [symmetric] Let_def
    by (auto split: option.splits sum.splits intro!: conn_inv_same [OF s1] same_conns_frame)
qed

lemma check_credentials_Inr:
  assumes "check_credentials hash now fresh hello r = Inr (cred, r1)"
  shows "br_instance r1 = br_instance r" "br_revoked r1 = br_revoked r" "br_bootstrapHash r \<noteq> None \<or> br_reconnectHash r \<noteq> None"
    "field2 hello ''auth'' ''mode'' = Some (JStr ''bootstrap'') \<Longrightarrow> br_bootstrapUsed r = None \<and> br_bootstrapUsed r1 = Some now"
    "br_bootstrapUsed r \<noteq> None \<Longrightarrow> br_bootstrapUsed r1 = br_bootstrapUsed r"
  using assms by (auto simp: check_credentials_def Let_def safeEqualHash_def split: if_splits option.splits)

lemma destroy_close_same: "same_conns s (close_socket k (destroy_streams m e s))"
  by (rule same_conns_trans [OF destroy_streams_same [of s m e]]) (simp add: same_conns_frame)

lemma supersede_same: "same_conns s (supersede old k s)"
proof (cases "g_conn s old")
  case (Some c)
  then show ?thesis by (simp add: supersede_def destroy_close_same)
qed (simp add: supersede_def)

lemma authenticate_finish_cases:
  obtains e where "authenticate_finish hash fresh epoch k key hello s = (Some e, s)"
  | "record_of s key = None" "authenticate_finish hash fresh epoch k key hello s = (None, s)"
  | r cred r1 s1 t where "record_of s key = Some r" "check_credentials hash (g_now s) fresh hello r = Inr (cred, r1)"
    "s1 = s\<lparr>g_records := jsmap_set key r1 (g_records s), g_conn := (g_conn s)(epoch \<mapsto>
       \<lparr>cn_socket = k, cn_instance = js_string (the (field2 hello ''provider'' ''instance_id'')), cn_streams = []\<rparr>),
       g_connections := jsmap_set key epoch (g_connections s)\<rparr>"
    "t = (case map_of (g_connections s) key of None \<Rightarrow> s1 | Some old \<Rightarrow> supersede old k s1)" "same_conns s1 t"
    "authenticate_finish hash fresh epoch k key hello s
       = (None, persist (Some \<lparr>we_socket = k, we_key = key, we_epoch = epoch, we_credential = cred\<rparr>)
            (upd_record key (mark_online (g_now s) hello) t))"
proof (cases "record_of s key")
  case None
  then show ?thesis using that(2) by (simp add: authenticate_finish_def)
next
  case (Some r)
  show ?thesis
  proof (cases "check_credentials hash (g_now s) fresh hello r")
    case (Inl e)
    then show ?thesis using that(1) Some by (simp add: authenticate_finish_def)
  next
    case (Inr p)
    obtain cred r1 where p: "p = (cred, r1)" by (cases p)
    define s1 where "s1 = s\<lparr>g_records := jsmap_set key r1 (g_records s), g_conn := (g_conn s)(epoch \<mapsto>
       \<lparr>cn_socket = k, cn_instance = js_string (the (field2 hello ''provider'' ''instance_id'')), cn_streams = []\<rparr>),
       g_connections := jsmap_set key epoch (g_connections s)\<rparr>"
    define t where "t = (case map_of (g_connections s) key of None \<Rightarrow> s1 | Some old \<Rightarrow> supersede old k s1)"
    have "same_conns s1 t" by (auto simp: t_def supersede_same split: option.splits)
    moreover have "authenticate_finish hash fresh epoch k key hello s
       = (None, persist (Some \<lparr>we_socket = k, we_key = key, we_epoch = epoch, we_credential = cred\<rparr>)
            (upd_record key (mark_online (g_now s) hello) t))"
      unfolding authenticate_finish_def Some option.case Inr sum.case p prod.case Let_def t_def s1_def ..
    ultimately show ?thesis using that(3) Some Inr p s1_def t_def by blast
  qed
qed

lemma mark_online_simps [simp]:
  "br_revoked (mark_online now hello r) = br_revoked r" "br_bootstrapUsed (mark_online now hello r) = br_bootstrapUsed r"
  "br_bootstrapHash (mark_online now hello r) = br_bootstrapHash r" "br_reconnectHash (mark_online now hello r) = br_reconnectHash r"
  "nonempty_text (br_instance r) \<Longrightarrow> br_instance (mark_online now hello r) = br_instance r"
  by (simp_all add: mark_online_def)

lemma conn_inv_verified:
  assumes inv: "conn_inv s0" and pending: "g_verifying s0 = before @ (k, key, hello) # after" and new: "g_conn s0 epoch = None"
  shows "conn_inv (verified hash fresh epoch k key hello (s0\<lparr>g_verifying := before @ after\<rparr>))"
proof -
  define s where "s = s0\<lparr>g_verifying := before @ after\<rparr>"
  have s: "conn_inv s" "g_conn s epoch = None" using conn_inv_verifying_drop [OF inv pending] new by (simp_all add: s_def)
  have "verifying_ok s0 key hello" by (rule conn_invD(2) [OF inv, of k]) (simp add: pending)
  then obtain r0 inst where r0: "record_of s key = Some r0" "field2 hello ''provider'' ''instance_id'' = Some (JStr inst)" "inst \<noteq> []"
    "br_instance r0 = Some inst" "br_revoked r0 \<noteq> None \<Longrightarrow> br_bootstrapHash r0 = None \<and> br_reconnectHash r0 = None"
    unfolding verifying_ok_def s_def by auto
  have "conn_inv (verified hash fresh epoch k key hello s)"
  proof (rule authenticate_finish_cases [of hash fresh epoch k key hello s])
    fix e assume "authenticate_finish hash fresh epoch k key hello s = (Some e, s)"
    then show ?thesis using s(1) by (auto simp: verified_def intro!: conn_inv_same [OF s(1)] same_conns_frame)
  next
    assume "authenticate_finish hash fresh epoch k key hello s = (None, s)"
    then show ?thesis using s(1) by (simp add: verified_def)
  next
    fix r cred r1 s1 t
    assume a: "record_of s key = Some r" "check_credentials hash (g_now s) fresh hello r = Inr (cred, r1)"
      "s1 = s\<lparr>g_records := jsmap_set key r1 (g_records s), g_conn := (g_conn s)(epoch \<mapsto>
         \<lparr>cn_socket = k, cn_instance = js_string (the (field2 hello ''provider'' ''instance_id'')), cn_streams = []\<rparr>),
         g_connections := jsmap_set key epoch (g_connections s)\<rparr>"
      "same_conns s1 t"
      "authenticate_finish hash fresh epoch k key hello s
       = (None, persist (Some \<lparr>we_socket = k, we_key = key, we_epoch = epoch, we_credential = cred\<rparr>)
            (upd_record key (mark_online (g_now s) hello) t))"
    note cc = check_credentials_Inr [OF a(2)]
    have r: "r = r0" using a(1) r0(1) by simp
    then have r': "br_revoked r0 = None" using cc(3) r0(5) by (cases "br_revoked r0 = None") auto
    have j: "js_string (the (field2 hello ''provider'' ''instance_id'')) = inst" by (simp add: r0(2))
    have "conn_inv s1"
    proof (rule conn_invI)
      fix i e assume "map_of (g_connections s1) i = Some e"
      then show "conn_ok s1 i e"
        using conn_invD(1) [OF s(1), of i e] cc r r' r0 s(2) a(3) unfolding conn_ok_def j by (auto split: if_splits)
    next
      fix n i h assume "(n, i, h) \<in> set (g_verifying s1)"
      then have "verifying_ok s i h" using conn_invD(2) [OF s(1)] a(3) by simp
      then show "verifying_ok s1 i h" using a(1,3) cc(1,2) r r' unfolding verifying_ok_def by auto
    qed
    then have t: "conn_inv t" using a(4) by (rule conn_inv_same)
    have "record_of t key = Some r1" using a(3,4) by (simp add: same_conns_def)
    then have "nonempty_text (br_instance r1)" and key: "record_of t key = Some r1" using cc(1) r r0 by (auto simp: nonempty_text_def)
    then have "same_conns (upd_record key (\<lambda>r. (mark_online (g_now s) hello r)\<lparr>br_instance := br_instance r\<rparr>) t) (upd_record key (mark_online (g_now s) hello) t)"
      by (simp add: upd_record_def same_conns_def mark_online_def)
    moreover have "conn_inv (upd_record key (\<lambda>r. (mark_online (g_now s) hello r)\<lparr>br_instance := br_instance r\<rparr>) t)"
      by (rule conn_inv_upd_record [OF t]) simp_all
    ultimately have "conn_inv (upd_record key (mark_online (g_now s) hello) t)" by (metis conn_inv_same)
    then show ?thesis using a(5) by (simp add: verified_def conn_inv_persist)
  qed
  then show ?thesis by (simp add: s_def)
qed

lemma same_conns_sockets: "g_records t = g_records s \<Longrightarrow> g_connections t = g_connections s \<Longrightarrow> g_verifying t = g_verifying s
  \<Longrightarrow> g_conn t = g_conn s \<Longrightarrow> conn_inv s \<Longrightarrow> conn_inv t"
  by (erule conn_inv_same) (simp add: same_conns_frame)

lemma persisted_frame [simp]:
  "g_records (persisted ok s) = g_records s" "g_connections (persisted ok s) = g_connections s" "g_conn (persisted ok s) = g_conn s"
  "g_streams (persisted ok s) = g_streams s" "g_verifying (persisted ok s) = g_verifying s"
  by (auto simp: persisted_def Let_def split: list.splits option.splits)

lemma conn_inv_status_frame: "conn_inv s \<Longrightarrow> conn_inv (status_frame k key message s)"
  unfolding status_frame_def
  by (auto intro!: conn_inv_persist conn_inv_upd_record same_conns_sockets [of "close_socket k s" s for s] simp: )

lemma stream_frame_same: "same_conns s (stream_frame k e c message s)"
  unfolding stream_frame_def by (auto intro!: on_stream_same same_conns_frame split: option.splits json.splits)

lemma conn_inv_frame: "conn_inv s \<Longrightarrow> conn_inv (frame_handler k binary frame s)"
  unfolding frame_handler_def
  by (auto split: option.splits sock_stage.splits prod.splits intro!: conn_inv_status_frame
      intro: same_conns_sockets conn_inv_same [OF _ stream_frame_same])

lemma conn_inv_socket_closed: "conn_inv s \<Longrightarrow> conn_inv (socket_closed k s)"
proof -
  assume inv: "conn_inv s"
  let ?s = "upd_sock k (\<lambda>x. x\<lparr>so_state := Closed\<rparr>) s"
  have s: "conn_inv ?s" using inv by (rule same_conns_sockets [rotated 4]) simp_all
  have "conn_inv (persist None (upd_record key (\<lambda>r. r\<lparr>br_status := ''offline'', br_disconnected := Some now\<rparr>)
      (destroy_streams m epoch (?s\<lparr>g_connections := jsmap_delete key (g_connections ?s)\<rparr>))))" for key now m epoch
    by (intro conn_inv_persist conn_inv_upd_record conn_inv_same [OF conn_inv_disconnect [OF s] destroy_streams_same]) simp_all
  then show ?thesis using s
    by (auto simp: socket_closed_def Let_def split: option.splits sock_stage.splits)
qed

lemma dial_same: "same_conns s (snd (dial boxId generation port i s))"
  by (auto simp: dial_def Let_def same_conns_def upd_conn_def option.map_comp o_def split: option.splits prod.splits bool.splits)

lemma conn_inv_close_registry: "conn_inv s \<Longrightarrow> conn_inv (close_registry s)"
proof -
  assume inv: "conn_inv s"
  define f where "f = (\<lambda>(key :: string, e) t. case g_conn t e of None \<Rightarrow> t
    | Some c \<Rightarrow> close_socket (cn_socket c) (destroy_streams ''box registry closed'' e t))"
  have step: "same_conns t (f p t)" for p t
    by (cases p) (simp add: f_def destroy_close_same split: option.splits)
  have "same_conns s (fold f xs s)" for xs
    by (induction xs arbitrary: s) (auto intro: same_conns_trans step)
  then have "conn_inv (fold f (g_connections s) s)" using inv by (blast intro: conn_inv_same)
  then have "conn_inv ((fold f (g_connections s) s)\<lparr>g_connections := []\<rparr>)"
    unfolding conn_inv_def verifying_ok_def by auto
  then show ?thesis by (simp add: close_registry_def f_def)
qed

lemma box_step_conn_inv: "box_step verify hash s t \<Longrightarrow> conn_inv s \<Longrightarrow> conn_inv t"
proof (induction rule: box_step.induct)
  case (connected s k host)
  then show ?case by (auto simp: new_socket_def intro: same_conns_sockets)
next
  case (timed_out s k)
  then show ?case by (auto simp: first_frame_timeout_def intro: same_conns_sockets)
next
  case (written s ok)
  then show ?case by (auto intro: same_conns_sockets [rotated 4])
next
  case (used s e c i f)
  then show ?case by (blast intro: conn_inv_same on_stream_same)
next
  case (dialled s i)
  then show ?case by (blast intro: conn_inv_same dial_same)
next
  case (passed s t)
  then show ?case by (auto intro: same_conns_sockets [rotated 4])
qed (auto intro: conn_inv_prepare conn_inv_bind conn_inv_revoke conn_inv_hello conn_inv_verified conn_inv_frame
      conn_inv_socket_closed conn_inv_close_registry)

lemma conn_inv_load: "conn_inv (load_registry rows now)"
  by (simp add: conn_inv_def load_registry_def)

lemma box_reachable_conn_inv: "box_reachable verify hash s \<Longrightarrow> conn_inv s"
  unfolding box_reachable_def by (auto elim!: rtranclp_induct intro: conn_inv_load box_step_conn_inv)

section \<open>Only live streams are kept, at most 64 per connection\<close>

definition stream_live :: "registry \<Rightarrow> string \<Rightarrow> bool" where
  "stream_live s i \<longleftrightarrow> (\<exists>d. g_streams s i = Some d \<and> ds_id d = i \<and> \<not> ds_destroyed d)"

definition conn_streams :: "registry \<Rightarrow> string \<Rightarrow> string list" where
  "conn_streams s e = (case g_conn s e of None \<Rightarrow> [] | Some c \<Rightarrow> cn_streams c)"

definition streams_inv :: "registry \<Rightarrow> bool" where
  "streams_inv s \<longleftrightarrow> (\<forall>e. length (conn_streams s e) \<le> max_dial_streams \<and> distinct (conn_streams s e)
     \<and> (\<forall>i \<in> set (conn_streams s e). stream_live s i)
     \<and> (\<forall>e'. e' \<noteq> e \<longrightarrow> set (conn_streams s e) \<inter> set (conn_streams s e') = {}))"

lemma streams_invD:
  assumes "streams_inv s"
  shows "length (conn_streams s e) \<le> max_dial_streams" "distinct (conn_streams s e)"
    "i \<in> set (conn_streams s e) \<Longrightarrow> stream_live s i"
    "e' \<noteq> e \<Longrightarrow> i \<in> set (conn_streams s e) \<Longrightarrow> i \<notin> set (conn_streams s e')"
  using assms unfolding streams_inv_def by blast+

text \<open>Streams may leave connections, and what happens to a stream that none holds is of no interest.\<close>

lemma streams_inv_shrink:
  assumes inv: "streams_inv s"
    and sub: "\<And>e. set (conn_streams t e) \<subseteq> set (conn_streams s e)" "\<And>e. distinct (conn_streams t e)"
    and keep: "\<And>e i. i \<in> set (conn_streams t e) \<Longrightarrow> stream_live t i"
  shows "streams_inv t"
proof -
  have "length (conn_streams t e) \<le> max_dial_streams" for e
    using card_mono [OF finite_set sub(1) [of e]] sub(2) [of e] streams_invD(1,2) [OF inv, of e]
    by (simp add: distinct_card)
  then show ?thesis using inv sub keep unfolding streams_inv_def by blast
qed

lemma streams_inv_frame: "streams_inv s \<Longrightarrow> g_conn t = g_conn s \<Longrightarrow> g_streams t = g_streams s \<Longrightarrow> streams_inv t"
  by (simp add: streams_inv_def conn_streams_def stream_live_def)

lemma conn_streams_upd_conn [simp]:
  "conn_streams (upd_conn e (\<lambda>c. c\<lparr>cn_streams := f (cn_streams c)\<rparr>) s) e'
     = (if e' = e \<and> g_conn s e \<noteq> None then f (conn_streams s e) else conn_streams s e')"
  by (auto simp: conn_streams_def upd_conn_def split: option.splits)

lemma upd_conn_streams [simp]: "g_streams (upd_conn e f s) = g_streams s"
  by (simp add: upd_conn_def)

definition keeps_id :: "(bool \<Rightarrow> dial \<Rightarrow> dial \<times> json list) \<Rightarrow> bool" where
  "keeps_id f \<longleftrightarrow> (\<forall>live d. ds_id (fst (f live d)) = ds_id d)"

lemma streams_inv_on_stream:
  assumes inv: "streams_inv s" and f: "keeps_id f" and own: "\<And>e'. e' \<noteq> e \<Longrightarrow> i \<notin> set (conn_streams s e')"
  shows "streams_inv (on_stream f e i s)" "set (conn_streams (on_stream f e i s) e') \<subseteq> set (conn_streams s e')"
proof -
  have "streams_inv (on_stream f e i s) \<and> (\<forall>e'. set (conn_streams (on_stream f e i s) e') \<subseteq> set (conn_streams s e'))"
  proof (cases "g_conn s e")
    case (Some c)
    show ?thesis
    proof (cases "g_streams s i")
      case (Some d)
      obtain d' js where f': "f (sock_open (cn_socket c) s) d = (d', js)" by (cases "f (sock_open (cn_socket c) s) d")
      then have id: "ds_id d' = ds_id d" using f unfolding keeps_id_def by (metis fst_conv)
      define t where "t = on_stream f e i s"
      have cs: "conn_streams t e' = (if e' = e \<and> ds_destroyed d' then jsset_delete i (conn_streams s e) else conn_streams s e')" for e'
        by (auto simp: t_def on_stream_def \<open>g_conn s e = Some c\<close> Some f' Let_def conn_streams_def upd_conn_def)
      have st: "g_streams t = (g_streams s)(i \<mapsto> d')"
        by (simp add: t_def on_stream_def \<open>g_conn s e = Some c\<close> Some f' Let_def)
      have "stream_live t j" if "j \<in> set (conn_streams t e')" for e' j
      proof (cases "j = i")
        case True
        then have "e' = e" using that own cs by (metis)
        then have "\<not> ds_destroyed d'" "i \<in> set (conn_streams s e)" using that True by (auto simp: cs split: if_splits)
        then show ?thesis using streams_invD(3) [OF inv, of i e] id Some st True by (simp add: stream_live_def)
      next
        case False
        then show ?thesis using streams_invD(3) [OF inv, of j e'] that st cs by (auto simp: stream_live_def split: if_splits)
      qed
      then have "streams_inv t"
        using streams_invD(2) [OF inv] by (intro streams_inv_shrink [OF inv]) (auto simp: cs distinct_jsset_delete)
      then show ?thesis by (auto simp: t_def [symmetric] cs)
    qed (simp add: on_stream_def inv split: option.splits)
  qed (simp add: on_stream_def inv)
  then show "streams_inv (on_stream f e i s)" "set (conn_streams (on_stream f e i s) e') \<subseteq> set (conn_streams s e')" by auto
qed

lemma streams_inv_fold:
  assumes "streams_inv s" "keeps_id f" "\<And>i e'. i \<in> set is \<Longrightarrow> e' \<noteq> e \<Longrightarrow> i \<notin> set (conn_streams s e')"
  shows "streams_inv (fold (\<lambda>i. on_stream f e i) is s)"
  using assms
proof (induction "is" arbitrary: s)
  case (Cons i "is")
  have "streams_inv (on_stream f e i s)" using Cons.prems by (intro streams_inv_on_stream) auto
  moreover have "set (conn_streams (on_stream f e i s) e') \<subseteq> set (conn_streams s e')" for e'
    using Cons.prems by (intro streams_inv_on_stream(2)) auto
  ultimately show ?case using Cons.IH [of "on_stream f e i s"] Cons.prems(2,3) by fastforce
qed simp

lemma keeps_id_destroy [simp]: "keeps_id (\<lambda>live. dial_destroy live err)"
  by (simp add: keeps_id_def dial_destroy_def)

lemma streams_inv_destroy [inv_rules]: "streams_inv s \<Longrightarrow> streams_inv (destroy_streams m e s)"
proof (cases "g_conn s e")
  case (Some c)
  assume inv: "streams_inv s"
  let ?t = "fold (\<lambda>i. on_stream (\<lambda>live. dial_destroy live (Some m)) e i) (cn_streams c) s"
  have "streams_inv ?t"
    by (rule streams_inv_fold [OF inv]) (use streams_invD(4) [OF inv, of _ e] Some in \<open>auto simp: conn_streams_def [of s e]\<close>)
  then have "streams_inv (upd_conn e (\<lambda>c. c\<lparr>cn_streams := []\<rparr>) ?t)"
    using conn_streams_upd_conn [of e "\<lambda>_. []" ?t] streams_invD [OF \<open>streams_inv ?t\<close>]
    by (intro streams_inv_shrink [OF \<open>streams_inv ?t\<close>]) (auto simp: stream_live_def split: if_splits)
  then show ?thesis by (simp add: destroy_streams_def Some)
qed (simp add: destroy_streams_def)

lemma ds_id_send_next [simp]: "ds_id (fst (send_next live ps q d)) = ds_id d"
  by (induction live ps q d rule: send_next.induct) (auto simp: dial_destroy_def dial_final_def)

lemma keeps_id_ops [simp]:
  "keeps_id (\<lambda>live. dial_write live chunk)" "keeps_id dial_end" "keeps_id (\<lambda>live. dial_sent live err)"
  "keeps_id (\<lambda>live. receive live message)"
  by (auto simp: keeps_id_def dial_write_def dial_end_def dial_sent_def receive_def dial_push_def dial_destroy_def dial_final_def
      opened_def Let_def split: option.splits)

lemma streams_inv_sockets: "g_conn t = g_conn s \<Longrightarrow> g_streams t = g_streams s \<Longrightarrow> streams_inv s \<Longrightarrow> streams_inv t"
  by (rule streams_inv_frame)

lemma streams_inv_frame_handler: "streams_inv s \<Longrightarrow> streams_inv (frame_handler k binary frame s)"
proof -
  assume inv: "streams_inv s"
  have "streams_inv (stream_frame k e c message s)" if "connection_of s key = Some (e, c)" for key e c message
  proof -
    have "conn_streams s e = cn_streams c" using connection_of_SomeD [OF that] by (simp add: conn_streams_def)
    then have "streams_inv (on_stream (\<lambda>live. receive live message) e i s)" if "i \<in> set (cn_streams c)" for i
      using streams_invD(4) [OF inv, of _ e i] that by (intro streams_inv_on_stream) (auto simp: inv)
    then show ?thesis unfolding stream_frame_def by (auto simp: inv intro: streams_inv_sockets split: option.splits json.splits)
  qed
  moreover have "streams_inv (status_frame k key message s)" for key message
    unfolding status_frame_def using inv by (auto intro: streams_inv_sockets [rotated 2])
  ultimately show ?thesis
    using inv unfolding frame_handler_def
    by (auto intro: streams_inv_sockets [rotated 2] split: option.splits sock_stage.splits prod.splits)
qed

lemma streams_inv_socket_closed: "streams_inv s \<Longrightarrow> streams_inv (socket_closed k s)"
proof -
  assume inv: "streams_inv s"
  have "streams_inv (persist None (upd_record key f (destroy_streams m epoch t)))"
    if "g_conn t = g_conn s" "g_streams t = g_streams s" for key f m epoch t
    using streams_inv_destroy [OF streams_inv_sockets [OF that inv], of m epoch] by (rule streams_inv_sockets [rotated 2]) simp_all
  then show ?thesis using inv
    by (auto simp: socket_closed_def Let_def intro: streams_inv_sockets [rotated 2] split: option.splits sock_stage.splits)
qed

lemma streams_inv_verified: "streams_inv s \<Longrightarrow> g_conn s epoch = None \<Longrightarrow> streams_inv (verified hash fresh epoch k key hello s)"
proof (rule authenticate_finish_cases [of hash fresh epoch k key hello s])
  fix r cred r1 s1 t
  assume inv: "streams_inv s" and new: "g_conn s epoch = None"
    and a: "s1 = s\<lparr>g_records := jsmap_set key r1 (g_records s), g_conn := (g_conn s)(epoch \<mapsto>
       \<lparr>cn_socket = k, cn_instance = js_string (the (field2 hello ''provider'' ''instance_id'')), cn_streams = []\<rparr>),
       g_connections := jsmap_set key epoch (g_connections s)\<rparr>"
    "t = (case map_of (g_connections s) key of None \<Rightarrow> s1 | Some old \<Rightarrow> supersede old k s1)"
    "authenticate_finish hash fresh epoch k key hello s
       = (None, persist (Some \<lparr>we_socket = k, we_key = key, we_epoch = epoch, we_credential = cred\<rparr>)
            (upd_record key (mark_online (g_now s) hello) t))"
  have "conn_streams s1 e = conn_streams s e" for e using new by (simp add: a(1) conn_streams_def)
  then have s1: "streams_inv s1" using inv by (simp add: streams_inv_def stream_live_def a(1))
  have sup: "streams_inv (supersede old k s1)" for old
    unfolding supersede_def
    by (auto split: option.splits intro: s1 streams_inv_sockets [rotated 2, OF streams_inv_destroy [OF s1]])
  have t: "streams_inv t" using s1 sup by (simp add: a(2) split: option.splits)
  then show ?thesis unfolding verified_def a(3) by (simp add: streams_inv_sockets [OF _ _ t])
qed (auto simp: verified_def intro: streams_inv_sockets [rotated 2])

lemma streams_inv_sent [simp]: "streams_inv (fold (send_frame k) js s) \<longleftrightarrow> streams_inv s"
  by (auto intro: streams_inv_sockets [rotated 2])

lemma streams_inv_dial: "streams_inv s \<Longrightarrow> g_streams s i = None \<Longrightarrow> streams_inv (snd (dial boxId generation port i s))"
proof -
  assume inv: "streams_inv s" and new: "g_streams s i = None"
  have unused: "i \<notin> set (conn_streams s e)" for e using streams_invD(3) [OF inv, of i e] new by (auto simp: stream_live_def)
  have "streams_inv (upd_conn e (\<lambda>c. c\<lparr>cn_streams := jsset_add i (cn_streams c)\<rparr>) (s\<lparr>g_streams := (g_streams s)(i \<mapsto> fst (new_dial i port))\<rparr>))"
    (is "streams_inv ?t") if c: "g_conn s e = Some c" and few: "length (cn_streams c) < max_dial_streams" for e c
  proof -
    have cs: "conn_streams ?t e' = (if e' = e then conn_streams s e @ [i] else conn_streams s e')" for e'
      using unused [of e] c by (auto simp: conn_streams_def upd_conn_def jsset_add_def)
    have live: "stream_live ?t j \<longleftrightarrow> j = i \<or> stream_live s j" for j
      using new by (auto simp: stream_live_def new_dial_def Let_def)
    have "length (conn_streams s e) < max_dial_streams" using c few by (simp add: conn_streams_def)
    then show ?thesis using inv unused unfolding streams_inv_def cs live by (auto split: if_splits)
  qed
  then show ?thesis
    unfolding dial_def using inv
    by (auto simp: Let_def not_le dest: connection_of_SomeD intro: streams_inv_sockets [rotated 2]
        split: option.splits prod.splits bool.splits)
qed

lemma streams_inv_close_registry: "streams_inv s \<Longrightarrow> streams_inv (close_registry s)"
proof -
  assume inv: "streams_inv s"
  define f where "f = (\<lambda>(key :: string, e) t. case g_conn t e of None \<Rightarrow> t
    | Some c \<Rightarrow> close_socket (cn_socket c) (destroy_streams ''box registry closed'' e t))"
  have "streams_inv t \<Longrightarrow> streams_inv (f p t)" for p t
    by (cases p) (auto simp: f_def split: option.splits intro: streams_inv_sockets [rotated 2, OF streams_inv_destroy])
  then have "streams_inv t \<Longrightarrow> streams_inv (fold f xs t)" for xs t by (induction xs arbitrary: t) simp_all
  then have "streams_inv (fold f (g_connections s) s)" using inv by blast
  then show ?thesis by (auto simp: close_registry_def f_def intro: streams_inv_sockets [rotated 2])
qed

lemma bind_streams: "g_conn (snd (bindProviderInstance b g i s)) = g_conn s \<and> g_streams (snd (bindProviderInstance b g i s)) = g_streams s"
  by (auto simp: bindProviderInstance_def Let_def split: option.splits prod.splits)

lemma revoke_streams: "g_conn (snd (revoke b g m s)) = g_conn s \<and> g_streams (snd (revoke b g m s)) = g_streams s"
  by (auto simp: revoke_def Let_def split: option.splits prod.splits)

lemma hello_streams: "g_conn (hello_frame verify k binary frame s) = g_conn s
  \<and> g_streams (hello_frame verify k binary frame s) = g_streams s"
  by (auto simp: hello_frame_def Let_def split: option.splits sum.splits)

lemma box_step_streams_inv: "box_step verify hash s t \<Longrightarrow> streams_inv s \<Longrightarrow> streams_inv t"
proof (induction rule: box_step.induct)
  case (checked s before k key hello "after" epoch fresh)
  then show ?case by (intro streams_inv_verified streams_inv_sockets [rotated 2, OF checked.prems]) simp_all
next
  case (used s e c i f)
  then have "i \<in> set (conn_streams s e)" by (simp add: conn_streams_def)
  then have "i \<notin> set (conn_streams s e')" if "e' \<noteq> e" for e'
    using that streams_invD(4) [OF used.prems] by blast
  moreover have "keeps_id f" using used(3) by auto
  ultimately show ?case using used.prems by (blast intro: streams_inv_on_stream)
next
  case (prepared boxId generation s)
  then show ?case by (auto simp: prepareRegistration_def Let_def intro: streams_inv_sockets [rotated 2])
qed (use bind_streams revoke_streams hello_streams in \<open>auto simp: new_socket_def first_frame_timeout_def
      intro: streams_inv_sockets streams_inv_frame_handler streams_inv_socket_closed streams_inv_dial streams_inv_close_registry\<close>)

lemma box_reachable_streams_inv: "box_reachable verify hash s \<Longrightarrow> streams_inv s"
proof -
  have "streams_inv (load_registry rows now)" for rows now
    by (simp add: streams_inv_def conn_streams_def load_registry_def)
  then show "box_reachable verify hash s \<Longrightarrow> streams_inv s"
    unfolding box_reachable_def by (auto elim!: rtranclp_induct intro: box_step_streams_inv)
qed

section \<open>What registrations never get back\<close>

text \<open>
  A used bootstrap stays used, a revocation stays, a registration without hashes gets none, and its provider and the
  instance it was bound to stay.
\<close>

definition keeps :: "registration \<Rightarrow> registration \<Rightarrow> bool" where
  "keeps r r' \<longleftrightarrow> (br_bootstrapUsed r \<noteq> None \<longrightarrow> br_bootstrapUsed r' \<noteq> None) \<and> (br_revoked r \<noteq> None \<longrightarrow> br_revoked r' \<noteq> None)
     \<and> (br_bootstrapHash r = None \<and> br_reconnectHash r = None \<longrightarrow> br_bootstrapHash r' = None \<and> br_reconnectHash r' = None)
     \<and> (nonempty_text (br_instance r) \<longrightarrow> br_instance r' = br_instance r) \<and> br_provider r' = br_provider r
     \<and> (br_bootstrapUsed r \<noteq> None \<longrightarrow> br_reconnectHash r' = br_reconnectHash r \<or> br_revoked r' \<noteq> None)"

definition keeps_records :: "registry \<Rightarrow> registry \<Rightarrow> bool" where
  "keeps_records s t \<longleftrightarrow> (\<forall>k r. record_of s k = Some r \<longrightarrow> (\<exists>r'. record_of t k = Some r' \<and> keeps r r'))"

lemma keeps_refl [simp]: "keeps r r"
  by (simp add: keeps_def)

lemma keeps_trans: "keeps_records s t \<Longrightarrow> keeps_records t u \<Longrightarrow> keeps_records s u"
proof -
  have "keeps r r' \<Longrightarrow> keeps r' r'' \<Longrightarrow> keeps r r''" for r r' r'' unfolding keeps_def by simp metis
  then show "keeps_records s t \<Longrightarrow> keeps_records t u \<Longrightarrow> keeps_records s u" unfolding keeps_records_def by meson
qed

lemma keeps_same: "g_records t = g_records s \<Longrightarrow> keeps_records s t"
  by (simp add: keeps_records_def)

lemma keeps_upd: "(\<And>r. keeps r (f r)) \<Longrightarrow> keeps_records s (upd_record k f s)"
  by (auto simp: keeps_records_def)

lemma same_conns_records: "same_conns s t \<Longrightarrow> g_records t = g_records s"
  by (simp add: same_conns_def)

lemma keeps_prepare: "keyOf (js_string (the boxId)) generation \<notin> set (map fst (g_records s))
  \<Longrightarrow> keeps_records s (snd (prepareRegistration hash boxId provider ttlMs generation bootstrapSecret s))"
  using jsmap_get_None_iff [of "g_records s" "keyOf (js_string (the boxId)) generation"]
  by (auto simp: prepareRegistration_def Let_def keeps_records_def)

lemma keeps_bind: "keeps_records s (snd (bindProviderInstance boxId generation instanceId s))"
  by (auto simp: bindProviderInstance_def Let_def keeps_records_def keeps_def split: option.splits prod.splits)

lemma keeps_revoke: "keeps_records s (snd (revoke boxId generation reason s))"
  by (auto simp: revoke_def Let_def keeps_records_def keeps_def split: option.splits prod.splits)

lemma keeps_hello: "keeps_records s (hello_frame verify k binary frame s)"
  by (auto simp: hello_frame_def Let_def intro!: keeps_same split: option.splits sum.splits)

lemma keeps_frame: "keeps_records s (frame_handler k binary frame s)"
proof -
  have "keeps_records s (status_frame k key message s)" for key message
    by (auto simp: status_frame_def keeps_records_def keeps_def)
  then show ?thesis
    using same_conns_records [OF stream_frame_same]
    by (auto simp: frame_handler_def intro: keeps_same split: option.splits sock_stage.splits prod.splits)
qed

lemma keeps_socket_closed: "keeps_records s (socket_closed k s)"
  using same_conns_records [OF destroy_streams_same]
  by (auto simp: socket_closed_def Let_def keeps_records_def keeps_def split: option.splits sock_stage.splits)

lemma keeps_check:
  "check_credentials hash now fresh hello r = Inr (cred, r1) \<Longrightarrow> keeps r r1"
  by (auto simp: check_credentials_def keeps_def safeEqualHash_def Let_def split: if_splits option.splits)

lemma keeps_verified: "keeps_records s (verified hash fresh epoch k key hello s)"
proof (rule authenticate_finish_cases [of hash fresh epoch k key hello s])
  fix r cred r1 s1 t
  assume a: "record_of s key = Some r" "check_credentials hash (g_now s) fresh hello r = Inr (cred, r1)"
    "s1 = s\<lparr>g_records := jsmap_set key r1 (g_records s), g_conn := (g_conn s)(epoch \<mapsto>
       \<lparr>cn_socket = k, cn_instance = js_string (the (field2 hello ''provider'' ''instance_id'')), cn_streams = []\<rparr>),
       g_connections := jsmap_set key epoch (g_connections s)\<rparr>"
    "same_conns s1 t" "authenticate_finish hash fresh epoch k key hello s
       = (None, persist (Some \<lparr>we_socket = k, we_key = key, we_epoch = epoch, we_credential = cred\<rparr>)
            (upd_record key (mark_online (g_now s) hello) t))"
  have "keeps_records s t" using keeps_check [OF a(2)] same_conns_records [OF a(4)] a(1,3) by (auto simp: keeps_records_def)
  moreover have "keeps_records t (upd_record key (mark_online (g_now s) hello) t)" by (rule keeps_upd) (simp add: keeps_def mark_online_def)
  ultimately have "keeps_records s (upd_record key (mark_online (g_now s) hello) t)" by (rule keeps_trans)
  then show ?thesis using a(5) by (simp add: verified_def keeps_records_def)
qed (auto simp: verified_def intro!: keeps_same)

lemma records_close_registry [simp]: "g_records (close_registry s) = g_records s"
proof -
  define f where "f = (\<lambda>(key :: string, e) t. case g_conn t e of None \<Rightarrow> t
    | Some c \<Rightarrow> close_socket (cn_socket c) (destroy_streams ''box registry closed'' e t))"
  have "g_records (f p t) = g_records t" for p t
    using same_conns_records [OF destroy_streams_same] by (cases p) (auto simp: f_def split: option.splits)
  then have "g_records (fold f xs t) = g_records t" for xs t by (induction xs arbitrary: t) simp_all
  then show ?thesis by (simp add: close_registry_def f_def)
qed

lemma box_step_keeps: "box_step verify hash s t \<Longrightarrow> keeps_records s t"
proof (induction rule: box_step.induct)
  case (checked s before k key hello "after" epoch fresh)
  have "keeps_records s (s\<lparr>g_verifying := before @ after\<rparr>)" by (simp add: keeps_same)
  then show ?case by (rule keeps_trans) (rule keeps_verified)
next
  case (used s e c i f)
  then show ?case using same_conns_records [OF on_stream_same] by (blast intro: keeps_same)
next
  case (dialled s i)
  then show ?case using same_conns_records [OF dial_same] by (blast intro: keeps_same)
qed (auto simp: new_socket_def first_frame_timeout_def
      intro: keeps_prepare keeps_bind keeps_revoke keeps_hello keeps_frame keeps_socket_closed keeps_same)

lemma box_steps_keeps: "(box_step verify hash)\<^sup>*\<^sup>* s t \<Longrightarrow> keeps_records s t"
  by (induction rule: rtranclp_induct) (auto intro: keeps_same keeps_trans box_step_keeps)

lemma reachable_steps: "box_reachable verify hash s \<Longrightarrow> (box_step verify hash)\<^sup>*\<^sup>* s t \<Longrightarrow> box_reachable verify hash t"
  unfolding box_reachable_def by (meson rtranclp_trans)

section \<open>The properties\<close>

text \<open>
  C13: A connected box is the bound instance.  In every reachable state a connection belongs to a
  registration that was not revoked and that is bound to exactly the instance the agent proved to be; so
  \<^verbatim>\<open>bindProviderInstance\<close> never finds a connected agent of another instance.
\<close>

theorem box_connections_bound:
  assumes "box_reachable verify hash s" and "map_of (g_connections s) k = Some e"
  shows "\<exists>c r. g_conn s e = Some c \<and> record_of s k = Some r \<and> br_instance r = Some (cn_instance c) \<and> br_revoked r = None"
  using conn_invD(1) [OF box_reachable_conn_inv [OF assms(1)] assms(2)] unfolding conn_ok_def by blast

text \<open>
  A connection holds at most 64 streams, all of them alive: a stream that was destroyed by either side
  has left its connection.
\<close>

theorem box_streams_bounded:
  assumes "box_reachable verify hash s" and "g_conn s e = Some c"
  shows "length (cn_streams c) \<le> max_dial_streams \<and> distinct (cn_streams c)
    \<and> set (cn_streams c) \<subseteq> {i. \<exists>d. g_streams s i = Some d \<and> ds_id d = i \<and> \<not> ds_destroyed d}"
proof -
  have c: "conn_streams s e = cn_streams c" using assms(2) by (simp add: conn_streams_def)
  note inv = box_reachable_streams_inv [OF assms(1)]
  show ?thesis using streams_invD(1,2) [OF inv, of e] streams_invD(3) [OF inv, of _ e] unfolding c stream_live_def by blast
qed

text \<open>
  A bootstrap secret works once.  After an agent authenticated with the bootstrap secret of a
  registration, every later attempt to authenticate with a bootstrap secret is refused and changes nothing,
  whatever happened in between.
\<close>

theorem bootstrap_single_use:
  assumes "record_of s key = Some r" and "field2 hello ''auth'' ''mode'' = Some (JStr ''bootstrap'')"
    and "authenticate_finish hash fresh epoch k key hello s = (None, s1)" and "(box_step verify hash)\<^sup>*\<^sup>* s1 t"
    and "field2 hello' ''auth'' ''mode'' = Some (JStr ''bootstrap'')"
  shows "\<exists>e. authenticate_finish hash fresh' epoch' k' key hello' t = (Some e, t)"
proof -
  have "\<exists>r1. record_of s1 key = Some r1 \<and> br_bootstrapUsed r1 \<noteq> None"
  proof (rule authenticate_finish_cases [of hash fresh epoch k key hello s])
    fix r' cred r1 s1' u
    assume a: "check_credentials hash (g_now s) fresh hello r' = Inr (cred, r1)"
      "s1' = s\<lparr>g_records := jsmap_set key r1 (g_records s), g_conn := (g_conn s)(epoch \<mapsto>
         \<lparr>cn_socket = k, cn_instance = js_string (the (field2 hello ''provider'' ''instance_id'')), cn_streams = []\<rparr>),
         g_connections := jsmap_set key epoch (g_connections s)\<rparr>"
      "same_conns s1' u" "authenticate_finish hash fresh epoch k key hello s
       = (None, persist (Some \<lparr>we_socket = k, we_key = key, we_epoch = epoch, we_credential = cred\<rparr>)
            (upd_record key (mark_online (g_now s) hello) u))"
    then show ?thesis using assms(3) check_credentials_Inr(4) [OF a(1) assms(2)] same_conns_records [OF a(3)] by auto
  qed (use assms in auto)
  then obtain r' where r': "record_of t key = Some r'" "br_bootstrapUsed r' \<noteq> None"
    using box_steps_keeps [OF assms(4)] unfolding keeps_records_def keeps_def by blast
  have "\<exists>e. check_credentials hash (g_now t) fresh' hello' r' = Inl e"
    using r'(2) assms(5) by (simp add: check_credentials_def Let_def)
  then show ?thesis using r'(1) by (auto simp: authenticate_finish_def)
qed

lemma revoked_unreachable:
  assumes "box_reachable verify hash t"
    and r: "record_of t (keyOf boxId generation) = Some r" "br_revoked r \<noteq> None" "br_bootstrapHash r = None" "br_reconnectHash r = None"
  shows "map_of (g_connections t) (keyOf boxId generation) = None
    \<and> (\<exists>e. authenticate_finish hash fresh epoch k (keyOf boxId generation) hello t = (Some e, t))
    \<and> (\<exists>m. dial (Some (JStr boxId)) (Some (JStr generation)) port i t = (Inl m, t))"
proof -
  have none: "map_of (g_connections t) (keyOf boxId generation) = None"
    using conn_invD(1) [OF box_reachable_conn_inv [OF assms(1)], of "keyOf boxId generation"] r(1,2)
    by (cases "map_of (g_connections t) (keyOf boxId generation)") (auto simp: conn_ok_def)
  have "\<exists>e. check_credentials hash (g_now t) fresh hello r = Inl e"
    using r by (auto simp: check_credentials_def Let_def safeEqualHash_def)
  then show ?thesis using none r(1) by (auto simp: authenticate_finish_def dial_def Let_def connection_of_def)
qed

text \<open>
  C14: Revocation is final.  After \<^verbatim>\<open>revoke\<close> of a registration there is no connection of it, no later
  authentication succeeds, including one whose verification was already under way, and no dial reaches it.
\<close>

theorem revoked_stays_out:
  assumes "box_reachable verify hash s" and "revoke boxId generation reason s = (True, s1)"
    and "(box_step verify hash)\<^sup>*\<^sup>* s1 t"
  shows "map_of (g_connections t) (keyOf boxId generation) = None
    \<and> (\<exists>e. authenticate_finish hash fresh epoch k (keyOf boxId generation) hello t = (Some e, t))
    \<and> (\<exists>m. dial (Some (JStr boxId)) (Some (JStr generation)) port i t = (Inl m, t))"
proof -
  let ?k = "keyOf boxId generation"
  have "\<exists>r. record_of s1 ?k = Some r \<and> br_revoked r \<noteq> None \<and> br_bootstrapHash r = None \<and> br_reconnectHash r = None"
    using assms(2) by (auto simp: revoke_def Let_def split: option.splits prod.splits)
  then obtain r where r: "record_of t ?k = Some r" "br_revoked r \<noteq> None" "br_bootstrapHash r = None" "br_reconnectHash r = None"
    using box_steps_keeps [OF assms(3)] unfolding keeps_records_def keeps_def by blast
  have "box_step verify hash s s1" using box_step.revoked [of verify hash s boxId generation reason] assms(2) by simp
  then have "box_reachable verify hash t"
    using assms(1,3) by (meson reachable_steps r_into_rtranclp rtranclp_trans)
  from revoked_unreachable [OF this r] show ?thesis .
qed

text \<open>
  A superseded socket is mute.  Frames on a socket whose epoch is not the current one of its
  registration change nothing but that socket, and neither does its closing.
\<close>

theorem stale_socket_mute:
  assumes "map_option so_stage (g_sockets s k) = Some (Ready key epoch)" and "map_of (g_connections s) key \<noteq> Some epoch"
  shows "frame_handler k binary frame s \<in> {s, close_socket k s}
    \<and> socket_closed k s = upd_sock k (\<lambda>x. x\<lparr>so_state := Closed\<rparr>) s"
proof -
  have "map_option so_stage (g_sockets (upd_sock k (\<lambda>x. x\<lparr>so_state := Closed\<rparr>) s) k) = Some (Ready key epoch)"
    using assms(1) by (auto simp: upd_sock_def)
  then have "socket_closed k s = upd_sock k (\<lambda>x. x\<lparr>so_state := Closed\<rparr>) s"
    using assms(2) by (auto simp: socket_closed_def Let_def split: option.splits)
  moreover have "frame_handler k binary frame s \<in> {s, close_socket k s}"
    using assms by (auto simp: frame_handler_def split: option.splits prod.splits dest: connection_of_SomeD)
  ultimately show ?thesis by blast
qed

section \<open>A concrete run\<close>

definition ex_hash :: "string \<Rightarrow> string" where "ex_hash x = ''h'' @ x"

definition ex_hello :: json where
  "ex_hello = JObj [(''type'', JStr ''box_hello''), (''protocol'', JNum 1), (''box_id'', JStr ''b''), (''generation'', JStr ''g''),
     (''auth'', JObj [(''mode'', JStr ''bootstrap''), (''secret'', JStr ''s'')]),
     (''provider'', JObj [(''kind'', JStr ''digitalocean''), (''instance_id'', JStr ''42''),
        (''attestation'', JObj [(''format'', JStr ''digitalocean-metadata-v1'')])]),
     (''agent'', JObj [(''capabilities'', JArr [JStr ''dial_v1''])])]"

definition ex_prepared :: registry where
  "ex_prepared = snd (prepareRegistration ex_hash (Some (JStr ''b'')) (Some (JStr ''digitalocean'')) bootstrap_ttl_ms ''g'' ''s'' (load_registry [] 0))"
definition ex_bound :: registry where "ex_bound = snd (bindProviderInstance ''b'' ''g'' (Some (JStr ''42'')) ex_prepared)"
definition ex_socket :: registry where "ex_socket = new_socket 0 None ex_bound"
definition ex_greeted :: registry where "ex_greeted = hello_frame defaultVerifyAttestation 0 False (json_text ex_hello) ex_socket"
definition ex_online :: registry where
  "ex_online = verified ex_hash ''c'' ''e1'' 0 (keyOf ''b'' ''g'') ex_hello (ex_greeted\<lparr>g_verifying := []\<rparr>)"
definition ex_dialled :: registry where "ex_dialled = snd (dial (Some (JStr ''b'')) (Some (JStr ''g'')) 8080 ''d1'' ex_online)"

lemma ex_hello_parse: "json_parse (json_text ex_hello) = Some ex_hello"
  by (rule json_parse_text) (simp add: ex_hello_def)

lemma ex_socket_start: "authenticate_start defaultVerifyAttestation ''https://hub.get-oyster.dev'' ex_hello
    (upd_sock 0 (\<lambda>x. x\<lparr>so_stage := Helloing\<rparr>) ex_socket) = Inr (keyOf ''b'' ''g'')"
  "map_option so_stage (g_sockets ex_socket 0) = Some Fresh" "map_option so_state (g_sockets ex_socket 0) \<noteq> Some Closed"
  "map_option so_origin (g_sockets ex_socket 0) = Some ''https://hub.get-oyster.dev''" "g_verifying ex_socket = []"
  by code_simp+

lemma ex_greeted_eq: "ex_greeted = (upd_sock 0 (\<lambda>x. x\<lparr>so_stage := Helloing\<rparr>) ex_socket)\<lparr>g_verifying := [(0, keyOf ''b'' ''g'', ex_hello)]\<rparr>"
proof -
  obtain x where "g_sockets ex_socket 0 = Some x" "so_origin x = ''https://hub.get-oyster.dev''"
    using ex_socket_start(4) by auto
  then show ?thesis by (simp add: ex_greeted_def hello_frame_def ex_hello_parse ex_socket_start Let_def)
qed

abbreviation ex_step :: "registry \<Rightarrow> registry \<Rightarrow> bool" where
  "ex_step \<equiv> box_step defaultVerifyAttestation ex_hash"

lemma ex_online_reachable: "box_reachable defaultVerifyAttestation ex_hash ex_online"
proof -
  have "ex_step (load_registry [] 0) ex_prepared"
    unfolding ex_prepared_def by (rule box_step.prepared) (simp add: load_registry_def)
  moreover have "ex_step ex_prepared ex_bound" unfolding ex_bound_def by (rule box_step.bound)
  moreover have "ex_step ex_bound ex_socket" unfolding ex_socket_def by (rule box_step.connected) code_simp
  moreover have "ex_step ex_socket ex_greeted" unfolding ex_greeted_def by (rule box_step.hello) (rule ex_socket_start)+
  moreover have "ex_step ex_greeted ex_online"
  proof -
    have "g_verifying ex_greeted = [] @ (0, keyOf ''b'' ''g'', ex_hello) # []" by (simp add: ex_greeted_eq)
    moreover have "g_conn ex_greeted ''e1'' = None" unfolding ex_greeted_eq by code_simp
    ultimately have "ex_step ex_greeted (verified ex_hash ''c'' ''e1'' 0 (keyOf ''b'' ''g'') ex_hello (ex_greeted\<lparr>g_verifying := [] @ []\<rparr>))"
      by (rule box_step.checked)
    then show ?thesis by (simp add: ex_online_def)
  qed
  ultimately show ?thesis unfolding box_reachable_def by (meson converse_rtranclp_into_rtranclp rtranclp.rtrancl_refl)
qed

lemma ex_dialled_reachable: "box_reachable defaultVerifyAttestation ex_hash ex_dialled"
proof -
  have "g_streams ex_online ''d1'' = None" unfolding ex_online_def ex_greeted_eq by code_simp
  then have "ex_step ex_online ex_dialled" unfolding ex_dialled_def by (rule box_step.dialled)
  then show ?thesis using reachable_steps [OF ex_online_reachable] by blast
qed

lemma ex_online_state:
  "g_connections ex_online = [(keyOf ''b'' ''g'', ''e1'')]" "g_connections ex_dialled = [(keyOf ''b'' ''g'', ''e1'')]"
  "conn_streams ex_dialled ''e1'' = [''d1'']"
  unfolding ex_dialled_def ex_online_def ex_greeted_eq by code_simp+

theorem box_connections_bound_witness: "\<exists>c r. g_conn ex_online ''e1'' = Some c \<and> record_of ex_online (keyOf ''b'' ''g'') = Some r
    \<and> br_instance r = Some (cn_instance c) \<and> br_revoked r = None"
  by (rule box_connections_bound [OF ex_online_reachable]) (simp add: ex_online_state)

theorem box_streams_bounded_witness: "\<exists>c. g_conn ex_dialled ''e1'' = Some c \<and> cn_streams c = [''d1''] \<and> length (cn_streams c) \<le> max_dial_streams"
proof -
  obtain c where c: "g_conn ex_dialled ''e1'' = Some c" "cn_streams c = [''d1'']"
    using ex_online_state(3) by (auto simp: conn_streams_def split: option.splits)
  then show ?thesis using box_streams_bounded [OF ex_dialled_reachable c(1)] by blast
qed

theorem bootstrap_single_use_witness:
  "\<exists>e. authenticate_finish ex_hash ''c2'' ''e2'' 1 (keyOf ''b'' ''g'') ex_hello ex_online = (Some e, ex_online)"
proof -
  let ?s = "ex_greeted\<lparr>g_verifying := []\<rparr>"
  have m: "field2 ex_hello ''auth'' ''mode'' = Some (JStr ''bootstrap'')" by code_simp
  have none: "fst (authenticate_finish ex_hash ''c'' ''e1'' 0 (keyOf ''b'' ''g'') ex_hello ?s) = None"
    unfolding ex_greeted_eq by code_simp
  then have f: "authenticate_finish ex_hash ''c'' ''e1'' 0 (keyOf ''b'' ''g'') ex_hello ?s = (None, ex_online)"
    by (auto simp: ex_online_def verified_def prod_eq_iff split: prod.splits option.splits)
  have "map_of (g_records ?s) (keyOf ''b'' ''g'') \<noteq> None" unfolding ex_greeted_eq by code_simp
  then obtain r where "record_of ?s (keyOf ''b'' ''g'') = Some r" by blast
  from bootstrap_single_use [OF this m f rtranclp.rtrancl_refl m] show ?thesis .
qed

theorem revoked_stays_out_witness:
  "map_of (g_connections (snd (revoke ''b'' ''g'' ''done'' ex_online))) (keyOf ''b'' ''g'') = None"
proof -
  have "fst (revoke ''b'' ''g'' ''done'' ex_online)" unfolding ex_online_def ex_greeted_eq by code_simp
  then have "revoke ''b'' ''g'' ''done'' ex_online = (True, snd (revoke ''b'' ''g'' ''done'' ex_online))" by (simp add: prod_eq_iff)
  from revoked_stays_out [OF ex_online_reachable this rtranclp.rtrancl_refl] show ?thesis by blast
qed

theorem stale_socket_mute_witness:
  "socket_closed 0 (upd_sock 0 (\<lambda>x. x\<lparr>so_stage := Ready (keyOf ''b'' ''g'') ''e0''\<rparr>) ex_online)
   = upd_sock 0 (\<lambda>x. x\<lparr>so_state := Closed\<rparr>) (upd_sock 0 (\<lambda>x. x\<lparr>so_stage := Ready (keyOf ''b'' ''g'') ''e0''\<rparr>) ex_online)"
proof -
  let ?s = "upd_sock 0 (\<lambda>x. x\<lparr>so_stage := Ready (keyOf ''b'' ''g'') ''e0''\<rparr>) ex_online"
  have "map_option so_stage (g_sockets ?s 0) = Some (Ready (keyOf ''b'' ''g'') ''e0'')"
    unfolding ex_online_def ex_greeted_eq by code_simp
  moreover have "map_of (g_connections ?s) (keyOf ''b'' ''g'') \<noteq> Some ''e0''" by (simp add: ex_online_state upd_sock_def)
  ultimately show ?thesis by (rule stale_socket_mute [THEN conjunct2])
qed

end
