(* ===== verification/Box_Dial_Properties.thy ===== *)
theory Box_Dial_Properties
  imports Box_Registry
begin

text \<open>
  The dial stream as a byte channel: base64 round trip, the bytes that reach the socket, the size of the
  frames.
\<close>

section \<open>Base64\<close>

lemma std_value_char: "n < 64 \<Longrightarrow> std_value (std_char n) = Some n"
proof -
  assume n: "n < 64"
  have "b64_alphabet (b64_char n)" using n by (rule b64_alphabet_char)
  moreover have "b64_char n \<notin> {CHR ''+'', CHR ''/''}"
    using n by (auto simp: b64_char_def of_char_of Let_def split: if_splits dest: arg_cong [of _ _ "of_char :: char \<Rightarrow> nat"])
  ultimately show ?thesis using n by (auto simp: std_value_def std_char_def b64_value_char)
qed

lemma std_value_pad [simp]: "std_value CHR ''='' = None"
  by (simp add: std_value_def b64_alphabet_def)

lemma map_filter_std: "\<forall>n \<in> set ns. n < 64 \<Longrightarrow> List.map_filter std_value (map std_char ns) = ns"
  by (induction ns) (auto simp: List.map_filter_def std_value_char)

text \<open>What \<^verbatim>\<open>_write\<close> encodes the receiving side decodes to the same bytes.\<close>

theorem dial_data_roundtrip:
  assumes "\<forall>b \<in> set bs. b < 256"
  shows "buffer_from (Some (JStr (base64_encode bs))) = Some bs"
proof -
  have "List.map_filter std_value (base64_encode bs) = b64_sextets bs"
    using map_filter_std [of "b64_sextets bs"] b64_sextets_bound [OF assms]
    by (auto simp: base64_encode_def List.map_filter_def)
  then show ?thesis using assms by (simp add: buffer_from_def b64_bytes_sextets)
qed

theorem dial_data_roundtrip_witness: "buffer_from (Some (JStr (base64_encode [255, 0, 250, 3]))) = Some [255, 0, 250, 3]"
  by (rule dial_data_roundtrip) simp

section \<open>The bytes on the wire\<close>

datatype dial_op = DWrite "nat list" | DSent | DEnd

fun do_dial :: "dial_op \<Rightarrow> dial \<Rightarrow> dial \<times> json list" where
  "do_dial (DWrite chunk) d = dial_write True chunk d"
| "do_dial DSent d = dial_sent True None d"
| "do_dial DEnd d = dial_end True d"

fun dial_run :: "dial_op list \<Rightarrow> dial \<times> json list \<Rightarrow> dial \<times> json list" where
  "dial_run [] s = s"
| "dial_run (x # xs) (d, sent) = (let (d', js) = do_dial x d in dial_run xs (d', sent @ js))"

definition frame_bytes :: "json \<Rightarrow> nat list" where
  "frame_bytes j = (if js_get j ''type'' = Some (JStr ''dial_data'')
     then (case buffer_from (js_get j ''data'') of Some bs \<Rightarrow> bs | None \<Rightarrow> []) else [])"

definition wire_bytes :: "json list \<Rightarrow> nat list" where
  "wire_bytes js = concat (map frame_bytes js)"

definition pending_bytes :: "dial \<Rightarrow> nat list" where
  "pending_bytes d = (case ds_parts d of None \<Rightarrow> [] | Some ps \<Rightarrow> concat ps) @ concat (ds_queue d)"

fun written :: "dial_op list \<Rightarrow> nat list" where
  "written [] = []"
| "written (DWrite chunk # xs) = chunk @ written xs"
| "written (DSent # xs) = written xs"
| "written (DEnd # xs) = []"

lemma concat_split_parts [simp]: "concat (split_parts bs) = bs"
  by (induction bs rule: split_parts.induct) simp_all

lemma split_parts_length: "p \<in> set (split_parts bs) \<Longrightarrow> length p \<le> dial_chunk_bytes \<and> p \<noteq> []"
proof (induction bs rule: split_parts.induct)
  case (2 b bs)
  then show ?case by (auto simp: dial_chunk_bytes_def)
qed simp

lemma frame_bytes_data:
  "\<forall>b \<in> set p. b < 256 \<Longrightarrow> frame_bytes (dial_frame ''dial_data'' d [(''data'', JStr (base64_encode p))]) = p"
  by (simp add: frame_bytes_def dial_frame_def dial_data_roundtrip)

text \<open>The abstraction: what is on the wire followed by what is pending is what was written.\<close>

definition channel_ok :: "nat list \<Rightarrow> dial \<times> json list \<Rightarrow> bool" where
  "channel_ok bytes s \<longleftrightarrow> wire_bytes (snd s) @ pending_bytes (fst s) = bytes \<and> (\<forall>b \<in> set bytes. b < 256)
     \<and> \<not> ds_destroyed (fst s) \<and> (ds_parts (fst s) = None \<longrightarrow> ds_queue (fst s) = [])"

definition channel_prefix :: "nat list \<Rightarrow> dial \<times> json list \<Rightarrow> bool" where
  "channel_prefix bytes s \<longleftrightarrow> (\<exists>rest. bytes = wire_bytes (snd s) @ rest)
     \<and> (ds_destroyed (fst s) \<or> wire_bytes (snd s) @ pending_bytes (fst s) = bytes)"

lemma wire_bytes_append [simp]: "wire_bytes (js @ ks) = wire_bytes js @ wire_bytes ks"
  by (simp add: wire_bytes_def)

lemma wire_bytes_other [simp]:
  "wire_bytes [] = []" "kind \<noteq> ''dial_data'' \<Longrightarrow> wire_bytes [dial_frame kind d extra] = []"
  by (simp_all add: wire_bytes_def frame_bytes_def dial_frame_def)

lemma wire_bytes_data [simp]:
  "\<forall>b \<in> set p. b < 256 \<Longrightarrow> wire_bytes [dial_frame ''dial_data'' d [(''data'', JStr (base64_encode p))]] = p"
  by (simp add: wire_bytes_def frame_bytes_data)

lemma channel_prefix_ok: "channel_ok bytes s \<Longrightarrow> channel_prefix bytes s"
  by (auto simp: channel_ok_def channel_prefix_def)

lemma channel_send_next:
  assumes "wire_bytes sent @ concat ps @ concat q = bytes" "\<forall>b \<in> set bytes. b < 256" "\<not> ds_destroyed d"
  shows "channel_ok bytes (fst (send_next True ps q d), sent @ snd (send_next True ps q d))"
  using assms
proof (induction "True" ps q d rule: send_next.induct)
  case (1 p ps q d)
  then have "\<forall>b \<in> set p. b < 256" by auto
  then show ?case using 1 by (simp add: channel_ok_def pending_bytes_def)
next
  case (2 c q d)
  then show ?case by simp
next
  case (3 d)
  then show ?case by (auto simp: channel_ok_def dial_final_def pending_bytes_def)
qed

lemma ds_ending_send_next [simp]: "ds_ending (fst (send_next live ps q d)) = ds_ending d"
  by (induction live ps q d rule: send_next.induct) (auto simp: dial_destroy_def dial_final_def)

lemma channel_write:
  assumes "channel_ok bytes (d, sent)" "\<not> ds_ending d" "\<forall>b \<in> set chunk. b < 256"
  shows "channel_ok (bytes @ chunk) (fst (dial_write True chunk d), sent @ snd (dial_write True chunk d))"
    "ds_ending (fst (dial_write True chunk d)) = ds_ending d"
proof -
  show "channel_ok (bytes @ chunk) (fst (dial_write True chunk d), sent @ snd (dial_write True chunk d))"
  proof (cases "ds_parts d")
    case None
    then have "wire_bytes sent = bytes" "\<not> ds_destroyed d" using assms(1) by (auto simp: channel_ok_def pending_bytes_def)
    then have "channel_ok (bytes @ chunk) (fst (send_next True (split_parts chunk) [] d), sent @ snd (send_next True (split_parts chunk) [] d))"
      using assms by (intro channel_send_next) (auto simp: channel_ok_def)
    then show ?thesis using None assms by (simp add: dial_write_def channel_ok_def)
  next
    case (Some ps)
    then show ?thesis using assms by (auto simp: dial_write_def channel_ok_def pending_bytes_def)
  qed
  show "ds_ending (fst (dial_write True chunk d)) = ds_ending d"
    using assms by (auto simp: dial_write_def channel_ok_def split: option.splits)
qed

lemma channel_sent:
  assumes "channel_ok bytes (d, sent)"
  shows "channel_ok bytes (fst (dial_sent True None d), sent @ snd (dial_sent True None d))"
    "ds_ending (fst (dial_sent True None d)) = ds_ending d"
proof -
  show "channel_ok bytes (fst (dial_sent True None d), sent @ snd (dial_sent True None d))"
  proof (cases "ds_parts d")
    case None
    then show ?thesis using assms by (simp add: dial_sent_def channel_ok_def)
  next
    case (Some ps)
    then have "channel_ok bytes (fst (send_next True ps (ds_queue d) d), sent @ snd (send_next True ps (ds_queue d) d))"
      using assms by (intro channel_send_next) (auto simp: channel_ok_def pending_bytes_def)
    then show ?thesis using Some assms by (simp add: dial_sent_def channel_ok_def)
  qed
  show "ds_ending (fst (dial_sent True None d)) = ds_ending d"
    using assms by (auto simp: dial_sent_def channel_ok_def split: option.splits)
qed

lemma channel_end:
  "channel_ok bytes (d, sent) \<Longrightarrow> channel_ok bytes (fst (dial_end True d), sent @ snd (dial_end True d))
     \<and> ds_ending (fst (dial_end True d))"
  by (auto simp: dial_end_def dial_final_def channel_ok_def pending_bytes_def)

lemma run_destroyed: "ds_destroyed d \<Longrightarrow> dial_run xs (d, sent) = (d, sent)"
proof (induction xs)
  case (Cons x xs)
  then show ?case by (cases x) (simp_all add: dial_write_def dial_sent_def dial_end_def)
qed simp

lemma run_ending: "channel_ok bytes (d, sent) \<Longrightarrow> ds_ending d \<Longrightarrow> channel_prefix bytes (dial_run xs (d, sent))"
proof (induction xs arbitrary: d sent)
  case (Cons x xs)
  show ?case
  proof (cases x)
    case (DWrite chunk)
    obtain d' js where w: "dial_write True chunk d = (d', js)" by (cases "dial_write True chunk d")
    then have "ds_destroyed d'" "wire_bytes js = []" using Cons.prems
      by (auto simp: dial_write_def channel_ok_def dial_destroy_def split: if_splits)
    then show ?thesis using Cons.prems(1) DWrite w by (auto simp: run_destroyed channel_prefix_def channel_ok_def)
  next
    case DSent
    then show ?thesis using Cons channel_sent [OF Cons.prems(1)] by (simp add: case_prod_beta Let_def)
  next
    case DEnd
    then show ?thesis using Cons channel_end [OF Cons.prems(1)] by (simp add: case_prod_beta Let_def)
  qed
qed (simp add: channel_prefix_ok)

lemma run_channel:
  "channel_ok bytes (d, sent) \<Longrightarrow> \<not> ds_ending d \<Longrightarrow> \<forall>b \<in> set (written xs). b < 256
   \<Longrightarrow> channel_prefix (bytes @ written xs) (dial_run xs (d, sent))"
proof (induction xs arbitrary: d sent bytes)
  case (Cons x xs)
  show ?case
  proof (cases x)
    case (DWrite chunk)
    then have chunk: "\<forall>b \<in> set chunk. b < 256" using Cons.prems(3) by simp
    show ?thesis
      using DWrite Cons.IH [OF channel_write(1) [OF Cons.prems(1,2) chunk]] channel_write(2) [OF Cons.prems(1,2) chunk] Cons.prems
      by (simp add: case_prod_beta Let_def)
  next
    case DSent
    then show ?thesis using Cons channel_sent [OF Cons.prems(1)] by (simp add: case_prod_beta Let_def)
  next
    case DEnd
    then show ?thesis using run_ending channel_end [OF Cons.prems(1)] by (simp add: case_prod_beta Let_def)
  qed
qed (simp add: channel_prefix_ok)

text \<open>
  The dial stream is a byte queue.  Whatever sequence of writes, send callbacks and \<^verbatim>\<open>end\<close> a
  consumer and an open socket produce, the bytes in the \<^verbatim>\<open>dial_data\<close> frames are a prefix of the bytes
  written before the end, and as long as the stream is not destroyed what is missing is exactly what it still
  holds, in order.
\<close>

theorem dial_bytes_in_order:
  assumes "\<forall>b \<in> set (written xs). b < 256" and "dial_run xs (new_dial i port) = (d, sent)"
  shows "(\<exists>rest. written xs = wire_bytes sent @ rest) \<and> (ds_destroyed d \<or> wire_bytes sent @ pending_bytes d = written xs)"
proof -
  have "channel_ok [] (new_dial i port)" "\<not> ds_ending (fst (new_dial i port))"
    by (simp_all add: new_dial_def channel_ok_def pending_bytes_def Let_def)
  then have "channel_prefix ([] @ written xs) (dial_run xs (new_dial i port))"
    using run_channel [of "[]" "fst (new_dial i port)" "snd (new_dial i port)" xs] assms(1) by simp
  then show ?thesis using assms(2) by (simp add: channel_prefix_def)
qed

theorem dial_bytes_in_order_witness:
  "\<exists>d sent. dial_run [DWrite [1, 2], DWrite [3], DSent, DEnd] (new_dial ''s'' 8080) = (d, sent)
     \<and> wire_bytes sent @ pending_bytes d = [1, 2, 3]"
proof -
  obtain d sent where r: "dial_run [DWrite [1, 2], DWrite [3], DSent, DEnd] (new_dial ''s'' 8080) = (d, sent)"
    by (cases "dial_run [DWrite [1, 2], DWrite [3], DSent, DEnd] (new_dial ''s'' 8080)")
  then have "\<not> ds_destroyed d"
    by (auto simp: new_dial_def dial_write_def dial_sent_def dial_end_def dial_final_def dial_chunk_bytes_def Let_def)
  then show ?thesis using r dial_bytes_in_order [OF _ r] by simp
qed

section \<open>The size of the frames\<close>

definition plain_char :: "char \<Rightarrow> bool" where
  "plain_char c \<longleftrightarrow> json_escape c = [c]"

lemma plain_codes: "32 \<le> (of_char c :: nat) \<Longrightarrow> of_char c \<noteq> (34 :: nat) \<Longrightarrow> of_char c \<noteq> (92 :: nat) \<Longrightarrow> plain_char c"
  unfolding plain_char_def json_escape_def by (cases "c = CHR 0x22"; cases "c = CHR 0x5C") auto

lemma plain_alphabet: "b64_alphabet c \<Longrightarrow> plain_char c"
proof -
  assume "b64_alphabet c"
  then have "32 \<le> (of_char c :: nat) \<and> of_char c \<noteq> (34 :: nat) \<and> of_char c \<noteq> (92 :: nat)"
    unfolding b64_alphabet_def Let_def by (elim disjE conjE) simp_all
  then show ?thesis by (simp add: plain_codes)
qed

lemma json_quote_plain: "list_all plain_char s \<Longrightarrow> json_quote s = [CHR 0x22] @ s @ [CHR 0x22]"
proof -
  assume "list_all plain_char s"
  then have "concat (map json_escape s) = s" by (induction s) (simp_all add: plain_char_def)
  then show ?thesis by (simp add: json_quote_def)
qed

lemma plain_std_char: "n < 64 \<Longrightarrow> plain_char (std_char n)"
  using plain_alphabet [OF b64_alphabet_char [of n]] plain_codes [of "CHR ''+''"] plain_codes [of "CHR ''/''"]
  by (auto simp: std_char_def)

lemma base64_plain: "\<forall>b \<in> set bs. b < 256 \<Longrightarrow> list_all plain_char (base64_encode bs)"
  using plain_std_char b64_sextets_bound [of bs] plain_codes [of "CHR ''=''"]
  by (auto simp: base64_encode_def list_all_iff)

lemma length_sextets: "3 * length (b64_sextets bs) \<le> 4 * length bs + 2"
  by (induction bs rule: b64_sextets.induct) auto

lemma length_base64: "3 * length (base64_encode bs) \<le> 4 * length bs + 8"
  using length_sextets [of bs] by (auto simp: base64_encode_def)

definition ascii :: "char \<Rightarrow> bool" where
  "ascii c \<longleftrightarrow> (of_char c :: nat) < 128"

lemma utf8_ascii: "list_all ascii s \<Longrightarrow> length (utf8_encode s) = length s"
  by (induction s) (simp_all add: ascii_def Let_def)

lemma ascii_alphabet: "b64_alphabet c \<Longrightarrow> ascii c"
  unfolding b64_alphabet_def Let_def ascii_def by (elim disjE conjE) simp_all

lemma base64_ascii: "\<forall>b \<in> set bs. b < 256 \<Longrightarrow> list_all ascii (base64_encode bs)"
  using ascii_alphabet [OF b64_alphabet_char] b64_sextets_bound [of bs]
  by (auto simp: base64_encode_def list_all_iff std_char_def ascii_def)

lemma id_char_code: "id_char c \<or> c \<in> set ''._:-'' \<Longrightarrow> plain_char c \<and> ascii c"
  unfolding id_char_def by (auto simp: ascii_def intro: plain_codes)

lemma valid_id_text:
  assumes "validIdentity (Some (JStr i))"
  shows "list_all plain_char i" "list_all ascii i" "length i \<le> 128"
  using assms id_char_code by (auto simp: validIdentity_def list_all_iff split: list.splits)

definition fits :: "json \<Rightarrow> bool" where
  "fits j \<longleftrightarrow> length (utf8_encode (json_text j)) \<le> max_frame_bytes"

lemma data_frame_fits:
  assumes "validIdentity (Some (JStr (ds_id d)))" "\<forall>b \<in> set p. b < 256" "length p \<le> dial_chunk_bytes"
  shows "fits (dial_frame ''dial_data'' d [(''data'', JStr (base64_encode p))])"
proof -
  note i = valid_id_text [OF assms(1)]
  have t: "json_text (dial_frame ''dial_data'' d [(''data'', JStr (base64_encode p))])
    = CHR ''{'' # json_quote ''type'' @ '':'' @ json_quote ''dial_data'' @ '','' @ json_quote ''stream_id'' @ '':''
        @ ([CHR 0x22] @ ds_id d @ [CHR 0x22]) @ '','' @ json_quote ''data'' @ '':''
        @ ([CHR 0x22] @ base64_encode p @ [CHR 0x22]) @ ''}''"
    by (simp add: dial_frame_def json_quote_plain [OF i(1)] json_quote_plain [OF base64_plain [OF assms(2)]])
  have q: "json_quote ''type'' = CHR 0x22 # ''type'' @ [CHR 0x22]" "json_quote ''dial_data'' = CHR 0x22 # ''dial_data'' @ [CHR 0x22]"
    "json_quote ''stream_id'' = CHR 0x22 # ''stream_id'' @ [CHR 0x22]" "json_quote ''data'' = CHR 0x22 # ''data'' @ [CHR 0x22]"
    by code_simp+
  have "list_all ascii (json_text (dial_frame ''dial_data'' d [(''data'', JStr (base64_encode p))]))"
    unfolding t q using i(2) base64_ascii [OF assms(2)] by (simp add: ascii_def)
  moreover have "length (json_text (dial_frame ''dial_data'' d [(''data'', JStr (base64_encode p))])) \<le> max_frame_bytes"
    unfolding t q using i(3) length_base64 [of p] assms(3) by (simp add: dial_chunk_bytes_def max_frame_bytes_def)
  ultimately show ?thesis by (simp add: fits_def utf8_ascii)
qed

definition parts_of :: "dial \<Rightarrow> nat list list" where
  "parts_of d = (case ds_parts d of None \<Rightarrow> [] | Some ps \<Rightarrow> ps)"

definition frames_fit :: "string \<Rightarrow> dial \<times> json list \<Rightarrow> bool" where
  "frames_fit i s \<longleftrightarrow> ds_id (fst s) = i \<and> (\<forall>j \<in> set (snd s). js_get j ''type'' = Some (JStr ''dial_data'') \<longrightarrow> fits j)
     \<and> (\<forall>p \<in> set (parts_of (fst s)). length p \<le> dial_chunk_bytes \<and> (\<forall>b \<in> set p. b < 256))
     \<and> (\<forall>c \<in> set (ds_queue (fst s)). \<forall>b \<in> set c. b < 256)"

lemma frames_fit_quiet: "frames_fit i (d, sent) \<Longrightarrow> ds_id d' = ds_id d \<Longrightarrow> set (parts_of d') \<subseteq> set (parts_of d)
   \<Longrightarrow> set (ds_queue d') \<subseteq> set (ds_queue d) \<Longrightarrow> frames_fit i (d', sent)"
  unfolding frames_fit_def by fastforce

lemma frames_fit_other: "frames_fit i (d, sent) \<Longrightarrow> kind \<noteq> ''dial_data'' \<Longrightarrow> ds_id d' = ds_id d \<Longrightarrow> set (parts_of d') \<subseteq> set (parts_of d)
   \<Longrightarrow> set (ds_queue d') \<subseteq> set (ds_queue d) \<Longrightarrow> frames_fit i (d', sent @ [dial_frame kind d'' extra])"
  using frames_fit_quiet [of i d sent d'] by (auto simp: frames_fit_def dial_frame_def)

lemma fit_final: "frames_fit i (d, sent) \<Longrightarrow> frames_fit i (fst (dial_final True d), sent @ snd (dial_final True d))"
  by (auto simp: dial_final_def parts_of_def intro: frames_fit_other)

lemma fit_destroy: "frames_fit i (d, sent) \<Longrightarrow> frames_fit i (fst (dial_destroy True e d), sent @ snd (dial_destroy True e d))"
  by (auto simp: dial_destroy_def parts_of_def intro: frames_fit_other frames_fit_quiet)

lemma split_parts_bytes: "p \<in> set (split_parts c) \<Longrightarrow> b \<in> set p \<Longrightarrow> b \<in> set c"
  using concat_split_parts [of c] by (metis UN_I set_concat)

lemma fit_send_next:
  assumes "validIdentity (Some (JStr i))" "frames_fit i (d, sent)"
    "\<forall>p \<in> set ps. length p \<le> dial_chunk_bytes \<and> (\<forall>b \<in> set p. b < 256)" "\<forall>c \<in> set q. \<forall>b \<in> set c. b < 256"
  shows "frames_fit i (fst (send_next True ps q d), sent @ snd (send_next True ps q d))"
  using assms
proof (induction "True" ps q d rule: send_next.induct)
  case (1 p ps q d)
  then have "fits (dial_frame ''dial_data'' d [(''data'', JStr (base64_encode p))])"
    by (intro data_frame_fits) (auto simp: frames_fit_def)
  then show ?case using 1 by (auto simp: frames_fit_def parts_of_def)
next
  case (2 c q d)
  then have "\<forall>p \<in> set (split_parts c). length p \<le> dial_chunk_bytes \<and> (\<forall>b \<in> set p. b < 256)"
    using split_parts_length split_parts_bytes by (metis list.set_intros(1))
  then show ?case using 2 by simp
next
  case (3 d)
  then have "frames_fit i (d\<lparr>ds_parts := None, ds_queue := []\<rparr>, sent)" by (auto simp: parts_of_def intro: frames_fit_quiet)
  then show ?case by (simp add: fit_final)
qed

lemma fit_op:
  assumes "validIdentity (Some (JStr i))" "frames_fit i (d, sent)" "\<forall>chunk. x = DWrite chunk \<longrightarrow> (\<forall>b \<in> set chunk. b < 256)"
  shows "frames_fit i (fst (do_dial x d), sent @ snd (do_dial x d))"
proof (cases x)
  case (DWrite chunk)
  then have b: "\<forall>b \<in> set chunk. b < 256" using assms(3) by blast
  then have parts: "\<forall>p \<in> set (split_parts chunk). length p \<le> dial_chunk_bytes \<and> (\<forall>b \<in> set p. b < 256)"
    using split_parts_length split_parts_bytes by metis
  have "frames_fit i (fst (send_next True (split_parts chunk) [] d), sent @ snd (send_next True (split_parts chunk) [] d))"
    by (rule fit_send_next [OF assms(1,2) parts]) simp
  moreover have "frames_fit i (d\<lparr>ds_queue := ds_queue d @ [chunk]\<rparr>, sent)"
    using assms(2) b by (auto simp: frames_fit_def parts_of_def)
  ultimately show ?thesis using DWrite assms(2) fit_destroy [OF assms(2)] by (auto simp: dial_write_def split: option.splits)
next
  case DSent
  have "frames_fit i (fst (send_next True ps (ds_queue d) d), sent @ snd (send_next True ps (ds_queue d) d))"
    if "ds_parts d = Some ps" for ps
    using assms(2) that by (intro fit_send_next [OF assms(1,2)]) (auto simp: frames_fit_def parts_of_def)
  then show ?thesis using DSent assms(2) by (auto simp: dial_sent_def split: option.splits)
next
  case DEnd
  have "frames_fit i (d\<lparr>ds_ending := True\<rparr>, sent)" using assms(2) by (auto simp: parts_of_def intro: frames_fit_quiet)
  then show ?thesis using DEnd assms(2) by (simp add: dial_end_def fit_final)
qed

text \<open>
  No frame of a dial stream breaks the frame limit: whatever bytes a consumer writes, in pieces of any
  size, every \<^verbatim>\<open>dial_data\<close> frame has at most \<^verbatim>\<open>MAX_FRAME_BYTES\<close> bytes of JSON, the payload the
  other side accepts.
\<close>

theorem dial_frames_fit:
  assumes "validIdentity (Some (JStr i))" and "\<forall>chunk \<in> set chunks. \<forall>b \<in> set chunk. b < 256"
    and "set xs \<subseteq> {DSent, DEnd} \<union> DWrite ` set chunks" and "dial_run xs (new_dial i port) = (d, sent)" and "j \<in> set sent"
    and "js_get j ''type'' = Some (JStr ''dial_data'')"
  shows "length (utf8_encode (json_text j)) \<le> max_frame_bytes"
proof -
  have "frames_fit i (dial_run xs (d, sent))" if "frames_fit i (d, sent)" "set xs \<subseteq> {DSent, DEnd} \<union> DWrite ` set chunks" for xs d sent
    using that
  proof (induction xs arbitrary: d sent)
    case (Cons x xs)
    have "frames_fit i (fst (do_dial x d), sent @ snd (do_dial x d))"
      using Cons.prems assms(2) by (intro fit_op [OF assms(1)]) auto
    then show ?case using Cons by (simp add: case_prod_beta Let_def)
  qed simp
  moreover have "frames_fit i (fst (new_dial i port), snd (new_dial i port))"
    by (simp add: frames_fit_def new_dial_def dial_frame_def parts_of_def Let_def)
  ultimately have "frames_fit i (d, sent)" using assms(3,4) by (metis prod.collapse)
  then show ?thesis using assms(5,6) by (simp add: frames_fit_def fits_def)
qed

theorem dial_frames_fit_witness:
  "length (utf8_encode (json_text (dial_frame ''dial_data'' (fst (new_dial ''s'' 8080)) [(''data'', JStr (base64_encode [7, 8]))]))) \<le> 65536"
proof -
  let ?j = "dial_frame ''dial_data'' (fst (new_dial ''s'' 8080)) [(''data'', JStr (base64_encode [7, 8]))]"
  obtain d sent where r: "dial_run [DWrite [7, 8]] (new_dial ''s'' 8080) = (d, sent)"
    by (cases "dial_run [DWrite [7, 8]] (new_dial ''s'' 8080)")
  then have j: "?j \<in> set sent" by (auto simp: new_dial_def dial_write_def dial_chunk_bytes_def dial_frame_def Let_def)
  have "length (utf8_encode (json_text ?j)) \<le> max_frame_bytes"
  proof (rule dial_frames_fit [OF _ _ _ r j])
    show "validIdentity (Some (JStr ''s''))" by code_simp
    show "\<forall>chunk \<in> set [[7, 8 :: nat]]. \<forall>b \<in> set chunk. b < 256" by simp
  qed (simp_all add: dial_frame_def)
  then show ?thesis by (simp add: max_frame_bytes_def)
qed

end
