(* ===== verification/Search_Query.thy ===== *)
theory Search_Query
  imports Oyster_Prelude Complex_Main
begin

text \<open>
  \<^verbatim>\<open>server/sessions/searchQuery.mjs\<close> and \<^verbatim>\<open>server/sessions/searchRescore.mjs\<close>: the search
  syntax, the FTS5 expression built from it, matching, and the scores.  Strings are Latin-1, so a code
  point is one code unit.  The mapping of a match back to the source text is kept for any lower-casing of
  characters, since its point is one that changes lengths.  Scores are rationals where the code has
  floating point numbers; the exponential of the age is an argument.
\<close>

section \<open>The query\<close>

definition min_term_length :: nat where "min_term_length = 3"

datatype search_operator = AND | OR

record search_state =
  q_terms :: "string list" \<comment> \<open>\<^verbatim>\<open>terms\<close>; \<^verbatim>\<open>seenTerms\<close> holds the same strings\<close>
  q_operator :: search_operator
  q_current :: string
  q_quoted :: bool

definition push_term :: "bool \<Rightarrow> search_state \<Rightarrow> search_state" where
  "push_term isQuoted s =
     (let rawValue = js_trim (q_current s); value = js_lower rawValue in
      if \<not> isQuoted \<and> value = ''or'' then s\<lparr>q_operator := OR, q_current := []\<rparr>
      else if value \<noteq> [] \<and> (isQuoted \<or> length rawValue \<ge> min_term_length) \<and> value \<notin> set (q_terms s)
      then s\<lparr>q_terms := q_terms s @ [value], q_current := []\<rparr>
      else s\<lparr>q_current := []\<rparr>)"

definition scan_char :: "char \<Rightarrow> search_state \<Rightarrow> search_state" where
  "scan_char c s =
     (if c = CHR 0x22 then
        (let s1 = (if q_quoted s then push_term True s else if js_trim (q_current s) \<noteq> [] then push_term False s else s)
         in s1\<lparr>q_quoted := \<not> q_quoted s1\<rparr>)
      else if js_space c \<and> \<not> q_quoted s then push_term False s
      else s\<lparr>q_current := q_current s @ [c]\<rparr>)"

fun scan_query :: "string \<Rightarrow> search_state \<Rightarrow> search_state" where
  "scan_query [] s = push_term (q_quoted s) s"
| "scan_query [c] s = scan_query [] (scan_char c s)"
| "scan_query (c # d # cs) s =
     (if c = CHR 0x5C \<and> d = CHR 0x22 then scan_query cs (s\<lparr>q_current := q_current s @ [CHR 0x22]\<rparr>)
      else scan_query (d # cs) (scan_char c s))"

definition parseSearchQuery :: "string \<Rightarrow> string list \<times> search_operator" where
  "parseSearchQuery query =
     (let source = js_trim (filter (\<lambda>c. c \<noteq> CHR 0x00) query);
          s = scan_query source \<lparr>q_terms = [], q_operator = AND, q_current = [], q_quoted = False\<rparr>
      in (q_terms s, q_operator s))"

definition parseSearchTerms :: "string \<Rightarrow> string list" where
  "parseSearchTerms query = fst (parseSearchQuery query)"

section \<open>The FTS5 expression\<close>

definition fts_term :: "string \<Rightarrow> string" where
  "fts_term t = [CHR 0x22] @ concat (map (\<lambda>c. if c = CHR 0x00 then [] else if c = CHR 0x22 then [CHR 0x22, CHR 0x22] else [c]) t) @ [CHR 0x22]"

definition ftsSearchExpression :: "string list \<Rightarrow> search_operator \<Rightarrow> string" where
  "ftsSearchExpression terms oper = js_join (if oper = OR then '' OR '' else '' AND '') (map fts_term terms)"

section \<open>Matching\<close>

text \<open>\<open>low\<close> is the lower-casing of one character.\<close>

fun source_range :: "(char \<Rightarrow> string) \<Rightarrow> nat \<Rightarrow> nat \<Rightarrow> string \<Rightarrow> nat \<Rightarrow> nat \<Rightarrow> nat option \<Rightarrow> (nat \<times> nat) option" where
  "source_range low idx fin [] sourceOffset normalizedOffset sourceStart = None"
| "source_range low idx fin (c # cs) sourceOffset normalizedOffset sourceStart =
     (let nextSourceOffset = sourceOffset + 1;
          nextNormalizedOffset = normalizedOffset + length (low c);
          start = (if sourceStart = None \<and> idx < nextNormalizedOffset then Some sourceOffset else sourceStart)
      in case start of
           Some s0 \<Rightarrow> if fin \<le> nextNormalizedOffset then Some (s0, nextSourceOffset - s0)
                     else source_range low idx fin cs nextSourceOffset nextNormalizedOffset start
         | None \<Rightarrow> source_range low idx fin cs nextSourceOffset nextNormalizedOffset start)"

definition sourceMatchRange :: "(char \<Rightarrow> string) \<Rightarrow> string \<Rightarrow> string \<Rightarrow> nat \<Rightarrow> nat \<Rightarrow> nat \<times> nat" where
  "sourceMatchRange low source normalizedSource normalizedIndex normalizedLength =
     (if length normalizedSource = length source then (normalizedIndex, normalizedLength)
      else case source_range low normalizedIndex (normalizedIndex + normalizedLength) source 0 0 None of
             Some r \<Rightarrow> r
           | None \<Rightarrow> (normalizedIndex, normalizedLength))"

definition lower_text :: "(char \<Rightarrow> string) \<Rightarrow> string \<Rightarrow> string" where
  "lower_text low s = concat (map low s)"

record search_match =
  sm_term :: nat
  sm_index :: nat
  sm_length :: nat

definition match_term :: "(char \<Rightarrow> string) \<Rightarrow> string \<Rightarrow> nat \<times> string \<Rightarrow> search_match list" where
  "match_term low text t =
     (let normalized = lower_text low text; normalizedTerm = lower_text low (snd t) in
      if normalizedTerm = [] then []
      else case index_in normalizedTerm normalized of
             None \<Rightarrow> []
           | Some i \<Rightarrow>
               (let r = sourceMatchRange low text normalized i (length normalizedTerm)
                in [\<lparr>sm_term = fst t, sm_index = fst r, sm_length = snd r\<rparr>]))"

definition matchingSearchTerms :: "(char \<Rightarrow> string) \<Rightarrow> string \<Rightarrow> string list \<Rightarrow> search_match list" where
  "matchingSearchTerms low text terms = concat (map (match_term low text) (enumerate 0 terms))"

definition matchSearchText :: "(char \<Rightarrow> string) \<Rightarrow> string \<Rightarrow> string list \<Rightarrow> search_operator \<Rightarrow> search_match option" where
  "matchSearchText low text terms oper =
     (case matchingSearchTerms low text terms of
        [] \<Rightarrow> None
      | m # ms \<Rightarrow>
          if oper \<noteq> OR \<and> length (m # ms) \<noteq> length terms then None
          else Some (foldl (\<lambda>first mt. if sm_index mt < sm_index first then mt else first) m ms))"

section \<open>Scores\<close>

record search_result =
  sr_kind :: string
  sr_role :: string
  sr_before :: string
  sr_match :: string
  sr_after :: string
  sr_timestamp :: "int option" \<comment> \<open>\<^verbatim>\<open>Date.parse\<close> of the timestamp, \<^term>\<open>None\<close> for \<^verbatim>\<open>NaN\<close>\<close>

definition snippetText :: "search_result \<Rightarrow> string" where
  "snippetText r = sr_before r @ sr_match r @ sr_after r"

record phrase_state =
  p_phrases :: "string list"
  p_current :: string
  p_quoted :: bool

definition push_phrase :: "phrase_state \<Rightarrow> phrase_state" where
  "push_phrase s =
     (let phrase = js_lower (js_trim (p_current s)) in
      s\<lparr>p_phrases := (if phrase \<noteq> [] then jsset_add phrase (p_phrases s) else p_phrases s), p_current := []\<rparr>)"

definition phrase_char :: "char \<Rightarrow> phrase_state \<Rightarrow> phrase_state" where
  "phrase_char c s =
     (if c = CHR 0x22 then
        (let s1 = (if p_quoted s then push_phrase s else s\<lparr>p_current := []\<rparr>) in s1\<lparr>p_quoted := \<not> p_quoted s1\<rparr>)
      else if p_quoted s then s\<lparr>p_current := p_current s @ [c]\<rparr>
      else s)"

fun scan_phrases :: "string \<Rightarrow> phrase_state \<Rightarrow> phrase_state" where
  "scan_phrases [] s = (if p_quoted s then push_phrase s else s)"
| "scan_phrases [c] s = scan_phrases [] (phrase_char c s)"
| "scan_phrases (c # d # cs) s =
     (if c = CHR 0x5C \<and> d = CHR 0x22
      then scan_phrases cs (if p_quoted s then s\<lparr>p_current := p_current s @ [CHR 0x22]\<rparr> else s)
      else scan_phrases (d # cs) (phrase_char c s))"

definition quotedPhrases :: "string \<Rightarrow> string list" where
  "quotedPhrases query =
     p_phrases (scan_phrases (filter (\<lambda>c. c \<noteq> CHR 0x00) query) \<lparr>p_phrases = [], p_current = [], p_quoted = False\<rparr>)"

text \<open>
  The loop of \<^verbatim>\<open>occurrences\<close>; on the empty term it does not end (\<^term>\<open>None\<close>), because then
  \<^verbatim>\<open>indexOf\<close> finds it at the same place again.
\<close>

lemma js_index_of_SomeD:
  assumes "js_index_of text pat start = Some i" "pat \<noteq> []"
  shows "start \<le> i" "i + length pat \<le> length text" "take (length pat) (drop i text) = pat"
proof -
  obtain j where j: "index_in pat (drop start text) = Some j" "i = j + min start (length text)"
    using assms(1) by (auto simp: js_index_of_def)
  have le: "start \<le> length text"
    using j(1) assms(2) by (cases "start \<le> length text") auto
  have J: "j + length pat \<le> length text - start" "take (length pat) (drop (j + start) text) = pat" "i = j + start"
    using index_in_Some [OF j(1)] j(2) le by (simp_all add: min_absorb1)
  show "start \<le> i" "i + length pat \<le> length text" "take (length pat) (drop i text) = pat"
    using J le by simp_all
qed

function occurrences_from :: "string \<Rightarrow> string \<Rightarrow> nat \<Rightarrow> nat list option" where
  "occurrences_from text pat start =
     (if pat = [] then None
      else case js_index_of text pat start of
             None \<Rightarrow> Some []
           | Some i \<Rightarrow> map_option (Cons i) (occurrences_from text pat (i + length pat)))"
  by pat_completeness auto
termination
proof (relation "measure (\<lambda>(text, pat, start). Suc (length text) - start)")
  fix src pat :: string and start i
  assume "pat \<noteq> []" "js_index_of src pat start = Some i"
  then show "((src, pat, i + length pat), (src, pat, start)) \<in> measure (\<lambda>(text, pat, start). Suc (length text) - start)"
    using js_index_of_SomeD [of src pat start i] by (cases pat) auto
qed simp

definition occurrences :: "string \<Rightarrow> string \<Rightarrow> nat list option" where
  "occurrences text pat = occurrences_from text pat 0"

text \<open>\<^verbatim>\<open>TOKEN_CHARACTER\<close> within Latin-1: letters, digits and number forms, and the underscore.\<close>

definition token_character :: "char \<Rightarrow> bool" where
  "token_character c \<longleftrightarrow>
     (let n = (of_char c :: nat) in
      (48 \<le> n \<and> n \<le> 57) \<or> (65 \<le> n \<and> n \<le> 90) \<or> n = 95 \<or> (97 \<le> n \<and> n \<le> 122)
      \<or> n \<in> {170, 178, 179, 181, 185, 186, 188, 189, 190} \<or> (192 \<le> n \<and> n \<le> 255 \<and> n \<noteq> 215 \<and> n \<noteq> 247))"

definition hasTokenBoundaries :: "string \<Rightarrow> nat \<Rightarrow> nat \<Rightarrow> bool" where
  "hasTokenBoundaries text index len \<longleftrightarrow>
     (index = 0 \<or> \<not> token_character (text ! (index - 1))) \<and> (index + len \<ge> length text \<or> \<not> token_character (text ! (index + len)))"

text \<open>The window of \<^verbatim>\<open>proximityScore\<close>; \<^term>\<open>None\<close> is \<^verbatim>\<open>Infinity\<close>.\<close>

record window =
  w_counts :: "nat list"
  w_covered :: nat
  w_start :: nat
  w_smallest :: "nat option"

definition span_min :: "nat option \<Rightarrow> nat \<Rightarrow> nat option" where
  "span_min best d = Some (case best of None \<Rightarrow> d | Some b \<Rightarrow> min b d)"

function shrink_window :: "(nat \<times> nat) list \<Rightarrow> nat \<Rightarrow> nat \<Rightarrow> window \<Rightarrow> window" where
  "shrink_window events n fin w =
     (if w_covered w = n \<and> w_start w < length events
      then (let t = snd (events ! w_start w); left = w_counts w ! t - 1
            in shrink_window events n fin
                 (w\<lparr>w_smallest := span_min (w_smallest w) (fst (events ! fin) - fst (events ! w_start w)),
                    w_counts := (w_counts w)[t := left],
                    w_covered := (if left = 0 then w_covered w - 1 else w_covered w),
                    w_start := w_start w + 1\<rparr>))
      else w)"
  by pat_completeness auto
termination
  by (relation "measure (\<lambda>(events, n, fin, w). length events - w_start w)") (auto simp: Let_def)

declare shrink_window.simps [simp del] occurrences_from.simps [simp del]

definition extend_window :: "(nat \<times> nat) list \<Rightarrow> nat \<Rightarrow> nat \<Rightarrow> window \<Rightarrow> window" where
  "extend_window events n fin w =
     (let t = snd (events ! fin); count = w_counts w ! t
      in shrink_window events n fin
           (w\<lparr>w_counts := (w_counts w)[t := count + 1], w_covered := (if count = 0 then w_covered w + 1 else w_covered w)\<rparr>))"

definition smallest_span :: "nat list list \<Rightarrow> nat option" where
  "smallest_span sets =
     (let events = sort_key fst (concat (map (\<lambda>(i, ps). map (\<lambda>p. (p, i)) ps) (enumerate 0 sets)))
      in w_smallest (fold (extend_window events (length sets)) [0..<length events]
           \<lparr>w_counts = replicate (length sets) 0, w_covered = 0, w_start = 0, w_smallest = None\<rparr>))"

definition proximityScore :: "nat list list \<Rightarrow> rat" where
  "proximityScore sets =
     (if length sets < 2 \<or> [] \<in> set sets then 0
      else case smallest_span sets of None \<Rightarrow> 0 | Some d \<Rightarrow> max 0 (30 - of_nat d / 8))"

definition termMatchBoost :: "string \<Rightarrow> string list \<Rightarrow> nat list list \<Rightarrow> rat" where
  "termMatchBoost text terms positions =
     sum_list (map (\<lambda>(t, ps). of_nat (min (length ps) 3) * 2
       + (if \<exists>p \<in> set ps. hasTokenBoundaries text p (length t) then 8 else 0)) (zip terms positions))"

definition roleBoost :: "search_result \<Rightarrow> rat" where
  "roleBoost r =
     (if sr_kind r = ''name'' then 50 else if sr_role r = ''user'' then 20 else if sr_role r = ''assistant'' then 10 else 0)"

text \<open>\<^verbatim>\<open>12 * Math.exp(-age / (30 * DAY_MS))\<close> is the argument \<open>decay\<close>.\<close>

definition scoreSearchResult :: "(int \<Rightarrow> rat) \<Rightarrow> search_result \<Rightarrow> string \<Rightarrow> int option \<Rightarrow> rat option" where
  "scoreSearchResult decay r query referenceTime =
     (let text = js_lower (snippetText r); terms = parseSearchTerms query in
      case those (map (occurrences text) terms) of
        None \<Rightarrow> None
      | Some positions \<Rightarrow>
          (let matchedTerms = length (filter (\<lambda>ps. ps \<noteq> []) positions) in
           Some ((if terms \<noteq> [] then of_nat matchedTerms / of_nat (length terms) * 60 else 0)
             + (if terms \<noteq> [] \<and> matchedTerms = length terms then 40 else 0)
             + 120 * of_nat (length (filter (js_includes text) (quotedPhrases query)))
             + (if length terms > 1 \<and> js_includes text (js_join '' '' terms) then 70 else 0)
             + proximityScore positions + termMatchBoost text terms positions + roleBoost r
             + (case (sr_timestamp r, referenceTime) of
                  (Some timestamp, Some now) \<Rightarrow> decay (max 0 (now - timestamp))
                | _ \<Rightarrow> 0))))"

definition reference_time :: "search_result list \<Rightarrow> int option" where
  "reference_time results =
     foldl (\<lambda>latest r. case sr_timestamp r of
              None \<Rightarrow> latest
            | Some t \<Rightarrow> (case latest of None \<Rightarrow> Some t | Some l \<Rightarrow> if t > l then Some t else latest)) None results"

definition rescoreSearchResults :: "(int \<Rightarrow> rat) \<Rightarrow> search_result list \<Rightarrow> string \<Rightarrow> search_result list option" where
  "rescoreSearchResults decay results query =
     map_option (\<lambda>scores. map snd (sort_key (\<lambda>x. - fst x) (zip scores results)))
       (those (map (\<lambda>r. scoreSearchResult decay r query (reference_time results)) results))"

end
