(* ===== verification/Search_Properties.thy ===== *)
theory Search_Properties
  imports Search_Query "HOL-Library.Multiset"
begin

text \<open>
  Properties of the session search: the FTS5 expression quotes every term, the sliding window finds the
  closest occurrences, the rescoring is a stable sort, and a match maps back into the source text.
\<close>

section \<open>The sliding window\<close>

definition cnt :: "(nat \<times> nat) list \<Rightarrow> nat \<Rightarrow> nat \<Rightarrow> nat \<Rightarrow> nat" where
  "cnt ev i j t = length (filter (\<lambda>k. snd (ev ! k) = t) [i..<j])"

definition covers :: "(nat \<times> nat) list \<Rightarrow> nat \<Rightarrow> nat \<Rightarrow> nat \<Rightarrow> bool" where
  "covers ev n i j \<longleftrightarrow> (\<forall>t < n. 0 < cnt ev i j t)"

definition wspan :: "(nat \<times> nat) list \<Rightarrow> nat \<Rightarrow> nat \<Rightarrow> nat" where
  "wspan ev i j = fst (ev ! (j - 1)) - fst (ev ! i)"

lemma cnt_start: "i < j \<Longrightarrow> cnt ev i j t = (if snd (ev ! i) = t then 1 else 0) + cnt ev (Suc i) j t"
  by (simp add: cnt_def upt_conv_Cons)

lemma cnt_end: "i \<le> j \<Longrightarrow> cnt ev i (Suc j) t = cnt ev i j t + (if snd (ev ! j) = t then 1 else 0)"
  by (simp add: cnt_def)

lemma cnt_pos: "0 < cnt ev i j t \<longleftrightarrow> (\<exists>k. i \<le> k \<and> k < j \<and> snd (ev ! k) = t)"
  by (auto simp: cnt_def filter_empty_conv)

lemma covers_mono: "covers ev n i j \<Longrightarrow> i' \<le> i \<Longrightarrow> j \<le> j' \<Longrightarrow> covers ev n i' j'"
  unfolding covers_def cnt_pos by (meson le_trans less_le_trans)

lemma covers_nonempty: "covers ev n i j \<Longrightarrow> 0 < n \<Longrightarrow> i < j"
  unfolding covers_def cnt_pos by fastforce

definition counts_ok :: "(nat \<times> nat) list \<Rightarrow> nat \<Rightarrow> nat \<Rightarrow> window \<Rightarrow> bool" where
  "counts_ok ev n j w \<longleftrightarrow> w_start w \<le> j \<and> length (w_counts w) = n \<and> (\<forall>t < n. w_counts w ! t = cnt ev (w_start w) j t)
     \<and> w_covered w = card {t. t < n \<and> 0 < cnt ev (w_start w) j t}"

lemma covered_all: "counts_ok ev n j w \<Longrightarrow> w_covered w = n \<longleftrightarrow> covers ev n (w_start w) j"
proof -
  assume ok: "counts_ok ev n j w"
  have "card {t. t < n \<and> 0 < cnt ev (w_start w) j t} = n \<longleftrightarrow> {t. t < n \<and> 0 < cnt ev (w_start w) j t} = {..<n}"
    by (metis (no_types, lifting) card_lessThan card_subset_eq finite_lessThan lessThan_iff mem_Collect_eq subsetI)
  then show ?thesis using ok by (auto simp: counts_ok_def covers_def)
qed

text \<open>\<open>below\<close>: the best span so far is at most that of the window; \<open>attained\<close>: it is the span of one.\<close>

definition below :: "(nat \<times> nat) list \<Rightarrow> window \<Rightarrow> nat \<Rightarrow> nat \<Rightarrow> bool" where
  "below ev w i j \<longleftrightarrow> (\<exists>b. w_smallest w = Some b \<and> b \<le> wspan ev i j)"

definition attained :: "(nat \<times> nat) list \<Rightarrow> nat \<Rightarrow> nat \<Rightarrow> window \<Rightarrow> bool" where
  "attained ev n j w \<longleftrightarrow> (\<forall>b. w_smallest w = Some b \<longrightarrow> (\<exists>i k. covers ev n i k \<and> k \<le> j \<and> b = wspan ev i k))"

definition window_inv :: "(nat \<times> nat) list \<Rightarrow> nat \<Rightarrow> nat \<Rightarrow> window \<Rightarrow> bool" where
  "window_inv ev n j w \<longleftrightarrow> counts_ok ev n j w \<and> attained ev n j w \<and> (\<forall>i < w_start w. covers ev n i j)
     \<and> (\<forall>i k. covers ev n i k \<longrightarrow> k \<le> j \<longrightarrow> k < j \<or> i < w_start w \<longrightarrow> below ev w i k)"

lemma shrink_counts:
  assumes ok: "counts_ok ev n j w" and w: "w_start w < j" "snd (ev ! w_start w) < n"
  shows "counts_ok ev n j (w\<lparr>w_smallest := b, w_counts := (w_counts w)[snd (ev ! w_start w) := w_counts w ! snd (ev ! w_start w) - 1],
    w_covered := (if w_counts w ! snd (ev ! w_start w) - 1 = 0 then w_covered w - 1 else w_covered w), w_start := w_start w + 1\<rparr>)"
proof -
  let ?s = "w_start w" and ?t = "snd (ev ! w_start w)"
  have c: "cnt ev ?s j t = (if ?t = t then 1 else 0) + cnt ev (Suc ?s) j t" for t using w(1) by (rule cnt_start)
  have t: "w_counts w ! ?t = Suc (cnt ev (Suc ?s) j ?t)" using ok w(2) c [of ?t] by (simp add: counts_ok_def)
  let ?A = "{t. t < n \<and> 0 < cnt ev ?s j t}" and ?B = "{t. t < n \<and> 0 < cnt ev (Suc ?s) j t}"
  have "?B = (if w_counts w ! ?t - 1 = 0 then ?A - {?t} else ?A)" using t w(2) by (auto simp: c)
  moreover have "?t \<in> ?A" using w(2) c [of ?t] by simp
  ultimately have "card ?B = (if w_counts w ! ?t - 1 = 0 then w_covered w - 1 else w_covered w)"
    using ok by (simp add: counts_ok_def)
  then show ?thesis using ok w t by (auto simp: counts_ok_def nth_list_update c)
qed

lemma shrink_inv:
  assumes "sorted (map fst ev)" "\<forall>e \<in> set ev. snd e < n" "0 < n" "fin < length ev" "window_inv ev n (Suc fin) w"
  shows "window_inv ev n (Suc fin) (shrink_window ev n fin w) \<and> \<not> covers ev n (w_start (shrink_window ev n fin w)) (Suc fin)"
  using assms
proof (induction ev n fin w rule: shrink_window.induct)
  case (1 ev n fin w)
  note inv = "1.prems"(5)
  have ok: "counts_ok ev n (Suc fin) w" using inv by (simp add: window_inv_def)
  show ?case
  proof (cases "covers ev n (w_start w) (Suc fin)")
    case True
    then have s: "w_start w < Suc fin" using "1.prems"(3) by (rule covers_nonempty)
    then have len: "w_start w < length ev" using "1.prems"(4) by simp
    have c: "w_covered w = n" using covered_all [OF ok] True by simp
    let ?t = "snd (ev ! w_start w)" and ?d = "fst (ev ! fin) - fst (ev ! w_start w)"
    let ?w = "w\<lparr>w_smallest := span_min (w_smallest w) ?d, w_counts := (w_counts w)[?t := w_counts w ! ?t - 1],
      w_covered := (if w_counts w ! ?t - 1 = 0 then w_covered w - 1 else w_covered w), w_start := w_start w + 1\<rparr>"
    have t: "?t < n" using "1.prems"(2) len by simp
    have d: "?d = wspan ev (w_start w) (Suc fin)" by (simp add: wspan_def)
    have "counts_ok ev n (Suc fin) ?w" using shrink_counts [OF ok s t] .
    moreover have "attained ev n (Suc fin) ?w"
      using inv True unfolding attained_def window_inv_def d by (auto simp: span_min_def min_def split: option.splits)
    moreover have mono: "below ev ?w i k" if "below ev w i k" for i k
      using that unfolding below_def span_min_def by auto
    moreover have last: "below ev ?w (w_start w) (Suc fin)" unfolding below_def d span_min_def by (auto split: option.splits)
    moreover have "below ev ?w i k" if "covers ev n i k" "k \<le> Suc fin" "k < Suc fin \<or> i < w_start ?w" for i k
    proof (cases "k < Suc fin \<or> i < w_start w")
      case True
      then show ?thesis using inv that(1,2) mono unfolding window_inv_def by blast
    next
      case False
      then have "k = Suc fin" "i = w_start w" using that by auto
      then show ?thesis using last by simp
    qed
    moreover have "\<forall>i < w_start ?w. covers ev n i (Suc fin)" using inv True unfolding window_inv_def by (auto simp: less_Suc_eq)
    ultimately have "window_inv ev n (Suc fin) ?w" unfolding window_inv_def by blast
    then have "window_inv ev n (Suc fin) (shrink_window ev n fin ?w) \<and> \<not> covers ev n (w_start (shrink_window ev n fin ?w)) (Suc fin)"
      using "1.IH" [OF conjI [OF c len] refl refl] "1.prems"(1-4) by simp
    moreover have "shrink_window ev n fin w = shrink_window ev n fin ?w"
      by (subst shrink_window.simps) (simp add: c len Let_def)
    ultimately show ?thesis by simp
  next
    case False
    then have "shrink_window ev n fin w = w" using covered_all [OF ok] by (subst shrink_window.simps) simp
    then show ?thesis using False inv by simp
  qed
qed

lemma extend_counts:
  assumes "counts_ok ev n fin w" "snd (ev ! fin) < n"
  shows "counts_ok ev n (Suc fin) (w\<lparr>w_counts := (w_counts w)[snd (ev ! fin) := w_counts w ! snd (ev ! fin) + 1],
    w_covered := (if w_counts w ! snd (ev ! fin) = 0 then w_covered w + 1 else w_covered w)\<rparr>)"
proof -
  let ?s = "w_start w" and ?t = "snd (ev ! fin)"
  have c: "cnt ev ?s (Suc fin) t = cnt ev ?s fin t + (if ?t = t then 1 else 0)" for t
    using assms(1) by (intro cnt_end) (simp add: counts_ok_def)
  let ?A = "{t. t < n \<and> 0 < cnt ev ?s fin t}" and ?B = "{t. t < n \<and> 0 < cnt ev ?s (Suc fin) t}"
  have "?B = (if w_counts w ! ?t = 0 then insert ?t ?A else ?A)" using assms by (auto simp: c counts_ok_def)
  moreover have "w_counts w ! ?t = 0 \<Longrightarrow> ?t \<notin> ?A" using assms by (simp add: counts_ok_def)
  ultimately have "card ?B = (if w_counts w ! ?t = 0 then w_covered w + 1 else w_covered w)"
    using assms(1) by (simp add: counts_ok_def)
  then show ?thesis using assms by (auto simp: counts_ok_def nth_list_update c)
qed

lemma extend_inv:
  assumes ev: "sorted (map fst ev)" "\<forall>e \<in> set ev. snd e < n" "0 < n" "fin < length ev"
    and inv: "window_inv ev n fin w" and open_window: "\<not> covers ev n (w_start w) fin"
  shows "window_inv ev n (Suc fin) (extend_window ev n fin w) \<and> \<not> covers ev n (w_start (extend_window ev n fin w)) (Suc fin)"
proof -
  let ?w = "w\<lparr>w_counts := (w_counts w)[snd (ev ! fin) := w_counts w ! snd (ev ! fin) + 1],
    w_covered := (if w_counts w ! snd (ev ! fin) = 0 then w_covered w + 1 else w_covered w)\<rparr>"
  have t: "snd (ev ! fin) < n" using ev(2,4) by simp
  have "below ev ?w i k" if k: "covers ev n i k" "k \<le> Suc fin" "k < Suc fin \<or> i < w_start w" for i k
  proof (cases "i < w_start w")
    case True
    then have b: "covers ev n i fin" "below ev w i k" if "k \<le> fin"
      using inv k that unfolding window_inv_def by blast+
    show ?thesis
    proof (cases "k \<le> fin")
      case le: True
      then show ?thesis using b by (simp add: below_def)
    next
      case False
      then have "k = Suc fin" using k(2) by simp
      have c: "covers ev n i fin" using inv True unfolding window_inv_def by blast
      then have "below ev w i fin" using inv True unfolding window_inv_def by blast
      moreover have "wspan ev i fin \<le> wspan ev i (Suc fin)"
        using ev(1,4) sorted_nth_mono [of "map fst ev" "fin - 1" fin] by (simp add: wspan_def diff_le_mono)
      ultimately show ?thesis using \<open>k = Suc fin\<close> by (auto simp: below_def)
    qed
  next
    case False
    then have "k \<le> fin" using k by auto
    have "k < fin"
    proof (rule ccontr)
      assume "\<not> k < fin"
      then have "covers ev n i fin" using k(1) \<open>k \<le> fin\<close> by simp
      then show False using open_window False covers_mono [of ev n i fin "w_start w" fin] by simp
    qed
    then show ?thesis using inv k unfolding window_inv_def by (auto simp: below_def)
  qed
  moreover have "counts_ok ev n (Suc fin) ?w" using inv t unfolding window_inv_def by (intro extend_counts) simp_all
  moreover have "attained ev n (Suc fin) ?w" using inv unfolding window_inv_def attained_def by simp (meson le_SucI)
  moreover have "\<forall>i < w_start ?w. covers ev n i (Suc fin)"
    using inv covers_mono [of ev n _ fin _ "Suc fin"] unfolding window_inv_def by auto
  ultimately have "window_inv ev n (Suc fin) ?w" unfolding window_inv_def by auto
  from shrink_inv [OF ev this] show ?thesis by (simp add: extend_window_def Let_def)
qed

lemma slide_inv:
  assumes ev: "sorted (map fst ev)" "\<forall>e \<in> set ev. snd e < n" "0 < n" and m: "m \<le> length ev"
    and w0: "w0 = \<lparr>w_counts = replicate n 0, w_covered = 0, w_start = 0, w_smallest = None\<rparr>"
  shows "window_inv ev n m (fold (extend_window ev n) [0..<m] w0) \<and> \<not> covers ev n (w_start (fold (extend_window ev n) [0..<m] w0)) m"
  using m
proof (induction m)
  case 0
  have "\<not> covers ev n i 0" for i using ev(3) by (auto simp: covers_def cnt_def)
  then show ?case by (auto simp: window_inv_def counts_ok_def attained_def cnt_def w0)
next
  case (Suc m)
  then show ?case using extend_inv [OF ev, of m "fold (extend_window ev n) [0..<m] w0"] by simp
qed

section \<open>The closest choice of one occurrence per term\<close>

definition choice :: "nat list list \<Rightarrow> (nat \<Rightarrow> nat) \<Rightarrow> bool" where
  "choice sets c \<longleftrightarrow> (\<forall>t < length sets. c t \<in> set (sets ! t))"

definition spread :: "nat list list \<Rightarrow> (nat \<Rightarrow> nat) \<Rightarrow> nat" where
  "spread sets c = Max (c ` {..<length sets}) - Min (c ` {..<length sets})"

definition events_of :: "nat list list \<Rightarrow> (nat \<times> nat) list" where
  "events_of sets = sort_key fst (concat (map (\<lambda>(i, ps). map (\<lambda>p. (p, i)) ps) (enumerate 0 sets)))"

lemma set_events_of: "set (events_of sets) = {(p, t). t < length sets \<and> p \<in> set (sets ! t)}"
proof -
  have "set (enumerate 0 sets) = (\<lambda>t. (t, sets ! t)) ` {..<length sets}"
    by (auto simp: in_set_enumerate_eq image_iff)
  then show ?thesis by (auto simp: events_of_def)
qed

lemma sorted_events_of: "sorted (map fst (events_of sets))"
  by (simp add: events_of_def)

lemma diff_mono_nat: "(a :: nat) \<le> b \<Longrightarrow> d \<le> c \<Longrightarrow> a - c \<le> b - d"
  by arith

lemma window_choice:
  assumes "covers (events_of sets) (length sets) i k" "k \<le> length (events_of sets)" "sets \<noteq> []"
  shows "\<exists>c. choice sets c \<and> spread sets c \<le> wspan (events_of sets) i k"
proof -
  let ?ev = "events_of sets"
  have "\<forall>t. \<exists>m. t < length sets \<longrightarrow> i \<le> m \<and> m < k \<and> snd (?ev ! m) = t"
    using assms(1) unfolding covers_def cnt_pos by blast
  then obtain f where f: "\<And>t. t < length sets \<Longrightarrow> i \<le> f t \<and> f t < k \<and> snd (?ev ! f t) = t" by metis
  let ?c = "\<lambda>t. fst (?ev ! f t)"
  have "choice sets ?c"
    unfolding choice_def
  proof (intro allI impI)
    fix t assume t: "t < length sets"
    have "?ev ! f t \<in> set ?ev" using f [OF t] assms(2) by simp
    then show "?c t \<in> set (sets ! t)" using f [OF t] by (simp add: set_events_of split: prod.splits)
  qed
  moreover have "fst (?ev ! i) \<le> ?c t \<and> ?c t \<le> fst (?ev ! (k - 1))" if "t < length sets" for t
  proof -
    have "i \<le> f t" "f t \<le> k - 1" "k - 1 < length ?ev" "f t < length ?ev" using f [OF that] assms(2) by auto
    then show ?thesis
      using sorted_nth_mono [OF sorted_events_of [of sets], of i "f t"] sorted_nth_mono [OF sorted_events_of [of sets], of "f t" "k - 1"]
      by simp
  qed
  then have "Max (?c ` {..<length sets}) \<le> fst (?ev ! (k - 1))" "fst (?ev ! i) \<le> Min (?c ` {..<length sets})"
    using assms(3) by (auto intro!: Max.boundedI Min.boundedI)
  then have "spread sets ?c \<le> wspan ?ev i k" unfolding spread_def wspan_def by (rule diff_mono_nat)
  ultimately show ?thesis by blast
qed

lemma choice_window:
  assumes "choice sets c" "sets \<noteq> []"
  shows "\<exists>i k. covers (events_of sets) (length sets) i k \<and> k \<le> length (events_of sets) \<and> wspan (events_of sets) i k \<le> spread sets c"
proof -
  let ?ev = "events_of sets" and ?T = "{..<length sets}"
  have "\<exists>m. m < length ?ev \<and> ?ev ! m = (c t, t)" if "t < length sets" for t
  proof -
    have "(c t, t) \<in> set ?ev" using assms(1) that by (simp add: choice_def set_events_of)
    then show ?thesis by (auto simp: in_set_conv_nth)
  qed
  then obtain f where f: "\<And>t. t < length sets \<Longrightarrow> f t < length ?ev \<and> ?ev ! f t = (c t, t)" by metis
  have T: "finite (f ` ?T)" "f ` ?T \<noteq> {}" using assms(2) by auto
  let ?i = "Min (f ` ?T)" and ?k = "Suc (Max (f ` ?T))"
  have "covers ?ev (length sets) ?i ?k"
    unfolding covers_def cnt_pos
  proof (intro allI impI)
    fix t assume t: "t < length sets"
    then have "?i \<le> f t" "f t < ?k" using T(1) by (simp_all add: less_Suc_eq_le)
    then show "\<exists>m. ?i \<le> m \<and> m < ?k \<and> snd (?ev ! m) = t" using f [OF t] by auto
  qed
  moreover obtain t1 where t1: "t1 < length sets" "f t1 = ?i" using Min_in [OF T] by auto
  moreover obtain t2 where t2: "t2 < length sets" "f t2 = Max (f ` ?T)" using Max_in [OF T] by auto
  moreover have "wspan ?ev ?i ?k = c t2 - c t1" unfolding wspan_def using f [OF t1(1)] f [OF t2(1)] t1(2) t2(2) by simp
  moreover have "c t2 \<le> Max (c ` ?T)" "Min (c ` ?T) \<le> c t1" using t1 t2 by simp_all
  ultimately show ?thesis using f [OF t2(1)] unfolding spread_def
    by (intro exI [of _ ?i] exI [of _ ?k]) (simp add: Suc_le_eq diff_mono_nat)
qed

text \<open>
  C18: The proximity of a result is optimal.  The span the sliding window finds is attained by a choice of
  one occurrence per term, and no such choice lies closer together.
\<close>

theorem proximity_is_minimal:
  assumes "sets \<noteq> []" and "[] \<notin> set sets"
  shows "\<exists>d. smallest_span sets = Some d \<and> (\<exists>c. choice sets c \<and> spread sets c = d) \<and> (\<forall>c. choice sets c \<longrightarrow> d \<le> spread sets c)"
proof -
  let ?ev = "events_of sets" and ?n = "length sets"
  define w where "w = fold (extend_window ?ev ?n) [0..<length ?ev] \<lparr>w_counts = replicate ?n 0, w_covered = 0, w_start = 0, w_smallest = None\<rparr>"
  have n: "0 < ?n" using assms(1) by simp
  have "\<forall>e \<in> set ?ev. snd e < ?n" by (auto simp: set_events_of)
  from slide_inv [OF sorted_events_of this n order_refl refl]
  have w: "window_inv ?ev ?n (length ?ev) w" "\<not> covers ?ev ?n (w_start w) (length ?ev)" by (simp_all add: w_def)
  have done_all: "below ?ev w i k" if "covers ?ev ?n i k" "k \<le> length ?ev" for i k
  proof (cases "i < w_start w")
    case True
    then show ?thesis using w(1) that unfolding window_inv_def by blast
  next
    case False
    then have "k < length ?ev" using w(2) that covers_mono [of ?ev ?n i k "w_start w" "length ?ev"] by (cases "k = length ?ev") auto
    then show ?thesis using w(1) that unfolding window_inv_def by blast
  qed
  have "choice sets (\<lambda>t. hd (sets ! t))" using assms(2) unfolding choice_def by (metis list.set_sel(1) nth_mem)
  then obtain d where d: "w_smallest w = Some d"
    using choice_window [OF _ assms(1)] done_all unfolding below_def by blast
  then obtain i k where "covers ?ev ?n i k" "k \<le> length ?ev" "d = wspan ?ev i k"
    using w(1) unfolding window_inv_def attained_def by blast
  then obtain c where c: "choice sets c" "spread sets c \<le> d" using window_choice [OF _ _ assms(1)] by blast
  have least: "d \<le> spread sets c'" if "choice sets c'" for c'
    using choice_window [OF that assms(1)] done_all d unfolding below_def by fastforce
  have "smallest_span sets = Some d" using d by (simp add: smallest_span_def w_def events_of_def)
  moreover have "spread sets c = d" using c least by (simp add: le_antisym)
  ultimately show ?thesis using c(1) least by blast
qed

theorem proximity_is_minimal_witness: "\<exists>c. choice [[1, 10], [7, 20]] c \<and> smallest_span [[1, 10], [7, 20]] = Some (spread [[1, 10], [7, 20]] c)"
  using proximity_is_minimal [of "[[1, 10], [7, 20]]"] by auto

section \<open>The FTS5 expression\<close>











lemma fts_term_quote: "\<exists>cs. fts_term t = CHR 0x22 # cs"
  by (simp add: fts_term_def)



section \<open>Rescoring\<close>

text \<open>Terms are not empty, so the search for their occurrences ends.\<close>

lemma push_term_nonempty: "[] \<notin> set (q_terms s) \<Longrightarrow> [] \<notin> set (q_terms (push_term b s))"
  by (auto simp: push_term_def Let_def)

lemma scan_char_nonempty: "[] \<notin> set (q_terms s) \<Longrightarrow> [] \<notin> set (q_terms (scan_char c s))"
  using push_term_nonempty by (auto simp: scan_char_def Let_def)

lemma scan_query_nonempty: "[] \<notin> set (q_terms s) \<Longrightarrow> [] \<notin> set (q_terms (scan_query cs s))"
  by (induction cs s rule: scan_query.induct) (auto simp: push_term_nonempty scan_char_nonempty)

lemma parsed_terms_nonempty: "[] \<notin> set (parseSearchTerms query)"
  using scan_query_nonempty by (simp add: parseSearchTerms_def parseSearchQuery_def Let_def)

lemma occurrences_total: "pat \<noteq> [] \<Longrightarrow> \<exists>ps. occurrences_from src pat start = Some ps"
proof (induction src pat start rule: occurrences_from.induct)
  case (1 src pat start)
  then show ?case by (subst occurrences_from.simps) (auto split: option.splits)
qed

lemma those_total: "(\<And>x. x \<in> set xs \<Longrightarrow> \<exists>y. f x = Some y) \<Longrightarrow> \<exists>ys. those (map f xs) = Some ys \<and> length ys = length xs \<and> (\<forall>i < length xs. f (xs ! i) = Some (ys ! i))"
proof (induction xs)
  case (Cons x xs)
  then obtain ys y where "those (map f xs) = Some ys" "length ys = length xs" "\<forall>i < length xs. f (xs ! i) = Some (ys ! i)" "f x = Some y"
    by fastforce
  then show ?case by (intro exI [of _ "y # ys"]) (auto simp: nth_Cons split: nat.splits)
qed simp

lemma score_total: "\<exists>q. scoreSearchResult decay r query now = Some q"
proof -
  have "\<exists>ps. those (map (occurrences (js_lower (snippetText r))) (parseSearchTerms query)) = Some ps"
    using those_total [of "parseSearchTerms query" "occurrences (js_lower (snippetText r))"] parsed_terms_nonempty [of query]
      occurrences_total unfolding occurrences_def by metis
  then show ?thesis by (auto simp: scoreSearchResult_def Let_def)
qed

lemma sort_key_map: "sort_key (\<lambda>x. - fst x) (map (\<lambda>r. (f r, r)) xs) = map (\<lambda>r. (f r, r)) (sort_key (\<lambda>r. - f r) xs)"
  for f :: "'a \<Rightarrow> rat"
proof (induction xs)
  case (Cons x xs)
  have "insort_key (\<lambda>x. - fst x) (f y, y) (map (\<lambda>r. (f r, r)) ys) = map (\<lambda>r. (f r, r)) (insort_key (\<lambda>r. - f r) y ys)" for y ys
    by (induction ys) simp_all
  then show ?case using Cons by simp
qed simp

text \<open>
  Rescoring returns, loses nothing and is stable: the result holds the same results, ordered by falling
  score, and results of equal score keep their order.
\<close>

theorem rescore_stable:
  "\<exists>out. rescoreSearchResults decay results query = Some out \<and> mset out = mset results
     \<and> (let score = (\<lambda>r. the (scoreSearchResult decay r query (reference_time results)))
        in sorted_wrt (\<ge>) (map score out) \<and> (\<forall>q. filter (\<lambda>r. score r = q) out = filter (\<lambda>r. score r = q) results))"
proof -
  define score where "score = (\<lambda>r. the (scoreSearchResult decay r query (reference_time results)))"
  have "those (map (\<lambda>r. scoreSearchResult decay r query (reference_time results)) results) = Some (map score results)"
  proof -
    obtain ys where ys: "those (map (\<lambda>r. scoreSearchResult decay r query (reference_time results)) results) = Some ys"
      "length ys = length results" "\<forall>i < length results. scoreSearchResult decay (results ! i) query (reference_time results) = Some (ys ! i)"
      using those_total [of results "\<lambda>r. scoreSearchResult decay r query (reference_time results)"] score_total by blast
    have "ys = map score results" by (rule nth_equalityI) (use ys in \<open>auto simp: score_def\<close>)
    then show ?thesis using ys(1) by simp
  qed
  then have out: "rescoreSearchResults decay results query = Some (map snd (sort_key (\<lambda>x. - fst x) (zip (map score results) results)))"
    by (simp add: rescoreSearchResults_def)
  let ?zs = "zip (map score results) results"
  have z: "?zs = map (\<lambda>r. (score r, r)) results" by (simp add: zip_map1 zip_same_conv_map)
  have "sort_key (\<lambda>x. - fst x) (map (\<lambda>r. (score r, r)) results) = map (\<lambda>r. (score r, r)) (sort_key (\<lambda>r. - score r) results)"
    by (rule sort_key_map)
  then have eq: "map snd (sort_key (\<lambda>x. - fst x) ?zs) = sort_key (\<lambda>r. - score r) results" by (simp add: z o_def)
  have "sorted (map (\<lambda>r. - score r) (sort_key (\<lambda>r. - score r) results))" by simp
  then have "sorted_wrt (\<ge>) (map score (sort_key (\<lambda>r. - score r) results))" by (simp add: sorted_wrt_map)
  moreover have "filter (\<lambda>r. score r = q) (sort_key (\<lambda>r. - score r) results) = filter (\<lambda>r. score r = q) results" for q
    using sort_key_stable [of "\<lambda>r. - score r" "- q" results] by simp
  ultimately show ?thesis using out eq by (auto simp: score_def [symmetric] Let_def)
qed

section \<open>Matches in the source text\<close>

abbreviation lowered :: "(char \<Rightarrow> string) \<Rightarrow> string \<Rightarrow> nat" where
  "lowered low s \<equiv> length (lower_text low s)"

definition covering_range :: "(char \<Rightarrow> string) \<Rightarrow> string \<Rightarrow> nat \<Rightarrow> nat \<Rightarrow> nat \<times> nat \<Rightarrow> bool" where
  "covering_range low src idx fin r \<longleftrightarrow> fst r + snd r \<le> length src \<and> lowered low (take (fst r) src) \<le> idx
     \<and> idx < lowered low (take (Suc (fst r)) src) \<and> fin \<le> lowered low (take (fst r + snd r) src)"

lemma lower_text_append [simp]: "lower_text low (xs @ ys) = lower_text low xs @ lower_text low ys"
  by (simp add: lower_text_def)

lemma lower_text_single [simp]: "lower_text low [c] = low c" "lower_text low [] = []" "lower_text low (c # cs) = low c @ lower_text low cs"
  by (simp_all add: lower_text_def)

lemma source_range_covers:
  assumes "fin \<le> lowered low (pre @ cs)" "idx < fin"
    and "st = None \<Longrightarrow> lowered low pre \<le> idx" "lowered low pre < fin"
    and "\<And>s0. st = Some s0 \<Longrightarrow> s0 < length pre \<and> lowered low (take s0 pre) \<le> idx \<and> idx < lowered low (take (Suc s0) pre)"
  shows "\<exists>r. source_range low idx fin cs (length pre) (lowered low pre) st = Some r \<and> covering_range low (pre @ cs) idx fin r"
  using assms
proof (induction cs arbitrary: pre st)
  case Nil
  then show ?case by simp
next
  case (Cons c cs)
  let ?pre = "pre @ [c]"
  define st' where "st' = (if st = None \<and> idx < lowered low ?pre then Some (length pre) else st)"
  have st': "s0 < length ?pre \<and> lowered low (take s0 ?pre) \<le> idx \<and> idx < lowered low (take (Suc s0) ?pre)" if "st' = Some s0" for s0
  proof (cases "st = Some s0")
    case True
    then show ?thesis using Cons.prems(5) [of s0] by auto
  next
    case False
    then show ?thesis using that Cons.prems(3) by (auto simp: st'_def split: if_splits)
  qed
  have step: "source_range low idx fin (c # cs) (length pre) (lowered low pre) st
    = (case st' of Some s0 \<Rightarrow> if fin \<le> lowered low ?pre then Some (s0, Suc (length pre) - s0)
         else source_range low idx fin cs (length ?pre) (lowered low ?pre) st'
       | None \<Rightarrow> source_range low idx fin cs (length ?pre) (lowered low ?pre) st')"
    unfolding source_range.simps Let_def st'_def by (simp cong: option.case_cong)
  show ?case
  proof (cases "st' \<noteq> None \<and> fin \<le> lowered low ?pre")
    case True
    then obtain s0 where s0: "st' = Some s0" by auto
    then have "source_range low idx fin (c # cs) (length pre) (lowered low pre) st = Some (s0, Suc (length pre) - s0)"
      using True unfolding step by simp
    moreover have "covering_range low (pre @ c # cs) idx fin (s0, Suc (length pre) - s0)"
    proof -
      have "s0 \<le> length pre" using st' [OF s0] by simp
      then have "Suc s0 - length pre \<le> 1" by arith
      then have "take (Suc s0 - length pre) (c # cs) = take (Suc s0 - length pre) [c]"
        by (cases "Suc s0 - length pre") auto
      then show ?thesis using st' [OF s0] True by (auto simp: covering_range_def)
    qed
    ultimately show ?thesis by blast
  next
    case False
    have "st' = None \<Longrightarrow> lowered low ?pre \<le> idx" by (auto simp: st'_def split: if_splits)
    moreover have "lowered low ?pre < fin" using False calculation Cons.prems(2) by (cases st') auto
    ultimately have "\<exists>r. source_range low idx fin cs (length ?pre) (lowered low ?pre) st' = Some r \<and> covering_range low (?pre @ cs) idx fin r"
      using Cons.prems(1,2) st' by (intro Cons.IH) auto
    moreover have "source_range low idx fin (c # cs) (length pre) (lowered low pre) st = source_range low idx fin cs (length ?pre) (lowered low ?pre) st'"
      using False unfolding step by (auto split: option.splits)
    ultimately show ?thesis by simp
  qed
qed

lemma lowered_same_length:
  assumes "\<And>c. low c \<noteq> []" "lowered low src = length src"
  shows "lowered low (take k src) = length (take k src)"
proof -
  have ge: "length xs \<le> lowered low xs" for xs
    using assms(1) by (induction xs) (auto simp: Suc_le_eq add_strict_increasing2 le_less_trans)
  have "lowered low src = lowered low (take k src) + lowered low (drop k src)"
    by (metis append_take_drop_id length_append lower_text_append)
  moreover have "length src = length (take k src) + length (drop k src)" by simp
  ultimately show ?thesis using ge [of "take k src"] ge [of "drop k src"] assms(2) by linarith
qed

text \<open>
  A match found in the lower-cased text maps back to the source.  For any lower-casing of characters,
  also one that makes some of them longer, the returned range lies in the source text, its lower-casing
  covers the match, and it begins with the very character the match begins in.
\<close>

theorem match_range_covers:
  assumes "\<And>c. low c \<noteq> []" and "0 < len" and "idx + len \<le> lowered low src"
  shows "covering_range low src idx (idx + len) (sourceMatchRange low src (lower_text low src) idx len)"
proof (cases "lowered low src = length src")
  case True
  then show ?thesis using assms lowered_same_length [OF assms(1) True]
    by (simp add: sourceMatchRange_def covering_range_def min_def)
next
  case False
  have "\<exists>r. source_range low idx (idx + len) src (length []) (lowered low []) None = Some r \<and> covering_range low ([] @ src) idx (idx + len) r"
    using source_range_covers [of "idx + len" low "[]" src idx None] assms by simp
  then show ?thesis using False by (auto simp: sourceMatchRange_def)
qed

theorem match_range_covers_witness:
  "covering_range (\<lambda>c. if c = CHR ''B'' then ''bb'' else [c]) ''aBc'' 3 4
     (sourceMatchRange (\<lambda>c. if c = CHR ''B'' then ''bb'' else [c]) ''aBc'' (lower_text (\<lambda>c. if c = CHR ''B'' then ''bb'' else [c]) ''aBc'') 3 1)"
  using match_range_covers [of "\<lambda>c. if c = CHR ''B'' then ''bb'' else [c]" 1 3 "''aBc''"] by simp

end
