(* ===== verification/Session_Store.thy ===== *)
theory Session_Store
  imports Session_References "HOL-Library.Char_ord" "HOL-Library.List_Lexorder" "HOL-Library.Product_Lexorder"
begin

text \<open>
  The tables \<^verbatim>\<open>app_sessions\<close> and \<^verbatim>\<open>operations\<close> of \<^verbatim>\<open>server/persistence/appStore.mjs\<close> with
  the foreign keys of \<^verbatim>\<open>server/persistence/migrations.mjs\<close>: rows of the other tables disappear with
  the session that owns them, operations lose their owner.  An update returns the number of changed rows.
\<close>

section \<open>Tables\<close>

record app_session =
  as_id :: nat
  as_backend :: string
  as_session :: string
  as_path :: "string option"
  as_status :: string
  as_archived :: bool
  as_created :: string

record operation =
  op_id :: string
  op_owner :: "nat option"
  op_kind :: string
  op_status :: string
  op_stage :: string
  op_payload :: "string option"
  op_error :: "string option"
  op_created :: string
  op_updated :: string

text \<open>Rows of the tables checkpoints, routines, hublots, runners, pinned\_widget\_groups and pinned\_widgets.\<close>

record owned_row =
  ow_table :: string
  ow_id :: string
  ow_owner :: "nat option"

record session_db =
  db_sessions :: "app_session list"
  db_operations :: "operation list"
  db_owned :: "owned_row list"

section \<open>Sessions\<close>

definition same_identity :: "session_ref \<Rightarrow> app_session \<Rightarrow> bool" where
  "same_identity r s \<longleftrightarrow> as_backend s = sr_backend r \<and> as_session s = sr_id r \<and> as_path s = sr_path r"

definition find_session :: "session_ref \<Rightarrow> session_db \<Rightarrow> app_session option" where
  "find_session r db = List.find (same_identity r) (db_sessions db)"

text \<open>An \<^verbatim>\<open>INTEGER PRIMARY KEY\<close> is one above the largest.\<close>

definition next_session_id :: "session_db \<Rightarrow> nat" where
  "next_session_id db = Suc (foldl max 0 (map as_id (db_sessions db)))"

definition upsert_session :: "session_ref \<Rightarrow> string \<Rightarrow> session_db \<Rightarrow> app_session \<times> session_db" where
  "upsert_session r createdAt db =
     (case find_session r db of
        Some row \<Rightarrow> (row, db)
      | None \<Rightarrow>
          (let row = \<lparr>as_id = next_session_id db, as_backend = sr_backend r, as_session = sr_id r, as_path = sr_path r,
                      as_status = ''active'', as_archived = False, as_created = createdAt\<rparr>
           in (row, db\<lparr>db_sessions := db_sessions db @ [row]\<rparr>)))"

definition listBySessionId :: "string \<Rightarrow> session_db \<Rightarrow> app_session list" where
  "listBySessionId i db = sort_key as_id (filter (\<lambda>s. as_session s = i) (db_sessions db))"

definition update_session :: "nat \<Rightarrow> (app_session \<Rightarrow> app_session) \<Rightarrow> session_db \<Rightarrow> nat \<times> session_db" where
  "update_session i f db =
     (length (filter (\<lambda>s. as_id s = i) (db_sessions db)),
      db\<lparr>db_sessions := map (\<lambda>s. if as_id s = i then f s else s) (db_sessions db)\<rparr>)"

definition setArchived :: "nat \<Rightarrow> bool \<Rightarrow> session_db \<Rightarrow> nat \<times> session_db" where
  "setArchived i archived = update_session i (\<lambda>s. s\<lparr>as_archived := archived\<rparr>)"

definition markDeleting :: "nat \<Rightarrow> session_db \<Rightarrow> nat \<times> session_db" where
  "markDeleting i = update_session i (\<lambda>s. s\<lparr>as_status := ''deleting''\<rparr>)"

definition delete_session :: "nat \<Rightarrow> session_db \<Rightarrow> nat \<times> session_db" where
  "delete_session i db =
     (length (filter (\<lambda>s. as_id s = i) (db_sessions db)),
      db\<lparr>db_sessions := filter (\<lambda>s. as_id s \<noteq> i) (db_sessions db),
         db_operations := map (\<lambda>o'. if op_owner o' = Some i then o'\<lparr>op_owner := None\<rparr> else o') (db_operations db),
         db_owned := filter (\<lambda>w. ow_owner w \<noteq> Some i) (db_owned db)\<rparr>)"

text \<open>\<^verbatim>\<open>reidentify\<close>: a provisional identity becomes the native one, with everything it owns.\<close>

definition reidentify :: "session_ref \<Rightarrow> session_ref \<Rightarrow> session_db \<Rightarrow> session_db" where
  "reidentify previous next db =
     (case find_session previous db of
        None \<Rightarrow> db
      | Some owner \<Rightarrow>
          (case find_session next db of
             Some target \<Rightarrow>
               if as_id target \<noteq> as_id owner
               then snd (delete_session (as_id owner)
                      (db\<lparr>db_operations := map (\<lambda>o'. if op_owner o' = Some (as_id owner) then o'\<lparr>op_owner := Some (as_id target)\<rparr> else o') (db_operations db),
                          db_owned := map (\<lambda>w. if ow_owner w = Some (as_id owner) then w\<lparr>ow_owner := Some (as_id target)\<rparr> else w) (db_owned db)\<rparr>))
               else snd (update_session (as_id owner) (\<lambda>s. s\<lparr>as_backend := sr_backend next, as_session := sr_id next, as_path := sr_path next\<rparr>) db)
           | None \<Rightarrow> snd (update_session (as_id owner) (\<lambda>s. s\<lparr>as_backend := sr_backend next, as_session := sr_id next, as_path := sr_path next\<rparr>) db)))"

section \<open>Operations\<close>

text \<open>\<^term>\<open>None\<close> where the primary key is taken.\<close>

definition create_operation :: "operation \<Rightarrow> session_db \<Rightarrow> session_db option" where
  "create_operation row db =
     (if op_id row \<in> set (map op_id (db_operations db)) then None
      else Some (db\<lparr>db_operations := db_operations db @ [row]\<rparr>))"

definition find_operation :: "string \<Rightarrow> session_db \<Rightarrow> operation option" where
  "find_operation i db = List.find (\<lambda>o'. op_id o' = i) (db_operations db)"

definition change_operation :: "string \<Rightarrow> (operation \<Rightarrow> operation) \<Rightarrow> session_db \<Rightarrow> nat \<times> session_db" where
  "change_operation i f db =
     (length (filter (\<lambda>o'. op_id o' = i) (db_operations db)),
      db\<lparr>db_operations := map (\<lambda>o'. if op_id o' = i then f o' else o') (db_operations db)\<rparr>)"

definition update_operation :: "string \<Rightarrow> string \<Rightarrow> string \<Rightarrow> string option \<Rightarrow> string \<Rightarrow> session_db \<Rightarrow> nat \<times> session_db" where
  "update_operation i status stage err updatedAt =
     change_operation i (\<lambda>o'. o'\<lparr>op_status := status, op_stage := stage, op_error := err, op_updated := updatedAt\<rparr>)"

definition updateWithPayload :: "string \<Rightarrow> string \<Rightarrow> string \<Rightarrow> string \<Rightarrow> string option \<Rightarrow> string \<Rightarrow> session_db \<Rightarrow> nat \<times> session_db" where
  "updateWithPayload i status stage payload err updatedAt =
     change_operation i (\<lambda>o'. o'\<lparr>op_status := status, op_stage := stage, op_payload := Some payload, op_error := err, op_updated := updatedAt\<rparr>)"

definition listIncomplete :: "session_db \<Rightarrow> operation list" where
  "listIncomplete db =
     sort_key (\<lambda>o'. (op_created o', op_id o')) (filter (\<lambda>o'. op_status o' \<notin> {''completed'', ''cancelled''}) (db_operations db))"

definition markRunningInterrupted :: "string \<Rightarrow> session_db \<Rightarrow> session_db" where
  "markRunningInterrupted updatedAt db =
     db\<lparr>db_operations := map (\<lambda>o'. if op_status o' = ''running''
          then o'\<lparr>op_status := ''interrupted'', op_updated := updatedAt,
                  op_error := (case op_error o' of None \<Rightarrow> Some ''server restarted during operation'' | e \<Rightarrow> e)\<rparr>
          else o') (db_operations db)\<rparr>"

text \<open>\<^verbatim>\<open>transaction\<close>: an error rolls everything back.\<close>

definition transaction :: "(session_db \<Rightarrow> string + 'a \<times> session_db) \<Rightarrow> session_db \<Rightarrow> (string + 'a) \<times> session_db" where
  "transaction work db = (case work db of Inl e \<Rightarrow> (Inl e, db) | Inr (x, db') \<Rightarrow> (Inr x, db'))"

section \<open>What the unique indexes keep\<close>

definition identity :: "app_session \<Rightarrow> string \<times> string \<times> string option" where
  "identity s = (as_backend s, as_session s, as_path s)"

definition session_db_ok :: "session_db \<Rightarrow> bool" where
  "session_db_ok db \<longleftrightarrow> distinct (map as_id (db_sessions db)) \<and> distinct (map identity (db_sessions db))
     \<and> distinct (map op_id (db_operations db)) \<and> (\<forall>s \<in> set (db_sessions db). 1 \<le> as_id s)"

lemma same_identity_iff: "same_identity r s \<longleftrightarrow> identity s = (sr_backend r, sr_id r, sr_path r)"
  by (simp add: same_identity_def identity_def)

lemma find_session_SomeD: "find_session r db = Some s \<Longrightarrow> s \<in> set (db_sessions db) \<and> identity s = (sr_backend r, sr_id r, sr_path r)"
  by (auto simp: find_session_def find_Some_iff same_identity_iff)

lemma find_session_None: "find_session r db = None \<longleftrightarrow> (sr_backend r, sr_id r, sr_path r) \<notin> identity ` set (db_sessions db)"
  unfolding find_session_def find_None_iff same_identity_iff by (metis (no_types, lifting) imageE image_eqI)

lemma find_session_mem:
  "session_db_ok db \<Longrightarrow> s \<in> set (db_sessions db) \<Longrightarrow> identity s = (sr_backend r, sr_id r, sr_path r) \<Longrightarrow> find_session r db = Some s"
proof (cases "find_session r db")
  case (Some t)
  assume a: "session_db_ok db" "s \<in> set (db_sessions db)" "identity s = (sr_backend r, sr_id r, sr_path r)"
  then have "t = s" using find_session_SomeD [OF Some] by (auto simp: session_db_ok_def distinct_map inj_on_def)
  then show ?thesis using Some by simp
next
  case None
  assume "s \<in> set (db_sessions db)" "identity s = (sr_backend r, sr_id r, sr_path r)"
  then show ?thesis using None by (metis find_session_None image_eqI)
qed

lemma next_session_id_fresh: "s \<in> set (db_sessions db) \<Longrightarrow> as_id s < next_session_id db"
proof -
  have "a \<le> foldl max a xs" for a and xs :: "nat list" by (induction xs arbitrary: a) (auto intro: le_trans [OF max.cobounded1])
  then have "x \<in> set xs \<Longrightarrow> x \<le> foldl max a xs" for x a and xs :: "nat list"
    by (induction xs arbitrary: a) (auto intro: le_trans [OF max.cobounded2])
  then show "s \<in> set (db_sessions db) \<Longrightarrow> as_id s < next_session_id db" by (simp add: next_session_id_def less_Suc_eq_le)
qed

lemma upsert_ok [inv_rules]: "session_db_ok db \<Longrightarrow> session_db_ok (snd (upsert_session r createdAt db))"
proof (cases "find_session r db")
  case None
  assume ok: "session_db_ok db"
  have "next_session_id db \<notin> as_id ` set (db_sessions db)" using next_session_id_fresh by fastforce
  moreover have "(sr_backend r, sr_id r, sr_path r) \<notin> identity ` set (db_sessions db)" using None by (simp add: find_session_None)
  ultimately show ?thesis using ok None by (simp add: upsert_session_def session_db_ok_def Let_def next_session_id_def identity_def [of "\<lparr>as_id = _, as_backend = _, as_session = _, as_path = _, as_status = _, as_archived = _, as_created = _\<rparr>"])
qed (simp add: upsert_session_def)

lemma upsert_find: "session_db_ok db \<Longrightarrow> find_session r (snd (upsert_session r createdAt db)) = Some (fst (upsert_session r createdAt db))"
proof (cases "find_session r db")
  case None
  assume "session_db_ok db"
  then show ?thesis using None
    by (intro find_session_mem upsert_ok) (auto simp: upsert_session_def Let_def identity_def)
qed (simp add: upsert_session_def)

lemma update_session_ok [inv_rules]:
  "session_db_ok db \<Longrightarrow> (\<And>s. as_id (f s) = as_id s) \<Longrightarrow> (\<And>s. identity (f s) = identity s) \<Longrightarrow> session_db_ok (snd (update_session i f db))"
  by (auto simp: session_db_ok_def update_session_def o_def if_distrib cong: if_cong)

lemma delete_session_ok [inv_rules]: "session_db_ok db \<Longrightarrow> session_db_ok (snd (delete_session i db))"
  by (simp add: session_db_ok_def delete_session_def distinct_map_filter o_def if_distrib cong: if_cong)

lemma change_operation_ok [inv_rules]: "session_db_ok db \<Longrightarrow> (\<And>o'. op_id (f o') = op_id o') \<Longrightarrow> session_db_ok (snd (change_operation i f db))"
  by (simp add: session_db_ok_def change_operation_def o_def if_distrib cong: if_cong)

lemma create_operation_ok [inv_rules]: "session_db_ok db \<Longrightarrow> create_operation row db = Some db' \<Longrightarrow> session_db_ok db'"
  by (auto simp: session_db_ok_def create_operation_def split: if_splits)

end
