(* ===== verification/Session_Deletion.thy ===== *)
theory Session_Deletion
  imports Session_Store
begin

text \<open>
  \<^verbatim>\<open>server/persistence/sessionDeletion.mjs\<close> and
  \<^verbatim>\<open>server/persistence/sessionDeletionReconciler.mjs\<close>: the deletion of a session as a journaled
  sequence of effects, and its completion after a stop of the server.  The \<^verbatim>\<open>await\<close>s of the workflow
  are a list of steps, so the state after any prefix of it is a state the server can stop in.  The effects
  (processes, tunnels, files) are a function on a world \<open>'w\<close> that may fail half-way; clocks give one
  non-blank time.
\<close>

section \<open>The workflow\<close>

datatype callback = StopRunners | CloseHublots | StopRoutines | DeleteRoutines | DeleteAgentSession | RemoveRuntime | Broadcast

type_synonym 'w effects = "callback \<Rightarrow> session_ref \<Rightarrow> 'w \<Rightarrow> string option \<times> 'w"

record 'w deletion =
  dl_db :: session_db
  dl_world :: 'w
  dl_stage :: string
  dl_calls :: "callback list"

datatype deletion_step = Call callback | Journal string | DropOwner | Complete

definition deletion_steps :: "deletion_step list" where
  "deletion_steps =
     [Call StopRunners, Journal ''runners_stopped'', Call StopRoutines, Journal ''routines_stopped'',
      Call DeleteAgentSession, Journal ''agent_deleted'', Call CloseHublots, Journal ''hublots_closed'',
      Call DeleteRoutines, Journal ''routines_deleted'', DropOwner, Call RemoveRuntime, Journal ''runtime_removed'',
      Call Broadcast, Complete]"

text \<open>\<^verbatim>\<open>requireSingleUpdate\<close>, and the closure \<^verbatim>\<open>update\<close>.\<close>

definition requireSingleUpdate :: "nat \<times> session_db \<Rightarrow> string \<Rightarrow> string + session_db" where
  "requireSingleUpdate r context = (if fst r \<noteq> 1 then Inl context else Inr (snd r))"

definition operation_gone :: "string \<Rightarrow> string" where
  "operation_gone i = ''session deletion operation '' @ i @ '' no longer exists''"

definition owner_gone :: "nat \<Rightarrow> string" where
  "owner_gone i = ''session owner '' @ nat_text i @ '' no longer exists''"

definition journal :: "string \<Rightarrow> string \<Rightarrow> string \<Rightarrow> string \<Rightarrow> string option \<Rightarrow> 'w deletion \<Rightarrow> string option \<times> 'w deletion" where
  "journal now i status nextStage err d =
     (case requireSingleUpdate (update_operation i status nextStage err now (dl_db d)) (operation_gone i) of
        Inl e \<Rightarrow> (Some e, d)
      | Inr db \<Rightarrow> (None, d\<lparr>dl_db := db, dl_stage := nextStage\<rparr>))"

definition drop_owner :: "string \<Rightarrow> string \<Rightarrow> nat \<Rightarrow> session_db \<Rightarrow> string + unit \<times> session_db" where
  "drop_owner now i owner db =
     (case requireSingleUpdate (delete_session owner db) (owner_gone owner) of
        Inl e \<Rightarrow> Inl e
      | Inr db1 \<Rightarrow>
          (case requireSingleUpdate (update_operation i ''running'' ''app_resources_deleted'' None now db1) (operation_gone i) of
             Inl e \<Rightarrow> Inl e
           | Inr db2 \<Rightarrow> Inr ((), db2)))"

fun do_step :: "'w effects \<Rightarrow> string \<Rightarrow> string \<Rightarrow> nat \<Rightarrow> session_ref \<Rightarrow> deletion_step \<Rightarrow> 'w deletion \<Rightarrow> string option \<times> 'w deletion" where
  "do_step effect now i owner reference (Call c) d =
     (let (err, w) = effect c reference (dl_world d) in (err, d\<lparr>dl_world := w, dl_calls := dl_calls d @ [c]\<rparr>))"
| "do_step effect now i owner reference (Journal stage) d = journal now i ''running'' stage None d"
| "do_step effect now i owner reference DropOwner d =
     (case transaction (drop_owner now i owner) (dl_db d) of
        (Inl e, db) \<Rightarrow> (Some e, d\<lparr>dl_db := db\<rparr>)
      | (Inr _, db) \<Rightarrow> (None, d\<lparr>dl_db := db, dl_stage := ''app_resources_deleted''\<rparr>))"
| "do_step effect now i owner reference Complete d = journal now i ''completed'' ''completed'' None d"

fun run_steps :: "'w effects \<Rightarrow> string \<Rightarrow> string \<Rightarrow> nat \<Rightarrow> session_ref \<Rightarrow> deletion_step list \<Rightarrow> 'w deletion \<Rightarrow> string option \<times> 'w deletion" where
  "run_steps effect now i owner reference [] d = (None, d)"
| "run_steps effect now i owner reference (x # xs) d =
     (case do_step effect now i owner reference x d of
        (None, d') \<Rightarrow> run_steps effect now i owner reference xs d'
      | (Some e, d') \<Rightarrow> (Some e, d'))"

definition deletion_payload :: "session_ref \<Rightarrow> json" where
  "deletion_payload r = JObj [(''backend'', JStr (sr_backend r)), (''sessionId'', JStr (sr_id r)), (''storagePath'', path_json (sr_path r))]"

definition requireReference :: "session_ref \<Rightarrow> string option" where
  "requireReference r =
     (if js_trim (sr_backend r) = [] then Some ''session reference backend must be a non-empty string''
      else if js_trim (sr_id r) = [] then Some ''session reference id must be a non-empty string''
      else case sr_path r of
             Some p \<Rightarrow> if js_trim p = [] then Some ''session reference storagePath must be a non-empty string'' else None
           | None \<Rightarrow> Some ''session reference storagePath must be a non-empty string'')"

text \<open>Up to the first effect: the owner, the operation and the mark, the last two in one transaction.\<close>

definition begin_deletion :: "string \<Rightarrow> string \<Rightarrow> nat \<Rightarrow> session_ref \<Rightarrow> session_db \<Rightarrow> string + unit \<times> session_db" where
  "begin_deletion now i owner reference db =
     (case create_operation \<lparr>op_id = i, op_owner = Some owner, op_kind = ''delete_session'', op_status = ''running'',
             op_stage = ''persisted'', op_payload = Some (json_text (deletion_payload reference)), op_error = None,
             op_created = now, op_updated = now\<rparr> db of
        None \<Rightarrow> Inl ''UNIQUE constraint failed: operations.id''
      | Some db1 \<Rightarrow>
          (case requireSingleUpdate (markDeleting owner db1) (owner_gone owner) of
             Inl e \<Rightarrow> Inl e
           | Inr db2 \<Rightarrow> Inr ((), db2)))"

definition start_deletion :: "string \<Rightarrow> string \<Rightarrow> session_ref \<Rightarrow> session_db \<Rightarrow> (string + nat) \<times> session_db" where
  "start_deletion now i reference db =
     (case requireReference reference of
        Some e \<Rightarrow> (Inl e, db)
      | None \<Rightarrow>
          (let (owner, db1) = upsert_session reference now db in
           case transaction (begin_deletion now i (as_id owner) reference) db1 of
             (Inl e, db2) \<Rightarrow> (Inl e, db2)
           | (Inr _, db2) \<Rightarrow> (Inr (as_id owner), db2)))"

definition deleteOwnedSession :: "'w effects \<Rightarrow> string \<Rightarrow> string \<Rightarrow> session_ref \<Rightarrow> session_db \<Rightarrow> 'w \<Rightarrow> (string + string) \<times> 'w deletion" where
  "deleteOwnedSession effect now i reference db w =
     (case start_deletion now i reference db of
        (Inl e, db1) \<Rightarrow> (Inl e, \<lparr>dl_db = db1, dl_world = w, dl_stage = [], dl_calls = []\<rparr>)
      | (Inr owner, db1) \<Rightarrow>
          (case run_steps effect now i owner reference deletion_steps \<lparr>dl_db = db1, dl_world = w, dl_stage = ''persisted'', dl_calls = []\<rparr> of
             (None, d) \<Rightarrow> (Inr i, d)
           | (Some e, d) \<Rightarrow> (Inl e, snd (journal now i ''failed'' (dl_stage d) (Some e) d))))"

section \<open>The reconciliation\<close>

definition requireMatchingOwner :: "operation \<Rightarrow> app_session option \<Rightarrow> string option" where
  "requireMatchingOwner o' owner =
     (case op_owner o' of
        None \<Rightarrow> None
      | Some i \<Rightarrow>
          if i < 1 then Some (''session deletion operation '' @ op_id o' @ '' has an invalid owner'')
          else if map_option as_id owner \<noteq> Some i
          then Some (''session deletion operation '' @ op_id o' @ '' owner does not match its session reference'')
          else None)"

definition payload_reference :: "codec \<Rightarrow> operation \<Rightarrow> string + session_ref" where
  "payload_reference cd o' =
     (case (case op_payload o' of None \<Rightarrow> Some JNull | Some t \<Rightarrow> json_parse t) of
        None \<Rightarrow> Inl ''SyntaxError''
      | Some payload \<Rightarrow>
          (let pick = (\<lambda>k. case js_get payload k of None \<Rightarrow> [] | Some v \<Rightarrow> [v]);
               flds = map (Pair ''backend'') (pick ''backend'') @ map (Pair ''id'') (pick ''sessionId'')
                      @ map (Pair ''storagePath'') (pick ''storagePath'')
           in case validate cd (Some (JObj flds)) of
                Inl _ \<Rightarrow> Inl ''invalid session reference''
              | Inr r \<Rightarrow> Inr r))"

text \<open>
  \<open>catalog_backend\<close>, \<open>deletable\<close> and \<open>exists\<close> are the catalog of agent sessions: its backend, whether a backend
  can delete, and whether a session with an id is in it.
\<close>

definition finish_reconciled :: "string \<Rightarrow> operation \<Rightarrow> session_ref \<Rightarrow> session_db \<Rightarrow> string + unit \<times> session_db" where
  "finish_reconciled now o' reference db =
     (let owner = find_session reference db in
      case requireMatchingOwner o' owner of
        Some e \<Rightarrow> Inl e
      | None \<Rightarrow>
          (case (case owner of None \<Rightarrow> Inr db | Some s \<Rightarrow> requireSingleUpdate (delete_session (as_id s) db) (owner_gone (as_id s))) of
             Inl e \<Rightarrow> Inl e
           | Inr db1 \<Rightarrow>
               (case requireSingleUpdate (update_operation (op_id o') ''completed'' ''completed'' None now db1) (operation_gone (op_id o')) of
                  Inl e \<Rightarrow> Inl e
                | Inr db2 \<Rightarrow> Inr ((), db2))))"

fun run_effects :: "'w effects \<Rightarrow> session_ref \<Rightarrow> callback list \<Rightarrow> 'w \<Rightarrow> string option \<times> 'w" where
  "run_effects effect reference [] w = (None, w)"
| "run_effects effect reference (c # cs) w =
     (case effect c reference w of (None, w') \<Rightarrow> run_effects effect reference cs w' | (Some e, w') \<Rightarrow> (Some e, w'))"

definition reconcile_operation ::
  "'w effects \<Rightarrow> codec \<Rightarrow> string \<Rightarrow> (string \<Rightarrow> bool) \<Rightarrow> ('w \<Rightarrow> string \<Rightarrow> bool) \<Rightarrow> string \<Rightarrow> operation \<Rightarrow> session_db \<times> 'w
   \<Rightarrow> string option \<times> session_db \<times> 'w" where
  "reconcile_operation effect cd catalog_backend deletable exists now o' s =
     (if js_trim (op_id o') = [] then (Some ''session deletion operation id must be a non-empty string'', s)
      else if js_trim (op_stage o') = [] then (Some ''session deletion operation stage must be a non-empty string'', s)
      else case payload_reference cd o' of
        Inl e \<Rightarrow> (Some e, s)
      | Inr reference \<Rightarrow>
          if sr_backend reference \<noteq> catalog_backend then (Some ''operation backend does not match configured catalog'', s)
          else (case requireMatchingOwner o' (find_session reference (fst s)) of
            Some e \<Rightarrow> (Some e, s)
          | None \<Rightarrow>
              if exists (snd s) (sr_id reference) \<and> \<not> deletable (sr_backend reference)
              then (Some ''session deletion is unavailable during reconciliation'', s)
              else (case run_effects effect reference
                      ((if exists (snd s) (sr_id reference) then [DeleteAgentSession] else []) @ [CloseHublots, DeleteRoutines]) (snd s) of
                      (Some e, w) \<Rightarrow> (Some e, (fst s, w))
                    | (None, w) \<Rightarrow>
                        (case transaction (finish_reconciled now o' reference) (fst s) of
                           (Inl e, db) \<Rightarrow> (Some e, (db, w))
                         | (Inr _, db) \<Rightarrow> (None, (db, w))))))"

text \<open>The report of one operation, or \<^term>\<open>Inl\<close> when even the failure could not be journaled.\<close>

definition reconcile_one ::
  "'w effects \<Rightarrow> codec \<Rightarrow> string \<Rightarrow> (string \<Rightarrow> bool) \<Rightarrow> ('w \<Rightarrow> string \<Rightarrow> bool) \<Rightarrow> string \<Rightarrow> operation \<Rightarrow> session_db \<times> 'w
   \<Rightarrow> (string + string \<times> string option) \<times> session_db \<times> 'w" where
  "reconcile_one effect cd catalog_backend deletable exists now o' s =
     (case reconcile_operation effect cd catalog_backend deletable exists now o' s of
        (None, s') \<Rightarrow> (Inr (op_id o', None), s')
      | (Some e, (db, w)) \<Rightarrow>
          (case requireSingleUpdate (update_operation (op_id o') ''failed'' (op_stage o') (Some e) now db) (operation_gone (op_id o')) of
             Inl e' \<Rightarrow> (Inl e', (db, w))
           | Inr db' \<Rightarrow> (Inr (op_id o', Some e), (db', w))))"

fun reconcile_all ::
  "'w effects \<Rightarrow> codec \<Rightarrow> string \<Rightarrow> (string \<Rightarrow> bool) \<Rightarrow> ('w \<Rightarrow> string \<Rightarrow> bool) \<Rightarrow> string \<Rightarrow> operation list \<Rightarrow> session_db \<times> 'w
   \<Rightarrow> (string + (string \<times> string option) list) \<times> session_db \<times> 'w" where
  "reconcile_all effect cd b del ex now [] s = (Inr [], s)"
| "reconcile_all effect cd b del ex now (o' # os) s =
     (case reconcile_one effect cd b del ex now o' s of
        (Inl e, s') \<Rightarrow> (Inl e, s')
      | (Inr r, s') \<Rightarrow>
          (case reconcile_all effect cd b del ex now os s' of
             (Inl e, s'') \<Rightarrow> (Inl e, s'')
           | (Inr rs, s'') \<Rightarrow> (Inr (r # rs), s'')))"

definition reconcileSessionDeletions ::
  "'w effects \<Rightarrow> codec \<Rightarrow> string \<Rightarrow> (string \<Rightarrow> bool) \<Rightarrow> ('w \<Rightarrow> string \<Rightarrow> bool) \<Rightarrow> string \<Rightarrow> session_db \<times> 'w
   \<Rightarrow> (string + (string \<times> string option) list) \<times> session_db \<times> 'w" where
  "reconcileSessionDeletions effect cd catalog_backend deletable exists now s =
     reconcile_all effect cd catalog_backend deletable exists now
       (filter (\<lambda>o'. op_kind o' = ''delete_session'') (listIncomplete (fst s))) s"

end
