(* ===== verification/Deletion_Invariant.thy ===== *)
theory Deletion_Invariant
  imports Session_Deletion
begin

text \<open>
  What every step of a session deletion keeps of the session tables, and what the reconciliation does with
  such tables.
\<close>

section \<open>The operation of a deletion\<close>

text \<open>
  Either the owner is still there, with the identity of the deleted session, or it is gone and the operation
  has lost it.
\<close>

definition deletion_row :: "string \<Rightarrow> nat \<Rightarrow> session_ref \<Rightarrow> session_db \<Rightarrow> operation \<Rightarrow> bool" where
  "deletion_row i owner r db o' \<longleftrightarrow> op_id o' = i \<and> op_kind o' = ''delete_session'' \<and> js_trim (op_stage o') \<noteq> []
     \<and> op_payload o' = Some (json_text (deletion_payload r))
     \<and> ((op_owner o' = Some owner \<and> (\<exists>s \<in> set (db_sessions db). as_id s = owner \<and> identity s = (sr_backend r, sr_id r, sr_path r)))
        \<or> (op_owner o' = None \<and> find_session r db = None))"

definition deletion_inv :: "string \<Rightarrow> nat \<Rightarrow> session_ref \<Rightarrow> session_db \<Rightarrow> bool" where
  "deletion_inv i owner r db \<longleftrightarrow> session_db_ok db \<and> (\<exists>o' \<in> set (db_operations db). deletion_row i owner r db o')"

lemma op_unique: "session_db_ok db \<Longrightarrow> o1 \<in> set (db_operations db) \<Longrightarrow> o2 \<in> set (db_operations db) \<Longrightarrow> op_id o1 = op_id o2 \<Longrightarrow> o1 = o2"
  by (auto simp: session_db_ok_def distinct_map inj_on_def)

lemma changes_one: "session_db_ok db \<Longrightarrow> o' \<in> set (db_operations db) \<Longrightarrow> length (filter (\<lambda>x. op_id x = op_id o') (db_operations db)) = 1"
proof -
  assume ok: "session_db_ok db" and o: "o' \<in> set (db_operations db)"
  have "set (filter (\<lambda>x. op_id x = op_id o') (db_operations db)) = {o'}" using o op_unique [OF ok] by auto
  moreover have "distinct (filter (\<lambda>x. op_id x = op_id o') (db_operations db))"
    using ok by (simp add: session_db_ok_def distinct_map)
  ultimately show ?thesis by (metis card.empty card_insert_disjoint distinct_card empty_iff finite.emptyI One_nat_def)
qed

lemma sessions_one: "session_db_ok db \<Longrightarrow> s \<in> set (db_sessions db) \<Longrightarrow> length (filter (\<lambda>x. as_id x = as_id s) (db_sessions db)) = 1"
proof -
  assume ok: "session_db_ok db" and s: "s \<in> set (db_sessions db)"
  have "set (filter (\<lambda>x. as_id x = as_id s) (db_sessions db)) = {s}"
    using ok s by (auto simp: session_db_ok_def distinct_map inj_on_def)
  moreover have "distinct (filter (\<lambda>x. as_id x = as_id s) (db_sessions db))" using ok by (simp add: session_db_ok_def distinct_map)
  ultimately show ?thesis by (metis card.empty card_insert_disjoint distinct_card empty_iff finite.emptyI One_nat_def)
qed

lemma db_sessions_change [simp]: "db_sessions (snd (change_operation i f db)) = db_sessions db"
  by (simp add: change_operation_def)

lemma find_session_change [simp]: "find_session r (snd (change_operation i f db)) = find_session r db"
  by (simp add: find_session_def)

lemma changed_row: "o' \<in> set (db_operations db) \<Longrightarrow> op_id o' = i \<Longrightarrow> f o' \<in> set (db_operations (snd (change_operation i f db)))"
  unfolding change_operation_def by (auto intro!: image_eqI [of _ _ o'])

lemma inv_update_operation:
  assumes inv: "deletion_inv i owner r db" and stage: "js_trim stage \<noteq> []"
  shows "deletion_inv i owner r (snd (update_operation i status stage err now db))" "fst (update_operation i status stage err now db) = 1"
proof -
  let ?f = "\<lambda>o'. o'\<lparr>op_status := status, op_stage := stage, op_error := err, op_updated := now\<rparr>"
  obtain o' where o: "o' \<in> set (db_operations db)" "deletion_row i owner r db o'" and ok: "session_db_ok db"
    using inv unfolding deletion_inv_def by blast
  then have i: "op_id o' = i" by (simp add: deletion_row_def)
  show "fst (update_operation i status stage err now db) = 1"
    using changes_one [OF ok o(1)] by (simp add: update_operation_def change_operation_def i)
  have "session_db_ok (snd (update_operation i status stage err now db))"
    unfolding update_operation_def by (rule change_operation_ok [OF ok]) simp
  moreover have "?f o' \<in> set (db_operations (snd (update_operation i status stage err now db)))"
    unfolding update_operation_def using o(1) i by (rule changed_row)
  moreover have "deletion_row i owner r (snd (update_operation i status stage err now db)) (?f o')"
    using o(2) stage unfolding update_operation_def by (simp add: deletion_row_def)
  ultimately show "deletion_inv i owner r (snd (update_operation i status stage err now db))" unfolding deletion_inv_def by blast
qed

lemma find_session_delete:
  "session_db_ok db \<Longrightarrow> s \<in> set (db_sessions db) \<Longrightarrow> identity s = (sr_backend r, sr_id r, sr_path r)
   \<Longrightarrow> find_session r (snd (delete_session (as_id s) db)) = None"
  by (auto simp: find_session_None delete_session_def session_db_ok_def distinct_map inj_on_def)

lemma inv_delete_owner:
  assumes inv: "deletion_inv i owner r db" and owner: "s \<in> set (db_sessions db)" "as_id s = owner" "identity s = (sr_backend r, sr_id r, sr_path r)"
  shows "deletion_inv i owner r (snd (delete_session owner db))" "fst (delete_session owner db) = 1"
proof -
  obtain o' where o: "o' \<in> set (db_operations db)" "deletion_row i owner r db o'" and ok: "session_db_ok db"
    using inv unfolding deletion_inv_def by blast
  let ?o = "if op_owner o' = Some owner then o'\<lparr>op_owner := None\<rparr> else o'"
  show "fst (delete_session owner db) = 1" using sessions_one [OF ok owner(1)] owner(2) by (simp add: delete_session_def)
  have "?o \<in> set (db_operations (snd (delete_session owner db)))" using o(1) by (auto simp: delete_session_def)
  moreover have "deletion_row i owner r (snd (delete_session owner db)) ?o"
    using o(2) find_session_delete [OF ok owner(1,3)] owner(2) by (auto simp: deletion_row_def)
  ultimately show "deletion_inv i owner r (snd (delete_session owner db))"
    using delete_session_ok [OF ok] unfolding deletion_inv_def by blast
qed

text \<open>Every step of the workflow keeps it, whether the step succeeds or fails.\<close>

definition stages_ok :: "deletion_step list \<Rightarrow> bool" where
  "stages_ok xs \<longleftrightarrow> (\<forall>stage. Journal stage \<in> set xs \<longrightarrow> js_trim stage \<noteq> [])"

lemma inv_journal: "deletion_inv i owner r (dl_db d) \<Longrightarrow> js_trim stage \<noteq> [] \<Longrightarrow> deletion_inv i owner r (dl_db (snd (journal now i status stage err d)))"
  using inv_update_operation [of i owner r "dl_db d" stage status err now] by (simp add: journal_def requireSingleUpdate_def)

lemma inv_drop_owner: "deletion_inv i owner r db \<Longrightarrow> deletion_inv i owner r (snd (transaction (drop_owner now i owner) db))"
proof -
  assume inv: "deletion_inv i owner r db"
  show ?thesis
  proof (cases "fst (delete_session owner db) = 1")
    case False
    then show ?thesis using inv by (simp add: transaction_def drop_owner_def requireSingleUpdate_def)
  next
    case True
    obtain o' where o: "o' \<in> set (db_operations db)" "deletion_row i owner r db o'" and ok: "session_db_ok db"
      using inv unfolding deletion_inv_def by blast
    show ?thesis
    proof (cases "op_owner o' = None")
      case True
      have "deletion_row i owner r (snd (delete_session owner db)) o'"
        using o(2) True by (auto simp: deletion_row_def find_session_None delete_session_def)
      moreover have "o' \<in> set (db_operations (snd (delete_session owner db)))" using o(1) True by (force simp: delete_session_def)
      ultimately have "deletion_inv i owner r (snd (delete_session owner db))"
        using delete_session_ok [OF ok] unfolding deletion_inv_def by blast
      then show ?thesis
        using inv inv_update_operation [of i owner r "snd (delete_session owner db)" "''app_resources_deleted''" "''running''" None now]
        by (simp add: transaction_def drop_owner_def requireSingleUpdate_def js_trim_def js_space_def)
    next
      case False
      then obtain t where t: "t \<in> set (db_sessions db)" "as_id t = owner" "identity t = (sr_backend r, sr_id r, sr_path r)"
        using o(2) by (auto simp: deletion_row_def)
      from inv_delete_owner [OF inv t]
      have "deletion_inv i owner r (snd (delete_session owner db))" by blast
      then show ?thesis
        using inv inv_update_operation [of i owner r "snd (delete_session owner db)" "''app_resources_deleted''" "''running''" None now]
        by (simp add: transaction_def drop_owner_def requireSingleUpdate_def js_trim_def js_space_def)
    qed
  qed
qed

lemma inv_do_step:
  "deletion_inv i owner r (dl_db d) \<Longrightarrow> stages_ok [x] \<Longrightarrow> deletion_inv i owner r (dl_db (snd (do_step effect now i owner r x d)))"
proof (cases x)
  case DropOwner
  assume "deletion_inv i owner r (dl_db d)"
  then have "deletion_inv i owner r (snd (transaction (drop_owner now i owner) (dl_db d)))" by (rule inv_drop_owner)
  then show ?thesis by (cases "transaction (drop_owner now i owner) (dl_db d)") (auto simp: DropOwner split: sum.splits)
next
  case (Call c)
  assume "deletion_inv i owner r (dl_db d)"
  then show ?thesis by (simp add: Call Let_def split: prod.splits)
next
  case (Journal stage)
  assume "deletion_inv i owner r (dl_db d)" "stages_ok [x]"
  then show ?thesis by (simp add: Journal inv_journal stages_ok_def)
next
  case Complete
  assume "deletion_inv i owner r (dl_db d)"
  then show ?thesis by (simp add: Complete inv_journal js_trim_def js_space_def)
qed

lemma inv_run_steps:
  "deletion_inv i owner r (dl_db d) \<Longrightarrow> stages_ok xs \<Longrightarrow> deletion_inv i owner r (dl_db (snd (run_steps effect now i owner r xs d)))"
proof (induction xs arbitrary: d)
  case (Cons x xs)
  have "stages_ok [x]" "stages_ok xs" using Cons.prems(2) by (auto simp: stages_ok_def)
  moreover obtain e d' where s: "do_step effect now i owner r x d = (e, d')" by (cases "do_step effect now i owner r x d")
  ultimately have "deletion_inv i owner r (dl_db d')" using inv_do_step [OF Cons.prems(1)] by (metis snd_conv)
  then show ?case using Cons.IH \<open>stages_ok xs\<close> s by (cases e) auto
qed simp

lemma begin_inv:
  assumes ok: "session_db_ok db" and new: "i \<notin> set (map op_id (db_operations db))" and r: "requireReference r = None"
    and start: "start_deletion now i r db = (Inr owner, db1)"
  shows "deletion_inv i owner r db1"
proof -
  define db0 where "db0 = snd (upsert_session r now db)"
  define row where "row = fst (upsert_session r now db)"
  have ok0: "session_db_ok db0" and f0: "find_session r db0 = Some row"
    using upsert_ok [OF ok] upsert_find [OF ok] by (simp_all add: db0_def row_def)
  have ops: "db_operations db0 = db_operations db" by (simp add: db0_def upsert_session_def Let_def split: option.splits)
  define op where "op = \<lparr>op_id = i, op_owner = Some (as_id row), op_kind = ''delete_session'', op_status = ''running'',
     op_stage = ''persisted'', op_payload = Some (json_text (deletion_payload r)), op_error = None, op_created = now, op_updated = now\<rparr>"
  define dbc where "dbc = db0\<lparr>db_operations := db_operations db0 @ [op]\<rparr>"
  have c: "create_operation op db0 = Some dbc" using new ops by (simp add: create_operation_def dbc_def op_def)
  note row = find_session_SomeD [OF f0]
  have one: "fst (markDeleting (as_id row) dbc) = 1"
    using sessions_one [OF ok0] row by (simp add: markDeleting_def update_session_def dbc_def)
  have "as_id row = owner \<and> snd (markDeleting (as_id row) dbc) = db1"
    using start r c one by (auto simp: start_deletion_def case_prod_beta transaction_def begin_deletion_def op_def [symmetric]
        db0_def [symmetric] row_def [symmetric] requireSingleUpdate_def)
  then have o: "owner = as_id row" "db1 = snd (markDeleting (as_id row) dbc)" by auto
  have "session_db_ok dbc" by (rule create_operation_ok [OF ok0 c])
  then have "session_db_ok db1" unfolding o(2) markDeleting_def by (rule update_session_ok) (simp_all add: identity_def)
  moreover have "op \<in> set (db_operations db1)" by (simp add: o(2) markDeleting_def update_session_def dbc_def)
  moreover have "row\<lparr>as_status := ''deleting''\<rparr> \<in> set (db_sessions db1)"
    using row by (force simp: o(2) markDeleting_def update_session_def dbc_def)
  ultimately show ?thesis
    using row unfolding deletion_inv_def
    by (intro conjI bexI [of _ op]) (auto simp: deletion_row_def op_def o(1) identity_def js_trim_def js_space_def
        intro!: bexI [of _ "row\<lparr>as_status := ''deleting''\<rparr>"])
qed

text \<open>The states a deletion can leave: after a prefix of its steps, or with the failure journaled.\<close>

definition deletion_left :: "'w effects \<Rightarrow> string \<Rightarrow> string \<Rightarrow> nat \<Rightarrow> session_ref \<Rightarrow> session_db \<Rightarrow> 'w \<Rightarrow> 'w deletion \<Rightarrow> bool" where
  "deletion_left effect now i owner r db1 w d \<longleftrightarrow>
     (\<exists>k res d0. run_steps effect now i owner r (take k deletion_steps) \<lparr>dl_db = db1, dl_world = w, dl_stage = ''persisted'', dl_calls = []\<rparr> = (res, d0)
        \<and> (d = d0 \<or> (\<exists>e. res = Some e \<and> d = snd (journal now i ''failed'' (dl_stage d0) (Some e) d0))))"

lemma stages_deletion: "stages_ok (take k deletion_steps)"
proof -
  have "stages_ok deletion_steps" by (auto simp: stages_ok_def deletion_steps_def js_trim_def js_space_def)
  then show ?thesis unfolding stages_ok_def using set_take_subset by fastforce
qed

lemma do_step_stage: "js_trim (dl_stage d) \<noteq> [] \<Longrightarrow> stages_ok [x] \<Longrightarrow> js_trim (dl_stage (snd (do_step effect now i owner r x d))) \<noteq> []"
  by (cases x) (auto simp: journal_def stages_ok_def js_trim_def js_space_def Let_def split: sum.splits prod.splits)

lemma run_steps_stage: "js_trim (dl_stage d) \<noteq> [] \<Longrightarrow> stages_ok xs \<Longrightarrow> js_trim (dl_stage (snd (run_steps effect now i owner r xs d))) \<noteq> []"
proof (induction xs arbitrary: d)
  case (Cons x xs)
  have st: "stages_ok [x]" "stages_ok xs" using Cons.prems(2) by (auto simp: stages_ok_def)
  obtain e d' where s: "do_step effect now i owner r x d = (e, d')" by (cases "do_step effect now i owner r x d")
  then have "js_trim (dl_stage d') \<noteq> []" using do_step_stage [OF Cons.prems(1) st(1)] by (metis snd_conv)
  then show ?case using Cons.IH st(2) s by (cases e) auto
qed simp

lemma deletion_left_inv:
  assumes "deletion_inv i owner r db1" "deletion_left effect now i owner r db1 w d"
  shows "deletion_inv i owner r (dl_db d)"
proof -
  obtain k res d0 where k: "run_steps effect now i owner r (take k deletion_steps) \<lparr>dl_db = db1, dl_world = w, dl_stage = ''persisted'', dl_calls = []\<rparr> = (res, d0)"
    "d = d0 \<or> (\<exists>e. res = Some e \<and> d = snd (journal now i ''failed'' (dl_stage d0) (Some e) d0))"
    using assms(2) unfolding deletion_left_def by blast
  have "deletion_inv i owner r (dl_db d0)"
    using inv_run_steps [of i owner r "\<lparr>dl_db = db1, dl_world = w, dl_stage = ''persisted'', dl_calls = []\<rparr>" "take k deletion_steps" effect now]
      stages_deletion [of k] assms(1) k(1) by simp
  moreover have "js_trim (dl_stage d0) \<noteq> []"
    using run_steps_stage [of "\<lparr>dl_db = db1, dl_world = w, dl_stage = ''persisted'', dl_calls = []\<rparr>" "take k deletion_steps" effect now i owner r]
      stages_deletion [of k] k(1) by (simp add: js_trim_def js_space_def)
  ultimately show ?thesis using k(2) inv_journal by blast
qed

section \<open>The reconciliation\<close>

lemma payload_reference_row:
  assumes "deletion_row i owner r db o'" "validate cd (Some (ref_json r)) = Inr r"
  shows "payload_reference cd o' = Inr r"
proof -
  have "json_parse (json_text (deletion_payload r)) = Some (deletion_payload r)"
    by (rule json_parse_text) (auto simp: deletion_payload_def path_json_def split: option.splits)
  then show ?thesis using assms by (simp add: payload_reference_def deletion_row_def deletion_payload_def ref_json_def Let_def)
qed

lemma matching_owner_row:
  assumes "deletion_row i owner r db o'" "session_db_ok db"
  shows "requireMatchingOwner o' (find_session r db) = None"
proof (cases "op_owner o'")
  case (Some k)
  then obtain s where s: "s \<in> set (db_sessions db)" "as_id s = k" "identity s = (sr_backend r, sr_id r, sr_path r)"
    using assms(1) by (auto simp: deletion_row_def)
  then have "find_session r db = Some s" "1 \<le> k" using find_session_mem [OF assms(2)] assms(2) by (auto simp: session_db_ok_def)
  then show ?thesis using Some s by (simp add: requireMatchingOwner_def)
qed (simp add: requireMatchingOwner_def)

lemma finish_reconciled_row:
  assumes inv: "deletion_inv i owner r db" and o: "o' \<in> set (db_operations db)" "deletion_row i owner r db o'"
  shows "\<exists>db'. transaction (finish_reconciled now o' r) db = (Inr (), db') \<and> session_db_ok db' \<and> find_session r db' = None
    \<and> (\<exists>x \<in> set (db_operations db'). op_id x = i \<and> op_status x = ''completed'')"
proof -
  have ok: "session_db_ok db" using inv by (simp add: deletion_inv_def)
  have match: "requireMatchingOwner o' (find_session r db) = None" by (rule matching_owner_row [OF o(2) ok])
  have i: "op_id o' = i" using o(2) by (simp add: deletion_row_def)
  define db1 where "db1 = (case find_session r db of None \<Rightarrow> db | Some s \<Rightarrow> snd (delete_session (as_id s) db))"
  have ok1: "session_db_ok db1" using delete_session_ok [OF ok] ok by (simp add: db1_def split: option.splits)
  have none: "find_session r db1 = None"
    using find_session_delete [OF ok] find_session_SomeD [of r db] by (auto simp: db1_def split: option.splits)
  have "map op_id (db_operations db1) = map op_id (db_operations db)"
    by (simp add: db1_def delete_session_def o_def if_distrib cong: if_cong split: option.splits)
  then have "i \<in> set (map op_id (db_operations db1))" using o(1) i by force
  then obtain x where x: "x \<in> set (db_operations db1)" "op_id x = i" by auto
  have del: "(case find_session r db of None \<Rightarrow> Inr db | Some s \<Rightarrow> requireSingleUpdate (delete_session (as_id s) db) (owner_gone (as_id s))) = Inr db1"
    using sessions_one [OF ok] find_session_SomeD [of r db]
    by (auto simp: db1_def requireSingleUpdate_def delete_session_def split: option.splits)
  let ?u = "update_operation i ''completed'' ''completed'' None now db1"
  have one: "fst ?u = 1" using changes_one [OF ok1 x(1)] x(2) by (simp add: update_operation_def change_operation_def)
  have "transaction (finish_reconciled now o' r) db = (Inr (), snd ?u)"
    using match del one by (simp add: transaction_def finish_reconciled_def Let_def requireSingleUpdate_def i)
  moreover have "session_db_ok (snd ?u)" unfolding update_operation_def by (rule change_operation_ok [OF ok1]) simp
  moreover have "find_session r (snd ?u) = None" using none by (simp add: update_operation_def)
  moreover have "\<exists>y \<in> set (db_operations (snd ?u)). op_id y = i \<and> op_status y = ''completed''"
    using changed_row [OF x, of "\<lambda>o'. o'\<lparr>op_status := ''completed'', op_stage := ''completed'', op_error := None, op_updated := now\<rparr>"] x(2)
    unfolding update_operation_def by (intro bexI conjI) simp_all
  ultimately show ?thesis by blast
qed

text \<open>Effects that succeed: the deletion of the agent session removes it and nothing brings it back.\<close>

definition effects_work :: "'w effects \<Rightarrow> ('w \<Rightarrow> string \<Rightarrow> bool) \<Rightarrow> session_ref \<Rightarrow> bool" where
  "effects_work effect exists r \<longleftrightarrow> (\<forall>c w. fst (effect c r w) = None \<and> (exists (snd (effect c r w)) (sr_id r) \<longrightarrow> exists w (sr_id r)))
     \<and> (\<forall>w. \<not> exists (snd (effect DeleteAgentSession r w)) (sr_id r))"

lemma run_effects_work:
  "effects_work effect exists r \<Longrightarrow> fst (run_effects effect r cs w) = None
    \<and> (exists (snd (run_effects effect r cs w)) (sr_id r) \<longrightarrow> exists w (sr_id r) \<and> DeleteAgentSession \<notin> set cs)"
proof (induction cs arbitrary: w)
  case (Cons c cs)
  obtain e w' where e: "effect c r w = (e, w')" by (cases "effect c r w")
  have "fst (effect c r w) = None" "exists (snd (effect c r w)) (sr_id r) \<longrightarrow> exists w (sr_id r)"
    "c = DeleteAgentSession \<longrightarrow> \<not> exists (snd (effect c r w)) (sr_id r)"
    using Cons.prems unfolding effects_work_def by blast+
  then show ?case using Cons.IH [OF Cons.prems, of w'] e by auto
qed simp

end
