(* ===== verification/Deletion_Properties.thy ===== *)
theory Deletion_Properties
  imports Deletion_Invariant
begin

text \<open>
  The deletion of a session survives a stop of the server at any point: the journal is never ahead of the
  effects, and the reconciliation of the next start completes what was begun.
\<close>

section \<open>Recovery\<close>

text \<open>
  C15: A deletion that was begun is completed.  Wherever the server stopped (after any number of steps of the
  workflow, with effects that failed or not, the failure journaled or not), the reconciliation of the next
  start, with effects that succeed, ends with the operation completed, the session's row gone and the agent
  session gone; if the operation is no longer listed, there is nothing left to do.
\<close>

theorem deletion_recovers:
  assumes "session_db_ok db" and "i \<notin> set (map op_id (db_operations db))" and "js_trim i \<noteq> []"
    and "requireReference r = None" and "validate cd (Some (ref_json r)) = Inr r"
    and "start_deletion now i r db = (Inr owner, db1)" and "deletion_left effect now i owner r db1 w d"
    and "effects_work effect' exists r" and "deletable (sr_backend r)"
    and "o' \<in> set (listIncomplete (dl_db d))" and "op_id o' = i"
  shows "\<exists>db' w'. reconcile_one effect' cd (sr_backend r) deletable exists now' o' (dl_db d, dl_world d) = (Inr (i, None), (db', w'))
    \<and> find_session r db' = None \<and> \<not> exists w' (sr_id r) \<and> i \<notin> op_id ` set (listIncomplete db')"
proof -
  have inv: "deletion_inv i owner r (dl_db d)" using deletion_left_inv [OF begin_inv [OF assms(1,2,4,6)] assms(7)] .
  then have ok: "session_db_ok (dl_db d)" by (simp add: deletion_inv_def)
  have o: "o' \<in> set (db_operations (dl_db d))" using assms(10) by (simp add: listIncomplete_def)
  obtain x where x: "x \<in> set (db_operations (dl_db d))" "deletion_row i owner r (dl_db d) x"
    using inv unfolding deletion_inv_def by blast
  then have "x = o'" using op_unique [OF ok x(1) o] assms(11) by (simp add: deletion_row_def)
  with x have row: "deletion_row i owner r (dl_db d) o'" by simp
  obtain db' where f: "transaction (finish_reconciled now' o' r) (dl_db d) = (Inr (), db')" "session_db_ok db'" "find_session r db' = None"
    "\<exists>x \<in> set (db_operations db'). op_id x = i \<and> op_status x = ''completed''" using finish_reconciled_row [OF inv o row] by blast
  let ?cs = "(if exists (dl_world d) (sr_id r) then [DeleteAgentSession] else []) @ [CloseHublots, DeleteRoutines]"
  obtain e w' where e: "run_effects effect' r ?cs (dl_world d) = (e, w')" by (cases "run_effects effect' r ?cs (dl_world d)")
  have "e = None" "\<not> exists w' (sr_id r)"
    using run_effects_work [OF assms(8), of ?cs "dl_world d"] e by (auto split: if_splits)
  then have "reconcile_operation effect' cd (sr_backend r) deletable exists now' o' (dl_db d, dl_world d) = (None, (db', w'))"
    using row assms(3,9) payload_reference_row [OF row assms(5)] matching_owner_row [OF row ok] f(1) e
    by (simp add: reconcile_operation_def deletion_row_def)
  moreover have "i \<notin> op_id ` set (listIncomplete db')"
    using f(4) op_unique [OF f(2)] by (fastforce simp: listIncomplete_def)
  ultimately show ?thesis using f(3) \<open>\<not> exists w' (sr_id r)\<close> assms(11) by (simp add: reconcile_one_def)
qed


section \<open>The journal and the effects\<close>

fun calls_of :: "deletion_step list \<Rightarrow> callback list" where
  "calls_of [] = []"
| "calls_of (Call c # xs) = c # calls_of xs"
| "calls_of (x # xs) = calls_of xs"

fun stage_of :: "string \<Rightarrow> deletion_step list \<Rightarrow> string" where
  "stage_of st [] = st"
| "stage_of st (Call c # xs) = stage_of st xs"
| "stage_of st (Journal stage # xs) = stage_of stage xs"
| "stage_of st (DropOwner # xs) = stage_of ''app_resources_deleted'' xs"
| "stage_of st (Complete # xs) = stage_of ''completed'' xs"

definition stage_row :: "string \<Rightarrow> 'w deletion \<Rightarrow> bool" where
  "stage_row i d \<longleftrightarrow> session_db_ok (dl_db d) \<and> (\<exists>o' \<in> set (db_operations (dl_db d)). op_id o' = i \<and> op_stage o' = dl_stage d)"

lemma stage_row_journal: "stage_row i d \<Longrightarrow> stage_row i (snd (journal now i status stage err d))"
proof (cases "fst (update_operation i status stage err now (dl_db d)) = 1")
  case True
  assume "stage_row i d"
  then obtain o' where o: "o' \<in> set (db_operations (dl_db d))" "op_id o' = i" and ok: "session_db_ok (dl_db d)"
    unfolding stage_row_def by blast
  have "session_db_ok (snd (update_operation i status stage err now (dl_db d)))"
    unfolding update_operation_def by (rule change_operation_ok [OF ok]) simp
  moreover have "\<exists>x \<in> set (db_operations (snd (update_operation i status stage err now (dl_db d)))). op_id x = i \<and> op_stage x = stage"
    using changed_row [OF o, of "\<lambda>o'. o'\<lparr>op_status := status, op_stage := stage, op_error := err, op_updated := now\<rparr>"] o(2)
    unfolding update_operation_def by (intro bexI conjI) simp_all
  ultimately show ?thesis using True by (simp add: journal_def requireSingleUpdate_def stage_row_def)
qed (simp add: journal_def requireSingleUpdate_def)

lemma stage_row_drop: "stage_row i d \<Longrightarrow> stage_row i (snd (do_step effect now i owner r DropOwner d))"
proof -
  assume d: "stage_row i d"
  then obtain o' where o: "o' \<in> set (db_operations (dl_db d))" "op_id o' = i" and ok: "session_db_ok (dl_db d)"
    unfolding stage_row_def by blast
  let ?db1 = "snd (delete_session owner (dl_db d))"
  let ?u = "update_operation i ''running'' ''app_resources_deleted'' None now ?db1"
  have "session_db_ok ?db1" using ok by (rule delete_session_ok)
  then have "session_db_ok (snd ?u)" unfolding update_operation_def by (rule change_operation_ok) simp
  moreover have "map op_id (db_operations ?db1) = map op_id (db_operations (dl_db d))"
    by (simp add: delete_session_def o_def if_distrib cong: if_cong)
  then have "i \<in> set (map op_id (db_operations ?db1))" using o by force
  then obtain x where x: "x \<in> set (db_operations ?db1)" "op_id x = i" by auto
  have "\<exists>x \<in> set (db_operations (snd ?u)). op_id x = i \<and> op_stage x = ''app_resources_deleted''"
    using changed_row [OF x, of "\<lambda>o'. o'\<lparr>op_status := ''running'', op_stage := ''app_resources_deleted'', op_error := None, op_updated := now\<rparr>"] x(2)
    unfolding update_operation_def by (intro bexI conjI) simp_all
  ultimately show ?thesis using d
    by (auto simp: transaction_def drop_owner_def requireSingleUpdate_def stage_row_def)
qed

lemma journal_keeps:
  "dl_stage (snd (journal now i status (dl_stage d) err d)) = dl_stage d" "dl_calls (snd (journal now i status stage err d)) = dl_calls d"
  by (simp_all add: journal_def split: sum.splits)

lemma stage_row_call: "stage_row i d \<Longrightarrow> stage_row i (snd (do_step effect now i owner r (Call c) d))"
  by (cases "effect c r (dl_world d)") (simp add: stage_row_def Let_def)

lemma stage_row_step: "stage_row i d \<Longrightarrow> stage_row i (snd (do_step effect now i owner r x d))"
  by (cases x) (simp_all only: stage_row_call stage_row_drop do_step.simps(2,4) stage_row_journal)

lemma do_step_progress:
  "do_step effect now i owner r x d = (None, d') \<Longrightarrow> dl_stage d' = stage_of (dl_stage d) [x] \<and> dl_calls d' = dl_calls d @ calls_of [x]
     \<and> (\<forall>c \<in> set (calls_of [x]). \<exists>w. fst (effect c r w) = None)"
  by (cases x) (auto simp: journal_def Let_def split: sum.splits prod.splits intro!: exI [of _ "dl_world d"])

lemma do_step_failure:
  "do_step effect now i owner r x d = (Some e, d') \<Longrightarrow> dl_stage d' = dl_stage d \<and> (\<exists>failed. dl_calls d' = dl_calls d @ failed \<and> length failed \<le> 1)"
  by (cases x) (auto simp: journal_def Let_def split: sum.splits prod.splits)

lemma stage_of_Cons: "stage_of st (x # xs) = stage_of (stage_of st [x]) xs"
  by (cases x) simp_all

lemma calls_of_Cons: "calls_of (x # xs) = calls_of [x] @ calls_of xs"
  by (cases x) simp_all

lemma run_steps_progress:
  "run_steps effect now i owner r xs d = (res, d') \<Longrightarrow> stage_row i d \<Longrightarrow> stage_row i d'
     \<and> (\<exists>m failed. m \<le> length xs \<and> dl_stage d' = stage_of (dl_stage d) (take m xs) \<and> dl_calls d' = dl_calls d @ calls_of (take m xs) @ failed
          \<and> length failed \<le> 1 \<and> (\<forall>c \<in> set (calls_of (take m xs)). \<exists>w. fst (effect c r w) = None))"
proof (induction xs arbitrary: d)
  case Nil
  then show ?case by (auto intro!: exI [of _ "[]"])
next
  case (Cons x xs)
  obtain e d1 where s: "do_step effect now i owner r x d = (e, d1)" by (cases "do_step effect now i owner r x d")
  have row: "stage_row i d1" using stage_row_step [OF Cons.prems(2)] s by (metis snd_conv)
  show ?case
  proof (cases e)
    case (Some err)
    then have "d' = d1" using Cons.prems(1) s by simp
    then show ?thesis using row do_step_failure [OF s [unfolded Some]] by (auto intro!: exI [of _ 0])
  next
    case None
    then have "run_steps effect now i owner r xs d1 = (res, d')" using Cons.prems(1) s by simp
    from Cons.IH [OF this row] obtain m failed where m: "stage_row i d'" "m \<le> length xs" "dl_stage d' = stage_of (dl_stage d1) (take m xs)"
      "dl_calls d' = dl_calls d1 @ calls_of (take m xs) @ failed" "length failed \<le> 1"
      "\<forall>c \<in> set (calls_of (take m xs)). \<exists>w. fst (effect c r w) = None" by blast
    note p = do_step_progress [OF s [unfolded None]]
    have "dl_stage d' = stage_of (dl_stage d) (take (Suc m) (x # xs))" using m(3) p stage_of_Cons [of "dl_stage d" x "take m xs"] by simp
    moreover have "dl_calls d' = dl_calls d @ calls_of (take (Suc m) (x # xs)) @ failed" using m(4) p calls_of_Cons [of x "take m xs"] by simp
    moreover have "set (calls_of (take (Suc m) (x # xs))) = set (calls_of [x]) \<union> set (calls_of (take m xs))"
      using calls_of_Cons [of x "take m xs"] by simp
    then have "\<forall>c \<in> set (calls_of (take (Suc m) (x # xs))). \<exists>w. fst (effect c r w) = None"
      using m(6) p by blast
    ultimately show ?thesis using m(1,2,5) by (intro conjI exI [of _ "Suc m"] exI [of _ failed]) simp_all
  qed
qed

text \<open>
  The journal is never ahead of the world.  At whatever point a deletion stops or fails, the stage in its
  operation's row is that of some prefix of the workflow; the effects of that prefix were called in order and
  succeeded, and at most one more was called.
\<close>

theorem journal_matches_effects:
  assumes "session_db_ok db" and "i \<notin> set (map op_id (db_operations db))" and "requireReference r = None"
    and "start_deletion now i r db = (Inr owner, db1)" and "deletion_left effect now i owner r db1 w d"
  shows "\<exists>m failed. (\<exists>o' \<in> set (db_operations (dl_db d)). op_id o' = i \<and> op_stage o' = stage_of ''persisted'' (take m deletion_steps))
    \<and> dl_calls d = calls_of (take m deletion_steps) @ failed \<and> length failed \<le> 1
    \<and> (\<forall>c \<in> set (calls_of (take m deletion_steps)). \<exists>w. fst (effect c r w) = None)"
proof -
  let ?d = "\<lparr>dl_db = db1, dl_world = w, dl_stage = ''persisted'', dl_calls = []\<rparr>"
  have ok: "session_db_ok db1" using begin_inv [OF assms(1-4)] by (simp add: deletion_inv_def)
  have "\<exists>o' \<in> set (db_operations db1). op_id o' = i \<and> op_stage o' = ''persisted''"
    using assms(3,4) by (auto simp: start_deletion_def transaction_def begin_deletion_def create_operation_def requireSingleUpdate_def
        markDeleting_def update_session_def split: if_splits sum.splits option.splits prod.splits)
  with ok have row: "stage_row i ?d" by (simp add: stage_row_def)
  obtain k res d0 where k: "run_steps effect now i owner r (take k deletion_steps) ?d = (res, d0)"
    "d = d0 \<or> (\<exists>e. res = Some e \<and> d = snd (journal now i ''failed'' (dl_stage d0) (Some e) d0))"
    using assms(5) unfolding deletion_left_def by blast
  from run_steps_progress [OF k(1) row] obtain m failed where m: "stage_row i d0"
    "dl_stage d0 = stage_of ''persisted'' (take m (take k deletion_steps))" "dl_calls d0 = calls_of (take m (take k deletion_steps)) @ failed"
    "length failed \<le> 1" "\<forall>c \<in> set (calls_of (take m (take k deletion_steps))). \<exists>w. fst (effect c r w) = None" by auto
  have "stage_row i d \<and> dl_stage d = dl_stage d0 \<and> dl_calls d = dl_calls d0"
    using k(2) m(1) stage_row_journal [OF m(1)] journal_keeps by metis
  then show ?thesis using m unfolding stage_row_def take_take by metis
qed

section \<open>A concrete deletion\<close>

definition ex_ref :: session_ref where "ex_ref = \<lparr>sr_backend = ''jsonl'', sr_id = ''x'', sr_path = Some ''/a/s/t.jsonl''\<rparr>"
definition ex_codec :: codec where "ex_codec = \<lparr>cd_cwd = ''/w'', cd_agentDir = ''/a'', cd_jsonlRoot = ''/a/s'', cd_sqlitePath = ''/a/db''\<rparr>"
definition ex_db :: session_db where "ex_db = \<lparr>db_sessions = [], db_operations = [], db_owned = []\<rparr>"

text \<open>The world is whether the agent session exists.\<close>

definition ex_effect :: "bool effects" where "ex_effect c r w = (None, w \<and> c \<noteq> DeleteAgentSession)"
definition ex_started :: session_db where "ex_started = snd (start_deletion ''t'' ''op'' ex_ref ex_db)"
definition ex_left :: "bool deletion" where
  "ex_left = snd (run_steps ex_effect ''t'' ''op'' 1 ex_ref (take 5 deletion_steps) \<lparr>dl_db = ex_started, dl_world = True, dl_stage = ''persisted'', dl_calls = []\<rparr>)"

lemma ex_deletion:
  "session_db_ok ex_db" "''op'' \<notin> set (map op_id (db_operations ex_db))" "js_trim ''op'' \<noteq> []" "requireReference ex_ref = None"
  "validate ex_codec (Some (ref_json ex_ref)) = Inr ex_ref" "start_deletion ''t'' ''op'' ex_ref ex_db = (Inr 1, ex_started)"
  "deletion_left ex_effect ''t'' ''op'' 1 ex_ref ex_started True ex_left"
proof -
  show "session_db_ok ex_db" "''op'' \<notin> set (map op_id (db_operations ex_db))" by (simp_all add: session_db_ok_def ex_db_def)
  show "js_trim ''op'' \<noteq> []" "requireReference ex_ref = None" "validate ex_codec (Some (ref_json ex_ref)) = Inr ex_ref" by code_simp+
  have "fst (start_deletion ''t'' ''op'' ex_ref ex_db) = Inr 1" by code_simp
  then show "start_deletion ''t'' ''op'' ex_ref ex_db = (Inr 1, ex_started)" by (simp add: ex_started_def prod_eq_iff)
  show "deletion_left ex_effect ''t'' ''op'' 1 ex_ref ex_started True ex_left"
    unfolding deletion_left_def ex_left_def by (intro exI conjI disjI1) (auto simp: prod_eq_iff)
qed

theorem journal_matches_effects_witness:
  "\<exists>m failed. dl_calls ex_left = calls_of (take m deletion_steps) @ failed \<and> length failed \<le> 1"
  using journal_matches_effects [OF ex_deletion(1,2,4,6,7)] by blast

theorem deletion_recovers_witness:
  "\<exists>o' db' w'. reconcile_one ex_effect ex_codec ''jsonl'' (\<lambda>_. True) (\<lambda>w _. w) ''u'' o' (dl_db ex_left, dl_world ex_left)
     = (Inr (''op'', None), (db', w')) \<and> find_session ex_ref db' = None \<and> \<not> w'"
proof -
  have "map op_id (listIncomplete (dl_db ex_left)) = [''op'']" by code_simp
  then obtain o' where o: "o' \<in> set (listIncomplete (dl_db ex_left))" "op_id o' = ''op''" by auto
  have "effects_work ex_effect (\<lambda>w _. w) ex_ref" by (simp add: effects_work_def ex_effect_def)
  from deletion_recovers [OF ex_deletion this, of "\<lambda>_. True" o' "''u''"] o show ?thesis by (auto simp: ex_ref_def)
qed


end
