(* ===== verification/Session_Owners.thy ===== *)
theory Session_Owners
  imports Session_Store
begin

text \<open>
  The owner resolver of \<^verbatim>\<open>server/persistence/sessionOwners.mjs\<close>: from a session id or a reference to the
  row of \<^verbatim>\<open>app_sessions\<close> that owns the session's resources.  The running runners and the session catalog
  are read; a catalog answers \<^verbatim>\<open>findById\<close> with a summary or \<^verbatim>\<open>null\<close>.
\<close>

definition max_owner_id_length :: nat where "max_owner_id_length = 256"

record runner_entry =
  re_sessionId :: "string option"
  re_sessionRef :: "json option"

record summary =
  su_storagePath :: "string option"
  su_path :: "string option"

record owners =
  ow_codec :: codec
  ow_runners :: "runner_entry list"
  ow_backend :: string
  ow_findById :: "string \<Rightarrow> summary option"

definition requireSessionId :: "string \<Rightarrow> bool" where
  "requireSessionId i \<longleftrightarrow> i \<noteq> [] \<and> i = js_trim i \<and> length i \<le> max_owner_id_length \<and> \<not> (\<exists>c \<in> set i. control_char c)"

definition referenceFromId :: "owners \<Rightarrow> string \<Rightarrow> string + json" where
  "referenceFromId e i =
     (case List.find (\<lambda>r. re_sessionId r = Some i \<and> re_sessionRef r \<noteq> None) (ow_runners e) of
        Some r \<Rightarrow> Inr (the (re_sessionRef r))
      | None \<Rightarrow>
          (case ow_findById e i of
             None \<Rightarrow> Inl (''cannot own resources for unknown session '' @ i)
           | Some s \<Rightarrow>
               Inr (JObj [(''backend'', JStr (ow_backend e)), (''id'', JStr i),
                 (''storagePath'', JStr (case su_storagePath s of Some p \<Rightarrow> p
                    | None \<Rightarrow> (case su_path s of Some p \<Rightarrow> p | None \<Rightarrow> cd_sqlitePath (ow_codec e))))])))"

text \<open>\<open>session\<close> is an id (\<^term>\<open>Inl\<close>) or a reference.\<close>

definition resolve_reference :: "owners \<Rightarrow> string + json \<Rightarrow> string + session_ref" where
  "resolve_reference e session =
     (case (case session of
              Inl i \<Rightarrow> if requireSessionId i then referenceFromId e i else Inl ''session id must be a trimmed string''
            | Inr r \<Rightarrow> Inr r) of
        Inl err \<Rightarrow> Inl err
      | Inr reference \<Rightarrow>
          (case validate (ow_codec e) (Some reference) of
             Inl _ \<Rightarrow> Inl ''invalid session reference''
           | Inr r \<Rightarrow>
               (case session of
                  Inl i \<Rightarrow> if sr_id r \<noteq> i then Inl (''resolved session reference does not match requested session '' @ i) else Inr r
                | Inr _ \<Rightarrow> Inr r)))"

definition ensureSessionOwner :: "owners \<Rightarrow> string \<Rightarrow> string + json \<Rightarrow> session_db \<Rightarrow> (string + app_session) \<times> session_db" where
  "ensureSessionOwner e now session db =
     (case resolve_reference e session of
        Inl err \<Rightarrow> (Inl err, db)
      | Inr r \<Rightarrow>
          if js_trim now = [] then (Inl ''session owner timestamp must be a non-empty string'', db)
          else (let (row, db') = upsert_session r now db in
                if as_id row < 1 then (Inl ''session owner repository must return an owner with a positive integer id'', db')
                else (Inr row, db')))"

section \<open>What an owner is\<close>

lemma upsert_identity: "upsert_session r now db = (row, db') \<Longrightarrow> identity row = (sr_backend r, sr_id r, sr_path r)"
  by (auto simp: upsert_session_def identity_def Let_def dest!: find_session_SomeD split: option.splits)

lemma upsert_again: "session_db_ok db \<Longrightarrow> upsert_session r now db = (row, db') \<Longrightarrow> upsert_session r now' db' = (row, db')"
  using upsert_find [of db r now] by (simp add: upsert_session_def [of r now'])

lemma ensureSessionOwner_Inr:
  "ensureSessionOwner e now session db = (Inr row, db') \<longleftrightarrow>
     (\<exists>r. resolve_reference e session = Inr r \<and> js_trim now \<noteq> [] \<and> upsert_session r now db = (row, db') \<and> 1 \<le> as_id row)"
  by (auto simp: ensureSessionOwner_def Let_def split: sum.splits prod.splits if_splits)

lemma ensure_ok [inv_rules]: "session_db_ok db \<Longrightarrow> session_db_ok (snd (ensureSessionOwner e now session db))"
proof -
  assume ok: "session_db_ok db"
  have "session_db_ok (snd (upsert_session r now db))" for r using upsert_ok [OF ok] .
  then show ?thesis using ok by (auto simp: ensureSessionOwner_def Let_def split: sum.splits prod.splits)
      (metis snd_conv)+
qed

lemma ensure_keeps_operations: "db_operations (snd (ensureSessionOwner e now session db)) = db_operations db"
  by (auto simp: ensureSessionOwner_def upsert_session_def Let_def split: sum.splits option.splits)

lemma resolved_id: "resolve_reference e (Inl i) = Inr r \<Longrightarrow> sr_id r = i"
  by (auto simp: resolve_reference_def split: sum.splits if_splits)

text \<open>
  A session has one owner.  The owner returned for an id has this session id; asking again, by the id or by
  the reference it resolves to, at any later time, returns the same row and changes nothing.
\<close>

theorem owner_is_unique:
  assumes "session_db_ok db" and "ensureSessionOwner e now (Inl i) db = (Inr row, db')" and "js_trim now' \<noteq> []"
    and "resolve_reference e session = resolve_reference e (Inl i)"
  shows "as_session row = i \<and> ensureSessionOwner e now' session db' = (Inr row, db')"
proof -
  from assms(2) obtain r where r: "resolve_reference e (Inl i) = Inr r" "upsert_session r now db = (row, db')" "1 \<le> as_id row"
    by (auto simp: ensureSessionOwner_Inr)
  have "as_session row = i" using upsert_identity [OF r(2)] resolved_id [OF r(1)] by (simp add: identity_def)
  moreover have "upsert_session r now' db' = (row, db')" using assms(1) r(2) by (rule upsert_again)
  ultimately show ?thesis using r assms(3,4) by (auto simp: ensureSessionOwner_Inr)
qed

definition ex_owners :: owners where
  "ex_owners = \<lparr>ow_codec = \<lparr>cd_cwd = ''/w'', cd_agentDir = ''/a'', cd_jsonlRoot = ''/a/s'', cd_sqlitePath = ''/a/db''\<rparr>,
     ow_runners = [], ow_backend = ''sqlite'', ow_findById = (\<lambda>_. Some \<lparr>su_storagePath = None, su_path = None\<rparr>)\<rparr>"

theorem owner_is_unique_witness:
  "\<exists>row db'. ensureSessionOwner ex_owners ''t'' (Inl ''x'') \<lparr>db_sessions = [], db_operations = [], db_owned = []\<rparr> = (Inr row, db')
     \<and> ensureSessionOwner ex_owners ''u'' (Inl ''x'') db' = (Inr row, db')"
proof -
  let ?db = "\<lparr>db_sessions = [], db_operations = [], db_owned = []\<rparr>"
  have "(case fst (ensureSessionOwner ex_owners ''t'' (Inl ''x'') ?db) of Inl _ \<Rightarrow> False | Inr _ \<Rightarrow> True)" "js_trim ''u'' \<noteq> []"
    by code_simp+
  then obtain row db' where "ensureSessionOwner ex_owners ''t'' (Inl ''x'') ?db = (Inr row, db')"
    by (cases "ensureSessionOwner ex_owners ''t'' (Inl ''x'') ?db") (auto split: sum.splits)
  moreover have "session_db_ok ?db" by (simp add: session_db_ok_def)
  ultimately show ?thesis using owner_is_unique [of ?db ex_owners "''t''" "''x''" row db' "''u''" "Inl ''x''"] \<open>js_trim ''u'' \<noteq> []\<close>
    by blast
qed

end
