(* ===== verification/Rollback_Journal.thy ===== *)
theory Rollback_Journal
  imports Session_Owners Js_Json
begin

text \<open>
  The stage journal of a checkpoint rollback, \<^verbatim>\<open>server/persistence/checkpointRollbackJournal.mjs\<close>: one row of
  the table of operations and a handle that moves it along a fixed chain of stages.  Details are JSON values;
  their property names are not array indices.
\<close>

section \<open>Stages and payloads\<close>

definition next_stage :: "string \<Rightarrow> string option" where
  "next_stage = map_of
     [(''persisted'', ''safety_checkpointed''), (''safety_checkpointed'', ''session_forked''), (''session_forked'', ''git_reset''),
      (''git_reset'', ''inheritance_recorded''), (''inheritance_recorded'', ''runner_opened''), (''runner_opened'', ''completed'')]"

definition identity_fields :: "string list" where
  "identity_fields = [''reference'', ''hash'', ''dir'']"

text \<open>The value as it reads back, and its text.\<close>

definition snapshotPayload :: "json \<Rightarrow> string + json \<times> string" where
  "snapshotPayload v =
     (case json_parse (json_text v) of None \<Rightarrow> Inl ''rollback operation payload must be JSON serializable'' | Some v' \<Rightarrow> Inr (v', json_text v))"

definition spread :: "json \<Rightarrow> (string \<times> json) list \<Rightarrow> json" where
  "spread payload m = (case payload of JObj p \<Rightarrow> JObj (fold (\<lambda>(k, v). jsmap_set k v) m p) | _ \<Rightarrow> JObj (fold (\<lambda>(k, v). jsmap_set k v) m []))"

definition mergeDetails :: "json \<Rightarrow> json option \<Rightarrow> string + json" where
  "mergeDetails payload details =
     (case details of
        None \<Rightarrow> Inr payload
      | Some JNull \<Rightarrow> Inr payload
      | Some (JObj m) \<Rightarrow>
          (case List.find (\<lambda>f. f \<in> set (map fst m)) identity_fields of
             Some f \<Rightarrow> Inl (''rollback operation details cannot replace '' @ f)
           | None \<Rightarrow> Inr (spread payload m))
      | Some _ \<Rightarrow> Inl ''rollback operation details must be an object'')"

definition rollback_failure :: "string option \<Rightarrow> string" where
  "rollback_failure err = (case err of None \<Rightarrow> ''unknown rollback failure'' | Some e \<Rightarrow> e)"

section \<open>The handle\<close>

record rollback =
  rb_id :: string
  rb_stage :: string
  rb_status :: string
  rb_value :: json
  rb_text :: string

definition rollback_start ::
  "owners \<Rightarrow> string \<Rightarrow> string \<Rightarrow> json \<Rightarrow> string \<Rightarrow> string \<Rightarrow> session_db \<Rightarrow> (string + rollback) \<times> session_db" where
  "rollback_start e now i reference hash dir db =
     (if (case reference of JObj _ \<Rightarrow> False | _ \<Rightarrow> True) then (Inl ''rollback session reference must be an object'', db)
      else if js_trim hash = [] then (Inl ''rollback checkpoint hash must be a non-empty string'', db)
      else if js_trim dir = [] then (Inl ''rollback working directory must be a non-empty string'', db)
      else case ensureSessionOwner e now (Inr reference) db of
        (Inl err, db1) \<Rightarrow> (Inl err, db1)
      | (Inr owner, db1) \<Rightarrow>
          if js_trim i = [] then (Inl ''rollback operation id must be a non-empty string'', db1)
          else (case snapshotPayload (JObj [(''reference'', reference), (''hash'', JStr hash), (''dir'', JStr dir)]) of
            Inl err \<Rightarrow> (Inl err, db1)
          | Inr (v, t) \<Rightarrow>
              (case create_operation \<lparr>op_id = i, op_owner = Some (as_id owner), op_kind = ''checkpoint_rollback'', op_status = ''running'',
                      op_stage = ''persisted'', op_payload = Some t, op_error = None, op_created = now, op_updated = now\<rparr> db1 of
                 None \<Rightarrow> (Inl ''UNIQUE constraint failed: operations.id'', db1)
               | Some db2 \<Rightarrow> (Inr \<lparr>rb_id = i, rb_stage = ''persisted'', rb_status = ''running'', rb_value = v, rb_text = t\<rparr>, db2))))"

definition rollback_write ::
  "string \<Rightarrow> string \<Rightarrow> string \<Rightarrow> string option \<Rightarrow> json option \<Rightarrow> session_db \<times> rollback \<Rightarrow> string option \<times> session_db \<times> rollback" where
  "rollback_write now nextStatus nextStage err details s =
     (let (db, rb) = s in
      if rb_status rb \<noteq> ''running'' then (Some (''rollback operation '' @ rb_id rb @ '' is already '' @ rb_status rb), s)
      else if nextStatus = ''running'' \<and> Some nextStage \<noteq> next_stage (rb_stage rb)
      then (Some (''rollback operation cannot advance from '' @ rb_stage rb @ '' to '' @ nextStage), s)
      else if nextStatus = ''completed'' \<and> (nextStage \<noteq> ''completed'' \<or> next_stage (rb_stage rb) \<noteq> Some ''completed'')
      then (Some (''rollback operation cannot complete from '' @ rb_stage rb), s)
      else case mergeDetails (rb_value rb) details of
        Inl e \<Rightarrow> (Some e, s)
      | Inr nextPayload \<Rightarrow>
          (case snapshotPayload nextPayload of
             Inl e \<Rightarrow> (Some e, s)
           | Inr (v, t) \<Rightarrow>
               if js_trim now = [] then (Some ''rollback operation timestamp must be a non-empty string'', s)
               else (let (changes, db') = updateWithPayload (rb_id rb) nextStatus nextStage t err now db in
                     if changes \<noteq> 1 then (Some (''rollback operation '' @ rb_id rb @ '' no longer exists''), (db', rb))
                     else (None, (db', rb\<lparr>rb_stage := nextStage, rb_status := nextStatus, rb_value := v, rb_text := t\<rparr>)))))"

datatype rollback_method = Advance string "json option" | CompleteRollback "json option" | Fail "string option"

fun rollback_call :: "string \<Rightarrow> rollback_method \<Rightarrow> session_db \<times> rollback \<Rightarrow> string option \<times> session_db \<times> rollback" where
  "rollback_call now (Advance nextStage details) s =
     (if js_trim nextStage = [] then (Some ''rollback operation stage must be a non-empty string'', s)
      else rollback_write now ''running'' nextStage None details s)"
| "rollback_call now (CompleteRollback details) s = rollback_write now ''completed'' ''completed'' None details s"
| "rollback_call now (Fail err) s = rollback_write now ''failed'' (rb_stage (snd s)) (Some (rollback_failure err)) None s"

text \<open>The calls of a client, with the status and stage after each that succeeded.\<close>

fun rollback_run :: "(string \<times> rollback_method) list \<Rightarrow> session_db \<times> rollback \<Rightarrow> (string \<times> string) list \<times> session_db \<times> rollback" where
  "rollback_run [] s = ([], s)"
| "rollback_run ((now, c) # cs) s =
     (case rollback_call now c s of
        (None, s1) \<Rightarrow> (let (log, s2) = rollback_run cs s1 in ((rb_status (snd s1), rb_stage (snd s1)) # log, s2))
      | (Some e, s1) \<Rightarrow> rollback_run cs s1)"

end
