(* ===== verification/Rollback_Properties.thy ===== *)
theory Rollback_Properties
  imports Rollback_Journal Deletion_Invariant
begin

text \<open>
  What the journal of a rollback records: the stages in their order, one end, and the identity of the rollback
  as it was started.
\<close>

section \<open>Payloads\<close>

lemma jsmap_set_values: "\<forall>kv \<in> set m. P (snd kv) \<Longrightarrow> P v \<Longrightarrow> \<forall>kv \<in> set (jsmap_set k v m). P (snd kv)"
  by (induction m) (force split: if_splits)+

lemma spread_fields:
  assumes "json_ok (JObj p)" and "json_ok (JObj d)"
  shows "\<exists>m. spread (JObj p) d = JObj m \<and> json_ok (JObj m) \<and> (\<forall>k. k \<notin> set (map fst d) \<longrightarrow> map_of m k = map_of p k)"
proof -
  have "\<exists>m. fold (\<lambda>(k, v). jsmap_set k v) d p = m \<and> json_ok (JObj m) \<and> (\<forall>k. k \<notin> set (map fst d) \<longrightarrow> map_of m k = map_of p k)"
    if "\<forall>kv \<in> set d. json_ok (snd kv)" "json_ok (JObj p)" for p
    using that
  proof (induction d arbitrary: p)
    case (Cons kv d)
    obtain k v where kv: "kv = (k, v)" by (cases kv)
    have "json_ok (JObj (jsmap_set k v p))"
      using Cons.prems jsmap_set_values [of p json_ok v k] by (auto simp: kv jsmap_ok_set [unfolded jsmap_ok_def])
    from Cons.IH [OF _ this] Cons.prems(1) show ?case by (auto simp: kv)
  qed simp
  from this [of p] assms show ?thesis by (auto simp: spread_def)
qed

definition identified :: "json \<Rightarrow> string \<Rightarrow> string \<Rightarrow> json \<Rightarrow> bool" where
  "identified reference hash dir v \<longleftrightarrow> (\<exists>m. v = JObj m \<and> json_ok v \<and> map_of m ''reference'' = Some reference
     \<and> map_of m ''hash'' = Some (JStr hash) \<and> map_of m ''dir'' = Some (JStr dir))"

definition details_ok :: "json option \<Rightarrow> bool" where
  "details_ok details \<longleftrightarrow> (\<forall>v. details = Some v \<longrightarrow> json_ok v)"

lemma merge_identified:
  assumes "identified reference hash dir v" and "details_ok details" and "mergeDetails v details = Inr v'"
  shows "identified reference hash dir v'"
proof -
  obtain m where m: "v = JObj m" "json_ok (JObj m)" "map_of m ''reference'' = Some reference"
    "map_of m ''hash'' = Some (JStr hash)" "map_of m ''dir'' = Some (JStr dir)" using assms(1) by (auto simp: identified_def)
  consider "v' = v" | d where "details = Some (JObj d)" "List.find (\<lambda>f. f \<in> set (map fst d)) identity_fields = None" "v' = spread v d"
    using assms(3) by (auto simp: mergeDetails_def split: option.splits json.splits)
  then show ?thesis
  proof cases
    case 2
    have "json_ok (JObj d)" using assms(2) 2(1) by (simp add: details_ok_def)
    from spread_fields [OF m(2) this] obtain m' where m': "v' = JObj m'" "json_ok (JObj m')"
      "\<forall>k. k \<notin> set (map fst d) \<longrightarrow> map_of m' k = map_of m k" using 2(3) m(1) by auto
    have "''reference'' \<notin> set (map fst d)" "''hash'' \<notin> set (map fst d)" "''dir'' \<notin> set (map fst d)"
      using 2(2) by (simp_all add: identity_fields_def split: if_splits)
    then show ?thesis using m m' unfolding identified_def by metis
  qed (use assms(1) in simp)
qed

lemma snapshot_value: "json_ok v \<Longrightarrow> snapshotPayload v = Inr (v, json_text v)"
  by (simp add: snapshotPayload_def json_parse_text)

section \<open>One call\<close>

definition rollback_inv :: "string \<Rightarrow> json \<Rightarrow> string \<Rightarrow> string \<Rightarrow> session_db \<times> rollback \<Rightarrow> bool" where
  "rollback_inv i reference hash dir s \<longleftrightarrow> session_db_ok (fst s) \<and> rb_id (snd s) = i \<and> identified reference hash dir (rb_value (snd s))
     \<and> (\<exists>row \<in> set (db_operations (fst s)). op_id row = i \<and> op_kind row = ''checkpoint_rollback'' \<and> op_status row = rb_status (snd s)
          \<and> op_stage row = rb_stage (snd s) \<and> op_payload row = Some (json_text (rb_value (snd s))))"

lemma write_inv:
  assumes inv: "rollback_inv i reference hash dir s" and "details_ok details"
    and w: "rollback_write now nextStatus nextStage err details s = (res, s')"
  shows "rollback_inv i reference hash dir s'
    \<and> (res = None \<longrightarrow> rb_status (snd s) = ''running'' \<and> rb_status (snd s') = nextStatus \<and> rb_stage (snd s') = nextStage
         \<and> (nextStatus = ''running'' \<longrightarrow> next_stage (rb_stage (snd s)) = Some nextStage)
         \<and> (nextStatus = ''completed'' \<longrightarrow> nextStage = ''completed'' \<and> next_stage (rb_stage (snd s)) = Some ''completed''))
    \<and> (res \<noteq> None \<longrightarrow> s' = s)"
proof -
  obtain db rb where s: "s = (db, rb)" by (cases s)
  from inv obtain row where row: "row \<in> set (db_operations db)" "op_id row = i" "op_kind row = ''checkpoint_rollback''"
    and ok: "session_db_ok db" and rb: "rb_id rb = i" "identified reference hash dir (rb_value rb)"
    by (auto simp: rollback_inv_def s)
  show ?thesis
  proof (cases res)
    case (Some e)
    have one: "fst (updateWithPayload (rb_id rb) a b t err now db) = 1" for a b t
      using changes_one [OF ok row(1)] row(2) rb(1) by (simp add: updateWithPayload_def change_operation_def)
    have "s' = s" using w Some one by (auto simp: rollback_write_def s Let_def split: if_splits sum.splits prod.splits) (metis fst_conv)+
    then show ?thesis using inv Some by simp
  next
    case None
    then obtain v where v: "mergeDetails (rb_value rb) details = Inr v" using w
      by (auto simp: rollback_write_def s Let_def split: if_splits sum.splits)
    have id: "identified reference hash dir v" by (rule merge_identified [OF rb(2) assms(2) v])
    then have "snapshotPayload v = Inr (v, json_text v)" by (auto simp: identified_def intro: snapshot_value)
    then have s': "s' = (snd (updateWithPayload i nextStatus nextStage (json_text v) err now db),
        rb\<lparr>rb_stage := nextStage, rb_status := nextStatus, rb_value := v, rb_text := json_text v\<rparr>)"
      and g: "rb_status rb = ''running''" "nextStatus = ''running'' \<longrightarrow> next_stage (rb_stage rb) = Some nextStage"
        "nextStatus = ''completed'' \<longrightarrow> nextStage = ''completed'' \<and> next_stage (rb_stage rb) = Some ''completed''"
      using w None v rb(1) by (auto simp: rollback_write_def s Let_def split: if_splits prod.splits)
    have "session_db_ok (fst s')" using change_operation_ok [OF ok] by (simp add: s' updateWithPayload_def)
    moreover have "\<exists>row \<in> set (db_operations (fst s')). op_id row = i \<and> op_kind row = ''checkpoint_rollback'' \<and> op_status row = nextStatus
        \<and> op_stage row = nextStage \<and> op_payload row = Some (json_text v)"
      using changed_row [OF row(1,2), of "\<lambda>o'. o'\<lparr>op_status := nextStatus, op_stage := nextStage, op_payload := Some (json_text v), op_error := err, op_updated := now\<rparr>"] row(2,3)
      unfolding s' updateWithPayload_def fst_conv by (intro bexI conjI) simp_all
    ultimately show ?thesis using id rb(1) g None by (simp add: rollback_inv_def s s')
  qed
qed

fun method_ok :: "rollback_method \<Rightarrow> bool" where
  "method_ok (Advance stage details) = details_ok details"
| "method_ok (CompleteRollback details) = details_ok details"
| "method_ok (Fail err) = True"

lemma call_inv:
  assumes "rollback_inv i reference hash dir s" and "method_ok c" and "rollback_call now c s = (res, s')"
  shows "rollback_inv i reference hash dir s' \<and> (res \<noteq> None \<longrightarrow> s' = s)
    \<and> (res = None \<longrightarrow> rb_status (snd s) = ''running''
        \<and> ((rb_status (snd s') = ''running'' \<and> next_stage (rb_stage (snd s)) = Some (rb_stage (snd s')))
         \<or> (rb_status (snd s') = ''completed'' \<and> rb_stage (snd s') = ''completed'' \<and> next_stage (rb_stage (snd s)) = Some ''completed'')
         \<or> (rb_status (snd s') = ''failed'' \<and> rb_stage (snd s') = rb_stage (snd s))))"
proof -
  have "details_ok None" by (simp add: details_ok_def)
  then show ?thesis using assms write_inv [OF assms(1)] by (cases c) (auto split: if_splits dest!: write_inv [OF assms(1)])
qed

section \<open>The history of a rollback\<close>

definition rollback_stages :: "string list" where
  "rollback_stages = [''persisted'', ''safety_checkpointed'', ''session_forked'', ''git_reset'', ''inheritance_recorded'', ''runner_opened'', ''completed'']"

lemma next_stage_nth: "k < 7 \<Longrightarrow> next_stage (rollback_stages ! k) = (if k < 6 then Some (rollback_stages ! Suc k) else None)"
proof -
  assume "k < 7"
  then consider "k = 0" | "k = 1" | "k = 2" | "k = 3" | "k = 4" | "k = 5" | "k = 6" by linarith
  then show ?thesis by cases (simp_all add: next_stage_def rollback_stages_def)
qed

lemma completed_last: "k < 7 \<Longrightarrow> next_stage (rollback_stages ! k) = Some ''completed'' \<Longrightarrow> k = 5"
proof -
  assume "k < 7" and n: "next_stage (rollback_stages ! k) = Some ''completed''"
  then consider "k = 0" | "k = 1" | "k = 2" | "k = 3" | "k = 4" | "k = 5" | "k = 6" by linarith
  then show "k = 5" by cases (use n in \<open>simp_all add: next_stage_def rollback_stages_def\<close>)
qed

definition rollback_end :: "nat \<Rightarrow> (string \<times> string) list \<Rightarrow> bool" where
  "rollback_end k fin \<longleftrightarrow> fin = [] \<or> fin = [(''failed'', rollback_stages ! k)] \<or> (k = 5 \<and> fin = [(''completed'', ''completed'')])"

lemma ended_run:
  assumes "rollback_inv i reference hash dir s" and "rb_status (snd s) \<noteq> ''running''" and "\<forall>x \<in> set calls. method_ok (snd x)"
  shows "rollback_run calls s = ([], s)"
  using assms
proof (induction calls)
  case (Cons x calls)
  obtain now c res s' where x: "x = (now, c)" and c: "rollback_call now c s = (res, s')" by (metis prod.exhaust)
  have "res \<noteq> None" "s' = s" using call_inv [OF Cons.prems(1) _ c] Cons.prems(2,3) x by auto
  then show ?case using Cons x c by auto
qed simp

lemma run_history:
  assumes "rollback_inv i reference hash dir s" and "rb_status (snd s) = ''running''" and "rb_stage (snd s) = rollback_stages ! k" and "k < 7"
    and "\<forall>x \<in> set calls. method_ok (snd x)" and "rollback_run calls s = (log, s')"
  shows "rollback_inv i reference hash dir s' \<and> (rb_status (snd s'), rb_stage (snd s')) = last ((''running'', rollback_stages ! k) # log)
    \<and> (\<exists>j fin. k + j < 7 \<and> log = map (Pair ''running'') (take j (drop (Suc k) rollback_stages)) @ fin \<and> rollback_end (k + j) fin)"
  using assms
proof (induction calls arbitrary: s k log)
  case Nil
  then show ?case by (auto simp: rollback_end_def intro!: exI [of _ 0])
next
  case (Cons x calls)
  obtain now c res s1 where x: "x = (now, c)" and c: "rollback_call now c s = (res, s1)" by (metis prod.exhaust)
  note ci = call_inv [OF Cons.prems(1) _ c]
  have m: "method_ok c" "\<forall>x \<in> set calls. method_ok (snd x)" using Cons.prems(5) x by auto
  show ?case
  proof (cases res)
    case (Some e)
    then have "rollback_run calls s = (log, s')" using Cons.prems(6) x c ci [OF m(1)] by simp
    from Cons.IH [OF Cons.prems(1-4) m(2) this] show ?thesis .
  next
    case None
    obtain log1 where r: "rollback_run calls s1 = (log1, s')" "log = (rb_status (snd s1), rb_stage (snd s1)) # log1"
      using Cons.prems(6) x c None by (auto split: prod.splits)
    have i1: "rollback_inv i reference hash dir s1" using ci [OF m(1)] by simp
    from ci [OF m(1)] None consider
        "rb_status (snd s1) = ''running''" "next_stage (rollback_stages ! k) = Some (rb_stage (snd s1))"
      | "rb_status (snd s1) = ''completed''" "rb_stage (snd s1) = ''completed''" "next_stage (rollback_stages ! k) = Some ''completed''"
      | "rb_status (snd s1) = ''failed''" "rb_stage (snd s1) = rollback_stages ! k" using Cons.prems(3) by auto
    then show ?thesis
    proof cases
      case 1
      then have k: "Suc k < 7" "rb_stage (snd s1) = rollback_stages ! Suc k" using next_stage_nth [OF Cons.prems(4)] by (auto split: if_splits)
      from Cons.IH [OF i1 1(1) k(2,1) m(2) r(1)] obtain j fin where j: "rollback_inv i reference hash dir s'"
        "(rb_status (snd s'), rb_stage (snd s')) = last ((''running'', rollback_stages ! Suc k) # log1)" "Suc k + j < 7"
        "log1 = map (Pair ''running'') (take j (drop (Suc (Suc k)) rollback_stages)) @ fin" "rollback_end (Suc k + j) fin" by blast
      have "Suc k < length rollback_stages" using k(1) by (simp add: rollback_stages_def)
      then have "take (Suc j) (drop (Suc k) rollback_stages) = rollback_stages ! Suc k # take j (drop (Suc (Suc k)) rollback_stages)"
        by (simp add: Cons_nth_drop_Suc [symmetric])
      then show ?thesis using j r(2) 1(1) k(2) by (auto intro!: exI [of _ "Suc j"])
    next
      case 2
      have "log1 = []" "s' = s1" using ended_run [OF i1 _ m(2)] 2(1) r(1) by simp_all
      then show ?thesis using r(2) 2 i1 completed_last [OF Cons.prems(4) 2(3)]
        by (auto simp: rollback_end_def intro!: exI [of _ 0])
    next
      case 3
      have "log1 = []" "s' = s1" using ended_run [OF i1 _ m(2)] 3(1) r(1) by simp_all
      then show ?thesis using r(2) 3 i1 Cons.prems(4) by (auto simp: rollback_end_def intro!: exI [of _ 0])
    qed
  qed
qed

lemma start_inv:
  assumes "session_db_ok db" and "json_ok reference" and "rollback_start e now i reference hash dir db = (Inr rb, db1)"
  shows "rollback_inv i reference hash dir (db1, rb) \<and> rb_status rb = ''running'' \<and> rb_stage rb = ''persisted''"
proof -
  let ?v = "JObj [(''reference'', reference), (''hash'', JStr hash), (''dir'', JStr dir)]"
  have v: "json_ok ?v" using assms(2) by simp
  obtain row db0 where e: "ensureSessionOwner e now (Inr reference) db = (Inr row, db0)"
    using assms(3) by (auto simp: rollback_start_def split: if_splits prod.splits sum.splits json.splits)
  have ok: "session_db_ok db0" using ensure_ok [OF assms(1), of e now "Inr reference"] e by simp
  let ?row = "\<lparr>op_id = i, op_owner = Some (as_id row), op_kind = ''checkpoint_rollback'', op_status = ''running'',
                      op_stage = ''persisted'', op_payload = Some (json_text ?v), op_error = None, op_created = now, op_updated = now\<rparr>"
  have c: "create_operation ?row db0 = Some db1" and rb: "rb = \<lparr>rb_id = i, rb_stage = ''persisted'', rb_status = ''running'', rb_value = ?v, rb_text = json_text ?v\<rparr>"
    using assms(3) e snapshot_value [OF v] by (auto simp: rollback_start_def split: if_splits option.splits json.splits)
  have "session_db_ok db1" using create_operation_ok [OF ok c] .
  moreover have "?row \<in> set (db_operations db1)" using c by (auto simp: create_operation_def split: if_splits)
  then have "\<exists>row \<in> set (db_operations db1). op_id row = i \<and> op_kind row = ''checkpoint_rollback'' \<and> op_status row = ''running''
      \<and> op_stage row = ''persisted'' \<and> op_payload row = Some (json_text ?v)" by (intro bexI [of _ ?row]) simp_all
  moreover have "identified reference hash dir ?v" using v by (simp add: identified_def)
  ultimately show ?thesis by (simp add: rollback_inv_def rb)
qed

text \<open>
  C19: The journal of a rollback is a true history.  Whatever the client calls on the handle, with any details,
  the writes that succeed move through the stages in their order without a gap, and at most one end follows,
  which is a failure at the stage reached or the completion after the runner was opened; the row in the table
  holds the last of them, and the reference, hash and directory the rollback was started with.
\<close>

theorem rollback_history:
  assumes "session_db_ok db" and "json_ok reference" and "rollback_start e now i reference hash dir db = (Inr rb, db1)"
    and "\<forall>x \<in> set calls. method_ok (snd x)" and "rollback_run calls (db1, rb) = (log, (db2, rb2))"
  shows "\<exists>k fin row m. log = map (Pair ''running'') (take k (tl rollback_stages)) @ fin \<and> rollback_end k fin
    \<and> row \<in> set (db_operations db2) \<and> op_id row = i \<and> (op_status row, op_stage row) = last ((''running'', ''persisted'') # log)
    \<and> Option.bind (op_payload row) json_parse = Some (JObj m)
    \<and> map_of m ''reference'' = Some reference \<and> map_of m ''hash'' = Some (JStr hash) \<and> map_of m ''dir'' = Some (JStr dir)"
proof -
  note s = start_inv [OF assms(1-3)]
  have "rb_stage (snd (db1, rb)) = rollback_stages ! 0" "rb_status (snd (db1, rb)) = ''running''" "(0::nat) < 7"
    using s by (simp_all add: rollback_stages_def)
  from run_history [OF conjunct1 [OF s] this(2,1,3) assms(4,5)] obtain j fin where j: "rollback_inv i reference hash dir (db2, rb2)"
    "(rb_status rb2, rb_stage rb2) = last ((''running'', rollback_stages ! 0) # log)"
    "log = map (Pair ''running'') (take j (drop (Suc 0) rollback_stages)) @ fin" "rollback_end j fin"
    unfolding fst_conv snd_conv plus_nat.add_0 by blast
  from j(1) obtain row where row: "row \<in> set (db_operations db2)" "op_id row = i" "op_status row = rb_status rb2" "op_stage row = rb_stage rb2"
    "op_payload row = Some (json_text (rb_value rb2))" and id: "identified reference hash dir (rb_value rb2)" by (auto simp: rollback_inv_def)
  from id obtain m where m: "rb_value rb2 = JObj m" "json_ok (rb_value rb2)" "map_of m ''reference'' = Some reference"
    "map_of m ''hash'' = Some (JStr hash)" "map_of m ''dir'' = Some (JStr dir)" by (auto simp: identified_def)
  have "rollback_stages ! 0 = ''persisted''" by (simp add: rollback_stages_def)
  then show ?thesis using j(2-4) row m json_parse_text [OF m(2)] by (auto simp: drop_Suc intro!: exI [of _ j] exI [of _ fin] exI [of _ row] exI [of _ m])
qed

theorem rollback_history_witness:
  "\<exists>rb db1 log db2 rb2 k fin. rollback_start ex_owners ''t'' ''op'' (JObj [(''backend'', JStr ''sqlite''), (''id'', JStr ''x''), (''storagePath'', JStr ''/a/db'')])
       ''h'' ''/w'' \<lparr>db_sessions = [], db_operations = [], db_owned = []\<rparr> = (Inr rb, db1)
     \<and> rollback_run [(''u'', Advance ''safety_checkpointed'' (Some (JObj [(''safety'', JStr ''c'')]))), (''v'', Fail None)] (db1, rb) = (log, (db2, rb2))
     \<and> log = map (Pair ''running'') (take k (tl rollback_stages)) @ fin \<and> rollback_end k fin"
proof -
  let ?r = "JObj [(''backend'', JStr ''sqlite''), (''id'', JStr ''x''), (''storagePath'', JStr ''/a/db'')]"
  let ?db = "\<lparr>db_sessions = [], db_operations = [], db_owned = []\<rparr>"
  let ?calls = "[(''u'', Advance ''safety_checkpointed'' (Some (JObj [(''safety'', JStr ''c'')]))), (''v'', Fail None)]"
  have "(case fst (rollback_start ex_owners ''t'' ''op'' ?r ''h'' ''/w'' ?db) of Inl _ \<Rightarrow> False | Inr _ \<Rightarrow> True)" by code_simp
  then obtain rb db1 where s: "rollback_start ex_owners ''t'' ''op'' ?r ''h'' ''/w'' ?db = (Inr rb, db1)"
    by (cases "rollback_start ex_owners ''t'' ''op'' ?r ''h'' ''/w'' ?db") (auto split: sum.splits)
  obtain log db2 rb2 where r: "rollback_run ?calls (db1, rb) = (log, (db2, rb2))" by (metis prod_cases3)
  have "session_db_ok ?db" "json_ok ?r" "\<forall>x \<in> set ?calls. method_ok (snd x)" by (simp_all add: session_db_ok_def details_ok_def)
  from rollback_history [OF this(1,2) s this(3) r] s r show ?thesis by blast
qed

end
