(* ===== verification/Routine_Store.thy ===== *)
theory Routine_Store
  imports Session_Store
begin

text \<open>
  The routines repository of \<^verbatim>\<open>server/persistence/appStore.mjs\<close> with the tables of
  \<^verbatim>\<open>server/persistence/migrations.mjs\<close>: definitions, runs and log lines.  \<^term>\<open>None\<close> is a rejected
  statement (a constraint of the table) or a row that does not exist.
\<close>

section \<open>Tables\<close>

record routine_row =
  ro_id :: string
  ro_owner :: "nat option"
  ro_name :: string
  ro_script :: string
  ro_revision :: nat
  ro_cwd :: "string option"
  ro_created :: string
  ro_updated :: string

record routine_run =
  rr_id :: string
  rr_routine :: string
  rr_mode :: string
  rr_status :: string
  rr_progress :: "nat option"
  rr_message :: "string option"
  rr_result :: "string option"
  rr_started :: string
  rr_finished :: "string option"
  rr_exit :: "int option"
  rr_error :: "string option"

record log_line =
  ll_run :: string
  ll_sequence :: nat
  ll_stream :: string
  ll_text :: string
  ll_created :: string

record routine_db =
  rt_sessions :: "app_session list"
  rt_routines :: "routine_row list"
  rt_runs :: "routine_run list"
  rt_logs :: "log_line list"

section \<open>Definitions\<close>

text \<open>The joined column \<^verbatim>\<open>session_id\<close>.\<close>

definition routine_session :: "routine_db \<Rightarrow> routine_row \<Rightarrow> string option" where
  "routine_session db r =
     Option.bind (ro_owner r) (\<lambda>i. map_option as_session (List.find (\<lambda>s. as_id s = i) (rt_sessions db)))"

text \<open>A filter that is not given is \<^term>\<open>None\<close>.\<close>

definition list_routines :: "string option option \<Rightarrow> nat option option \<Rightarrow> routine_db \<Rightarrow> routine_row list" where
  "list_routines sessionId ownerId db =
     sort_key ro_name (filter (\<lambda>r. (case sessionId of None \<Rightarrow> True | Some v \<Rightarrow> routine_session db r = v)
                                 \<and> (case ownerId of None \<Rightarrow> True | Some v \<Rightarrow> ro_owner r = v)) (rt_routines db))"

definition findByName :: "string \<Rightarrow> routine_db \<Rightarrow> routine_row option" where
  "findByName name db = List.find (\<lambda>r. ro_name r = name) (rt_routines db)"

definition change_routine :: "string \<Rightarrow> (routine_row \<Rightarrow> routine_row) \<Rightarrow> routine_db \<Rightarrow> routine_db" where
  "change_routine i f db = db\<lparr>rt_routines := map (\<lambda>r. if ro_id r = i then f r else r) (rt_routines db)\<rparr>"

definition upsert_routine ::
  "string \<Rightarrow> nat option \<Rightarrow> string \<Rightarrow> string \<Rightarrow> string option \<Rightarrow> string \<Rightarrow> routine_db \<Rightarrow> (routine_row \<times> routine_db) option" where
  "upsert_routine i ownerId name script cwd now db =
     (case findByName name db of
        Some old \<Rightarrow>
          (let row = old\<lparr>ro_owner := ownerId, ro_script := script, ro_cwd := cwd, ro_revision := ro_revision old + 1, ro_updated := now\<rparr>
           in Some (row, db\<lparr>rt_routines := map (\<lambda>r. if ro_name r = name then row else r) (rt_routines db)\<rparr>))
      | None \<Rightarrow>
          if i \<in> ro_id ` set (rt_routines db) then None
          else (let row = \<lparr>ro_id = i, ro_owner = ownerId, ro_name = name, ro_script = script, ro_revision = 1, ro_cwd = cwd,
                           ro_created = now, ro_updated = now\<rparr>
                in Some (row, db\<lparr>rt_routines := rt_routines db @ [row]\<rparr>)))"

definition bind_routine :: "string \<Rightarrow> nat option \<Rightarrow> string option \<Rightarrow> string \<Rightarrow> routine_db \<Rightarrow> routine_db" where
  "bind_routine i ownerId cwd updatedAt = change_routine i (\<lambda>r. r\<lparr>ro_owner := ownerId, ro_cwd := cwd, ro_updated := updatedAt\<rparr>)"

definition updateCwd :: "string \<Rightarrow> string option \<Rightarrow> string \<Rightarrow> routine_db \<Rightarrow> routine_db" where
  "updateCwd i cwd updatedAt = change_routine i (\<lambda>r. r\<lparr>ro_cwd := cwd, ro_updated := updatedAt\<rparr>)"

definition release_routine :: "string \<Rightarrow> string \<Rightarrow> routine_db \<Rightarrow> routine_db" where
  "release_routine i updatedAt = change_routine i (\<lambda>r. r\<lparr>ro_owner := None, ro_cwd := None, ro_updated := updatedAt\<rparr>)"

text \<open>Runs and their logs disappear with the routine.\<close>

definition delete_routine :: "string \<Rightarrow> routine_db \<Rightarrow> routine_db" where
  "delete_routine i db =
     (let gone = rr_id ` set (filter (\<lambda>r. rr_routine r = i) (rt_runs db)) in
      db\<lparr>rt_routines := filter (\<lambda>r. ro_id r \<noteq> i) (rt_routines db),
         rt_runs := filter (\<lambda>r. rr_routine r \<noteq> i) (rt_runs db),
         rt_logs := filter (\<lambda>l. ll_run l \<notin> gone) (rt_logs db)\<rparr>)"

section \<open>Runs\<close>

definition createRun :: "string \<Rightarrow> string \<Rightarrow> string \<Rightarrow> string \<Rightarrow> string \<Rightarrow> routine_db \<Rightarrow> routine_db option" where
  "createRun i routineId mode status startedAt db =
     (if i \<in> rr_id ` set (rt_runs db) \<or> routineId \<notin> ro_id ` set (rt_routines db) \<or> mode \<notin> {''run'', ''teardown''} then None
      else Some (db\<lparr>rt_runs := rt_runs db @ [\<lparr>rr_id = i, rr_routine = routineId, rr_mode = mode, rr_status = status, rr_progress = None,
             rr_message = None, rr_result = None, rr_started = startedAt, rr_finished = None, rr_exit = None, rr_error = None\<rparr>]\<rparr>))"

definition change_run :: "string \<Rightarrow> (routine_run \<Rightarrow> routine_run) \<Rightarrow> routine_db \<Rightarrow> routine_db" where
  "change_run i f db = db\<lparr>rt_runs := map (\<lambda>r. if rr_id r = i then f r else r) (rt_runs db)\<rparr>"

text \<open>The column is checked to lie between 0 and 100.\<close>

definition updateProgress :: "string \<Rightarrow> nat option \<Rightarrow> string option \<Rightarrow> routine_db \<Rightarrow> routine_db option" where
  "updateProgress i progress message db =
     (if (case progress of None \<Rightarrow> False | Some p \<Rightarrow> p > 100) \<and> i \<in> rr_id ` set (rt_runs db) then None
      else Some (change_run i (\<lambda>r. r\<lparr>rr_progress := progress, rr_message := message\<rparr>) db))"

definition updateRunStatus :: "string \<Rightarrow> string \<Rightarrow> routine_db \<Rightarrow> routine_db" where
  "updateRunStatus i status = change_run i (\<lambda>r. r\<lparr>rr_status := status\<rparr>)"

definition finishRun ::
  "string \<Rightarrow> string \<Rightarrow> string option \<Rightarrow> string \<Rightarrow> int option \<Rightarrow> string option \<Rightarrow> routine_db \<Rightarrow> routine_db" where
  "finishRun i status res finishedAt exitCode err =
     change_run i (\<lambda>r. r\<lparr>rr_status := status, rr_result := res, rr_finished := Some finishedAt, rr_exit := exitCode, rr_error := err\<rparr>)"

definition findRun :: "string \<Rightarrow> routine_db \<Rightarrow> routine_run option" where
  "findRun i db = List.find (\<lambda>r. rr_id r = i) (rt_runs db)"

definition listRuns :: "string \<Rightarrow> routine_db \<Rightarrow> routine_run list" where
  "listRuns routineId db = sort_key (\<lambda>r. (rr_started r, rr_id r)) (filter (\<lambda>r. rr_routine r = routineId) (rt_runs db))"

definition findLatestRun :: "string \<Rightarrow> routine_db \<Rightarrow> routine_run option" where
  "findLatestRun routineId db = (case rev (listRuns routineId db) of [] \<Rightarrow> None | r # _ \<Rightarrow> Some r)"

definition interruptUnfinishedRuns :: "string \<Rightarrow> routine_db \<Rightarrow> routine_db" where
  "interruptUnfinishedRuns finishedAt db =
     db\<lparr>rt_runs := map (\<lambda>r. if rr_finished r = None
          then r\<lparr>rr_status := ''interrupted'', rr_finished := Some finishedAt,
                 rr_error := (case rr_error r of None \<Rightarrow> Some ''server restarted before the routine process finished'' | e \<Rightarrow> e)\<rparr>
          else r) (rt_runs db)\<rparr>"

section \<open>Logs\<close>

definition log_of :: "string \<Rightarrow> routine_db \<Rightarrow> log_line list" where
  "log_of runId db = filter (\<lambda>l. ll_run l = runId) (rt_logs db)"

definition last_sequence :: "string \<Rightarrow> routine_db \<Rightarrow> nat" where
  "last_sequence runId db = foldl max 0 (map ll_sequence (log_of runId db))"

definition appendLog :: "string \<Rightarrow> string \<Rightarrow> string \<Rightarrow> string \<Rightarrow> nat \<Rightarrow> routine_db \<Rightarrow> (nat \<times> routine_db) option" where
  "appendLog runId stream t createdAt limit db =
     (if limit < 1 \<or> runId \<notin> rr_id ` set (rt_runs db) \<or> stream \<notin> {''stdout'', ''stderr''} then None
      else (let fresh = last_sequence runId db + 1;
                line = \<lparr>ll_run = runId, ll_sequence = fresh, ll_stream = stream, ll_text = t, ll_created = createdAt\<rparr>
            in Some (fresh, db\<lparr>rt_logs := filter (\<lambda>l. \<not> (ll_run l = runId \<and> ll_sequence l \<le> fresh - limit)) (rt_logs db @ [line])\<rparr>)))"

definition listLogs :: "string \<Rightarrow> routine_db \<Rightarrow> log_line list" where
  "listLogs runId db = sort_key ll_sequence (log_of runId db)"

section \<open>Consistency of the tables\<close>

definition routine_db_ok :: "routine_db \<Rightarrow> bool" where
  "routine_db_ok db \<longleftrightarrow> distinct (map ro_id (rt_routines db)) \<and> distinct (map ro_name (rt_routines db))
     \<and> distinct (map rr_id (rt_runs db)) \<and> rr_routine ` set (rt_runs db) \<subseteq> ro_id ` set (rt_routines db)
     \<and> (\<forall>r \<in> set (rt_runs db). \<forall>p. rr_progress r = Some p \<longrightarrow> p \<le> 100) \<and> ll_run ` set (rt_logs db) \<subseteq> rr_id ` set (rt_runs db)"

lemma change_routine_ok [inv_rules]:
  "routine_db_ok db \<Longrightarrow> (\<And>r. ro_id (f r) = ro_id r \<and> ro_name (f r) = ro_name r) \<Longrightarrow> routine_db_ok (change_routine i f db)"
proof -
  assume ok: "routine_db_ok db" and f: "\<And>r. ro_id (f r) = ro_id r \<and> ro_name (f r) = ro_name r"
  have "map ro_id (rt_routines (change_routine i f db)) = map ro_id (rt_routines db)"
    "map ro_name (rt_routines (change_routine i f db)) = map ro_name (rt_routines db)"
    using f by (simp_all add: change_routine_def)
  moreover from this(1) have "ro_id ` set (rt_routines (change_routine i f db)) = ro_id ` set (rt_routines db)"
    by (metis list.set_map)
  moreover have "rt_runs (change_routine i f db) = rt_runs db" "rt_logs (change_routine i f db) = rt_logs db" by (simp_all add: change_routine_def)
  ultimately show ?thesis using ok unfolding routine_db_ok_def by simp
qed

lemma map_runs_ok:
  assumes ok: "routine_db_ok db" and f: "\<And>r. rr_id (f r) = rr_id r \<and> rr_routine (f r) = rr_routine r"
    and p: "\<And>r q. r \<in> set (rt_runs db) \<Longrightarrow> rr_progress (f r) = Some q \<Longrightarrow> q \<le> 100"
  shows "routine_db_ok (db\<lparr>rt_runs := map f (rt_runs db)\<rparr>)"
proof -
  have m: "map rr_id (map f (rt_runs db)) = map rr_id (rt_runs db)" "map rr_routine (map f (rt_runs db)) = map rr_routine (rt_runs db)"
    using f by simp_all
  have "map (rr_id \<circ> f) (rt_runs db) = map rr_id (rt_runs db)" using f by simp
  then have d: "distinct (map (rr_id \<circ> f) (rt_runs db))" using ok by (simp only: routine_db_ok_def)
  from m have "rr_id ` set (map f (rt_runs db)) = rr_id ` set (rt_runs db)" "rr_routine ` set (map f (rt_runs db)) = rr_routine ` set (rt_runs db)"
    by (metis list.set_map)+
  moreover have "\<forall>r \<in> set (map f (rt_runs db)). \<forall>q. rr_progress r = Some q \<longrightarrow> q \<le> 100" using p by auto
  ultimately show ?thesis using ok d unfolding routine_db_ok_def by simp
qed

lemma change_run_ok [inv_rules]:
  assumes ok: "routine_db_ok db" and f: "\<And>r. rr_id (f r) = rr_id r \<and> rr_routine (f r) = rr_routine r"
    and p: "\<And>r q. r \<in> set (rt_runs db) \<Longrightarrow> rr_progress (f r) = Some q \<Longrightarrow> q \<le> 100"
  shows "routine_db_ok (change_run i f db)"
proof -
  have "q \<le> 100" if "r \<in> set (rt_runs db)" "rr_progress (if rr_id r = i then f r else r) = Some q" for r q
    using that p ok unfolding routine_db_ok_def by (cases "rr_id r = i") auto
  then show ?thesis unfolding change_run_def using f by (intro map_runs_ok [OF ok]) auto
qed

lemma upsert_routine_ok [inv_rules]: "routine_db_ok db \<Longrightarrow> upsert_routine i ownerId name script cwd now db = Some (row, db') \<Longrightarrow> routine_db_ok db'"
proof (cases "findByName name db")
  case None
  assume ok: "routine_db_ok db" and u: "upsert_routine i ownerId name script cwd now db = Some (row, db')"
  have "name \<notin> ro_name ` set (rt_routines db)" using None by (auto simp: findByName_def find_None_iff)
  then have "db' = db\<lparr>rt_routines := rt_routines db @ [row]\<rparr>" "ro_id row \<notin> ro_id ` set (rt_routines db)" "ro_name row \<notin> ro_name ` set (rt_routines db)"
    using u None by (auto simp: upsert_routine_def Let_def split: if_splits)
  then show ?thesis using ok unfolding routine_db_ok_def by (simp add: subset_insertI2)
next
  case (Some old)
  assume ok: "routine_db_ok db" and u: "upsert_routine i ownerId name script cwd now db = Some (row, db')"
  have old: "old \<in> set (rt_routines db)" "ro_name old = name" using Some by (auto simp: findByName_def find_Some_iff)
  let ?f = "\<lambda>r. r\<lparr>ro_owner := ownerId, ro_script := script, ro_cwd := cwd, ro_revision := ro_revision r + 1, ro_updated := now\<rparr>"
  have "\<forall>r \<in> set (rt_routines db). ro_name r = name \<longleftrightarrow> ro_id r = ro_id old" "\<forall>r \<in> set (rt_routines db). ro_name r = name \<longrightarrow> r = old"
    using ok old by (auto simp: routine_db_ok_def distinct_map inj_on_def)
  then have m: "map (\<lambda>r. if ro_name r = name then ?f old else r) (rt_routines db) = map (\<lambda>r. if ro_id r = ro_id old then ?f r else r) (rt_routines db)"
    by (intro map_cong) auto
  have "db' = db\<lparr>rt_routines := map (\<lambda>r. if ro_name r = name then ?f old else r) (rt_routines db)\<rparr>"
    using u Some by (auto simp: upsert_routine_def Let_def)
  then have "db' = change_routine (ro_id old) ?f db" by (simp only: change_routine_def m)
  then show ?thesis using change_routine_ok [OF ok, of ?f] by simp
qed

lemma delete_routine_ok [inv_rules]: "routine_db_ok db \<Longrightarrow> routine_db_ok (delete_routine i db)"
proof -
  assume ok: "routine_db_ok db"
  have "ll_run l \<in> rr_id ` set (filter (\<lambda>r. rr_routine r \<noteq> i) (rt_runs db))"
    if "l \<in> set (rt_logs db)" "ll_run l \<notin> rr_id ` set (filter (\<lambda>r. rr_routine r = i) (rt_runs db))" for l
  proof -
    have "ll_run l \<in> rr_id ` set (rt_runs db)" using ok that(1) unfolding routine_db_ok_def by blast
    then obtain r where "r \<in> set (rt_runs db)" "rr_id r = ll_run l" by force
    then show ?thesis using that(2) by force
  qed
  moreover have "rr_routine r \<in> ro_id ` set (filter (\<lambda>r. ro_id r \<noteq> i) (rt_routines db))"
    if "r \<in> set (rt_runs db)" "rr_routine r \<noteq> i" for r
  proof -
    have "rr_routine r \<in> ro_id ` set (rt_routines db)" using ok that(1) unfolding routine_db_ok_def by blast
    then obtain x where "x \<in> set (rt_routines db)" "ro_id x = rr_routine r" by force
    then show ?thesis using that(2) by force
  qed
  ultimately show ?thesis using ok unfolding routine_db_ok_def delete_routine_def Let_def
    by (simp add: distinct_map_filter image_subset_iff) blast
qed

lemma createRun_SomeD:
  "createRun i rid mode status at db = Some db' \<Longrightarrow> i \<notin> rr_id ` set (rt_runs db) \<and> rid \<in> ro_id ` set (rt_routines db)
   \<and> db' = db\<lparr>rt_runs := rt_runs db @ [\<lparr>rr_id = i, rr_routine = rid, rr_mode = mode, rr_status = status, rr_progress = None,
             rr_message = None, rr_result = None, rr_started = at, rr_finished = None, rr_exit = None, rr_error = None\<rparr>]\<rparr>"
  unfolding createRun_def by (split if_split_asm) simp_all

lemma createRun_ok [inv_rules]: "routine_db_ok db \<Longrightarrow> createRun i rid mode status at db = Some db' \<Longrightarrow> routine_db_ok db'"
proof -
  assume ok: "routine_db_ok db" and "createRun i rid mode status at db = Some db'"
  note c = createRun_SomeD [OF this(2)]
  then show ?thesis using ok unfolding routine_db_ok_def by (simp add: subset_insertI2)
qed

lemma updateProgress_ok [inv_rules]: "routine_db_ok db \<Longrightarrow> updateProgress i p m db = Some db' \<Longrightarrow> routine_db_ok db'"
proof -
  assume ok: "routine_db_ok db" and u: "updateProgress i p m db = Some db'"
  show ?thesis
  proof (cases "i \<in> rr_id ` set (rt_runs db)")
    case True
    then have "db' = change_run i (\<lambda>r. r\<lparr>rr_progress := p, rr_message := m\<rparr>) db" "\<And>q. p = Some q \<Longrightarrow> q \<le> 100"
      using u by (auto simp: updateProgress_def split: if_splits)
    then show ?thesis using change_run_ok [OF ok, of "\<lambda>r. r\<lparr>rr_progress := p, rr_message := m\<rparr>" i] by simp
  next
    case False
    then have "map (\<lambda>r. if rr_id r = i then r\<lparr>rr_progress := p, rr_message := m\<rparr> else r) (rt_runs db) = rt_runs db"
      by (intro map_idI) auto
    then have "db' = db" using u False by (simp add: updateProgress_def change_run_def)
    then show ?thesis using ok by simp
  qed
qed

lemma updateRunStatus_ok [inv_rules]: "routine_db_ok db \<Longrightarrow> routine_db_ok (updateRunStatus i st db)"
  unfolding updateRunStatus_def by (rule change_run_ok) (auto simp: routine_db_ok_def)

lemma finishRun_ok [inv_rules]: "routine_db_ok db \<Longrightarrow> routine_db_ok (finishRun i st res at code err db)"
  unfolding finishRun_def by (rule change_run_ok) (auto simp: routine_db_ok_def)

lemma appendLog_SomeD:
  assumes "appendLog r st t at lim db = Some (n, db')"
  shows "0 < lim \<and> r \<in> rr_id ` set (rt_runs db) \<and> n = last_sequence r db + 1
    \<and> db' = db\<lparr>rt_logs := filter (\<lambda>l. \<not> (ll_run l = r \<and> ll_sequence l \<le> n - lim))
                (rt_logs db @ [\<lparr>ll_run = r, ll_sequence = n, ll_stream = st, ll_text = t, ll_created = at\<rparr>])\<rparr>"
proof -
  have c: "\<not> (lim < 1 \<or> r \<notin> rr_id ` set (rt_runs db) \<or> st \<notin> {''stdout'', ''stderr''})"
    using assms unfolding appendLog_def by (rule contrapos_pn) simp
  then have "appendLog r st t at lim db = Some (last_sequence r db + 1, db\<lparr>rt_logs := filter (\<lambda>l. \<not> (ll_run l = r \<and> ll_sequence l \<le> last_sequence r db + 1 - lim))
                (rt_logs db @ [\<lparr>ll_run = r, ll_sequence = last_sequence r db + 1, ll_stream = st, ll_text = t, ll_created = at\<rparr>])\<rparr>)"
    unfolding appendLog_def Let_def by (rule if_not_P)
  then show ?thesis using assms c by simp
qed

lemma appendLog_ok [inv_rules]: "routine_db_ok db \<Longrightarrow> appendLog r st t at lim db = Some (n, db') \<Longrightarrow> routine_db_ok db'"
proof -
  assume ok: "routine_db_ok db" and "appendLog r st t at lim db = Some (n, db')"
  note a = appendLog_SomeD [OF this(2)]
  then have "set (rt_logs db') \<subseteq> insert \<lparr>ll_run = r, ll_sequence = n, ll_stream = st, ll_text = t, ll_created = at\<rparr> (set (rt_logs db))" by auto
  then have "ll_run ` set (rt_logs db') \<subseteq> insert r (ll_run ` set (rt_logs db))" by auto
  moreover have "rt_runs db' = rt_runs db" "rt_routines db' = rt_routines db" using a by simp_all
  ultimately show ?thesis using ok a unfolding routine_db_ok_def by auto
qed

lemma interruptUnfinishedRuns_ok [inv_rules]: "routine_db_ok db \<Longrightarrow> routine_db_ok (interruptUnfinishedRuns at db)"
  unfolding interruptUnfinishedRuns_def by (rule map_runs_ok) (simp_all add: routine_db_ok_def split: if_split_asm)

end
