(* ===== verification/Routines.thy ===== *)
theory Routines
  imports Routine_Store Js_Json
begin

text \<open>
  The routine manager, \<^verbatim>\<open>server/routines.mjs\<close>.  Durable definitions, runs and logs are in the tables;
  the manager keeps the live processes, by routine id.  An operation runs up to the next point where other
  operations can intervene: a start between its checks and its launch, the lines and the end of a process,
  the stop timer, and a session deletion that waits for a process.  The file system and the launch of a
  script are parameters.
\<close>

section \<open>State\<close>

text \<open>
  A spawned process with the closures of \<^verbatim>\<open>runScript\<close>: the lines its readers delivered and that wait in the line
  queue (\<open>pr_lines\<close>), those handled (\<open>pr_seen\<close>), the close event that waits for the queue (\<open>pr_close\<close>), whether
  handling a line failed meanwhile, and whether \<^verbatim>\<open>completion\<close> is resolved.  Without a run (\<open>pr_run\<close>) the creation
  of the run failed and the process is never finalized.
\<close>

record routine_proc =
  pr_definition :: routine_row
  pr_mode :: string
  pr_cwd :: string
  pr_run :: "string option"
  pr_lines :: "(string \<times> string) list"
  pr_seen :: "(string \<times> string) list"
  pr_reading :: bool
  pr_stopTimer :: bool
  pr_spawnError :: "string option"
  pr_close :: "(int option \<times> string option) option"
  pr_failed :: bool
  pr_completed :: bool

record routine_view =
  vw_name :: string
  vw_path :: string
  vw_sessionId :: "string option"
  vw_cwd :: "string option"
  vw_status :: string
  vw_progress :: "nat option"
  vw_message :: "string option"
  vw_startedAt :: "string option"
  vw_finishedAt :: "string option"
  vw_exitCode :: "int option"
  vw_log :: "string list"
  vw_alive :: bool

text \<open>A session deletion: the definitions still to delete, and the process it waits for.\<close>

record routine_deletion =
  dn_rest :: "routine_row list"
  dn_waiting :: "nat option"

record routines =
  rm_db :: routine_db
  rm_runtime :: "(string, nat) jsmap"
  rm_procs :: "(nat, routine_proc) jsmap"
  rm_starting :: "string list"
  rm_deletions :: "(nat, routine_deletion) jsmap"
  rm_signals :: "(nat \<times> string) list"
  rm_events :: "(string \<times> routine_view) list"

record routine_env =
  en_dir :: string
  en_currentDir :: string
  en_exists :: "string \<Rightarrow> bool"
  en_materialize :: "routine_row \<Rightarrow> string option"
  en_unlink :: "string \<Rightarrow> string option"

definition log_max :: nat where "log_max = 80"

definition progress_complete_percent :: nat where "progress_complete_percent = 100"

definition truthy :: "string option \<Rightarrow> bool" where
  "truthy v \<longleftrightarrow> v \<noteq> None \<and> v \<noteq> Some []"

section \<open>Views\<close>

definition activeRuntime :: "routines \<Rightarrow> routine_row \<Rightarrow> nat option" where
  "activeRuntime s d = jsmap_get (rm_runtime s) (ro_id d)"

definition or_else :: "'a option \<Rightarrow> 'a option \<Rightarrow> 'a option" where
  "or_else a b = (case a of None \<Rightarrow> b | Some _ \<Rightarrow> a)"

definition routineView :: "routine_env \<Rightarrow> routines \<Rightarrow> routine_row \<Rightarrow> routine_view" where
  "routineView e s d =
     (let run = findLatestRun (ro_id d) (rm_db s) in
      \<lparr>vw_name = ro_name d, vw_path = en_dir e @ ''/'' @ ro_name d, vw_sessionId = routine_session (rm_db s) d, vw_cwd = ro_cwd d,
       vw_status = (case run of None \<Rightarrow> ''idle'' | Some r \<Rightarrow> rr_status r),
       vw_progress = Option.bind run rr_progress,
       vw_message = Option.bind run (\<lambda>r. or_else (rr_message r) (or_else (rr_result r) (rr_error r))),
       vw_startedAt = map_option rr_started run, vw_finishedAt = Option.bind run rr_finished, vw_exitCode = Option.bind run rr_exit,
       vw_log = (case run of None \<Rightarrow> [] | Some r \<Rightarrow> map ll_text (listLogs (rr_id r) (rm_db s))),
       vw_alive = (activeRuntime s d \<noteq> None)\<rparr>)"

definition emit_routine :: "routine_env \<Rightarrow> routine_row \<Rightarrow> string \<Rightarrow> routines \<Rightarrow> routines" where
  "emit_routine e d reason s = s\<lparr>rm_events := rm_events s @ [(reason, routineView e s d)]\<rparr>"

definition listRoutines :: "routine_env \<Rightarrow> routines \<Rightarrow> routine_view list" where
  "listRoutines e s = map (routineView e s) (list_routines None None (rm_db s))"

section \<open>Processes\<close>

definition upd_proc :: "nat \<Rightarrow> (routine_proc \<Rightarrow> routine_proc) \<Rightarrow> routines \<Rightarrow> routines" where
  "upd_proc k f s = (case jsmap_get (rm_procs s) k of None \<Rightarrow> s | Some p \<Rightarrow> s\<lparr>rm_procs := jsmap_set k (f p) (rm_procs s)\<rparr>)"

definition signal_proc :: "nat \<Rightarrow> string \<Rightarrow> routines \<Rightarrow> routines" where
  "signal_proc k sig s = s\<lparr>rm_signals := rm_signals s @ [(k, sig)]\<rparr>"

definition terminateRuntime :: "nat \<Rightarrow> routines \<Rightarrow> routines" where
  "terminateRuntime k s = upd_proc k (\<lambda>p. p\<lparr>pr_stopTimer := True\<rparr>) (signal_proc k ''SIGTERM'' s)"

definition fire_stop_timer :: "nat \<Rightarrow> routines \<Rightarrow> routines" where
  "fire_stop_timer k s = signal_proc k ''SIGKILL'' (upd_proc k (\<lambda>p. p\<lparr>pr_stopTimer := False\<rparr>) s)"

text \<open>The end that stop of all, and deletion of a session, put to a process.\<close>

definition kill_runtime :: "nat \<Rightarrow> routines \<Rightarrow> routines" where
  "kill_runtime k s = signal_proc k ''SIGKILL'' (upd_proc k (\<lambda>p. p\<lparr>pr_stopTimer := False, pr_reading := False\<rparr>) s)"

text \<open>
  \<^verbatim>\<open>/^::progress\s+(?:(\d{1,3})%?(?:\s+|$))?(.*)$/\<close> on a line without trailing white space: \<^term>\<open>None\<close> where it does not
  match, otherwise the number and the message.
\<close>

definition progress_number :: "string \<Rightarrow> (nat \<times> string) option" where
  "progress_number t =
     (let digits = takeWhile is_digit t; rest = dropWhile is_digit t;
          after = (case rest of c # cs \<Rightarrow> if c = CHR ''%'' then cs else rest | [] \<Rightarrow> [])
      in if digits = [] \<or> length digits > 3 then None
         else (case after of
                 [] \<Rightarrow> Some (digits_value 0 digits, [])
               | c # cs \<Rightarrow> if js_space c then Some (digits_value 0 digits, dropWhile js_space cs) else None))"

definition parse_progress :: "string \<Rightarrow> (nat option \<times> string) option" where
  "parse_progress line =
     (if js_starts_with line ''::progress''
      then (case drop (length ''::progress'') line of
              [] \<Rightarrow> None
            | c # cs \<Rightarrow>
                if js_space c
                then (let t = dropWhile js_space cs in
                      case progress_number t of Some (n, m) \<Rightarrow> Some (Some n, m) | None \<Rightarrow> Some (None, t))
                else None)
      else None)"

definition js_trim_end :: "string \<Rightarrow> string" where
  "js_trim_end t = rev (dropWhile js_space (rev t))"

text \<open>\<^verbatim>\<open>onLine\<close>; \<^term>\<open>None\<close> where the store refuses.\<close>

definition next_progress :: "nat option \<Rightarrow> nat option \<Rightarrow> nat option" where
  "next_progress current n =
     (let requested = (case n of None \<Rightarrow> current | Some k \<Rightarrow> Some (min progress_complete_percent k)) in
      case (requested, current) of (Some r, Some c) \<Rightarrow> Some (max c r) | _ \<Rightarrow> requested)"

definition next_message :: "string option \<Rightarrow> string \<Rightarrow> string option" where
  "next_message current m = (if m \<noteq> [] then Some m else if truthy current then current else None)"

definition onLine :: "routine_env \<Rightarrow> string \<Rightarrow> routine_row \<Rightarrow> string \<Rightarrow> string \<times> string \<Rightarrow> routines \<Rightarrow> routines option" where
  "onLine e now d run sl s =
     (let line = js_trim_end (snd sl) in
      if line = [] then Some s
      else case parse_progress line of
        Some (n, m) \<Rightarrow>
          (let current = findRun run (rm_db s) in
           map_option (\<lambda>db. emit_routine e d ''progress'' (s\<lparr>rm_db := db\<rparr>))
             (updateProgress run (next_progress (Option.bind current rr_progress) n) (next_message (Option.bind current rr_message) m) (rm_db s)))
      | None \<Rightarrow>
          map_option (\<lambda>(_, db). emit_routine e d ''output'' (s\<lparr>rm_db := db\<rparr>)) (appendLog run (fst sl) line now log_max (rm_db s)))"

text \<open>The next line of the queue of a process.\<close>

definition process_line :: "routine_env \<Rightarrow> string \<Rightarrow> nat \<Rightarrow> routines \<Rightarrow> routines" where
  "process_line e now k s =
     (case jsmap_get (rm_procs s) k of
        None \<Rightarrow> s
      | Some p \<Rightarrow>
          (case (pr_run p, pr_lines p) of
             (Some run, l # ls) \<Rightarrow>
               (case onLine e now (pr_definition p) run l s of
                  Some s1 \<Rightarrow> upd_proc k (\<lambda>p. p\<lparr>pr_lines := ls, pr_seen := pr_seen p @ [l]\<rparr>) s1
                | None \<Rightarrow> upd_proc k (\<lambda>p. p\<lparr>pr_lines := ls, pr_seen := pr_seen p @ [l], pr_failed := pr_failed p \<or> pr_close p \<noteq> None\<rparr>) s)
           | _ \<Rightarrow> s))"

definition exit_reason :: "int option \<Rightarrow> string option \<Rightarrow> string" where
  "exit_reason code sig =
     (case sig of Some g \<Rightarrow> ''signal '' @ g | None \<Rightarrow> ''exit '' @ (case code of None \<Rightarrow> ''null'' | Some c \<Rightarrow> int_text c))"

definition finishRoutineProcess :: "routine_env \<Rightarrow> string \<Rightarrow> routine_proc \<Rightarrow> string \<Rightarrow> int option \<Rightarrow> string option \<Rightarrow> routines \<Rightarrow> routines" where
  "finishRoutineProcess e now p run code sig s =
     (let d = pr_definition p; fin = (\<lambda>status res exitCode err s. s\<lparr>rm_db := finishRun run status res now exitCode err (rm_db s)\<rparr>) in
      case pr_spawnError p of
        Some err \<Rightarrow> emit_routine e d ''error'' (fin ''failed'' None None (Some err) s)
      | None \<Rightarrow>
          (let current = findRun run (rm_db s); message = Option.bind current rr_message; ok = (code = Some 0) in
           if map_option rr_status current = Some ''stopping''
           then emit_routine e d ''stopped'' (fin ''stopped'' None code None s)
           else if pr_mode p = ''teardown''
           then emit_routine e d ''teardown_finished''
                  (fin (if ok then ''idle'' else ''failed'') (if ok then Some ''byproducts removed'' else None) code
                     (if ok then None else or_else message (Some (''teardown failed ('' @ exit_reason code sig @ '')''))) s)
           else (let s1 = (if ok \<and> map_option rr_progress current \<noteq> Some None
                           then s\<lparr>rm_db := the (updateProgress run (Some progress_complete_percent) message (rm_db s))\<rparr> else s)
                 in emit_routine e d ''finished''
                      (fin (if ok then ''done'' else ''failed'') None code
                         (if ok then None else or_else message (Some (''run failed ('' @ exit_reason code sig @ '')''))) s1))))"

text \<open>\<^verbatim>\<open>finalizeClose\<close>, once the lines that waited are handled or one of them failed.\<close>

definition finalizeClose :: "routine_env \<Rightarrow> string \<Rightarrow> nat \<Rightarrow> routines \<Rightarrow> routines" where
  "finalizeClose e now k s =
     (case jsmap_get (rm_procs s) k of
        None \<Rightarrow> s
      | Some p \<Rightarrow>
          (case (pr_run p, pr_close p) of
             (Some run, Some (code, sig)) \<Rightarrow>
               if pr_completed p \<or> (pr_lines p \<noteq> [] \<and> \<not> pr_failed p) then s
               else if pr_failed p then upd_proc k (\<lambda>p. p\<lparr>pr_completed := True\<rparr>) s
               else
                 (let s1 = upd_proc k (\<lambda>p. p\<lparr>pr_reading := False, pr_stopTimer := False, pr_completed := True\<rparr>) s in
                  if jsmap_get (rm_runtime s) (ro_id (pr_definition p)) \<noteq> Some k then s1
                  else finishRoutineProcess e now p run code sig (s1\<lparr>rm_runtime := jsmap_delete (ro_id (pr_definition p)) (rm_runtime s1)\<rparr>))
           | _ \<Rightarrow> s))"

text \<open>What the operating system reports of a process.\<close>

definition read_line :: "nat \<Rightarrow> string \<Rightarrow> string \<Rightarrow> routines \<Rightarrow> routines" where
  "read_line k stream v s = upd_proc k (\<lambda>p. if pr_reading p \<and> pr_close p = None then p\<lparr>pr_lines := pr_lines p @ [(stream, v)]\<rparr> else p) s"

definition proc_close :: "nat \<Rightarrow> int option \<Rightarrow> string option \<Rightarrow> routines \<Rightarrow> routines" where
  "proc_close k code sig s = upd_proc k (\<lambda>p. if pr_close p = None then p\<lparr>pr_close := Some (code, sig)\<rparr> else p) s"

definition spawn_error :: "nat \<Rightarrow> string \<Rightarrow> routines \<Rightarrow> routines" where
  "spawn_error k err s = upd_proc k (\<lambda>p. if pr_spawnError p = None then p\<lparr>pr_spawnError := Some err\<rparr> else p) s"

text \<open>\<^verbatim>\<open>runScript\<close>; \<open>k\<close> names the process and \<open>rid\<close> the run.\<close>

definition runScript :: "routine_env \<Rightarrow> string \<Rightarrow> nat \<Rightarrow> string \<Rightarrow> routine_row \<Rightarrow> string \<Rightarrow> routines \<Rightarrow> (string + unit) \<times> routines" where
  "runScript e now k rid d mode s =
     (let cwd = (case ro_cwd d of Some c \<Rightarrow> if c \<noteq> [] \<and> en_exists e c then c else en_currentDir e | None \<Rightarrow> en_currentDir e) in
      case en_materialize e d of
        Some err \<Rightarrow> (Inl err, s)
      | None \<Rightarrow>
          (let created = createRun rid (ro_id d) mode (if mode = ''run'' then ''running'' else ''teardown'') now (rm_db s);
               p = \<lparr>pr_definition = d, pr_mode = mode, pr_cwd = cwd, pr_run = (if created = None then None else Some rid), pr_lines = [], pr_seen = [],
                    pr_reading = True, pr_stopTimer = False, pr_spawnError = None, pr_close = None, pr_failed = False, pr_completed = False\<rparr>;
               s1 = s\<lparr>rm_procs := jsmap_set k p (rm_procs s), rm_runtime := jsmap_set (ro_id d) k (rm_runtime s)\<rparr>
           in case created of
                None \<Rightarrow> (Inl ''constraint failed: routine_runs'', s1)
              | Some db \<Rightarrow>
                  (let db1 = (if mode = ''run'' then the (updateProgress rid (Some 0) None db) else db)
                   in (Inr (), emit_routine e d (if mode = ''run'' then ''started'' else ''teardown_started'') (s1\<lparr>rm_db := db1\<rparr>)))))"

section \<open>Operations\<close>

definition word_char :: "char \<Rightarrow> bool" where
  "word_char c \<longleftrightarrow> is_digit c \<or> (CHR ''A'' \<le> c \<and> c \<le> CHR ''Z'') \<or> (CHR ''a'' \<le> c \<and> c \<le> CHR ''z'') \<or> c = CHR ''_''"

definition routine_name :: "string \<Rightarrow> bool" where
  "routine_name name = (case name of [] \<Rightarrow> False | c # cs \<Rightarrow> word_char c \<and> c \<noteq> CHR ''_'' \<and> list_all (\<lambda>x. word_char x \<or> x = CHR ''.'' \<or> x = CHR ''-'') cs)"

definition validateRoutineCreateRequest :: "string \<Rightarrow> string option \<Rightarrow> nat option \<Rightarrow> string option" where
  "validateRoutineCreateRequest name sessionId ownerId =
     (if \<not> routine_name name then Some (''invalid routine name: '' @ name)
      else if truthy sessionId \<and> (ownerId = None \<or> ownerId = Some 0) then Some ''session owner is required to bind a routine''
      else None)"

definition bound_elsewhere :: "routines \<Rightarrow> routine_row \<Rightarrow> string option \<Rightarrow> bool" where
  "bound_elsewhere s d sessionId \<longleftrightarrow>
     truthy (routine_session (rm_db s) d) \<and> truthy sessionId \<and> routine_session (rm_db s) d \<noteq> sessionId"

definition ensureRoutineCanBeOverwritten :: "routines \<Rightarrow> routine_row option \<Rightarrow> string \<Rightarrow> string option \<Rightarrow> string option" where
  "ensureRoutineCanBeOverwritten s existing name sessionId =
     (case existing of
        None \<Rightarrow> None
      | Some d \<Rightarrow>
          if activeRuntime s d \<noteq> None then Some (''routine '' @ name @ '' is currently running'')
          else if bound_elsewhere s d sessionId then Some (''routine '' @ name @ '' exists and is bound to another session'')
          else None)"

definition createRoutine ::
  "routine_env \<Rightarrow> string \<Rightarrow> string \<Rightarrow> string \<Rightarrow> string \<Rightarrow> string option \<Rightarrow> nat option \<Rightarrow> string option \<Rightarrow> routines
   \<Rightarrow> (string + routine_view) \<times> routines" where
  "createRoutine e now i name script sessionId ownerId cwd s =
     (case validateRoutineCreateRequest name sessionId ownerId of
        Some err \<Rightarrow> (Inl err, s)
      | None \<Rightarrow>
          (let existing = findByName name (rm_db s) in
           case ensureRoutineCanBeOverwritten s existing name sessionId of
             Some err \<Rightarrow> (Inl err, s)
           | None \<Rightarrow>
               (case upsert_routine (case existing of Some d \<Rightarrow> ro_id d | None \<Rightarrow> i)
                       (if truthy sessionId then ownerId else Option.bind existing ro_owner) name script
                       (or_else cwd (Option.bind existing ro_cwd)) now (rm_db s) of
                  None \<Rightarrow> (Inl ''UNIQUE constraint failed: routines.id'', s)
                | Some (d, db) \<Rightarrow>
                    (let s1 = emit_routine e d (if existing = None then ''created'' else ''updated'') (s\<lparr>rm_db := db\<rparr>)
                     in (Inr (routineView e s1 d), s1)))))"

definition idle_routine :: "string \<Rightarrow> string \<Rightarrow> routines \<Rightarrow> string + routine_row" where
  "idle_routine name busy s =
     (case findByName name (rm_db s) of
        None \<Rightarrow> Inl (''no such routine: '' @ name)
      | Some d \<Rightarrow> if activeRuntime s d \<noteq> None then Inl busy else Inr d)"

definition deleteRoutine :: "routine_env \<Rightarrow> string \<Rightarrow> routines \<Rightarrow> (string + routine_view) \<times> routines" where
  "deleteRoutine e name s =
     (case idle_routine name (''routine '' @ name @ '' is running'') s of
        Inl err \<Rightarrow> (Inl err, s)
      | Inr d \<Rightarrow>
          (let view = (routineView e s d)\<lparr>vw_sessionId := None, vw_cwd := None\<rparr>; s1 = s\<lparr>rm_db := delete_routine (ro_id d) (rm_db s)\<rparr> in
           case en_unlink e name of
             Some err \<Rightarrow> (Inl (''failed to delete routine artifact: '' @ err), s1)
           | None \<Rightarrow> (Inr view, s1\<lparr>rm_events := rm_events s1 @ [(''deleted'', view)]\<rparr>)))"

text \<open>
  \<^verbatim>\<open>startRoutine\<close> checks and binds; when it binds, the launch is a step of its own that reads the routine again.
\<close>

definition startRoutine ::
  "routine_env \<Rightarrow> string \<Rightarrow> nat \<Rightarrow> string \<Rightarrow> string \<Rightarrow> string option \<Rightarrow> nat option \<Rightarrow> string option \<Rightarrow> routines \<Rightarrow> (string + unit) \<times> routines" where
  "startRoutine e now k rid name sessionId ownerId cwd s =
     (case idle_routine name (''routine '' @ name @ '' is already running'') s of
        Inl err \<Rightarrow> (Inl err, s)
      | Inr d \<Rightarrow>
          if bound_elsewhere s d sessionId then (Inl (''routine '' @ name @ '' is bound to another session''), s)
          else if truthy sessionId then
            (if ownerId = None \<or> ownerId = Some 0 then (Inl ''session owner is required to bind a routine'', s)
             else (Inr (), s\<lparr>rm_db := bind_routine (ro_id d) ownerId cwd now (rm_db s), rm_starting := rm_starting s @ [name]\<rparr>))
          else if truthy cwd then (Inr (), s\<lparr>rm_db := updateCwd (ro_id d) cwd now (rm_db s), rm_starting := rm_starting s @ [name]\<rparr>)
          else runScript e now k rid d ''run'' s)"

definition launchRoutine :: "routine_env \<Rightarrow> string \<Rightarrow> nat \<Rightarrow> string \<Rightarrow> string \<Rightarrow> routines \<Rightarrow> (string + unit) \<times> routines" where
  "launchRoutine e now k rid name s =
     (let s1 = s\<lparr>rm_starting := remove1 name (rm_starting s)\<rparr> in
      case findByName name (rm_db s) of
        None \<Rightarrow> (Inl ''TypeError'', s1)
      | Some d \<Rightarrow> runScript e now k rid d ''run'' s1)"

definition stopRoutine :: "routine_env \<Rightarrow> string \<Rightarrow> routines \<Rightarrow> (string + routine_view) \<times> routines" where
  "stopRoutine e name s =
     (case findByName name (rm_db s) of
        None \<Rightarrow> (Inl (''no such routine: '' @ name), s)
      | Some d \<Rightarrow>
          (case activeRuntime s d of
             None \<Rightarrow> (Inl (''routine '' @ name @ '' is not running''), s)
           | Some k \<Rightarrow>
               (let s1 = (case findLatestRun (ro_id d) (rm_db s) of
                            None \<Rightarrow> s | Some run \<Rightarrow> s\<lparr>rm_db := updateRunStatus (rr_id run) ''stopping'' (rm_db s)\<rparr>);
                    s2 = terminateRuntime k (emit_routine e d ''stopping'' s1)
                in (Inr (routineView e s2 d), s2))))"

definition teardownRoutine :: "routine_env \<Rightarrow> string \<Rightarrow> nat \<Rightarrow> string \<Rightarrow> string \<Rightarrow> routines \<Rightarrow> (string + unit) \<times> routines" where
  "teardownRoutine e now k rid name s =
     (case idle_routine name (''routine '' @ name @ '' is running'') s of
        Inl err \<Rightarrow> (Inl err, s)
      | Inr d \<Rightarrow> runScript e now k rid d ''teardown'' s)"

definition released :: "routine_env \<Rightarrow> string \<Rightarrow> routine_row \<Rightarrow> routines \<Rightarrow> routines" where
  "released e now d s =
     (let s1 = s\<lparr>rm_db := release_routine (ro_id d) now (rm_db s)\<rparr> in
      case findByName (ro_name d) (rm_db s1) of None \<Rightarrow> s1 | Some d1 \<Rightarrow> emit_routine e d1 ''released'' s1)"

definition releaseRoutine :: "routine_env \<Rightarrow> string \<Rightarrow> string \<Rightarrow> routines \<Rightarrow> (string + unit) \<times> routines" where
  "releaseRoutine e now name s =
     (case idle_routine name (''routine '' @ name @ '' is running'') s of
        Inl err \<Rightarrow> (Inl err, s)
      | Inr d \<Rightarrow> (Inr (), released e now d s))"

section \<open>The routines of a session\<close>

definition stop_if_active :: "routine_env \<Rightarrow> routine_row \<Rightarrow> routines \<Rightarrow> routines" where
  "stop_if_active e d s = (if activeRuntime s d \<noteq> None then snd (stopRoutine e (ro_name d) s) else s)"

definition session_routines :: "string option \<Rightarrow> routines \<Rightarrow> routine_row list" where
  "session_routines sessionId s = (if truthy sessionId then list_routines (Some sessionId) None (rm_db s) else [])"

definition stopSessionRoutines :: "routine_env \<Rightarrow> string option \<Rightarrow> routines \<Rightarrow> string list \<times> routines" where
  "stopSessionRoutines e sessionId s =
     (let ds = session_routines sessionId s in (map ro_name ds, fold (stop_if_active e) ds s))"

definition releaseSessionRoutines :: "routine_env \<Rightarrow> string \<Rightarrow> string option \<Rightarrow> routines \<Rightarrow> string list \<times> routines" where
  "releaseSessionRoutines e now sessionId s =
     (let ds = session_routines sessionId s in (map ro_name ds, fold (\<lambda>d s. released e now d (stop_if_active e d s)) ds s))"

text \<open>\<^verbatim>\<open>deleteSessionRoutines\<close>: the list is read at the start; each definition is one or, with a process, two steps.\<close>

definition begin_deletion_of :: "nat \<Rightarrow> string option \<Rightarrow> routines \<Rightarrow> routines" where
  "begin_deletion_of j sessionId s =
     s\<lparr>rm_deletions := jsmap_set j \<lparr>dn_rest = session_routines sessionId s, dn_waiting = None\<rparr> (rm_deletions s)\<rparr>"

definition drop_definition :: "routine_env \<Rightarrow> nat \<Rightarrow> routine_row \<Rightarrow> routine_row list \<Rightarrow> routines \<Rightarrow> routines" where
  "drop_definition e j d rest s =
     (let view = routineView e s d; s1 = s\<lparr>rm_db := delete_routine (ro_id d) (rm_db s)\<rparr> in
      case en_unlink e (ro_name d) of
        Some err \<Rightarrow> s1\<lparr>rm_deletions := jsmap_delete j (rm_deletions s1)\<rparr>
      | None \<Rightarrow> s1\<lparr>rm_events := rm_events s1 @ [(''deleted'', view)],
                   rm_deletions := jsmap_set j \<lparr>dn_rest = rest, dn_waiting = None\<rparr> (rm_deletions s1)\<rparr>)"

definition deletion_step_of :: "routine_env \<Rightarrow> nat \<Rightarrow> routines \<Rightarrow> routines" where
  "deletion_step_of e j s =
     (case jsmap_get (rm_deletions s) j of
        None \<Rightarrow> s
      | Some n \<Rightarrow>
          (case dn_rest n of
             [] \<Rightarrow> s\<lparr>rm_deletions := jsmap_delete j (rm_deletions s)\<rparr>
           | d # rest \<Rightarrow>
               (case dn_waiting n of
                  Some k \<Rightarrow> if map_option pr_completed (jsmap_get (rm_procs s) k) = Some True then drop_definition e j d rest s else s
                | None \<Rightarrow>
                    (case activeRuntime s d of
                       Some k \<Rightarrow> (kill_runtime k s)\<lparr>rm_runtime := jsmap_delete (ro_id d) (rm_runtime s),
                                    rm_deletions := jsmap_set j (n\<lparr>dn_waiting := Some k\<rparr>) (rm_deletions s)\<rparr>
                     | None \<Rightarrow> drop_definition e j d rest s))))"

definition stopAllRoutines :: "routines \<Rightarrow> routines" where
  "stopAllRoutines s = fold kill_runtime (jsmap_values (rm_runtime s)) (s\<lparr>rm_runtime := []\<rparr>)"

section \<open>Steps\<close>

text \<open>
  \<^verbatim>\<open>randomUUID\<close> gives run ids that no process had, and a spawned process is a new one.
\<close>

definition fresh_launch :: "nat \<Rightarrow> string \<Rightarrow> routines \<Rightarrow> bool" where
  "fresh_launch k rid s \<longleftrightarrow> jsmap_get (rm_procs s) k = None \<and> (\<forall>p \<in> set (jsmap_values (rm_procs s)). pr_run p \<noteq> Some rid)"

inductive routine_step :: "routine_env \<Rightarrow> routines \<Rightarrow> routines \<Rightarrow> bool" for e where
  create: "routine_step e s (snd (createRoutine e now i name script sessionId ownerId cwd s))"
| remove: "routine_step e s (snd (deleteRoutine e name s))"
| start: "fresh_launch k rid s \<Longrightarrow> routine_step e s (snd (startRoutine e now k rid name sessionId ownerId cwd s))"
| launch: "fresh_launch k rid s \<Longrightarrow> name \<in> set (rm_starting s) \<Longrightarrow> routine_step e s (snd (launchRoutine e now k rid name s))"
| stop: "routine_step e s (snd (stopRoutine e name s))"
| teardown: "fresh_launch k rid s \<Longrightarrow> routine_step e s (snd (teardownRoutine e now k rid name s))"
| release: "routine_step e s (snd (releaseRoutine e now name s))"
| stop_session: "routine_step e s (snd (stopSessionRoutines e sessionId s))"
| release_session: "routine_step e s (snd (releaseSessionRoutines e now sessionId s))"
| begin_deletion: "jsmap_get (rm_deletions s) j = None \<Longrightarrow> routine_step e s (begin_deletion_of j sessionId s)"
| deletion: "routine_step e s (deletion_step_of e j s)"
| stop_all: "routine_step e s (stopAllRoutines s)"
| read: "stream \<in> {''stdout'', ''stderr''} \<Longrightarrow> routine_step e s (read_line k stream v s)"
| process: "routine_step e s (process_line e now k s)"
| closing: "routine_step e s (proc_close k code sig s)"
| failing: "routine_step e s (spawn_error k err s)"
| finalize: "routine_step e s (finalizeClose e now k s)"
| timer: "(\<exists>p. jsmap_get (rm_procs s) k = Some p \<and> pr_stopTimer p) \<Longrightarrow> routine_step e s (fire_stop_timer k s)"

end
