(* ===== verification/Routine_Invariant.thy ===== *)
theory Routine_Invariant
  imports Routines
begin

text \<open>
  What holds of the tables and the processes of the routine manager in every reachable state: the log and the
  progress of a run are those of the lines its process printed so far.
\<close>

section \<open>The output of a process\<close>

definition outputs :: "(string \<times> string) list \<Rightarrow> string list" where
  "outputs seen = filter (\<lambda>t. t \<noteq> [] \<and> parse_progress t = None) (map (js_trim_end \<circ> snd) seen)"

definition progress_numbers :: "(string \<times> string) list \<Rightarrow> nat list" where
  "progress_numbers seen =
     concat (map (\<lambda>l. case parse_progress (js_trim_end (snd l)) of Some (Some n, m) \<Rightarrow> [min 100 n] | _ \<Rightarrow> []) seen)"

definition progress_of :: "string \<Rightarrow> (string \<times> string) list \<Rightarrow> nat option" where
  "progress_of mode seen =
     (let ns = (if mode = ''run'' then [0] else []) @ progress_numbers seen in if ns = [] then None else Some (Max (set ns)))"

definition log_tail :: "string list \<Rightarrow> (nat \<times> string) list" where
  "log_tail ts = drop (length ts - log_max) (enumerate 1 ts)"

lemma outputs_snoc: "outputs (seen @ [l]) = outputs seen @ (if js_trim_end (snd l) \<noteq> [] \<and> parse_progress (js_trim_end (snd l)) = None then [js_trim_end (snd l)] else [])"
  by (simp add: outputs_def)

lemma progress_numbers_snoc:
  "progress_numbers (seen @ [l]) = progress_numbers seen @ (case parse_progress (js_trim_end (snd l)) of Some (Some n, m) \<Rightarrow> [min 100 n] | _ \<Rightarrow> [])"
  by (simp add: progress_numbers_def)

lemma progress_of_number:
  assumes "parse_progress (js_trim_end (snd l)) = Some (n, m)"
  shows "progress_of mode (seen @ [l]) = next_progress (progress_of mode seen) n"
proof -
  have "Max (insert x (set xs)) = max (Max (set xs)) x" if "xs \<noteq> []" for x and xs :: "nat list"
    using that by (simp add: max.commute)
  then show ?thesis using assms
    by (auto simp: progress_of_def progress_numbers_snoc next_progress_def progress_complete_percent_def Let_def split: option.splits)
qed

lemma progress_of_other: "parse_progress (js_trim_end (snd l)) = None \<Longrightarrow> progress_of mode (seen @ [l]) = progress_of mode seen"
  by (simp add: progress_of_def progress_numbers_snoc)

lemma progress_of_bound: "progress_of mode seen = Some q \<Longrightarrow> q \<le> 100"
proof -
  assume p: "progress_of mode seen = Some q"
  have "\<forall>n \<in> set (progress_numbers seen). n \<le> 100" by (auto simp: progress_numbers_def split: option.splits prod.splits)
  then have "\<forall>n \<in> set ((if mode = ''run'' then [0] else []) @ progress_numbers seen). n \<le> 100" by auto
  then show "q \<le> 100" using p by (auto simp: progress_of_def Let_def split: if_splits)
qed

section \<open>The tail of a log\<close>

lemma drop_enumerate: "drop k (enumerate n xs) = enumerate (n + k) (drop k xs)"
proof (induction xs arbitrary: k n)
  case (Cons x xs)
  then show ?case by (cases k) simp_all
qed simp

lemma log_tail_fst: "map fst (log_tail ts) = [Suc (length ts - log_max)..<Suc (length ts)]"
  by (simp add: log_tail_def drop_map [symmetric] map_fst_enumerate drop_upt del: upt_Suc)

lemma log_tail_last: "foldl max 0 (map fst (log_tail ts)) = length ts"
proof (cases "ts = []")
  case False
  then have "0 < length ts" by simp
  have *: "foldl max 0 [Suc a..<Suc b] = b" if "a < b" for a b :: nat
    using that by (induction b) (auto simp: less_Suc_eq)
  have "length ts - log_max < length ts" using \<open>0 < length ts\<close> by (simp add: log_max_def)
  then show ?thesis unfolding log_tail_fst by (rule *)
qed (simp add: log_tail_def)

lemma log_tail_snoc:
  "filter (\<lambda>(q, _). \<not> q \<le> Suc (length ts) - log_max) (log_tail ts @ [(Suc (length ts), t)]) = log_tail (ts @ [t])"
proof -
  let ?k = "length ts - log_max"
  have all: "filter (\<lambda>(q, _). \<not> q \<le> c) (enumerate n xs) = drop (Suc c - n) (enumerate n xs)" for c n and xs :: "'a list"
  proof (induction xs arbitrary: n)
    case (Cons x xs)
    show ?case
    proof (cases "n \<le> c")
      case True
      then have "Suc c - n = Suc (Suc c - Suc n)" by simp
      then show ?thesis using True Cons.IH [of "Suc n"] by simp
    next
      case False
      have "filter (\<lambda>(q, _). \<not> q \<le> c) (enumerate (Suc n) xs) = enumerate (Suc n) xs"
        using False Cons.IH [of "Suc n"] by simp
      then show ?thesis using False by simp
    qed
  qed simp
  have d: "drop k (enumerate 1 ts) = enumerate (Suc k) (drop k ts)" for k by (simp add: drop_enumerate)
  have "log_tail ts @ [(Suc (length ts), t)] = enumerate (Suc ?k) (drop ?k ts @ [t])"
    unfolding log_tail_def d by (simp add: enumerate_append_eq log_max_def)
  then have "filter (\<lambda>(q, _). \<not> q \<le> Suc (length ts) - log_max) (log_tail ts @ [(Suc (length ts), t)])
      = drop (Suc (Suc (length ts) - log_max) - Suc ?k) (enumerate (Suc ?k) (drop ?k ts @ [t]))" by (simp only: all)
  also have "\<dots> = log_tail (ts @ [t])"
  proof (cases "length ts < log_max")
    case False
    then obtain m where "length ts = log_max + m" by (metis le_iff_add not_less)
    then show ?thesis unfolding log_tail_def by (simp add: drop_enumerate log_max_def)
  qed (simp add: log_tail_def drop_enumerate log_max_def)
  finally show ?thesis .
qed

section \<open>Rows a step leaves alone\<close>

definition quiet :: "routine_db \<Rightarrow> routine_db \<Rightarrow> string \<Rightarrow> bool" where
  "quiet db db' r \<longleftrightarrow> (\<forall>x' \<in> set (rt_runs db'). rr_id x' = r \<longrightarrow> (\<exists>x \<in> set (rt_runs db). rr_id x = r \<and> rr_progress x' = rr_progress x))
     \<and> (r \<in> rr_id ` set (rt_runs db') \<longrightarrow> log_of r db' = log_of r db)"

lemma quiet_refl [simp]: "quiet db db r"
  by (auto simp: quiet_def)

lemma quiet_mem: "quiet db db' r \<Longrightarrow> r \<in> rr_id ` set (rt_runs db') \<Longrightarrow> r \<in> rr_id ` set (rt_runs db)"
proof -
  assume q: "quiet db db' r" and "r \<in> rr_id ` set (rt_runs db')"
  then obtain x where x: "x \<in> set (rt_runs db')" "rr_id x = r" by force
  from q [unfolded quiet_def, THEN conjunct1, rule_format, OF x] obtain y where "y \<in> set (rt_runs db)" "rr_id y = r" by blast
  then show ?thesis by force
qed

lemma quiet_trans: "quiet db db1 r \<Longrightarrow> quiet db1 db2 r \<Longrightarrow> quiet db db2 r"
proof -
  assume a: "quiet db db1 r" "quiet db1 db2 r"
  have "r \<in> rr_id ` set (rt_runs db2) \<longrightarrow> log_of r db2 = log_of r db" 
  proof
    assume m: "r \<in> rr_id ` set (rt_runs db2)"
    note m1 = quiet_mem [OF a(2) m]
    have "log_of r db2 = log_of r db1" using a(2) m unfolding quiet_def by simp
    also have "\<dots> = log_of r db" using a(1) m1 unfolding quiet_def by simp
    finally show "log_of r db2 = log_of r db" .
  qed
  moreover have "\<exists>x \<in> set (rt_runs db). rr_id x = r \<and> rr_progress x2 = rr_progress x" if x: "x2 \<in> set (rt_runs db2)" "rr_id x2 = r" for x2
  proof -
    obtain x1 where x1: "x1 \<in> set (rt_runs db1)" "rr_id x1 = r" "rr_progress x2 = rr_progress x1" using a(2) x unfolding quiet_def by blast
    then obtain x0 where "x0 \<in> set (rt_runs db)" "rr_id x0 = r" "rr_progress x1 = rr_progress x0" using a(1) unfolding quiet_def by blast
    then show ?thesis using x1 by auto
  qed
  ultimately show ?thesis unfolding quiet_def by blast
qed

lemma quiet_same: "rt_runs db' = rt_runs db \<Longrightarrow> rt_logs db' = rt_logs db \<Longrightarrow> quiet db db' r"
  by (auto simp: quiet_def log_of_def)

lemma quiet_runs:
  "(\<And>x. rr_id (f x) = rr_id x) \<Longrightarrow> (\<And>x. rr_id x = r \<Longrightarrow> rr_progress (f x) = rr_progress x) \<Longrightarrow> quiet db (db\<lparr>rt_runs := map f (rt_runs db)\<rparr>) r"
  by (auto simp: quiet_def log_of_def)

lemma quiet_change: "(\<And>x. rr_id (f x) = rr_id x) \<Longrightarrow> (\<And>x. i = r \<Longrightarrow> rr_progress (f x) = rr_progress x) \<Longrightarrow> quiet db (change_run i f db) r"
  unfolding change_run_def by (rule quiet_runs) auto

lemma quiet_delete: "routine_db_ok db \<Longrightarrow> quiet db (delete_routine i db) r"
proof -
  assume ok: "routine_db_ok db"
  have "x = y" if "x \<in> set (rt_runs db)" "y \<in> set (rt_runs db)" "rr_id x = rr_id y" for x y
    using ok that by (auto simp: routine_db_ok_def distinct_map inj_on_def)
  then have "log_of (rr_id x) (delete_routine i db) = log_of (rr_id x) db" if "x \<in> set (rt_runs db)" "rr_routine x \<noteq> i" for x
    using that by (force simp: log_of_def delete_routine_def Let_def intro!: filter_cong)
  then show ?thesis by (auto simp: quiet_def) (auto simp: delete_routine_def Let_def)
qed

lemma quiet_create: "createRun i rid mode status at db = Some db' \<Longrightarrow> r \<noteq> i \<Longrightarrow> quiet db db' r"
  by (drule createRun_SomeD) (auto simp: quiet_def log_of_def)

lemma quiet_append: "appendLog i st t at lim db = Some (n, db') \<Longrightarrow> r \<noteq> i \<Longrightarrow> quiet db db' r"
  by (drule appendLog_SomeD) (auto simp: quiet_def log_of_def intro!: filter_cong)

lemma quiet_progress: "updateProgress i p m db = Some db' \<Longrightarrow> r \<noteq> i \<Longrightarrow> quiet db db' r"
  unfolding updateProgress_def by (split if_split_asm) (auto intro!: quiet_change)

section \<open>The invariant\<close>

definition streams_ok :: "routine_proc \<Rightarrow> bool" where
  "streams_ok p \<longleftrightarrow> fst ` set (pr_lines p) \<subseteq> {''stdout'', ''stderr''}"

definition proc_inv :: "routine_db \<Rightarrow> routine_proc \<Rightarrow> bool" where
  "proc_inv db p \<longleftrightarrow> streams_ok p \<and> (\<forall>r. pr_run p = Some r \<longrightarrow>
      (\<forall>x \<in> set (rt_runs db). rr_id x = r \<longrightarrow> pr_completed p \<or> rr_progress x = progress_of (pr_mode p) (pr_seen p))
    \<and> (r \<in> rr_id ` set (rt_runs db) \<longrightarrow> map (\<lambda>l. (ll_sequence l, ll_text l)) (log_of r db) = log_tail (outputs (pr_seen p))))"

definition runs_apart :: "routines \<Rightarrow> bool" where
  "runs_apart s \<longleftrightarrow> (\<forall>k k' p p' r. map_of (rm_procs s) k = Some p \<longrightarrow> map_of (rm_procs s) k' = Some p'
     \<longrightarrow> pr_run p = Some r \<longrightarrow> pr_run p' = Some r \<longrightarrow> k = k')"

definition rm_inv :: "routines \<Rightarrow> bool" where
  "rm_inv s \<longleftrightarrow> routine_db_ok (rm_db s) \<and> runs_apart s \<and> (\<forall>k p. map_of (rm_procs s) k = Some p \<longrightarrow> proc_inv (rm_db s) p)"

definition proc_later :: "routine_proc \<Rightarrow> routine_proc \<Rightarrow> bool" where
  "proc_later p p' \<longleftrightarrow> pr_run p' = pr_run p \<and> pr_mode p' = pr_mode p \<and> pr_seen p' = pr_seen p
     \<and> (pr_completed p \<longrightarrow> pr_completed p') \<and> (streams_ok p \<longrightarrow> streams_ok p')"

definition later :: "routines \<Rightarrow> routines \<Rightarrow> bool" where
  "later s s' \<longleftrightarrow> (routine_db_ok (rm_db s) \<longrightarrow> routine_db_ok (rm_db s') \<and> (\<forall>r. quiet (rm_db s) (rm_db s') r))
     \<and> (\<forall>k p'. map_of (rm_procs s') k = Some p' \<longrightarrow> (\<exists>p. map_of (rm_procs s) k = Some p \<and> proc_later p p'))"

lemma proc_later_refl [simp]: "proc_later p p"
  by (simp add: proc_later_def)

lemma later_refl [simp]: "later s s"
  by (auto simp: later_def)

lemma later_trans [trans]: "later s s1 \<Longrightarrow> later s1 s2 \<Longrightarrow> later s s2"
proof -
  assume a: "later s s1" "later s1 s2"
  have "\<exists>p. map_of (rm_procs s) k = Some p \<and> proc_later p p'" if p: "map_of (rm_procs s2) k = Some p'" for k p'
  proof -
    obtain p1 where p1: "map_of (rm_procs s1) k = Some p1" "proc_later p1 p'" using a(2) p unfolding later_def by blast
    then obtain p0 where "map_of (rm_procs s) k = Some p0" "proc_later p0 p1" using a(1) unfolding later_def by blast
    then show ?thesis using p1 by (auto simp: proc_later_def)
  qed
  then show ?thesis using a quiet_trans unfolding later_def by blast
qed

lemma proc_inv_quiet: "proc_inv db p \<Longrightarrow> (\<And>r. pr_run p = Some r \<Longrightarrow> quiet db db' r) \<Longrightarrow> proc_later p p' \<Longrightarrow> proc_inv db' p'"
proof -
  assume i: "proc_inv db p" and q: "\<And>r. pr_run p = Some r \<Longrightarrow> quiet db db' r" and l: "proc_later p p'"
  have "(\<forall>x \<in> set (rt_runs db'). rr_id x = r \<longrightarrow> pr_completed p' \<or> rr_progress x = progress_of (pr_mode p) (pr_seen p))
      \<and> (r \<in> rr_id ` set (rt_runs db') \<longrightarrow> map (\<lambda>l. (ll_sequence l, ll_text l)) (log_of r db') = log_tail (outputs (pr_seen p)))"
    if r: "pr_run p = Some r" for r
  proof -
    have "log_of r db' = log_of r db" "r \<in> rr_id ` set (rt_runs db)" if "r \<in> rr_id ` set (rt_runs db')"
      using q [OF r] quiet_mem [OF q [OF r] that] that unfolding quiet_def by simp_all
    then have "r \<in> rr_id ` set (rt_runs db') \<longrightarrow> map (\<lambda>l. (ll_sequence l, ll_text l)) (log_of r db') = log_tail (outputs (pr_seen p))"
      using i r unfolding proc_inv_def by simp
    moreover have "pr_completed p' \<or> rr_progress x = progress_of (pr_mode p) (pr_seen p)" if x: "x \<in> set (rt_runs db')" "rr_id x = r" for x
    proof -
      obtain y where y: "y \<in> set (rt_runs db)" "rr_id y = r" "rr_progress x = rr_progress y" using q [OF r] x unfolding quiet_def by blast
      then have "pr_completed p \<or> rr_progress y = progress_of (pr_mode p) (pr_seen p)" using i r unfolding proc_inv_def by blast
      then show ?thesis using l y(3) by (auto simp: proc_later_def)
    qed
    ultimately show ?thesis by blast
  qed
  then show ?thesis using i l unfolding proc_inv_def proc_later_def by simp
qed

lemma later_inv: "rm_inv s \<Longrightarrow> later s s' \<Longrightarrow> rm_inv s'"
proof -
  assume i: "rm_inv s" and l: "later s s'"
  have "proc_inv (rm_db s') p'" if p: "map_of (rm_procs s') k = Some p'" for k p'
  proof -
    obtain q where q: "map_of (rm_procs s) k = Some q" "proc_later q p'" using l p unfolding later_def by blast
    have ok: "routine_db_ok (rm_db s)" "proc_inv (rm_db s) q" using i q(1) unfolding rm_inv_def by simp_all
    then have "quiet (rm_db s) (rm_db s') r" for r using l unfolding later_def by simp
    from proc_inv_quiet [OF ok(2) this q(2)] show ?thesis .
  qed
  moreover have "runs_apart s'"
    unfolding runs_apart_def
  proof (intro allI impI)
    fix k k' p p' r assume p: "map_of (rm_procs s') k = Some p" "map_of (rm_procs s') k' = Some p'" "pr_run p = Some r" "pr_run p' = Some r"
    obtain q where "map_of (rm_procs s) k = Some q" "proc_later q p" using l p(1) unfolding later_def by blast
    moreover obtain q' where "map_of (rm_procs s) k' = Some q'" "proc_later q' p'" using l p(2) unfolding later_def by blast
    moreover have "pr_run q = Some r" "pr_run q' = Some r" using \<open>proc_later q p\<close> \<open>proc_later q' p'\<close> p(3,4) by (simp_all add: proc_later_def)
    ultimately show "k = k'" using i unfolding rm_inv_def runs_apart_def by blast
  qed
  ultimately show ?thesis using i l by (simp add: rm_inv_def later_def)
qed

section \<open>Operations that leave the runs alone\<close>

lemma later_db: "routine_db_ok (rm_db s) \<Longrightarrow> routine_db_ok db \<Longrightarrow> (\<And>r. quiet (rm_db s) db r) \<Longrightarrow> later s (s\<lparr>rm_db := db\<rparr>)"
  by (auto simp: later_def)

lemma later_frame: "rm_db s' = rm_db s \<Longrightarrow> rm_procs s' = rm_procs s \<Longrightarrow> later s s'"
  by (auto simp: later_def)

lemma later_upd: "(\<And>p. proc_later p (f p)) \<Longrightarrow> later s (upd_proc k f s)"
  by (auto simp: later_def upd_proc_def split: option.splits)

lemma later_emit [simp]: "later s (emit_routine e d reason s)"
  by (rule later_frame) (simp_all add: emit_routine_def)

lemma later_signal [simp]: "later s (signal_proc k sig s)"
  by (rule later_frame) (simp_all add: signal_proc_def)

lemma later_terminate: "later s (terminateRuntime k s)"
  unfolding terminateRuntime_def by (rule later_trans [OF later_signal]) (rule later_upd, simp add: proc_later_def streams_ok_def)

lemma later_fire: "later s (fire_stop_timer k s)"
  unfolding fire_stop_timer_def by (rule later_trans [OF _ later_signal]) (rule later_upd, simp add: proc_later_def streams_ok_def)

lemma later_kill: "later s (kill_runtime k s)"
  unfolding kill_runtime_def by (rule later_trans [OF _ later_signal]) (rule later_upd, simp add: proc_later_def streams_ok_def)

lemma later_change_routine: "(\<And>r. ro_id (f r) = ro_id r \<and> ro_name (f r) = ro_name r) \<Longrightarrow> later s (s\<lparr>rm_db := change_routine i f (rm_db s)\<rparr>)"
  by (auto simp: later_def intro: change_routine_ok) (rule quiet_same; simp add: change_routine_def)+

lemma later_status: "later s (s\<lparr>rm_db := updateRunStatus i st (rm_db s)\<rparr>)"
  by (auto simp: later_def updateRunStatus_ok) (simp add: updateRunStatus_def quiet_change)

lemma later_finish: "later s (s\<lparr>rm_db := finishRun i st res at code err (rm_db s)\<rparr>)"
  by (auto simp: later_def finishRun_ok) (simp add: finishRun_def quiet_change)

lemma later_delete: "later s (s\<lparr>rm_db := delete_routine i (rm_db s)\<rparr>)"
  by (auto simp: later_def delete_routine_ok quiet_delete)

lemma later_upsert: "upsert_routine i ownerId name script cwd now (rm_db s) = Some (row, db) \<Longrightarrow> later s (s\<lparr>rm_db := db\<rparr>)"
proof -
  assume u: "upsert_routine i ownerId name script cwd now (rm_db s) = Some (row, db)"
  then have "rt_runs db = rt_runs (rm_db s)" "rt_logs db = rt_logs (rm_db s)"
    by (auto simp: upsert_routine_def Let_def split: option.splits if_splits)
  then show ?thesis using upsert_routine_ok [OF _ u] quiet_same by (auto simp: later_def)
qed

lemma later_create: "later s (snd (createRoutine e now i name script sessionId ownerId cwd s))"
  unfolding createRoutine_def Let_def
  by (auto split: option.splits intro: later_trans [OF later_upsert later_emit])

lemma later_remove: "later s (snd (deleteRoutine e name s))"
  unfolding deleteRoutine_def Let_def
  by (auto split: option.splits sum.splits intro: later_delete later_trans [OF later_delete later_frame])

lemma later_stop: "later s (snd (stopRoutine e name s))"
proof -
  have st: "later s (case findLatestRun i (rm_db s) of None \<Rightarrow> s | Some run \<Rightarrow> s\<lparr>rm_db := updateRunStatus (rr_id run) ''stopping'' (rm_db s)\<rparr>)" for i
    by (auto split: option.splits intro: later_status)
  have "later s (terminateRuntime k (emit_routine e d r (case findLatestRun i (rm_db s) of None \<Rightarrow> s
      | Some run \<Rightarrow> s\<lparr>rm_db := updateRunStatus (rr_id run) ''stopping'' (rm_db s)\<rparr>)))" for i k d r
    by (rule later_trans [OF later_trans [OF _ later_emit] later_terminate]) (rule st)
  then show ?thesis unfolding stopRoutine_def Let_def by (auto split: option.splits)
qed

lemma later_released: "later s (released e now d s)"
  unfolding released_def Let_def release_routine_def
  by (auto split: option.splits intro: later_change_routine later_trans [OF later_change_routine later_emit])

lemma later_release: "later s (snd (releaseRoutine e now name s))"
  unfolding releaseRoutine_def by (auto split: sum.splits intro: later_released)

lemma later_fold: "(\<And>x s. later s (f x s)) \<Longrightarrow> later s (fold f xs s)"
proof (induction xs arbitrary: s)
  case (Cons x xs)
  then have "later (f x s) (fold f xs (f x s))" by simp
  then show ?case using Cons.prems [of s x] later_trans by fastforce
qed simp

lemma later_stop_if: "later s (stop_if_active e d s)"
  by (simp add: stop_if_active_def later_stop)

lemma later_stop_session: "later s (snd (stopSessionRoutines e sessionId s))"
  unfolding stopSessionRoutines_def Let_def snd_conv by (rule later_fold) (rule later_stop_if)

lemma later_release_session: "later s (snd (releaseSessionRoutines e now sessionId s))"
  unfolding releaseSessionRoutines_def Let_def snd_conv by (rule later_fold) (rule later_trans [OF later_stop_if later_released])

lemma later_stop_all: "later s (stopAllRoutines s)"
  unfolding stopAllRoutines_def by (rule later_trans [OF later_frame later_fold]) (simp_all add: later_kill)

lemma later_drop: "later s (drop_definition e j d rest s)"
  unfolding drop_definition_def Let_def by (auto split: option.splits intro: later_trans [OF later_delete later_frame])

lemma later_deletion: "later s (deletion_step_of e j s)"
proof -
  have "later s ((kill_runtime k s)\<lparr>rm_runtime := a, rm_deletions := b\<rparr>)" for k a b
    by (rule later_trans [OF later_kill later_frame]) simp_all
  then show ?thesis unfolding deletion_step_of_def
    by (auto split: option.splits list.splits intro: later_drop later_frame)
qed

lemma later_read: "stream \<in> {''stdout'', ''stderr''} \<Longrightarrow> later s (read_line k stream v s)"
  unfolding read_line_def by (rule later_upd) (auto simp: proc_later_def streams_ok_def)

lemma later_close: "later s (proc_close k code sig s)"
  unfolding proc_close_def by (rule later_upd) (auto simp: proc_later_def streams_ok_def)

lemma later_spawn_error: "later s (spawn_error k err s)"
  unfolding spawn_error_def by (rule later_upd) (auto simp: proc_later_def streams_ok_def)

end
