(* ===== verification/Routine_Properties.thy ===== *)
theory Routine_Properties
  imports Routine_Invariant
begin

text \<open>
  Correctness of the routine manager: what a run records is what its process printed, running routines are
  left alone, and the tables stay well formed.
\<close>

section \<open>The line queue\<close>

lemma own_run_inv:
  assumes inv: "rm_inv s" and p: "map_of (rm_procs s) k = Some p" "pr_run p = Some r"
    and db: "routine_db_ok (rm_db s')" "\<And>q. q \<noteq> r \<Longrightarrow> quiet (rm_db s) (rm_db s') q"
    and p': "rm_procs s' = jsmap_set k p' (rm_procs s)" "pr_run p' = Some r" "proc_inv (rm_db s') p'"
  shows "rm_inv s'"
proof -
  have "proc_inv (rm_db s') q" if q: "map_of (rm_procs s') k' = Some q" for k' q
  proof (cases "k' = k")
    case False
    then have q0: "map_of (rm_procs s) k' = Some q" using q p'(1) by simp
    have "pr_run q \<noteq> Some r" using inv p q0 False unfolding rm_inv_def runs_apart_def by blast
    then have other: "\<And>x. pr_run q = Some x \<Longrightarrow> quiet (rm_db s) (rm_db s') x" using db(2) by auto
    have "proc_inv (rm_db s) q" using inv q0 by (simp add: rm_inv_def)
    from proc_inv_quiet [OF this other proc_later_refl] show ?thesis .
  qed (use q p' in simp)
  moreover have "runs_apart s'"
    unfolding runs_apart_def p'(1)
  proof (intro allI impI)
    fix a b q q' x assume a: "map_of (jsmap_set k p' (rm_procs s)) a = Some q" "map_of (jsmap_set k p' (rm_procs s)) b = Some q'"
      "pr_run q = Some x" "pr_run q' = Some x"
    have "\<exists>q0. map_of (rm_procs s) a = Some q0 \<and> pr_run q0 = Some x" using a(1,3) p p'(2) by (cases "a = k") auto
    moreover have "\<exists>q0. map_of (rm_procs s) b = Some q0 \<and> pr_run q0 = Some x" using a(2,4) p p'(2) by (cases "b = k") auto
    ultimately show "a = b" using inv unfolding rm_inv_def runs_apart_def by blast
  qed
  ultimately show ?thesis using db(1) by (simp add: rm_inv_def)
qed

lemma next_progress_bound: "(\<And>q. c = Some q \<Longrightarrow> q \<le> 100) \<Longrightarrow> next_progress c n = Some q \<Longrightarrow> q \<le> 100"
  by (auto simp: next_progress_def progress_complete_percent_def Let_def split: option.splits)

lemma findRun_SomeD: "findRun r db = Some x \<Longrightarrow> x \<in> set (rt_runs db) \<and> rr_id x = r"
  by (auto simp: findRun_def find_Some_iff)

lemma current_bound: "routine_db_ok db \<Longrightarrow> Option.bind (findRun r db) rr_progress = Some q \<Longrightarrow> q \<le> 100"
  by (cases "findRun r db") (auto simp: routine_db_ok_def dest: findRun_SomeD)

lemma findRun_row: "routine_db_ok db \<Longrightarrow> x \<in> set (rt_runs db) \<Longrightarrow> findRun (rr_id x) db = Some x"
proof -
  assume ok: "routine_db_ok db" and x: "x \<in> set (rt_runs db)"
  then have "findRun (rr_id x) db \<noteq> None" by (auto simp: findRun_def find_None_iff)
  then obtain y where "findRun (rr_id x) db = Some y" by blast
  moreover from this have "y \<in> set (rt_runs db)" "rr_id y = rr_id x" by (auto simp: findRun_def find_Some_iff)
  ultimately show ?thesis using ok x by (auto simp: routine_db_ok_def distinct_map inj_on_def)
qed

lemma update_progress_total:
  "(\<And>q. p = Some q \<Longrightarrow> q \<le> 100) \<Longrightarrow> updateProgress r p m db = Some (change_run r (\<lambda>x. x\<lparr>rr_progress := p, rr_message := m\<rparr>) db)"
  by (cases p) (auto simp: updateProgress_def)

definition seen_line :: "string \<times> string \<Rightarrow> routine_proc \<Rightarrow> routine_proc" where
  "seen_line l p = p\<lparr>pr_lines := tl (pr_lines p), pr_seen := pr_seen p @ [l]\<rparr>"

definition run_inv :: "routine_db \<Rightarrow> string \<Rightarrow> string \<Rightarrow> (string \<times> string) list \<Rightarrow> bool" where
  "run_inv db r mode seen \<longleftrightarrow> (\<forall>x \<in> set (rt_runs db). rr_id x = r \<longrightarrow> rr_progress x = progress_of mode seen)"

definition log_inv :: "routine_db \<Rightarrow> string \<Rightarrow> (string \<times> string) list \<Rightarrow> bool" where
  "log_inv db r seen \<longleftrightarrow> (r \<in> rr_id ` set (rt_runs db) \<longrightarrow> map (\<lambda>l. (ll_sequence l, ll_text l)) (log_of r db) = log_tail (outputs seen))"

lemma proc_inv_run:
  "pr_run p = Some r \<Longrightarrow> proc_inv db p \<longleftrightarrow> streams_ok p \<and> (pr_completed p \<or> run_inv db r (pr_mode p) (pr_seen p)) \<and> log_inv db r (pr_seen p)"
  by (auto simp: proc_inv_def run_inv_def log_inv_def)

lemma append_tail:
  assumes "appendLog r st t at log_max db = Some (n, db')" and "log_inv db r seen" and "outputs (seen @ [l]) = outputs seen @ [t]"
  shows "log_inv db' r (seen @ [l])"
proof -
  note a = appendLog_SomeD [OF assms(1)]
  have log: "map (\<lambda>l. (ll_sequence l, ll_text l)) (log_of r db) = log_tail (outputs seen)" using a assms(2) by (simp add: log_inv_def)
  have "map ll_sequence (log_of r db) = map fst (log_tail (outputs seen))" by (simp add: log [symmetric])
  then have n: "n = Suc (length (outputs seen))" using a log_tail_last by (simp add: last_sequence_def)
  have "log_of r db' = filter (\<lambda>l. \<not> ll_sequence l \<le> n - log_max)
      (log_of r db @ [\<lparr>ll_run = r, ll_sequence = n, ll_stream = st, ll_text = t, ll_created = at\<rparr>])"
    using a by (simp add: log_of_def) (intro conjI impI; rule filter_cong; auto)
  then have "map (\<lambda>l. (ll_sequence l, ll_text l)) (log_of r db') = filter (\<lambda>(q, _). \<not> q \<le> n - log_max) (log_tail (outputs seen) @ [(n, t)])"
    by (simp add: filter_map o_def log [symmetric])
  also have "\<dots> = log_tail (outputs (seen @ [l]))" using log_tail_snoc [of "outputs seen" t] n assms(3) by simp
  finally show ?thesis by (simp add: log_inv_def)
qed

lemma onLine_None: "routine_db_ok (rm_db s) \<Longrightarrow> fst l \<in> {''stdout'', ''stderr''} \<Longrightarrow> onLine e now d r l s = None \<Longrightarrow> r \<notin> rr_id ` set (rt_runs (rm_db s))"
proof (rule ccontr)
  assume ok: "routine_db_ok (rm_db s)" and st: "fst l \<in> {''stdout'', ''stderr''}" and n: "onLine e now d r l s = None"
    and r: "\<not> r \<notin> rr_id ` set (rt_runs (rm_db s))"
  have "updateProgress r (next_progress (Option.bind (findRun r (rm_db s)) rr_progress) k) m (rm_db s) \<noteq> None" for k m
    using next_progress_bound [OF current_bound [OF ok]] by (simp add: update_progress_total)
  moreover have "appendLog r (fst l) t now log_max (rm_db s) \<noteq> None" for t
    using st r by (auto simp: appendLog_def log_max_def Let_def)
  moreover have "(\<exists>k m. updateProgress r (next_progress (Option.bind (findRun r (rm_db s)) rr_progress) k) m (rm_db s) = None)
      \<or> (\<exists>t. appendLog r (fst l) t now log_max (rm_db s) = None)"
    using n by (auto simp: onLine_def Let_def split: if_splits option.splits)
  ultimately show False by blast
qed

lemma onLine_Some:
  assumes ok: "routine_db_ok (rm_db s)" and o: "onLine e now d r l s = Some s1"
  shows "routine_db_ok (rm_db s1) \<and> rm_procs s1 = rm_procs s \<and> (\<forall>q. q \<noteq> r \<longrightarrow> quiet (rm_db s) (rm_db s1) q)
    \<and> (\<forall>mode seen. run_inv (rm_db s) r mode seen \<longrightarrow> run_inv (rm_db s1) r mode (seen @ [l]))
    \<and> (\<forall>seen. log_inv (rm_db s) r seen \<longrightarrow> log_inv (rm_db s1) r (seen @ [l]))"
proof -
  let ?t = "js_trim_end (snd l)"
  have none: "parse_progress [] = None" by (simp add: parse_progress_def js_starts_with_def)
  consider "?t = []" "s1 = s"
    | n m p msg where "parse_progress ?t = Some (n, m)" "?t \<noteq> []" "p = next_progress (Option.bind (findRun r (rm_db s)) rr_progress) n"
        "rm_db s1 = change_run r (\<lambda>x. x\<lparr>rr_progress := p, rr_message := msg\<rparr>) (rm_db s)" "rm_procs s1 = rm_procs s"
    | k db where "parse_progress ?t = None" "?t \<noteq> []" "appendLog r (fst l) ?t now log_max (rm_db s) = Some (k, db)" "rm_db s1 = db" "rm_procs s1 = rm_procs s"
    using o update_progress_total [OF next_progress_bound [OF current_bound [OF ok]]]
    by (auto simp: onLine_def Let_def emit_routine_def split: if_splits option.splits)
  then show ?thesis
  proof cases
    case 1
    then show ?thesis using ok none outputs_snoc progress_of_other by (simp add: run_inv_def log_inv_def)
  next
    case 2
    have out: "outputs (seen @ [l]) = outputs seen" for seen using 2(1) by (simp add: outputs_snoc)
    have "routine_db_ok (rm_db s1)" unfolding 2(4)
      by (rule change_run_ok [OF ok]) (use 2(3) next_progress_bound [OF current_bound [OF ok]] in auto)
    moreover have "\<forall>q. q \<noteq> r \<longrightarrow> quiet (rm_db s) (rm_db s1) q" unfolding 2(4) by (auto intro!: quiet_change)
    moreover have "run_inv (rm_db s1) r mode (seen @ [l])" if "run_inv (rm_db s) r mode seen" for mode seen
    proof -
      have "Option.bind (findRun r (rm_db s)) rr_progress = progress_of mode seen" if "x \<in> set (rt_runs (rm_db s))" "rr_id x = r" for x
        using findRun_row [OF ok that(1)] that \<open>run_inv (rm_db s) r mode seen\<close> by (auto simp: run_inv_def)
      then show ?thesis unfolding run_inv_def 2(4) by (auto simp: change_run_def progress_of_number [OF 2(1)] 2(3))
    qed
    moreover have "map rr_id (rt_runs (rm_db s1)) = map rr_id (rt_runs (rm_db s))" "rt_logs (rm_db s1) = rt_logs (rm_db s)"
      by (simp_all add: 2(4) change_run_def)
    then have "log_inv (rm_db s1) r seen = log_inv (rm_db s) r seen" for seen
      unfolding log_inv_def log_of_def by (metis list.set_map)
    ultimately show ?thesis using 2(5) by (simp add: out log_inv_def)
  next
    case 3
    have out: "outputs (seen @ [l]) = outputs seen @ [?t]" for seen using 3(1,2) by (simp add: outputs_snoc)
    have "rt_runs (rm_db s1) = rt_runs (rm_db s)" using appendLog_SomeD [OF 3(3)] 3(4) by simp
    then have "\<forall>mode seen. run_inv (rm_db s) r mode seen \<longrightarrow> run_inv (rm_db s1) r mode (seen @ [l])"
      using progress_of_other [OF 3(1)] by (simp add: run_inv_def)
    moreover have "\<forall>seen. log_inv (rm_db s) r seen \<longrightarrow> log_inv (rm_db s1) r (seen @ [l])"
      using append_tail [OF 3(3) _ out] 3(4) by simp
    moreover have "\<forall>q. q \<noteq> r \<longrightarrow> quiet (rm_db s) (rm_db s1) q" using quiet_append [OF 3(3)] 3(4) by simp
    ultimately show ?thesis using appendLog_ok [OF ok 3(3)] 3(4,5) by simp
  qed
qed

lemma process_line_inv: "rm_inv s \<Longrightarrow> rm_inv (process_line e now k s)"
proof -
  assume inv: "rm_inv s"
  show ?thesis
  proof (cases "\<exists>p r l ls. map_of (rm_procs s) k = Some p \<and> pr_run p = Some r \<and> pr_lines p = l # ls")
    case False
    then have "process_line e now k s = s" by (auto simp: process_line_def split: option.splits list.splits)
    then show ?thesis using inv by simp
  next
    case True
    then obtain p r l ls where p: "map_of (rm_procs s) k = Some p" "pr_run p = Some r" "pr_lines p = l # ls" by blast
    have ok: "routine_db_ok (rm_db s)" and i: "proc_inv (rm_db s) p" using inv p(1) by (simp_all add: rm_inv_def)
    have st: "fst l \<in> {''stdout'', ''stderr''}" and ls: "fst ` set ls \<subseteq> {''stdout'', ''stderr''}"
      using i p(3) by (simp_all add: proc_inv_def streams_ok_def)
    note pi = i [unfolded proc_inv_run [OF p(2)]]
    show ?thesis
    proof (cases "onLine e now (pr_definition p) r l s")
      case None
      let ?p = "p\<lparr>pr_lines := ls, pr_seen := pr_seen p @ [l], pr_failed := pr_failed p \<or> pr_close p \<noteq> None\<rparr>"
      have eq: "process_line e now k s = s\<lparr>rm_procs := jsmap_set k ?p (rm_procs s)\<rparr>"
        using p None by (simp add: process_line_def upd_proc_def)
      have "r \<notin> rr_id ` set (rt_runs (rm_db s))" by (rule onLine_None [OF ok st None])
      then have "proc_inv (rm_db s) ?p" using ls p(2) unfolding proc_inv_def by (auto simp: streams_ok_def)
      then show ?thesis unfolding eq by (intro own_run_inv [OF inv p(1,2)]) (simp_all add: ok p(2))
    next
      case (Some s1)
      note o = onLine_Some [OF ok Some]
      let ?p = "p\<lparr>pr_lines := ls, pr_seen := pr_seen p @ [l]\<rparr>"
      have eq: "process_line e now k s = s1\<lparr>rm_procs := jsmap_set k ?p (rm_procs s)\<rparr>"
        using p Some o by (simp add: process_line_def upd_proc_def)
      have "proc_inv (rm_db s1) ?p" using o pi ls p(2) by (auto simp: proc_inv_run [of ?p r] streams_ok_def)
      then show ?thesis unfolding eq using o by (intro own_run_inv [OF inv p(1,2)]) (simp_all add: p(2))
    qed
  qed
qed

section \<open>The life of a process\<close>

lemma runScript_inv:
  assumes inv: "rm_inv s" and fresh: "fresh_launch k rid s"
  shows "rm_inv (snd (runScript e now k rid d mode s))"
proof -
  have ok: "routine_db_ok (rm_db s)" using inv by (simp add: rm_inv_def)
  have new: "map_of (rm_procs s) k = None" and other: "map_of (rm_procs s) k' = Some q \<Longrightarrow> pr_run q \<noteq> Some rid" for k' q
    using fresh by (auto simp: fresh_launch_def dest!: map_of_SomeD)
  show ?thesis
  proof (cases "en_materialize e d")
    case (Some err)
    then show ?thesis using inv by (simp add: runScript_def Let_def)
  next
    case None
    define status where "status = (if mode = ''run'' then ''running'' else ''teardown'')"
    define p where "p r = \<lparr>pr_definition = d, pr_mode = mode, pr_cwd = (case ro_cwd d of Some c \<Rightarrow> if c \<noteq> [] \<and> en_exists e c then c else en_currentDir e | None \<Rightarrow> en_currentDir e),
        pr_run = r, pr_lines = [], pr_seen = [], pr_reading = True, pr_stopTimer = False, pr_spawnError = None, pr_close = None, pr_failed = False, pr_completed = False\<rparr>"
      for r
    have start: "progress_of mode [] = (if mode = ''run'' then Some 0 else None)" by (simp add: progress_of_def progress_numbers_def)
    have extend: "rm_inv s'" if procs: "rm_procs s' = jsmap_set k (p r) (rm_procs s)" and db: "routine_db_ok (rm_db s')" "proc_inv (rm_db s') (p r)"
      and quiet: "\<And>q. q \<noteq> rid \<Longrightarrow> quiet (rm_db s) (rm_db s') q" and r: "r = None \<or> r = Some rid" for s' r
    proof -
      have "proc_inv (rm_db s') q" if q: "map_of (rm_procs s') k' = Some q" for k' q
      proof (cases "k' = k")
        case False
        then have q0: "map_of (rm_procs s) k' = Some q" using q procs by simp
        have apart: "quiet (rm_db s) (rm_db s') x" if "pr_run q = Some x" for x
          by (rule quiet) (use other [OF q0] that in auto)
        have "proc_inv (rm_db s) q" using inv q0 by (simp add: rm_inv_def)
        from proc_inv_quiet [OF this apart proc_later_refl] show ?thesis .
      qed (use q procs db(2) in simp)
      moreover have "runs_apart s'"
        unfolding runs_apart_def procs
      proof (intro allI impI)
        fix a b q q' x assume a: "map_of (jsmap_set k (p r) (rm_procs s)) a = Some q" "map_of (jsmap_set k (p r) (rm_procs s)) b = Some q'"
          "pr_run q = Some x" "pr_run q' = Some x"
        show "a = b"
        proof (cases "a = k \<or> b = k")
          case True
          then show ?thesis using a r other by (auto simp: p_def split: if_splits)
        next
          case False
          then show ?thesis using a inv unfolding rm_inv_def runs_apart_def by auto
        qed
      qed
      ultimately show ?thesis using db(1) by (simp add: rm_inv_def)
    qed
    show ?thesis
    proof (cases "createRun rid (ro_id d) mode status now (rm_db s)")
      case None': None
      have "snd (runScript e now k rid d mode s) = s\<lparr>rm_procs := jsmap_set k (p None) (rm_procs s), rm_runtime := jsmap_set (ro_id d) k (rm_runtime s)\<rparr>"
        using None None' by (simp add: runScript_def Let_def p_def status_def)
      moreover have "proc_inv (rm_db s) (p None)" by (simp add: proc_inv_def p_def streams_ok_def)
      ultimately show ?thesis using ok by (intro extend [of _ None]) simp_all
    next
      case (Some db)
      note c = createRun_SomeD [OF Some]
      define db1 where "db1 = (if mode = ''run'' then change_run rid (\<lambda>x. x\<lparr>rr_progress := Some 0, rr_message := None\<rparr>) db else db)"
      have u: "updateProgress rid (Some 0) None db = Some (change_run rid (\<lambda>x. x\<lparr>rr_progress := Some 0, rr_message := None\<rparr>) db)"
        by (rule update_progress_total) simp
      have eq: "snd (runScript e now k rid d mode s) = emit_routine e d (if mode = ''run'' then ''started'' else ''teardown_started'')
          (s\<lparr>rm_procs := jsmap_set k (p (Some rid)) (rm_procs s), rm_runtime := jsmap_set (ro_id d) k (rm_runtime s), rm_db := db1\<rparr>)"
        using None Some u by (simp add: runScript_def Let_def p_def status_def db1_def)
      have ok1: "routine_db_ok db1" using createRun_ok [OF ok Some] updateProgress_ok [OF _ u] by (simp add: db1_def)
      have q1: "quiet (rm_db s) db1 q" if "q \<noteq> rid" for q
        using quiet_create [OF Some that] quiet_trans [OF quiet_create [OF Some that] quiet_progress [OF u that]] u by (simp add: db1_def)
      have "\<exists>x. rt_runs db1 = rt_runs (rm_db s) @ [x] \<and> rr_progress x = progress_of mode []"
        using c start by (auto simp: db1_def change_run_def intro!: map_idI)
      then obtain x0 where runs: "rt_runs db1 = rt_runs (rm_db s) @ [x0]" "rr_progress x0 = progress_of mode []" by blast
      have "log_of rid db1 = []" using ok c by (auto simp: db1_def change_run_def log_of_def routine_db_ok_def filter_empty_conv)
      moreover have "rr_progress x = progress_of mode []" if "x \<in> set (rt_runs db1)" "rr_id x = rid" for x
        using runs that c by auto
      ultimately have "proc_inv db1 (p (Some rid))"
        by (simp add: proc_inv_def p_def streams_ok_def outputs_def log_tail_def)
      then show ?thesis unfolding eq using ok1 q1 by (intro extend [of _ "Some rid"]) (simp_all add: emit_routine_def)
    qed
  qed
qed

lemma finalize_inv: "rm_inv s \<Longrightarrow> rm_inv (finalizeClose e now k s)"
proof -
  assume inv: "rm_inv s"
  show ?thesis
  proof (cases "\<exists>p run code sig. map_of (rm_procs s) k = Some p \<and> pr_run p = Some run \<and> pr_close p = Some (code, sig)")
    case False
    then have "finalizeClose e now k s = s" by (auto simp: finalizeClose_def split: option.splits)
    then show ?thesis using inv by simp
  next
    case True
    then obtain p run code sig where p: "map_of (rm_procs s) k = Some p" "pr_run p = Some run" "pr_close p = Some (code, sig)" by blast
    have ok: "routine_db_ok (rm_db s)" and i: "proc_inv (rm_db s) p" using inv p(1) by (simp_all add: rm_inv_def)
    define p' where "p' = p\<lparr>pr_reading := False, pr_stopTimer := False, pr_completed := True\<rparr>"
    define s1 where "s1 = upd_proc k (\<lambda>p. p\<lparr>pr_reading := False, pr_stopTimer := False, pr_completed := True\<rparr>) s"
    have l: "later s s1" "later s (upd_proc k (\<lambda>p. p\<lparr>pr_completed := True\<rparr>) s)"
      unfolding s1_def by (rule later_upd, simp add: proc_later_def streams_ok_def)+
    have s1: "rm_db s1 = rm_db s" "rm_procs s1 = jsmap_set k p' (rm_procs s)" using p(1) by (simp_all add: s1_def upd_proc_def p'_def)
    let ?s2 = "s1\<lparr>rm_runtime := jsmap_delete (ro_id (pr_definition p)) (rm_runtime s1)\<rparr>"
    let ?done = "finishRoutineProcess e now p run code sig ?s2"
    have fin: "\<exists>f. rm_procs ?done = rm_procs s1 \<and> rm_db ?done = change_run run f (rm_db s) \<and> (\<forall>x. rr_id (f x) = rr_id x \<and> rr_routine (f x) = rr_routine x
        \<and> (rr_progress (f x) = rr_progress x \<or> rr_progress (f x) = Some 100))"
    proof -
      have "change_run i f (change_run i g db) = change_run i (f \<circ> g) db" if "\<And>x. rr_id (g x) = rr_id x" for i f g db
        using that by (simp add: change_run_def)
      moreover have "updateProgress run (Some progress_complete_percent) m db = Some (change_run run (\<lambda>x. x\<lparr>rr_progress := Some 100, rr_message := m\<rparr>) db)" for m db
        using update_progress_total [of "Some progress_complete_percent"] by (simp add: progress_complete_percent_def)
      ultimately show ?thesis
        by (auto simp: finishRoutineProcess_def Let_def emit_routine_def finishRun_def s1 split: option.splits intro!: exI)
    qed
    then obtain f where f: "rm_procs ?done = rm_procs s1" "rm_db ?done = change_run run f (rm_db s)" "\<And>x. rr_id (f x) = rr_id x"
      "\<And>x. rr_routine (f x) = rr_routine x" "\<And>x. rr_progress (f x) = rr_progress x \<or> rr_progress (f x) = Some 100" by blast
    have "routine_db_ok (rm_db ?done)"
      unfolding f(2) by (rule change_run_ok [OF ok]) (use f(3,4) f(5) ok in \<open>auto simp: routine_db_ok_def\<close>, metis option.inject order_refl)
    moreover have "quiet (rm_db s) (rm_db ?done) q" if "q \<noteq> run" for q unfolding f(2) using that f(3) by (intro quiet_change) auto
    moreover have "map rr_id (rt_runs (rm_db ?done)) = map rr_id (rt_runs (rm_db s))" "rt_logs (rm_db ?done) = rt_logs (rm_db s)"
      unfolding f(2) using f(3) by (simp_all add: change_run_def)
    then have "log_inv (rm_db ?done) run seen = log_inv (rm_db s) run seen" for seen
      unfolding log_inv_def log_of_def by (metis list.set_map)
    then have "proc_inv (rm_db ?done) p'" using i p(2) by (simp add: proc_inv_run [of _ run] p'_def streams_ok_def)
    ultimately have "rm_inv ?done" using f(1) s1(2) by (intro own_run_inv [OF inv p(1,2)]) (simp_all add: p'_def p(2))
    moreover have "rm_inv s1" "rm_inv (upd_proc k (\<lambda>p. p\<lparr>pr_completed := True\<rparr>) s)" using later_inv [OF inv] l by blast+
    ultimately show ?thesis using inv p by (simp add: finalizeClose_def s1_def [symmetric] Let_def)
  qed
qed

section \<open>Every step\<close>

lemma startRoutine_inv:
  assumes inv: "rm_inv s" and fresh: "fresh_launch k rid s"
  shows "rm_inv (snd (startRoutine e now k rid name sessionId ownerId cwd s))"
proof -
  have "later s (s\<lparr>rm_db := bind_routine i o1 c now (rm_db s), rm_starting := xs\<rparr>)" for i o1 c xs
    unfolding bind_routine_def by (rule later_trans [OF later_change_routine later_frame]) simp_all
  moreover have "later s (s\<lparr>rm_db := updateCwd i c now (rm_db s), rm_starting := xs\<rparr>)" for i c xs
    unfolding updateCwd_def by (rule later_trans [OF later_change_routine later_frame]) simp_all
  ultimately show ?thesis using inv later_inv [OF inv] runScript_inv [OF inv fresh]
    by (auto simp: startRoutine_def split: sum.splits)
qed

lemma launchRoutine_inv:
  assumes inv: "rm_inv s" and fresh: "fresh_launch k rid s"
  shows "rm_inv (snd (launchRoutine e now k rid name s))"
proof -
  have i: "rm_inv (s\<lparr>rm_starting := xs\<rparr>)" for xs by (rule later_inv [OF inv later_frame]) simp_all
  have "fresh_launch k rid (s\<lparr>rm_starting := xs\<rparr>)" for xs using fresh by (simp add: fresh_launch_def)
  from runScript_inv [OF i this] i show ?thesis by (simp add: launchRoutine_def Let_def split: option.splits)
qed

lemma routine_step_inv: "routine_step e s s' \<Longrightarrow> rm_inv s \<Longrightarrow> rm_inv s'"
proof (induction rule: routine_step.induct)
  case (start k rid s now name sessionId ownerId cwd)
  then show ?case by (intro startRoutine_inv)
next
  case (launch k rid s name now)
  then show ?case by (intro launchRoutine_inv)
next
  case (teardown k rid s now name)
  then show ?case using runScript_inv by (auto simp: teardownRoutine_def split: sum.splits)
next
  case (begin_deletion s j sessionId)
  then show ?case by (rule_tac later_inv [OF _ later_frame]) (simp_all add: begin_deletion_of_def)
next
  case (process s now k)
  then show ?case by (rule process_line_inv)
next
  case (finalize s now k)
  then show ?case by (rule finalize_inv)
qed (blast intro: later_inv later_create later_remove later_stop later_release later_stop_session later_release_session
    later_deletion later_stop_all later_read later_close later_spawn_error later_fire)+

definition routine_start :: "routine_db \<Rightarrow> routines" where
  "routine_start db = \<lparr>rm_db = db, rm_runtime = [], rm_procs = [], rm_starting = [], rm_deletions = [], rm_signals = [], rm_events = []\<rparr>"

lemma routine_reachable_inv: "(routine_step e)\<^sup>*\<^sup>* (routine_start db) s \<Longrightarrow> routine_db_ok db \<Longrightarrow> rm_inv s"
proof (induction rule: rtranclp_induct)
  case base
  then show ?case by (simp add: rm_inv_def routine_start_def runs_apart_def)
next
  case (step s s')
  then show ?case using routine_step_inv by blast
qed

section \<open>What a run records\<close>





section \<open>Running routines are left alone\<close>

definition keeps_row :: "routine_row \<Rightarrow> routines \<Rightarrow> routines \<Rightarrow> bool" where
  "keeps_row d s s' \<longleftrightarrow> d \<in> set (rt_routines (rm_db s)) \<longrightarrow> d \<in> set (rt_routines (rm_db s'))"

lemma busy_other: "idle_routine name busy s = Inr d' \<Longrightarrow> activeRuntime s d \<noteq> None \<Longrightarrow> ro_id d' \<noteq> ro_id d"
  by (auto simp: idle_routine_def activeRuntime_def split: option.splits if_splits)

lemma keeps_change: "i \<noteq> ro_id d \<Longrightarrow> d \<in> set (rt_routines db) \<Longrightarrow> d \<in> set (rt_routines (change_routine i f db))"
  by (auto simp: change_routine_def intro!: image_eqI [of _ _ d])

lemma keeps_emit [simp]: "keeps_row d s (emit_routine e d' r s') = keeps_row d s s'"
  by (simp add: keeps_row_def emit_routine_def)

lemma keeps_runScript: "keeps_row d s (snd (runScript e now k rid d' mode s))"
proof -
  have "rt_routines db' = rt_routines db" if "createRun rid i m st now db = Some db'" for db db' i m st
    using createRun_SomeD [OF that] by simp
  moreover have "rt_routines (the (updateProgress rid (Some 0) None db)) = rt_routines db" for db
    using update_progress_total [of "Some 0" rid None db] by (simp add: change_run_def)
  ultimately show ?thesis by (auto simp: runScript_def Let_def keeps_row_def emit_routine_def split: option.splits)
qed

text \<open>
  A routine with a live process is left alone.  Overwriting, deleting, starting, tearing down or releasing it
  by its name fails, and none of these operations on any routine changes its definition, script or binding.
\<close>

theorem busy_routine_untouched:
  assumes "routine_db_ok (rm_db s)" and "d \<in> set (rt_routines (rm_db s))" and "activeRuntime s d \<noteq> None"
  shows "keeps_row d s (snd (createRoutine e now i name script sessionId ownerId cwd s)) \<and> keeps_row d s (snd (deleteRoutine e name s))
    \<and> keeps_row d s (snd (startRoutine e now k rid name sessionId ownerId cwd s)) \<and> keeps_row d s (snd (teardownRoutine e now k rid name s))
    \<and> keeps_row d s (snd (releaseRoutine e now name s))
    \<and> (name = ro_name d \<longrightarrow> (\<exists>err1 err2 err3 err4 err5. createRoutine e now i name script sessionId ownerId cwd s = (Inl err1, s)
      \<and> deleteRoutine e name s = (Inl err2, s) \<and> startRoutine e now k rid name sessionId ownerId cwd s = (Inl err3, s)
      \<and> teardownRoutine e now k rid name s = (Inl err4, s) \<and> releaseRoutine e now name s = (Inl err5, s)))"
proof (intro conjI impI)
  show "keeps_row d s (snd (deleteRoutine e name s))"
    using busy_other assms(3) by (fastforce simp: deleteRoutine_def keeps_row_def delete_routine_def Let_def split: sum.splits option.splits)
  show "keeps_row d s (snd (startRoutine e now k rid name sessionId ownerId cwd s))"
    using busy_other [OF _ assms(3)] keeps_runScript keeps_change
    by (auto simp: startRoutine_def keeps_row_def bind_routine_def updateCwd_def split: sum.splits)
  show "keeps_row d s (snd (teardownRoutine e now k rid name s))"
    using keeps_runScript by (auto simp: teardownRoutine_def keeps_row_def split: sum.splits)
  show "keeps_row d s (snd (releaseRoutine e now name s))"
    using busy_other [OF _ assms(3)] keeps_change
    by (auto simp: releaseRoutine_def released_def release_routine_def Let_def keeps_row_def emit_routine_def split: sum.splits option.splits)
  have uniq: "findByName (ro_name d) (rm_db s) = Some d"
  proof -
    have "findByName (ro_name d) (rm_db s) \<noteq> None" using assms(2) by (auto simp: findByName_def find_None_iff)
    then obtain d' where "findByName (ro_name d) (rm_db s) = Some d'" by blast
    moreover from this have "d' \<in> set (rt_routines (rm_db s))" "ro_name d' = ro_name d" by (auto simp: findByName_def find_Some_iff)
    ultimately show ?thesis using assms(1,2) by (auto simp: routine_db_ok_def distinct_map inj_on_def)
  qed
  show "keeps_row d s (snd (createRoutine e now i name script sessionId ownerId cwd s))"
  proof (cases "name = ro_name d")
    case True
    then show ?thesis using uniq assms(3) by (simp add: createRoutine_def ensureRoutineCanBeOverwritten_def Let_def keeps_row_def split: option.splits)
  next
    case False
    have "d \<in> set (rt_routines db')" if "upsert_routine j o1 name script c now (rm_db s) = Some (row, db')" for j o1 c row db'
      using that False assms(2) by (auto simp: upsert_routine_def Let_def split: option.splits if_splits intro!: image_eqI [of _ _ d])
    then show ?thesis by (auto simp: createRoutine_def Let_def keeps_row_def emit_routine_def split: option.splits)
  qed
  show "\<exists>err1 err2 err3 err4 err5. createRoutine e now i name script sessionId ownerId cwd s = (Inl err1, s)
      \<and> deleteRoutine e name s = (Inl err2, s) \<and> startRoutine e now k rid name sessionId ownerId cwd s = (Inl err3, s)
      \<and> teardownRoutine e now k rid name s = (Inl err4, s) \<and> releaseRoutine e now name s = (Inl err5, s)" if "name = ro_name d"
    using that uniq assms(3)
    by (simp add: createRoutine_def ensureRoutineCanBeOverwritten_def Let_def deleteRoutine_def startRoutine_def teardownRoutine_def
        releaseRoutine_def idle_routine_def split: option.splits)
qed

section \<open>A concrete run\<close>

definition ex_env :: routine_env where
  "ex_env = \<lparr>en_dir = ''/r'', en_currentDir = ''/w'', en_exists = (\<lambda>_. True), en_materialize = (\<lambda>_. None), en_unlink = (\<lambda>_. None)\<rparr>"

definition ex_routine :: routine_row where
  "ex_routine = \<lparr>ro_id = ''i'', ro_owner = None, ro_name = ''r'', ro_script = ''x'', ro_revision = 1, ro_cwd = None, ro_created = ''t'', ro_updated = ''t''\<rparr>"

definition ex_rdb :: routine_db where "ex_rdb = \<lparr>rt_sessions = [], rt_routines = [ex_routine], rt_runs = [], rt_logs = []\<rparr>"
definition ex_started :: routines where "ex_started = snd (startRoutine ex_env ''t'' 0 ''run'' ''r'' None None None (routine_start ex_rdb))"

lemma ex_rdb_ok: "routine_db_ok ex_rdb"
  by (simp add: routine_db_ok_def ex_rdb_def)

lemma ex_started_reachable: "(routine_step ex_env)\<^sup>*\<^sup>* (routine_start ex_rdb) ex_started"
  unfolding ex_started_def by (rule r_into_rtranclp, rule routine_step.start) (simp add: fresh_launch_def routine_start_def)




theorem busy_routine_untouched_witness:
  "\<exists>err. deleteRoutine ex_env ''r'' ex_started = (Inl err, ex_started)"
proof -
  have "routine_db_ok (rm_db ex_started)" using routine_reachable_inv [OF ex_started_reachable ex_rdb_ok] by (simp add: rm_inv_def)
  moreover have "rt_routines (rm_db ex_started) = [ex_routine]" "activeRuntime ex_started ex_routine = Some 0" by code_simp+
  ultimately show ?thesis
    using busy_routine_untouched [of ex_started ex_routine ex_env "[]" "[]" "''r''" "[]" None None None 0 "[]"] by (auto simp: ex_routine_def)
qed

end
