(* ===== verification/Process_Identity.thy ===== *)
theory Process_Identity
  imports Js_Json "HOL-Library.Char_ord"
begin

text \<open>
  Process identities, \<^verbatim>\<open>server/persistence/processIdentity.mjs\<close>: the fields of \<^verbatim>\<open>/proc\<close> that tell a live process
  from another one that got its pid later.  What is read from \<^verbatim>\<open>/proc\<close> is a snapshot, \<^term>\<open>None\<close> where reading
  fails; the SHA-256 digest is a parameter.  Persisted records are typed as their table has them.
\<close>

section \<open>Numbers in texts\<close>

definition max_safe_integer :: nat where "max_safe_integer = 9007199254740991"

definition positive_digits :: "string \<Rightarrow> bool" where
  "positive_digits s \<longleftrightarrow> s \<noteq> [] \<and> list_all is_digit s \<and> hd s \<noteq> CHR ''0''"

definition positiveSafeInteger :: "string \<Rightarrow> nat option" where
  "positiveSafeInteger s =
     (if \<not> positive_digits s then None
      else (let n = digits_value 0 s in if n \<le> max_safe_integer then Some n else None))"

definition safe_positive :: "nat \<Rightarrow> nat option" where
  "safe_positive n = (if 0 < n \<and> n \<le> max_safe_integer then Some n else None)"

definition processPid :: "nat \<Rightarrow> nat option" where
  "processPid n = (case safe_positive n of Some p \<Rightarrow> if 2 \<le> p then Some p else None | None \<Rightarrow> None)"

definition positiveDecimal :: "string option \<Rightarrow> string option" where
  "positiveDecimal v = (case v of Some s \<Rightarrow> if positive_digits s then Some s else None | None \<Rightarrow> None)"

section \<open>The line of \<^verbatim>\<open>/proc/<pid>/stat\<close>\<close>

definition proc_stat_start_time_field :: nat where "proc_stat_start_time_field = 19"
definition min_proc_stat_field_count :: nat where "min_proc_stat_field_count = 20"

text \<open>\<^verbatim>\<open>lastIndexOf(")")\<close> as what stands before and after it; \<^verbatim>\<open>split(/\s+/)\<close>.\<close>

definition after_last :: "char \<Rightarrow> string \<Rightarrow> string option" where
  "after_last c s = (if c \<in> set s then Some (rev (takeWhile (\<lambda>x. x \<noteq> c) (rev s))) else None)"

function split_space :: "string \<Rightarrow> string list" where
  "split_space s =
     (let w = takeWhile (\<lambda>c. \<not> js_space c) s; rest = dropWhile (\<lambda>c. \<not> js_space c) s
      in if rest = [] then [w] else w # split_space (dropWhile js_space rest))"
  by pat_completeness auto
termination
proof (relation "measure length")
  fix s rest and w :: string
  assume "rest = dropWhile (\<lambda>c. \<not> js_space c) s" "rest \<noteq> []"
  then obtain c cs where c: "rest = c # cs" "js_space c" "length rest \<le> length s"
    by (metis dropWhile_eq_Cons_conv length_dropWhile_le neq_Nil_conv)
  have "length (dropWhile js_space rest) < length rest" using c(1,2) length_dropWhile_le [of js_space cs] by simp
  then show "(dropWhile js_space rest, s) \<in> measure length" using c(3) by simp
qed simp

declare split_space.simps [simp del]

definition letter :: "char \<Rightarrow> bool" where
  "letter c \<longleftrightarrow> (CHR ''A'' \<le> c \<and> c \<le> CHR ''Z'') \<or> (CHR ''a'' \<le> c \<and> c \<le> CHR ''z'')"

definition parseProcStat :: "string option \<Rightarrow> nat \<Rightarrow> nat option \<times> string option" where
  "parseProcStat stat pid =
     (case stat of
        None \<Rightarrow> (None, None)
      | Some s \<Rightarrow>
          (case after_last CHR '')'' s of
             None \<Rightarrow> (None, None)
           | Some suffix \<Rightarrow>
               if take 1 suffix \<noteq> '' '' \<or> positiveSafeInteger (takeWhile (\<lambda>c. c \<noteq> CHR '' '') s) \<noteq> Some pid then (None, None)
               else (let flds = split_space (js_trim (drop 1 suffix)) in
                     if length flds < min_proc_stat_field_count \<or> \<not> (length (flds ! 0) = 1 \<and> list_all letter (flds ! 0)) then (None, None)
                     else (positiveSafeInteger (flds ! 2), positiveDecimal (Some (flds ! proc_stat_start_time_field))))))"

section \<open>Reading and comparing\<close>

record proc_fs =
  fs_stat :: "string option"
  fs_exe :: "string option"
  fs_cmdline :: "string option"
  fs_boot :: "string option"

record process_identity =
  pi_pid :: nat
  pi_group :: "nat option"
  pi_boot :: "string option"
  pi_ticks :: "string option"
  pi_exe :: "string option"
  pi_command :: "string option"

definition nonempty :: "string option \<Rightarrow> string option" where
  "nonempty v = (case v of Some [] \<Rightarrow> None | _ \<Rightarrow> v)"

text \<open>\<^term>\<open>None\<close> where the pid is invalid.\<close>

definition readProcessIdentity :: "(string \<Rightarrow> string) \<Rightarrow> proc_fs \<Rightarrow> nat \<Rightarrow> process_identity option" where
  "readProcessIdentity sha256 fs pid =
     (if pid < 2 \<or> pid > max_safe_integer then None
      else (let (group, ticks) = parseProcStat (fs_stat fs) pid in
            Some \<lparr>pi_pid = pid, pi_group = group, pi_boot = nonempty (map_option js_trim (fs_boot fs)), pi_ticks = ticks,
                  pi_exe = nonempty (fs_exe fs), pi_command = map_option sha256 (fs_cmdline fs)\<rparr>))"

text \<open>The columns of a persisted process that identify it.\<close>

definition optionalStringMatches :: "string option \<Rightarrow> string option \<Rightarrow> bool" where
  "optionalStringMatches persisted observed \<longleftrightarrow> persisted = None \<or> (observed \<noteq> None \<and> persisted = observed)"

definition processIdentityMatches :: "process_identity \<Rightarrow> process_identity \<Rightarrow> bool" where
  "processIdentityMatches r i \<longleftrightarrow>
     processPid (pi_pid r) \<noteq> None \<and> processPid (pi_pid r) = processPid (pi_pid i)
     \<and> nonempty (pi_boot r) \<noteq> None \<and> pi_boot r = pi_boot i
     \<and> positiveDecimal (pi_ticks r) \<noteq> None \<and> positiveDecimal (pi_ticks r) = positiveDecimal (pi_ticks i)
     \<and> (case pi_group r of None \<Rightarrow> True
        | Some g \<Rightarrow> safe_positive g \<noteq> None \<and> safe_positive g = Option.bind (pi_group i) safe_positive)
     \<and> optionalStringMatches (pi_exe r) (pi_exe i) \<and> optionalStringMatches (pi_command r) (pi_command i)"

definition verifyPersistedProcessIdentity :: "(string \<Rightarrow> string) \<Rightarrow> proc_fs \<Rightarrow> process_identity \<Rightarrow> bool" where
  "verifyPersistedProcessIdentity sha256 fs r =
     (case processPid (pi_pid r) of
        None \<Rightarrow> False
      | Some pid \<Rightarrow> (case readProcessIdentity sha256 fs pid of None \<Rightarrow> False | Some i \<Rightarrow> processIdentityMatches r i))"

section \<open>A stat line with any command name\<close>

definition stat_line :: "nat \<Rightarrow> string \<Rightarrow> string list \<Rightarrow> string" where
  "stat_line pid comm flds = nat_text pid @ '' ('' @ comm @ '') '' @ js_join '' '' flds"

definition field_ok :: "string \<Rightarrow> bool" where
  "field_ok w \<longleftrightarrow> w \<noteq> [] \<and> (\<forall>c \<in> set w. \<not> js_space c \<and> c \<noteq> CHR '')'')"

lemma positive_nat_text: "0 < n \<Longrightarrow> positive_digits (nat_text n)"
proof -
  assume n: "0 < n"
  have "hd (nat_text n) \<noteq> CHR ''0''"
  proof
    assume z: "hd (nat_text n) = CHR ''0''"
    then have "length (nat_text n) = 1" by (rule nat_text_no_leading_zero)
    then have "nat_text n = ''0''" using z by (cases "nat_text n") auto
    then have "digits_value 0 (nat_text n) = 0" by simp
    then show False using n by (simp add: digits_value_nat_text)
  qed
  then show ?thesis using nat_text_digits [of _ n] by (auto simp: positive_digits_def list_all_iff)
qed

lemma safe_nat_text: "0 < n \<Longrightarrow> n \<le> max_safe_integer \<Longrightarrow> positiveSafeInteger (nat_text n) = Some n"
  by (simp add: positiveSafeInteger_def positive_nat_text digits_value_nat_text)

lemma field_chars: "\<forall>w \<in> set ws. field_ok w \<Longrightarrow> CHR '')'' \<notin> set (js_join '' '' ws)"
proof (induction ws)
  case (Cons w ws)
  have "CHR '')'' \<notin> set w" using Cons.prems by (auto simp: field_ok_def)
  then show ?case using Cons by (cases "ws = []") (simp_all add: js_join_Cons)
qed simp

lemma js_space_blank [simp]: "js_space CHR '' ''"
  by (simp add: js_space_def)

lemma split_space_join: "ws \<noteq> [] \<Longrightarrow> \<forall>w \<in> set ws. field_ok w \<Longrightarrow> split_space (js_join '' '' ws) = ws"
proof (induction ws)
  case (Cons w ws)
  have w: "takeWhile (\<lambda>c. \<not> js_space c) w = w" "dropWhile (\<lambda>c. \<not> js_space c) w = []"
    using Cons.prems(2) by (auto simp: field_ok_def takeWhile_eq_all_conv dropWhile_eq_Nil_conv)
  show ?case
  proof (cases "ws = []")
    case True
    then show ?thesis using w by (simp add: split_space.simps)
  next
    case False
    have join: "js_join '' '' (w # ws) = w @ '' '' @ js_join '' '' ws" using False by (rule js_join_Cons)
    obtain v vs where ws: "ws = v # vs" using False by (cases ws) auto
    have "v \<noteq> []" "\<not> js_space (hd v)" using Cons.prems(2) by (auto simp: ws field_ok_def)
    then have "dropWhile js_space (js_join '' '' ws) = js_join '' '' ws"
      by (cases vs; cases v) (auto simp: ws)
    moreover have "takeWhile (\<lambda>c. \<not> js_space c) (w @ '' '' @ js_join '' '' ws) = w"
      "dropWhile (\<lambda>c. \<not> js_space c) (w @ '' '' @ js_join '' '' ws) = '' '' @ js_join '' '' ws"
      using Cons.prems(2) by (auto simp: field_ok_def takeWhile_append2 dropWhile_append2)
    ultimately show ?thesis using Cons.IH Cons.prems(2) False unfolding join by (subst split_space.simps) simp
  qed
qed simp

lemma js_trim_join: "ws \<noteq> [] \<Longrightarrow> \<forall>w \<in> set ws. field_ok w \<Longrightarrow> js_trim (js_join '' '' ws) = js_join '' '' ws"
proof -
  assume ws: "ws \<noteq> []" "\<forall>w \<in> set ws. field_ok w"
  have hd: "js_join '' '' ws \<noteq> [] \<and> \<not> js_space (hd (js_join '' '' ws))" using ws
    by (cases ws; cases "tl ws = []") (auto simp: field_ok_def js_join_Cons)
  have last: "js_join '' '' ws \<noteq> [] \<and> \<not> js_space (last (js_join '' '' ws))" using ws
  proof (induction ws)
    case (Cons w ws)
    then show ?case by (cases "ws = []") (auto simp: field_ok_def js_join_Cons)
  qed simp
  then have "dropWhile js_space (rev (js_join '' '' ws)) = rev (js_join '' '' ws)" by (simp add: dropWhile_id_iff hd_rev)
  moreover have "dropWhile js_space (js_join '' '' ws) = js_join '' '' ws" using hd by (simp only: dropWhile_id_iff) simp
  ultimately show ?thesis by (simp add: js_trim_def js_trim_start_def)
qed

lemma after_last_suffix: "CHR '')'' \<notin> set t \<Longrightarrow> after_last CHR '')'' (s @ [CHR '')''] @ t) = Some t"
proof -
  assume "CHR '')'' \<notin> set t"
  then have "takeWhile (\<lambda>x. x \<noteq> CHR '')'') (rev t @ CHR '')'' # rev s) = rev t" by (subst takeWhile_append2) auto
  then show ?thesis by (simp add: after_last_def)
qed

lemma parse_stat_line:
  assumes "0 < pid" and "pid \<le> max_safe_integer" and "20 \<le> length flds" and "\<forall>w \<in> set flds. field_ok w"
    and "\<exists>c. flds ! 0 = [c] \<and> letter c"
  shows "parseProcStat (Some (stat_line pid comm flds)) pid = (positiveSafeInteger (flds ! 2), positiveDecimal (Some (flds ! 19)))"
proof -
  have ne: "flds \<noteq> []" using assms(3) by auto
  let ?t = "'' '' @ js_join '' '' flds"
  have eq: "stat_line pid comm flds = (nat_text pid @ '' ('' @ comm) @ [CHR '')''] @ ?t" by (simp add: stat_line_def)
  have "CHR '')'' \<notin> set ?t" using field_chars [OF assms(4)] by simp
  then have suffix: "after_last CHR '')'' (stat_line pid comm flds) = Some ?t" unfolding eq by (rule after_last_suffix)
  have "\<forall>c \<in> set (nat_text pid). c \<noteq> CHR '' ''" using nat_text_digits [of "CHR '' ''" pid] by (auto simp: is_digit_def)
  then have "takeWhile (\<lambda>c. c \<noteq> CHR '' '') (stat_line pid comm flds) = nat_text pid"
    by (simp add: stat_line_def takeWhile_append2)
  then have pid: "positiveSafeInteger (takeWhile (\<lambda>c. c \<noteq> CHR '' '') (stat_line pid comm flds)) = Some pid"
    using safe_nat_text [OF assms(1,2)] by simp
  have split: "split_space (js_trim (drop 1 ?t)) = flds" using js_trim_join [OF ne assms(4)] split_space_join [OF ne assms(4)] by simp
  have one: "length (flds ! 0) = 1 \<and> list_all letter (flds ! 0)" using assms(5) by auto
  have "\<not> (length flds < min_proc_stat_field_count \<or> \<not> (length (flds ! 0) = 1 \<and> list_all letter (flds ! 0)))"
    using assms(3) one by (simp add: min_proc_stat_field_count_def)
  moreover have "\<not> (take 1 ?t \<noteq> '' '' \<or> positiveSafeInteger (takeWhile (\<lambda>c. c \<noteq> CHR '' '') (stat_line pid comm flds)) \<noteq> Some pid)"
    using pid by simp
  ultimately show ?thesis
    unfolding parseProcStat_def option.case suffix Let_def split proc_stat_start_time_field_def by (simp only: if_False)
qed

text \<open>What a running kernel shows of a process: \<open>flds\<close> are the fields from the state on.\<close>

definition shows_process :: "proc_fs \<Rightarrow> nat \<Rightarrow> string \<Rightarrow> string list \<Rightarrow> string \<Rightarrow> bool" where
  "shows_process fs pid comm flds boot \<longleftrightarrow> fs_stat fs = Some (stat_line pid comm flds) \<and> 20 \<le> length flds \<and> (\<forall>w \<in> set flds. field_ok w)
     \<and> (\<exists>c. flds ! 0 = [c] \<and> letter c) \<and> positive_digits (flds ! 19) \<and> fs_boot fs \<noteq> None \<and> js_trim (the (fs_boot fs)) = boot \<and> boot \<noteq> []"

lemma read_shown:
  assumes "2 \<le> pid" and "pid \<le> max_safe_integer" and "shows_process fs pid comm flds boot"
  shows "readProcessIdentity sha256 fs pid = Some \<lparr>pi_pid = pid, pi_group = positiveSafeInteger (flds ! 2), pi_boot = Some boot,
     pi_ticks = Some (flds ! 19), pi_exe = nonempty (fs_exe fs), pi_command = map_option sha256 (fs_cmdline fs)\<rparr>"
proof -
  obtain b where b: "fs_boot fs = Some b" "js_trim b = boot" "boot \<noteq> []" using assms(3) by (auto simp: shows_process_def)
  have "nonempty (Some boot) = Some boot" using b(3) by (simp add: nonempty_def split: list.splits)
  then show ?thesis using assms parse_stat_line [of pid flds comm] b
    by (simp add: readProcessIdentity_def shows_process_def positiveDecimal_def)
qed

lemma digits_value_grows: "k \<le> digits_value k t"
proof (induction t arbitrary: k)
  case (Cons c t)
  have "k \<le> 10 * k + (of_char c - 48)" by linarith
  also have "\<dots> \<le> digits_value (10 * k + (of_char c - 48)) t" by (rule Cons)
  finally show ?case by simp
qed simp

lemma safe_group: "positiveSafeInteger s = Some g \<Longrightarrow> safe_positive g = Some g"
proof -
  assume s: "positiveSafeInteger s = Some g"
  then have d: "positive_digits s" "g = digits_value 0 s" "g \<le> max_safe_integer" by (auto simp: positiveSafeInteger_def Let_def split: if_splits)
  obtain c t where c: "s = c # t" "is_digit c" "c \<noteq> CHR ''0''" using d(1) by (cases s) (auto simp: positive_digits_def)
  have "(of_char c :: nat) \<noteq> 48"
  proof
    assume "(of_char c :: nat) = 48"
    then have "char_of (of_char c :: nat) = (char_of (48::nat) :: char)" by simp
    moreover have "char_of (48::nat) = CHR ''0''" by code_simp
    ultimately show False using c(3) by simp
  qed
  then have "0 < (of_char c :: nat) - 48" using c(2) by (simp add: is_digit_def)
  also have "\<dots> \<le> g" using digits_value_grows [of "of_char c - 48" t] d(2) c(1) by simp
  finally show ?thesis using d(3) by (simp add: safe_positive_def)
qed

text \<open>
  C22: A reused pid is told apart.  For the identity recorded while a process ran, whatever its command is called
  (spaces and parentheses included), a later check of a live process with that pid succeeds exactly when the
  machine has not been restarted, the start time is the same, and what was recorded of the process group, the
  executable and the command line agrees.
\<close>

theorem pid_reuse_detected:
  assumes "2 \<le> pid" and "pid \<le> max_safe_integer"
    and "shows_process fs pid comm flds boot" and "shows_process fs' pid comm' flds' boot'"
    and "readProcessIdentity sha256 fs pid = Some r"
  shows "verifyPersistedProcessIdentity sha256 fs' r \<longleftrightarrow> boot = boot' \<and> flds ! 19 = flds' ! 19
    \<and> (positiveSafeInteger (flds ! 2) \<in> {None, positiveSafeInteger (flds' ! 2)})
    \<and> (nonempty (fs_exe fs) \<in> {None, nonempty (fs_exe fs')})
    \<and> (fs_cmdline fs = None \<or> map_option sha256 (fs_cmdline fs) = map_option sha256 (fs_cmdline fs'))"
proof -
  have r: "r = \<lparr>pi_pid = pid, pi_group = positiveSafeInteger (flds ! 2), pi_boot = Some boot,
     pi_ticks = Some (flds ! 19), pi_exe = nonempty (fs_exe fs), pi_command = map_option sha256 (fs_cmdline fs)\<rparr>"
    using read_shown [OF assms(1-3)] assms(5) by simp
  have pid: "processPid pid = Some pid" using assms(1,2) by (simp add: processPid_def safe_positive_def)
  have ticks: "positiveDecimal (Some (flds ! 19)) = Some (flds ! 19)" "positiveDecimal (Some (flds' ! 19)) = Some (flds' ! 19)"
    using assms(3,4) by (simp_all add: shows_process_def positiveDecimal_def)
  have boot: "nonempty (Some boot) \<noteq> None" using assms(3) by (auto simp: shows_process_def nonempty_def split: list.splits)
  have group: "(case positiveSafeInteger a of None \<Rightarrow> True
        | Some g \<Rightarrow> safe_positive g \<noteq> None \<and> safe_positive g = Option.bind (positiveSafeInteger b) safe_positive)
      \<longleftrightarrow> positiveSafeInteger a \<in> {None, positiveSafeInteger b}" for a b
    using safe_group [of a] safe_group [of b] by (cases "positiveSafeInteger a"; cases "positiveSafeInteger b") auto
  have opt: "optionalStringMatches a b \<longleftrightarrow> a \<in> {None, b}" for a b by (auto simp: optionalStringMatches_def)
  have "verifyPersistedProcessIdentity sha256 fs' r \<longleftrightarrow> processIdentityMatches r \<lparr>pi_pid = pid, pi_group = positiveSafeInteger (flds' ! 2),
     pi_boot = Some boot', pi_ticks = Some (flds' ! 19), pi_exe = nonempty (fs_exe fs'), pi_command = map_option sha256 (fs_cmdline fs')\<rparr>"
    using read_shown [OF assms(1,2,4)] by (simp add: verifyPersistedProcessIdentity_def r pid)
  also have "\<dots> \<longleftrightarrow> boot = boot' \<and> flds ! 19 = flds' ! 19
    \<and> (positiveSafeInteger (flds ! 2) \<in> {None, positiveSafeInteger (flds' ! 2)}) \<and> (nonempty (fs_exe fs) \<in> {None, nonempty (fs_exe fs')})
    \<and> (fs_cmdline fs = None \<or> map_option sha256 (fs_cmdline fs) = map_option sha256 (fs_cmdline fs'))"
    unfolding processIdentityMatches_def r process_identity.select_convs pid ticks group opt using boot by auto
  finally show ?thesis .
qed

definition ex_fs :: "string \<Rightarrow> string \<Rightarrow> proc_fs" where
  "ex_fs comm ticks = \<lparr>fs_stat = Some (stat_line 42 comm (''S'' # replicate 18 ''7'' @ [ticks])), fs_exe = Some ''/bin/x'', fs_cmdline = None, fs_boot = Some ''b''\<rparr>"

lemma ex_fs_shows: "shows_process (ex_fs comm ''5'') 42 comm (''S'' # replicate 18 ''7'' @ [''5'']) ''b''"
  "shows_process (ex_fs comm ''6'') 42 comm (''S'' # replicate 18 ''7'' @ [''6'']) ''b''"
proof -
  have f: "field_ok ''S''" "field_ok ''7''" "field_ok ''5''" "field_ok ''6''" "letter CHR ''S''" "positive_digits ''5''" "positive_digits ''6''"
    "js_trim ''b'' = ''b''" by code_simp+
  then show "shows_process (ex_fs comm ''5'') 42 comm (''S'' # replicate 18 ''7'' @ [''5'']) ''b''"
    "shows_process (ex_fs comm ''6'') 42 comm (''S'' # replicate 18 ''7'' @ [''6'']) ''b''"
    by (auto simp: shows_process_def ex_fs_def nth_append)
qed

theorem pid_reuse_detected_witness:
  "\<exists>r. readProcessIdentity id (ex_fs ''a) S 1'' ''5'') 42 = Some r \<and> \<not> verifyPersistedProcessIdentity id (ex_fs ''b'' ''6'') r"
proof -
  have pid: "2 \<le> (42::nat)" "(42::nat) \<le> max_safe_integer" by (simp_all add: max_safe_integer_def)
  obtain r where r: "readProcessIdentity id (ex_fs ''a) S 1'' ''5'') 42 = Some r" using read_shown [OF pid ex_fs_shows(1)] by blast
  have "(''S'' # replicate 18 ''7'' @ [''5'']) ! 19 \<noteq> (''S'' # replicate 18 ''7'' @ [''6'']) ! 19" by (simp add: nth_append)
  then show ?thesis using pid_reuse_detected [OF pid ex_fs_shows(1) ex_fs_shows(2) r] r by blast
qed

end
