(* ===== verification/Hublot_Store.thy ===== *)
theory Hublot_Store
  imports Session_Store Process_Identity
begin

text \<open>
  The hublots repository of \<^verbatim>\<open>server/persistence/appStore.mjs\<close> with its tables: hublots, their processes and
  their lifecycle events, and the unique index that reserves a port for one hublot that is not closed.
  \<^term>\<open>None\<close> is a statement a constraint rejects.  The columns of a managed service (brief, start script, restart
  counters) are those of a self-served hublot throughout and are left out.
\<close>

section \<open>Tables\<close>

record hublot =
  hb_id :: string
  hb_owner :: "nat option"
  hb_port :: nat
  hb_label :: "string option"
  hb_workdir :: string
  hb_url :: "string option"
  hb_status :: string
  hb_desired :: string
  hb_created :: string
  hb_opened :: "string option"
  hb_closed :: "string option"
  hb_error :: "string option"

record hublot_process =
  hp_id :: string
  hp_hublot :: string
  hp_role :: string
  hp_identity :: process_identity
  hp_status :: string
  hp_started :: string
  hp_observed :: "string option"
  hp_ended :: "string option"
  hp_exit :: "int option"
  hp_signal :: "string option"

record lifecycle_event =
  lf_hublot :: string
  lf_sequence :: nat
  lf_status :: string
  lf_desired :: string
  lf_url :: "string option"
  lf_error :: "string option"
  lf_created :: string

record hublot_db =
  hd_sessions :: "app_session list"
  hd_hublots :: "hublot list"
  hd_processes :: "hublot_process list"
  hd_events :: "lifecycle_event list"

section \<open>Hublots\<close>

definition hublot_session :: "hublot_db \<Rightarrow> hublot \<Rightarrow> string option" where
  "hublot_session db h = Option.bind (hb_owner h) (\<lambda>i. map_option as_session (List.find (\<lambda>s. as_id s = i) (hd_sessions db)))"

text \<open>The filters of a call as a predicate.\<close>

definition list_hublots :: "(hublot \<Rightarrow> bool) \<Rightarrow> hublot_db \<Rightarrow> hublot list" where
  "list_hublots P db = sort_key (\<lambda>h. (hb_created h, hb_id h)) (filter P (hd_hublots db))"

definition find_hublot :: "string \<Rightarrow> hublot_db \<Rightarrow> hublot option" where
  "find_hublot i db = List.find (\<lambda>h. hb_id h = i) (hd_hublots db)"

definition active_ports :: "hublot list \<Rightarrow> nat list" where
  "active_ports hs = map hb_port (filter (\<lambda>h. hb_status h \<noteq> ''closed'') hs)"

definition create_hublot :: "hublot \<Rightarrow> hublot_db \<Rightarrow> hublot_db option" where
  "create_hublot h db =
     (if hb_id h \<in> hb_id ` set (hd_hublots db) \<or> hb_port h < 1 \<or> hb_port h > 65535 \<or> hb_desired h \<notin> {''open'', ''closed''} then None
      else (let hs = hd_hublots db @ [h] in if distinct (active_ports hs) then Some (db\<lparr>hd_hublots := hs\<rparr>) else None))"

definition update_hublot :: "string \<Rightarrow> (hublot \<Rightarrow> hublot) \<Rightarrow> hublot_db \<Rightarrow> hublot_db option" where
  "update_hublot i f db =
     (let hs = map (\<lambda>h. if hb_id h = i then f h else h) (hd_hublots db) in
      if distinct (active_ports hs) then Some (db\<lparr>hd_hublots := hs\<rparr>) else None)"

section \<open>Lifecycle events\<close>

definition events_of_hublot :: "string \<Rightarrow> hublot_db \<Rightarrow> lifecycle_event list" where
  "events_of_hublot i db = filter (\<lambda>v. lf_hublot v = i) (hd_events db)"

definition appendLifecycleEvent :: "string \<Rightarrow> string \<Rightarrow> string \<Rightarrow> string option \<Rightarrow> string option \<Rightarrow> string \<Rightarrow> hublot_db \<Rightarrow> hublot_db option" where
  "appendLifecycleEvent i status desired url err createdAt db =
     (if i \<notin> hb_id ` set (hd_hublots db) \<or> desired \<notin> {''open'', ''closed''} then None
      else Some (db\<lparr>hd_events := hd_events db @
             [\<lparr>lf_hublot = i, lf_sequence = foldl max 0 (map lf_sequence (events_of_hublot i db)) + 1, lf_status = status, lf_desired = desired,
               lf_url = url, lf_error = err, lf_created = createdAt\<rparr>]\<rparr>))"

definition listLifecycleEvents :: "string \<Rightarrow> hublot_db \<Rightarrow> lifecycle_event list" where
  "listLifecycleEvents i db = sort_key lf_sequence (events_of_hublot i db)"

section \<open>Processes\<close>

definition find_process :: "string \<Rightarrow> hublot_db \<Rightarrow> hublot_process option" where
  "find_process i db = List.find (\<lambda>p. hp_id p = i) (hd_processes db)"

definition upsert_process :: "hublot_process \<Rightarrow> hublot_db \<Rightarrow> hublot_db option" where
  "upsert_process p db =
     (if hp_hublot p \<notin> hb_id ` set (hd_hublots db) \<or> hp_role p \<notin> {''service'', ''tunnel'', ''setup_agent''} \<or> pi_pid (hp_identity p) = 0 then None
      else Some (db\<lparr>hd_processes :=
             (if hp_id p \<in> hp_id ` set (hd_processes db) then map (\<lambda>q. if hp_id q = hp_id p then p else q) (hd_processes db)
              else hd_processes db @ [p])\<rparr>))"

definition update_process :: "string \<Rightarrow> (hublot_process \<Rightarrow> hublot_process) \<Rightarrow> hublot_db \<Rightarrow> hublot_db" where
  "update_process i f db = db\<lparr>hd_processes := map (\<lambda>p. if hp_id p = i then f p else p) (hd_processes db)\<rparr>"

definition list_processes :: "string \<Rightarrow> hublot_db \<Rightarrow> hublot_process list" where
  "list_processes i db = sort_key (\<lambda>p. (hp_started p, hp_id p)) (filter (\<lambda>p. hp_hublot p = i) (hd_processes db))"

end
