(* ===== verification/Hublots.thy ===== *)
theory Hublots
  imports Hublot_Store
begin

text \<open>
  The hublot manager, \<^verbatim>\<open>server/tunnels.mjs\<close>, and its supervisor, \<^verbatim>\<open>server/persistence/hublotSupervisor.mjs\<close>.  A
  hublot is a row that reserves a local port and a tunnel process that publishes it.  A handler runs as one step;
  the points where others can intervene in between (the confirmation of the process after its URL appeared, the
  wait for public readiness, the launch of a reopened tunnel, the verdict of the supervisor) start a new step.
  Error messages are given
  without the numbers they embed.  Launching a process, its identity in \<^verbatim>\<open>/proc\<close> and public reachability are parameters or steps.
\<close>

section \<open>State\<close>

text \<open>
  A tunnel process with the closures of \<^verbatim>\<open>openTunnel\<close>: \<open>tn_process\<close> is the persisted row as \<^verbatim>\<open>upsertProcess\<close> returned it,
  \<open>tn_candidate\<close> a URL that waits for confirmation and \<open>tn_waiting\<close> that public readiness is awaited.
\<close>

record tunnel_info =
  ti_id :: string
  ti_port :: nat
  ti_label :: "string option"
  ti_sessionId :: "string option"
  ti_status :: string
  ti_url :: "string option"
  ti_workdir :: string
  ti_createdAt :: string

record tunnel =
  tn_hublot :: string
  tn_process :: hublot_process
  tn_settled :: bool
  tn_checking :: bool
  tn_timer :: bool
  tn_tail :: string
  tn_candidate :: "string option"
  tn_url :: "string option"
  tn_waiting :: bool
  tn_exited :: bool
  tn_exitCode :: "int option"
  tn_killed :: bool
  tn_reopening :: bool
  tn_result :: "(string + tunnel_info) option"

record hublots =
  hm_db :: hublot_db
  hm_dir :: string
  hm_handles :: "(string, nat) jsmap"
  hm_tunnels :: "(nat, tunnel) jsmap"
  hm_reopens :: "string list"
  hm_launching :: "string list"
  hm_supervising :: "(hublot \<times> bool \<times> string) option"
  hm_supervise_rest :: "hublot list"
  hm_signals :: "(nat \<times> string) list"
  hm_kills :: "(nat \<times> string) list"
  hm_events :: "(string \<times> string) list"

definition max_tcp_port :: nat where "max_tcp_port = 65535"
definition stderr_tail_max_chars :: nat where "stderr_tail_max_chars = 2000"

definition hublot_statuses :: "string list" where
  "hublot_statuses = [''opening'', ''open'', ''recovering'', ''closing'', ''closed'', ''failed'', ''interrupted'']"

definition live_process :: "hublot_process \<Rightarrow> bool" where
  "live_process p \<longleftrightarrow> hp_ended p = None \<and> hp_status p \<in> {''running'', ''starting''}"

section \<open>Transitions\<close>

text \<open>
  \<^verbatim>\<open>recordHublotTransition\<close> changes the row and appends the event in one transaction.  An argument that may be
  \<^verbatim>\<open>undefined\<close> is an option, around the nullable value where it may be \<^verbatim>\<open>null\<close> as well.
\<close>

record transition_changes =
  ch_desired :: "string option"
  ch_url :: "string option option"
  ch_error :: "string option option"
  ch_opened :: "string option option"
  ch_closed :: "string option option"

definition no_changes :: transition_changes where
  "no_changes = \<lparr>ch_desired = None, ch_url = None, ch_error = None, ch_opened = None, ch_closed = None\<rparr>"

definition given :: "'a option \<Rightarrow> 'a \<Rightarrow> 'a" where
  "given v old = (case v of None \<Rightarrow> old | Some x \<Rightarrow> x)"

definition recordHublotTransition :: "string \<Rightarrow> string \<Rightarrow> transition_changes \<Rightarrow> string \<Rightarrow> hublot_db \<Rightarrow> (string + hublot) \<times> hublot_db" where
  "recordHublotTransition i status ch at db =
     (if status \<notin> set hublot_statuses then (Inl (''invalid hublot status: '' @ status), db)
      else case find_hublot i db of
        None \<Rightarrow> (Inl (''no such hublot: '' @ i), db)
      | Some current \<Rightarrow>
          (let desired = given (ch_desired ch) (hb_desired current);
               f = (\<lambda>h. h\<lparr>hb_status := status, hb_desired := desired, hb_url := given (ch_url ch) (hb_url h), hb_error := given (ch_error ch) (hb_error h),
                          hb_opened := given (ch_opened ch) (hb_opened h), hb_closed := given (ch_closed ch) (hb_closed h)\<rparr>)
           in case Option.bind (update_hublot i f db)
                     (appendLifecycleEvent i status desired (given (ch_url ch) (hb_url current)) (given (ch_error ch) (hb_error current)) at) of
                None \<Rightarrow> (Inl ''constraint failed: hublots'', db)
              | Some db' \<Rightarrow> (case find_hublot i db' of None \<Rightarrow> (Inl ''no such hublot'', db') | Some h \<Rightarrow> (Inr h, db'))))"

definition transition :: "string \<Rightarrow> string \<Rightarrow> transition_changes \<Rightarrow> string \<Rightarrow> hublots \<Rightarrow> hublots" where
  "transition i status ch at s = s\<lparr>hm_db := snd (recordHublotTransition i status ch at (hm_db s))\<rparr>"

definition rebindHublot :: "string \<Rightarrow> nat option \<Rightarrow> hublots \<Rightarrow> (string + unit) \<times> hublots" where
  "rebindHublot i ownerId s =
     (if find_hublot i (hm_db s) = None then (Inl (''no such hublot: '' @ i), s)
      else case update_hublot i (\<lambda>h. h\<lparr>hb_owner := ownerId\<rparr>) (hm_db s) of
             None \<Rightarrow> (Inl ''constraint failed: hublots'', s)
           | Some db \<Rightarrow> (Inr (), s\<lparr>hm_db := db\<rparr>))"

section \<open>Views\<close>

definition currentHublotTunnelProcessIsHealthy :: "(hublot_process \<Rightarrow> bool) \<Rightarrow> hublot_db \<Rightarrow> string \<Rightarrow> bool" where
  "currentHublotTunnelProcessIsHealthy verify db i =
     (case rev (filter (\<lambda>p. hp_role p = ''tunnel'' \<and> live_process p) (list_processes i db)) of [] \<Rightarrow> False | p # _ \<Rightarrow> verify p)"

definition persistedTunnelInfo :: "(hublot_process \<Rightarrow> bool) \<Rightarrow> hublot_db \<Rightarrow> hublot \<Rightarrow> tunnel_info" where
  "persistedTunnelInfo verify db h =
     \<lparr>ti_id = hb_id h, ti_port = hb_port h, ti_label = hb_label h, ti_sessionId = hublot_session db h, ti_status = hb_status h,
      ti_url = (if hb_status h = ''open'' \<and> currentHublotTunnelProcessIsHealthy verify db (hb_id h) then hb_url h else None),
      ti_workdir = hb_workdir h, ti_createdAt = hb_created h\<rparr>"

definition nonblank :: "string option \<Rightarrow> bool" where
  "nonblank v \<longleftrightarrow> v \<noteq> None \<and> v \<noteq> Some []"

definition listTunnels :: "(hublot_process \<Rightarrow> bool) \<Rightarrow> string option \<Rightarrow> string option \<Rightarrow> hublot_db \<Rightarrow> tunnel_info list" where
  "listTunnels verify i sessionId db =
     filter (\<lambda>t. nonblank (ti_url t) \<or> ti_status t \<in> {''opening'', ''recovering''})
       (map (persistedTunnelInfo verify db)
          (list_hublots (\<lambda>h. hb_status h \<noteq> ''closed'' \<and> (nonblank i \<longrightarrow> Some (hb_id h) = i) \<and> (nonblank sessionId \<longrightarrow> hublot_session db h = sessionId)) db))"

definition emit_hublot :: "string \<Rightarrow> string \<Rightarrow> hublots \<Rightarrow> hublots" where
  "emit_hublot type i s = s\<lparr>hm_events := hm_events s @ [(type, i)]\<rparr>"

section \<open>Reservation\<close>

definition reserveHublot :: "string \<Rightarrow> string \<Rightarrow> nat \<Rightarrow> string option \<Rightarrow> nat option \<Rightarrow> hublots \<Rightarrow> (string + hublot) \<times> hublots" where
  "reserveHublot now i port label ownerId s =
     (if port < 1 \<or> port > max_tcp_port then (Inl ''invalid port'', s)
      else if list_hublots (\<lambda>h. hb_port h = port \<and> hb_status h \<noteq> ''closed'') (hm_db s) \<noteq> [] then (Inl ''port is already tunneled'', s)
      else (let h = \<lparr>hb_id = i, hb_owner = ownerId, hb_port = port, hb_label = label, hb_workdir = hm_dir s, hb_url = None, hb_status = ''opening'',
                     hb_desired = ''open'', hb_created = now, hb_opened = None, hb_closed = None, hb_error = None\<rparr>
            in case Option.bind (create_hublot h (hm_db s)) (appendLifecycleEvent i ''opening'' ''open'' None None now) of
                 None \<Rightarrow> (Inl ''constraint failed: hublots'', s)
               | Some db \<Rightarrow> (Inr h, s\<lparr>hm_db := db\<rparr>)))"

definition failOpeningHublot :: "string \<Rightarrow> string \<Rightarrow> string \<Rightarrow> hublots \<Rightarrow> hublots" where
  "failOpeningHublot now i message s =
     (case find_hublot i (hm_db s) of
        None \<Rightarrow> s
      | Some h \<Rightarrow>
          if hb_status h \<notin> {''opening'', ''recovering''} then s
          else transition i ''failed'' (no_changes\<lparr>ch_url := Some None, ch_error := Some (Some message)\<rparr>) now s)"

section \<open>A tunnel process\<close>

definition upd_tunnel :: "nat \<Rightarrow> (tunnel \<Rightarrow> tunnel) \<Rightarrow> hublots \<Rightarrow> hublots" where
  "upd_tunnel n f s = (case jsmap_get (hm_tunnels s) n of None \<Rightarrow> s | Some t \<Rightarrow> s\<lparr>hm_tunnels := jsmap_set n (f t) (hm_tunnels s)\<rparr>)"

definition kill_tunnel :: "nat \<Rightarrow> string \<Rightarrow> hublots \<Rightarrow> hublots" where
  "kill_tunnel n sig s = upd_tunnel n (\<lambda>t. t\<lparr>tn_killed := True\<rparr>) (s\<lparr>hm_signals := hm_signals s @ [(n, sig)]\<rparr>)"

definition kill_running :: "nat \<Rightarrow> hublots \<Rightarrow> hublots" where
  "kill_running n s =
     (case jsmap_get (hm_tunnels s) n of
        None \<Rightarrow> s | Some t \<Rightarrow> if tn_exitCode t = None \<and> \<not> tn_killed t then kill_tunnel n ''SIGTERM'' s else s)"

definition reject :: "nat \<Rightarrow> string \<Rightarrow> hublots \<Rightarrow> hublots" where
  "reject n err s = upd_tunnel n (\<lambda>t. if tn_result t = None then t\<lparr>tn_result := Some (Inl err)\<rparr> else t) s"

definition remove_handle :: "string \<Rightarrow> nat \<Rightarrow> hublots \<Rightarrow> hublots" where
  "remove_handle i n s = (if jsmap_get (hm_handles s) i = Some n then s\<lparr>hm_handles := jsmap_delete i (hm_handles s)\<rparr> else s)"

definition finishPersistedProcess :: "string \<Rightarrow> string \<Rightarrow> string \<Rightarrow> int option \<Rightarrow> string option \<Rightarrow> hublots \<Rightarrow> hublots" where
  "finishPersistedProcess now i status exitCode sig s =
     s\<lparr>hm_db := update_process i (\<lambda>p. p\<lparr>hp_status := status, hp_observed := Some now, hp_ended := Some now, hp_exit := exitCode, hp_signal := sig\<rparr>) (hm_db s)\<rparr>"

text \<open>\<open>pid\<close> is \<^term>\<open>None\<close> when the launch gave no process; \<open>identify\<close> is what \<^verbatim>\<open>readProcessIdentity\<close> returns.\<close>

definition persistHublotProcessIdentity ::
  "string \<Rightarrow> string \<Rightarrow> string \<Rightarrow> string \<Rightarrow> nat option \<Rightarrow> (nat \<Rightarrow> process_identity option) \<Rightarrow> hublot_db \<Rightarrow> (hublot_process \<times> hublot_db) option" where
  "persistHublotProcessIdentity now row hublotId role pid identify db =
     (case pid of
        None \<Rightarrow> None
      | Some p \<Rightarrow>
          if p < 2 then None
          else (case List.find (\<lambda>q. hp_role q = role \<and> pi_pid (hp_identity q) = p \<and> hp_status q = ''running'' \<and> hp_ended q = None) (list_processes hublotId db) of
                  Some q \<Rightarrow> Some (q, db)
                | None \<Rightarrow>
                    (case identify p of
                       None \<Rightarrow> None
                     | Some i \<Rightarrow>
                         (let q = \<lparr>hp_id = row, hp_hublot = hublotId, hp_role = role, hp_identity = i, hp_status = ''running'', hp_started = now,
                                   hp_observed = Some now, hp_ended = None, hp_exit = None, hp_signal = None\<rparr>
                          in map_option (Pair q) (upsert_process q db)))))"

definition openTunnel ::
  "string \<Rightarrow> nat \<Rightarrow> string \<Rightarrow> string \<Rightarrow> nat \<Rightarrow> string + nat option \<Rightarrow> (nat \<Rightarrow> process_identity option) \<Rightarrow> hublots \<Rightarrow> (string + unit) \<times> hublots" where
  "openTunnel now n row i port spawned identify s =
     (if port < 1 \<or> port > max_tcp_port then (Inl ''invalid port'', s)
      else case find_hublot i (hm_db s) of
        None \<Rightarrow> (Inl ''hublot must be durably reserved or recovering before opening its tunnel'', s)
      | Some h \<Rightarrow>
          if hb_status h \<notin> {''opening'', ''recovering''} \<or> hb_port h \<noteq> port
          then (Inl ''hublot must be durably reserved or recovering before opening its tunnel'', s)
          else (case spawned of
            Inl err \<Rightarrow> (Inl (''tunnel spawn failed: '' @ err), failOpeningHublot now i (''tunnel spawn failed: '' @ err) s)
          | Inr pid \<Rightarrow>
              (case persistHublotProcessIdentity now row i ''tunnel'' pid identify (hm_db s) of
                 None \<Rightarrow> (Inl ''could not persist tunnel process identity'',
                          failOpeningHublot now i ''could not persist tunnel process identity'' (s\<lparr>hm_signals := hm_signals s @ [(n, ''SIGTERM'')]\<rparr>))
               | Some (q, db) \<Rightarrow>
                   (Inr (), s\<lparr>hm_db := db, hm_handles := jsmap_set (hp_id q) n (hm_handles s),
                      hm_tunnels := jsmap_set n \<lparr>tn_hublot = i, tn_process = q, tn_settled = False, tn_checking = False, tn_timer = True, tn_tail = [],
                        tn_candidate = None, tn_url = None, tn_waiting = False, tn_exited = False, tn_exitCode = None, tn_killed = False, tn_reopening = False, tn_result = None\<rparr> (hm_tunnels s)\<rparr>))))"

text \<open>The URL timeout.\<close>

definition url_timeout :: "string \<Rightarrow> nat \<Rightarrow> hublots \<Rightarrow> hublots" where
  "url_timeout now n s =
     (case jsmap_get (hm_tunnels s) n of
        None \<Rightarrow> s
      | Some t \<Rightarrow>
          if \<not> tn_timer t then s
          else if tn_settled t then upd_tunnel n (\<lambda>t. t\<lparr>tn_timer := False\<rparr>) s
          else (let s1 = kill_tunnel n ''SIGTERM'' (upd_tunnel n (\<lambda>t. t\<lparr>tn_timer := False, tn_settled := True\<rparr>) s);
                    err = ''tunnel did not report a URL within 20s''
                in reject n err (failOpeningHublot now (tn_hublot t) err s1)))"

text \<open>\<^verbatim>\<open>/https:\/\/[a-z0-9-]+\.trycloudflare\.com/i\<close>: the first match.\<close>

definition url_host_char :: "char \<Rightarrow> bool" where
  "url_host_char c \<longleftrightarrow> is_digit c \<or> letter c \<or> c = CHR ''-''"

definition url_at :: "string \<Rightarrow> string option" where
  "url_at t =
     (let scheme = take 8 t; host = takeWhile url_host_char (drop 8 t); domain = take 18 (drop (8 + length host) t)
      in if js_lower scheme = ''https://'' \<and> host \<noteq> [] \<and> js_lower domain = ''.trycloudflare.com'' then Some (scheme @ host @ domain) else None)"

fun public_url :: "string \<Rightarrow> string option" where
  "public_url [] = None"
| "public_url (c # cs) = (case url_at (c # cs) of Some u \<Rightarrow> Some u | None \<Rightarrow> public_url cs)"

definition last_chars :: "nat \<Rightarrow> string \<Rightarrow> string" where
  "last_chars k t = drop (length t - k) t"

definition tunnel_output :: "nat \<Rightarrow> string \<Rightarrow> hublots \<Rightarrow> hublots" where
  "tunnel_output n chunk s =
     upd_tunnel n (\<lambda>t.
       (let tail = last_chars stderr_tail_max_chars (tn_tail t @ chunk) in
        case public_url tail of
          Some u \<Rightarrow> if \<not> tn_settled t \<and> \<not> tn_checking t
                    then t\<lparr>tn_tail := tail, tn_checking := True, tn_timer := False, tn_candidate := Some u\<rparr> else t\<lparr>tn_tail := tail\<rparr>
        | None \<Rightarrow> t\<lparr>tn_tail := tail\<rparr>)) s"

text \<open>\<^verbatim>\<open>confirmSpawnedTunnelProcess\<close>, with the identity \<^verbatim>\<open>/proc\<close> shows now and the verifier.\<close>

definition confirmSpawnedTunnelProcess ::
  "string \<Rightarrow> tunnel \<Rightarrow> process_identity option \<Rightarrow> (hublot_process \<Rightarrow> bool) \<Rightarrow> hublot_db \<Rightarrow> bool \<times> hublot_db" where
  "confirmSpawnedTunnelProcess now t observed verify db =
     (let p = tn_process t in
      if tn_exitCode t \<noteq> None \<or> tn_killed t then (False, db)
      else case observed of
        None \<Rightarrow> (False, db)
      | Some i \<Rightarrow>
          if nonempty (pi_boot (hp_identity p)) = None \<or> nonempty (pi_ticks (hp_identity p)) = None
             \<or> pi_boot (hp_identity p) \<noteq> pi_boot i \<or> pi_ticks (hp_identity p) \<noteq> pi_ticks i then (False, db)
          else (let db1 = update_process (hp_id p) (\<lambda>q. q\<lparr>hp_identity := i\<lparr>pi_pid := pi_pid (hp_identity q)\<rparr>, hp_observed := Some now\<rparr>) db
                in (case find_process (hp_id p) db1 of None \<Rightarrow> False | Some q \<Rightarrow> verify q, db1)))"

definition confirm_tunnel :: "string \<Rightarrow> nat \<Rightarrow> process_identity option \<Rightarrow> (hublot_process \<Rightarrow> bool) \<Rightarrow> hublots \<Rightarrow> hublots" where
  "confirm_tunnel now n observed verify s =
     (case jsmap_get (hm_tunnels s) n of
        None \<Rightarrow> s
      | Some t \<Rightarrow>
          (case tn_candidate t of
             None \<Rightarrow> s
           | Some u \<Rightarrow>
               (let (good, db) = confirmSpawnedTunnelProcess now t observed verify (hm_db s); s1 = s\<lparr>hm_db := db\<rparr> in
                if \<not> good
                then (let err = ''tunnel reported a URL before its persisted process identity could be confirmed healthy''
                      in reject n err (failOpeningHublot now (tn_hublot t) err
                           (kill_running n (upd_tunnel n (\<lambda>t. t\<lparr>tn_candidate := None, tn_settled := True\<rparr>) s1))))
                else upd_tunnel n (\<lambda>t. t\<lparr>tn_candidate := None, tn_url := Some u, tn_waiting := True\<rparr>) s1)))"

text \<open>The wait for public readiness ends: \<^term>\<open>None\<close> when the tunnel answered.\<close>

definition readiness :: "string \<Rightarrow> nat \<Rightarrow> string option \<Rightarrow> (hublot_process \<Rightarrow> bool) \<Rightarrow> hublots \<Rightarrow> hublots" where
  "readiness now n failure verify s =
     (case jsmap_get (hm_tunnels s) n of
        None \<Rightarrow> s
      | Some t \<Rightarrow>
          if \<not> tn_waiting t then s
          else (let s0 = upd_tunnel n (\<lambda>t. t\<lparr>tn_waiting := False\<rparr>) s; s1 = upd_tunnel n (\<lambda>t. t\<lparr>tn_settled := True\<rparr>) s0 in
                if tn_settled t then s0
                else case failure of
                  Some err \<Rightarrow> reject n err (failOpeningHublot now (tn_hublot t) err (kill_running n s1))
                | None \<Rightarrow>
                    (case recordHublotTransition (tn_hublot t) ''open''
                            \<lparr>ch_desired = Some ''open'', ch_url = Some (tn_url t), ch_error = Some None, ch_opened = Some (Some now), ch_closed = None\<rparr> now (hm_db s1) of
                       (Inl err, db) \<Rightarrow> s1\<lparr>hm_db := db\<rparr>
                     | (Inr h, db) \<Rightarrow> upd_tunnel n (\<lambda>t. t\<lparr>tn_result := Some (Inr (persistedTunnelInfo verify db h))\<rparr>)
                                       (emit_hublot ''tunnel_opened'' (tn_hublot t) (s1\<lparr>hm_db := db\<rparr>)))))"

definition tunnel_error :: "string \<Rightarrow> nat \<Rightarrow> string \<Rightarrow> hublots \<Rightarrow> hublots" where
  "tunnel_error now n err s =
     (case jsmap_get (hm_tunnels s) n of
        None \<Rightarrow> s
      | Some t \<Rightarrow>
          (let s1 = finishPersistedProcess now (hp_id (tn_process t)) ''failed'' None None (remove_handle (hp_id (tn_process t)) n s) in
           if tn_settled t then s1
           else reject n err (failOpeningHublot now (tn_hublot t) err (upd_tunnel n (\<lambda>t. t\<lparr>tn_settled := True, tn_timer := False\<rparr>) s1))))"

definition latest_tunnel :: "string \<Rightarrow> hublot_db \<Rightarrow> string option" where
  "latest_tunnel i db = (case rev (filter (\<lambda>p. hp_role p = ''tunnel'') (list_processes i db)) of [] \<Rightarrow> None | p # _ \<Rightarrow> Some (hp_id p))"

definition tunnel_exit :: "string \<Rightarrow> nat \<Rightarrow> int option \<Rightarrow> string option \<Rightarrow> hublots \<Rightarrow> hublots" where
  "tunnel_exit now n code sig s =
     (case jsmap_get (hm_tunnels s) n of
        None \<Rightarrow> s
      | Some t \<Rightarrow>
          if tn_exited t then s
          else (let s1 = finishPersistedProcess now (hp_id (tn_process t)) ''ended'' code sig
                           (remove_handle (hp_id (tn_process t)) n (upd_tunnel n (\<lambda>t. t\<lparr>tn_exited := True, tn_exitCode := code\<rparr>) s));
                    i = tn_hublot t in
                if \<not> tn_settled t
                then reject n ''tunnel exited before reporting a URL'' (failOpeningHublot now i ''tunnel exited before reporting a URL''
                       (upd_tunnel n (\<lambda>t. t\<lparr>tn_settled := True, tn_timer := False\<rparr>) s1))
                else case find_hublot i (hm_db s1) of
                  None \<Rightarrow> s1
                | Some h \<Rightarrow>
                    if i \<notin> set (hm_reopens s1) \<and> latest_tunnel i (hm_db s1) = Some (hp_id (tn_process t)) \<and> hb_status h \<notin> {''failed'', ''closed''}
                    then (let manually = (hb_desired h = ''closed'') in
                          emit_hublot ''tunnel_closed'' i
                            (transition i (if manually then ''closed'' else ''interrupted'')
                              \<lparr>ch_desired = Some (hb_desired h), ch_url = Some None, ch_error = Some (if manually then None else Some ''tunnel exited''),
                               ch_opened = None, ch_closed = Some (Some now)\<rparr> now s1))
                    else s1))"

section \<open>Closing and reopening\<close>

definition has_handle :: "hublots \<Rightarrow> hublot_process \<Rightarrow> nat option" where
  "has_handle s p =
     (case jsmap_get (hm_handles s) (hp_id p) of
        None \<Rightarrow> None
      | Some n \<Rightarrow> (case jsmap_get (hm_tunnels s) n of Some t \<Rightarrow> if tn_exitCode t \<noteq> None then None else Some n | None \<Rightarrow> None))"

definition closeTunnel :: "string \<Rightarrow> (hublot_process \<Rightarrow> bool) \<Rightarrow> string \<Rightarrow> hublots \<Rightarrow> tunnel_info option \<times> hublots" where
  "closeTunnel now verify i s =
     (case find_hublot i (hm_db s) of
        None \<Rightarrow> (None, s)
      | Some h \<Rightarrow>
          if hb_status h = ''closed'' then (None, s)
          else
            (let s1 = transition i ''closing'' (no_changes\<lparr>ch_desired := Some ''closed'', ch_url := Some None, ch_error := Some None\<rparr>) now s;
                 handles = List.map_filter (has_handle s1) (filter (\<lambda>p. hp_role p = ''tunnel'') (list_processes i (hm_db s1)));
                 s2 = fold (\<lambda>n. kill_tunnel n ''SIGTERM'') handles s1
             in (Some (persistedTunnelInfo verify (hm_db s) h),
                 if handles = []
                 then transition i ''closed'' (no_changes\<lparr>ch_desired := Some ''closed'', ch_url := Some None, ch_closed := Some (Some now)\<rparr>) now s2
                 else s2)))"

definition closeAllTunnels :: "string \<Rightarrow> (hublot_process \<Rightarrow> bool) \<Rightarrow> hublots \<Rightarrow> hublots" where
  "closeAllTunnels now verify s = fold (\<lambda>h s. snd (closeTunnel now verify (hb_id h) s)) (list_hublots (\<lambda>h. hb_status h \<noteq> ''closed'') (hm_db s)) s"

text \<open>The SIGKILL three seconds after the close.\<close>

definition kill_grace :: "nat \<Rightarrow> hublots \<Rightarrow> hublots" where
  "kill_grace n s = (case jsmap_get (hm_tunnels s) n of Some t \<Rightarrow> if tn_exitCode t \<noteq> None then s else kill_tunnel n ''SIGKILL'' s | None \<Rightarrow> s)"

definition retire :: "string \<Rightarrow> (hublot_process \<Rightarrow> bool) \<Rightarrow> hublot_process \<Rightarrow> hublots \<Rightarrow> hublots" where
  "retire now verify p s =
     (if hp_role p \<noteq> ''tunnel'' \<or> hp_ended p \<noteq> None then s
      else finishPersistedProcess now (hp_id p) ''ended'' None None
             (if verify p then s\<lparr>hm_kills := hm_kills s @ [(pi_pid (hp_identity p), ''SIGTERM'')]\<rparr> else s))"

text \<open>\<^verbatim>\<open>reopenHublot\<close> up to the announcement, its launch, and its end.\<close>

definition reopenHublot :: "string \<Rightarrow> (hublot_process \<Rightarrow> bool) \<Rightarrow> string \<Rightarrow> hublots \<Rightarrow> (string + unit) \<times> hublots" where
  "reopenHublot now verify i s =
     (if i \<in> set (hm_reopens s) then (Inl ''hublot is already reopening'', s)
      else case find_hublot i (hm_db s) of
        None \<Rightarrow> (Inl ''no such hublot'', s)
      | Some h \<Rightarrow>
          if hb_status h \<in> {''opening'', ''recovering'', ''closing''} \<or> (hb_status h = ''open'' \<and> currentHublotTunnelProcessIsHealthy verify (hm_db s) i)
          then (Inl ''hublot is already active'', s)
          else if filter (\<lambda>o'. hb_id o' \<noteq> i \<and> hb_status o' \<noteq> ''closed'') (list_hublots (\<lambda>o'. hb_port o' = hb_port h) (hm_db s)) \<noteq> []
          then (Inl ''hublot port is reserved by another hublot'', s)
          else
            (let s1 = fold (retire now verify) (list_processes i (hm_db s)) s in
             case recordHublotTransition i ''opening''
                    \<lparr>ch_desired = Some ''open'', ch_url = Some None, ch_error = Some None, ch_opened = None, ch_closed = Some None\<rparr> now (hm_db s1) of
               (Inl err, db) \<Rightarrow> (Inl err, s1\<lparr>hm_db := db\<rparr>)
             | (Inr h', db) \<Rightarrow> (Inr (), emit_hublot ''tunnel_opening'' i
                   (s1\<lparr>hm_db := db, hm_reopens := hm_reopens s1 @ [i], hm_launching := hm_launching s1 @ [i]\<rparr>))))"

definition reopen_failed :: "string \<Rightarrow> string \<Rightarrow> string \<Rightarrow> hublots \<Rightarrow> hublots" where
  "reopen_failed now i err s =
     (let s1 = emit_hublot ''hublot_failed'' i (failOpeningHublot now i err s) in s1\<lparr>hm_reopens := removeAll i (hm_reopens s1)\<rparr>)"

definition reopen_launch ::
  "string \<Rightarrow> nat \<Rightarrow> string \<Rightarrow> string \<Rightarrow> string + nat option \<Rightarrow> (nat \<Rightarrow> process_identity option) \<Rightarrow> hublots \<Rightarrow> hublots" where
  "reopen_launch now n row i spawned identify s =
     (let s0 = s\<lparr>hm_launching := remove1 i (hm_launching s)\<rparr> in
      case find_hublot i (hm_db s) of
        None \<Rightarrow> reopen_failed now i ''TypeError'' s0
      | Some h \<Rightarrow>
          if hb_status h \<noteq> ''opening'' \<or> hb_desired h \<noteq> ''open'' then reopen_failed now i ''hublot reopening was cancelled'' s0
          else (case openTunnel now n row i (hb_port h) spawned identify s0 of
                  (Inl err, s1) \<Rightarrow> reopen_failed now i err s1
                | (Inr _, s1) \<Rightarrow> upd_tunnel n (\<lambda>t. t\<lparr>tn_reopening := True\<rparr>) s1))"

definition reopen_done :: "string \<Rightarrow> nat \<Rightarrow> hublots \<Rightarrow> hublots" where
  "reopen_done now n s =
     (case jsmap_get (hm_tunnels s) n of
        None \<Rightarrow> s
      | Some t \<Rightarrow>
          if \<not> tn_reopening t then s
          else (case tn_result t of
             None \<Rightarrow> s
           | Some (Inl err) \<Rightarrow> reopen_failed now (tn_hublot t) err (upd_tunnel n (\<lambda>t. t\<lparr>tn_reopening := False\<rparr>) s)
           | Some (Inr _) \<Rightarrow> (upd_tunnel n (\<lambda>t. t\<lparr>tn_reopening := False\<rparr>) s)\<lparr>hm_reopens := removeAll (tn_hublot t) (hm_reopens s)\<rparr>))"

section \<open>The creation route\<close>

text \<open>
  \<^verbatim>\<open>POST /tunnels\<close> of \<^verbatim>\<open>http/routes/tunnelRoutes.mjs\<close> after anything failed behind the reservation (pinning the hublot,
  listing it, opening its tunnel).
\<close>

definition create_failed :: "string \<Rightarrow> string \<Rightarrow> string \<Rightarrow> hublots \<Rightarrow> hublots" where
  "create_failed now i message s =
     emit_hublot ''hublot_failed'' i
       (if map_option hb_status (find_hublot i (hm_db s)) = Some ''opening''
        then transition i ''failed'' (no_changes\<lparr>ch_url := Some None, ch_error := Some (Some message)\<rparr>) now s else s)"

section \<open>Supervision\<close>

text \<open>
  \<^verbatim>\<open>reconcile\<close>: the hublots to check are listed at the start; each is observed in one step and judged in the next,
  against the row as it is then.  Neither row has a column \<^verbatim>\<open>updated_at\<close>, so that comparison always holds.
\<close>

definition reconcile_start :: "bool \<Rightarrow> hublots \<Rightarrow> hublots" where
  "reconcile_start includeOpening s =
     s\<lparr>hm_supervise_rest := filter (\<lambda>h. (hb_desired h = ''open'' \<and> hb_status h \<notin> {''closing'', ''closed''}) \<and> (includeOpening \<or> hb_status h \<noteq> ''opening''))
         (list_hublots (\<lambda>_. True) (hm_db s))\<rparr>"

definition observe_process :: "(hublot_process \<Rightarrow> bool) \<Rightarrow> string \<Rightarrow> hublot_process \<Rightarrow> hublot_db \<Rightarrow> hublot_db" where
  "observe_process verify at p =
     update_process (hp_id p) (\<lambda>q. if verify p then q\<lparr>hp_observed := Some at\<rparr>
       else q\<lparr>hp_status := ''lost'', hp_observed := Some at, hp_ended := Some at, hp_exit := None, hp_signal := None\<rparr>)"

definition reconcile_observe :: "string \<Rightarrow> (hublot_process \<Rightarrow> bool) \<Rightarrow> hublots \<Rightarrow> hublots" where
  "reconcile_observe at verify s =
     (case (hm_supervising s, hm_supervise_rest s) of
        (None, h # rest) \<Rightarrow>
          (let active = filter (\<lambda>p. hp_role p = ''tunnel'' \<and> live_process p) (list_processes (hb_id h) (hm_db s))
           in s\<lparr>hm_db := fold (observe_process verify at) active (hm_db s), hm_supervise_rest := rest,
                hm_supervising := Some (h, list_ex verify active, at)\<rparr>)
      | _ \<Rightarrow> s)"

definition reconcile_judge :: "hublots \<Rightarrow> hublots" where
  "reconcile_judge s =
     (case hm_supervising s of
        None \<Rightarrow> s
      | Some (h, healthy, at) \<Rightarrow>
          (let s1 = s\<lparr>hm_supervising := None\<rparr> in
           case find_hublot (hb_id h) (hm_db s) of
             None \<Rightarrow> s1
           | Some current \<Rightarrow>
               if hb_status current \<noteq> hb_status h \<or> hb_desired current \<noteq> ''open'' \<or> hb_status current \<in> {''closing'', ''closed''} then s1
               else if healthy then s1
               else transition (hb_id h) ''closed''
                      \<lparr>ch_desired = Some ''closed'', ch_url = Some None, ch_error = Some (Some ''hublot process identity was lost; it is not automatically restarted''),
                       ch_opened = None, ch_closed = Some (Some at)\<rparr> at s1))"

section \<open>Stopping verified processes\<close>

text \<open>
  The operating system as \<^verbatim>\<open>stopVerifiedProcesses\<close> sees it: whether a recorded process is verified live, signalling a
  pid (with the error code, if any), the clock and sleeping, all in milliseconds.  The loops run with fuel.
\<close>

record 'w os =
  os_live :: "'w \<Rightarrow> hublot_process \<Rightarrow> bool"
  os_signal :: "nat \<Rightarrow> string \<Rightarrow> 'w \<Rightarrow> string option \<times> 'w"
  os_clock :: "'w \<Rightarrow> nat"
  os_sleep :: "nat \<Rightarrow> 'w \<Rightarrow> 'w"

definition live_targets :: "'w os \<Rightarrow> hublot_process list \<Rightarrow> 'w \<Rightarrow> hublot_process list" where
  "live_targets os targets w = filter (os_live os w) targets"

fun signal_all :: "'w os \<Rightarrow> string \<Rightarrow> hublot_process list \<Rightarrow> 'w \<Rightarrow> string option \<times> 'w" where
  "signal_all os sig [] w = (None, w)"
| "signal_all os sig (p # ps) w =
     (case os_signal os (pi_pid (hp_identity p)) sig w of
        (Some code, w1) \<Rightarrow> if code = ''ESRCH'' then signal_all os sig ps w1 else (Some code, w1)
      | (None, w1) \<Rightarrow> signal_all os sig ps w1)"

fun await_exit :: "nat \<Rightarrow> 'w os \<Rightarrow> nat \<Rightarrow> nat \<Rightarrow> hublot_process list \<Rightarrow> 'w \<Rightarrow> 'w option" where
  "await_exit 0 os poll deadline targets w = None"
| "await_exit (Suc fuel) os poll deadline targets w =
     (if live_targets os targets w \<noteq> [] \<and> os_clock os w < deadline
      then await_exit fuel os poll deadline targets (os_sleep os (min poll (deadline - os_clock os w)) w)
      else Some w)"

definition stopVerifiedProcesses ::
  "nat \<Rightarrow> 'w os \<Rightarrow> nat \<Rightarrow> nat \<Rightarrow> nat \<Rightarrow> hublot_process list \<Rightarrow> 'w \<Rightarrow> ((string + hublot_process list \<times> nat) \<times> 'w) option" where
  "stopVerifiedProcesses fuel os term_ms kill_ms poll targets w =
     (case signal_all os ''SIGTERM'' (live_targets os targets w) w of
        (Some code, w1) \<Rightarrow> Some (Inl code, w1)
      | (None, w1) \<Rightarrow>
          (case await_exit fuel os poll (os_clock os w1 + term_ms) targets w1 of
             None \<Rightarrow> None
           | Some w2 \<Rightarrow>
               (let escalated = length (live_targets os targets w2) in
                if escalated = 0 then Some (Inr (live_targets os targets w2, 0), w2)
                else case signal_all os ''SIGKILL'' (live_targets os targets w2) w2 of
                  (Some code, w3) \<Rightarrow> Some (Inl code, w3)
                | (None, w3) \<Rightarrow>
                    map_option (\<lambda>w4. (Inr (live_targets os targets w4, escalated), w4))
                      (await_exit fuel os poll (os_clock os w3 + kill_ms) targets w3))))"

section \<open>Shutdown and session deletion\<close>

definition shutdown_error :: string where
  "shutdown_error = ''server stopped; ephemeral cloudflared tunnels are not recreated automatically''"

definition closing_changes :: "string option \<Rightarrow> transition_changes" where
  "closing_changes err = no_changes\<lparr>ch_desired := Some ''closed'', ch_url := Some None, ch_error := Some err\<rparr>"

definition tunnel_targets :: "(hublot_process \<Rightarrow> bool) \<Rightarrow> hublot_db \<Rightarrow> hublot \<Rightarrow> hublot_process list" where
  "tunnel_targets verify db h = filter (\<lambda>p. live_process p \<and> hp_role p = ''tunnel'' \<and> verify p) (list_processes (hb_id h) db)"

text \<open>
  The precedence of \<^verbatim>\<open>await findProcess(id)?.ended_at\<close> makes the test for an already ended process of the shutdown
  false always; every stopped target is written.  While the processes are awaited other handlers run: a shutdown and the closing
  of a session have a start and a finish, which are two steps.
\<close>

definition stopped_process :: "string \<Rightarrow> string \<Rightarrow> hublot_process \<Rightarrow> hublots \<Rightarrow> hublots" where
  "stopped_process at sig p s =
     s\<lparr>hm_db := update_process (hp_id p) (\<lambda>q. q\<lparr>hp_status := ''ended'', hp_observed := Some at, hp_ended := Some at, hp_signal := Some sig, hp_exit := None\<rparr>) (hm_db s),
       hm_handles := jsmap_delete (hp_id p) (hm_handles s)\<rparr>"

definition begin_shutdown :: "string \<Rightarrow> hublot \<Rightarrow> hublots \<Rightarrow> hublots" where
  "begin_shutdown now h s =
     (if hb_status h \<noteq> ''closing'' \<or> hb_url h \<noteq> None \<or> hb_error h \<noteq> Some shutdown_error
      then transition (hb_id h) ''closing'' (closing_changes (Some shutdown_error)) now s else s)"

definition end_shutdown :: "string \<Rightarrow> hublot_process list \<Rightarrow> hublot \<Rightarrow> hublots \<Rightarrow> hublots" where
  "end_shutdown at remaining h =
     transition (hb_id h) (if list_ex (\<lambda>p. hp_hublot p = hb_id h) remaining then ''interrupted'' else ''closed'')
       \<lparr>ch_desired = Some ''closed'', ch_url = Some None, ch_error = Some (hb_error h), ch_opened = None, ch_closed = Some (Some at)\<rparr> at"

definition shutdown_start :: "string \<Rightarrow> (hublot_process \<Rightarrow> bool) \<Rightarrow> hublots \<Rightarrow> hublot_process list \<times> hublots" where
  "shutdown_start now verify s =
     (let rows = list_hublots (\<lambda>h. hb_desired h = ''open'') (hm_db s)
      in (concat (map (tunnel_targets verify (hm_db s)) rows), fold (begin_shutdown now) rows s))"

definition shutdown_finish :: "string \<Rightarrow> hublot_process list \<Rightarrow> hublot_process list \<Rightarrow> hublots \<Rightarrow> hublots" where
  "shutdown_finish now targets remaining s =
     (let s1 = fold (stopped_process now ''shutdown'') (filter (\<lambda>p. \<not> list_ex (\<lambda>q. hp_id q = hp_id p) remaining) targets) s
      in fold (end_shutdown now remaining) (list_hublots (\<lambda>h. hb_status h = ''closing'' \<and> hb_desired h = ''closed'') (hm_db s1)) s1)"

definition shutdownHublots ::
  "nat \<Rightarrow> 'w os \<Rightarrow> nat \<Rightarrow> nat \<Rightarrow> nat \<Rightarrow> string \<Rightarrow> hublots \<Rightarrow> 'w \<Rightarrow> ((string + nat \<times> nat \<times> nat) \<times> hublots \<times> 'w) option" where
  "shutdownHublots fuel os term_ms kill_ms poll now s w =
     (let (targets, s1) = shutdown_start now (os_live os w) s
      in map_option (\<lambda>(result, w1).
           case result of
             Inl code \<Rightarrow> (Inl code, (s1, w1))
           | Inr (remaining, escalated) \<Rightarrow> (Inr (length targets, escalated, length remaining), (shutdown_finish now targets remaining s1, w1)))
           (stopVerifiedProcesses fuel os term_ms kill_ms poll targets w))"

definition close_unless_closed :: "string \<Rightarrow> hublot \<Rightarrow> hublots \<Rightarrow> hublots" where
  "close_unless_closed at h s =
     (if map_option hb_status (find_hublot (hb_id h) (hm_db s)) = Some ''closed'' then s
      else transition (hb_id h) ''closed'' ((closing_changes None)\<lparr>ch_closed := Some (Some at)\<rparr>) at s)"

definition stopped_unless_ended :: "string \<Rightarrow> hublot_process \<Rightarrow> hublots \<Rightarrow> hublots" where
  "stopped_unless_ended at p s =
     (if Option.bind (find_process (hp_id p) (hm_db s)) hp_ended \<noteq> None then s\<lparr>hm_handles := jsmap_delete (hp_id p) (hm_handles s)\<rparr>
      else stopped_process at ''session_deleted'' p s)"

definition begin_session_close :: "string \<Rightarrow> hublot \<Rightarrow> hublots \<Rightarrow> hublots" where
  "begin_session_close now h s = (if hb_status h \<noteq> ''closed'' then transition (hb_id h) ''closing'' (closing_changes None) now s else s)"

definition session_close_start :: "string \<Rightarrow> (hublot_process \<Rightarrow> bool) \<Rightarrow> string \<Rightarrow> hublots \<Rightarrow> hublot list \<times> hublot_process list \<times> hublots" where
  "session_close_start now verify sessionId s =
     (let rows = list_hublots (\<lambda>h. hublot_session (hm_db s) h = Some sessionId) (hm_db s)
      in (rows, concat (map (tunnel_targets verify (hm_db s)) rows), fold (begin_session_close now) rows s))"

definition session_close_finish :: "string \<Rightarrow> hublot list \<Rightarrow> hublot_process list \<Rightarrow> hublots \<Rightarrow> hublots" where
  "session_close_finish now rows targets s = fold (close_unless_closed now) rows (fold (stopped_unless_ended now) targets s)"

definition closeSessionHublots ::
  "nat \<Rightarrow> 'w os \<Rightarrow> nat \<Rightarrow> nat \<Rightarrow> nat \<Rightarrow> string \<Rightarrow> string \<Rightarrow> hublots \<Rightarrow> 'w \<Rightarrow> ((string + nat list) \<times> hublots \<times> 'w) option" where
  "closeSessionHublots fuel os term_ms kill_ms poll now sessionId s w =
     (let (rows, targets, s1) = session_close_start now (os_live os w) sessionId s
      in map_option (\<lambda>(result, w1).
           case result of
             Inl code \<Rightarrow> (Inl code, (s1, w1))
           | Inr (remaining, _) \<Rightarrow>
               if remaining \<noteq> [] then (Inl ''could not stop hublot processes'', (s1, w1))
               else (Inr (map hb_port rows), (session_close_finish now rows targets s1, w1)))
           (stopVerifiedProcesses fuel os term_ms kill_ms poll targets w))"

section \<open>Steps\<close>

inductive hublot_step :: "hublots \<Rightarrow> hublots \<Rightarrow> bool" where
  reserve: "hublot_step s (snd (reserveHublot now i port label ownerId s))"
| open_tunnel: "jsmap_get (hm_tunnels s) n = None \<Longrightarrow> hublot_step s (snd (openTunnel now n row i port spawned identify s))"
| url_timeout: "hublot_step s (url_timeout now n s)"
| tunnel_output: "hublot_step s (tunnel_output n chunk s)"
| confirm: "hublot_step s (confirm_tunnel now n observed verify s)"
| readiness: "hublot_step s (readiness now n failure verify s)"
| failing: "hublot_step s (tunnel_error now n err s)"
| exiting: "hublot_step s (tunnel_exit now n code sig s)"
| closing: "hublot_step s (snd (closeTunnel now verify i s))"
| closing_all: "hublot_step s (closeAllTunnels now verify s)"
| grace: "hublot_step s (kill_grace n s)"
| rebind: "hublot_step s (snd (rebindHublot i ownerId s))"
| reopen: "hublot_step s (snd (reopenHublot now verify i s))"
| relaunch: "jsmap_get (hm_tunnels s) n = None \<Longrightarrow> i \<in> set (hm_launching s) \<Longrightarrow> hublot_step s (reopen_launch now n row i spawned identify s)"
| reopened: "hublot_step s (reopen_done now n s)"
| creating: "hublot_step s (create_failed now i message s)"
| reconcile: "hm_supervising s = None \<Longrightarrow> hm_supervise_rest s = [] \<Longrightarrow> hublot_step s (reconcile_start includeOpening s)"
| observe: "hublot_step s (reconcile_observe now verify s)"
| judge: "hublot_step s (reconcile_judge s)"
| shutdown: "hublot_step s (snd (shutdown_start now verify s))"
| shut_down: "hublot_step s (shutdown_finish now targets remaining s)"
| session_closing: "hublot_step s (snd (snd (session_close_start now verify sessionId s)))"
| session_closed: "hublot_step s (session_close_finish now rows targets s)"

end
