(* ===== verification/Hublot_Invariant.thy ===== *)
theory Hublot_Invariant
  imports Hublots
begin

text \<open>
  The invariant of the hublot tables: ids and active ports are unique, the lifecycle events of a hublot are numbered
  without gaps, and the last of them records what its row says.
\<close>

named_theorems hublot_keep

section \<open>The tables\<close>

definition row_view :: "hublot \<Rightarrow> string \<times> string \<times> string option \<times> string option" where
  "row_view h = (hb_status h, hb_desired h, hb_url h, hb_error h)"

definition event_view :: "lifecycle_event \<Rightarrow> string \<times> string \<times> string option \<times> string option" where
  "event_view v = (lf_status v, lf_desired v, lf_url v, lf_error v)"

definition recorded :: "hublot_db \<Rightarrow> hublot \<Rightarrow> bool" where
  "recorded db h \<longleftrightarrow> events_of_hublot (hb_id h) db \<noteq> [] \<and> event_view (last (events_of_hublot (hb_id h) db)) = row_view h"

definition numbered :: "hublot_db \<Rightarrow> bool" where
  "numbered db \<longleftrightarrow> (\<forall>i. map lf_sequence (events_of_hublot i db) = [1..<Suc (length (events_of_hublot i db))])"

definition history_ok :: "hublot_db \<Rightarrow> bool" where
  "history_ok db \<longleftrightarrow> distinct (map hb_id (hd_hublots db)) \<and> distinct (active_ports (hd_hublots db)) \<and> numbered db
     \<and> (\<forall>h \<in> set (hd_hublots db). recorded db h)"

lemma history_okI:
  assumes "distinct (map hb_id (hd_hublots db))" and "distinct (active_ports (hd_hublots db))" and "numbered db"
    and "\<And>h. h \<in> set (hd_hublots db) \<Longrightarrow> recorded db h"
  shows "history_ok db"
  using assms unfolding history_ok_def by blast

lemma history_okD:
  assumes "history_ok db"
  shows "distinct (map hb_id (hd_hublots db))" "distinct (active_ports (hd_hublots db))" "numbered db"
    "\<And>h. h \<in> set (hd_hublots db) \<Longrightarrow> recorded db h"
  using assms unfolding history_ok_def by blast+

lemma events_of_processes [simp]: "events_of_hublot i (db\<lparr>hd_processes := ps\<rparr>) = events_of_hublot i db"
  unfolding events_of_hublot_def by simp

lemma history_processes [simp]: "history_ok (db\<lparr>hd_processes := ps\<rparr>) = history_ok db"
  unfolding history_ok_def numbered_def recorded_def by simp

lemma find_hublot_processes [simp]: "find_hublot i (db\<lparr>hd_processes := ps\<rparr>) = find_hublot i db"
  unfolding find_hublot_def by simp

lemma find_hublotD: "find_hublot i db = Some h \<Longrightarrow> h \<in> set (hd_hublots db) \<and> hb_id h = i"
  unfolding find_hublot_def by (auto simp: find_Some_iff)

lemma find_hublotI:
  assumes "distinct (map hb_id (hd_hublots db))" and "h \<in> set (hd_hublots db)"
  shows "find_hublot (hb_id h) db = Some h"
proof -
  have "find_hublot (hb_id h) db \<noteq> None" using assms(2) by (auto simp: find_hublot_def find_None_iff)
  then obtain h' where f: "find_hublot (hb_id h) db = Some h'" by auto
  have "inj_on hb_id (set (hd_hublots db))" using assms(1) by (simp add: distinct_map)
  then have "h' = h" by (rule inj_onD) (use find_hublotD [OF f] assms(2) in auto)
  with f show ?thesis by simp
qed

lemma max_of_upt: "foldl max 0 [1..<Suc n] = (n::nat)"
  by (induction n) auto

lemma numbered_next: "numbered db \<Longrightarrow> foldl max 0 (map lf_sequence (events_of_hublot i db)) = length (events_of_hublot i db)"
  using max_of_upt [of "length (events_of_hublot i db)"] unfolding numbered_def by (simp del: upt_Suc)

section \<open>Writes\<close>

lemma update_hublot_Some:
  assumes "update_hublot i f db = Some db'"
  shows "db' = db\<lparr>hd_hublots := map (\<lambda>h. if hb_id h = i then f h else h) (hd_hublots db)\<rparr>"
    "distinct (active_ports (hd_hublots db'))"
  using assms unfolding update_hublot_def by (auto simp: Let_def split: if_splits)

lemma append_event_Some:
  assumes "appendLifecycleEvent i status desired url err at db = Some db'"
  obtains v where "db' = db\<lparr>hd_events := hd_events db @ [v]\<rparr>" "lf_hublot v = i" "event_view v = (status, desired, url, err)"
    "lf_sequence v = foldl max 0 (map lf_sequence (events_of_hublot i db)) + 1"
  using assms unfolding appendLifecycleEvent_def event_view_def by (force split: if_splits)

lemma events_of_append [simp]:
  "events_of_hublot i (db\<lparr>hd_events := hd_events db @ [v]\<rparr>) = events_of_hublot i db @ (if lf_hublot v = i then [v] else [])"
  unfolding events_of_hublot_def by simp

lemma events_of_hublots [simp]: "events_of_hublot i (db\<lparr>hd_hublots := hs\<rparr>) = events_of_hublot i db"
  unfolding events_of_hublot_def by simp

lemma numbered_hublots [simp]: "numbered (db\<lparr>hd_hublots := hs\<rparr>) = numbered db"
  unfolding numbered_def by simp

lemma numbered_append:
  assumes "numbered db" and "lf_sequence v = foldl max 0 (map lf_sequence (events_of_hublot (lf_hublot v) db)) + 1"
  shows "numbered (db\<lparr>hd_events := hd_events db @ [v]\<rparr>)"
  using assms numbered_next [OF assms(1)] unfolding numbered_def by auto

lemma history_write:
  assumes hist: "history_ok db" and upd: "update_hublot i f db = Some db1" and app: "appendLifecycleEvent i status desired url err at db1 = Some db2"
    and id: "\<And>h. hb_id (f h) = hb_id h" and view: "\<And>h. h \<in> set (hd_hublots db) \<Longrightarrow> hb_id h = i \<Longrightarrow> row_view (f h) = (status, desired, url, err)"
  shows "history_ok db2"
proof -
  note d1 = update_hublot_Some [OF upd]
  obtain v where v: "db2 = db1\<lparr>hd_events := hd_events db1 @ [v]\<rparr>" "lf_hublot v = i" "event_view v = (status, desired, url, err)"
    "lf_sequence v = foldl max 0 (map lf_sequence (events_of_hublot i db1)) + 1" by (rule append_event_Some [OF app])
  have ev: "events_of_hublot j db2 = events_of_hublot j db @ (if lf_hublot v = j then [v] else [])" for j
    unfolding events_of_hublot_def by (simp add: v(1) d1)
  show ?thesis
  proof (rule history_okI)
    have "map hb_id (map (\<lambda>h. if hb_id h = i then f h else h) (hd_hublots db)) = map hb_id (hd_hublots db)" by (simp add: id)
    then show "distinct (map hb_id (hd_hublots db2))" using history_okD(1) [OF hist] by (simp add: v d1 del: map_map)
    show "distinct (active_ports (hd_hublots db2))" using d1(2) by (simp add: v)
    show "numbered db2" unfolding v(1) by (rule numbered_append) (use history_okD(3) [OF hist] v in \<open>simp_all add: d1\<close>)
    fix h assume "h \<in> set (hd_hublots db2)"
    then obtain g where g: "g \<in> set (hd_hublots db)" "h = (if hb_id g = i then f g else g)" by (auto simp: v d1)
    show "recorded db2 h"
    proof (cases "hb_id g = i")
      case True
      then show ?thesis using g view [OF g(1)] v(2-3) by (simp add: recorded_def id ev)
    next
      case False
      then show ?thesis using g history_okD(4) [OF hist, of g] v(2) by (simp add: recorded_def ev)
    qed
  qed
qed

lemma recordHublotTransition_history [hublot_keep]:
  assumes "history_ok db"
  shows "history_ok (snd (recordHublotTransition i status ch at db))"
proof (cases "find_hublot i db")
  case (Some c)
  define f where "f = (\<lambda>h::hublot. h\<lparr>hb_status := status, hb_desired := given (ch_desired ch) (hb_desired c), hb_url := given (ch_url ch) (hb_url h),
    hb_error := given (ch_error ch) (hb_error h), hb_opened := given (ch_opened ch) (hb_opened h), hb_closed := given (ch_closed ch) (hb_closed h)\<rparr>)"
  define app where "app = appendLifecycleEvent i status (given (ch_desired ch) (hb_desired c)) (given (ch_url ch) (hb_url c)) (given (ch_error ch) (hb_error c)) at"
  have same: "h = c" if "h \<in> set (hd_hublots db)" "hb_id h = i" for h
    using find_hublotI [OF history_okD(1) [OF assms] that(1)] Some that(2) by simp
  have "history_ok db2" if "update_hublot i f db = Some db1" "app db1 = Some db2" for db1 db2
    by (rule history_write [OF assms that(1) that(2) [unfolded app_def]]) (auto simp: f_def row_view_def dest: same)
  then show ?thesis using assms Some
    by (auto simp: recordHublotTransition_def Let_def f_def [symmetric] app_def [symmetric] bind_eq_Some_conv split: option.splits)
qed (simp add: recordHublotTransition_def assms)

lemma reserve_history [hublot_keep]:
  assumes "history_ok (hm_db s)"
  shows "history_ok (hm_db (snd (reserveHublot now i port label ownerId s)))"
proof -
  define h where "h = \<lparr>hb_id = i, hb_owner = ownerId, hb_port = port, hb_label = label, hb_workdir = hm_dir s, hb_url = None, hb_status = ''opening'',
                     hb_desired = ''open'', hb_created = now, hb_opened = None, hb_closed = None, hb_error = None\<rparr>"
  have "history_ok db2"
    if c: "create_hublot h (hm_db s) = Some db1" and a: "appendLifecycleEvent i ''opening'' ''open'' None None now db1 = Some db2" for db1 db2
  proof -
    have d1: "db1 = (hm_db s)\<lparr>hd_hublots := hd_hublots (hm_db s) @ [h]\<rparr>" "hb_id h \<notin> hb_id ` set (hd_hublots (hm_db s))" "distinct (active_ports (hd_hublots db1))"
      using c unfolding create_hublot_def by (auto simp: Let_def split: if_splits)
    obtain v where v: "db2 = db1\<lparr>hd_events := hd_events db1 @ [v]\<rparr>" "lf_hublot v = i" "event_view v = (''opening'', ''open'', None, None)"
      "lf_sequence v = foldl max 0 (map lf_sequence (events_of_hublot i db1)) + 1" by (rule append_event_Some [OF a])
    have ev: "events_of_hublot j db2 = events_of_hublot j (hm_db s) @ (if lf_hublot v = j then [v] else [])" for j
      unfolding events_of_hublot_def by (simp add: v(1) d1)
    show ?thesis
    proof (rule history_okI)
      show "distinct (map hb_id (hd_hublots db2))" using history_okD(1) [OF assms] d1 by (simp add: v)
      show "distinct (active_ports (hd_hublots db2))" using d1(3) by (simp add: v)
      show "numbered db2" unfolding v(1) by (rule numbered_append) (use history_okD(3) [OF assms] v in \<open>simp_all add: d1\<close>)
      fix g assume "g \<in> set (hd_hublots db2)"
      then consider "g = h" | "g \<in> set (hd_hublots (hm_db s))" by (auto simp: v d1)
      then show "recorded db2 g"
      proof cases
        case 1
        then show ?thesis using v(2-3) by (simp add: recorded_def ev h_def row_view_def)
      next
        case 2
        moreover have "hb_id g \<noteq> i" using 2 d1(2) by (auto simp: h_def)
        ultimately show ?thesis using history_okD(4) [OF assms, of g] v(2) by (simp add: recorded_def ev)
      qed
    qed
  qed
  then show ?thesis using assms
    by (auto simp: reserveHublot_def Let_def h_def [symmetric] bind_eq_Some_conv split: option.splits)
qed

lemma rebind_history [hublot_keep]:
  assumes "history_ok (hm_db s)"
  shows "history_ok (hm_db (snd (rebindHublot i ownerId s)))"
proof -
  have "history_ok db" if u: "update_hublot i (\<lambda>h. h\<lparr>hb_owner := ownerId\<rparr>) (hm_db s) = Some db" for db
  proof (rule history_okI)
    note d = update_hublot_Some [OF u]
    have "map hb_id (map (\<lambda>h. if hb_id h = i then h\<lparr>hb_owner := ownerId\<rparr> else h) (hd_hublots (hm_db s))) = map hb_id (hd_hublots (hm_db s))" by simp
    then show "distinct (map hb_id (hd_hublots db))" using history_okD(1) [OF assms] by (simp add: d del: map_map)
    show "distinct (active_ports (hd_hublots db))" by (rule d)
    show "numbered db" using history_okD(3) [OF assms] by (simp add: d)
    fix h assume "h \<in> set (hd_hublots db)"
    then show "recorded db h" using history_okD(4) [OF assms] by (auto simp: d recorded_def row_view_def split: if_splits)
  qed
  then show ?thesis using assms by (auto simp: rebindHublot_def split: option.splits)
qed

section \<open>Operations that leave the tables alone\<close>

lemma upd_tunnel_db [simp]: "hm_db (upd_tunnel n f s) = hm_db s"
  by (simp add: upd_tunnel_def split: option.split)

lemma kill_tunnel_db [simp]: "hm_db (kill_tunnel n sig s) = hm_db s"
  by (simp add: kill_tunnel_def)

lemma kill_running_db [simp]: "hm_db (kill_running n s) = hm_db s"
  by (simp add: kill_running_def split: option.split)

lemma kill_grace_db [simp]: "hm_db (kill_grace n s) = hm_db s"
  by (simp add: kill_grace_def split: option.split)

lemma kill_all_db [simp]: "hm_db (fold (\<lambda>n. kill_tunnel n sig) ns s) = hm_db s"
  by (induction ns arbitrary: s) simp_all

lemma reject_db [simp]: "hm_db (reject n err s) = hm_db s"
  by (simp add: reject_def)

lemma remove_handle_db [simp]: "hm_db (remove_handle i n s) = hm_db s"
  by (simp add: remove_handle_def)

lemma emit_db [simp]: "hm_db (emit_hublot type i s) = hm_db s"
  by (simp add: emit_hublot_def)

lemma tunnel_output_db [simp]: "hm_db (tunnel_output n chunk s) = hm_db s"
  by (simp add: tunnel_output_def)

lemma reconcile_start_db [simp]: "hm_db (reconcile_start b s) = hm_db s"
  by (simp add: reconcile_start_def)

section \<open>Operations that change processes only\<close>

lemma update_process_history [simp]: "history_ok (update_process i f db) = history_ok db"
  by (simp add: update_process_def)

lemma upsert_history: "upsert_process p db = Some db' \<Longrightarrow> history_ok db' = history_ok db"
  by (auto simp: upsert_process_def split: if_splits)

lemma finish_history [simp]: "history_ok (hm_db (finishPersistedProcess now i st code sig s)) = history_ok (hm_db s)"
  by (simp add: finishPersistedProcess_def)

lemma persist_history: "persistHublotProcessIdentity now row i role pid identify db = Some (q, db') \<Longrightarrow> history_ok db' = history_ok db"
  by (auto simp: persistHublotProcessIdentity_def Let_def upsert_history split: option.splits if_splits)

lemma confirm_history [simp]: "history_ok (snd (confirmSpawnedTunnelProcess now t observed verify db)) = history_ok db"
  by (simp add: confirmSpawnedTunnelProcess_def Let_def split: option.split)

lemma observe_history [simp]: "history_ok (fold (observe_process verify at) ps db) = history_ok db"
  by (induction ps arbitrary: db) (simp_all add: observe_process_def)

lemma stopped_history [simp]: "history_ok (hm_db (stopped_process at sig p s)) = history_ok (hm_db s)"
  by (simp add: stopped_process_def)

lemma retire_history [simp]: "history_ok (hm_db (retire now verify p s)) = history_ok (hm_db s)"
  by (simp add: retire_def)

lemma fold_history:
  assumes "\<And>x s. history_ok (hm_db s) \<Longrightarrow> history_ok (hm_db (f x s))" and "history_ok (hm_db s)"
  shows "history_ok (hm_db (fold f xs s))"
  using assms(2) by (induction xs arbitrary: s) (simp_all add: assms(1))

section \<open>Every operation\<close>

lemma transition_history [hublot_keep]: "history_ok (hm_db s) \<Longrightarrow> history_ok (hm_db (transition i st ch at s))"
  by (simp add: transition_def recordHublotTransition_history)

lemma recorded_transition: "recordHublotTransition i st ch at db = (r, db') \<Longrightarrow> history_ok db \<Longrightarrow> history_ok db'"
  using recordHublotTransition_history [of db i st ch at] by simp

lemma fail_opening_history [hublot_keep]: "history_ok (hm_db s) \<Longrightarrow> history_ok (hm_db (failOpeningHublot now i msg s))"
  by (simp add: failOpeningHublot_def transition_history split: option.split)

lemma openTunnel_history [hublot_keep]:
  "history_ok (hm_db s) \<Longrightarrow> history_ok (hm_db (snd (openTunnel now n row i port spawned identify s)))"
  by (auto simp: openTunnel_def fail_opening_history persist_history split: option.split sum.split)

lemma url_timeout_history [hublot_keep]: "history_ok (hm_db s) \<Longrightarrow> history_ok (hm_db (url_timeout now n s))"
  by (simp add: url_timeout_def Let_def fail_opening_history split: option.split)

lemma confirm_tunnel_history [hublot_keep]: "history_ok (hm_db s) \<Longrightarrow> history_ok (hm_db (confirm_tunnel now n observed verify s))"
  by (simp add: confirm_tunnel_def Let_def case_prod_beta fail_opening_history split: option.split)

lemma readiness_history [hublot_keep]: "history_ok (hm_db s) \<Longrightarrow> history_ok (hm_db (readiness now n failure verify s))"
  by (auto simp: readiness_def Let_def fail_opening_history split: option.split prod.split sum.split elim: recorded_transition)

lemma tunnel_error_history [hublot_keep]: "history_ok (hm_db s) \<Longrightarrow> history_ok (hm_db (tunnel_error now n err s))"
  by (simp add: tunnel_error_def Let_def fail_opening_history split: option.split)

lemma tunnel_exit_history [hublot_keep]: "history_ok (hm_db s) \<Longrightarrow> history_ok (hm_db (tunnel_exit now n code sig s))"
  by (simp add: tunnel_exit_def Let_def fail_opening_history transition_history split: option.split)

lemma closeTunnel_history [hublot_keep]: "history_ok (hm_db s) \<Longrightarrow> history_ok (hm_db (snd (closeTunnel now verify i s)))"
  by (simp add: closeTunnel_def Let_def transition_history split: option.split)

lemma closeAll_history [hublot_keep]: "history_ok (hm_db s) \<Longrightarrow> history_ok (hm_db (closeAllTunnels now verify s))"
  unfolding closeAllTunnels_def by (rule fold_history) (rule closeTunnel_history)

lemma retire_all_history [simp]: "history_ok (hm_db (fold (retire now verify) ps s)) = history_ok (hm_db s)"
  by (induction ps arbitrary: s) simp_all

lemma reopen_history [hublot_keep]: "history_ok (hm_db s) \<Longrightarrow> history_ok (hm_db (snd (reopenHublot now verify i s)))"
  by (auto simp: reopenHublot_def Let_def split: option.split prod.split sum.split elim: recorded_transition)

lemma reopen_failed_history [hublot_keep]: "history_ok (hm_db s) \<Longrightarrow> history_ok (hm_db (reopen_failed now i err s))"
  by (simp add: reopen_failed_def Let_def fail_opening_history)

lemma reopen_launch_history [hublot_keep]:
  assumes "history_ok (hm_db s)"
  shows "history_ok (hm_db (reopen_launch now n row i spawned identify s))"
proof (cases "find_hublot i (hm_db s)")
  case (Some h)
  let ?s = "s\<lparr>hm_launching := remove1 i (hm_launching s)\<rparr>"
  have "history_ok (hm_db (snd (openTunnel now n row i (hb_port h) spawned identify ?s)))"
    by (rule openTunnel_history) (simp add: assms)
  then have "history_ok (hm_db s1)" if "openTunnel now n row i (hb_port h) spawned identify ?s = (r, s1)" for r s1
    using that by simp
  then show ?thesis using Some assms
    by (simp add: reopen_launch_def Let_def reopen_failed_history split: prod.split sum.split)
qed (simp add: reopen_launch_def assms reopen_failed_history)

lemma reopen_done_history [hublot_keep]: "history_ok (hm_db s) \<Longrightarrow> history_ok (hm_db (reopen_done now n s))"
  by (simp add: reopen_done_def reopen_failed_history split: option.split sum.split)

lemma create_failed_history [hublot_keep]: "history_ok (hm_db s) \<Longrightarrow> history_ok (hm_db (create_failed now i msg s))"
  by (simp add: create_failed_def transition_history)

lemma reconcile_observe_history [hublot_keep]: "history_ok (hm_db s) \<Longrightarrow> history_ok (hm_db (reconcile_observe at verify s))"
  by (simp add: reconcile_observe_def Let_def split: option.split list.split)

lemma reconcile_judge_history [hublot_keep]: "history_ok (hm_db s) \<Longrightarrow> history_ok (hm_db (reconcile_judge s))"
  by (simp add: reconcile_judge_def Let_def transition_history split: option.split prod.split)

lemma shutdown_start_history [hublot_keep]: "history_ok (hm_db s) \<Longrightarrow> history_ok (hm_db (snd (shutdown_start now verify s)))"
  by (simp add: shutdown_start_def Let_def, rule fold_history) (simp_all add: begin_shutdown_def transition_history)

lemma shutdown_finish_history [hublot_keep]: "history_ok (hm_db s) \<Longrightarrow> history_ok (hm_db (shutdown_finish now targets remaining s))"
  unfolding shutdown_finish_def Let_def
  by (rule fold_history, simp add: end_shutdown_def transition_history, rule fold_history) simp_all

lemma session_close_start_history [hublot_keep]: "history_ok (hm_db s) \<Longrightarrow> history_ok (hm_db (snd (snd (session_close_start now verify sid s))))"
  by (simp add: session_close_start_def Let_def, rule fold_history) (simp_all add: begin_session_close_def transition_history)

lemma session_close_finish_history [hublot_keep]: "history_ok (hm_db s) \<Longrightarrow> history_ok (hm_db (session_close_finish now rows targets s))"
  unfolding session_close_finish_def
  by (rule fold_history, simp add: close_unless_closed_def transition_history, rule fold_history) (simp_all add: stopped_unless_ended_def)

lemma step_history: "hublot_step s s' \<Longrightarrow> history_ok (hm_db s) \<Longrightarrow> history_ok (hm_db s')"
  by (induction rule: hublot_step.induct) (simp_all add: hublot_keep)

lemma reachable_history: "hublot_step\<^sup>*\<^sup>* s0 s \<Longrightarrow> history_ok (hm_db s0) \<Longrightarrow> history_ok (hm_db s)"
  by (induction rule: rtranclp_induct) (auto intro: step_history)

lemma empty_history: "hd_hublots db = [] \<Longrightarrow> hd_events db = [] \<Longrightarrow> history_ok db"
  by (simp add: history_ok_def numbered_def active_ports_def events_of_hublot_def)

end
