(* ===== verification/Credential_Flows.thy ===== *)
theory Credential_Flows
  imports Js_Json
begin

text \<open>
  \<^verbatim>\<open>server/pi-oauth-flow-service.mjs\<close>: the OAuth logins a browser drives while the credential service waits for its
  answers.  Flow objects live in a list and are referred to by their position, because promises and timers keep a flow after the registry has dropped
  it.  The login and the restart of the runners are promises: what they call back, and their results, are steps.
  Random bytes arrive as the hexadecimal texts they become; the protocol of a URL is a parameter.
\<close>

section \<open>Flows\<close>

definition max_text_length :: nat where "max_text_length = 4096"
definition max_url_length :: nat where "max_url_length = 16384"
definition max_response_length :: nat where "max_response_length = 32768"
definition short_text_length :: nat where "short_text_length = 1024"
definition max_provider_length :: nat where "max_provider_length = 256"
definition max_options :: nat where "max_options = 32"
definition flow_id_hex_length :: nat where "flow_id_hex_length = 64"
definition id_attempts :: nat where "id_attempts = 8"
definition max_restart_ids :: nat where "max_restart_ids = 1000"
definition max_runner_id_length :: nat where "max_runner_id_length = 256"

definition safe_failure_codes :: "string list" where
  "safe_failure_codes = [''credential_busy'', ''invalid_harness'', ''credential_replace_required'', ''credential_type_conflict'',
     ''oauth_provider_not_found'', ''credential_service_unavailable'', ''claude_credential_sync_failed'']"

definition supported_harnesses :: "string list" where
  "supported_harnesses = [''pi'', ''claude-code'', ''codex'', ''gemini'', ''amp'']"

record oauth_request =
  rq_id :: string
  rq_kind :: string
  rq_message :: string
  rq_placeholder :: "string option"
  rq_options :: "(string \<times> string) list option"

record device_code =
  dc_userCode :: string
  dc_verificationUri :: string
  dc_interval :: "int option"
  dc_expires :: "int option"

record restart_report =
  rr_status :: string
  rr_runnerIds :: "string list"
  rr_failed :: "string list"

text \<open>Where the promise chain of a flow is: the login, the restart of the runners, its end.\<close>

datatype flow_stage = Logging_in | Restarting | Ended

text \<open>
  \<open>cf_timer\<close> is the generation of the armed inactivity timer, \<open>cf_retained\<close> that the timer of the registry entry is armed.
\<close>

record login_flow =
  cf_id :: string
  cf_provider :: string
  cf_harness :: string
  cf_status :: string
  cf_phase :: string
  cf_created :: nat
  cf_updated :: nat
  cf_requests :: "(string, oauth_request) jsmap"
  cf_aborted :: bool
  cf_authorization :: "(string \<times> string option) option"
  cf_deviceCode :: "device_code option"
  cf_progress :: "string option"
  cf_persisted :: bool
  cf_harnesses :: "string list option"
  cf_restart :: "restart_report option"
  cf_failure :: "string option"
  cf_generation :: nat
  cf_timer :: "nat option"
  cf_retained :: bool
  cf_stage :: flow_stage

text \<open>The answers the promises of the requests were settled with are kept for the statements.\<close>

record login_flows =
  lf_objects :: "login_flow list"
  lf_registry :: "(string, nat) jsmap"
  lf_now :: nat
  lf_answers :: "(nat \<times> string \<times> (string + string)) list"

type_synonym flow_error = "string \<times> string"

section \<open>Validation\<close>

definition providerId :: "json option \<Rightarrow> flow_error + string" where
  "providerId v =
     (case v of
        Some (JStr t) \<Rightarrow>
          if js_trim t = [] then Inl (''invalid_provider'', ''provider is required'')
          else if length (js_trim t) > max_provider_length then Inl (''invalid_provider'', ''provider is too long'')
          else Inr (js_trim t)
      | _ \<Rightarrow> Inl (''invalid_provider'', ''provider is required''))"

definition harnessId :: "json option \<Rightarrow> flow_error + string" where
  "harnessId v =
     (case v of
        None \<Rightarrow> Inr ''pi''
      | Some (JStr h) \<Rightarrow> if h \<in> set supported_harnesses then Inr h else Inl (''invalid_harness'', ''supported harness is required'')
      | _ \<Rightarrow> Inl (''invalid_harness'', ''supported harness is required''))"

definition safeFailureCode :: "string option \<Rightarrow> string" where
  "safeFailureCode code = (case code of Some c \<Rightarrow> if c \<in> set safe_failure_codes then c else ''oauth_failed'' | None \<Rightarrow> ''oauth_failed'')"

definition boundedText :: "json option \<Rightarrow> string \<Rightarrow> nat \<Rightarrow> flow_error + string" where
  "boundedText v label limit =
     (case v of
        Some (JStr t) \<Rightarrow> if length t > limit then Inl (''oauth_invalid_callback'', ''OAuth '' @ label @ '' is invalid'') else Inr t
      | _ \<Rightarrow> Inl (''oauth_invalid_callback'', ''OAuth '' @ label @ '' is invalid''))"

definition optionalText :: "json option \<Rightarrow> string \<Rightarrow> nat \<Rightarrow> flow_error + string option" where
  "optionalText v label limit = (if v = None then Inr None else map_sum id Some (boundedText v label limit))"

text \<open>\<open>protocol\<close> is \<^verbatim>\<open>new URL(text).protocol\<close>, \<^term>\<open>None\<close> where the constructor throws.\<close>

definition safeUrl :: "(string \<Rightarrow> string option) \<Rightarrow> json option \<Rightarrow> string \<Rightarrow> flow_error + string" where
  "safeUrl protocol v label =
     (case boundedText v label max_url_length of
        Inl e \<Rightarrow> Inl e
      | Inr t \<Rightarrow> if protocol t \<in> {Some ''https:'', Some ''http:''} then Inr t
                 else Inl (''oauth_invalid_callback'', ''OAuth '' @ label @ '' is invalid''))"

definition safe_count :: "json option \<Rightarrow> int option" where
  "safe_count v = (case v of Some (JNum n) \<Rightarrow> if 0 \<le> n \<and> n \<le> 9007199254740991 then Some n else None | _ \<Rightarrow> None)"

definition safeRestart :: "restart_report \<Rightarrow> restart_report" where
  "safeRestart v =
     (let ids = take max_restart_ids (filter (\<lambda>i. length i \<le> max_runner_id_length) (rr_runnerIds v))
      in \<lparr>rr_status = (if rr_status v \<in> {''restarted'', ''partial''} then rr_status v else ''failed''), rr_runnerIds = ids,
          rr_failed = take max_restart_ids (filter (\<lambda>i. i \<in> set ids) (rr_failed v))\<rparr>)"

definition failed_restart :: restart_report where
  "failed_restart = \<lparr>rr_status = ''failed'', rr_runnerIds = [], rr_failed = []\<rparr>"

section \<open>Views\<close>

record login_view =
  lv_id :: string
  lv_provider :: string
  lv_harness :: "string option"
  lv_harnesses :: "string list option"
  lv_status :: string
  lv_phase :: string
  lv_created :: nat
  lv_updated :: nat
  lv_authorization :: "(string \<times> string option) option"
  lv_deviceCode :: "device_code option"
  lv_progress :: "string option"
  lv_requests :: "oauth_request list"
  lv_restart :: "restart_report option"
  lv_failure :: "string option"

definition flow_snapshot :: "login_flow \<Rightarrow> login_view" where
  "flow_snapshot f =
     \<lparr>lv_id = cf_id f, lv_provider = cf_provider f, lv_harness = (if cf_harness f \<noteq> ''pi'' then Some (cf_harness f) else None),
      lv_harnesses = cf_harnesses f, lv_status = cf_status f, lv_phase = cf_phase f, lv_created = cf_created f, lv_updated = cf_updated f,
      lv_authorization = cf_authorization f, lv_deviceCode = cf_deviceCode f,
      lv_progress = (if cf_progress f = Some [] then None else cf_progress f), lv_requests = jsmap_values (cf_requests f),
      lv_restart = cf_restart f, lv_failure = cf_failure f\<rparr>"

section \<open>Objects, timers and updates\<close>

definition flow_at :: "nat \<Rightarrow> login_flows \<Rightarrow> login_flow option" where
  "flow_at r s = (if r < length (lf_objects s) then Some (lf_objects s ! r) else None)"

definition put_flow :: "nat \<Rightarrow> login_flow \<Rightarrow> login_flows \<Rightarrow> login_flows" where
  "put_flow r f s = s\<lparr>lf_objects := (lf_objects s)[r := f]\<rparr>"

definition flow_active :: "login_flow \<Rightarrow> bool" where
  "flow_active f \<longleftrightarrow> cf_status f = ''pending''"

definition activeFlows :: "login_flows \<Rightarrow> login_flow list" where
  "activeFlows s = filter flow_active (List.map_filter (\<lambda>r. flow_at r s) (jsmap_values (lf_registry s)))"

text \<open>\<^verbatim>\<open>createRandomId\<close>: the first usable of at most eight candidates.\<close>

definition createRandomId :: "string list \<Rightarrow> (string \<Rightarrow> bool) \<Rightarrow> flow_error + string" where
  "createRandomId candidates isUsed =
     (case List.find (\<lambda>i. length i = flow_id_hex_length \<and> \<not> isUsed i) (take id_attempts candidates) of
        Some i \<Rightarrow> Inr i
      | None \<Rightarrow> Inl (''credential_service_unavailable'', ''could not allocate an OAuth flow ID''))"

definition scheduleInactivity :: "login_flow \<Rightarrow> login_flow" where
  "scheduleInactivity f = f\<lparr>cf_generation := cf_generation f + 1, cf_timer := Some (cf_generation f + 1)\<rparr>"

definition update_flow :: "nat \<Rightarrow> string \<Rightarrow> login_flow \<Rightarrow> flow_error + login_flow" where
  "update_flow now phase f =
     (if \<not> flow_active f then Inl (''oauth_flow_inactive'', ''OAuth flow is no longer active'')
      else Inr (scheduleInactivity (f\<lparr>cf_phase := phase, cf_updated := now\<rparr>)))"

definition reject_answers :: "nat \<Rightarrow> login_flow \<Rightarrow> (nat \<times> string \<times> (string + string)) list" where
  "reject_answers r f = map (\<lambda>q. (r, rq_id q, Inl ''oauth_flow_inactive'')) (jsmap_values (cf_requests f))"

text \<open>The object after \<^verbatim>\<open>finish\<close>, which does nothing to a flow that is no longer active.\<close>

definition finished :: "nat \<Rightarrow> string \<Rightarrow> string option \<Rightarrow> bool \<Rightarrow> login_flow \<Rightarrow> login_flow" where
  "finished now status failure abort f =
     f\<lparr>cf_generation := cf_generation f + 1, cf_timer := None, cf_aborted := (cf_aborted f \<or> abort), cf_requests := [], cf_authorization := None,
       cf_deviceCode := None, cf_progress := None, cf_status := status, cf_phase := ''complete'', cf_updated := now,
       cf_failure := (if failure = None then cf_failure f else failure), cf_retained := True\<rparr>"

definition finish_flow :: "nat \<Rightarrow> string \<Rightarrow> string option \<Rightarrow> bool \<Rightarrow> login_flows \<Rightarrow> login_flows" where
  "finish_flow r status failure abort s =
     (case flow_at r s of
        None \<Rightarrow> s
      | Some f \<Rightarrow>
          if \<not> flow_active f then s
          else put_flow r (finished (lf_now s) status failure abort f) (s\<lparr>lf_answers := lf_answers s @ reject_answers r f\<rparr>))"

text \<open>The inactivity timer of a generation, if it was not cleared, and the timer that drops the registry entry.\<close>

definition inactivity_fired :: "nat \<Rightarrow> nat \<Rightarrow> login_flows \<Rightarrow> login_flows" where
  "inactivity_fired r generation s =
     (case flow_at r s of
        None \<Rightarrow> s
      | Some f \<Rightarrow>
          if cf_timer f \<noteq> Some generation then s
          else if cf_generation f \<noteq> generation \<or> \<not> flow_active f then s
          else if cf_persisted f
          then finish_flow r ''succeeded'' None False (put_flow r (f\<lparr>cf_restart := Some failed_restart\<rparr>) s)
          else finish_flow r ''cancelled'' (Some ''oauth_flow_expired'') True s)"

definition retention_fired :: "nat \<Rightarrow> login_flows \<Rightarrow> login_flows" where
  "retention_fired r s =
     (case flow_at r s of
        None \<Rightarrow> s
      | Some f \<Rightarrow>
          if \<not> cf_retained f then s
          else (let s1 = put_flow r (f\<lparr>cf_retained := False\<rparr>) s in
                if jsmap_get (lf_registry s) (cf_id f) = Some r then s1\<lparr>lf_registry := jsmap_delete (cf_id f) (lf_registry s)\<rparr> else s1))"

section \<open>Callbacks of the credential service\<close>

definition field :: "json option \<Rightarrow> string \<Rightarrow> json option" where
  "field v k = Option.bind v (\<lambda>j. js_get j k)"

text \<open>A callback changes the flow even where it then throws: the phase and the timer are updated first.\<close>

definition with_flow :: "nat \<Rightarrow> (login_flow \<Rightarrow> (flow_error + 'a) \<times> login_flow) \<Rightarrow> login_flows \<Rightarrow> (flow_error + 'a) \<times> login_flows" where
  "with_flow r k s =
     (case flow_at r s of
        None \<Rightarrow> (Inl (''oauth_flow_inactive'', ''OAuth flow is no longer active''), s)
      | Some f \<Rightarrow> (let (result, f') = k f in (result, put_flow r f' s)))"

definition onAuth :: "(string \<Rightarrow> string option) \<Rightarrow> nat \<Rightarrow> json option \<Rightarrow> login_flows \<Rightarrow> (flow_error + unit) \<times> login_flows" where
  "onAuth protocol r info s =
     with_flow r (\<lambda>f.
       case update_flow (lf_now s) ''authorization'' f of
         Inl e \<Rightarrow> (Inl e, f)
       | Inr f1 \<Rightarrow>
           (case safeUrl protocol (field info ''url'') ''authorization URL'' of
              Inl e \<Rightarrow> (Inl e, f1)
            | Inr url \<Rightarrow>
                (case optionalText (field info ''instructions'') ''authorization instructions'' max_text_length of
                   Inl e \<Rightarrow> (Inl e, f1)
                 | Inr instructions \<Rightarrow> (Inr (), f1\<lparr>cf_authorization := Some (url, instructions)\<rparr>)))) s"

definition onDeviceCode :: "(string \<Rightarrow> string option) \<Rightarrow> nat \<Rightarrow> json option \<Rightarrow> login_flows \<Rightarrow> (flow_error + unit) \<times> login_flows" where
  "onDeviceCode protocol r info s =
     with_flow r (\<lambda>f.
       case update_flow (lf_now s) ''device_code'' f of
         Inl e \<Rightarrow> (Inl e, f)
       | Inr f1 \<Rightarrow>
           (case boundedText (field info ''userCode'') ''device code'' short_text_length of
              Inl e \<Rightarrow> (Inl e, f1)
            | Inr code \<Rightarrow>
                (case safeUrl protocol (field info ''verificationUri'') ''device verification URL'' of
                   Inl e \<Rightarrow> (Inl e, f1)
                 | Inr uri \<Rightarrow>
                     (Inr (), f1\<lparr>cf_deviceCode := Some \<lparr>dc_userCode = code, dc_verificationUri = uri,
                        dc_interval = safe_count (field info ''intervalSeconds''), dc_expires = safe_count (field info ''expiresInSeconds'')\<rparr>\<rparr>)))) s"

definition onProgress :: "nat \<Rightarrow> json option \<Rightarrow> login_flows \<Rightarrow> (flow_error + unit) \<times> login_flows" where
  "onProgress r message s =
     with_flow r (\<lambda>f.
       case update_flow (lf_now s) ''progress'' f of
         Inl e \<Rightarrow> (Inl e, f)
       | Inr f1 \<Rightarrow> (case boundedText message ''progress'' max_text_length of
                       Inl e \<Rightarrow> (Inl e, f1) | Inr t \<Rightarrow> (Inr (), f1\<lparr>cf_progress := Some t\<rparr>))) s"

text \<open>The result of a request is its id; the promise the caller gets is settled by \<^verbatim>\<open>respond\<close> or by the end of the flow.\<close>

definition pendingRequest ::
  "nat \<Rightarrow> string list \<Rightarrow> string \<Rightarrow> json option \<Rightarrow> json option \<Rightarrow> (string \<times> string) list option \<Rightarrow> login_flow
   \<Rightarrow> (flow_error + string) \<times> login_flow" where
  "pendingRequest now candidates kind message placeholder options f =
     (case update_flow now kind f of
        Inl e \<Rightarrow> (Inl e, f)
      | Inr f1 \<Rightarrow>
          (case createRandomId candidates (\<lambda>i. jsmap_get (cf_requests f1) i \<noteq> None) of
             Inl e \<Rightarrow> (Inl e, f1)
           | Inr i \<Rightarrow>
               (case boundedText message ''prompt'' max_text_length of
                  Inl e \<Rightarrow> (Inl e, f1)
                | Inr m \<Rightarrow>
                    (case optionalText placeholder ''placeholder'' max_text_length of
                       Inl e \<Rightarrow> (Inl e, f1)
                     | Inr p \<Rightarrow> (Inr i, f1\<lparr>cf_requests := jsmap_set i
                          \<lparr>rq_id = i, rq_kind = kind, rq_message = m, rq_placeholder = p, rq_options = options\<rparr> (cf_requests f1)\<rparr>)))))"

definition onPrompt :: "string list \<Rightarrow> nat \<Rightarrow> json option \<Rightarrow> login_flows \<Rightarrow> (flow_error + string) \<times> login_flows" where
  "onPrompt candidates r prompt s =
     with_flow r (\<lambda>f.
       case boundedText (field prompt ''message'') ''prompt'' max_text_length of
         Inl e \<Rightarrow> (Inl e, f)
       | Inr m \<Rightarrow> pendingRequest (lf_now s) candidates ''prompt'' (Some (JStr m)) (field prompt ''placeholder'') None f) s"

fun select_options :: "json list \<Rightarrow> flow_error + (string \<times> string) list" where
  "select_options [] = Inr []"
| "select_options (v # vs) =
     (case boundedText (js_get v ''id'') ''selection option ID'' short_text_length of
        Inl e \<Rightarrow> Inl e
      | Inr i \<Rightarrow>
          (case boundedText (js_get v ''label'') ''selection option label'' short_text_length of
             Inl e \<Rightarrow> Inl e
           | Inr l \<Rightarrow> (case select_options vs of Inl e \<Rightarrow> Inl e | Inr os \<Rightarrow> Inr ((i, l) # os))))"

definition onSelect :: "string list \<Rightarrow> nat \<Rightarrow> json option \<Rightarrow> login_flows \<Rightarrow> (flow_error + string) \<times> login_flows" where
  "onSelect candidates r prompt s =
     with_flow r (\<lambda>f.
       case field prompt ''options'' of
         Some (JArr vs) \<Rightarrow>
           if length vs < 1 \<or> length vs > max_options then (Inl (''oauth_invalid_callback'', ''OAuth selection options are invalid''), f)
           else (case select_options vs of
              Inl e \<Rightarrow> (Inl e, f)
            | Inr os \<Rightarrow>
                (case boundedText (field prompt ''message'') ''selection prompt'' max_text_length of
                   Inl e \<Rightarrow> (Inl e, f)
                 | Inr m \<Rightarrow> pendingRequest (lf_now s) candidates ''select'' (Some (JStr m)) None (Some os) f))
       | _ \<Rightarrow> (Inl (''oauth_invalid_callback'', ''OAuth selection options are invalid''), f)) s"

definition onManualCodeInput :: "string list \<Rightarrow> nat \<Rightarrow> login_flows \<Rightarrow> (flow_error + string) \<times> login_flows" where
  "onManualCodeInput candidates r s =
     with_flow r (pendingRequest (lf_now s) candidates ''manual_code'' (Some (JStr ''Paste the authorization code or redirect URL'')) None None) s"

section \<open>Operations of the service\<close>

definition new_login :: "nat \<Rightarrow> string \<Rightarrow> string \<Rightarrow> string \<Rightarrow> login_flow" where
  "new_login now i p h = scheduleInactivity
     \<lparr>cf_id = i, cf_provider = p, cf_harness = h, cf_status = ''pending'', cf_phase = ''starting'', cf_created = now, cf_updated = now,
      cf_requests = [], cf_aborted = False, cf_authorization = None, cf_deviceCode = None, cf_progress = None, cf_persisted = False,
      cf_harnesses = None, cf_restart = None, cf_failure = None, cf_generation = 0, cf_timer = None, cf_retained = False, cf_stage = Logging_in\<rparr>"

definition start_login ::
  "nat \<Rightarrow> string list \<Rightarrow> json option \<Rightarrow> json option \<Rightarrow> login_flows \<Rightarrow> (flow_error + login_view) \<times> login_flows" where
  "start_login maxActive candidates provider harness s =
     (case providerId provider of
        Inl e \<Rightarrow> (Inl e, s)
      | Inr p \<Rightarrow>
          (case harnessId harness of
             Inl e \<Rightarrow> (Inl e, s)
           | Inr h \<Rightarrow>
               if list_ex (\<lambda>f. cf_provider f = p \<and> cf_harness f = h) (activeFlows s)
               then (Inl (''credential_busy'', ''provider '' @ p @ '' already has an active OAuth flow for '' @ h), s)
               else if length (activeFlows s) \<ge> maxActive then (Inl (''oauth_flow_limit'', ''too many active OAuth flows''), s)
               else (case createRandomId candidates (\<lambda>i. jsmap_get (lf_registry s) i \<noteq> None) of
                  Inl e \<Rightarrow> (Inl e, s)
                | Inr i \<Rightarrow>
                    (Inr (flow_snapshot (new_login (lf_now s) i p h)),
                     s\<lparr>lf_objects := lf_objects s @ [new_login (lf_now s) i p h],
                       lf_registry := jsmap_set i (length (lf_objects s)) (lf_registry s)\<rparr>))))"

definition set_stage :: "nat \<Rightarrow> flow_stage \<Rightarrow> login_flows \<Rightarrow> login_flows" where
  "set_stage r st s = (case flow_at r s of None \<Rightarrow> s | Some f \<Rightarrow> put_flow r (f\<lparr>cf_stage := st\<rparr>) s)"

text \<open>The login ends: an error with its code, or the credential with the harnesses it names (\<^term>\<open>None\<close> if that is no array of strings).\<close>

definition login_done :: "nat \<Rightarrow> string option + string list option \<Rightarrow> login_flows \<Rightarrow> login_flows" where
  "login_done r outcome s =
     (case flow_at r s of
        None \<Rightarrow> s
      | Some f \<Rightarrow>
          if cf_stage f \<noteq> Logging_in then s
          else (case outcome of
             Inl code \<Rightarrow> finish_flow r ''failed'' (Some (safeFailureCode code)) False (set_stage r Ended s)
           | Inr named \<Rightarrow>
               if \<not> flow_active f then set_stage r Ended s
               else (let hs = (case named of None \<Rightarrow> [cf_harness f] | Some hs \<Rightarrow> fold jsset_add (filter (\<lambda>h. h \<in> set supported_harnesses) hs) []);
                         f1 = scheduleInactivity (f\<lparr>cf_persisted := True, cf_phase := ''restarting'', cf_updated := lf_now s\<rparr>)
                     in put_flow r (f1\<lparr>cf_harnesses := Some (if hs = [] then [cf_harness f] else hs), cf_stage := Restarting\<rparr>) s)))"

text \<open>The restarts end: \<^term>\<open>None\<close> if one of them rejects.\<close>

definition restart_done :: "nat \<Rightarrow> restart_report list option \<Rightarrow> login_flows \<Rightarrow> login_flows" where
  "restart_done r results s =
     (case flow_at r s of
        None \<Rightarrow> s
      | Some f \<Rightarrow>
          if cf_stage f \<noteq> Restarting then s
          else if \<not> flow_active f then set_stage r Ended s
          else (let report = (case results of
                    None \<Rightarrow> failed_restart
                  | Some rs \<Rightarrow> safeRestart \<lparr>rr_status = (if list_ex (\<lambda>v. rr_status v \<noteq> ''restarted'') rs then ''partial'' else ''restarted''),
                       rr_runnerIds = concat (map rr_runnerIds rs), rr_failed = concat (map rr_failed rs)\<rparr>)
                in finish_flow r ''succeeded'' None False (put_flow r (f\<lparr>cf_restart := Some report, cf_stage := Ended\<rparr>) s)))"

definition getStatus :: "string \<Rightarrow> login_flows \<Rightarrow> login_view option" where
  "getStatus i s = (if i = [] then None else map_option flow_snapshot (Option.bind (jsmap_get (lf_registry s) i) (\<lambda>r. flow_at r s)))"

definition respond :: "string \<Rightarrow> string \<Rightarrow> json option \<Rightarrow> login_flows \<Rightarrow> (flow_error + login_view) \<times> login_flows" where
  "respond i requestId v s =
     (case Option.bind (jsmap_get (lf_registry s) i) (\<lambda>r. map_option (Pair r) (flow_at r s)) of
        None \<Rightarrow> (Inl (''oauth_flow_not_found'', ''OAuth flow not found''), s)
      | Some (r, f) \<Rightarrow>
          if \<not> flow_active f then (Inl (''oauth_flow_not_found'', ''OAuth flow not found''), s)
          else (case jsmap_get (cf_requests f) requestId of
             None \<Rightarrow> (Inl (''oauth_response_stale'', ''OAuth response is stale or was already used''), s)
           | Some q \<Rightarrow>
               (case boundedText v ''response'' max_response_length of
                  Inl e \<Rightarrow> (Inl e, s)
                | Inr t \<Rightarrow>
                    if rq_kind q = ''select'' \<and> \<not> list_ex (\<lambda>p. fst p = t) (case rq_options q of None \<Rightarrow> [] | Some os \<Rightarrow> os)
                    then (Inl (''oauth_invalid_response'', ''OAuth selection response is invalid''), s)
                    else (let f1 = f\<lparr>cf_requests := jsmap_delete requestId (cf_requests f)\<rparr> in
                          case update_flow (lf_now s) (if cf_requests f1 = [] then ''waiting'' else ''input'') f1 of
                            Inl e \<Rightarrow> (Inl e, put_flow r f1 s)
                          | Inr f2 \<Rightarrow> (Inr (flow_snapshot f2), (put_flow r f2 s)\<lparr>lf_answers := lf_answers s @ [(r, requestId, Inr t)]\<rparr>)))))"

definition cancel_login :: "string \<Rightarrow> login_flows \<Rightarrow> (flow_error + login_view) \<times> login_flows" where
  "cancel_login i s =
     (case Option.bind (jsmap_get (lf_registry s) i) (\<lambda>r. map_option (Pair r) (flow_at r s)) of
        None \<Rightarrow> (Inl (''oauth_flow_not_found'', ''OAuth flow not found''), s)
      | Some (r, f) \<Rightarrow>
          if cf_persisted f then (Inl (''oauth_flow_inactive'', ''OAuth credential is already saved and runners are restarting''), s)
          else (let s1 = finish_flow r ''cancelled'' (Some ''oauth_cancelled'') True s
                in (case flow_at r s1 of None \<Rightarrow> Inl ([], []) | Some f1 \<Rightarrow> Inr (flow_snapshot f1), s1)))"

definition stop_flow :: "nat \<Rightarrow> login_flows \<Rightarrow> login_flows" where
  "stop_flow r s =
     (let s1 = finish_flow r ''cancelled'' (Some ''oauth_cancelled'') True s in
      case flow_at r s1 of None \<Rightarrow> s1 | Some f \<Rightarrow> put_flow r (f\<lparr>cf_timer := None, cf_retained := False\<rparr>) s1)"

definition shutdown_logins :: "login_flows \<Rightarrow> login_flows" where
  "shutdown_logins s = (fold stop_flow (jsmap_values (lf_registry s)) s)\<lparr>lf_registry := []\<rparr>"

section \<open>Steps\<close>

inductive login_step :: "nat \<Rightarrow> (string \<Rightarrow> string option) \<Rightarrow> login_flows \<Rightarrow> login_flows \<Rightarrow> bool" for maxActive protocol where
  start: "login_step maxActive protocol s (snd (start_login maxActive candidates provider harness s))"
| auth: "flow_at r s = Some f \<Longrightarrow> cf_stage f = Logging_in \<Longrightarrow> login_step maxActive protocol s (snd (onAuth protocol r info s))"
| device: "flow_at r s = Some f \<Longrightarrow> cf_stage f = Logging_in \<Longrightarrow> login_step maxActive protocol s (snd (onDeviceCode protocol r info s))"
| progress: "flow_at r s = Some f \<Longrightarrow> cf_stage f = Logging_in \<Longrightarrow> login_step maxActive protocol s (snd (onProgress r message s))"
| prompt: "flow_at r s = Some f \<Longrightarrow> cf_stage f = Logging_in \<Longrightarrow> login_step maxActive protocol s (snd (onPrompt candidates r info s))"
| select: "flow_at r s = Some f \<Longrightarrow> cf_stage f = Logging_in \<Longrightarrow> login_step maxActive protocol s (snd (onSelect candidates r info s))"
| manual: "flow_at r s = Some f \<Longrightarrow> cf_stage f = Logging_in \<Longrightarrow> login_step maxActive protocol s (snd (onManualCodeInput candidates r s))"
| logged_in: "login_step maxActive protocol s (login_done r outcome s)"
| restarted: "login_step maxActive protocol s (restart_done r results s)"
| inactive: "login_step maxActive protocol s (inactivity_fired r g s)"
| retained: "login_step maxActive protocol s (retention_fired r s)"
| answer: "login_step maxActive protocol s (snd (respond i requestId v s))"
| cancel: "login_step maxActive protocol s (snd (cancel_login i s))"
| tick: "lf_now s \<le> t \<Longrightarrow> login_step maxActive protocol s (s\<lparr>lf_now := t\<rparr>)"

end
