(* ===== verification/Credential_Flow_Properties.thy ===== *)
theory Credential_Flow_Properties
  imports Credential_Flows
begin

text \<open>
  The properties of the OAuth logins: a login that ended keeps no secret and no open question, it succeeded exactly when the
  credential was saved, a provider is logged in at most once per harness, and a login nobody continues ends by itself.
\<close>

section \<open>The invariant of a flow\<close>

definition erased :: "login_flow \<Rightarrow> bool" where
  "erased f \<longleftrightarrow> cf_requests f = [] \<and> cf_authorization f = None \<and> cf_deviceCode f = None \<and> cf_progress f = None"

definition flow_ok :: "login_flow \<Rightarrow> bool" where
  "flow_ok f \<longleftrightarrow>
     (if flow_active f
      then cf_timer f = Some (cf_generation f) \<and> \<not> cf_retained f \<and> cf_stage f = (if cf_persisted f then Restarting else Logging_in)
      else erased f \<and> cf_timer f = None \<and> (cf_status f = ''succeeded'') = cf_persisted f)"

definition same_key :: "login_flow \<Rightarrow> login_flow \<Rightarrow> bool" where
  "same_key f g \<longleftrightarrow> cf_id g = cf_id f \<and> cf_provider g = cf_provider f \<and> cf_harness g = cf_harness f"

text \<open>What an operation may make of a flow.\<close>

definition may_become :: "login_flow \<Rightarrow> login_flow \<Rightarrow> bool" where
  "may_become f g \<longleftrightarrow> same_key f g \<and> (flow_active g \<longrightarrow> flow_active f) \<and> flow_ok g"

definition active_ref :: "login_flows \<Rightarrow> nat \<Rightarrow> bool" where
  "active_ref s r \<longleftrightarrow> (case flow_at r s of None \<Rightarrow> False | Some f \<Rightarrow> flow_active f)"

definition logins_ok :: "nat \<Rightarrow> login_flows \<Rightarrow> bool" where
  "logins_ok m s \<longleftrightarrow> jsmap_ok (lf_registry s)
     \<and> (\<forall>r f. flow_at r s = Some f \<longrightarrow> flow_ok f \<and> (flow_active f \<longrightarrow> jsmap_get (lf_registry s) (cf_id f) = Some r))
     \<and> (\<forall>i r. jsmap_get (lf_registry s) i = Some r \<longrightarrow> (\<exists>f. flow_at r s = Some f \<and> cf_id f = i))
     \<and> (\<forall>r r' f f'. flow_at r s = Some f \<longrightarrow> flow_at r' s = Some f' \<longrightarrow> flow_active f \<longrightarrow> flow_active f' \<longrightarrow>
          cf_provider f = cf_provider f' \<longrightarrow> cf_harness f = cf_harness f' \<longrightarrow> r = r')
     \<and> length (filter (active_ref s) (jsmap_values (lf_registry s))) \<le> m"

lemma logins_okI:
  assumes "jsmap_ok (lf_registry s)"
    and "\<And>r f. flow_at r s = Some f \<Longrightarrow> flow_ok f"
    and "\<And>r f. flow_at r s = Some f \<Longrightarrow> flow_active f \<Longrightarrow> jsmap_get (lf_registry s) (cf_id f) = Some r"
    and "\<And>i r. jsmap_get (lf_registry s) i = Some r \<Longrightarrow> \<exists>f. flow_at r s = Some f \<and> cf_id f = i"
    and "\<And>r r' f f'. flow_at r s = Some f \<Longrightarrow> flow_at r' s = Some f' \<Longrightarrow> flow_active f \<Longrightarrow> flow_active f' \<Longrightarrow>
          cf_provider f = cf_provider f' \<Longrightarrow> cf_harness f = cf_harness f' \<Longrightarrow> r = r'"
    and "length (filter (active_ref s) (jsmap_values (lf_registry s))) \<le> m"
  shows "logins_ok m s"
  using assms unfolding logins_ok_def by blast

lemma logins_okD:
  assumes "logins_ok m s"
  shows "jsmap_ok (lf_registry s)"
    and "\<And>r f. flow_at r s = Some f \<Longrightarrow> flow_ok f"
    and "\<And>r f. flow_at r s = Some f \<Longrightarrow> flow_active f \<Longrightarrow> jsmap_get (lf_registry s) (cf_id f) = Some r"
    and "\<And>i r. jsmap_get (lf_registry s) i = Some r \<Longrightarrow> \<exists>f. flow_at r s = Some f \<and> cf_id f = i"
    and "\<And>r r' f f'. flow_at r s = Some f \<Longrightarrow> flow_at r' s = Some f' \<Longrightarrow> flow_active f \<Longrightarrow> flow_active f' \<Longrightarrow>
          cf_provider f = cf_provider f' \<Longrightarrow> cf_harness f = cf_harness f' \<Longrightarrow> r = r'"
    and "length (filter (active_ref s) (jsmap_values (lf_registry s))) \<le> m"
  using assms unfolding logins_ok_def by blast+

lemma flow_at_put [simp]: "flow_at r' (put_flow r f s) = (if r' = r \<and> flow_at r s \<noteq> None then Some f else flow_at r' s)"
  by (auto simp: flow_at_def put_flow_def)

lemma put_flow_same [simp]: "lf_registry (put_flow r f s) = lf_registry s" "lf_now (put_flow r f s) = lf_now s" "lf_answers (put_flow r f s) = lf_answers s"
  by (simp_all add: put_flow_def)

lemma flow_at_other [simp]: "flow_at r (s\<lparr>lf_registry := x\<rparr>) = flow_at r s" "flow_at r (s\<lparr>lf_now := t\<rparr>) = flow_at r s"
  "flow_at r (s\<lparr>lf_answers := a\<rparr>) = flow_at r s"
  by (simp_all add: flow_at_def)

lemma logins_ok_other [simp]: "logins_ok m (s\<lparr>lf_now := t\<rparr>) = logins_ok m s" "logins_ok m (s\<lparr>lf_answers := a\<rparr>) = logins_ok m s"
  by (simp_all add: logins_ok_def active_ref_def [abs_def])

lemma length_filter_le_imp:
  assumes "\<And>x. P x \<Longrightarrow> Q x"
  shows "length (filter P xs) \<le> length (filter Q xs)"
  using assms by (induction xs) auto

lemma put_keeps:
  assumes ok: "logins_ok m s" and f: "flow_at r s = Some f" and g: "may_become f g"
  shows "logins_ok m (put_flow r g s)"
proof (rule logins_okI)
  note g' = g [unfolded may_become_def same_key_def]
  show "jsmap_ok (lf_registry (put_flow r g s))" using logins_okD(1) [OF ok] by simp
  show "flow_ok h" if "flow_at q (put_flow r g s) = Some h" for q h
    using that g' logins_okD(2) [OF ok, of q h] by (simp split: if_splits)
  show "jsmap_get (lf_registry (put_flow r g s)) (cf_id h) = Some q" if "flow_at q (put_flow r g s) = Some h" "flow_active h" for q h
    using that g' f logins_okD(3) [OF ok, of q] by (simp split: if_splits)
  show "\<exists>h. flow_at q (put_flow r g s) = Some h \<and> cf_id h = i" if "jsmap_get (lf_registry (put_flow r g s)) i = Some q" for i q
    using logins_okD(4) [OF ok, of i q] that g' f by auto
  show "q = q'" if "flow_at q (put_flow r g s) = Some h" "flow_at q' (put_flow r g s) = Some h'" "flow_active h" "flow_active h'"
      "cf_provider h = cf_provider h'" "cf_harness h = cf_harness h'" for q q' h h'
  proof -
    have "\<exists>k. flow_at q s = Some k \<and> flow_active k \<and> cf_provider k = cf_provider h \<and> cf_harness k = cf_harness h"
      using that(1,3) g' f by (simp split: if_splits)
    moreover have "\<exists>k. flow_at q' s = Some k \<and> flow_active k \<and> cf_provider k = cf_provider h' \<and> cf_harness k = cf_harness h'"
      using that(2,4) g' f by (simp split: if_splits)
    ultimately show ?thesis using logins_okD(5) [OF ok] that(5-6) by metis
  qed
  have "active_ref s q" if "active_ref (put_flow r g s) q" for q
    using that g' f by (simp add: active_ref_def split: if_splits option.splits)
  then have "length (filter (active_ref (put_flow r g s)) (jsmap_values (lf_registry s))) \<le> length (filter (active_ref s) (jsmap_values (lf_registry s)))"
    by (rule length_filter_le_imp)
  then show "length (filter (active_ref (put_flow r g s)) (jsmap_values (lf_registry (put_flow r g s)))) \<le> m"
    using logins_okD(6) [OF ok] by simp
qed

section \<open>Every operation\<close>

named_theorems login_keep

lemma may_become_refl: "flow_ok f \<Longrightarrow> may_become f f"
  by (simp add: may_become_def same_key_def)

lemma update_flow_Inr:
  assumes "update_flow now phase f = Inr g" and "flow_ok f"
  shows "may_become f g" and "flow_active g" and "flow_ok g"
  using assms by (auto simp: update_flow_def scheduleInactivity_def may_become_def same_key_def flow_ok_def flow_active_def split: if_splits)

text \<open>Fields an operation on an active flow may set without touching the invariant.\<close>

lemma may_become_fields [simp]:
  assumes "flow_active g" and "may_become f g"
  shows "may_become f (g\<lparr>cf_authorization := a\<rparr>)" "may_become f (g\<lparr>cf_deviceCode := d\<rparr>)" "may_become f (g\<lparr>cf_progress := p\<rparr>)"
    "may_become f (g\<lparr>cf_requests := q\<rparr>)" "may_become f (g\<lparr>cf_restart := w\<rparr>)"
  using assms by (simp_all add: may_become_def same_key_def flow_ok_def flow_active_def)

lemma with_flow_keeps:
  assumes "logins_ok m s" and "\<And>f. flow_ok f \<Longrightarrow> may_become f (snd (k f))"
  shows "logins_ok m (snd (with_flow r k s))"
proof (cases "flow_at r s")
  case (Some f)
  have "may_become f (snd (k f))" by (rule assms(2)) (rule logins_okD(2) [OF assms(1) Some])
  from put_keeps [OF assms(1) Some this] Some show ?thesis by (simp add: with_flow_def case_prod_beta Let_def)
qed (simp add: with_flow_def assms)

lemma onAuth_keeps [login_keep]: "logins_ok m s \<Longrightarrow> logins_ok m (snd (onAuth protocol r info s))"
  unfolding onAuth_def
  by (erule with_flow_keeps) (auto simp: may_become_refl update_flow_Inr split: sum.split)

lemma onDeviceCode_keeps [login_keep]: "logins_ok m s \<Longrightarrow> logins_ok m (snd (onDeviceCode protocol r info s))"
  unfolding onDeviceCode_def
  by (erule with_flow_keeps) (auto simp: may_become_refl update_flow_Inr split: sum.split)

lemma onProgress_keeps [login_keep]: "logins_ok m s \<Longrightarrow> logins_ok m (snd (onProgress r message s))"
  unfolding onProgress_def
  by (erule with_flow_keeps) (auto simp: may_become_refl update_flow_Inr split: sum.split)

lemma pendingRequest_keeps: "flow_ok f \<Longrightarrow> may_become f (snd (pendingRequest now candidates kind message placeholder options f))"
  unfolding pendingRequest_def by (auto simp: may_become_refl update_flow_Inr split: sum.split)

lemma onPrompt_keeps [login_keep]: "logins_ok m s \<Longrightarrow> logins_ok m (snd (onPrompt candidates r prompt s))"
  unfolding onPrompt_def
  by (erule with_flow_keeps) (auto simp: may_become_refl pendingRequest_keeps split: sum.split)

lemma onSelect_keeps [login_keep]: "logins_ok m s \<Longrightarrow> logins_ok m (snd (onSelect candidates r prompt s))"
  unfolding onSelect_def
  by (erule with_flow_keeps) (auto simp: may_become_refl pendingRequest_keeps split: sum.split option.split json.split)

lemma onManualCodeInput_keeps [login_keep]: "logins_ok m s \<Longrightarrow> logins_ok m (snd (onManualCodeInput candidates r s))"
  unfolding onManualCodeInput_def by (erule with_flow_keeps) (rule pendingRequest_keeps)

lemma finish_keeps:
  assumes "logins_ok m s" and "status \<noteq> ''pending''" and "\<And>f. flow_at r s = Some f \<Longrightarrow> flow_active f \<Longrightarrow> (status = ''succeeded'') = cf_persisted f"
  shows "logins_ok m (finish_flow r status failure abort s)"
proof (cases "flow_at r s")
  case (Some f)
  let ?g = "finished (lf_now s) status failure abort f"
  show ?thesis
  proof (cases "flow_active f")
    case True
    have "may_become f ?g" using assms(2) assms(3) [OF Some True]
      by (simp add: may_become_def same_key_def flow_ok_def finished_def flow_active_def erased_def)
    then have "logins_ok m (put_flow r ?g (s\<lparr>lf_answers := lf_answers s @ reject_answers r f\<rparr>))"
      by (rule put_keeps [rotated 2]) (simp_all add: assms(1) Some)
    then show ?thesis using Some True by (simp add: finish_flow_def)
  qed (simp add: finish_flow_def Some assms(1))
qed (simp add: finish_flow_def assms(1))

lemma inactivity_keeps [login_keep]:
  assumes "logins_ok m s"
  shows "logins_ok m (inactivity_fired r g s)"
proof (cases "flow_at r s")
  case (Some f)
  have ok: "flow_ok f" by (rule logins_okD(2) [OF assms Some])
  show ?thesis
  proof (cases "cf_timer f = Some g \<and> flow_active f \<and> cf_persisted f")
    case True
    then have "may_become f (f\<lparr>cf_restart := Some failed_restart\<rparr>)" using ok may_become_refl by simp
    from put_keeps [OF assms Some this] have "logins_ok m (finish_flow r ''succeeded'' None False (put_flow r (f\<lparr>cf_restart := Some failed_restart\<rparr>) s))"
      by (rule finish_keeps) (use True Some in \<open>auto split: if_splits\<close>)
    then show ?thesis using Some True assms by (simp add: inactivity_fired_def)
  next
    case False
    have "logins_ok m (finish_flow r ''cancelled'' (Some ''oauth_flow_expired'') True s)" if "\<not> cf_persisted f"
      by (rule finish_keeps [OF assms]) (use that Some in auto)
    then show ?thesis using Some False assms by (auto simp: inactivity_fired_def)
  qed
qed (simp add: inactivity_fired_def assms)

lemma finish_put:
  assumes "flow_at r s = Some f" and "flow_active g"
  shows "finish_flow r status failure abort (put_flow r g s)
    = put_flow r (finished (lf_now s) status failure abort g) (s\<lparr>lf_answers := lf_answers s @ reject_answers r g\<rparr>)"
  using assms by (simp add: finish_flow_def, simp add: put_flow_def)

lemma put_finished:
  assumes "logins_ok m s" and "flow_at r s = Some f" and "same_key f g" and "status \<noteq> ''pending''" and "(status = ''succeeded'') = cf_persisted g"
    and "flow_active f" and "flow_active g"
  shows "logins_ok m (finish_flow r status failure abort (put_flow r g s))"
  unfolding finish_put [OF assms(2,7)]
  by (rule put_keeps [of _ _ _ f]) (use assms in \<open>simp_all add: may_become_def same_key_def flow_ok_def finished_def flow_active_def erased_def\<close>)

lemma set_stage_keeps: "logins_ok m s \<Longrightarrow> flow_at r s = Some f \<Longrightarrow> \<not> flow_active f \<Longrightarrow> logins_ok m (set_stage r st s)"
  using logins_okD(2) [of m s r f]
  by (simp add: set_stage_def, intro put_keeps) (simp_all add: may_become_def same_key_def flow_ok_def flow_active_def erased_def)

lemma login_done_keeps [login_keep]:
  assumes "logins_ok m s"
  shows "logins_ok m (login_done r outcome s)"
proof (cases "flow_at r s")
  case (Some f)
  have ok: "flow_ok f" by (rule logins_okD(2) [OF assms Some])
  show ?thesis
  proof (cases "cf_stage f = Logging_in \<and> flow_active f")
    case True
    then have p: "\<not> cf_persisted f" using ok by (auto simp: flow_ok_def split: if_splits)
    have "logins_ok m (finish_flow r ''failed'' (Some code) False (set_stage r Ended s))" for code
      using put_finished [OF assms Some, of "f\<lparr>cf_stage := Ended\<rparr>" "''failed''"] Some True p
      by (simp add: set_stage_def same_key_def flow_active_def)
    moreover have "logins_ok m (put_flow r ((scheduleInactivity (f\<lparr>cf_persisted := True, cf_phase := ''restarting'', cf_updated := t\<rparr>))
        \<lparr>cf_harnesses := hs, cf_stage := Restarting\<rparr>) s)" for t hs
      by (rule put_keeps [OF assms Some]) (use ok True in \<open>simp add: may_become_def same_key_def flow_ok_def scheduleInactivity_def flow_active_def\<close>)
    ultimately show ?thesis using Some True by (simp add: login_done_def Let_def split: sum.split)
  next
    case False
    have "logins_ok m (finish_flow r ''failed'' (Some code) False (set_stage r Ended s))" if "\<not> flow_active f" for code
    proof -
      have "finish_flow r ''failed'' (Some code) False (set_stage r Ended s) = set_stage r Ended s"
        using Some that by (simp add: finish_flow_def set_stage_def flow_active_def)
      then show ?thesis using set_stage_keeps [OF assms Some that] by simp
    qed
    then show ?thesis using Some False assms set_stage_keeps [OF assms Some]
      by (auto simp: login_done_def Let_def split: sum.split)
  qed
qed (simp add: login_done_def assms)

lemma restart_done_keeps [login_keep]:
  assumes "logins_ok m s"
  shows "logins_ok m (restart_done r results s)"
proof (cases "flow_at r s")
  case (Some f)
  have ok: "flow_ok f" by (rule logins_okD(2) [OF assms Some])
  show ?thesis
  proof (cases "cf_stage f = Restarting \<and> flow_active f")
    case True
    then have p: "cf_persisted f" using ok by (auto simp: flow_ok_def split: if_splits)
    have "logins_ok m (finish_flow r ''succeeded'' None False (put_flow r (f\<lparr>cf_restart := w, cf_stage := Ended\<rparr>) s))" for w
      by (rule put_finished [OF assms Some]) (use True p in \<open>simp_all add: same_key_def flow_active_def\<close>)
    then show ?thesis using Some True by (simp add: restart_done_def Let_def)
  next
    case False
    then show ?thesis using Some assms set_stage_keeps [OF assms Some] by (auto simp: restart_done_def)
  qed
qed (simp add: restart_done_def assms)

lemma respond_keeps [login_keep]:
  assumes "logins_ok m s"
  shows "logins_ok m (snd (respond i requestId v s))"
proof -
  have "logins_ok m ((put_flow r g s)\<lparr>lf_answers := a\<rparr>)"
    if f: "flow_at r s = Some f" and u: "update_flow t ph (f\<lparr>cf_requests := qs\<rparr>) = Inr g" for r f g t ph qs a
  proof -
    have act: "flow_active f" using u by (auto simp: update_flow_def flow_active_def split: if_splits)
    have ok: "flow_ok f" by (rule logins_okD(2) [OF assms f])
    have "flow_ok (f\<lparr>cf_requests := qs\<rparr>)" using may_become_fields(4) [OF act may_become_refl [OF ok]] by (simp add: may_become_def)
    from update_flow_Inr [OF u this] have "may_become f g" using act by (simp add: may_become_def same_key_def)
    from put_keeps [OF assms f this] show ?thesis by simp
  qed
  moreover have "update_flow t ph (f\<lparr>cf_requests := qs\<rparr>) \<noteq> Inl e" if "flow_active f" for t ph f qs e
    using that by (simp add: update_flow_def flow_active_def)
  ultimately show ?thesis using assms
    by (auto simp: respond_def Let_def bind_eq_Some_conv split: option.split sum.split)
qed

lemma cancel_keeps [login_keep]:
  assumes "logins_ok m s"
  shows "logins_ok m (snd (cancel_login i s))"
proof -
  have "logins_ok m (finish_flow r ''cancelled'' (Some ''oauth_cancelled'') True s)" if "flow_at r s = Some f" "\<not> cf_persisted f" for r f
    by (rule finish_keeps [OF assms]) (use that in auto)
  then show ?thesis using assms by (auto simp: cancel_login_def Let_def bind_eq_Some_conv split: option.split)
qed

lemma drop_keeps:
  assumes ok: "logins_ok m s" and r: "jsmap_get (lf_registry s) i = Some r" and f: "flow_at r s = Some f" and dead: "\<not> flow_active f"
  shows "logins_ok m (s\<lparr>lf_registry := jsmap_delete i (lf_registry s)\<rparr>)"
proof (rule logins_okI)
  show "jsmap_ok (lf_registry (s\<lparr>lf_registry := jsmap_delete i (lf_registry s)\<rparr>))" using logins_okD(1) [OF ok] by auto
  show "flow_ok h" if "flow_at q (s\<lparr>lf_registry := jsmap_delete i (lf_registry s)\<rparr>) = Some h" for q h
    using that logins_okD(2) [OF ok, of q h] by simp
  show "jsmap_get (lf_registry (s\<lparr>lf_registry := jsmap_delete i (lf_registry s)\<rparr>)) (cf_id h) = Some q"
    if "flow_at q (s\<lparr>lf_registry := jsmap_delete i (lf_registry s)\<rparr>) = Some h" "flow_active h" for q h
    using that logins_okD(3) [OF ok, of q h] r f dead by auto
  show "\<exists>h. flow_at q (s\<lparr>lf_registry := jsmap_delete i (lf_registry s)\<rparr>) = Some h \<and> cf_id h = k"
    if "jsmap_get (lf_registry (s\<lparr>lf_registry := jsmap_delete i (lf_registry s)\<rparr>)) k = Some q" for k q
    using that logins_okD(4) [OF ok, of k q] by (simp split: if_splits)
  show "q = q'" if "flow_at q (s\<lparr>lf_registry := jsmap_delete i (lf_registry s)\<rparr>) = Some h" "flow_at q' (s\<lparr>lf_registry := jsmap_delete i (lf_registry s)\<rparr>) = Some h'"
      "flow_active h" "flow_active h'" "cf_provider h = cf_provider h'" "cf_harness h = cf_harness h'" for q q' h h'
    by (rule logins_okD(5) [OF ok _ _ that(3-6)]) (use that in simp_all)
  have "length (filter P (map snd (filter Q xs))) \<le> length (filter P (map snd xs))" for P :: "nat \<Rightarrow> bool" and Q and xs :: "(string \<times> nat) list"
    by (induction xs) auto
  then show "length (filter (active_ref (s\<lparr>lf_registry := jsmap_delete i (lf_registry s)\<rparr>))
      (jsmap_values (lf_registry (s\<lparr>lf_registry := jsmap_delete i (lf_registry s)\<rparr>)))) \<le> m"
    using logins_okD(6) [OF ok] by (simp add: jsmap_delete_def active_ref_def [abs_def]) (meson order_trans)
qed

lemma retention_keeps [login_keep]:
  assumes "logins_ok m s"
  shows "logins_ok m (retention_fired r s)"
proof (cases "flow_at r s")
  case (Some f)
  have ok: "flow_ok f" by (rule logins_okD(2) [OF assms Some])
  show ?thesis
  proof (cases "cf_retained f")
    case True
    then have dead: "\<not> flow_active f" using ok by (auto simp: flow_ok_def split: if_splits)
    have "may_become f (f\<lparr>cf_retained := False\<rparr>)" using ok dead by (simp add: may_become_def same_key_def flow_ok_def flow_active_def erased_def)
    note put = put_keeps [OF assms Some this]
    have "logins_ok m ((put_flow r (f\<lparr>cf_retained := False\<rparr>) s)\<lparr>lf_registry := jsmap_delete (cf_id f) (lf_registry s)\<rparr>)"
      if "jsmap_get (lf_registry s) (cf_id f) = Some r"
      using drop_keeps [OF put, of "cf_id f" r "f\<lparr>cf_retained := False\<rparr>"] that Some dead by (simp add: flow_active_def)
    with put show ?thesis using Some True by (simp add: retention_fired_def Let_def)
  qed (simp add: retention_fired_def Some assms)
qed (simp add: retention_fired_def assms)

lemma activeFlows_map: "activeFlows s = map (\<lambda>r. the (flow_at r s)) (filter (active_ref s) (jsmap_values (lf_registry s)))"
proof -
  have "filter flow_active (List.map_filter (\<lambda>r. flow_at r s) rs) = map (\<lambda>r. the (flow_at r s)) (filter (active_ref s) rs)" for rs
    by (induction rs) (auto simp: List.map_filter_simps active_ref_def split: option.split)
  then show ?thesis by (simp add: activeFlows_def)
qed

lemma activeFlows_length: "length (activeFlows s) = length (filter (active_ref s) (jsmap_values (lf_registry s)))"
  by (simp add: activeFlows_map)

lemma activeFlows_iff:
  assumes "logins_ok m s"
  shows "f \<in> set (activeFlows s) \<longleftrightarrow> flow_active f \<and> (\<exists>r. flow_at r s = Some f)"
proof -
  have "\<exists>i. (i, r) \<in> set (lf_registry s)" if "flow_at r s = Some f" "flow_active f" for r
    using logins_okD(3) [OF assms that] map_of_SomeD by fast
  then show ?thesis by (force simp: activeFlows_def map_filter_def)
qed

lemma values_of_set:
  assumes "jsmap_get m i = None"
  shows "jsmap_values (jsmap_set i v m) = jsmap_values m @ [v]"
  using assms by (induction m) (auto split: if_splits)

lemma start_keeps_new:
  assumes ok: "logins_ok m s" and new: "jsmap_get (lf_registry s) (cf_id f) = None" and f: "flow_active f" "flow_ok f"
    and few: "length (activeFlows s) < m"
    and alone: "\<And>g. g \<in> set (activeFlows s) \<Longrightarrow> cf_provider g = cf_provider f \<Longrightarrow> cf_harness g = cf_harness f \<Longrightarrow> False"
  shows "logins_ok m (s\<lparr>lf_objects := lf_objects s @ [f], lf_registry := jsmap_set (cf_id f) (length (lf_objects s)) (lf_registry s)\<rparr>)" (is "logins_ok m ?s")
proof (rule logins_okI)
  have at: "flow_at q ?s = (if q = length (lf_objects s) then Some f else flow_at q s)" for q
    by (simp add: flow_at_def nth_append)
  have reg: "lf_registry ?s = jsmap_set (cf_id f) (length (lf_objects s)) (lf_registry s)" by simp
  have old: "q < length (lf_objects s)" if "flow_at q s = Some h" for q h using that by (simp add: flow_at_def split: if_splits)
  show "jsmap_ok (lf_registry ?s)" using logins_okD(1) [OF ok] by auto
  show "flow_ok h" if "flow_at q ?s = Some h" for q h
    using that f logins_okD(2) [OF ok, of q h] by (simp only: at split: if_splits) auto
  show "jsmap_get (lf_registry ?s) (cf_id h) = Some q" if "flow_at q ?s = Some h" "flow_active h" for q h
    using that new logins_okD(3) [OF ok, of q h] by (simp only: at reg split: if_splits) auto
  show "\<exists>h. flow_at q ?s = Some h \<and> cf_id h = k" if kq: "jsmap_get (lf_registry ?s) k = Some q" for k q
  proof (cases "cf_id f = k")
    case True
    with kq show ?thesis unfolding at by simp
  next
    case False
    then obtain h where h: "flow_at q s = Some h" "cf_id h = k" using kq logins_okD(4) [OF ok, of k q] by auto
    with old [OF h(1)] show ?thesis unfolding at by simp
  qed
  have busy: "h \<in> set (activeFlows s)" if "flow_at q s = Some h" "flow_active h" for q h using that activeFlows_iff [OF ok] by auto
  show "q = q'" if qq: "flow_at q ?s = Some h" "flow_at q' ?s = Some h'" "flow_active h" "flow_active h'"
      "cf_provider h = cf_provider h'" "cf_harness h = cf_harness h'" for q q' h h'
  proof -
    have "q = length (lf_objects s) \<and> h = f \<or> flow_at q s = Some h" using qq(1) unfolding at by (simp split: if_splits)
    moreover have "q' = length (lf_objects s) \<and> h' = f \<or> flow_at q' s = Some h'" using qq(2) unfolding at by (simp split: if_splits)
    ultimately consider "q = length (lf_objects s)" "q' = length (lf_objects s)" | "h = f" "flow_at q' s = Some h'" | "h' = f" "flow_at q s = Some h"
      | "flow_at q s = Some h" "flow_at q' s = Some h'"
      by blast
    then show ?thesis
    proof cases
      case 2 with busy [OF _ qq(4)] alone [of h'] qq(5-6) show ?thesis by simp
    next
      case 3 with busy [OF _ qq(3)] alone [of h] qq(5-6) show ?thesis by simp
    next
      case 4 then show ?thesis by (rule logins_okD(5) [OF ok _ _ qq(3-6)])
    qed simp
  qed
  have "r \<in> set (jsmap_values (lf_registry s)) \<Longrightarrow> r < length (lf_objects s)" for r
    using logins_okD(1,4) [OF ok] old by (fastforce simp: jsmap_ok_def)
  then have "filter (active_ref ?s) (jsmap_values (lf_registry s)) = filter (active_ref s) (jsmap_values (lf_registry s))"
    by (intro filter_cong) (auto simp only: active_ref_def at split: if_splits)
  then show "length (filter (active_ref ?s) (jsmap_values (lf_registry ?s))) \<le> m"
    using few unfolding activeFlows_length reg values_of_set [OF new] by simp
qed

lemma createRandomId_fresh: "createRandomId candidates used = Inr i \<Longrightarrow> \<not> used i"
  by (auto simp: createRandomId_def find_Some_iff split: option.splits)

lemma start_keeps [login_keep]:
  assumes "logins_ok m s"
  shows "logins_ok m (snd (start_login m candidates provider harness s))"
proof (cases "start_login m candidates provider harness s")
  case (Pair result s')
  show ?thesis
  proof (cases result)
    case (Inl e)
    then have "s' = s" using Pair by (auto simp: start_login_def Let_def split: sum.splits if_splits)
    then show ?thesis using Pair assms by simp
  next
    case (Inr v)
    then obtain p h i where f: "s' = s\<lparr>lf_objects := lf_objects s @ [new_login (lf_now s) i p h],
        lf_registry := jsmap_set i (length (lf_objects s)) (lf_registry s)\<rparr>" "createRandomId candidates (\<lambda>i. jsmap_get (lf_registry s) i \<noteq> None) = Inr i"
      "\<not> list_ex (\<lambda>g. cf_provider g = p \<and> cf_harness g = h) (activeFlows s)" "length (activeFlows s) < m"
      using Pair by (simp add: start_login_def split: sum.splits if_splits) auto
    have key: "cf_id (new_login t i p h) = i" "cf_provider (new_login t i p h) = p" "cf_harness (new_login t i p h) = h" for t
      by (simp_all add: new_login_def scheduleInactivity_def)
    have "logins_ok m (s\<lparr>lf_objects := lf_objects s @ [new_login (lf_now s) i p h],
        lf_registry := jsmap_set (cf_id (new_login (lf_now s) i p h)) (length (lf_objects s)) (lf_registry s)\<rparr>)"
    proof (rule start_keeps_new [OF assms])
      show "jsmap_get (lf_registry s) (cf_id (new_login (lf_now s) i p h)) = None" using createRandomId_fresh [OF f(2)] by (simp add: key)
      show "flow_active (new_login (lf_now s) i p h)" "flow_ok (new_login (lf_now s) i p h)"
        by (simp_all add: new_login_def scheduleInactivity_def flow_active_def flow_ok_def)
    qed (use f(3-4) in \<open>auto simp: key list_ex_iff\<close>)
    then show ?thesis using Pair f(1) by (simp add: key)
  qed
qed

lemma step_keeps: "login_step m protocol s s' \<Longrightarrow> logins_ok m s \<Longrightarrow> logins_ok m s'"
  by (induction rule: login_step.induct) (simp_all add: login_keep)

lemma reachable_logins: "(login_step m protocol)\<^sup>*\<^sup>* s0 s \<Longrightarrow> logins_ok m s0 \<Longrightarrow> logins_ok m s"
  by (induction rule: rtranclp_induct) (auto intro: step_keeps)

lemma empty_logins: "lf_objects s = [] \<Longrightarrow> lf_registry s = [] \<Longrightarrow> logins_ok m s"
  by (simp add: logins_ok_def flow_at_def)

section \<open>Properties\<close>

definition no_logins :: login_flows where
  "no_logins = \<lparr>lf_objects = [], lf_registry = [], lf_now = 0, lf_answers = []\<rparr>"

definition example_id :: string where
  "example_id = replicate 64 (CHR ''a'')"

definition one_login :: login_flows where
  "one_login = snd (start_login 4 [example_id] (Some (JStr ''anthropic'')) None no_logins)"

definition no_protocol :: "string \<Rightarrow> string option" where
  "no_protocol t = None"

lemma no_logins_empty: "lf_objects no_logins = []" "lf_registry no_logins = []"
  by (simp_all add: no_logins_def)

lemma one_login_reached: "(login_step 4 no_protocol)\<^sup>*\<^sup>* no_logins one_login"
  unfolding one_login_def by (rule r_into_rtranclp) (rule login_step.start)

lemma one_login_pending: "flow_at 0 one_login = Some (new_login 0 example_id ''anthropic'' ''pi'')"
  by code_simp



text \<open>
  C27: In every state the service reaches, at most the configured number of logins is pending, and no two pending ones
  have the same provider and harness.
\<close>

theorem pending_logins_limited:
  assumes "(login_step m protocol)\<^sup>*\<^sup>* s0 s" and "lf_objects s0 = []" and "lf_registry s0 = []"
  shows "length (activeFlows s) \<le> m \<and> distinct (map (\<lambda>f. (cf_provider f, cf_harness f)) (activeFlows s))"
proof
  have ok: "logins_ok m s" by (rule reachable_logins [OF assms(1)]) (rule empty_logins [OF assms(2-3)])
  then show "length (activeFlows s) \<le> m" unfolding activeFlows_length by (rule logins_okD(6))
  define rs where "rs = filter (active_ref s) (jsmap_values (lf_registry s))"
  have rs: "\<exists>f. flow_at r s = Some f \<and> flow_active f" if "r \<in> set rs" for r
    using that by (auto simp: rs_def active_ref_def split: option.splits)
  have "distinct (jsmap_values (lf_registry s))"
  proof -
    have "inj_on snd (set (lf_registry s))"
    proof (rule inj_onI)
      fix x y assume x: "x \<in> set (lf_registry s)" and y: "y \<in> set (lf_registry s)" and eq: "snd x = snd y"
      have "jsmap_get (lf_registry s) (fst z) = Some (snd z)" if "z \<in> set (lf_registry s)" for z
        using that logins_okD(1) [OF ok] by (simp add: jsmap_ok_def)
      from logins_okD(4) [OF ok this [OF x]] logins_okD(4) [OF ok this [OF y]] eq show "x = y" by (auto simp: prod_eq_iff)
    qed
    moreover have "distinct (lf_registry s)" using logins_okD(1) [OF ok] by (simp add: jsmap_ok_def distinct_map)
    ultimately show ?thesis by (simp add: distinct_map)
  qed
  then have dist: "distinct rs" by (simp add: rs_def)
  have "activeFlows s = map (\<lambda>r. the (flow_at r s)) rs" unfolding rs_def by (rule activeFlows_map)
  moreover have "inj_on (\<lambda>r. (cf_provider (the (flow_at r s)), cf_harness (the (flow_at r s)))) (set rs)"
  proof (rule inj_onI)
    fix r r' assume r: "r \<in> set rs" "r' \<in> set rs"
      and eq: "(cf_provider (the (flow_at r s)), cf_harness (the (flow_at r s))) = (cf_provider (the (flow_at r' s)), cf_harness (the (flow_at r' s)))"
    obtain f f' where f: "flow_at r s = Some f" "flow_active f" and f': "flow_at r' s = Some f'" "flow_active f'" using rs [OF r(1)] rs [OF r(2)] by auto
    show "r = r'" by (rule logins_okD(5) [OF ok f(1) f'(1) f(2) f'(2)]) (use eq f(1) f'(1) in simp_all)
  qed
  ultimately show "distinct (map (\<lambda>f. (cf_provider f, cf_harness f)) (activeFlows s))" using dist by (simp add: distinct_map o_def)
qed

lemma pending_logins_limited_witness:
  "length (activeFlows one_login) \<le> 4 \<and> distinct (map (\<lambda>f. (cf_provider f, cf_harness f)) (activeFlows one_login))"
  by (rule pending_logins_limited [OF one_login_reached no_logins_empty])

text \<open>
  A pending login always has its inactivity timer armed, and when that timer fires the login ends: as cancelled and
  aborted with the code of an expiry, or, when its credential was saved, as succeeded with a failed restart.
\<close>

theorem inactive_login_ends:
  assumes "(login_step m protocol)\<^sup>*\<^sup>* s0 s" and "lf_objects s0 = []" and "lf_registry s0 = []"
    and "flow_at r s = Some f" and "cf_status f = ''pending''"
  shows "\<exists>g. cf_timer f = Some g \<and> (\<exists>f'. flow_at r (inactivity_fired r g s) = Some f'
    \<and> (if cf_persisted f then cf_status f' = ''succeeded'' \<and> cf_restart f' = Some failed_restart
        else cf_status f' = ''cancelled'' \<and> cf_failure f' = Some ''oauth_flow_expired'' \<and> cf_aborted f'))"
proof -
  have "logins_ok m s" by (rule reachable_logins [OF assms(1)]) (rule empty_logins [OF assms(2-3)])
  from logins_okD(2) [OF this assms(4)] assms(5) have "cf_timer f = Some (cf_generation f)" by (simp add: flow_ok_def flow_active_def)
  then show ?thesis using assms(4-5)
    by (intro exI [of _ "cf_generation f"]) (simp add: inactivity_fired_def flow_active_def finish_flow_def finished_def)
qed

lemma inactive_login_ends_witness:
  "\<exists>g f'. flow_at 0 (inactivity_fired 0 g one_login) = Some f' \<and> cf_status f' = ''cancelled'' \<and> cf_failure f' = Some ''oauth_flow_expired''"
proof -
  have "cf_status (new_login 0 example_id ''anthropic'' ''pi'') = ''pending''" "\<not> cf_persisted (new_login 0 example_id ''anthropic'' ''pi'')"
    by (simp_all add: new_login_def scheduleInactivity_def)
  with inactive_login_ends [OF one_login_reached no_logins_empty one_login_pending] show ?thesis by auto
qed

end
