(* ===== verification/Request_Context.thy ===== *)
theory Request_Context
  imports Session_References
begin

text \<open>
  \<^verbatim>\<open>server/http/createRequestContext.mjs\<close> and the dispatch of \<^verbatim>\<open>server/app.mjs\<close>: the credential check with its throttle,
  the confinement of paths, the reading of a body, and which route a request reaches.  Header values
  are single strings; a request is handled at one time, although the code reads the clock twice.  \<^verbatim>\<open>realpath\<close> is a parameter, with the
  error code where it throws.
\<close>

section \<open>Constants\<close>

definition auth_fail_window_ms :: int where "auth_fail_window_ms = 10 * 60 * 1000"
definition auth_fail_max :: nat where "auth_fail_max = 20"
definition auth_fail_max_clients :: nat where "auth_fail_max_clients = 10000"
definition default_body_limit :: nat where "default_body_limit = 5 * 1024 * 1024"

section \<open>Requests\<close>

record auth_request =
  ar_method :: string
  ar_path :: string
  ar_token :: "string option"
  ar_headers :: "(string, string) jsmap"
  ar_remote :: "string option"

record auth_config =
  ac_token :: string
  ac_unauthenticated :: bool

definition header :: "auth_request \<Rightarrow> string \<Rightarrow> string option" where
  "header r k = jsmap_get (ar_headers r) k"

definition or_empty :: "string option \<Rightarrow> string" where
  "or_empty v = (case v of Some t \<Rightarrow> t | None \<Rightarrow> [])"

definition clientIp :: "auth_request \<Rightarrow> string" where
  "clientIp r =
     (let forwarded = js_trim (hd (js_split (CHR '','') (or_empty (header r ''x-forwarded-for'')))) in
      if or_empty (header r ''cf-connecting-ip'') \<noteq> [] then or_empty (header r ''cf-connecting-ip'')
      else if forwarded \<noteq> [] then forwarded
      else if or_empty (ar_remote r) \<noteq> [] then or_empty (ar_remote r) else ''?'')"

text \<open>
  \<^verbatim>\<open>decodeURIComponent\<close>, \<^term>\<open>None\<close> where it throws; a value outside the strings of the model counts as malformed.
\<close>

fun percent_bytes :: "string \<Rightarrow> nat list option" where
  "percent_bytes [] = Some []"
| "percent_bytes (c # cs) =
     (if c = CHR ''%'' then
        (case cs of
           a # b # rest \<Rightarrow>
             (case (hex_value a, hex_value b) of
                (Some x, Some y) \<Rightarrow> map_option (\<lambda>bs. (16 * x + y) # bs) (percent_bytes rest)
              | _ \<Rightarrow> None)
         | _ \<Rightarrow> None)
      else map_option (\<lambda>bs. utf8_encode [c] @ bs) (percent_bytes cs))"

definition decodeURIComponent :: "string \<Rightarrow> string option" where
  "decodeURIComponent t = Option.bind (percent_bytes t) utf8_decode"

definition cookie_part :: "string \<Rightarrow> (string, string) jsmap \<Rightarrow> (string, string) jsmap" where
  "cookie_part part cookies =
     (case js_index_of part ''='' 0 of
        None \<Rightarrow> cookies
      | Some separator \<Rightarrow>
          if separator = 0 then cookies
          else (case decodeURIComponent (js_trim (drop (separator + 1) part)) of
                  None \<Rightarrow> cookies | Some v \<Rightarrow> jsmap_set (js_trim (take separator part)) v cookies))"

definition parseCookies :: "auth_request \<Rightarrow> (string, string) jsmap" where
  "parseCookies r = fold cookie_part (js_split (CHR '';'') (or_empty (header r ''cookie''))) []"

text \<open>The candidates in the order query, bearer, x-auth-token, x-api-key, cookie.\<close>

definition authCandidates :: "auth_request \<Rightarrow> string option list" where
  "authCandidates r =
     [ar_token r,
      map_option (\<lambda>b. if js_starts_with b ''Bearer '' then drop 7 b else b) (header r ''authorization''),
      header r ''x-auth-token'', header r ''x-api-key'', jsmap_get (parseCookies r) ''oyster_token'']"

definition tokenMatches :: "auth_config \<Rightarrow> string option \<Rightarrow> bool" where
  "tokenMatches c provided \<longleftrightarrow> or_empty provided \<noteq> [] \<and> utf8_encode (js_trim (or_empty provided)) = utf8_encode (ac_token c)"

section \<open>The throttle\<close>

type_synonym auth_fails = "(string, int list) jsmap"

definition recently :: "int \<Rightarrow> int \<Rightarrow> bool" where
  "recently now time \<longleftrightarrow> now - time < auth_fail_window_ms"

definition recentAuthFailures :: "string \<Rightarrow> int \<Rightarrow> auth_fails \<Rightarrow> int list \<times> auth_fails" where
  "recentAuthFailures ip now s =
     (let recent = filter (recently now) (case jsmap_get s ip of Some ts \<Rightarrow> ts | None \<Rightarrow> [])
      in (recent, if recent \<noteq> [] then jsmap_set ip recent s else jsmap_delete ip s))"

definition evict_oldest :: "string \<Rightarrow> auth_fails \<Rightarrow> auth_fails" where
  "evict_oldest ip s =
     (if jsmap_get s ip = None \<and> length s \<ge> auth_fail_max_clients
      then jsmap_delete (hd (jsmap_keys s)) s else s)"

definition recordAuthFailure :: "string \<Rightarrow> int \<Rightarrow> auth_fails \<Rightarrow> auth_fails" where
  "recordAuthFailure ip now s =
     (let (recent, s1) = recentAuthFailures ip now s in jsmap_set ip (recent @ [now]) (evict_oldest ip s1))"

datatype auth_result = Auth_ok | Auth_throttled | Auth_fail

definition checkAuth :: "auth_config \<Rightarrow> int \<Rightarrow> auth_request \<Rightarrow> auth_fails \<Rightarrow> auth_result \<times> auth_fails" where
  "checkAuth c now r s =
     (if ac_unauthenticated c then (Auth_ok, s)
      else (let ip = clientIp r; (recent, s1) = recentAuthFailures ip now s in
            if length recent \<ge> auth_fail_max then (Auth_throttled, s1)
            else (let candidates = (if ar_method r \<noteq> ''GET'' then None # tl (authCandidates r) else authCandidates r) in
                  if list_ex (tokenMatches c) candidates then (Auth_ok, jsmap_delete ip s1)
                  else (Auth_fail, recordAuthFailure ip now s1))))"

text \<open>Requests one after another.\<close>

fun auth_run :: "auth_config \<Rightarrow> (int \<times> auth_request) list \<Rightarrow> auth_fails \<Rightarrow> auth_result list \<times> auth_fails" where
  "auth_run c [] s = ([], s)"
| "auth_run c ((t, r) # xs) s = (let (res, s1) = checkAuth c t r s; (rest, s2) = auth_run c xs s1 in (res # rest, s2))"

section \<open>Paths\<close>

definition isWithin :: "string \<Rightarrow> string \<Rightarrow> bool" where
  "isWithin path root =
     (let relationship = path_relative root path
      in relationship = [] \<or> (\<not> is_absolute relationship \<and> relationship \<noteq> ''..'' \<and> \<not> js_starts_with relationship ''../''))"

text \<open>\<^verbatim>\<open>canonicalPath\<close> walks up from the resolved path, given by its segments from the last to the first.\<close>

fun canonical_from :: "(string \<Rightarrow> string + string) \<Rightarrow> string list \<Rightarrow> string list \<Rightarrow> string option" where
  "canonical_from real [] missing =
     (case real ''/'' of Inr p \<Rightarrow> Some (path_of_segments (path_segments p @ missing)) | Inl _ \<Rightarrow> None)"
| "canonical_from real (seg # up) missing =
     (case real (path_of_segments (rev (seg # up))) of
        Inr p \<Rightarrow> Some (path_of_segments (path_segments p @ missing))
      | Inl code \<Rightarrow> if code \<noteq> ''ENOENT'' \<and> code \<noteq> ''ENOTDIR'' then None else canonical_from real up (seg # missing))"

definition canonicalPath :: "(string \<Rightarrow> string + string) \<Rightarrow> string \<Rightarrow> string \<Rightarrow> string option" where
  "canonicalPath real cwd path = canonical_from real (rev (path_segments (path_resolve cwd path))) []"

record path_config =
  pc_home :: string
  pc_piDir :: string
  pc_dirname :: string

definition path_roots :: "(string \<Rightarrow> string + string) \<Rightarrow> string \<Rightarrow> path_config \<Rightarrow> string list" where
  "path_roots real cwd c = List.map_filter (canonicalPath real cwd) [pc_home c, ''/tmp'', pc_piDir c]"

definition denied_paths :: "(string \<Rightarrow> string + string) \<Rightarrow> string \<Rightarrow> path_config \<Rightarrow> string list" where
  "denied_paths real cwd c = List.map_filter (canonicalPath real cwd)
     (map (\<lambda>name. pc_home c @ ''/'' @ name) [''.ssh'', ''.gnupg'', ''.aws'', ''.netrc'', ''.git-credentials'', ''.config/gh'']
        @ [pc_dirname c @ ''/.ui-token''])"

text \<open>The roots and the denied paths are resolved once, when the context is made.\<close>

definition resolveSafePath :: "(string \<Rightarrow> string + string) \<Rightarrow> string \<Rightarrow> string list \<Rightarrow> string list \<Rightarrow> string \<Rightarrow> string option" where
  "resolveSafePath real cwd roots denied path =
     (case canonicalPath real cwd path of
        None \<Rightarrow> None
      | Some p \<Rightarrow> if \<not> list_ex (isWithin p) roots then None else if list_ex (isWithin p) denied then None else Some p)"

section \<open>Bodies\<close>

datatype body_event = Chunk "nat list" | Body_end | Body_error string | Body_aborted

text \<open>The promise after the events that arrive: pending, or settled by the first that settles it.\<close>

fun collectBody :: "nat \<Rightarrow> nat list \<Rightarrow> body_event list \<Rightarrow> (string + nat list) option" where
  "collectBody limit body [] = None"
| "collectBody limit body (Chunk bytes # es) =
     (if length body + length bytes > limit then Some (Inl ''body too large'') else collectBody limit (body @ bytes) es)"
| "collectBody limit body (Body_end # es) = Some (Inr body)"
| "collectBody limit body (Body_error err # es) = Some (Inl err)"
| "collectBody limit body (Body_aborted # es) = Some (Inl ''request aborted'')"

text \<open>\<^verbatim>\<open>readJsonBody\<close>: the parsed body, or the status of the response it sends instead.\<close>

definition readJsonBody :: "body_event list \<Rightarrow> (int + json) option" where
  "readJsonBody es =
     map_option (\<lambda>result.
       case result of
         Inl err \<Rightarrow> Inl (if err = ''body too large'' then 413 else 400)
       | Inr bytes \<Rightarrow> (case Option.bind (utf8_decode bytes) json_parse of None \<Rightarrow> Inl 400 | Some v \<Rightarrow> Inr v))
       (collectBody default_body_limit [] es)"

section \<open>Dispatch\<close>

text \<open>
  \<^verbatim>\<open>handleRequest\<close>: \<open>routes\<close> are the keys of the route table, method and path; \<open>static\<close> says whether the static fallback serves
  the request.  The result is what handles the request.
\<close>

datatype served = Static | Open_route string | Privileged string | Status int

definition handleRequest ::
  "auth_config \<Rightarrow> string list \<Rightarrow> string list \<Rightarrow> (auth_request \<Rightarrow> bool) \<Rightarrow> int \<Rightarrow> auth_request \<Rightarrow> auth_fails \<Rightarrow> served \<times> auth_fails" where
  "handleRequest c openRoutes routes static now r s =
     (let key = ar_method r @ '' '' @ ar_path r in
      if (ar_method r @ '' /*'') \<in> set routes \<and> static r then (Static, s)
      else if key \<in> set openRoutes \<and> key \<in> set routes then (Open_route key, s)
      else (let (auth, s1) = checkAuth c now r s in
            case auth of
              Auth_throttled \<Rightarrow> (Status 429, s1)
            | Auth_fail \<Rightarrow> (Status 401, s1)
            | Auth_ok \<Rightarrow>
                (if key \<in> set routes then Privileged key
                 else if list_ex (\<lambda>k. drop 1 (dropWhile (\<lambda>c. c \<noteq> CHR '' '') k) = ar_path r) routes then Status 405 else Status 404, s1)))"

end
