(* ===== verification/Server_Settings.thy ===== *)
theory Server_Settings
  imports Session_References
begin

text \<open>
  \<^verbatim>\<open>server/persistence/appSettings.mjs\<close> over the settings repository of \<^verbatim>\<open>appStore.mjs\<close>: the general settings of the server, from which
  secrets are kept out by the names of keys, at any depth of a value.  Errors are their messages.
\<close>

section \<open>Keys\<close>

definition lower_or_digit :: "char \<Rightarrow> bool" where
  "lower_or_digit c \<longleftrightarrow> is_digit c \<or> (97 \<le> (of_char c :: nat) \<and> (of_char c :: nat) \<le> 122)"

definition upper_letter :: "char \<Rightarrow> bool" where
  "upper_letter c \<longleftrightarrow> 65 \<le> (of_char c :: nat) \<and> (of_char c :: nat) \<le> 90"

text \<open>An underscore between a small letter or digit and a capital; then one for each run of other characters.\<close>

fun split_camel :: "string \<Rightarrow> string" where
  "split_camel (c # d # cs) = (if lower_or_digit c \<and> upper_letter d then c # CHR ''_'' # split_camel (d # cs) else c # split_camel (d # cs))"
| "split_camel cs = cs"

fun squeeze_others :: "bool \<Rightarrow> string \<Rightarrow> string" where
  "squeeze_others inside [] = []"
| "squeeze_others inside (c # cs) =
     (if lower_or_digit c \<or> upper_letter c then c # squeeze_others False cs
      else if inside then squeeze_others True cs else CHR ''_'' # squeeze_others True cs)"

definition normalizeSettingKey :: "string \<Rightarrow> string" where
  "normalizeSettingKey key = js_lower (squeeze_others False (split_camel key))"

definition sensitive_words :: "string list" where
  "sensitive_words = [''token'', ''secret'', ''password'', ''credential'', ''bearer'', ''oauth'', ''apikey'', ''api_key'', ''privatekey'', ''private_key'',
     ''accesstoken'', ''access_token'', ''refreshtoken'', ''refresh_token'', ''authorizationcode'', ''authorization_code'', ''devicecode'', ''device_code'',
     ''redirecturl'', ''redirect_url'', ''flowid'', ''flow_id'', ''flowsnapshot'', ''flow_snapshot'', ''promptresponse'', ''prompt_response'']"

text \<open>The regular expression matches where one of the words, with an optional \<^verbatim>\<open>s\<close>, stands between underscores or ends of the key.\<close>

definition sensitive_key :: "string \<Rightarrow> bool" where
  "sensitive_key key \<longleftrightarrow>
     list_ex (\<lambda>w. js_includes (''_'' @ normalizeSettingKey key @ ''_'') (''_'' @ w @ ''_'')) (sensitive_words @ map (\<lambda>w. w @ ''s'') sensitive_words)"

definition assertGeneralAppSettingKey :: "string \<Rightarrow> string option" where
  "assertGeneralAppSettingKey key =
     (if js_trim key = [] then Some ''app setting key is required''
      else if sensitive_key key then Some (''sensitive value '' @ key @ '' is forbidden in general app settings'') else None)"

section \<open>Values\<close>

fun json_nodes :: "json \<Rightarrow> nat" where
  "json_nodes (JArr vs) = Suc (sum_list (map json_nodes vs))"
| "json_nodes (JObj m) = Suc (sum_list (map (\<lambda>(k, v). json_nodes v) m))"
| "json_nodes v = 1"

text \<open>The explicit stack of \<^verbatim>\<open>assertGeneralAppSettingValue\<close>, top first; the result is the first error.\<close>

function check_entries :: "json list \<Rightarrow> string option" where
  "check_entries [] = None"
| "check_entries (v # pending) =
     (case v of
        JArr vs \<Rightarrow> check_entries (rev vs @ pending)
      | JObj m \<Rightarrow>
          (case List.find (\<lambda>(k, v). assertGeneralAppSettingKey k \<noteq> None) m of
             Some (k, _) \<Rightarrow> assertGeneralAppSettingKey k
           | None \<Rightarrow> check_entries (rev (map snd m) @ pending))
      | _ \<Rightarrow> check_entries pending)"
  by pat_completeness auto
termination
  by (relation "measure (\<lambda>vs. sum_list (map json_nodes vs))") (auto simp: rev_map [symmetric] sum_list_rev comp_def split_def)

definition assertGeneralAppSettingValue :: "string \<Rightarrow> string option" where
  "assertGeneralAppSettingValue value =
     (case json_parse value of
        None \<Rightarrow> Some ''app setting value must be valid serialized JSON''
      | Some parsed \<Rightarrow> check_entries [parsed])"

section \<open>The repository\<close>

type_synonym setting_rows = "(string, string \<times> string) jsmap"

definition settings_get :: "string \<Rightarrow> setting_rows \<Rightarrow> string + (string \<times> string) option" where
  "settings_get key rows =
     (case assertGeneralAppSettingKey key of Some err \<Rightarrow> Inl err | None \<Rightarrow> Inr (jsmap_get rows key))"

definition settings_set :: "string \<Rightarrow> string \<Rightarrow> string \<Rightarrow> setting_rows \<Rightarrow> string + setting_rows" where
  "settings_set key value updatedAt rows =
     (case assertGeneralAppSettingKey key of
        Some err \<Rightarrow> Inl err
      | None \<Rightarrow> (case assertGeneralAppSettingValue value of Some err \<Rightarrow> Inl err | None \<Rightarrow> Inr (jsmap_set key (value, updatedAt) rows)))"

section \<open>The typed settings\<close>

definition current_workdir_key :: string where "current_workdir_key = ''current_workdir''"
definition default_runner_id_key :: string where "default_runner_id_key = ''default_runner_id''"
definition max_path_bytes :: nat where "max_path_bytes = 16 * 1024"

definition validateWorkdir :: "json \<Rightarrow> string + string" where
  "validateWorkdir v =
     (case v of
        JStr t \<Rightarrow>
          if js_trim t = [] \<or> \<not> is_absolute t then Inl ''current workdir must be an absolute path''
          else if CHR 0x00 \<in> set t \<or> length (utf8_encode t) > max_path_bytes then Inl ''current workdir must not contain null bytes or exceed 16 KiB''
          else Inr (path_resolve ''/'' t)
      | _ \<Rightarrow> Inl ''current workdir must be an absolute path'')"

definition runner_id_char :: "char \<Rightarrow> bool" where
  "runner_id_char c \<longleftrightarrow> lower_or_digit c \<or> upper_letter c \<or> c = CHR ''_'' \<or> c = CHR ''-''"

definition validateRunnerId :: "json \<Rightarrow> string + string option" where
  "validateRunnerId v =
     (case v of
        JNull \<Rightarrow> Inr None
      | JStr t \<Rightarrow> if js_starts_with t ''r-'' \<and> 8 \<le> length (drop 2 t) \<and> length (drop 2 t) \<le> 128 \<and> list_all runner_id_char (drop 2 t)
                  then Inr (Some t) else Inl ''default runner ID is invalid''
      | _ \<Rightarrow> Inl ''default runner ID is invalid'')"

text \<open>\<^verbatim>\<open>read\<close>: a value that does not parse or validate gives the fallback, a failing repository is an error.\<close>

definition read_setting :: "string \<Rightarrow> (json \<Rightarrow> string + 'a) \<Rightarrow> 'a \<Rightarrow> setting_rows \<Rightarrow> string + 'a" where
  "read_setting key validate_value fallback rows =
     (case settings_get key rows of
        Inl err \<Rightarrow> Inl err
      | Inr None \<Rightarrow> Inr fallback
      | Inr (Some (value, _)) \<Rightarrow>
          Inr (case json_parse value of
                 None \<Rightarrow> fallback
               | Some v \<Rightarrow> (case validate_value v of Inl _ \<Rightarrow> fallback | Inr w \<Rightarrow> w)))"

definition hydrate_settings :: "string \<Rightarrow> setting_rows \<Rightarrow> string + string \<times> string option" where
  "hydrate_settings startup rows =
     (case read_setting current_workdir_key validateWorkdir startup rows of
        Inl err \<Rightarrow> Inl err
      | Inr w \<Rightarrow> (case read_setting default_runner_id_key validateRunnerId None rows of Inl err \<Rightarrow> Inl err | Inr r \<Rightarrow> Inr (w, r)))"

definition setCurrentWorkdir :: "string \<Rightarrow> json \<Rightarrow> setting_rows \<Rightarrow> string + string \<times> setting_rows" where
  "setCurrentWorkdir now v rows =
     (case validateWorkdir v of
        Inl err \<Rightarrow> Inl err
      | Inr w \<Rightarrow> map_sum id (Pair w) (settings_set current_workdir_key (json_text (JStr w)) now rows))"

definition runner_id_json :: "string option \<Rightarrow> json" where
  "runner_id_json r = (case r of None \<Rightarrow> JNull | Some t \<Rightarrow> JStr t)"

definition setDefaultRunnerId :: "string \<Rightarrow> json \<Rightarrow> setting_rows \<Rightarrow> string + string option \<times> setting_rows" where
  "setDefaultRunnerId now v rows =
     (case validateRunnerId v of
        Inl err \<Rightarrow> Inl err
      | Inr r \<Rightarrow> map_sum id (Pair r) (settings_set default_runner_id_key (json_text (runner_id_json r)) now rows))"

end
