(* ===== verification/Settings_Properties.thy ===== *)
theory Settings_Properties
  imports Server_Settings
begin

text \<open>The properties of the settings: no secret by name at any depth, and what is set is what the next start reads.\<close>

section \<open>Secrets\<close>

declare check_entries.simps [simp del]

fun nested_keys :: "json \<Rightarrow> string list" where
  "nested_keys (JArr vs) = concat (map nested_keys vs)"
| "nested_keys (JObj m) = map fst m @ concat (map (\<lambda>(k, v). nested_keys v) m)"
| "nested_keys v = []"

definition general_key :: "string \<Rightarrow> bool" where
  "general_key k \<longleftrightarrow> assertGeneralAppSettingKey k = None"

definition clean_value :: "json \<Rightarrow> bool" where
  "clean_value v \<longleftrightarrow> list_all general_key (nested_keys v)"

lemma clean_array: "clean_value (JArr vs) \<longleftrightarrow> list_all clean_value vs"
  by (auto simp: clean_value_def list_all_iff)

lemma clean_object: "clean_value (JObj m) \<longleftrightarrow> list_all general_key (map fst m) \<and> list_all clean_value (map snd m)"
proof -
  have "nested_keys (JObj m) = map fst m @ concat (map nested_keys (map snd m))" by (simp add: comp_def split_def)
  then show ?thesis by (simp add: clean_value_def [of "JObj m"]) (auto simp: clean_value_def list_all_iff)
qed

lemma clean_scalars: "clean_value JNull" "clean_value (JBool b)" "clean_value (JNum n)" "clean_value (JStr t)"
  by (simp_all add: clean_value_def)

lemmas clean_value_simps = clean_array clean_object clean_scalars

lemma check_entries_simps:
  "check_entries [] = None"
  "check_entries (JArr ws # pending) = check_entries (rev ws @ pending)"
  "check_entries (JNull # pending) = check_entries pending"
  "check_entries (JBool b # pending) = check_entries pending"
  "check_entries (JNum n # pending) = check_entries pending"
  "check_entries (JStr t # pending) = check_entries pending"
  by (simp_all add: check_entries.simps)

lemma check_entries_obj:
  "list_all general_key (map fst m) \<Longrightarrow> check_entries (JObj m # pending) = check_entries (rev (map snd m) @ pending)"
  "\<not> list_all general_key (map fst m) \<Longrightarrow> check_entries (JObj m # pending) \<noteq> None"
proof -
  assume "list_all general_key (map fst m)"
  then have "List.find (\<lambda>(k, v). assertGeneralAppSettingKey k \<noteq> None) m = None"
    by (auto simp: find_None_iff list_all_iff general_key_def)
  then show "check_entries (JObj m # pending) = check_entries (rev (map snd m) @ pending)" by (simp add: check_entries.simps)
next
  assume bad: "\<not> list_all general_key (map fst m)"
  show "check_entries (JObj m # pending) \<noteq> None"
  proof (cases "List.find (\<lambda>(k, v). assertGeneralAppSettingKey k \<noteq> None) m")
    case None
    then have "list_all general_key (map fst m)" by (auto simp: find_None_iff list_all_iff general_key_def)
    with bad show ?thesis by simp
  next
    case (Some kv)
    then have "assertGeneralAppSettingKey (fst kv) \<noteq> None" by (auto simp: find_Some_iff split_def)
    with Some show ?thesis by (cases kv) (simp add: check_entries.simps)
  qed
qed

lemma check_entries_clean: "check_entries vs = None \<longleftrightarrow> list_all clean_value vs"
proof (induction "sum_list (map json_nodes vs)" arbitrary: vs rule: less_induct)
  case less
  show ?case
  proof (cases vs)
    case (Cons v pending)
    have nodes: "0 < json_nodes v" by (cases v) auto
    have IH: "check_entries ws = None \<longleftrightarrow> list_all clean_value ws" if "sum_list (map json_nodes ws) < sum_list (map json_nodes vs)" for ws
      by (rule less) (rule that)
    show ?thesis
    proof (cases v)
      case (JArr ws)
      have "check_entries (rev ws @ pending) = None \<longleftrightarrow> list_all clean_value (rev ws @ pending)"
        by (rule IH) (simp add: Cons JArr rev_map [symmetric] sum_list_rev)
      then show ?thesis by (auto simp: Cons JArr check_entries_simps clean_value_simps list_all_iff)
    next
      case (JObj m)
      have "check_entries (rev (map snd m) @ pending) = None \<longleftrightarrow> list_all clean_value (rev (map snd m) @ pending)"
        by (rule IH) (simp add: Cons JObj rev_map [symmetric] sum_list_rev comp_def split_def)
      with check_entries_obj [of m pending] show ?thesis
        by (cases "list_all general_key (map fst m)") (auto simp: Cons JObj clean_object)
    qed (use IH [of pending] nodes in \<open>simp_all add: Cons check_entries_simps clean_value_simps\<close>)
  qed (simp add: check_entries_simps)
qed



section \<open>Round trips\<close>

lemma fixed_keys [simp]: "assertGeneralAppSettingKey current_workdir_key = None" "assertGeneralAppSettingKey default_runner_id_key = None"
  by code_simp+

lemma check_string [simp]: "check_entries [JStr t] = None" "check_entries [runner_id_json r] = None"
  by (simp_all add: check_entries_clean clean_value_def runner_id_json_def split: option.split)

definition path_weight :: "string list \<Rightarrow> nat" where
  "path_weight ws = sum_list (map (\<lambda>w. length (utf8_encode w) + 1) ws)"

lemma utf8_append: "utf8_encode (s @ t) = utf8_encode s @ utf8_encode t"
  by (induction s) (auto simp: Let_def)

lemma utf8_slash: "length (utf8_encode (CHR ''/'' # t)) = Suc (length (utf8_encode t))"
  by (simp add: Let_def)

lemma join_weight: "ws \<noteq> [] \<Longrightarrow> path_weight ws = length (utf8_encode (js_join ''/'' ws)) + 1"
proof (induction ws)
  case (Cons w ws)
  show ?case
  proof (cases "ws = []")
    case True
    then show ?thesis by (simp add: path_weight_def)
  next
    case False
    have "js_join ''/'' (w # ws) = w @ CHR ''/'' # js_join ''/'' ws" using js_join_Cons [OF False] by simp
    then have "length (utf8_encode (js_join ''/'' (w # ws))) = length (utf8_encode w) + Suc (length (utf8_encode (js_join ''/'' ws)))"
      by (simp only: utf8_append length_append utf8_slash)
    then show ?thesis using Cons.IH [OF False] by (simp add: path_weight_def)
  qed
qed simp

lemma split_weight: "path_weight (js_split (CHR ''/'') t) = length (utf8_encode t) + 1"
  by (simp add: join_weight)

lemma butlast_weight: "path_weight (butlast ws) \<le> path_weight ws"
  by (induction ws) (auto simp: path_weight_def)

lemma step_weight: "path_weight (foldl path_step acc ws) \<le> path_weight acc + path_weight ws"
proof (induction ws arbitrary: acc)
  case (Cons w ws)
  have "path_weight (path_step acc w) \<le> path_weight acc + path_weight [w]"
    using butlast_weight [of acc] by (auto simp: path_weight_def)
  with Cons.IH [of "path_step acc w"] show ?case by (simp add: path_weight_def)
qed simp

lemma absolute_split: "is_absolute t \<Longrightarrow> \<exists>q. t = CHR ''/'' # q"
  by (auto simp: is_absolute_def js_starts_with_def prefix_of_iff)

lemma resolved_length:
  assumes "is_absolute t"
  shows "length (utf8_encode (path_resolve ''/'' t)) \<le> length (utf8_encode t)"
proof -
  obtain q where t: "t = CHR ''/'' # q" using absolute_split [OF assms] by blast
  have "path_segments t = foldl path_step [] (js_split (CHR ''/'') q)" by (simp add: path_segments_def t)
  then have "path_weight (path_segments t) \<le> path_weight (js_split (CHR ''/'') q)"
    using step_weight [of "[]" "js_split (CHR ''/'') q"] by (simp add: path_weight_def)
  also have "\<dots> = length (utf8_encode t)" by (simp only: split_weight t utf8_slash)
  finally have le: "path_weight (path_segments t) \<le> length (utf8_encode t)" .
  have "length (utf8_encode (path_of_segments (path_segments t))) \<le> length (utf8_encode t)"
  proof (cases "path_segments t = []")
    case True
    then show ?thesis by (simp only: True path_of_segments_def t utf8_slash js_join.simps) simp
  next
    case False
    then show ?thesis using le join_weight [OF False] by (simp only: path_of_segments_def utf8_slash)
  qed
  then show ?thesis using assms by (simp add: path_resolve_def)
qed

lemma js_trim_nonempty: "\<not> js_space c \<Longrightarrow> js_trim (c # t) \<noteq> []"
  by (auto simp: js_trim_def dropWhile_eq_Nil_conv)

lemma join_chars: "set (js_join sep ws) \<subseteq> set sep \<union> \<Union> (set ` set ws)"
proof (induction ws)
  case (Cons w ws)
  then show ?case by (cases "ws = []") (auto simp: js_join_Cons)
qed simp

lemma step_chars: "\<Union> (set ` set (foldl path_step acc ws)) \<subseteq> \<Union> (set ` set acc) \<union> \<Union> (set ` set ws)"
proof (induction ws arbitrary: acc)
  case (Cons w ws)
  have "\<Union> (set ` set (path_step acc w)) \<subseteq> \<Union> (set ` set acc) \<union> set w" by (auto dest: in_set_butlastD)
  with Cons.IH [of "path_step acc w"] show ?case by (simp del: path_step.simps) blast
qed simp

lemma resolved_chars:
  assumes "is_absolute t"
  shows "set (path_resolve ''/'' t) \<subseteq> insert (CHR ''/'') (set t)"
proof -
  have "\<Union> (set ` set (js_split (CHR ''/'') t)) \<subseteq> set t" using js_split_chars [of _ "CHR ''/''" t] by blast
  with step_chars [of "[]" "js_split (CHR ''/'') t"] have segs: "\<Union> (set ` set (path_segments t)) \<subseteq> set t"
    unfolding path_segments_def by (simp del: path_step.simps)
  have "path_resolve ''/'' t = CHR ''/'' # js_join ''/'' (path_segments t)" using assms by (simp add: path_resolve_def path_of_segments_def)
  with join_chars [of "''/''" "path_segments t"] segs show ?thesis by (simp only: list.set) blast
qed

lemma validateWorkdir_stable:
  assumes "validateWorkdir v = Inr w"
  shows "validateWorkdir (JStr w) = Inr w"
proof -
  obtain t where t: "is_absolute t" "CHR 0x00 \<notin> set t" "length (utf8_encode t) \<le> max_path_bytes" "w = path_resolve ''/'' t"
    using assms by (auto simp: validateWorkdir_def split: json.splits if_splits)
  have "js_trim w \<noteq> []" unfolding t(4) path_resolve_def path_of_segments_def
    by (rule js_trim_nonempty) (simp add: js_space_def)
  moreover have "is_absolute w" by (simp add: t(4))
  moreover have "CHR 0x00 \<notin> set w" using resolved_chars [OF t(1)] t(2,4) by auto
  moreover have "length (utf8_encode w) \<le> max_path_bytes" using resolved_length [OF t(1)] t(3-4) by simp
  ultimately show ?thesis by (simp add: validateWorkdir_def t(4))
qed

lemma validateRunnerId_stable: "validateRunnerId v = Inr r \<Longrightarrow> validateRunnerId (runner_id_json r) = Inr r"
  by (auto simp: validateRunnerId_def runner_id_json_def split: json.splits if_splits)

lemma json_ok_runner_id [simp]: "json_ok (runner_id_json r)"
  by (simp add: runner_id_json_def split: option.split)

lemma settings_set_fixed:
  "settings_set current_workdir_key (json_text (JStr w)) now rows = Inr (jsmap_set current_workdir_key (json_text (JStr w), now) rows)"
  "settings_set default_runner_id_key (json_text (runner_id_json r)) now rows = Inr (jsmap_set default_runner_id_key (json_text (runner_id_json r), now) rows)"
  by (simp_all add: settings_set_def assertGeneralAppSettingValue_def json_parse_text del: json_text.simps)

lemma distinct_keys [simp]: "current_workdir_key \<noteq> default_runner_id_key" "default_runner_id_key \<noteq> current_workdir_key"
  by (simp_all add: current_workdir_key_def default_runner_id_key_def)

text \<open>
  Setting the working directory never fails on an accepted path, and afterwards the settings read at a start are the
  resolved path and the runner they were before, whatever the rows held.
\<close>

theorem workdir_roundtrip:
  assumes "validateWorkdir v = Inr w"
  shows "\<exists>rows'. setCurrentWorkdir now v rows = Inr (w, rows')
    \<and> hydrate_settings startup rows' = map_sum id (\<lambda>settings. (w, snd settings)) (hydrate_settings startup rows)"
proof -
  let ?rows = "jsmap_set current_workdir_key (json_text (JStr w), now) rows"
  have "read_setting current_workdir_key validateWorkdir startup ?rows = Inr w"
    using validateWorkdir_stable [OF assms] by (simp add: read_setting_def settings_get_def json_parse_text del: json_text.simps)
  moreover have "read_setting default_runner_id_key validateRunnerId None ?rows = read_setting default_runner_id_key validateRunnerId None rows"
    by (simp add: read_setting_def settings_get_def)
  moreover have "\<exists>w'. read_setting current_workdir_key validateWorkdir startup rows = Inr w'"
    by (simp add: read_setting_def settings_get_def split: option.split)
  ultimately show ?thesis using assms
    by (auto simp: setCurrentWorkdir_def settings_set_fixed hydrate_settings_def simp del: json_text.simps split: sum.splits)
qed

lemma workdir_roundtrip_witness:
  "\<exists>rows'. setCurrentWorkdir ''t'' (JStr ''/srv/../work/'') [] = Inr (''/work'', rows') \<and> hydrate_settings ''/'' rows' = Inr (''/work'', None)"
proof -
  have "validateWorkdir (JStr ''/srv/../work/'') = Inr ''/work''" by (simp add: validateWorkdir_def max_path_bytes_def path_resolve_def path_segments_def
      path_of_segments_def is_absolute_def js_starts_with_def js_trim_def js_space_def)
  from workdir_roundtrip [OF this, of "''t''" "[]" "''/''"] show ?thesis
    by (simp add: hydrate_settings_def read_setting_def settings_get_def)
qed

end
