(* ===== verification/Browser_Transcript.thy ===== *)
theory Browser_Transcript
  imports Pinned_Widgets "HOL-Library.Char_ord" "HOL-Library.List_Lexorder" "HOL-Library.Product_Lexorder"
begin

text \<open>
  What the browser computes around a transcript: the highlighted snippets of \<^verbatim>\<open>public/src/lib/sessionSearchHighlight.js\<close>, and from
  \<^verbatim>\<open>public/src/runtime/transcriptRuntime.js\<close> the merge of durable and live messages and the filter of replayed events.
  \<^verbatim>\<open>Date.parse\<close> is a parameter.
\<close>

section \<open>Search terms and highlighting\<close>

definition push_term :: "bool \<Rightarrow> string \<Rightarrow> string list \<Rightarrow> string list" where
  "push_term quoted current terms =
     (let value = js_trim current in
      if value \<noteq> [] \<and> (quoted \<or> length value \<ge> 3) \<and> \<not> list_ex (\<lambda>t. js_lower t = js_lower value) terms then terms @ [value] else terms)"

fun scan_terms :: "bool \<Rightarrow> string \<Rightarrow> string list \<Rightarrow> string \<Rightarrow> string list" where
  "scan_terms quoted current terms [] = push_term quoted current terms"
| "scan_terms quoted current terms (c # cs) =
     (if c = CHR 0x5C \<and> cs \<noteq> [] \<and> hd cs = CHR 0x22 then scan_terms quoted (current @ [CHR 0x22]) terms (tl cs)
      else if c = CHR 0x22 then
        (if quoted \<or> js_trim current \<noteq> [] then scan_terms (\<not> quoted) [] (push_term quoted current terms) cs
         else scan_terms (\<not> quoted) current terms cs)
      else if js_space c \<and> \<not> quoted then scan_terms quoted [] (push_term quoted current terms) cs
      else scan_terms quoted (current @ [c]) terms cs)"

definition searchTerms :: "string \<Rightarrow> string list" where
  "searchTerms query = scan_terms False [] [] (js_trim query)"

text \<open>The positions of a needle, left to right and without overlaps; no term is empty.\<close>

lemma index_in_bound: "index_in pat xs = Some i \<Longrightarrow> i + length pat \<le> length xs"
proof (induction pat xs arbitrary: i rule: index_in.induct)
  case (2 pat y ys)
  show ?case
  proof (cases "prefix_of pat (y # ys)")
    case True
    then obtain zs where zs: "y # ys = pat @ zs" by (auto simp: prefix_of_iff)
    have "length pat \<le> length (y # ys)" unfolding zs by simp
    then show ?thesis using 2(2) True by simp
  next
    case False
    then show ?thesis using 2 by auto
  qed
qed (simp split: if_splits)

lemma js_index_of_bound:
  assumes "js_index_of text pat from = Some i" and "from \<le> length text"
  shows "from \<le> i \<and> i + length pat \<le> length text"
  using assms index_in_bound [of pat "drop from text"] by (auto simp: js_index_of_def)

function occurrences :: "string \<Rightarrow> string \<Rightarrow> nat \<Rightarrow> nat list" where
  "occurrences needle text from =
     (if needle = [] \<or> from > length text then []
      else case js_index_of text needle from of None \<Rightarrow> [] | Some i \<Rightarrow> i # occurrences needle text (i + length needle))"
  by pat_completeness auto
termination
proof (relation "measure (\<lambda>(needle, text, from). Suc (length text) - from)")
  fix needle hay :: string and k i
  assume "\<not> (needle = [] \<or> k > length hay)" and i: "js_index_of hay needle k = Some i"
  then have "needle \<noteq> []" "k \<le> length hay" by auto
  with js_index_of_bound [OF i this(2)] show "((needle, hay, i + length needle), needle, hay, k) \<in> measure (\<lambda>(needle, text, from). Suc (length text) - from)"
    by (cases needle) auto
qed simp

declare occurrences.simps [simp del]

record snippet =
  sn_before :: string
  sn_match :: string
  sn_after :: string

definition snippet_text :: "snippet \<Rightarrow> string" where
  "snippet_text s = sn_before s @ sn_match s @ sn_after s"

definition highlight_ranges :: "snippet \<Rightarrow> string \<Rightarrow> (nat \<times> nat) list" where
  "highlight_ranges s query =
     (let normalized = js_lower (snippet_text s);
          found = concat (map (\<lambda>t. map (\<lambda>i. (i, i + length (js_lower t))) (occurrences (js_lower t) normalized 0)) (searchTerms query));
          ranges = (if found = [] \<and> sn_match s \<noteq> [] then [(length (sn_before s), length (sn_before s) + length (sn_match s))] else found)
      in sort_key (\<lambda>(start, end). (int start, - int end)) ranges)"

text \<open>The loop over the sorted ranges; a segment is its text and whether it is a match.\<close>

fun cut_segments :: "string \<Rightarrow> nat \<Rightarrow> (nat \<times> nat) list \<Rightarrow> (string \<times> bool) list" where
  "cut_segments text cursor [] = (if cursor < length text then [(drop cursor text, False)] else [])"
| "cut_segments text cursor ((start, end) # ranges) =
     (if start < cursor then cut_segments text cursor ranges
      else (if start > cursor then [(take (start - cursor) (drop cursor text), False)] else [])
           @ (take (end - start) (drop start text), True) # cut_segments text end ranges)"

definition highlightSearchSnippet :: "snippet \<Rightarrow> string \<Rightarrow> (string \<times> bool) list" where
  "highlightSearchSnippet s query = cut_segments (snippet_text s) 0 (highlight_ranges s query)"

section \<open>Durable and live messages\<close>

fun stableValue :: "json \<Rightarrow> json" where
  "stableValue (JArr vs) = JArr (map stableValue vs)"
| "stableValue (JObj m) = JObj (sort_key fst (map (\<lambda>(k, v). (k, stableValue v)) m))"
| "stableValue v = v"

definition comparableContent :: "json \<Rightarrow> string" where
  "comparableContent message =
     json_text (stableValue
       (case js_get message ''content'' of
          Some (JStr t) \<Rightarrow> JArr [JObj [(''type'', JStr ''text''), (''text'', JStr t)]]
        | Some (JArr vs) \<Rightarrow> JArr vs
        | _ \<Rightarrow> JArr []))"

definition coalesce :: "json option \<Rightarrow> json option \<Rightarrow> json option" where
  "coalesce a b = (if nullish a then b else a)"

definition comparableTimestamp :: "(string \<Rightarrow> int option) \<Rightarrow> json \<Rightarrow> int option" where
  "comparableTimestamp parse_date message =
     (case coalesce (js_get message ''timestamp'') (js_get message ''entryTimestamp'') of
        Some (JNum n) \<Rightarrow> Some n
      | raw \<Rightarrow> parse_date (case coalesce raw (Some (JStr [])) of Some v \<Rightarrow> js_string v | None \<Rightarrow> []))"

definition both_differ :: "string \<Rightarrow> json \<Rightarrow> json \<Rightarrow> bool" where
  "both_differ k left right \<longleftrightarrow> truthy_json (js_get left k) \<and> truthy_json (js_get right k) \<and> js_get left k \<noteq> js_get right k"

definition sameClaudeMessage :: "(string \<Rightarrow> int option) \<Rightarrow> json \<Rightarrow> json \<Rightarrow> bool" where
  "sameClaudeMessage parse_date left right \<longleftrightarrow>
     truthy_json (Some left) \<and> truthy_json (Some right) \<and> js_get left ''role'' = js_get right ''role''
     \<and> \<not> both_differ ''responseId'' left right \<and> \<not> both_differ ''toolCallId'' left right
     \<and> comparableContent left = comparableContent right
     \<and> (case (comparableTimestamp parse_date left, comparableTimestamp parse_date right) of
          (Some l, Some r) \<Rightarrow> abs (l - r) \<le> 10000 | _ \<Rightarrow> True)"

text \<open>The loop over the overlaps, from the longest.\<close>

fun find_overlap :: "('a \<Rightarrow> 'a \<Rightarrow> bool) \<Rightarrow> 'a list \<Rightarrow> 'a list \<Rightarrow> nat \<Rightarrow> nat" where
  "find_overlap same durable live 0 = 0"
| "find_overlap same durable live (Suc k) =
     (if list_all2 same (drop (length durable - Suc k) durable) (take (Suc k) live) then Suc k else find_overlap same durable live k)"

definition mergeClaudeTranscriptMessages :: "(string \<Rightarrow> int option) \<Rightarrow> json \<Rightarrow> json \<Rightarrow> json list" where
  "mergeClaudeTranscriptMessages parse_date durableMessages liveMessages =
     (let durable = (case durableMessages of JArr vs \<Rightarrow> vs | _ \<Rightarrow> []); live = (case liveMessages of JArr vs \<Rightarrow> vs | _ \<Rightarrow> []) in
      if durable = [] then live else if live = [] then durable
      else durable @ drop (find_overlap (sameClaudeMessage parse_date) durable live (min (length durable) (length live))) live)"

section \<open>Replayed events\<close>

definition event_role :: "json \<Rightarrow> json option" where
  "event_role event = Option.bind (js_get event ''message'') (\<lambda>m. js_get m ''role'')"

definition finished_message :: "(json option \<Rightarrow> bool) \<Rightarrow> json \<Rightarrow> bool" where
  "finished_message assistantAlreadyRendered event \<longleftrightarrow>
     js_get event ''type'' = Some (JStr ''message_end'') \<and> event_role event = Some (JStr ''assistant'')
     \<and> assistantAlreadyRendered (js_get event ''message'')"

definition suppressed_event :: "json \<Rightarrow> bool" where
  "suppressed_event event \<longleftrightarrow>
     (js_get event ''type'' \<in> (\<lambda>t. Some (JStr t)) ` {''message_start'', ''message_update'', ''message_end''} \<and> event_role event = Some (JStr ''assistant''))
     \<or> js_get event ''type'' \<in> (\<lambda>t. Some (JStr t)) ` {''tool_execution_start'', ''tool_execution_update'', ''tool_execution_end''}"

definition filterReplayEvents :: "json list \<Rightarrow> (json option \<Rightarrow> bool) \<Rightarrow> json list" where
  "filterReplayEvents events assistantAlreadyRendered =
     (if list_ex (finished_message assistantAlreadyRendered) events then filter (\<lambda>e. \<not> suppressed_event e) events else events)"

definition isComposerReadyForSend :: "bool \<Rightarrow> bool \<Rightarrow> bool \<Rightarrow> string option \<Rightarrow> bool" where
  "isComposerReadyForSend connected replaying transcriptGateRequired phase \<longleftrightarrow>
     connected \<and> \<not> (replaying \<and> transcriptGateRequired \<and> phase \<noteq> Some ''canonical'')"

end
