(* ===== verification/Browser_Properties.thy ===== *)
theory Browser_Properties
  imports Browser_Transcript
begin

text \<open>The properties of the browser's computations on a transcript.\<close>

section \<open>Highlighting\<close>

lemma index_in_sound: "index_in pat xs = Some i \<Longrightarrow> take (length pat) (drop i xs) = pat"
proof (induction xs arbitrary: i)
  case (Cons y ys)
  show ?case
  proof (cases "prefix_of pat (y # ys)")
    case True
    then obtain zs where zs: "y # ys = pat @ zs" by (auto simp: prefix_of_iff)
    have "i = 0" using Cons.prems True by simp
    then show ?thesis unfolding zs by simp
  next
    case False
    then show ?thesis using Cons by auto
  qed
qed (simp split: if_splits)

lemma js_index_of_sound: "js_index_of hay pat from = Some i \<Longrightarrow> from \<le> length hay \<Longrightarrow> take (length pat) (drop i hay) = pat"
  using index_in_sound [of pat "drop from hay"] by (auto simp: js_index_of_def add.commute)

lemma occurrences_sound:
  "i \<in> set (occurrences needle hay k) \<Longrightarrow> needle \<noteq> [] \<and> i + length needle \<le> length hay \<and> take (length needle) (drop i hay) = needle"
proof (induction needle hay k rule: occurrences.induct)
  case (1 needle hay k)
  have eq: "occurrences needle hay k = (if needle = [] \<or> k > length hay then []
      else case js_index_of hay needle k of None \<Rightarrow> [] | Some i \<Rightarrow> i # occurrences needle hay (i + length needle))"
    by (rule occurrences.simps)
  show ?case
  proof (cases "needle = [] \<or> k > length hay")
    case True
    then show ?thesis using 1(2) by (simp add: eq)
  next
    case False
    then obtain m where m: "js_index_of hay needle k = Some m" using 1(2) by (cases "js_index_of hay needle k") (simp_all add: eq)
    then consider "i = m" | "i \<in> set (occurrences needle hay (m + length needle))"
      using 1(2) False by (auto simp: eq)
    then show ?thesis
    proof cases
      case 1
      then show ?thesis using False js_index_of_bound [OF m] js_index_of_sound [OF m] by simp
    next
      case 2
      show ?thesis by (rule 1(1) [OF False m 2])
    qed
  qed
qed

lemma cut_segments_text:
  "cursor \<le> length hay \<Longrightarrow> \<forall>r \<in> set ranges. fst r < snd r \<and> snd r \<le> length hay
    \<Longrightarrow> concat (map fst (cut_segments hay cursor ranges)) = drop cursor hay"
proof (induction hay cursor ranges rule: cut_segments.induct)
  case (2 hay cursor a b ranges)
  have split: "drop u hay = take (v - u) (drop u hay) @ drop v hay" if "u \<le> v" for u v
    using append_take_drop_id [of "v - u" "drop u hay"] that by simp
  show ?case
  proof (cases "a < cursor")
    case True
    then show ?thesis using 2(1,3,4) by simp
  next
    case False
    then show ?thesis using 2(2-4) split [of cursor a] split [of a b] by (cases "a = cursor") auto
  qed
qed simp

lemma cut_segments_parts:
  "\<forall>r \<in> set ranges. fst r < snd r \<and> snd r \<le> length hay \<Longrightarrow> (t, b) \<in> set (cut_segments hay cursor ranges) \<Longrightarrow>
    t \<noteq> [] \<and> (\<not> b \<or> (\<exists>r \<in> set ranges. t = take (snd r - fst r) (drop (fst r) hay)))"
  by (induction hay cursor ranges rule: cut_segments.induct) (auto split: if_splits)

lemma highlight_range_bounds:
  assumes "r \<in> set (highlight_ranges s query)"
  shows "fst r < snd r \<and> snd r \<le> length (snippet_text s)
    \<and> (js_lower (take (snd r - fst r) (drop (fst r) (snippet_text s))) \<in> js_lower ` set (searchTerms query)
       \<or> take (snd r - fst r) (drop (fst r) (snippet_text s)) = sn_match s)"
proof -
  have len: "length (js_lower u) = length u" for u by (simp add: js_lower_def)
  consider t i where "t \<in> set (searchTerms query)" "i \<in> set (occurrences (js_lower t) (js_lower (snippet_text s)) 0)" "r = (i, i + length (js_lower t))"
    | "sn_match s \<noteq> []" "r = (length (sn_before s), length (sn_before s) + length (sn_match s))"
    using assms by (auto simp: highlight_ranges_def Let_def split: if_splits)
  then show ?thesis
  proof cases
    case 1
    note occ = occurrences_sound [OF 1(2)]
    have "js_lower (take (length t) (drop i (snippet_text s))) = take (length (js_lower t)) (drop i (js_lower (snippet_text s)))"
      by (simp add: js_lower_def take_map drop_map)
    with occ have "js_lower (take (length t) (drop i (snippet_text s))) = js_lower t" by simp
    then show ?thesis using occ 1 by (auto simp: len)
  next
    case 2
    then show ?thesis by (simp add: snippet_text_def)
  qed
qed

text \<open>
  The highlighted segments of a snippet, one after another, are its text, none is empty, and what is marked as a
  match is, up to case, one of the search terms or the match the server reported.
\<close>

theorem highlight_partition:
  "concat (map fst (highlightSearchSnippet s query)) = snippet_text s
    \<and> list_all (\<lambda>(t, b). t \<noteq> [] \<and> (b = False \<or> js_lower t \<in> js_lower ` set (searchTerms query) \<or> t = sn_match s)) (highlightSearchSnippet s query)"
proof
  have ranges: "\<forall>r \<in> set (highlight_ranges s query). fst r < snd r \<and> snd r \<le> length (snippet_text s)"
    using highlight_range_bounds by blast
  from cut_segments_text [OF _ this, of 0] show "concat (map fst (highlightSearchSnippet s query)) = snippet_text s"
    by (simp add: highlightSearchSnippet_def)
  show "list_all (\<lambda>(t, b). t \<noteq> [] \<and> (b = False \<or> js_lower t \<in> js_lower ` set (searchTerms query) \<or> t = sn_match s)) (highlightSearchSnippet s query)"
    unfolding list_all_iff
  proof
    fix seg assume seg: "seg \<in> set (highlightSearchSnippet s query)"
    obtain t b where tb: "seg = (t, b)" by fastforce
    then have "(t, b) \<in> set (cut_segments (snippet_text s) 0 (highlight_ranges s query))" using seg by (simp add: highlightSearchSnippet_def)
    from cut_segments_parts [OF ranges this] highlight_range_bounds [of _ s query]
    show "case seg of (t, b) \<Rightarrow> t \<noteq> [] \<and> (b = False \<or> js_lower t \<in> js_lower ` set (searchTerms query) \<or> t = sn_match s)"
      unfolding tb by auto
  qed
qed

section \<open>Merging durable and live messages\<close>

lemma find_overlap_longest:
  "find_overlap same durable live n \<le> n
    \<and> (list_all2 same (drop (length durable - find_overlap same durable live n) durable) (take (find_overlap same durable live n) live))
    \<and> (\<forall>k. find_overlap same durable live n < k \<and> k \<le> n \<longrightarrow> \<not> list_all2 same (drop (length durable - k) durable) (take k live))"
proof (induction n)
  case (Suc n)
  then show ?case by (auto simp: le_Suc_eq)
qed (auto intro: gr0I)

text \<open>
  C29: The live messages are appended behind the durable ones without the longest beginning of theirs that the durable ones
  already end with, message by message; no longer overlap matches.
\<close>

theorem merge_longest_overlap:
  "\<exists>k \<le> min (length durable) (length live).
     mergeClaudeTranscriptMessages parse_date (JArr durable) (JArr live) = durable @ drop k live
     \<and> list_all2 (sameClaudeMessage parse_date) (drop (length durable - k) durable) (take k live)
     \<and> (\<forall>j. k < j \<and> j \<le> min (length durable) (length live)
          \<longrightarrow> \<not> list_all2 (sameClaudeMessage parse_date) (drop (length durable - j) durable) (take j live))"
proof (cases "durable = [] \<or> live = []")
  case True
  then have "min (length durable) (length live) = 0" "mergeClaudeTranscriptMessages parse_date (JArr durable) (JArr live) = durable @ live"
    by (auto simp: mergeClaudeTranscriptMessages_def)
  then show ?thesis by (intro exI [of _ 0]) (auto intro: gr0I)
next
  case False
  then have "mergeClaudeTranscriptMessages parse_date (JArr durable) (JArr live)
    = durable @ drop (find_overlap (sameClaudeMessage parse_date) durable live (min (length durable) (length live))) live"
    by (simp add: mergeClaudeTranscriptMessages_def)
  with find_overlap_longest [of "sameClaudeMessage parse_date" durable live "min (length durable) (length live)"] show ?thesis by blast
qed

lemma merge_longest_overlap_witness:
  "mergeClaudeTranscriptMessages (\<lambda>_. None) (JArr [JObj [(''role'', JStr ''user''), (''content'', JStr ''a'')]])
     (JArr [JObj [(''role'', JStr ''user''), (''content'', JStr ''a'')], JObj [(''role'', JStr ''user''), (''content'', JStr ''b'')]])
   = [JObj [(''role'', JStr ''user''), (''content'', JStr ''a'')], JObj [(''role'', JStr ''user''), (''content'', JStr ''b'')]]"
proof -
  let ?a = "JObj [(''role'', JStr ''user''), (''content'', JStr ''a'')]"
  let ?b = "JObj [(''role'', JStr ''user''), (''content'', JStr ''b'')]"
  have same: "list_all2 (sameClaudeMessage (\<lambda>_. None)) (drop (length [?a] - 1) [?a]) (take 1 [?a, ?b])" by code_simp
  obtain k where k: "k \<le> min (length [?a]) (length [?a, ?b])"
    "mergeClaudeTranscriptMessages (\<lambda>_. None) (JArr [?a]) (JArr [?a, ?b]) = [?a] @ drop k [?a, ?b]"
    "\<forall>j. k < j \<and> j \<le> min (length [?a]) (length [?a, ?b])
      \<longrightarrow> \<not> list_all2 (sameClaudeMessage (\<lambda>_. None)) (drop (length [?a] - j) [?a]) (take j [?a, ?b])"
    using merge_longest_overlap [of "[?a]" "[?a, ?b]" "\<lambda>_. None"] by blast
  have "k = 1"
  proof (rule ccontr)
    assume "k \<noteq> 1"
    then have "k < 1 \<and> (1::nat) \<le> min (length [?a]) (length [?a, ?b])" using k(1) by simp
    with k(3) same show False by blast
  qed
  with k(2) show ?thesis by simp
qed

end
