(* ===== verification/Event_Loop.thy ===== *)
theory Event_Loop
  imports Oyster_Prelude
begin

text \<open>
  Asynchronous functions as resumptions: a function runs up to its next \<^verbatim>\<open>await\<close> and leaves what it waits for and the
  continuation, which runs on the state of that later time.  Between the two anything else may have run.  The rules
  of this theory prove such functions one at a time, against a relation that all of them keep; the event loop at its
  end then keeps it as well.
\<close>

section \<open>Asynchronous functions\<close>

datatype ('w, 'o, 's, 'a) prog = Done 'a | Await 'w "'o \<Rightarrow> 's \<Rightarrow> 's \<times> ('w, 'o, 's, 'a) prog"

definition give :: "'a \<Rightarrow> 's \<Rightarrow> 's \<times> ('w, 'o, 's, 'a) prog" where
  "give x s = (s, Done x)"

definition wait_for :: "'w \<Rightarrow> ('o \<Rightarrow> 's \<Rightarrow> 's \<times> ('w, 'o, 's, 'a) prog) \<Rightarrow> 's \<Rightarrow> 's \<times> ('w, 'o, 's, 'a) prog" where
  "wait_for w k s = (s, Await w k)"

primrec prog_bind :: "('a \<Rightarrow> 's \<Rightarrow> 's \<times> ('w, 'o, 's, 'b) prog) \<Rightarrow> ('w, 'o, 's, 'a) prog \<Rightarrow> 's \<Rightarrow> 's \<times> ('w, 'o, 's, 'b) prog" where
  "prog_bind f (Done x) = f x"
| "prog_bind f (Await w k) = (\<lambda>s. (s, Await w (\<lambda>r t. (\<lambda>(t', g). g t') (map_prod id (prog_bind f) (k r t)))))"

definition andThen ::
  "('s \<Rightarrow> 's \<times> ('w, 'o, 's, 'a) prog) \<Rightarrow> ('a \<Rightarrow> 's \<Rightarrow> 's \<times> ('w, 'o, 's, 'b) prog) \<Rightarrow> 's \<Rightarrow> 's \<times> ('w, 'o, 's, 'b) prog" where
  "andThen m f s = (case m s of (s', p) \<Rightarrow> prog_bind f p s')"

text \<open>With errors: the rest of a function does not run when a part of it throws.\<close>

definition andOk ::
  "('s \<Rightarrow> 's \<times> ('w, 'o, 's, 'e + 'a) prog) \<Rightarrow> ('a \<Rightarrow> 's \<Rightarrow> 's \<times> ('w, 'o, 's, 'e + 'b) prog) \<Rightarrow> 's \<Rightarrow> 's \<times> ('w, 'o, 's, 'e + 'b) prog" where
  "andOk m f = andThen m (\<lambda>x. case x of Inl e \<Rightarrow> give (Inl e) | Inr v \<Rightarrow> f v)"

definition reading :: "('s \<Rightarrow> 'v) \<Rightarrow> ('v \<Rightarrow> 's \<Rightarrow> 's \<times> ('w, 'o, 's, 'a) prog) \<Rightarrow> 's \<Rightarrow> 's \<times> ('w, 'o, 's, 'a) prog" where
  "reading v f s = f (v s) s"

definition writing :: "('s \<Rightarrow> 's) \<Rightarrow> ('s \<Rightarrow> 's \<times> ('w, 'o, 's, 'a) prog) \<Rightarrow> 's \<Rightarrow> 's \<times> ('w, 'o, 's, 'a) prog" where
  "writing g m s = m (g s)"

lemma andThen_give [simp]: "andThen (give x) f = f x"
  by (simp add: andThen_def give_def fun_eq_iff)

lemma andThen_wait [simp]: "andThen (wait_for w k) f = wait_for w (\<lambda>r. andThen (k r) f)"
  by (simp add: andThen_def wait_for_def fun_eq_iff map_prod_def split: prod.split)

section \<open>What a function keeps and ensures\<close>

text \<open>
  \<open>meets possible R Q p s\<close>: whatever the others do within \<open>R\<close> while \<open>p\<close> waits, each of its own parts stays within
  \<open>R\<close>, and when it ends with a result \<open>Q\<close> holds of the result and the state.
\<close>

inductive meets :: "('w \<Rightarrow> 's \<Rightarrow> 'o \<Rightarrow> bool) \<Rightarrow> ('s \<Rightarrow> 's \<Rightarrow> bool) \<Rightarrow> ('a \<Rightarrow> 's \<Rightarrow> bool) \<Rightarrow> ('w, 'o, 's, 'a) prog \<Rightarrow> 's \<Rightarrow> bool"
  for possible R Q where
  ended: "Q x s \<Longrightarrow> meets possible R Q (Done x) s"
| waits: "(\<And>r t. R s t \<Longrightarrow> possible w t r \<Longrightarrow> R t (fst (k r t)) \<and> meets possible R Q (snd (k r t)) (fst (k r t)))
    \<Longrightarrow> meets possible R Q (Await w k) s"

inductive_cases meets_DoneE: "meets possible R Q (Done x) s"
inductive_cases meets_AwaitE: "meets possible R Q (Await w k) s"

definition sat ::
  "('w \<Rightarrow> 's \<Rightarrow> 'o \<Rightarrow> bool) \<Rightarrow> ('s \<Rightarrow> 's \<Rightarrow> bool) \<Rightarrow> ('s \<Rightarrow> bool) \<Rightarrow> ('s \<Rightarrow> 's \<times> ('w, 'o, 's, 'a) prog) \<Rightarrow> ('a \<Rightarrow> 's \<Rightarrow> bool) \<Rightarrow> bool" where
  "sat possible R P m Q \<longleftrightarrow> (\<forall>s. P s \<longrightarrow> R s (fst (m s)) \<and> meets possible R Q (snd (m s)) (fst (m s)))"

locale interference =
  fixes possible :: "'w \<Rightarrow> 's \<Rightarrow> 'o \<Rightarrow> bool" and R :: "'s \<Rightarrow> 's \<Rightarrow> bool"
  assumes R_refl: "R s s" and R_trans: "R s t \<Longrightarrow> R t u \<Longrightarrow> R s u"
begin

lemma satI: "(\<And>s. P s \<Longrightarrow> R s (fst (m s)) \<and> meets possible R Q (snd (m s)) (fst (m s))) \<Longrightarrow> sat possible R P m Q"
  by (simp add: sat_def)

lemma satD: "sat possible R P m Q \<Longrightarrow> P s \<Longrightarrow> R s (fst (m s)) \<and> meets possible R Q (snd (m s)) (fst (m s))"
  by (simp add: sat_def)

lemma meets_mono: "meets possible R Q p s \<Longrightarrow> (\<And>x t. Q x t \<Longrightarrow> Q' x t) \<Longrightarrow> meets possible R Q' p s"
  by (induction rule: meets.induct) (auto intro: meets.intros)

lemma meets_later:
  assumes "meets possible R Q (Await w k) s" and "R s t"
  shows "meets possible R Q (Await w k) t"
proof (rule meets.waits)
  fix r u assume "R t u" "possible w u r"
  then show "R u (fst (k r u)) \<and> meets possible R Q (snd (k r u)) (fst (k r u))"
    using assms(1) R_trans [OF assms(2)] by (blast elim: meets_AwaitE)
qed

lemma sat_weaken:
  assumes "sat possible R P m Q" and "\<And>s. P' s \<Longrightarrow> P s" and "\<And>x s. Q x s \<Longrightarrow> Q' x s"
  shows "sat possible R P' m Q'"
  using assms meets_mono unfolding sat_def by blast

lemma sat_give: "(\<And>s. P s \<Longrightarrow> Q x s) \<Longrightarrow> sat possible R P (give x) Q"
  by (rule satI) (simp add: give_def R_refl meets.ended)

lemma sat_wait:
  assumes "\<And>r. sat possible R (\<lambda>t. \<exists>s. P s \<and> R s t \<and> possible w t r) (k r) Q"
  shows "sat possible R P (wait_for w k) Q"
proof (rule satI)
  fix s assume "P s"
  then have "meets possible R Q (Await w k) s"
    by (intro meets.waits satD [OF assms]) blast
  then show "R s (fst (wait_for w k s)) \<and> meets possible R Q (snd (wait_for w k s)) (fst (wait_for w k s))"
    by (simp add: wait_for_def R_refl)
qed

lemma sat_reading: "(\<And>v. sat possible R (\<lambda>s. P s \<and> h s = v) (f v) Q) \<Longrightarrow> sat possible R P (reading h f) Q"
  by (simp add: sat_def reading_def)

lemma sat_writing:
  assumes "\<And>s. P s \<Longrightarrow> R s (g s)" and "sat possible R (\<lambda>t. \<exists>s. P s \<and> t = g s) m Q"
  shows "sat possible R P (writing g m) Q"
proof (rule satI)
  fix s assume P: "P s"
  then have "R (g s) (fst (m (g s))) \<and> meets possible R Q (snd (m (g s))) (fst (m (g s)))"
    by (intro satD [OF assms(2)]) blast
  with R_trans [OF assms(1) [OF P]] show "R s (fst (writing g m s)) \<and> meets possible R Q (snd (writing g m s)) (fst (writing g m s))"
    by (simp add: writing_def)
qed

lemma meets_bind:
  assumes "meets possible R Q' p s" and "\<And>x. sat possible R (Q' x) (f x) Q"
  shows "R s (fst (prog_bind f p s)) \<and> meets possible R Q (snd (prog_bind f p s)) (fst (prog_bind f p s))"
  using assms(1)
proof (induction rule: meets.induct)
  case (ended x s)
  then show ?case using satD [OF assms(2)] by simp
next
  case (waits s w k)
  let ?k = "\<lambda>r t. (\<lambda>(t', g). g t') (map_prod id (prog_bind f) (k r t))"
  have "meets possible R Q (Await w ?k) s"
  proof (rule meets.waits)
    fix r t assume rt: "R s t" "possible w t r"
    obtain t' p where k: "k r t = (t', p)" by fastforce
    then have "R t t'" "R t' (fst (prog_bind f p t')) \<and> meets possible R Q (snd (prog_bind f p t')) (fst (prog_bind f p t'))"
      using waits.IH [OF rt] by auto
    then show "R t (fst (?k r t)) \<and> meets possible R Q (snd (?k r t)) (fst (?k r t))"
      using R_trans [of t t'] by (simp add: k)
  qed
  then show ?case by (simp add: R_refl)
qed

lemma sat_andThen:
  assumes "sat possible R P m Q'" and "\<And>x. sat possible R (Q' x) (f x) Q"
  shows "sat possible R P (andThen m f) Q"
proof (rule satI)
  fix s assume P: "P s"
  obtain t p where m: "m s = (t, p)" by fastforce
  then have "R s t" "meets possible R Q' p t" using satD [OF assms(1) P] by simp_all
  with meets_bind [OF this(2) assms(2)] show "R s (fst (andThen m f s)) \<and> meets possible R Q (snd (andThen m f s)) (fst (andThen m f s))"
    using R_trans by (simp add: andThen_def m)
qed

lemma sat_andOk:
  assumes "sat possible R P m Q'" and "\<And>v. sat possible R (Q' (Inr v)) (f v) Q" and "\<And>e s. Q' (Inl e) s \<Longrightarrow> Q (Inl e) s"
  shows "sat possible R P (andOk m f) Q"
  unfolding andOk_def
proof (rule sat_andThen [OF assms(1)])
  fix x show "sat possible R (Q' x) (case x of Inl e \<Rightarrow> give (Inl e) | Inr v \<Rightarrow> f v) Q"
    using assms(2,3) by (cases x) (auto intro: sat_give)
qed

text \<open>
  A function that does nothing but wait and change the state within \<open>R\<close> leaves every stable fact in place; \<open>K\<close> says
  which results it may have.
\<close>

definition steady :: "('a \<Rightarrow> bool) \<Rightarrow> ('s \<Rightarrow> 's \<times> ('w, 'o, 's, 'a) prog) \<Rightarrow> bool" where
  "steady K m \<longleftrightarrow> (\<forall>P. (\<forall>s t. P s \<longrightarrow> R s t \<longrightarrow> P t) \<longrightarrow> sat possible R P m (\<lambda>x t. P t \<and> K x))"

lemma steadyD: "steady K m \<Longrightarrow> (\<And>s t. P s \<Longrightarrow> R s t \<Longrightarrow> P t) \<Longrightarrow> sat possible R P m (\<lambda>x t. P t \<and> K x)"
  unfolding steady_def by blast

lemma steady_sat: "steady K m \<Longrightarrow> sat possible R (\<lambda>_. True) m (\<lambda>x t. K x)"
  using steadyD [of K m "\<lambda>_. True"] by simp

lemma steady_mono: "steady K m \<Longrightarrow> (\<And>x. K x \<Longrightarrow> K' x) \<Longrightarrow> steady K' m"
  unfolding steady_def by (blast intro: sat_weaken)

lemma steady_give: "K x \<Longrightarrow> steady K (give x)"
  by (simp add: steady_def sat_give)

lemma steady_wait: "(\<And>r. steady K (k r)) \<Longrightarrow> steady K (wait_for w k)"
proof -
  assume k: "\<And>r. steady K (k r)"
  show "steady K (wait_for w k)"
    unfolding steady_def
  proof (intro allI impI sat_wait)
    fix P r assume stable: "\<forall>s t. P s \<longrightarrow> R s t \<longrightarrow> P t"
    then have "sat possible R P (k r) (\<lambda>x t. P t \<and> K x)" using steadyD [OF k] by blast
    then show "sat possible R (\<lambda>t. \<exists>s. P s \<and> R s t \<and> possible w t r) (k r) (\<lambda>x t. P t \<and> K x)"
      by (rule sat_weaken) (use stable in blast)+
  qed
qed

lemma steady_reading: "(\<And>v. steady K (f v)) \<Longrightarrow> steady K (reading h f)"
  unfolding steady_def by (intro allI impI sat_reading) (rule sat_weaken, blast+)

lemma steady_writing: "(\<And>s. R s (g s)) \<Longrightarrow> steady K m \<Longrightarrow> steady K (writing g m)"
  unfolding steady_def by (intro allI impI sat_writing) (assumption | rule sat_weaken, blast+)+

lemma steady_andThen: "steady K' m \<Longrightarrow> (\<And>x. K' x \<Longrightarrow> steady K (f x)) \<Longrightarrow> steady K (andThen m f)"
proof -
  assume m: "steady K' m" and f: "\<And>x. K' x \<Longrightarrow> steady K (f x)"
  show "steady K (andThen m f)"
    unfolding steady_def
  proof (intro allI impI)
    fix P assume stable: "\<forall>s t. P s \<longrightarrow> R s t \<longrightarrow> P t"
    then have mP: "sat possible R P m (\<lambda>x t. P t \<and> K' x)" using steadyD [OF m] by blast
    show "sat possible R P (andThen m f) (\<lambda>x t. P t \<and> K x)"
    proof (rule sat_andThen [OF mP])
      fix x
      show "sat possible R (\<lambda>t. P t \<and> K' x) (f x) (\<lambda>x t. P t \<and> K x)"
      proof (cases "K' x")
        case True
        then show ?thesis using steadyD [OF f, of x P] stable by simp
      qed (simp add: sat_def)
    qed
  qed
qed

lemma steady_andOk:
  "steady (\<lambda>_. True) m \<Longrightarrow> (\<And>v. steady K (f v)) \<Longrightarrow> (\<And>e. K (Inl e)) \<Longrightarrow> steady K (andOk m f)"
  unfolding andOk_def by (rule steady_andThen [where K' = "\<lambda>_. True"]) (auto intro: steady_give split: sum.split)

lemma steady_let: "steady K (f v) \<Longrightarrow> steady K (Let v f)"
  by simp

lemma steady_if: "steady K m \<Longrightarrow> steady K n \<Longrightarrow> steady K (if b then m else n)"
  by simp

lemma steady_sum: "(\<And>e. steady K (f e)) \<Longrightarrow> (\<And>v. steady K (g v)) \<Longrightarrow> steady K (case x of Inl e \<Rightarrow> f e | Inr v \<Rightarrow> g v)"
  by (simp split: sum.split)

lemma steady_option: "steady K m \<Longrightarrow> (\<And>v. steady K (f v)) \<Longrightarrow> steady K (case x of None \<Rightarrow> m | Some v \<Rightarrow> f v)"
  by (simp split: option.split)

lemma steady_prod: "(\<And>u v. steady K (f u v)) \<Longrightarrow> steady K (case x of (u, v) \<Rightarrow> f u v)"
  by (simp split: prod.split)

lemma steady_bool: "steady K m \<Longrightarrow> steady K n \<Longrightarrow> steady K (case x of True \<Rightarrow> m | False \<Rightarrow> n)"
  by (simp split: bool.split)

lemmas steady_intros = steady_give steady_wait steady_reading steady_writing steady_andOk steady_let steady_if
  steady_sum steady_option steady_prod steady_bool

end

section \<open>The event loop\<close>

text \<open>
  The functions that were called, each with the state as it left it.  A call runs its first part; a waiting function
  whose answer is possible runs its next one; \<open>outside\<close> is what changes the state by itself.
\<close>

inductive loop_step ::
  "('w \<Rightarrow> 's \<Rightarrow> 'o \<Rightarrow> bool) \<Rightarrow> ('s \<Rightarrow> 's \<times> ('w, 'o, 's, 'a) prog) set \<Rightarrow> ('s \<Rightarrow> 's \<Rightarrow> bool)
   \<Rightarrow> 's \<times> ('w, 'o, 's, 'a) prog list \<Rightarrow> 's \<times> ('w, 'o, 's, 'a) prog list \<Rightarrow> bool"
  for possible calls outside where
  call: "m \<in> calls \<Longrightarrow> loop_step possible calls outside (s, ps) (fst (m s), ps @ [snd (m s)])"
| resume: "i < length ps \<Longrightarrow> ps ! i = Await w k \<Longrightarrow> possible w s r
    \<Longrightarrow> loop_step possible calls outside (s, ps) (fst (k r s), ps[i := snd (k r s)])"
| outside: "outside s t \<Longrightarrow> loop_step possible calls outside (s, ps) (t, ps)"

context interference begin

definition tasks_meet :: "('a \<Rightarrow> 's \<Rightarrow> bool) \<Rightarrow> 's \<Rightarrow> ('w, 'o, 's, 'a) prog list \<Rightarrow> bool" where
  "tasks_meet Q s ps \<longleftrightarrow> (\<forall>p \<in> set ps. \<exists>t. R t s \<and> meets possible R Q p t)"

lemma tasks_meet_later: "tasks_meet Q s ps \<Longrightarrow> R s t \<Longrightarrow> tasks_meet Q t ps"
  unfolding tasks_meet_def using R_trans by blast

lemma loop_step_keeps:
  assumes "loop_step possible calls outside (s, ps) (t, qs)"
    and "\<And>m. m \<in> calls \<Longrightarrow> sat possible R I m Q" and "\<And>s t. outside s t \<Longrightarrow> R s t" and "I s"
    and "tasks_meet Q s ps"
  shows "R s t \<and> tasks_meet Q t qs"
  using assms(1)
proof cases
  case (call m)
  then have m: "R s t" "meets possible R Q (snd (m s)) t" using satD [OF assms(2) assms(4)] by auto
  then show ?thesis using tasks_meet_later [OF assms(5) m(1)] R_refl call by (auto simp: tasks_meet_def)
next
  case (resume i w k r)
  then have "Await w k \<in> set ps" by (metis nth_mem)
  then obtain u where "R u s" "meets possible R Q (Await w k) u" using assms(5) unfolding tasks_meet_def by blast
  then have st: "R s t" "meets possible R Q (snd (k r s)) t" using resume meets_AwaitE by metis+
  have "set qs \<subseteq> insert (snd (k r s)) (set ps)" using resume by (simp add: set_update_subset_insert)
  with tasks_meet_later [OF assms(5) st(1)] st R_refl show ?thesis unfolding tasks_meet_def by blast
next
  case outside
  then show ?thesis using assms(3) tasks_meet_later [OF assms(5)] by simp
qed

lemma loop_keeps:
  assumes "(loop_step possible calls outside)\<^sup>*\<^sup>* (s, ps) (t, qs)"
    and "\<And>m. m \<in> calls \<Longrightarrow> sat possible R I m Q" and "\<And>s t. outside s t \<Longrightarrow> R s t"
    and "I s" and "\<And>s t. I s \<Longrightarrow> R s t \<Longrightarrow> I t" and "tasks_meet Q s ps"
  shows "R s t \<and> tasks_meet Q t qs"
  using assms(1)
proof (induction "(t, qs)" arbitrary: t qs rule: rtranclp_induct)
  case base
  then show ?case using assms(6) R_refl by simp
next
  case (step y)
  obtain u rs where y: "y = (u, rs)" by fastforce
  with step(3) have u: "R s u" "tasks_meet Q u rs" by auto
  from loop_step_keeps [OF _ assms(2,3) assms(5) [OF assms(4) u(1)] u(2)] step(2) y have "R u t \<and> tasks_meet Q t qs" by blast
  then show ?case using R_trans u(1) by blast
qed

lemma loop_results:
  assumes "tasks_meet Q s ps" and "Done x \<in> set ps" and "\<And>t. Q x t \<Longrightarrow> R t s \<Longrightarrow> Q x s"
  shows "Q x s"
  using assms unfolding tasks_meet_def by (blast elim: meets_DoneE)

end

end
