(* ===== verification/Cloud_Requests.thy ===== *)
theory Cloud_Requests
  imports Box_Registry Event_Loop "HOL-Library.Char_ord" "HOL-Library.List_Lexorder"
begin

text \<open>
  The first part of \<^verbatim>\<open>oyster-hub/cloud-provisioning.mjs\<close>: the requests to the cloud providers and how their answers are read.
  An operation of a provider is an asynchronous function that waits for HTTP answers only.  The digests, the
  signature, the compression and \<^verbatim>\<open>toISOString\<close> are parameters; a code point behind U+00FF does not occur.
\<close>

section \<open>Waiting and answers\<close>

type_synonym cloud_error = "int option \<times> string" \<comment> \<open>status of a \<^verbatim>\<open>CloudProvisioningError\<close> (\<^term>\<open>None\<close> for other errors) and message\<close>

definition failing :: "int \<Rightarrow> string \<Rightarrow> cloud_error + 'a" where
  "failing status message = Inl (Some status, message)"

definition type_error :: cloud_error where
  "type_error = (None, ''TypeError'')"

record http_request =
  rq_method :: string
  rq_url :: string
  rq_headers :: "(string \<times> string) list"
  rq_body :: "string option"

datatype cloud_wait =
    Http http_request
  | Disk \<comment> \<open>a write of a state file\<close>
  | Registering string \<comment> \<open>\<^verbatim>\<open>prepareRegistration\<close> before it draws its random values\<close>
  | Refreshing nat \<comment> \<open>the promise of a running refresh\<close>

datatype cloud_answer =
    Unreachable string
  | Answered nat string string \<comment> \<open>status, status text and body\<close>
  | Stored bool
  | Drawn string string \<comment> \<open>generation and bootstrap secret\<close>
  | Settled

type_synonym ('s, 'a) hub_prog = "'s \<times> (cloud_wait, cloud_answer, 's, cloud_error + 'a) prog"

definition required_text :: "json option \<Rightarrow> string \<Rightarrow> cloud_error + string" where
  "required_text v label =
     (case v of
        Some (JStr t) \<Rightarrow> if js_trim t = [] then failing 400 (label @ '' is required'') else Inr (js_trim t)
      | _ \<Rightarrow> failing 400 (label @ '' is required''))"

text \<open>\<^verbatim>\<open>value.k\<close>, which throws on \<^verbatim>\<open>null\<close>.\<close>

definition js_member :: "json \<Rightarrow> string \<Rightarrow> cloud_error + json option" where
  "js_member v k = (if v = JNull then Inl type_error else Inr (js_get v k))"

definition status_line :: "nat \<Rightarrow> string \<Rightarrow> string" where
  "status_line status statusText = nat_text status @ '' '' @ statusText"

definition responseValue :: "string \<Rightarrow> nat \<Rightarrow> string \<Rightarrow> string \<Rightarrow> cloud_error + json" where
  "responseValue name status statusText body =
     (case (if body = [] then Some (JObj []) else json_parse body) of
        None \<Rightarrow> failing 502 (name @ '' returned a non-JSON response ('' @ nat_text status @ '')'')
      | Some v \<Rightarrow>
          if 200 \<le> status \<and> status \<le> 299 then Inr v
          else failing (if status = 401 \<or> status = 403 then int status else 502)
            (name @ '': '' @ js_string (or_json (js_get v ''message'') (or_json (field2 v ''error'' ''message'')
              (or_json (js_get v ''error_description'') (or_json (js_get v ''error'') (JStr (status_line status statusText))))))))"

definition ask :: "(string \<Rightarrow> string) \<Rightarrow> http_request \<Rightarrow> (nat \<Rightarrow> string \<Rightarrow> string \<Rightarrow> cloud_error + 'a) \<Rightarrow> 's \<Rightarrow> ('s, 'a) hub_prog" where
  "ask unreachable q answer =
     wait_for (Http q) (\<lambda>r. case r of
        Unreachable m \<Rightarrow> give (failing 502 (unreachable m))
      | Answered status statusText body \<Rightarrow> give (answer status statusText body)
      | _ \<Rightarrow> give (Inl type_error))"

definition json_headers :: "string \<Rightarrow> bool \<Rightarrow> (string \<times> string) list" where
  "json_headers token hasBody =
     [(''accept'', ''application/json''), (''authorization'', ''Bearer '' @ token)]
     @ (if hasBody then [(''content-type'', ''application/json'')] else [])"

definition unreserved :: "nat \<Rightarrow> bool" where
  "unreserved n \<longleftrightarrow> (48 \<le> n \<and> n \<le> 57) \<or> (65 \<le> n \<and> n \<le> 90) \<or> (97 \<le> n \<and> n \<le> 122) \<or> n \<in> {33, 39, 40, 41, 42, 45, 46, 95, 126}"

definition percent_byte :: "nat \<Rightarrow> string" where
  "percent_byte n = [CHR ''%'', hex_upper (n div 16), hex_upper (n mod 16)]"

definition encodeURIComponent :: "string \<Rightarrow> string" where
  "encodeURIComponent t = concat (map (\<lambda>n. if unreserved n then [char_of n] else percent_byte n) (utf8_encode t))"

text \<open>A request for a virtual machine, a machine made, and a machine to be managed.\<close>

record machine_request =
  mr_name :: string
  mr_region :: string
  mr_size :: string
  mr_image :: string
  mr_boxId :: string
  mr_generation :: string
  mr_userData :: string

record machine =
  mc_instanceId :: string
  mc_state :: json
  mc_consoleUrl :: "string option"

record machine_place =
  mp_instanceId :: string
  mp_region :: string
  mp_boxName :: string \<comment> \<open>\<^verbatim>\<open>record.boxId || record.name\<close>\<close>

datatype machine_action = Pause | Resume | Destroy

definition token_of :: "json \<Rightarrow> string" where
  "token_of credential = js_string_opt (js_get credential ''token'')"

section \<open>DigitalOcean\<close>

definition digitalOceanRequest :: "string \<Rightarrow> string \<Rightarrow> json option \<Rightarrow> json \<Rightarrow> 's \<Rightarrow> ('s, json) hub_prog" where
  "digitalOceanRequest verb path body credential =
     ask ((@) ''DigitalOcean request failed: '')
       \<lparr>rq_method = verb, rq_url = ''https://api.digitalocean.com/v2'' @ path,
        rq_headers = json_headers (token_of credential) (body \<noteq> None), rq_body = map_option json_text body\<rparr>
       (responseValue ''DigitalOcean'')"

fun some_tag :: "json list \<Rightarrow> cloud_error + bool" where
  "some_tag [] = Inr False"
| "some_tag (t # ts) =
     (case js_member t ''name'' of
        Inl e \<Rightarrow> Inl e
      | Inr v \<Rightarrow> if v = Some (JStr ''oyster-hub'') then Inr True else some_tag ts)"

definition has_ownership_tag :: "json \<Rightarrow> cloud_error + bool" where
  "has_ownership_tag value =
     (case js_member value ''tags'' of
        Inl e \<Rightarrow> Inl e
      | Inr v \<Rightarrow> if \<not> truthy_json v then Inr False else (case v of Some (JArr ts) \<Rightarrow> some_tag ts | _ \<Rightarrow> Inl type_error))"

definition ensureDigitalOceanOwnershipTag :: "json \<Rightarrow> 's \<Rightarrow> ('s, unit) hub_prog" where
  "ensureDigitalOceanOwnershipTag credential =
     andOk (digitalOceanRequest ''GET'' ''/tags?per_page=200'' None credential) (\<lambda>value.
       case has_ownership_tag value of
         Inl e \<Rightarrow> give (Inl e)
       | Inr True \<Rightarrow> give (Inr ())
       | Inr False \<Rightarrow> andOk (digitalOceanRequest ''POST'' ''/tags'' (Some (JObj [(''name'', JStr ''oyster-hub'')])) credential) (\<lambda>_. give (Inr ())))"

definition digitalOceanManage :: "machine_place \<Rightarrow> machine_action \<Rightarrow> json \<Rightarrow> 's \<Rightarrow> ('s, json) hub_prog" where
  "digitalOceanManage mp action credential =
     (case required_text (Some (JStr (mp_instanceId mp))) ''DigitalOcean instance ID'' of
        Inl e \<Rightarrow> give (Inl e)
      | Inr i \<Rightarrow>
          if action = Destroy
          then andOk (digitalOceanRequest ''DELETE'' (''/droplets/'' @ encodeURIComponent i) None credential) (\<lambda>_. give (Inr (JStr ''destroyed'')))
          else andOk (digitalOceanRequest ''POST'' (''/droplets/'' @ encodeURIComponent i @ ''/actions'')
                 (Some (JObj [(''type'', JStr (if action = Pause then ''power_off'' else ''power_on''))])) credential) (\<lambda>value.
            case js_member value ''action'' of
              Inl e \<Rightarrow> give (Inl e)
            | Inr v \<Rightarrow> give (Inr (or_json (Option.bind v (\<lambda>a. js_get a ''status'')) (JStr (if action = Pause then ''paused'' else ''resuming''))))))"

definition digitalOceanProvision :: "machine_request \<Rightarrow> json \<Rightarrow> 's \<Rightarrow> ('s, machine) hub_prog" where
  "digitalOceanProvision q credential =
     andOk (ensureDigitalOceanOwnershipTag credential) (\<lambda>_.
     andOk (digitalOceanRequest ''POST'' ''/droplets'' (Some (JObj
         [(''name'', JStr (mr_name q)), (''region'', JStr (mr_region q)), (''size'', JStr (mr_size q)), (''image'', JStr (mr_image q)),
          (''user_data'', JStr (mr_userData q)), (''tags'', JArr [JStr ''oyster-hub''])])) credential) (\<lambda>value.
       case js_member value ''droplet'' of
         Inl e \<Rightarrow> give (Inl e)
       | Inr v \<Rightarrow>
           (let i = js_string (or_json (Option.bind v (\<lambda>d. js_get d ''id'')) (JStr []))
            in give (Inr \<lparr>mc_instanceId = i, mc_state = or_json (Option.bind v (\<lambda>d. js_get d ''status'')) (JStr ''new''),
                 mc_consoleUrl = (if i = [] then None else Some (''https://cloud.digitalocean.com/droplets/'' @ encodeURIComponent i))\<rparr>))))"

section \<open>Hetzner Cloud\<close>

definition hetznerRequest :: "string \<Rightarrow> string \<Rightarrow> json option \<Rightarrow> json \<Rightarrow> 's \<Rightarrow> ('s, json) hub_prog" where
  "hetznerRequest verb path body credential =
     ask ((@) ''Hetzner Cloud request failed: '')
       \<lparr>rq_method = verb, rq_url = ''https://api.hetzner.cloud/v1'' @ path,
        rq_headers = json_headers (token_of credential) (body \<noteq> None), rq_body = map_option json_text body\<rparr>
       (responseValue ''Hetzner Cloud'')"

definition hetznerManage :: "machine_place \<Rightarrow> machine_action \<Rightarrow> json \<Rightarrow> 's \<Rightarrow> ('s, json) hub_prog" where
  "hetznerManage mp action credential =
     (case required_text (Some (JStr (mp_instanceId mp))) ''Hetzner Cloud instance ID'' of
        Inl e \<Rightarrow> give (Inl e)
      | Inr i \<Rightarrow>
          if action = Destroy
          then andOk (hetznerRequest ''DELETE'' (''/servers/'' @ encodeURIComponent i) None credential) (\<lambda>_. give (Inr (JStr ''destroyed'')))
          else andOk (hetznerRequest ''POST'' (''/servers/'' @ encodeURIComponent i @ ''/actions/''
                 @ (if action = Pause then ''shutdown'' else ''poweron'')) None credential) (\<lambda>_.
            give (Inr (JStr (if action = Pause then ''stopping'' else ''starting'')))))"

definition hetznerProvision :: "machine_request \<Rightarrow> json \<Rightarrow> 's \<Rightarrow> ('s, machine) hub_prog" where
  "hetznerProvision q credential =
     andOk (hetznerRequest ''POST'' ''/servers'' (Some (JObj
         [(''name'', JStr (mr_name q)), (''server_type'', JStr (mr_size q)), (''image'', JStr (mr_image q)), (''location'', JStr (mr_region q)),
          (''user_data'', JStr (mr_userData q)),
          (''labels'', JObj [(''managed-by'', JStr ''oyster-hub''), (''oyster-box-id'', JStr (mr_boxId q)), (''oyster-generation'', JStr (mr_generation q))])]))
         credential) (\<lambda>value.
       case js_member value ''server'' of
         Inl e \<Rightarrow> give (Inl e)
       | Inr v \<Rightarrow>
           (let server = or_json v (JObj []);
                i = js_string (or_json (js_get server ''id'') (JStr []))
            in if i = [] then give (failing 502 ''Hetzner Cloud did not return a server ID'')
               else give (Inr \<lparr>mc_instanceId = i, mc_state = or_json (js_get server ''status'') (JStr ''starting''),
                      mc_consoleUrl = Some ''https://console.hetzner.cloud/''\<rparr>)))"

section \<open>Amazon Web Services\<close>

text \<open>What of the platform the code calls.\<close>

record platform =
  pf_sha256 :: "string \<Rightarrow> string" \<comment> \<open>in hexadecimal digits\<close>
  pf_hmac :: "string \<Rightarrow> string \<Rightarrow> string" \<comment> \<open>key and message, the raw digest as one character a byte\<close>
  pf_hmac_hex :: "string \<Rightarrow> string \<Rightarrow> string"
  pf_iso :: "int \<Rightarrow> string" \<comment> \<open>\<^verbatim>\<open>toISOString\<close>\<close>
  pf_before :: "string \<Rightarrow> string \<Rightarrow> bool" \<comment> \<open>\<^verbatim>\<open>left.localeCompare(right) < 0\<close>\<close>
  pf_gzip :: "string \<Rightarrow> string" \<comment> \<open>compressed, in base64\<close>
  pf_rs256 :: "string \<Rightarrow> string \<Rightarrow> string + string" \<comment> \<open>private key and message; the signature in base64url\<close>
  pf_date :: "string \<Rightarrow> int option" \<comment> \<open>\<^verbatim>\<open>Date.parse\<close>\<close>

definition awsEncode :: "string \<Rightarrow> string" where
  "awsEncode t = concat (map (\<lambda>c. if c \<in> set ''!()*'' \<or> c = CHR 0x27 then percent_byte (of_char c) else [c]) (encodeURIComponent t))"

fun awsTimestamp :: "string \<Rightarrow> string" where
  "awsTimestamp (CHR ''.'' # a # b # c # cs) =
     (if is_digit a \<and> is_digit b \<and> is_digit c then awsTimestamp cs else CHR ''.'' # awsTimestamp (a # b # c # cs))"
| "awsTimestamp (c # cs) = (if c \<in> set '':-'' then awsTimestamp cs else c # awsTimestamp cs)"
| "awsTimestamp [] = []"

fun insert_entry :: "(string \<Rightarrow> string \<Rightarrow> bool) \<Rightarrow> string \<times> string \<Rightarrow> (string \<times> string) list \<Rightarrow> (string \<times> string) list" where
  "insert_entry before x [] = [x]"
| "insert_entry before x (y # ys) = (if before (fst y) (fst x) then y # insert_entry before x ys else x # y # ys)"

definition sorted_entries :: "(string \<Rightarrow> string \<Rightarrow> bool) \<Rightarrow> (string \<times> string) list \<Rightarrow> (string \<times> string) list" where
  "sorted_entries before es = foldr (insert_entry before) es []"

definition LF_join :: "string list \<Rightarrow> string" where
  "LF_join ls = js_join [CHR 0x0A] ls"

definition canonical_headers :: "(string \<times> string) list \<Rightarrow> string" where
  "canonical_headers hs = concat (map (\<lambda>(k, v). k @ '':'' @ js_trim v @ [CHR 0x0A]) hs)"

definition signing_key :: "platform \<Rightarrow> string \<Rightarrow> string \<Rightarrow> string \<Rightarrow> string \<Rightarrow> string" where
  "signing_key pf secretKey date region service =
     pf_hmac pf (pf_hmac pf (pf_hmac pf (pf_hmac pf (''AWS4'' @ secretKey) date) region) service) ''aws4_request''"

definition string_to_sign :: "platform \<Rightarrow> string \<Rightarrow> string \<Rightarrow> string \<Rightarrow> string" where
  "string_to_sign pf timestamp scope canonicalRequest = LF_join [''AWS4-HMAC-SHA256'', timestamp, scope, pf_sha256 pf canonicalRequest]"

definition aws_body :: "platform \<Rightarrow> string \<Rightarrow> string \<Rightarrow> (string \<times> string) list \<Rightarrow> string" where
  "aws_body pf action version parameters =
     js_join ''&'' (map (\<lambda>(k, v). awsEncode k @ ''='' @ awsEncode v)
       (sorted_entries (pf_before pf) ((''Action'', action) # (''Version'', version) # parameters)))"

definition aws_signed_headers :: "json \<Rightarrow> string \<Rightarrow> string \<Rightarrow> (string \<times> string) list" where
  "aws_signed_headers credential host timestamp =
     [(''content-type'', ''application/x-www-form-urlencoded; charset=utf-8''), (''host'', host), (''x-amz-date'', timestamp)]
     @ (if truthy_json (js_get credential ''sessionToken'') then [(''x-amz-security-token'', js_string (the (js_get credential ''sessionToken'')))] else [])"

definition aws_request ::
  "platform \<Rightarrow> int \<Rightarrow> string \<Rightarrow> string \<Rightarrow> string \<Rightarrow> string \<Rightarrow> string \<Rightarrow> (string \<times> string) list \<Rightarrow> string \<Rightarrow> json \<Rightarrow> http_request" where
  "aws_request pf now service host endpoint action version parameters region credential =
     (let timestamp = awsTimestamp (pf_iso pf now);
          date = take 8 timestamp;
          body = aws_body pf action version parameters;
          headers = aws_signed_headers credential host timestamp;
          names = sort (map fst headers);
          canonicalHeaders = canonical_headers (map (\<lambda>k. (k, the (map_of headers k))) names);
          signedHeaders = js_join '';'' names;
          canonicalRequest = LF_join [''POST'', ''/'', [], canonicalHeaders, signedHeaders, pf_sha256 pf body];
          scope = date @ ''/'' @ region @ ''/'' @ service @ ''/aws4_request'';
          signature = pf_hmac_hex pf (signing_key pf (js_string_opt (js_get credential ''secretAccessKey'')) date region service)
            (string_to_sign pf timestamp scope canonicalRequest)
      in \<lparr>rq_method = ''POST'', rq_url = endpoint,
          rq_headers = headers @ [(''authorization'', ''AWS4-HMAC-SHA256 Credential='' @ js_string_opt (js_get credential ''accessKeyId'') @ ''/'' @ scope
            @ '', SignedHeaders='' @ signedHeaders @ '', Signature='' @ signature)],
          rq_body = Some body\<rparr>)"

text \<open>\<^verbatim>\<open>xmlFirst\<close>: the text of the first element with this tag, in any case of letters.\<close>

fun replace_all :: "nat \<Rightarrow> string \<Rightarrow> string \<Rightarrow> string \<Rightarrow> string" where
  "replace_all (Suc n) pat rep [] = []"
| "replace_all (Suc n) pat rep (c # cs) =
     (if prefix_of pat (c # cs) then rep @ replace_all n pat rep (drop (length pat) (c # cs)) else c # replace_all n pat rep cs)"
| "replace_all 0 pat rep cs = cs"

definition js_replace_all :: "string \<Rightarrow> string \<Rightarrow> string \<Rightarrow> string" where
  "js_replace_all pat rep t = replace_all (Suc (length t)) pat rep t"

definition decodeXml :: "string \<Rightarrow> string" where
  "decodeXml t = js_replace_all ''&amp;'' ''&'' (js_replace_all ''&apos;'' [CHR 0x27] (js_replace_all ''&quot;'' [CHR 0x22]
     (js_replace_all ''&gt;'' ''>'' (js_replace_all ''&lt;'' ''<'' t))))"

definition xmlFirst :: "string \<Rightarrow> string \<Rightarrow> string" where
  "xmlFirst xml tag =
     (let opening = js_lower (''<'' @ tag @ ''>''); closing = js_lower (''</'' @ tag @ ''>'') in
      case index_in opening (js_lower xml) of
        None \<Rightarrow> []
      | Some i \<Rightarrow>
          (let rest = drop (i + length opening) xml in
           case index_in closing (js_lower rest) of None \<Rightarrow> [] | Some j \<Rightarrow> decodeXml (take j rest)))"

definition aws_answer :: "nat \<Rightarrow> string \<Rightarrow> string \<Rightarrow> cloud_error + string" where
  "aws_answer status statusText body =
     (if 200 \<le> status \<and> status \<le> 299 then Inr body
      else failing (if status = 401 \<or> status = 403 then 401 else 502)
        (''AWS: '' @ (let detail = xmlFirst body ''Message'' in if detail = [] then status_line status statusText else detail)))"

definition awsQueryRequest ::
  "platform \<Rightarrow> ('s \<Rightarrow> int) \<Rightarrow> string \<Rightarrow> string \<Rightarrow> string \<Rightarrow> string \<Rightarrow> (string \<times> string) list \<Rightarrow> string \<Rightarrow> json \<Rightarrow> 's \<Rightarrow> ('s, string) hub_prog" where
  "awsQueryRequest pf clock service host action version parameters region credential =
     reading clock (\<lambda>now. ask ((@) ''AWS request failed: '')
       (aws_request pf now service host (''https://'' @ host @ ''/'') action version parameters region credential) aws_answer)"

definition awsRequest :: "platform \<Rightarrow> ('s \<Rightarrow> int) \<Rightarrow> string \<Rightarrow> (string \<times> string) list \<Rightarrow> string \<Rightarrow> json \<Rightarrow> 's \<Rightarrow> ('s, string) hub_prog" where
  "awsRequest pf clock action parameters region credential =
     awsQueryRequest pf clock ''ec2'' (''ec2.'' @ region @ ''.amazonaws.com'') action ''2016-11-15'' parameters region credential"

text \<open>Temporary credentials of a role; \<^verbatim>\<open>expiresAt\<close> is left out where \<^verbatim>\<open>Date.parse\<close> gives \<^verbatim>\<open>NaN\<close>.\<close>

definition awsAssumeRole :: "platform \<Rightarrow> ('s \<Rightarrow> int) \<Rightarrow> json \<Rightarrow> json \<Rightarrow> 's \<Rightarrow> ('s, json) hub_prog" where
  "awsAssumeRole pf clock role sourceCredential =
     reading clock (\<lambda>now.
     andOk (awsQueryRequest pf clock ''sts'' ''sts.amazonaws.com'' ''AssumeRole'' ''2011-06-15''
         [(''RoleArn'', js_string_opt (js_get role ''roleArn'')), (''RoleSessionName'', ''oyster-hub-'' @ int_text now),
          (''ExternalId'', js_string_opt (js_get role ''externalId'')), (''DurationSeconds'', ''3600'')]
         ''us-east-1'' sourceCredential) (\<lambda>xml.
       if xmlFirst xml ''AccessKeyId'' = [] \<or> xmlFirst xml ''SecretAccessKey'' = [] \<or> xmlFirst xml ''SessionToken'' = []
       then give (failing 502 ''AWS STS did not return temporary credentials'')
       else give (Inr (JObj ([(''kind'', JStr ''temporary''), (''accessKeyId'', JStr (xmlFirst xml ''AccessKeyId'')),
              (''secretAccessKey'', JStr (xmlFirst xml ''SecretAccessKey'')), (''sessionToken'', JStr (xmlFirst xml ''SessionToken''))]
              @ (case pf_date pf (xmlFirst xml ''Expiration'') of Some t \<Rightarrow> [(''expiresAt'', JNum t)] | None \<Rightarrow> [])
              @ [(''defaultRegion'', or_json (js_get role ''defaultRegion'') (JStr ''us-east-1''))])))))"

definition or_text :: "string \<Rightarrow> string \<Rightarrow> string" where
  "or_text a b = (if a = [] then b else a)"

definition awsManage :: "platform \<Rightarrow> ('s \<Rightarrow> int) \<Rightarrow> machine_place \<Rightarrow> machine_action \<Rightarrow> json \<Rightarrow> 's \<Rightarrow> ('s, json) hub_prog" where
  "awsManage pf clock mp action credential =
     (case required_text (Some (JStr (mp_region mp))) ''AWS region'' of
        Inl e \<Rightarrow> give (Inl e)
      | Inr region \<Rightarrow>
          (case required_text (Some (JStr (mp_instanceId mp))) ''AWS instance ID'' of
             Inl e \<Rightarrow> give (Inl e)
           | Inr i \<Rightarrow>
               andOk (awsRequest pf clock (case action of Pause \<Rightarrow> ''StopInstances'' | Resume \<Rightarrow> ''StartInstances'' | Destroy \<Rightarrow> ''TerminateInstances'')
                   [(''InstanceId.1'', i)] region credential) (\<lambda>xml.
                 give (Inr (JStr (or_text (xmlFirst xml ''name'')
                   (case action of Destroy \<Rightarrow> ''terminated'' | Pause \<Rightarrow> ''stopping'' | Resume \<Rightarrow> ''pending'')))))))"

definition awsProvision :: "platform \<Rightarrow> ('s \<Rightarrow> int) \<Rightarrow> machine_request \<Rightarrow> json \<Rightarrow> 's \<Rightarrow> ('s, machine) hub_prog" where
  "awsProvision pf clock q credential =
     andOk (awsRequest pf clock ''RunInstances''
         [(''ImageId'', mr_image q), (''InstanceType'', mr_size q), (''MinCount'', ''1''), (''MaxCount'', ''1''), (''UserData'', pf_gzip pf (mr_userData q)),
          (''TagSpecification.1.ResourceType'', ''instance''),
          (''TagSpecification.1.Tag.1.Key'', ''Name''), (''TagSpecification.1.Tag.1.Value'', mr_name q),
          (''TagSpecification.1.Tag.2.Key'', ''oyster:managed-by''), (''TagSpecification.1.Tag.2.Value'', ''oyster-hub''),
          (''TagSpecification.1.Tag.3.Key'', ''oyster:box-id''), (''TagSpecification.1.Tag.3.Value'', mr_boxId q),
          (''TagSpecification.1.Tag.4.Key'', ''oyster:generation''), (''TagSpecification.1.Tag.4.Value'', mr_generation q)]
         (mr_region q) credential) (\<lambda>xml.
       (let i = xmlFirst xml ''instanceId'' in
        if i = [] then give (failing 502 ''AWS did not return an instance ID'')
        else give (Inr \<lparr>mc_instanceId = i, mc_state = JStr (or_text (xmlFirst xml ''name'') ''pending''),
          mc_consoleUrl = Some (''https://'' @ mr_region q @ ''.console.aws.amazon.com/ec2/home?region='' @ encodeURIComponent (mr_region q)
            @ ''#InstanceDetails:instanceId='' @ encodeURIComponent i)\<rparr>)))"

section \<open>Google Cloud\<close>

definition base64url :: "string \<Rightarrow> string" where
  "base64url t = b64_encode (utf8_encode t)"

definition gcp_assertion :: "json \<Rightarrow> int \<Rightarrow> string" where
  "gcp_assertion credential now =
     base64url (json_text (JObj [(''alg'', JStr ''RS256''), (''typ'', JStr ''JWT'')])) @ ''.'' @ base64url (json_text (JObj
       [(''iss'', JStr (js_string_opt (js_get credential ''clientEmail''))), (''scope'', JStr ''https://www.googleapis.com/auth/compute''),
        (''aud'', JStr (js_string_opt (js_get credential ''tokenUri''))), (''iat'', JNum now), (''exp'', JNum (now + 3600))]))"

definition gcpAccessToken :: "platform \<Rightarrow> ('s \<Rightarrow> int) \<Rightarrow> json \<Rightarrow> 's \<Rightarrow> ('s, string) hub_prog" where
  "gcpAccessToken pf clock credential =
     (if js_get credential ''kind'' = Some (JStr ''oauth'')
      then give (required_text (js_get credential ''accessToken'') ''Google OAuth access token'')
      else reading clock (\<lambda>now.
        let assertion = gcp_assertion credential (now div 1000) in
        case pf_rs256 pf (js_string_opt (js_get credential ''privateKey'')) assertion of
          Inl m \<Rightarrow> give (failing 400 (''GCP service account private key is invalid: '' @ m))
        | Inr signature \<Rightarrow>
            andOk (ask ((@) ''GCP OAuth request failed: '')
                \<lparr>rq_method = ''POST'', rq_url = js_string_opt (js_get credential ''tokenUri''),
                 rq_headers = [(''content-type'', ''application/x-www-form-urlencoded'')],
                 rq_body = Some (form_encode [(''grant_type'', ''urn:ietf:params:oauth:grant-type:jwt-bearer''), (''assertion'', assertion @ ''.'' @ signature)])\<rparr>
                (responseValue ''GCP OAuth'')) (\<lambda>value.
              case js_member value ''access_token'' of
                Inl e \<Rightarrow> give (Inl e)
              | Inr v \<Rightarrow> give (required_text v ''GCP OAuth access token''))))"

definition gcpRequest :: "platform \<Rightarrow> ('s \<Rightarrow> int) \<Rightarrow> string \<Rightarrow> string \<Rightarrow> json option \<Rightarrow> json \<Rightarrow> 's \<Rightarrow> ('s, json) hub_prog" where
  "gcpRequest pf clock verb path body credential =
     andOk (gcpAccessToken pf clock credential) (\<lambda>token.
       ask ((@) ''GCP request failed: '')
         \<lparr>rq_method = verb,
          rq_url = ''https://compute.googleapis.com/compute/v1/projects/'' @ encodeURIComponent (js_string_opt (js_get credential ''projectId'')) @ path,
          rq_headers = json_headers token (body \<noteq> None), rq_body = map_option json_text body\<rparr>
         (responseValue ''GCP''))"

definition gcpManage :: "platform \<Rightarrow> ('s \<Rightarrow> int) \<Rightarrow> machine_place \<Rightarrow> machine_action \<Rightarrow> json \<Rightarrow> 's \<Rightarrow> ('s, json) hub_prog" where
  "gcpManage pf clock mp action credential =
     (case required_text (Some (JStr (mp_region mp))) ''GCP zone'' of
        Inl e \<Rightarrow> give (Inl e)
      | Inr zone \<Rightarrow>
          (case required_text (Some (JStr (mp_boxName mp))) ''GCP instance name'' of
             Inl e \<Rightarrow> give (Inl e)
           | Inr i \<Rightarrow>
               andOk (gcpRequest pf clock (if action = Destroy then ''DELETE'' else ''POST'')
                   (''/zones/'' @ encodeURIComponent zone @ ''/instances/'' @ encodeURIComponent i
                      @ (case action of Destroy \<Rightarrow> [] | Pause \<Rightarrow> ''/stop'' | Resume \<Rightarrow> ''/start'')) None credential) (\<lambda>value.
                 case js_member value ''status'' of
                   Inl e \<Rightarrow> give (Inl e)
                 | Inr v \<Rightarrow> give (Inr (or_json v (JStr (case action of Destroy \<Rightarrow> ''destroyed'' | Pause \<Rightarrow> ''stopping'' | Resume \<Rightarrow> ''pending'')))))))"

definition gcp_label :: "string \<Rightarrow> string" where
  "gcp_label t = take 63 (map (\<lambda>c. if is_digit c \<or> (97 \<le> (of_char c :: nat) \<and> (of_char c :: nat) \<le> 122) \<or> c \<in> set ''_-'' then c else CHR ''-'') (js_lower t))"

definition gcpProvision :: "platform \<Rightarrow> ('s \<Rightarrow> int) \<Rightarrow> machine_request \<Rightarrow> json \<Rightarrow> 's \<Rightarrow> ('s, machine) hub_prog" where
  "gcpProvision pf clock q credential =
     andOk (gcpRequest pf clock ''POST'' (''/zones/'' @ encodeURIComponent (mr_region q) @ ''/instances'') (Some (JObj
         [(''name'', JStr (mr_name q)), (''machineType'', JStr (''zones/'' @ mr_region q @ ''/machineTypes/'' @ mr_size q)),
          (''disks'', JArr [JObj [(''boot'', JBool True), (''autoDelete'', JBool True),
             (''initializeParams'', JObj [(''sourceImage'', JStr (''projects/ubuntu-os-cloud/global/images/'' @ mr_image q))])]]),
          (''networkInterfaces'', JArr [JObj [(''network'', JStr ''global/networks/default''),
             (''accessConfigs'', JArr [JObj [(''name'', JStr ''External NAT''), (''type'', JStr ''ONE_TO_ONE_NAT'')]])]]),
          (''labels'', JObj [(''managed_by'', JStr ''oyster-hub''), (''oyster_box'', JStr (gcp_label (mr_boxId q))), (''generation'', JStr (gcp_label (mr_generation q)))]),
          (''metadata'', JObj [(''items'', JArr [JObj [(''key'', JStr ''user-data''), (''value'', JStr (mr_userData q))]])])])) credential) (\<lambda>value.
       case (js_member value ''targetId'', js_member value ''status'') of
         (Inr i, Inr st) \<Rightarrow> give (Inr
           \<lparr>mc_instanceId = js_string (or_json i (JStr (mr_name q))), mc_state = or_json st (JStr ''PENDING''),
            mc_consoleUrl = Some (''https://console.cloud.google.com/compute/instancesDetail/zones/'' @ encodeURIComponent (mr_region q) @ ''/instances/''
              @ encodeURIComponent (mr_name q) @ ''?project='' @ encodeURIComponent (js_string_opt (js_get credential ''projectId'')))\<rparr>)
       | _ \<Rightarrow> give (Inl type_error))"

end
