(* ===== verification/Cloud_Provisioning.thy ===== *)
theory Cloud_Provisioning
  imports Cloud_Requests
begin

text \<open>
  The service of \<^verbatim>\<open>oyster-hub/cloud-provisioning.mjs\<close>: credentials, logins by role and by device, and the life of a cloud
  workspace, on top of the box registry.  A workspace object is shared by the list and by the functions that wait, so
  objects have addresses.  The state is loaded; of \<^verbatim>\<open>persist\<close> only that it waits and may fail is modelled, not the
  encrypted file.  An await that only passes on a value that is there (\<^verbatim>\<open>load\<close>, \<^verbatim>\<open>get\<close>) does not yield.
  \<^verbatim>\<open>createOysterCloudInit\<close>, the text of a boot script, is a parameter.
\<close>

section \<open>State\<close>

record workspace =
  ws_id :: string
  ws_name :: string
  ws_boxId :: "string option"
  ws_generation :: "string option"
  ws_status :: string
  ws_created :: int
  ws_paused :: "int option"
  ws_resumed :: "int option"
  ws_provider :: string
  ws_providerName :: string
  ws_instance :: string
  ws_state :: json
  ws_region :: string
  ws_size :: string
  ws_image :: string
  ws_console :: "string option"

record aws_role =
  ar_status :: string
  ar_arn :: string
  ar_external :: string
  ar_region :: string
  ar_expires :: int
  ar_url :: string

record handoff =
  ho_provider :: string
  ho_status :: string
  ho_expires :: int

record hub =
  hu_registry :: registry
  hu_credentials :: "(string, json) jsmap"
  hu_objects :: "nat \<Rightarrow> workspace option"
  hu_next :: nat
  hu_listed :: "nat list" \<comment> \<open>\<^verbatim>\<open>state.workspaces\<close>\<close>
  hu_roles :: "(string, aws_role) jsmap"
  hu_temporary :: "(string, json) jsmap"
  hu_handoffs :: "(string, handoff) jsmap"
  hu_refreshing :: "(string, nat) jsmap" \<comment> \<open>\<^verbatim>\<open>oauthRefreshes\<close>\<close>
  hu_promises :: "nat \<Rightarrow> (cloud_error + json) option"
  hu_promise :: nat

record aws_settings =
  aw_keyId :: string
  aw_secret :: string
  aw_token :: string
  aw_principal :: string
  aw_template :: string
  aw_role :: string
  aw_stack :: string
  aw_region :: string

record hub_config =
  hc_platform :: platform
  hc_oauth :: "string \<Rightarrow> oauth_settings option"
  hc_aws :: aws_settings
  hc_hash :: "string \<Rightarrow> string"
  hc_userData :: "string \<Rightarrow> string \<Rightarrow> string \<Rightarrow> string \<Rightarrow> string + string" \<comment> \<open>box, generation, secret, provider\<close>

definition clock :: "hub \<Rightarrow> int" where
  "clock s = g_now (hu_registry s)"

type_synonym 'a service = "hub \<Rightarrow> (hub, 'a) hub_prog"

definition throw :: "int \<Rightarrow> string \<Rightarrow> 'a service" where
  "throw status message = give (failing status message)"

definition try_value :: "cloud_error + 'a \<Rightarrow> ('a \<Rightarrow> 'b service) \<Rightarrow> 'b service" where
  "try_value v f = (case v of Inl e \<Rightarrow> give (Inl e) | Inr x \<Rightarrow> f x)"

definition persist_hub :: "unit service" where
  "persist_hub = wait_for Disk (\<lambda>r. give (if r = Stored True then Inr () else Inl (None, ''write failed'')))"

section \<open>Providers and their credentials\<close>

definition provider_table :: "(string \<times> string) list" where
  "provider_table = [(''digitalocean'', ''DigitalOcean''), (''hetzner'', ''Hetzner Cloud''), (''aws'', ''Amazon Web Services''), (''gcp'', ''Google Cloud'')]"

text \<open>The four keys of \<^verbatim>\<open>PROVIDERS\<close>; what every object inherits is not looked at.\<close>

definition providerDefinition :: "string \<Rightarrow> cloud_error + string" where
  "providerDefinition i = (case map_of provider_table i of Some n \<Rightarrow> Inr n | None \<Rightarrow> failing 404 (''unsupported cloud provider: '' @ i))"

definition trimmed_text :: "json option \<Rightarrow> json" where
  "trimmed_text v = (case v of Some (JStr t) \<Rightarrow> JStr (js_trim t) | _ \<Rightarrow> JStr [])"

definition service_account :: "json \<Rightarrow> cloud_error + json" where
  "service_account input =
     (case js_get input ''serviceAccountJson'' of
        Some (JStr t) \<Rightarrow> (case json_parse t of None \<Rightarrow> failing 400 ''Service account JSON is invalid'' | Some key \<Rightarrow> Inr key)
      | Some v \<Rightarrow> Inr v
      | None \<Rightarrow> Inr JNull)"

definition normalizeCredentials :: "string \<Rightarrow> json option \<Rightarrow> cloud_error + json" where
  "normalizeCredentials providerId input =
     (case input of
        Some (JObj m) \<Rightarrow>
          (let v = JObj m in
           if providerId = ''digitalocean'' \<or> providerId = ''hetzner'' then
             map_sum id (\<lambda>t. JObj [(''kind'', JStr ''api_token''), (''token'', JStr t)]) (required_text (js_get v ''token'') ''Personal access token'')
           else if providerId = ''aws'' then
             (case required_text (js_get v ''accessKeyId'') ''Access key ID'' of
                Inl e \<Rightarrow> Inl e
              | Inr i \<Rightarrow> map_sum id (\<lambda>k. JObj [(''kind'', JStr ''access_key''), (''accessKeyId'', JStr i), (''secretAccessKey'', JStr k),
                    (''sessionToken'', trimmed_text (js_get v ''sessionToken'')), (''defaultRegion'', trimmed_text (js_get v ''defaultRegion''))])
                  (required_text (js_get v ''secretAccessKey'') ''Secret access key''))
           else if providerId = ''gcp'' then
             (case service_account v of
                Inl e \<Rightarrow> Inl e
              | Inr (JObj key) \<Rightarrow>
                  (case (required_text (map_of key ''project_id'') ''service account project_id'',
                         required_text (map_of key ''client_email'') ''service account client_email'',
                         required_text (map_of key ''private_key'') ''service account private_key'') of
                     (Inr p, Inr c, Inr k) \<Rightarrow> Inr (JObj [(''kind'', JStr ''service_account''), (''projectId'', JStr p), (''clientEmail'', JStr c),
                         (''privateKey'', JStr k), (''tokenUri'', JStr ''https://oauth2.googleapis.com/token'')])
                   | (Inl e, _, _) \<Rightarrow> Inl e | (_, Inl e, _) \<Rightarrow> Inl e | (_, _, Inl e) \<Rightarrow> Inl e)
              | Inr _ \<Rightarrow> failing 400 ''Service account JSON must be an object'')
           else map_sum id (\<lambda>_. JNull) (providerDefinition providerId))
      | _ \<Rightarrow> failing 400 ''credentials must be an object'')"

definition joined_account :: "json \<Rightarrow> json \<Rightarrow> json" where
  "joined_account account project = JStr (js_string account @ '' '' @ [CHR 0xB7] @ '' '' @ js_string project)"

definition credentialAccount :: "string \<Rightarrow> json \<Rightarrow> json" where
  "credentialAccount providerId c =
     (let project = js_get c ''projectId'' in
      if truthy_json (js_get c ''account'')
      then (if truthy_json project then joined_account (the (js_get c ''account'')) (the project) else the (js_get c ''account''))
      else if providerId = ''digitalocean'' \<or> providerId = ''hetzner'' then JNull
      else if providerId = ''aws'' then or_json (js_get c ''roleArn'') (or_json (js_get c ''accessKeyId'') JNull)
      else if truthy_json (js_get c ''clientEmail'')
      then joined_account (the (js_get c ''clientEmail'')) (case project of Some p \<Rightarrow> p | None \<Rightarrow> JStr ''undefined'')
      else or_json project JNull)"

definition js_fields :: "json \<Rightarrow> (string, json) jsmap" where
  "js_fields v = (case v of JObj m \<Rightarrow> m | _ \<Rightarrow> [])"

definition set_field :: "string \<Rightarrow> json option \<Rightarrow> json \<Rightarrow> json" where
  "set_field k v j = (case v of Some x \<Rightarrow> JObj (jsmap_set k x (js_fields j)) | None \<Rightarrow> JObj (jsmap_delete k (js_fields j)))"

section \<open>Refreshing and choosing credentials\<close>

definition still_fresh :: "int \<Rightarrow> json \<Rightarrow> bool" where
  "still_fresh now v \<longleftrightarrow> js_get v ''kind'' \<noteq> Some (JStr ''oauth'') \<or> \<not> truthy_json (js_get v ''refreshToken'') \<or> \<not> truthy_json (js_get v ''expiresAt'')
     \<or> (case js_number (js_get v ''expiresAt'') of Some n \<Rightarrow> n > now + 60000 | None \<Rightarrow> False)"

definition refresh_request :: "string \<Rightarrow> oauth_settings \<Rightarrow> json \<Rightarrow> http_request" where
  "refresh_request providerId c v =
     \<lparr>rq_method = ''POST'',
      rq_url = (if providerId = ''gcp'' then ''https://oauth2.googleapis.com/token'' else ''https://cloud.digitalocean.com/v1/oauth/token''),
      rq_headers = [(''content-type'', ''application/x-www-form-urlencoded''), (''accept'', ''application/json'')],
      rq_body = Some (form_encode [(''grant_type'', ''refresh_token''), (''refresh_token'', js_string_opt (js_get v ''refreshToken'')),
        (''client_id'', oc_clientId c), (''client_secret'', oc_clientSecret c)])\<rparr>"

text \<open>The new expiry is \<^verbatim>\<open>NaN\<close>, here \<^term>\<open>JNull\<close>, where \<^verbatim>\<open>expires_in\<close> is no number; both count as no expiry.\<close>

definition refreshed_value :: "int \<Rightarrow> json \<Rightarrow> string \<Rightarrow> json \<Rightarrow> json" where
  "refreshed_value now v accessToken refreshed =
     set_field ''expiresAt'' (Some (case js_number (Some (or_json (js_get refreshed ''expires_in'') (JNum 3600))) of Some n \<Rightarrow> JNum (now + n * 1000) | None \<Rightarrow> JNull))
       (set_field ''refreshToken'' (if truthy_json (js_get refreshed ''refresh_token'') then js_get refreshed ''refresh_token'' else js_get v ''refreshToken'')
         (set_field ''accessToken'' (Some (JStr accessToken)) v))"

definition set_credential :: "string \<Rightarrow> json \<Rightarrow> hub \<Rightarrow> hub" where
  "set_credential providerId v s = s\<lparr>hu_credentials := jsmap_set providerId v (hu_credentials s)\<rparr>"

definition provider_label :: "string \<Rightarrow> string" where
  "provider_label i = (case map_of provider_table i of Some n \<Rightarrow> n | None \<Rightarrow> [])"

definition performOAuthRefresh :: "hub_config \<Rightarrow> string \<Rightarrow> json \<Rightarrow> json service" where
  "performOAuthRefresh cfg providerId v =
     reading clock (\<lambda>now.
       if still_fresh now v then give (Inr v)
       else case hc_oauth cfg providerId of
         None \<Rightarrow> throw 409 (provider_label providerId @ '' OAuth refresh is not configured'')
       | Some c \<Rightarrow>
           if oc_clientId c = [] \<or> oc_clientSecret c = [] then throw 409 (provider_label providerId @ '' OAuth refresh is not configured'')
           else andOk (ask (\<lambda>_. provider_label providerId @ '' OAuth refresh failed'') (refresh_request providerId c v)
                   (responseValue (provider_label providerId @ '' OAuth''))) (\<lambda>refreshed.
             try_value (js_member refreshed ''access_token'') (\<lambda>token.
             try_value (required_text token (provider_label providerId @ '' access token'')) (\<lambda>accessToken.
             reading clock (\<lambda>later.
               let fresh = refreshed_value later v accessToken refreshed
               in writing (set_credential providerId fresh) (andOk persist_hub (\<lambda>_. give (Inr fresh))))))))"

definition refresh_started :: "string \<Rightarrow> hub \<Rightarrow> hub" where
  "refresh_started providerId s = s\<lparr>hu_refreshing := jsmap_set providerId (hu_promise s) (hu_refreshing s), hu_promise := Suc (hu_promise s)\<rparr>"

definition refresh_settled :: "string \<Rightarrow> nat \<Rightarrow> cloud_error + json \<Rightarrow> hub \<Rightarrow> hub" where
  "refresh_settled providerId p x s = s\<lparr>hu_refreshing := jsmap_delete providerId (hu_refreshing s), hu_promises := (hu_promises s)(p \<mapsto> x)\<rparr>"

definition refreshOAuthCredential :: "hub_config \<Rightarrow> string \<Rightarrow> json \<Rightarrow> json service" where
  "refreshOAuthCredential cfg providerId v =
     reading clock (\<lambda>now.
       if still_fresh now v then give (Inr v)
       else reading (\<lambda>s. map_of (hu_refreshing s) providerId) (\<lambda>running.
         case running of
           Some p \<Rightarrow> wait_for (Refreshing p) (\<lambda>_. reading (\<lambda>s. hu_promises s p) (\<lambda>x. give (case x of Some y \<Rightarrow> y | None \<Rightarrow> Inl type_error)))
         | None \<Rightarrow> reading hu_promise (\<lambda>p. writing (refresh_started providerId)
             (andThen (performOAuthRefresh cfg providerId v) (\<lambda>x. writing (refresh_settled providerId p x) (give x))))))"

definition source_credential :: "aws_settings \<Rightarrow> json" where
  "source_credential a = JObj [(''accessKeyId'', JStr (aw_keyId a)), (''secretAccessKey'', JStr (aw_secret a)), (''sessionToken'', JStr (aw_token a))]"

definition expiry_after :: "json \<Rightarrow> int \<Rightarrow> bool" where
  "expiry_after v t \<longleftrightarrow> (case js_get v ''expiresAt'' of Some (JNum n) \<Rightarrow> n > t | _ \<Rightarrow> False)"

definition assume_role :: "hub_config \<Rightarrow> json \<Rightarrow> string \<Rightarrow> json service" where
  "assume_role cfg v arn =
     (if aw_keyId (hc_aws cfg) = [] \<or> aw_secret (hc_aws cfg) = [] then throw 409 ''Hub AWS source credentials are not configured''
      else andOk (awsAssumeRole (hc_platform cfg) clock v (source_credential (hc_aws cfg))) (\<lambda>temporary.
        writing (\<lambda>s. s\<lparr>hu_temporary := jsmap_set arn temporary (hu_temporary s)\<rparr>) (give (Inr temporary))))"

definition role_credential :: "hub_config \<Rightarrow> json \<Rightarrow> json service" where
  "role_credential cfg v =
     (let arn = js_string_opt (js_get v ''roleArn'') in
      reading (\<lambda>s. (map_of (hu_temporary s) arn, clock s)) (\<lambda>(cached, now).
        case cached of
          Some t \<Rightarrow> if expiry_after t (now + 5 * 60000) then give (Inr t) else assume_role cfg v arn
        | None \<Rightarrow> assume_role cfg v arn))"

definition credential_for :: "hub_config \<Rightarrow> string \<Rightarrow> bool \<Rightarrow> json service" where
  "credential_for cfg providerId allowIncomplete =
     try_value (providerDefinition providerId) (\<lambda>name.
     reading (\<lambda>s. map_of (hu_credentials s) providerId) (\<lambda>stored.
       case stored of
         None \<Rightarrow> throw 409 (name @ '' credentials are not configured'')
       | Some v \<Rightarrow>
           if providerId = ''aws'' \<and> js_get v ''kind'' = Some (JStr ''assume_role'') then role_credential cfg v
           else andOk (refreshOAuthCredential cfg providerId v) (\<lambda>refreshed.
             if providerId = ''gcp'' \<and> js_get refreshed ''kind'' = Some (JStr ''oauth'') \<and> \<not> truthy_json (js_get refreshed ''projectId'') \<and> \<not> allowIncomplete
             then throw 409 ''Choose a Google Cloud project before continuing''
             else if providerId = ''digitalocean'' \<and> js_get refreshed ''kind'' = Some (JStr ''oauth'')
             then give (Inr (set_field ''token'' (js_get refreshed ''accessToken'') refreshed))
             else give (Inr refreshed))))"

section \<open>Replies\<close>

record cloud_view =
  cv_record :: workspace \<comment> \<open>with the link of \<^verbatim>\<open>publicProvider\<close>\<close>
  cv_environmentId :: string
  cv_status :: string
  cv_lastSeen :: "int option"
  cv_observed :: json

record environment_view =
  en_id :: string
  en_name :: string
  en_status :: string
  en_count :: nat
  en_configured :: bool

datatype reply =
    Workspace cloud_view
  | Environments "environment_view list"
  | Destroyed string string
  | Credential_Set string json "bool option" \<comment> \<open>provider, account and \<^verbatim>\<open>requiresProject\<close>\<close>
  | Credential_Removed string
  | Role string aws_role "string option" \<comment> \<open>its id and an error\<close>
  | Handoff string handoff
  | Projects "(json \<times> json) list"

definition publicProvider :: "workspace \<Rightarrow> workspace" where
  "publicProvider w =
     (if ws_provider w = ''digitalocean'' \<and> ws_instance w \<noteq> []
      then w\<lparr>ws_console := Some (''https://cloud.digitalocean.com/droplets/'' @ encodeURIComponent (ws_instance w))\<rparr>
      else if ws_provider w = ''hetzner'' \<and> ws_instance w \<noteq> [] then w\<lparr>ws_console := Some ''https://console.hetzner.cloud/''\<rparr>
      else w)"

definition lifecycleStatus :: "workspace \<Rightarrow> public_registration option \<Rightarrow> string" where
  "lifecycleStatus w registration =
     (if ws_status w \<in> {''paused'', ''pausing'', ''resuming'', ''destroying''} then ws_status w
      else case registration of Some r \<Rightarrow> or_text (pr_status r) (ws_status w) | None \<Rightarrow> ws_status w)"

definition cloudEnvironmentId :: "string \<Rightarrow> string" where
  "cloudEnvironmentId providerId = ''cloud-'' @ providerId"

definition publicCloudWorkspace :: "workspace \<Rightarrow> public_registration option \<Rightarrow> cloud_view" where
  "publicCloudWorkspace w registration =
     \<lparr>cv_record = publicProvider w, cv_environmentId = cloudEnvironmentId (ws_provider w), cv_status = lifecycleStatus w registration,
      cv_lastSeen = Option.bind registration pr_lastSeen,
      cv_observed = (case registration of Some r \<Rightarrow> or_json (Some (pr_observed r)) JNull | None \<Rightarrow> JNull)\<rparr>"

definition publicCloudEnvironment :: "string \<Rightarrow> string \<Rightarrow> nat \<Rightarrow> bool \<Rightarrow> environment_view" where
  "publicCloudEnvironment providerId name n configured =
     \<lparr>en_id = cloudEnvironmentId providerId, en_name = name, en_status = (if configured then ''online'' else ''offline''),
      en_count = n, en_configured = configured\<rparr>"

section \<open>Configuring credentials\<close>

definition succeed_handoff :: "string \<Rightarrow> string \<Rightarrow> hub \<Rightarrow> hub" where
  "succeed_handoff providerId i s =
     (case map_of (hu_handoffs s) i of
        Some h \<Rightarrow> if ho_provider h = providerId \<and> ho_expires h > clock s
                  then s\<lparr>hu_handoffs := jsmap_set i (h\<lparr>ho_status := ''succeeded''\<rparr>) (hu_handoffs s)\<rparr> else s
      | None \<Rightarrow> s)"

definition configure :: "string \<Rightarrow> json option \<Rightarrow> reply service" where
  "configure providerId input =
     try_value (providerDefinition providerId) (\<lambda>_.
     try_value (normalizeCredentials providerId input) (\<lambda>v.
     writing (set_credential providerId v) (andOk persist_hub (\<lambda>_.
       (let handoffId = Option.bind input (\<lambda>j. js_get j ''handoffId'') in
        writing (if truthy_json handoffId then succeed_handoff providerId (js_string (the handoffId)) else id)
          (give (Inr (Credential_Set providerId (credentialAccount providerId v) None))))))))"

definition startHandoff :: "string \<Rightarrow> string \<Rightarrow> reply service" where
  "startHandoff uuid providerId =
     try_value (providerDefinition providerId) (\<lambda>_.
     reading clock (\<lambda>now. let h = \<lparr>ho_provider = providerId, ho_status = ''waiting'', ho_expires = now + 15 * 60000\<rparr>
       in writing (\<lambda>s. s\<lparr>hu_handoffs := jsmap_set uuid h (hu_handoffs s)\<rparr>) (give (Inr (Handoff uuid h)))))"

definition live_handoff :: "string \<Rightarrow> hub \<Rightarrow> handoff option" where
  "live_handoff i s = (case map_of (hu_handoffs s) i of Some h \<Rightarrow> if ho_expires h \<le> clock s then None else Some h | None \<Rightarrow> None)"

definition handoffStatus :: "string \<Rightarrow> reply service" where
  "handoffStatus i = reading (live_handoff i) (\<lambda>h. case h of
     None \<Rightarrow> throw 404 ''device handoff expired'' | Some h \<Rightarrow> give (Inr (Handoff i h)))"

definition cancelHandoff :: "string \<Rightarrow> reply service" where
  "cancelHandoff i = reading (live_handoff i) (\<lambda>h. case h of
     None \<Rightarrow> throw 404 ''device handoff expired''
   | Some h \<Rightarrow> writing (\<lambda>s. s\<lparr>hu_handoffs := jsmap_set i (h\<lparr>ho_status := ''cancelled''\<rparr>) (hu_handoffs s)\<rparr>)
       (give (Inr (Handoff i (h\<lparr>ho_status := ''cancelled''\<rparr>)))))"

definition setup_url :: "aws_settings \<Rightarrow> string \<Rightarrow> string \<Rightarrow> string" where
  "setup_url a external role = ''https://console.aws.amazon.com/cloudformation/home#/stacks/quickcreate?'' @ form_encode
     [(''templateURL'', aw_template a), (''stackName'', or_text (aw_stack a) ''OysterHubAccess''), (''param_HubPrincipalArn'', aw_principal a),
      (''param_ExternalId'', external), (''param_RoleName'', role)]"

definition startAwsRole :: "hub_config \<Rightarrow> string \<Rightarrow> string \<Rightarrow> json option \<Rightarrow> reply service" where
  "startAwsRole cfg uuid external accountId =
     try_value (required_text accountId ''AWS account ID'') (\<lambda>account.
       let a = hc_aws cfg; role = or_text (aw_role a) ''OysterHubRole'' in
       if \<not> (length account = 12 \<and> list_all is_digit account) then throw 400 ''AWS account ID must contain 12 digits''
       else if aw_keyId a = [] \<or> aw_secret a = [] \<or> aw_principal a = [] \<or> aw_template a = []
       then throw 409 ''AWS role onboarding is not configured by the Hub operator''
       else reading clock (\<lambda>now.
         let r = \<lparr>ar_status = ''waiting'', ar_arn = ''arn:aws:iam::'' @ account @ '':role/'' @ role, ar_external = external,
                  ar_region = or_text (aw_region a) ''us-east-1'', ar_expires = now + 20 * 60000, ar_url = setup_url a external role\<rparr>
         in writing (\<lambda>s. s\<lparr>hu_roles := jsmap_set uuid r (hu_roles s)\<rparr>) (give (Inr (Role uuid r None)))))"

definition role_json :: "aws_role \<Rightarrow> json" where
  "role_json r = JObj [(''kind'', JStr ''assume_role''), (''roleArn'', JStr (ar_arn r)), (''externalId'', JStr (ar_external r)), (''defaultRegion'', JStr (ar_region r))]"

definition upd_role :: "string \<Rightarrow> (aws_role \<Rightarrow> aws_role) \<Rightarrow> hub \<Rightarrow> hub" where
  "upd_role i f s = (case map_of (hu_roles s) i of Some r \<Rightarrow> s\<lparr>hu_roles := jsmap_set i (f r) (hu_roles s)\<rparr> | None \<Rightarrow> s)"

definition role_reply :: "string \<Rightarrow> string option \<Rightarrow> reply service" where
  "role_reply i err = reading (\<lambda>s. map_of (hu_roles s) i) (\<lambda>r. case r of Some r \<Rightarrow> give (Inr (Role i r err)) | None \<Rightarrow> give (Inl type_error))"

definition not_ready :: string where
  "not_ready = ''The AWS role is not ready yet. Finish the CloudFormation stack, then retry.''"

text \<open>What \<^verbatim>\<open>verifyAwsRole\<close> catches turns into a role that still waits.\<close>

definition verifyAwsRole :: "hub_config \<Rightarrow> string \<Rightarrow> reply service" where
  "verifyAwsRole cfg i =
     reading (\<lambda>s. (map_of (hu_roles s) i, clock s)) (\<lambda>(found, now).
       case found of
         None \<Rightarrow> throw 404 ''AWS connection setup expired''
       | Some r \<Rightarrow>
           if ar_expires r \<le> now then throw 404 ''AWS connection setup expired''
           else andThen (andOk (awsAssumeRole (hc_platform cfg) clock (role_json r) (source_credential (hc_aws cfg))) (\<lambda>temporary.
                  writing (set_credential ''aws'' (role_json r)) (andOk persist_hub (\<lambda>_. give (Inr temporary))))) (\<lambda>x.
             case x of
               Inl _ \<Rightarrow> writing (upd_role i (\<lambda>r. r\<lparr>ar_status := ''waiting''\<rparr>)) (role_reply i (Some not_ready))
             | Inr temporary \<Rightarrow>
                 writing (\<lambda>s. upd_role i (\<lambda>r. r\<lparr>ar_status := ''succeeded'', ar_url := []\<rparr>)
                     (s\<lparr>hu_temporary := jsmap_set (ar_arn r) temporary (hu_temporary s)\<rparr>)) (role_reply i None)))"

definition configureOAuth :: "string \<Rightarrow> json \<Rightarrow> reply service" where
  "configureOAuth providerId v =
     try_value (providerDefinition providerId) (\<lambda>_.
       if providerId \<notin> {''digitalocean'', ''gcp''} \<or> js_get v ''kind'' \<noteq> Some (JStr ''oauth'') then throw 400 ''invalid OAuth credential''
       else writing (set_credential providerId v) (andOk persist_hub (\<lambda>_.
         give (Inr (Credential_Set providerId (credentialAccount providerId v)
           (Some (providerId = ''gcp'' \<and> \<not> truthy_json (js_get v ''projectId''))))))))"

definition selectProject :: "hub_config \<Rightarrow> string \<Rightarrow> json option \<Rightarrow> reply service" where
  "selectProject cfg providerId projectId =
     (if providerId \<noteq> ''gcp'' then throw 404 ''project selection is only available for Google Cloud''
      else try_value (required_text projectId ''Google Cloud project'') (\<lambda>i.
        reading (\<lambda>s. map_of (hu_credentials s) ''gcp'') (\<lambda>stored.
          case stored of
            None \<Rightarrow> throw 409 ''Google OAuth is not connected''
          | Some v \<Rightarrow>
              if js_get v ''kind'' \<noteq> Some (JStr ''oauth'') then throw 409 ''Google OAuth is not connected''
              else andOk (refreshOAuthCredential cfg ''gcp'' v) (\<lambda>current.
                andOk (ask (\<lambda>_. ''Could not verify Google Compute Engine access'')
                    \<lparr>rq_method = ''GET'', rq_url = ''https://compute.googleapis.com/compute/v1/projects/'' @ encodeURIComponent i @ ''/zones?maxResults=1'',
                     rq_headers = json_headers (js_string_opt (js_get current ''accessToken'')) False, rq_body = None\<rparr>
                    (responseValue ''Google Compute Engine'')) (\<lambda>_.
                  (let chosen = set_field ''projectId'' (Some (JStr i)) current in
                   writing (set_credential ''gcp'' chosen) (andOk persist_hub (\<lambda>_.
                     reading (\<lambda>s. map_of (hu_credentials s) ''gcp'') (\<lambda>now_stored.
                       case now_stored of
                         None \<Rightarrow> give (Inl type_error)
                       | Some c \<Rightarrow> give (Inr (Credential_Set ''gcp'' (credentialAccount ''gcp'' c) (Some False))))))))))))"

definition revocation :: "string \<Rightarrow> json option \<Rightarrow> json option" where
  "revocation providerId stored =
     (case stored of
        Some v \<Rightarrow> if providerId = ''gcp'' \<and> js_get v ''kind'' = Some (JStr ''oauth'')
                  then (if truthy_json (js_get v ''refreshToken'') then js_get v ''refreshToken''
                        else if truthy_json (js_get v ''accessToken'') then js_get v ''accessToken'' else None)
                  else None
      | None \<Rightarrow> None)"

definition drop_credential :: "string \<Rightarrow> reply service" where
  "drop_credential providerId =
     writing (\<lambda>s. s\<lparr>hu_credentials := jsmap_delete providerId (hu_credentials s)\<rparr>)
       (andOk persist_hub (\<lambda>_. give (Inr (Credential_Removed providerId))))"

definition removeCredentials :: "string \<Rightarrow> reply service" where
  "removeCredentials providerId =
     try_value (providerDefinition providerId) (\<lambda>_.
     reading (\<lambda>s. revocation providerId (map_of (hu_credentials s) providerId)) (\<lambda>token.
       case token of
         None \<Rightarrow> drop_credential providerId
       | Some t \<Rightarrow> wait_for (Http \<lparr>rq_method = ''POST'', rq_url = ''https://oauth2.googleapis.com/revoke'',
             rq_headers = [(''content-type'', ''application/x-www-form-urlencoded'')], rq_body = Some (form_encode [(''token'', js_string t)])\<rparr>)
           (\<lambda>_. drop_credential providerId)))"

section \<open>Lists\<close>

definition listEnvironments :: "hub \<Rightarrow> environment_view list" where
  "listEnvironments s =
     List.map_filter (\<lambda>(i, name).
       let records = filter (\<lambda>a. map_option ws_provider (hu_objects s a) = Some i) (hu_listed s);
           configured = map_of (hu_credentials s) i \<noteq> None
       in if configured \<or> records \<noteq> [] then Some (publicCloudEnvironment i name (length records) configured) else None) provider_table"

definition project_rows :: "json \<Rightarrow> cloud_error + (json \<times> json) list" where
  "project_rows v =
     (if \<not> truthy_json (Some v) then Inr []
      else case v of
        JArr ps \<Rightarrow>
          if JNull \<in> set ps then Inl type_error
          else Inr (map (\<lambda>p. (or_json (js_get p ''projectId'') JNull, or_json (js_get p ''name'') (or_json (js_get p ''projectId'') JNull)))
                 (filter (\<lambda>p. js_get p ''lifecycleState'' = Some (JStr ''ACTIVE'')) ps))
      | _ \<Rightarrow> Inl type_error)"

text \<open>The loop over at most ten pages; a request that cannot be made throws the error of \<^verbatim>\<open>fetch\<close> itself.\<close>

primrec project_pages :: "nat \<Rightarrow> json \<Rightarrow> json \<Rightarrow> (json \<times> json) list \<Rightarrow> reply service" where
  "project_pages 0 v pageToken projects = give (Inr (Projects projects))"
| "project_pages (Suc n) v pageToken projects =
     andOk (wait_for (Http \<lparr>rq_method = ''GET'', rq_url = ''https://cloudresourcemanager.googleapis.com/v1/projects?'' @ form_encode
           ((''pageSize'', ''100'') # (if truthy_json (Some pageToken) then [(''pageToken'', js_string pageToken)] else [])),
          rq_headers = json_headers (js_string_opt (js_get v ''accessToken'')) False, rq_body = None\<rparr>)
        (\<lambda>r. case r of
           Answered status statusText body \<Rightarrow> give (responseValue ''Google Cloud Resource Manager'' status statusText body)
         | Unreachable m \<Rightarrow> give (Inl (None, m))
         | _ \<Rightarrow> give (Inl type_error))) (\<lambda>result.
       try_value (js_member result ''projects'') (\<lambda>rows.
       try_value (project_rows (case rows of Some x \<Rightarrow> x | None \<Rightarrow> JNull)) (\<lambda>more.
         (let next = or_json (js_get result ''nextPageToken'') (JStr []) in
          if truthy_json (Some next) then project_pages n v next (projects @ more) else give (Inr (Projects (projects @ more)))))))"

definition listProjects :: "hub_config \<Rightarrow> string \<Rightarrow> reply service" where
  "listProjects cfg providerId =
     (if providerId \<noteq> ''gcp'' then throw 404 ''project selection is only available for Google Cloud''
      else andOk (credential_for cfg providerId True) (\<lambda>v.
        if js_get v ''kind'' \<noteq> Some (JStr ''oauth'')
        then give (Inr (Projects (if truthy_json (js_get v ''projectId'') then [(the (js_get v ''projectId''), the (js_get v ''projectId''))] else [])))
        else project_pages 10 v (JStr []) []))"

section \<open>Workspaces\<close>

definition box_of :: "workspace \<Rightarrow> string" where
  "box_of w = (case ws_boxId w of Some (c # cs) \<Rightarrow> c # cs | _ \<Rightarrow> js_lower (ws_name w))"

definition has_generation :: "workspace \<Rightarrow> bool" where
  "has_generation w \<longleftrightarrow> ws_generation w \<noteq> None \<and> ws_generation w \<noteq> Some []"

definition generation_text :: "workspace \<Rightarrow> string" where
  "generation_text w = (case ws_generation w of Some g \<Rightarrow> g | None \<Rightarrow> ''undefined'')"

definition upd_workspace :: "nat \<Rightarrow> (workspace \<Rightarrow> workspace) \<Rightarrow> hub \<Rightarrow> hub" where
  "upd_workspace a f s = s\<lparr>hu_objects := (hu_objects s)(a := map_option f (hu_objects s a))\<rparr>"

definition id_at :: "hub \<Rightarrow> nat \<Rightarrow> string option" where
  "id_at s a = map_option ws_id (hu_objects s a)"

definition recordFor :: "string \<Rightarrow> hub \<Rightarrow> (nat \<times> workspace) option" where
  "recordFor i s = (case List.find (\<lambda>a. id_at s a = Some i) (hu_listed s) of
     Some a \<Rightarrow> map_option (Pair a) (hu_objects s a) | None \<Rightarrow> None)"

definition with_record :: "string \<Rightarrow> (nat \<Rightarrow> workspace \<Rightarrow> 'a service) \<Rightarrow> 'a service" where
  "with_record i f = reading (recordFor i) (\<lambda>found. case found of None \<Rightarrow> throw 404 ''cloud workspace not found'' | Some (a, w) \<Rightarrow> f a w)"

text \<open>The object as it is now; it is never lost.\<close>

definition with_object :: "nat \<Rightarrow> (workspace \<Rightarrow> 'a service) \<Rightarrow> 'a service" where
  "with_object a f = reading (\<lambda>s. hu_objects s a) (\<lambda>w. case w of Some w \<Rightarrow> f w | None \<Rightarrow> give (Inl type_error))"

definition registrationFor :: "nat \<Rightarrow> public_registration option service" where
  "registrationFor a =
     with_object a (\<lambda>w.
     reading (\<lambda>s. if has_generation w then get_registration (box_of w) (generation_text w) (hu_registry s) else None) (\<lambda>found.
       case found of
         Some None \<Rightarrow> give (Inl type_error)
       | None \<Rightarrow> give (Inr None)
       | Some (Some r) \<Rightarrow>
           if ws_status w = ''resuming'' \<and> pr_status r = ''online''
           then writing (upd_workspace a (\<lambda>w. w\<lparr>ws_status := ''active'', ws_state := JStr ''running''\<rparr>))
                  (andOk persist_hub (\<lambda>_. give (Inr (Some r))))
           else give (Inr (Some r))))"

definition public_workspace :: "nat \<Rightarrow> reply service" where
  "public_workspace a =
     andOk (registrationFor a) (\<lambda>r. with_object a (\<lambda>w. give (Inr (Workspace (publicCloudWorkspace w r)))))"

definition providerAction :: "hub_config \<Rightarrow> nat \<Rightarrow> machine_action \<Rightarrow> json service" where
  "providerAction cfg a action =
     with_object a (\<lambda>w.
     andOk (credential_for cfg (ws_provider w) False) (\<lambda>v.
     with_object a (\<lambda>w.
       let mp = \<lparr>mp_instanceId = ws_instance w, mp_region = ws_region w,
                 mp_boxName = (case ws_boxId w of Some (c # cs) \<Rightarrow> c # cs | _ \<Rightarrow> ws_name w)\<rparr>;
           pf = hc_platform cfg
       in if ws_provider w = ''digitalocean'' then digitalOceanManage mp action v
          else if ws_provider w = ''hetzner'' then hetznerManage mp action v
          else if ws_provider w = ''aws'' then awsManage pf clock mp action v
          else if ws_provider w = ''gcp'' then gcpManage pf clock mp action v
          else throw 404 (''unsupported cloud provider: '' @ ws_provider w))))"

definition pause_workspace :: "hub_config \<Rightarrow> string \<Rightarrow> reply service" where
  "pause_workspace cfg i =
     with_record i (\<lambda>a w.
       if ws_status w = ''paused'' then public_workspace a
       else andOk (providerAction cfg a Pause) (\<lambda>state.
         reading clock (\<lambda>now.
         writing (upd_workspace a (\<lambda>w. w\<lparr>ws_status := ''paused'', ws_state := or_json (Some state) (JStr ''paused''), ws_paused := Some now\<rparr>))
           (andOk persist_hub (\<lambda>_. public_workspace a)))))"

definition resume_workspace :: "hub_config \<Rightarrow> string \<Rightarrow> reply service" where
  "resume_workspace cfg i =
     with_record i (\<lambda>a w.
       if ws_status w \<noteq> ''paused'' then throw 409 ''cloud workspace is not paused''
       else andOk (providerAction cfg a Resume) (\<lambda>state.
         reading clock (\<lambda>now.
         writing (upd_workspace a (\<lambda>w. w\<lparr>ws_status := ''resuming'', ws_state := or_json (Some state) (JStr ''pending''), ws_resumed := Some now\<rparr>))
           (andOk persist_hub (\<lambda>_. public_workspace a)))))"

text \<open>
  A call of \<^verbatim>\<open>revoke\<close> whose error is caught: the registration is changed at once, the write may fail.
\<close>

definition revoke_box :: "string \<Rightarrow> string \<Rightarrow> string \<Rightarrow> (unit \<Rightarrow> 'a service) \<Rightarrow> 'a service" where
  "revoke_box boxId generation reason f =
     writing (\<lambda>s. s\<lparr>hu_registry := snd (revoke boxId generation reason (hu_registry s))\<rparr>) (wait_for Disk (\<lambda>_. f ()))"

definition destroy_workspace :: "hub_config \<Rightarrow> string \<Rightarrow> reply service" where
  "destroy_workspace cfg i =
     with_record i (\<lambda>a w.
       andOk (providerAction cfg a Destroy) (\<lambda>_.
         revoke_box (box_of w) (generation_text w) ''cloud workspace destroyed'' (\<lambda>_.
           writing (\<lambda>s. s\<lparr>hu_listed := filter (\<lambda>b. id_at s b \<noteq> Some i) (hu_listed s)\<rparr>)
             (andOk persist_hub (\<lambda>_. give (Inr (Destroyed i (ws_name w))))))))"

section \<open>Provisioning\<close>

text \<open>\<^verbatim>\<open>clean\<close> keeps small letters, digits and dashes, one dash for each run of others, and no dash at the ends.\<close>

definition id_part :: "char \<Rightarrow> bool" where
  "id_part c \<longleftrightarrow> is_digit c \<or> (97 \<le> (of_char c :: nat) \<and> (of_char c :: nat) \<le> 122) \<or> c = CHR ''-''"

fun dash_runs :: "bool \<Rightarrow> string \<Rightarrow> string" where
  "dash_runs inside [] = []"
| "dash_runs inside (c # cs) =
     (if id_part c then c # dash_runs False cs else if inside then dash_runs True cs else CHR ''-'' # dash_runs True cs)"

definition trim_dashes :: "string \<Rightarrow> string" where
  "trim_dashes t = rev (dropWhile (\<lambda>c. c = CHR ''-'') (rev (dropWhile (\<lambda>c. c = CHR ''-'') t)))"

definition workspaceId :: "string \<Rightarrow> string \<Rightarrow> string \<Rightarrow> string" where
  "workspaceId uuid providerId instanceId =
     (let clean = take 52 (trim_dashes (dash_runs False (js_lower (or_text instanceId uuid))))
      in providerId @ ''-'' @ or_text clean (take 8 uuid))"

definition ascii_letter :: "char \<Rightarrow> bool" where
  "ascii_letter c \<longleftrightarrow> (97 \<le> (of_char (js_lower_char c) :: nat) \<and> (of_char (js_lower_char c) :: nat) \<le> 122) \<and> (of_char c :: nat) < 128"

definition dns_name :: "string \<Rightarrow> bool" where
  "dns_name t \<longleftrightarrow>
     (case t of
        [] \<Rightarrow> False
      | c # cs \<Rightarrow> ascii_letter c \<and> length cs \<le> 62 \<and> list_all (\<lambda>d. ascii_letter d \<or> is_digit d \<or> d = CHR ''-'') cs \<and> (cs = [] \<or> last cs \<noteq> CHR ''-''))"

definition machine_of :: "hub_config \<Rightarrow> string \<Rightarrow> machine_request \<Rightarrow> json \<Rightarrow> machine service" where
  "machine_of cfg providerId q v =
     (if providerId = ''digitalocean'' then digitalOceanProvision q v
      else if providerId = ''hetzner'' then hetznerProvision q v
      else if providerId = ''aws'' then awsProvision (hc_platform cfg) clock q v
      else gcpProvision (hc_platform cfg) clock q v)"

definition on_registry :: "(registry \<Rightarrow> 'x \<times> registry) \<Rightarrow> ('x \<Rightarrow> 'a service) \<Rightarrow> 'a service" where
  "on_registry f g s = (case f (hu_registry s) of (x, r) \<Rightarrow> g x (s\<lparr>hu_registry := r\<rparr>))"

text \<open>The registration: random values are drawn after the call has yielded, and the write of the registry is awaited.\<close>

definition prepare_box :: "hub_config \<Rightarrow> string \<Rightarrow> string \<Rightarrow> (string \<times> string) service" where
  "prepare_box cfg boxId providerId =
     wait_for (Registering boxId) (\<lambda>r.
       case r of
         Drawn generation secret \<Rightarrow>
           on_registry (prepareRegistration (hc_hash cfg) (Some (JStr boxId)) (Some (JStr providerId)) bootstrap_ttl_ms generation secret) (\<lambda>x.
             case x of Inl m \<Rightarrow> give (Inl (None, m)) | Inr _ \<Rightarrow> andOk persist_hub (\<lambda>_. give (Inr (generation, secret))))
       | _ \<Rightarrow> give (Inl type_error))"

definition bind_box :: "string \<Rightarrow> string \<Rightarrow> string \<Rightarrow> unit service" where
  "bind_box boxId generation instanceId =
     on_registry (bindProviderInstance boxId generation (Some (JStr instanceId))) (\<lambda>x.
       case x of Inl m \<Rightarrow> give (Inl (None, m)) | Inr _ \<Rightarrow> persist_hub)"

text \<open>The block under \<^verbatim>\<open>try\<close>: the machine is made and bound, or the registration is revoked.\<close>

definition bound_machine :: "hub_config \<Rightarrow> string \<Rightarrow> machine_request \<Rightarrow> json \<Rightarrow> machine service" where
  "bound_machine cfg providerId q v =
     andThen (andOk (machine_of cfg providerId q v) (\<lambda>m. andOk (bind_box (mr_boxId q) (mr_generation q) (mc_instanceId m)) (\<lambda>_. give (Inr m))))
       (\<lambda>x. case x of
          Inl e \<Rightarrow> revoke_box (mr_boxId q) (mr_generation q) ''provider provisioning failed'' (\<lambda>_. give (Inl e))
        | Inr m \<Rightarrow> give (Inr m))"

definition new_workspace :: "string \<Rightarrow> string \<Rightarrow> string \<Rightarrow> machine_request \<Rightarrow> machine \<Rightarrow> int \<Rightarrow> workspace" where
  "new_workspace uuid providerId name q m now =
     \<lparr>ws_id = workspaceId uuid providerId (mc_instanceId m), ws_name = name, ws_boxId = Some (mr_boxId q), ws_generation = Some (mr_generation q),
      ws_status = ''awaiting_agent'', ws_created = now, ws_paused = None, ws_resumed = None, ws_provider = providerId,
      ws_providerName = provider_label providerId, ws_instance = mc_instanceId m, ws_state = mc_state m, ws_region = mr_region q,
      ws_size = mr_size q, ws_image = mr_image q, ws_console = (case mc_consoleUrl m of Some (c # cs) \<Rightarrow> Some (c # cs) | _ \<Rightarrow> None)\<rparr>"

definition add_workspace :: "workspace \<Rightarrow> hub \<Rightarrow> hub" where
  "add_workspace w s =
     s\<lparr>hu_objects := (hu_objects s)(hu_next s \<mapsto> w), hu_next := Suc (hu_next s),
       hu_listed := filter (\<lambda>b. id_at s b \<noteq> Some (ws_id w)) (hu_listed s) @ [hu_next s]\<rparr>"

definition record_machine :: "string \<Rightarrow> string \<Rightarrow> string \<Rightarrow> machine_request \<Rightarrow> machine \<Rightarrow> reply service" where
  "record_machine uuid providerId name q m =
     reading clock (\<lambda>now.
       reading hu_next (\<lambda>a. writing (add_workspace (new_workspace uuid providerId name q m now)) (andOk persist_hub (\<lambda>_.
         reading (\<lambda>s. get_registration (mr_name q) (mr_generation q) (hu_registry s)) (\<lambda>found.
         with_object a (\<lambda>w.
           case found of
             Some None \<Rightarrow> give (Inl type_error)
           | Some (Some r) \<Rightarrow> give (Inr (Workspace (publicCloudWorkspace w (Some r))))
           | None \<Rightarrow> give (Inr (Workspace (publicCloudWorkspace w None)))))))))"

text \<open>What follows the registration.  The boot script is written outside of the \<^verbatim>\<open>try\<close>.\<close>

definition provision_registered ::
  "hub_config \<Rightarrow> string \<Rightarrow> string \<Rightarrow> string \<Rightarrow> machine_request \<Rightarrow> json \<Rightarrow> string \<Rightarrow> string \<Rightarrow> reply service" where
  "provision_registered cfg uuid providerId name q v generation secret =
     (case hc_userData cfg (mr_name q) generation secret providerId of
        Inl m \<Rightarrow> give (Inl (None, m))
      | Inr userData \<Rightarrow>
          (let q = q\<lparr>mr_boxId := mr_name q, mr_generation := generation, mr_userData := userData\<rparr> in
           andOk (bound_machine cfg providerId q v) (record_machine uuid providerId name q)))"

definition provision :: "hub_config \<Rightarrow> string \<Rightarrow> json option \<Rightarrow> reply service" where
  "provision cfg uuid input =
     (case input of
        Some (JObj f) \<Rightarrow>
          try_value (required_text (map_of f ''provider'') ''provider'') (\<lambda>providerId.
          try_value (providerDefinition providerId) (\<lambda>_.
          try_value (required_text (map_of f ''name'') ''Workspace name'') (\<lambda>name.
            if \<not> dns_name name then throw 400 ''Workspace name must be a 1-63 character DNS-style name''
            else
              try_value (required_text (map_of f ''region'') ''region'') (\<lambda>region.
              try_value (required_text (map_of f ''size'') ''instance type'') (\<lambda>size.
              try_value (required_text (map_of f ''image'') ''image'') (\<lambda>image.
              andOk (credential_for cfg providerId False) (\<lambda>v.
              andOk (prepare_box cfg (js_lower name) providerId) (\<lambda>(generation, secret).
                provision_registered cfg uuid providerId name
                  \<lparr>mr_name = js_lower name, mr_region = region, mr_size = size, mr_image = image, mr_boxId = [], mr_generation = [], mr_userData = []\<rparr>
                  v generation secret))))))))
      | _ \<Rightarrow> throw 400 ''workspace request must be an object'')"

end
