(* ===== verification/Provision_Properties.thy ===== *)
theory Provision_Properties
  imports Cloud_Provisioning Box_Properties
begin

text \<open>
  Properties of the provisioning service, for every interleaving of its calls with each other and with the box
  registry: a workspace is the machine its registration is bound to, a failed attempt leaves no registration that
  could still connect, and a destroyed workspace stays gone.
\<close>

section \<open>What every part keeps\<close>

definition possible_answer :: "cloud_wait \<Rightarrow> hub \<Rightarrow> cloud_answer \<Rightarrow> bool" where
  "possible_answer w s r \<longleftrightarrow>
     (case w of
        Http _ \<Rightarrow> (case r of Unreachable _ \<Rightarrow> True | Answered _ _ _ \<Rightarrow> True | _ \<Rightarrow> False)
      | Disk \<Rightarrow> (case r of Stored _ \<Rightarrow> True | _ \<Rightarrow> False)
      | Registering boxId \<Rightarrow> (case r of Drawn generation _ \<Rightarrow> keyOf boxId generation \<notin> set (map fst (g_records (hu_registry s))) | _ \<Rightarrow> False)
      | Refreshing p \<Rightarrow> r = Settled \<and> hu_promises s p \<noteq> None)"

definition same_machine :: "workspace \<Rightarrow> workspace \<Rightarrow> bool" where
  "same_machine w w' \<longleftrightarrow> ws_id w' = ws_id w \<and> ws_name w' = ws_name w \<and> ws_boxId w' = ws_boxId w \<and> ws_generation w' = ws_generation w
     \<and> ws_provider w' = ws_provider w \<and> ws_instance w' = ws_instance w"

definition bound_to :: "registry \<Rightarrow> string \<Rightarrow> string \<Rightarrow> string \<Rightarrow> string \<Rightarrow> bool" where
  "bound_to g boxId generation provider inst \<longleftrightarrow>
     (\<exists>r. record_of g (keyOf boxId generation) = Some r \<and> br_provider r = provider \<and> br_instance r = Some inst \<and> inst \<noteq> [])"

text \<open>Workspaces read from an older file may lack a box or a generation.\<close>

definition workspace_ok :: "registry \<Rightarrow> workspace \<Rightarrow> bool" where
  "workspace_ok g w \<longleftrightarrow>
     (case (ws_boxId w, ws_generation w) of
        (Some b, Some k) \<Rightarrow> bound_to g b k (ws_provider w) (ws_instance w)
      | _ \<Rightarrow> True)"

definition hub_ok :: "hub \<Rightarrow> bool" where
  "hub_ok s \<longleftrightarrow> (\<forall>a w. hu_objects s a = Some w \<longrightarrow> a < hu_next s \<and> workspace_ok (hu_registry s) w)
     \<and> (\<forall>a \<in> set (hu_listed s). hu_objects s a \<noteq> None) \<and> distinct (hu_listed s) \<and> inj_on (id_at s) (set (hu_listed s))"

definition hub_keeps :: "(registration \<Rightarrow> json \<Rightarrow> string \<Rightarrow> box_error + unit) \<Rightarrow> (string \<Rightarrow> string) \<Rightarrow> hub \<Rightarrow> hub \<Rightarrow> bool" where
  "hub_keeps verify hash s t \<longleftrightarrow> (hub_ok s \<longrightarrow>
     (box_step verify hash)\<^sup>*\<^sup>* (hu_registry s) (hu_registry t) \<and> hu_next s \<le> hu_next t
     \<and> (\<forall>a w. hu_objects s a = Some w \<longrightarrow> (\<exists>w'. hu_objects t a = Some w' \<and> same_machine w w'))
     \<and> (\<forall>a \<in> set (hu_listed t). a < hu_next s \<longrightarrow> a \<in> set (hu_listed s)) \<and> hub_ok t)"

lemma hub_keepsD:
  assumes "hub_keeps verify hash s t" and "hub_ok s"
  shows "(box_step verify hash)\<^sup>*\<^sup>* (hu_registry s) (hu_registry t)" "hu_next s \<le> hu_next t"
    "hu_objects s a = Some w \<Longrightarrow> \<exists>w'. hu_objects t a = Some w' \<and> same_machine w w'"
    "a \<in> set (hu_listed t) \<Longrightarrow> a < hu_next s \<Longrightarrow> a \<in> set (hu_listed s)" "hub_ok t"
    "keeps_records (hu_registry s) (hu_registry t)"
  using assms box_steps_keeps unfolding hub_keeps_def by blast+

lemma same_machine_refl [simp]: "same_machine w w"
  by (simp add: same_machine_def)

lemma same_machine_trans: "same_machine u v \<Longrightarrow> same_machine v w \<Longrightarrow> same_machine u w"
  by (simp add: same_machine_def)

lemma hub_keeps_refl: "hub_keeps verify hash s s"
  by (simp add: hub_keeps_def)

lemma hub_keeps_trans:
  assumes "hub_keeps verify hash s t" and "hub_keeps verify hash t u"
  shows "hub_keeps verify hash s u"
  unfolding hub_keeps_def
proof (intro impI conjI allI ballI)
  assume ok: "hub_ok s"
  note st = hub_keepsD [OF assms(1) ok] and tu = hub_keepsD [OF assms(2) hub_keepsD(5) [OF assms(1) ok]]
  show "(box_step verify hash)\<^sup>*\<^sup>* (hu_registry s) (hu_registry u)" using st(1) tu(1) by simp
  show "hu_next s \<le> hu_next u" using st(2) tu(2) by simp
  show "\<exists>w'. hu_objects u a = Some w' \<and> same_machine w w'" if "hu_objects s a = Some w" for a w
    using st(3) [OF that] tu(3) same_machine_trans by blast
  show "a \<in> set (hu_listed s)" if "a \<in> set (hu_listed u)" "a < hu_next s" for a
    using st(4) tu(4) st(2) that by fastforce
  show "hub_ok u" by (rule tu(5))
qed

lemma bound_to_later:
  assumes "bound_to g b k p i" and "keeps_records g g'"
  shows "bound_to g' b k p i"
proof -
  obtain r where r: "record_of g (keyOf b k) = Some r" "br_provider r = p" "br_instance r = Some i" "i \<noteq> []"
    using assms(1) by (auto simp: bound_to_def)
  then obtain r' where "record_of g' (keyOf b k) = Some r'" "keeps r r'" using assms(2) unfolding keeps_records_def by blast
  then show ?thesis using r by (auto simp: bound_to_def keeps_def nonempty_text_def)
qed

lemma workspace_ok_later: "workspace_ok g w \<Longrightarrow> keeps_records g g' \<Longrightarrow> same_machine w w' \<Longrightarrow> workspace_ok g' w'"
  using bound_to_later [of g _ _ "ws_provider w" "ws_instance w" g']
  by (simp add: workspace_ok_def same_machine_def split: option.splits)

lemma keeps_registry:
  assumes "(box_step verify hash)\<^sup>*\<^sup>* (hu_registry s) g"
  shows "hub_keeps verify hash s (s\<lparr>hu_registry := g\<rparr>)"
proof -
  have "id_at (s\<lparr>hu_registry := g\<rparr>) = id_at s" by (simp add: id_at_def fun_eq_iff)
  with box_steps_keeps [OF assms] have "hub_ok s \<longrightarrow> hub_ok (s\<lparr>hu_registry := g\<rparr>)"
    unfolding hub_ok_def by (auto intro: workspace_ok_later [OF _ _ same_machine_refl])
  then show ?thesis using assms by (simp add: hub_keeps_def)
qed

lemma keeps_revoke_box: "hub_keeps verify hash s (s\<lparr>hu_registry := snd (revoke b g m (hu_registry s))\<rparr>)"
  by (rule keeps_registry) (blast intro: r_into_rtranclp box_step.revoked)

lemma hub_keeps_frame:
  assumes "hu_registry t = hu_registry s" "hu_next t = hu_next s" "hu_objects t = hu_objects s" "hu_listed t = hu_listed s"
  shows "hub_keeps verify hash s t"
proof -
  have "id_at t = id_at s" using assms(3) by (simp add: id_at_def fun_eq_iff)
  then have "hub_ok s \<longrightarrow> hub_ok t" using assms by (simp add: hub_ok_def)
  then show ?thesis using assms by (simp add: hub_keeps_def)
qed

lemma keeps_workspace:
  assumes "\<And>w. same_machine w (f w)"
  shows "hub_keeps verify hash s (upd_workspace a f s)"
proof -
  have ids: "id_at (upd_workspace a f s) = id_at s"
    using assms by (auto simp: upd_workspace_def id_at_def fun_eq_iff same_machine_def option.map_comp comp_def)
  have "hub_ok s \<longrightarrow> hub_ok (upd_workspace a f s)"
    unfolding hub_ok_def ids by (auto simp: upd_workspace_def intro: workspace_ok_later [OF _ keeps_same [OF refl] assms])
  then show ?thesis using assms by (auto simp: hub_keeps_def upd_workspace_def)
qed

lemma keeps_unlist: "hub_keeps verify hash s (s\<lparr>hu_listed := filter P (hu_listed s)\<rparr>)"
proof -
  have "id_at (s\<lparr>hu_listed := filter P (hu_listed s)\<rparr>) = id_at s" by (simp add: id_at_def fun_eq_iff)
  then have "hub_ok s \<longrightarrow> hub_ok (s\<lparr>hu_listed := filter P (hu_listed s)\<rparr>)"
    unfolding hub_ok_def by (auto intro: inj_on_subset)
  then show ?thesis by (auto simp: hub_keeps_def)
qed

lemma keeps_add:
  assumes "workspace_ok (hu_registry s) w" and "hub_ok s"
  shows "hub_keeps verify hash s (add_workspace w s)"
proof -
  have below: "a < hu_next s" if "hu_objects s a \<noteq> None" for a using assms(2) that unfolding hub_ok_def by blast
  have ids: "id_at (add_workspace w s) a = (if a = hu_next s then Some (ws_id w) else id_at s a)" for a
    by (simp add: id_at_def add_workspace_def)
  have listed: "a \<noteq> hu_next s" if "a \<in> set (hu_listed s)" for a using below assms(2) that unfolding hub_ok_def by blast
  have "inj_on (id_at (add_workspace w s)) (set (hu_listed (add_workspace w s)))"
  proof -
    have "inj_on (id_at s) (set (hu_listed s))" using assms(2) by (simp add: hub_ok_def)
    then show ?thesis using listed unfolding inj_on_def ids by (auto simp: add_workspace_def)
  qed
  then have "hub_ok (add_workspace w s)"
    using assms below listed unfolding hub_ok_def by (auto simp: add_workspace_def less_SucI)
  then show ?thesis using below by (auto simp: hub_keeps_def add_workspace_def)
qed

interpretation hub: interference possible_answer "hub_keeps verify hash" for verify hash
  by unfold_locales (simp add: hub_keeps_refl, rule hub_keeps_trans)

section \<open>Calm functions\<close>

named_theorems calm_ops \<open>functions that keep every stable fact\<close>

abbreviation calm ::
  "(registration \<Rightarrow> json \<Rightarrow> string \<Rightarrow> box_error + unit) \<Rightarrow> (string \<Rightarrow> string) \<Rightarrow> (cloud_error + 'a \<Rightarrow> bool) \<Rightarrow> 'a service \<Rightarrow> bool" where
  "calm verify hash \<equiv> interference.steady possible_answer (hub_keeps verify hash)"

lemma calm_answer:
  "(\<And>m. calm verify hash K (f m)) \<Longrightarrow> (\<And>a b c. calm verify hash K (g a b c)) \<Longrightarrow> (\<And>b. calm verify hash K (h b))
   \<Longrightarrow> (\<And>a b. calm verify hash K (k a b)) \<Longrightarrow> calm verify hash K n
   \<Longrightarrow> calm verify hash K (case r of Unreachable m \<Rightarrow> f m | Answered a b c \<Rightarrow> g a b c | Stored b \<Rightarrow> h b | Drawn a b \<Rightarrow> k a b | Settled \<Rightarrow> n)"
  by (simp split: cloud_answer.split)

lemma calm_try: "(\<And>v. calm verify hash K (f v)) \<Longrightarrow> (\<And>e. K (Inl e)) \<Longrightarrow> calm verify hash K (try_value x f)"
  unfolding try_value_def by (intro hub.steady_intros)

lemma calm_throw: "K (failing n m) \<Longrightarrow> calm verify hash K (throw n m)"
  unfolding throw_def by (intro hub.steady_intros)

lemma calm_ask [calm_ops]: "calm verify hash (\<lambda>_. True) (ask u q answer)"
  unfolding ask_def by (intro hub.steady_intros calm_answer TrueI)

lemma calm_persist [calm_ops]: "calm verify hash (\<lambda>_. True) persist_hub"
  unfolding persist_hub_def by (intro hub.steady_intros TrueI)

lemmas calm_intros = hub.steady_intros hub.steady_andThen [where K' = "\<lambda>_. True"] calm_answer calm_try calm_throw TrueI

lemma calm_digitalocean [calm_ops]:
  "calm verify hash (\<lambda>_. True) (digitalOceanRequest verb path body v)"
  "calm verify hash (\<lambda>_. True) (ensureDigitalOceanOwnershipTag v)"
  "calm verify hash (\<lambda>_. True) (digitalOceanManage mp action v)"
  "calm verify hash (\<lambda>_. True) (digitalOceanProvision q v)"
proof -
  show request: "calm verify hash (\<lambda>_. True) (digitalOceanRequest verb path body v)" for verb path body
    unfolding digitalOceanRequest_def by (rule calm_ask)
  show tag: "calm verify hash (\<lambda>_. True) (ensureDigitalOceanOwnershipTag v)"
    unfolding ensureDigitalOceanOwnershipTag_def by (intro calm_intros request)
  show "calm verify hash (\<lambda>_. True) (digitalOceanManage mp action v)"
    unfolding digitalOceanManage_def by (intro calm_intros request)
  show "calm verify hash (\<lambda>_. True) (digitalOceanProvision q v)"
    unfolding digitalOceanProvision_def by (intro calm_intros request tag)
qed

lemma calm_hetzner [calm_ops]:
  "calm verify hash (\<lambda>_. True) (hetznerManage mp action v)"
  "calm verify hash (\<lambda>_. True) (hetznerProvision q v)"
  unfolding hetznerManage_def hetznerProvision_def hetznerRequest_def by (intro calm_intros calm_ops)+

lemma calm_aws [calm_ops]:
  "calm verify hash (\<lambda>_. True) (awsAssumeRole pf clock role source)"
  "calm verify hash (\<lambda>_. True) (awsManage pf clock mp action v)"
  "calm verify hash (\<lambda>_. True) (awsProvision pf clock q v)"
  unfolding awsAssumeRole_def awsManage_def awsProvision_def awsRequest_def awsQueryRequest_def by (intro calm_intros calm_ops)+

lemma calm_gcp [calm_ops]:
  "calm verify hash (\<lambda>_. True) (gcpManage pf clock mp action v)"
  "calm verify hash (\<lambda>_. True) (gcpProvision pf clock q v)"
  unfolding gcpManage_def gcpProvision_def gcpRequest_def gcpAccessToken_def by (intro calm_intros calm_ops)+

lemma calm_refresh [calm_ops]: "calm verify hash (\<lambda>_. True) (refreshOAuthCredential cfg i v)"
  unfolding refreshOAuthCredential_def performOAuthRefresh_def
  by (intro calm_intros calm_ops hub_keeps_frame) (simp_all add: set_credential_def refresh_started_def refresh_settled_def)

lemma calm_credential [calm_ops]: "calm verify hash (\<lambda>_. True) (credential_for cfg i incomplete)"
  unfolding credential_for_def role_credential_def assume_role_def by (intro calm_intros calm_ops hub_keeps_frame) simp_all

lemma calm_object: "(\<And>w. calm verify hash K (f w)) \<Longrightarrow> K (Inl type_error) \<Longrightarrow> calm verify hash K (with_object a f)"
  unfolding with_object_def by (intro calm_intros)

lemma calm_action [calm_ops]: "calm verify hash (\<lambda>_. True) (providerAction cfg a action)"
  unfolding providerAction_def by (intro calm_intros calm_ops calm_object)

lemma calm_registration [calm_ops]: "calm verify hash (\<lambda>_. True) (registrationFor a)"
  unfolding registrationFor_def by (intro calm_intros calm_ops calm_object keeps_workspace) (simp_all add: same_machine_def)

section \<open>The calls\<close>

definition undestroyed :: "cloud_error + reply \<Rightarrow> bool" where
  "undestroyed x \<longleftrightarrow> (case x of Inr (Destroyed _ _) \<Rightarrow> False | _ \<Rightarrow> True)"

lemma undestroyed_simps [simp]: "undestroyed (Inl e)" "undestroyed (failing n t)" "undestroyed (Inr (Workspace v))"
  "undestroyed (Inr (Credential_Set i a b))" "undestroyed (Inr (Credential_Removed i))" "undestroyed (Inr (Role i r m))"
  "undestroyed (Inr (Handoff i h))" "undestroyed (Inr (Projects ps))"
  by (simp_all add: undestroyed_def failing_def)

lemma calm_public: "calm verify hash undestroyed (public_workspace a)"
  unfolding public_workspace_def by (intro calm_intros calm_ops calm_object) simp_all

lemma calm_role_reply: "calm verify hash undestroyed (role_reply i err)"
  unfolding role_reply_def by (intro calm_intros) simp_all

lemma calm_projects: "calm verify hash undestroyed (project_pages n v t ps)"
proof (induction n arbitrary: t ps)
  case 0
  show ?case by (simp add: hub.steady_give)
next
  case (Suc n)
  show ?case unfolding project_pages.simps by (intro calm_intros Suc.IH) simp_all
qed

lemma calm_calls:
  "calm verify hash undestroyed (configure i input)"
  "calm verify hash undestroyed (startHandoff u i)"
  "calm verify hash undestroyed (handoffStatus i)"
  "calm verify hash undestroyed (cancelHandoff i)"
  "calm verify hash undestroyed (startAwsRole cfg u e input)"
  "calm verify hash undestroyed (verifyAwsRole cfg i)"
  "calm verify hash undestroyed (configureOAuth i v)"
  "calm verify hash undestroyed (selectProject cfg i input)"
  "calm verify hash undestroyed (removeCredentials i)"
  "calm verify hash undestroyed (listProjects cfg i)"
  "calm verify hash undestroyed (pause_workspace cfg i)"
  "calm verify hash undestroyed (resume_workspace cfg i)"
proof -
  show "calm verify hash undestroyed (configure i input)" unfolding configure_def
    by (intro calm_intros calm_ops hub_keeps_frame) (auto simp: set_credential_def succeed_handoff_def split: option.split)
  show "calm verify hash undestroyed (startHandoff u i)" unfolding startHandoff_def by (intro calm_intros hub_keeps_frame) simp_all
  show "calm verify hash undestroyed (handoffStatus i)" unfolding handoffStatus_def by (intro calm_intros) simp_all
  show "calm verify hash undestroyed (cancelHandoff i)" unfolding cancelHandoff_def by (intro calm_intros hub_keeps_frame) simp_all
  show "calm verify hash undestroyed (startAwsRole cfg u e input)" unfolding startAwsRole_def by (intro calm_intros hub_keeps_frame) simp_all
  show "calm verify hash undestroyed (verifyAwsRole cfg i)" unfolding verifyAwsRole_def
    by (intro calm_intros calm_ops calm_role_reply hub_keeps_frame) (auto simp: set_credential_def upd_role_def split: option.split)
  show "calm verify hash undestroyed (configureOAuth i v)" unfolding configureOAuth_def
    by (intro calm_intros calm_ops hub_keeps_frame) (simp_all add: set_credential_def)
  show "calm verify hash undestroyed (selectProject cfg i input)" unfolding selectProject_def
    by (intro calm_intros calm_ops hub_keeps_frame) (simp_all add: set_credential_def)
  show "calm verify hash undestroyed (removeCredentials i)" unfolding removeCredentials_def drop_credential_def
    by (intro calm_intros calm_ops hub_keeps_frame) simp_all
  show "calm verify hash undestroyed (listProjects cfg i)" unfolding listProjects_def
    by (intro calm_intros calm_ops calm_projects) simp_all
  show "calm verify hash undestroyed (pause_workspace cfg i)" unfolding pause_workspace_def with_record_def
    by (intro calm_intros calm_ops calm_public keeps_workspace) (simp_all add: same_machine_def)
  show "calm verify hash undestroyed (resume_workspace cfg i)" unfolding resume_workspace_def with_record_def
    by (intro calm_intros calm_ops calm_public keeps_workspace) (simp_all add: same_machine_def)
qed

section \<open>Destroying\<close>

definition revoked_box :: "registry \<Rightarrow> string \<Rightarrow> string \<Rightarrow> bool" where
  "revoked_box g boxId generation \<longleftrightarrow>
     (\<exists>r. record_of g (keyOf boxId generation) = Some r \<and> br_revoked r \<noteq> None \<and> br_bootstrapHash r = None \<and> br_reconnectHash r = None)"

lemma revoked_box_later: "revoked_box g b k \<Longrightarrow> keeps_records g g' \<Longrightarrow> revoked_box g' b k"
  unfolding revoked_box_def keeps_records_def keeps_def by blast

lemma revoke_revokes: "record_of g (keyOf b k) = Some r \<Longrightarrow> revoked_box (snd (revoke b k m g)) b k"
  by (auto simp: revoke_def Let_def revoked_box_def split: option.split prod.split)

text \<open>The workspace has left the list, and if it had a registration, that is revoked.\<close>

definition gone :: "nat \<Rightarrow> workspace \<Rightarrow> hub \<Rightarrow> bool" where
  "gone a w s \<longleftrightarrow> hub_ok s \<and> (\<exists>w'. hu_objects s a = Some w' \<and> same_machine w w') \<and> a \<notin> set (hu_listed s)
     \<and> (\<forall>c b k. ws_boxId w = Some (c # b) \<longrightarrow> ws_generation w = Some k \<longrightarrow> revoked_box (hu_registry s) (c # b) k)"

definition known :: "nat \<Rightarrow> workspace \<Rightarrow> hub \<Rightarrow> bool" where
  "known a w s \<longleftrightarrow> hub_ok s \<and> (\<exists>w'. hu_objects s a = Some w' \<and> same_machine w w')"

definition revoked_known :: "nat \<Rightarrow> workspace \<Rightarrow> hub \<Rightarrow> bool" where
  "revoked_known a w s \<longleftrightarrow> known a w s
     \<and> (\<forall>c b k. ws_boxId w = Some (c # b) \<longrightarrow> ws_generation w = Some k \<longrightarrow> revoked_box (hu_registry s) (c # b) k)"

lemma known_later: "known a w s \<Longrightarrow> hub_keeps verify hash s t \<Longrightarrow> known a w t"
  unfolding known_def using hub_keepsD(3,5) same_machine_trans by meson

lemma revoked_known_later: "revoked_known a w s \<Longrightarrow> hub_keeps verify hash s t \<Longrightarrow> revoked_known a w t"
  unfolding revoked_known_def using known_later hub_keepsD(6) revoked_box_later by (meson known_def)

lemma gone_later:
  assumes "gone a w s" and "hub_keeps verify hash s t"
  shows "gone a w t"
proof -
  have ok: "hub_ok s" and "revoked_known a w s" and out: "a \<notin> set (hu_listed s)" using assms(1) unfolding gone_def revoked_known_def known_def by auto
  then have "revoked_known a w t" using revoked_known_later assms(2) by blast
  moreover have "a < hu_next s" using assms(1) unfolding gone_def hub_ok_def by blast
  then have "a \<notin> set (hu_listed t)" using hub_keepsD(4) [OF assms(2) ok] out by blast
  ultimately show ?thesis unfolding gone_def revoked_known_def known_def by blast
qed

lemma known_revoked:
  assumes "known a w s"
  shows "revoked_known a w (s\<lparr>hu_registry := snd (revoke (box_of w) (generation_text w) m (hu_registry s))\<rparr>)"
proof -
  have "hub_keeps verify hash s (s\<lparr>hu_registry := snd (revoke (box_of w) (generation_text w) m (hu_registry s))\<rparr>)" for verify hash
    by (rule keeps_revoke_box)
  then have "known a w (s\<lparr>hu_registry := snd (revoke (box_of w) (generation_text w) m (hu_registry s))\<rparr>)" using known_later assms by blast
  moreover have "revoked_box (snd (revoke (box_of w) (generation_text w) m (hu_registry s))) (c # b) k"
    if "ws_boxId w = Some (c # b)" "ws_generation w = Some k" for c b k
  proof -
    obtain w' where w': "hu_objects s a = Some w'" "same_machine w w'" "hub_ok s" using assms unfolding known_def by blast
    then have "workspace_ok (hu_registry s) w'" unfolding hub_ok_def by blast
    then have "bound_to (hu_registry s) (c # b) k (ws_provider w) (ws_instance w)"
      using w'(2) that by (simp add: workspace_ok_def same_machine_def)
    then show ?thesis using that revoke_revokes unfolding bound_to_def by (auto simp: box_of_def generation_text_def)
  qed
  ultimately show ?thesis unfolding revoked_known_def by simp
qed

lemma revoked_unlisted:
  assumes "revoked_known a w s"
  shows "gone a w (s\<lparr>hu_listed := filter (\<lambda>b. id_at s b \<noteq> Some (ws_id w)) (hu_listed s)\<rparr>)"
proof -
  let ?t = "s\<lparr>hu_listed := filter (\<lambda>b. id_at s b \<noteq> Some (ws_id w)) (hu_listed s)\<rparr>"
  have "revoked_known a w ?t" using revoked_known_later [OF assms keeps_unlist [of _ _ s]] by blast
  moreover have "id_at s a = Some (ws_id w)" using assms by (auto simp: revoked_known_def known_def id_at_def same_machine_def)
  ultimately show ?thesis unfolding gone_def revoked_known_def known_def by auto
qed

lemma recordFor_Some: "recordFor i s = Some (a, w) \<Longrightarrow> hu_objects s a = Some w \<and> ws_id w = i"
  by (auto simp: recordFor_def id_at_def find_Some_iff split: option.splits)

definition destroyed_ok :: "cloud_error + reply \<Rightarrow> hub \<Rightarrow> bool" where
  "destroyed_ok x s \<longleftrightarrow> (\<forall>i n. x = Inr (Destroyed i n) \<longrightarrow> (\<exists>a w. ws_id w = i \<and> gone a w s))"

lemma destroyed_ok_error [simp]: "destroyed_ok (Inl e) s" "destroyed_ok (failing n m) s"
  by (simp_all add: destroyed_ok_def failing_def)

lemma destroyed_ok_later:
  assumes "destroyed_ok x s" and "hub_keeps verify hash s t"
  shows "destroyed_ok x t"
  unfolding destroyed_ok_def
proof (intro allI impI)
  fix i n assume "x = Inr (Destroyed i n)"
  then obtain a w where "ws_id w = i" "gone a w s" using assms(1) unfolding destroyed_ok_def by blast
  then show "\<exists>a w. ws_id w = i \<and> gone a w t" using gone_later [OF _ assms(2)] by blast
qed

lemma destroy_sat: "sat possible_answer (hub_keeps verify hash) hub_ok (destroy_workspace cfg i) destroyed_ok"
  unfolding destroy_workspace_def with_record_def
proof (rule hub.sat_reading)
  fix found
  show "sat possible_answer (hub_keeps verify hash) (\<lambda>s. hub_ok s \<and> recordFor i s = found)
     (case found of None \<Rightarrow> throw 404 ''cloud workspace not found''
      | Some (a, w) \<Rightarrow> andOk (providerAction cfg a Destroy) (\<lambda>_.
         revoke_box (box_of w) (generation_text w) ''cloud workspace destroyed'' (\<lambda>_.
           writing (\<lambda>s. s\<lparr>hu_listed := filter (\<lambda>b. id_at s b \<noteq> Some i) (hu_listed s)\<rparr>)
             (andOk persist_hub (\<lambda>_. give (Inr (Destroyed i (ws_name w)))))))) destroyed_ok"
  proof (cases found)
    case None
    then show ?thesis by (auto simp: throw_def intro: hub.sat_give)
  next
    case (Some aw)
    obtain a w where aw: "aw = (a, w)" by fastforce
    have last: "sat possible_answer (hub_keeps verify hash) (gone a w) (andOk persist_hub (\<lambda>_. give (Inr (Destroyed i (ws_name w))))) destroyed_ok"
      if "ws_id w = i"
      by (rule hub.sat_andOk [OF hub.steadyD [OF calm_persist]])
        (use that in \<open>auto intro: gone_later intro!: hub.sat_give exI [of _ a] exI [of _ w] simp: destroyed_ok_def\<close>)
    have unlist: "sat possible_answer (hub_keeps verify hash) (revoked_known a w)
       (writing (\<lambda>s. s\<lparr>hu_listed := filter (\<lambda>b. id_at s b \<noteq> Some i) (hu_listed s)\<rparr>)
         (andOk persist_hub (\<lambda>_. give (Inr (Destroyed i (ws_name w)))))) destroyed_ok" if i: "ws_id w = i"
      by (rule hub.sat_writing [OF keeps_unlist hub.sat_weaken [OF last [OF i]]]) (use i revoked_unlisted in auto)
    have revoke: "sat possible_answer (hub_keeps verify hash) (known a w)
       (revoke_box (box_of w) (generation_text w) ''cloud workspace destroyed'' (\<lambda>_.
         writing (\<lambda>s. s\<lparr>hu_listed := filter (\<lambda>b. id_at s b \<noteq> Some i) (hu_listed s)\<rparr>)
           (andOk persist_hub (\<lambda>_. give (Inr (Destroyed i (ws_name w))))))) destroyed_ok" if i: "ws_id w = i"
      unfolding revoke_box_def
      by (rule hub.sat_writing [OF keeps_revoke_box hub.sat_wait [OF hub.sat_weaken [OF unlist [OF i]]]])
        (use known_revoked revoked_known_later in blast)+
    have "sat possible_answer (hub_keeps verify hash) (known a w)
       (andOk (providerAction cfg a Destroy) (\<lambda>_.
         revoke_box (box_of w) (generation_text w) ''cloud workspace destroyed'' (\<lambda>_.
           writing (\<lambda>s. s\<lparr>hu_listed := filter (\<lambda>b. id_at s b \<noteq> Some i) (hu_listed s)\<rparr>)
             (andOk persist_hub (\<lambda>_. give (Inr (Destroyed i (ws_name w)))))))) destroyed_ok"
      if i: "ws_id w = i"
      by (rule hub.sat_andOk [OF hub.steadyD [OF calm_action] hub.sat_weaken [OF revoke [OF i]]]) (auto intro: known_later)
    then show ?thesis unfolding Some aw
      by (cases "ws_id w = i") (auto simp: sat_def known_def dest!: recordFor_Some)
  qed
qed

section \<open>Provisioning\<close>

definition registered :: "string \<Rightarrow> string \<Rightarrow> string \<Rightarrow> hub \<Rightarrow> bool" where
  "registered boxId generation provider s \<longleftrightarrow> hub_ok s
     \<and> (\<exists>r. record_of (hu_registry s) (keyOf boxId generation) = Some r \<and> br_provider r = provider)"

lemma registered_later: "registered b k p s \<Longrightarrow> hub_keeps verify hash s t \<Longrightarrow> registered b k p t"
  unfolding registered_def using hub_keepsD(5,6) unfolding keeps_records_def keeps_def by metis

lemma registered_bound_later:
  assumes "registered b k p s \<and> bound_to (hu_registry s) b k p i" and "hub_keeps verify hash s t"
  shows "registered b k p t \<and> bound_to (hu_registry t) b k p i"
proof -
  have "hub_ok s" using assms(1) by (simp add: registered_def)
  from hub_keepsD(6) [OF assms(2) this] show ?thesis using assms registered_later bound_to_later by blast
qed

lemma sat_on_registry:
  assumes "\<And>s. P s \<Longrightarrow> (box_step verify hash)\<^sup>*\<^sup>* (hu_registry s) (snd (f (hu_registry s)))"
    and "\<And>x. sat possible_answer (hub_keeps verify hash)
      (\<lambda>t. \<exists>s. P s \<and> x = fst (f (hu_registry s)) \<and> t = s\<lparr>hu_registry := snd (f (hu_registry s))\<rparr>) (g x) Q"
  shows "sat possible_answer (hub_keeps verify hash) P (on_registry f g) Q"
proof (rule hub.satI)
  fix s assume P: "P s"
  let ?t = "s\<lparr>hu_registry := snd (f (hu_registry s))\<rparr>"
  have eq: "on_registry f g s = g (fst (f (hu_registry s))) ?t" by (simp add: on_registry_def split: prod.split)
  have "hub_keeps verify hash s ?t" using assms(1) [OF P] by (rule keeps_registry)
  then show "hub_keeps verify hash s (fst (on_registry f g s))
    \<and> meets possible_answer (hub_keeps verify hash) Q (snd (on_registry f g s)) (fst (on_registry f g s))"
    unfolding eq using hub.satD [OF assms(2), of "fst (f (hu_registry s))" ?t] P hub_keeps_trans by blast
qed

lemma persist_keeps:
  "(\<And>s t. P s \<Longrightarrow> hub_keeps verify hash s t \<Longrightarrow> P t) \<Longrightarrow> sat possible_answer (hub_keeps verify hash) P persist_hub (\<lambda>x t. P t)"
  by (rule hub.sat_weaken [OF hub.steadyD [OF calm_persist]]) auto

lemma prepare_sat:
  "sat possible_answer (hub_keeps verify (hc_hash cfg)) hub_ok (prepare_box cfg boxId providerId)
     (\<lambda>x t. \<forall>k secret. x = Inr (k, secret) \<longrightarrow> registered boxId k (js_lower providerId) t)"
  unfolding prepare_box_def
proof (rule hub.sat_wait)
  fix r
  let ?P = "\<lambda>t. \<exists>s. hub_ok s \<and> hub_keeps verify (hc_hash cfg) s t \<and> possible_answer (Registering boxId) t r"
  let ?Q = "\<lambda>x t. \<forall>k secret. x = Inr (k, secret) \<longrightarrow> registered boxId k (js_lower providerId) t"
  show "sat possible_answer (hub_keeps verify (hc_hash cfg)) ?P
     (case r of Drawn generation secret \<Rightarrow>
           on_registry (prepareRegistration (hc_hash cfg) (Some (JStr boxId)) (Some (JStr providerId)) bootstrap_ttl_ms generation secret) (\<lambda>x.
             case x of Inl m \<Rightarrow> give (Inl (None, m)) | Inr _ \<Rightarrow> andOk persist_hub (\<lambda>_. give (Inr (generation, secret))))
       | _ \<Rightarrow> give (Inl type_error)) ?Q"
  proof (cases r)
    case (Drawn k secret)
    let ?f = "prepareRegistration (hc_hash cfg) (Some (JStr boxId)) (Some (JStr providerId)) bootstrap_ttl_ms k secret"
    have kept: "(box_step verify (hc_hash cfg))\<^sup>*\<^sup>* (hu_registry t) (snd (?f (hu_registry t)))" if "?P t" for t
      using that Drawn by (intro r_into_rtranclp box_step.prepared) (auto simp: possible_answer_def)
    have made: "registered boxId k (js_lower providerId) (t\<lparr>hu_registry := snd (?f (hu_registry t))\<rparr>)"
      if "?P t" "Inr v = fst (?f (hu_registry t))" for t v
    proof -
      have "hub_ok t" using that(1) hub_keepsD(5) by blast
      then have "hub_ok (t\<lparr>hu_registry := snd (?f (hu_registry t))\<rparr>)" using hub_keepsD(5) [OF keeps_registry [OF kept [OF that(1)]]] by blast
      then show ?thesis using that(2) [symmetric] by (auto simp: registered_def prepareRegistration_def Let_def split: if_splits)
    qed
    have "sat possible_answer (hub_keeps verify (hc_hash cfg)) ?P
      (on_registry ?f (\<lambda>x. case x of Inl m \<Rightarrow> give (Inl (None, m)) | Inr _ \<Rightarrow> andOk persist_hub (\<lambda>_. give (Inr (k, secret))))) ?Q"
    proof (rule sat_on_registry [OF kept])
      fix x
      show "sat possible_answer (hub_keeps verify (hc_hash cfg)) (\<lambda>u. \<exists>t. ?P t \<and> x = fst (?f (hu_registry t)) \<and> u = t\<lparr>hu_registry := snd (?f (hu_registry t))\<rparr>)
         (case x of Inl m \<Rightarrow> give (Inl (None, m)) | Inr _ \<Rightarrow> andOk persist_hub (\<lambda>_. give (Inr (k, secret)))) ?Q"
      proof (cases x)
        case (Inr v)
        have "sat possible_answer (hub_keeps verify (hc_hash cfg)) (registered boxId k (js_lower providerId))
           (andOk persist_hub (\<lambda>_. give (Inr (k, secret)))) ?Q"
          by (rule hub.sat_andOk [OF persist_keeps hub.sat_give]) (auto intro: registered_later)
        then show ?thesis unfolding Inr sum.case
        proof (rule hub.sat_weaken)
          fix u assume "\<exists>t. ?P t \<and> Inr v = fst (?f (hu_registry t)) \<and> u = t\<lparr>hu_registry := snd (?f (hu_registry t))\<rparr>"
          then show "registered boxId k (js_lower providerId) u" using made by blast
        qed
      qed (auto intro: hub.sat_give)
    qed
    then show ?thesis by (simp only: Drawn cloud_answer.case)
  qed (auto intro: hub.sat_give)
qed

lemma bind_binds:
  assumes "record_of g (keyOf b k) = Some r" and "bindProviderInstance b k (Some (JStr i)) g = (Inr p, g')"
  shows "bound_to g' b k (br_provider r) i"
proof -
  have "i \<noteq> []" using assms(2) by (auto simp: bindProviderInstance_def validIdentity_def split: if_splits list.splits)
  then show ?thesis using assms
    by (auto simp: bindProviderInstance_def bound_to_def Let_def split: if_splits option.splits)
qed

lemma bind_sat:
  "sat possible_answer (hub_keeps verify hash) (registered b k p) (bind_box b k i)
     (\<lambda>x t. registered b k p t \<and> (x = Inr () \<longrightarrow> bound_to (hu_registry t) b k p i))"
  unfolding bind_box_def
proof (rule sat_on_registry)
  let ?f = "bindProviderInstance b k (Some (JStr i))"
  show kept: "(box_step verify hash)\<^sup>*\<^sup>* (hu_registry s) (snd (?f (hu_registry s)))" for s
    by (intro r_into_rtranclp box_step.bound)
  fix x
  let ?P = "\<lambda>t. \<exists>s. registered b k p s \<and> x = fst (?f (hu_registry s)) \<and> t = s\<lparr>hu_registry := snd (?f (hu_registry s))\<rparr>"
  have reg: "registered b k p t" if "?P t" for t
    using that registered_later keeps_registry [OF kept] by blast
  show "sat possible_answer (hub_keeps verify hash) ?P (case x of Inl m \<Rightarrow> give (Inl (None, m)) | Inr _ \<Rightarrow> persist_hub)
     (\<lambda>x t. registered b k p t \<and> (x = Inr () \<longrightarrow> bound_to (hu_registry t) b k p i))"
  proof (cases x)
    case (Inl m)
    then show ?thesis using reg by (auto intro!: hub.sat_give)
  next
    case (Inr v)
    have bound: "bound_to (hu_registry t) b k p i" if P: "?P t" for t
    proof -
      obtain s where s: "registered b k p s" "Inr v = fst (?f (hu_registry s))" "t = s\<lparr>hu_registry := snd (?f (hu_registry s))\<rparr>"
        using P unfolding Inr by blast
      then obtain r where r: "record_of (hu_registry s) (keyOf b k) = Some r" "br_provider r = p" by (auto simp: registered_def)
      have "?f (hu_registry s) = (Inr v, snd (?f (hu_registry s)))" using s(2) by (simp add: prod_eq_iff)
      from bind_binds [OF r(1) this] show ?thesis by (simp add: r(2) s(3))
    qed
    have "sat possible_answer (hub_keeps verify hash) (\<lambda>t. registered b k p t \<and> bound_to (hu_registry t) b k p i) persist_hub
       (\<lambda>_ t. registered b k p t \<and> bound_to (hu_registry t) b k p i)"
      by (rule persist_keeps) (rule registered_bound_later)
    then show ?thesis unfolding Inr sum.case
    proof (rule hub.sat_weaken)
      fix t assume "\<exists>s. registered b k p s \<and> Inr v = fst (?f (hu_registry s)) \<and> t = s\<lparr>hu_registry := snd (?f (hu_registry s))\<rparr>"
      then show "registered b k p t \<and> bound_to (hu_registry t) b k p i" using reg bound Inr by blast
    qed simp
  qed
qed

lemma machine_calm: "calm verify hash (\<lambda>_. True) (machine_of cfg i q v)"
  unfolding machine_of_def by (intro calm_intros calm_ops)

definition machine_settled :: "string \<Rightarrow> string \<Rightarrow> string \<Rightarrow> cloud_error + machine \<Rightarrow> hub \<Rightarrow> bool" where
  "machine_settled boxId generation provider x s \<longleftrightarrow> hub_ok s
     \<and> (case x of
          Inl _ \<Rightarrow> revoked_box (hu_registry s) boxId generation
        | Inr m \<Rightarrow> bound_to (hu_registry s) boxId generation provider (mc_instanceId m))"

lemma machine_sat:
  "sat possible_answer (hub_keeps verify hash) (registered (mr_boxId q) (mr_generation q) p) (bound_machine cfg i q v)
     (machine_settled (mr_boxId q) (mr_generation q) p)"
  unfolding bound_machine_def
proof (rule hub.sat_andThen)
  let ?R = "registered (mr_boxId q) (mr_generation q) p"
  let ?B = "\<lambda>m s. bound_to (hu_registry s) (mr_boxId q) (mr_generation q) p (mc_instanceId m)"
  show "sat possible_answer (hub_keeps verify hash) ?R
     (andOk (machine_of cfg i q v) (\<lambda>m. andOk (bind_box (mr_boxId q) (mr_generation q) (mc_instanceId m)) (\<lambda>_. give (Inr m))))
     (\<lambda>x t. ?R t \<and> (\<forall>m. x = Inr m \<longrightarrow> ?B m t))"
  proof (rule hub.sat_andOk [OF hub.steadyD [OF machine_calm]])
    show "sat possible_answer (hub_keeps verify hash) (\<lambda>t. ?R t \<and> True)
       (andOk (bind_box (mr_boxId q) (mr_generation q) (mc_instanceId m)) (\<lambda>_. give (Inr m))) (\<lambda>x t. ?R t \<and> (\<forall>m. x = Inr m \<longrightarrow> ?B m t))" for m
      by (rule hub.sat_andOk [where Q' = "\<lambda>x t. ?R t \<and> (x = Inr () \<longrightarrow> ?B m t)", OF hub.sat_weaken [OF bind_sat] hub.sat_give]) auto
  qed (auto intro: registered_later)
  fix x
  show "sat possible_answer (hub_keeps verify hash) (\<lambda>t. ?R t \<and> (\<forall>m. x = Inr m \<longrightarrow> ?B m t))
     (case x of Inl e \<Rightarrow> revoke_box (mr_boxId q) (mr_generation q) ''provider provisioning failed'' (\<lambda>_. give (Inl e)) | Inr m \<Rightarrow> give (Inr m))
     (machine_settled (mr_boxId q) (mr_generation q) p)"
  proof (cases x)
    case (Inl e)
    have rev: "hub_ok t \<and> revoked_box (hu_registry t) (mr_boxId q) (mr_generation q)"
      if s: "?R s" and t: "hub_keeps verify hash (s\<lparr>hu_registry := snd (revoke (mr_boxId q) (mr_generation q) m (hu_registry s))\<rparr>) t" for s t m
    proof -
      let ?u = "s\<lparr>hu_registry := snd (revoke (mr_boxId q) (mr_generation q) m (hu_registry s))\<rparr>"
      have ok: "hub_ok ?u" using hub_keepsD(5) [OF keeps_revoke_box] s unfolding registered_def by blast
      have "revoked_box (hu_registry ?u) (mr_boxId q) (mr_generation q)" using s by (auto simp: registered_def intro: revoke_revokes)
      then show ?thesis using revoked_box_later hub_keepsD(5,6) [OF t ok] by blast
    qed
    then show ?thesis unfolding Inl sum.case revoke_box_def
      by (intro hub.sat_writing hub.sat_wait hub.sat_give keeps_revoke_box) (auto simp: machine_settled_def)
  next
    case (Inr m)
    then show ?thesis by (auto simp: machine_settled_def registered_def intro!: hub.sat_give)
  qed
qed

lemma record_sat:
  "sat possible_answer (hub_keeps verify hash) (machine_settled (mr_boxId q) (mr_generation q) i (Inr m)) (record_machine u i name q m)
     (\<lambda>x t. undestroyed x)"
  unfolding record_machine_def
proof (intro hub.sat_reading hub.sat_writing)
  fix now a s
  assume "(machine_settled (mr_boxId q) (mr_generation q) i (Inr m) s \<and> clock s = now) \<and> hu_next s = a"
  then show "hub_keeps verify hash s (add_workspace (new_workspace u i name q m now) s)"
    by (intro keeps_add) (auto simp: machine_settled_def workspace_ok_def new_workspace_def)
next
  fix now a
  have "calm verify hash undestroyed (andOk persist_hub (\<lambda>_. reading (\<lambda>s. get_registration (mr_name q) (mr_generation q) (hu_registry s)) (\<lambda>found.
         with_object a (\<lambda>w. case found of Some None \<Rightarrow> give (Inl type_error)
           | Some (Some r) \<Rightarrow> give (Inr (Workspace (publicCloudWorkspace w (Some r))))
           | None \<Rightarrow> give (Inr (Workspace (publicCloudWorkspace w None)))))))"
    by (intro calm_intros calm_ops calm_object) simp_all
  from hub.steady_sat [OF this]
  show "sat possible_answer (hub_keeps verify hash)
      (\<lambda>t. \<exists>s. ((machine_settled (mr_boxId q) (mr_generation q) i (Inr m) s \<and> clock s = now) \<and> hu_next s = a) \<and> t = add_workspace (new_workspace u i name q m now) s)
      (andOk persist_hub (\<lambda>_. reading (\<lambda>s. get_registration (mr_name q) (mr_generation q) (hu_registry s)) (\<lambda>found.
         with_object a (\<lambda>w. case found of Some None \<Rightarrow> give (Inl type_error)
           | Some (Some r) \<Rightarrow> give (Inr (Workspace (publicCloudWorkspace w (Some r))))
           | None \<Rightarrow> give (Inr (Workspace (publicCloudWorkspace w None))))))) (\<lambda>x t. undestroyed x)"
    by (rule hub.sat_weaken) auto
qed

lemma provider_lower: "providerDefinition i = Inr name \<Longrightarrow> js_lower i = i"
proof -
  assume "providerDefinition i = Inr name"
  then have "i \<in> {''digitalocean'', ''hetzner'', ''aws'', ''gcp''}"
    by (simp add: providerDefinition_def provider_table_def failing_def split: if_splits)
  then show "js_lower i = i" by (elim insertE emptyE) (simp_all add: js_lower_def js_lower_char_def)
qed

lemma registered_sat:
  assumes "js_lower i = i"
  shows "sat possible_answer (hub_keeps verify hash) (registered (mr_name q) k (js_lower i)) (provision_registered cfg u i name q v k secret) (\<lambda>x t. undestroyed x)"
proof (cases "hc_userData cfg (mr_name q) k secret i")
  case (Inr userData)
  let ?q = "q\<lparr>mr_boxId := mr_name q, mr_generation := k, mr_userData := userData\<rparr>"
  have "sat possible_answer (hub_keeps verify hash) (registered (mr_boxId ?q) (mr_generation ?q) i)
     (andOk (bound_machine cfg i ?q v) (record_machine u i name ?q)) (\<lambda>x t. undestroyed x)"
    by (rule hub.sat_andOk [OF machine_sat record_sat]) simp
  then show ?thesis using assms by (simp add: provision_registered_def Inr Let_def)
qed (auto simp: provision_registered_def intro: hub.sat_give)

lemma sat_try:
  "(\<And>v. x = Inr v \<Longrightarrow> sat possible_answer (hub_keeps verify hash) P (f v) (\<lambda>x t. undestroyed x))
   \<Longrightarrow> sat possible_answer (hub_keeps verify hash) P (try_value x f) (\<lambda>x t. undestroyed x)"
  by (cases x) (auto simp: try_value_def intro: hub.sat_give)

lemma provision_sat: "sat possible_answer (hub_keeps verify (hc_hash cfg)) hub_ok (provision cfg u input) (\<lambda>x t. undestroyed x)"
proof -
  have prepared: "sat possible_answer (hub_keeps verify (hc_hash cfg)) hub_ok
      (andOk (credential_for cfg i False) (\<lambda>v. andOk (prepare_box cfg (mr_name q) i) (\<lambda>(k, secret). provision_registered cfg u i name q v k secret)))
      (\<lambda>x t. undestroyed x)" if i: "js_lower i = i" for i q name
  proof (rule hub.sat_andOk [OF hub.steadyD [OF calm_credential]])
    show "hub_ok s \<Longrightarrow> hub_keeps verify (hc_hash cfg) s t \<Longrightarrow> hub_ok t" for s t by (rule hub_keepsD(5))
    fix v
    show "sat possible_answer (hub_keeps verify (hc_hash cfg)) (\<lambda>t. hub_ok t \<and> True)
       (andOk (prepare_box cfg (mr_name q) i) (\<lambda>(k, secret). provision_registered cfg u i name q v k secret)) (\<lambda>x t. undestroyed x)"
    proof (rule hub.sat_andOk [where Q' = "\<lambda>x t. \<forall>k secret. x = Inr (k, secret) \<longrightarrow> registered (mr_name q) k (js_lower i) t", OF hub.sat_weaken [OF prepare_sat]])
      fix w
      show "sat possible_answer (hub_keeps verify (hc_hash cfg)) (\<lambda>t. \<forall>k secret. Inr w = Inr (k, secret) \<longrightarrow> registered (mr_name q) k (js_lower i) t)
        (case w of (k, secret) \<Rightarrow> provision_registered cfg u i name q v k secret) (\<lambda>x t. undestroyed x)"
        by (cases w) (simp, rule registered_sat [OF i])
    qed simp_all
  qed simp_all
  let ?q = "\<lambda>name region size image. \<lparr>mr_name = js_lower name, mr_region = region, mr_size = size, mr_image = image,
     mr_boxId = [], mr_generation = [], mr_userData = []\<rparr>"
  from prepared [OF provider_lower, of _ _ "?q _ _ _ _"] show ?thesis
    unfolding provision_def throw_def
    by (auto intro!: hub.sat_give sat_try split: option.split json.split)
qed

section \<open>The service under every interleaving\<close>

definition service_calls :: "hub_config \<Rightarrow> reply service set" where
  "service_calls cfg =
     {m. (\<exists>u input. m = provision cfg u input) \<or> (\<exists>i. m = pause_workspace cfg i \<or> m = resume_workspace cfg i \<or> m = destroy_workspace cfg i)
       \<or> (\<exists>i input. m = configure i input) \<or> (\<exists>u i. m = startHandoff u i) \<or> (\<exists>i. m = handoffStatus i \<or> m = cancelHandoff i)
       \<or> (\<exists>u e input. m = startAwsRole cfg u e input) \<or> (\<exists>i. m = verifyAwsRole cfg i) \<or> (\<exists>i v. m = configureOAuth i v)
       \<or> (\<exists>i input. m = selectProject cfg i input) \<or> (\<exists>i. m = removeCredentials i \<or> m = listProjects cfg i)}"

text \<open>What happens without the service: the registry serves its boxes.\<close>

definition registry_runs :: "(registration \<Rightarrow> json \<Rightarrow> string \<Rightarrow> box_error + unit) \<Rightarrow> (string \<Rightarrow> string) \<Rightarrow> hub \<Rightarrow> hub \<Rightarrow> bool" where
  "registry_runs verify hash s t \<longleftrightarrow> (\<exists>g. box_step verify hash (hu_registry s) g \<and> t = s\<lparr>hu_registry := g\<rparr>)"

lemma undestroyed_ok: "undestroyed x \<Longrightarrow> destroyed_ok x s"
  by (auto simp: undestroyed_def destroyed_ok_def)

lemma calls_sat:
  assumes "m \<in> service_calls cfg"
  shows "sat possible_answer (hub_keeps verify (hc_hash cfg)) hub_ok m destroyed_ok"
proof -
  have calm: "sat possible_answer (hub_keeps verify (hc_hash cfg)) hub_ok m destroyed_ok" if "calm verify (hc_hash cfg) undestroyed m" for m
    by (rule hub.sat_weaken [OF hub.steady_sat [OF that]]) (auto intro: undestroyed_ok)
  have prov: "sat possible_answer (hub_keeps verify (hc_hash cfg)) hub_ok (provision cfg u input) destroyed_ok" for u input
    by (rule hub.sat_weaken [OF provision_sat]) (auto intro: undestroyed_ok)
  show ?thesis using assms unfolding service_calls_def
    by (elim CollectE disjE exE) (simp_all only: calm [OF calm_calls(1)] calm [OF calm_calls(2)] calm [OF calm_calls(3)]
      calm [OF calm_calls(4)] calm [OF calm_calls(5)] calm [OF calm_calls(6)] calm [OF calm_calls(7)] calm [OF calm_calls(8)]
      calm [OF calm_calls(9)] calm [OF calm_calls(10)] calm [OF calm_calls(11)] calm [OF calm_calls(12)] prov destroy_sat)
qed

abbreviation hub_run ::
  "(registration \<Rightarrow> json \<Rightarrow> string \<Rightarrow> box_error + unit) \<Rightarrow> hub_config \<Rightarrow> hub \<Rightarrow> hub \<Rightarrow> (cloud_wait, cloud_answer, hub, cloud_error + reply) prog list \<Rightarrow> bool" where
  "hub_run verify cfg s t ps \<equiv> (loop_step possible_answer (service_calls cfg) (registry_runs verify (hc_hash cfg)))\<^sup>*\<^sup>* (s, []) (t, ps)"

lemma run_keeps:
  assumes "hub_run verify cfg s t ps" and "hub_ok s"
  shows "hub_keeps verify (hc_hash cfg) s t" "hub.tasks_meet verify (hc_hash cfg) destroyed_ok t ps"
proof -
  have "registry_runs verify (hc_hash cfg) u w \<Longrightarrow> hub_keeps verify (hc_hash cfg) u w" for u w
    by (auto simp: registry_runs_def intro: keeps_registry)
  then have "hub_keeps verify (hc_hash cfg) s t \<and> hub.tasks_meet verify (hc_hash cfg) destroyed_ok t ps"
    by (intro hub.loop_keeps [OF assms(1) calls_sat _ assms(2)]) (auto simp: hub.tasks_meet_def dest: hub_keepsD(5))
  then show "hub_keeps verify (hc_hash cfg) s t" "hub.tasks_meet verify (hc_hash cfg) destroyed_ok t ps" by blast+
qed

section \<open>The properties\<close>

text \<open>
  C30: A destroyed workspace stays gone.  In any interleaving of the service's calls with each other and with the box
  registry, once a call answered that a workspace is destroyed, it is never listed again, and a registration it had is
  revoked: no agent authenticates with it and no dial reaches it.
\<close>

theorem destroyed_workspace_gone:
  assumes "hub_run verify cfg s t ps" and "hub_ok s" and "box_reachable verify (hc_hash cfg) (hu_registry s)"
    and "Done (Inr (Destroyed i n)) \<in> set ps"
  shows "\<exists>a w. hu_objects t a = Some w \<and> ws_id w = i \<and> a \<notin> set (hu_listed t)
    \<and> (\<forall>c b k. ws_boxId w = Some (c # b) \<longrightarrow> ws_generation w = Some k \<longrightarrow>
         map_of (g_connections (hu_registry t)) (keyOf (c # b) k) = None
         \<and> (\<exists>e. authenticate_finish (hc_hash cfg) fresh epoch socket (keyOf (c # b) k) hello (hu_registry t) = (Some e, hu_registry t))
         \<and> (\<exists>m. dial (Some (JStr (c # b))) (Some (JStr k)) port stream (hu_registry t) = (Inl m, hu_registry t)))"
proof -
  note kept = run_keeps [OF assms(1,2)]
  have "destroyed_ok (Inr (Destroyed i n)) t"
    by (rule hub.loop_results [OF kept(2) assms(4)]) (rule destroyed_ok_later)
  then obtain a w where w: "ws_id w = i" "gone a w t" unfolding destroyed_ok_def by blast
  then obtain w' where w': "hu_objects t a = Some w'" "same_machine w w'" "a \<notin> set (hu_listed t)" unfolding gone_def by blast
  have reach: "box_reachable verify (hc_hash cfg) (hu_registry t)"
    using reachable_steps [OF assms(3) hub_keepsD(1) [OF kept(1) assms(2)]] .
  show ?thesis
  proof (rule exI [of _ a], rule exI [of _ w'], intro conjI allI impI)
    show "hu_objects t a = Some w'" and "a \<notin> set (hu_listed t)" using w' by simp_all
    show "ws_id w' = i" using w(1) w'(2) by (simp add: same_machine_def)
    fix c b k assume "ws_boxId w' = Some (c # b)" "ws_generation w' = Some k"
    then have "revoked_box (hu_registry t) (c # b) k" using w(2) w'(2) unfolding gone_def same_machine_def by simp
    then obtain r where r: "record_of (hu_registry t) (keyOf (c # b) k) = Some r" "br_revoked r \<noteq> None" "br_bootstrapHash r = None" "br_reconnectHash r = None"
      unfolding revoked_box_def by blast
    note out = revoked_unreachable [OF reach r]
    show "map_of (g_connections (hu_registry t)) (keyOf (c # b) k) = None" by (rule out [THEN conjunct1])
    show "\<exists>e. authenticate_finish (hc_hash cfg) fresh epoch socket (keyOf (c # b) k) hello (hu_registry t) = (Some e, hu_registry t)"
      by (rule out [THEN conjunct2, THEN conjunct1])
    show "\<exists>m. dial (Some (JStr (c # b))) (Some (JStr k)) port stream (hu_registry t) = (Inl m, hu_registry t)"
      by (rule out [THEN conjunct2, THEN conjunct2])
  qed
qed

text \<open>
  C32: A listed workspace is one machine with its registration.  Every interleaving keeps the list of workspaces
  without duplicate ids, and the registration of each listed workspace is bound to exactly the machine the workspace
  names.
\<close>

theorem workspaces_bound:
  assumes "hub_run verify cfg s t ps" and "hub_ok s"
  shows "distinct (map (id_at t) (hu_listed t))
    \<and> (\<forall>a \<in> set (hu_listed t). \<exists>w. hu_objects t a = Some w
      \<and> (\<forall>b k. ws_boxId w = Some b \<longrightarrow> ws_generation w = Some k \<longrightarrow>
           (\<exists>r. record_of (hu_registry t) (keyOf b k) = Some r \<and> br_provider r = ws_provider w \<and> br_instance r = Some (ws_instance w))))"
proof (intro conjI ballI)
  have ok: "hub_ok t" using hub_keepsD(5) [OF run_keeps(1) [OF assms] assms(2)] .
  then show "distinct (map (id_at t) (hu_listed t))" by (simp add: hub_ok_def distinct_map)
  fix a assume "a \<in> set (hu_listed t)"
  then obtain w where w: "hu_objects t a = Some w" using ok unfolding hub_ok_def by blast
  then have "workspace_ok (hu_registry t) w" using ok unfolding hub_ok_def by blast
  then show "\<exists>w. hu_objects t a = Some w
      \<and> (\<forall>b k. ws_boxId w = Some b \<longrightarrow> ws_generation w = Some k \<longrightarrow>
           (\<exists>r. record_of (hu_registry t) (keyOf b k) = Some r \<and> br_provider r = ws_provider w \<and> br_instance r = Some (ws_instance w)))"
    using w by (auto simp: workspace_ok_def bound_to_def)
qed

text \<open>
  C31: A machine is bound or its registration is revoked.  The block under \<^verbatim>\<open>try\<close> of \<^verbatim>\<open>provision\<close>, started with a
  prepared registration and whatever the other calls and the registry do while it waits, ends with a machine only when
  the registration is bound to that machine, and with an error only when the registration is revoked.
\<close>

theorem failed_provision_revoked:
  "sat possible_answer (hub_keeps verify hash) (registered (mr_boxId q) (mr_generation q) p) (bound_machine cfg i q v)
     (\<lambda>x s. case x of
        Inl _ \<Rightarrow> revoked_box (hu_registry s) (mr_boxId q) (mr_generation q)
      | Inr m \<Rightarrow> bound_to (hu_registry s) (mr_boxId q) (mr_generation q) p (mc_instanceId m))"
  by (rule hub.sat_weaken [OF machine_sat]) (auto simp: machine_settled_def split: sum.splits)

section \<open>A concrete run\<close>

definition answerable :: "cloud_wait \<Rightarrow> cloud_answer \<Rightarrow> bool" where
  "answerable w r \<longleftrightarrow>
     (case w of
        Http _ \<Rightarrow> (case r of Unreachable _ \<Rightarrow> True | Answered _ _ _ \<Rightarrow> True | _ \<Rightarrow> False)
      | Disk \<Rightarrow> (case r of Stored _ \<Rightarrow> True | _ \<Rightarrow> False)
      | _ \<Rightarrow> False)"

fun drive :: "cloud_answer list \<Rightarrow> (hub, 'a) hub_prog \<Rightarrow> (hub, 'a) hub_prog" where
  "drive (r # rs) (s, Await w k) = (if answerable w r then drive rs (k r s) else (s, Await w k))"
| "drive rs (s, p) = (s, p)"

lemma drive_runs: "(loop_step possible_answer calls outside)\<^sup>*\<^sup>* (fst x, [snd x]) (fst (drive rs x), [snd (drive rs x)])"
proof (induction rs x rule: drive.induct)
  case (1 r rs s w k)
  show ?case
  proof (cases "answerable w r")
    case True
    then have "loop_step possible_answer calls outside (s, [Await w k]) (fst (k r s), [Await w k][0 := snd (k r s)])"
      by (intro loop_step.resume) (auto simp: answerable_def possible_answer_def split: cloud_wait.splits cloud_answer.splits)
    then show ?thesis using 1 [OF True] True by (simp add: converse_rtranclp_into_rtranclp)
  qed simp
qed simp_all

lemma drive_run:
  assumes "m \<in> service_calls cfg"
  shows "hub_run verify cfg s (fst (drive rs (m s))) [snd (drive rs (m s))]"
proof -
  have "loop_step possible_answer (service_calls cfg) (registry_runs verify (hc_hash cfg)) (s, []) (fst (m s), [] @ [snd (m s)])"
    using assms by (rule loop_step.call)
  then show ?thesis
    using drive_runs [of "service_calls cfg" "registry_runs verify (hc_hash cfg)" "m s" rs] by (simp add: converse_rtranclp_into_rtranclp)
qed

definition ex_platform :: platform where
  "ex_platform = \<lparr>pf_sha256 = ex_hash, pf_hmac = (\<lambda>_ _. []), pf_hmac_hex = (\<lambda>_ _. []), pf_iso = (\<lambda>_. []), pf_before = (\<lambda>_ _. False),
     pf_gzip = (\<lambda>x. x), pf_rs256 = (\<lambda>_ _. Inl ''no key''), pf_date = (\<lambda>_. None)\<rparr>"

definition ex_cloud :: hub_config where
  "ex_cloud = \<lparr>hc_platform = ex_platform, hc_oauth = (\<lambda>_. None),
     hc_aws = \<lparr>aw_keyId = [], aw_secret = [], aw_token = [], aw_principal = [], aw_template = [], aw_role = [], aw_stack = [], aw_region = []\<rparr>,
     hc_hash = ex_hash, hc_userData = (\<lambda>_ _ _ _. Inr ''script'')\<rparr>"

definition ex_workspace :: workspace where
  "ex_workspace = \<lparr>ws_id = ''digitalocean-42'', ws_name = ''b'', ws_boxId = Some ''b'', ws_generation = Some ''g'', ws_status = ''active'',
     ws_created = 0, ws_paused = None, ws_resumed = None, ws_provider = ''digitalocean'', ws_providerName = ''DigitalOcean'',
     ws_instance = ''42'', ws_state = JStr ''active'', ws_region = ''r'', ws_size = ''z'', ws_image = ''i'', ws_console = None\<rparr>"

definition ex_hub :: "registry \<Rightarrow> hub" where
  "ex_hub g = \<lparr>hu_registry = g, hu_credentials = [(''digitalocean'', JObj [(''kind'', JStr ''api_token''), (''token'', JStr ''t'')])],
     hu_objects = [0 \<mapsto> ex_workspace], hu_next = 1, hu_listed = [0], hu_roles = [], hu_temporary = [], hu_handoffs = [], hu_refreshing = [],
     hu_promises = Map.empty, hu_promise = 0\<rparr>"

lemma ex_hub_ok: "hub_ok (ex_hub ex_online)"
proof -
  have "map_option (\<lambda>r. (br_provider r, br_instance r)) (record_of ex_online (keyOf ''b'' ''g'')) = Some (''digitalocean'', Some ''42'')"
    unfolding ex_online_def ex_greeted_eq by code_simp
  then show ?thesis by (auto simp: hub_ok_def ex_hub_def ex_workspace_def workspace_ok_def bound_to_def)
qed

abbreviation ex_answers :: "cloud_answer list" where
  "ex_answers \<equiv> [Answered 204 ''No Content'' [], Stored True, Stored True]"

abbreviation ex_destroyed :: "registry \<Rightarrow> (hub, reply) hub_prog" where
  "ex_destroyed g \<equiv> drive ex_answers (destroy_workspace ex_cloud ''digitalocean-42'' (ex_hub g))"

lemma ex_destroyed_done: "snd (ex_destroyed g) = Done (Inr (Destroyed ''digitalocean-42'' ''b''))"
proof -
  have "case snd (ex_destroyed g) of
      Done x \<Rightarrow> (case x of Inr (Destroyed a b) \<Rightarrow> a = ''digitalocean-42'' \<and> b = ''b'' | _ \<Rightarrow> False)
    | Await _ _ \<Rightarrow> False"
    by code_simp
  then show ?thesis by (simp split: prog.splits sum.splits reply.splits)
qed

lemma ex_destroyed_run: "hub_run verify ex_cloud (ex_hub g) (fst (ex_destroyed g)) [snd (ex_destroyed g)]"
  by (rule drive_run) (auto simp: service_calls_def)

lemma ex_destroyed_left:
  "map_option (\<lambda>w. (ws_id w, ws_boxId w, ws_generation w)) (hu_objects (fst (ex_destroyed g)) a)
     = (if a = 0 then Some (''digitalocean-42'', Some ''b'', Some ''g'') else None)"
  by (code_simp, simp)

theorem destroyed_workspace_gone_witness:
  "\<exists>m. dial (Some (JStr ''b'')) (Some (JStr ''g'')) 8080 ''d'' (hu_registry (fst (ex_destroyed ex_online)))
     = (Inl m, hu_registry (fst (ex_destroyed ex_online)))"
proof -
  have online: "box_reachable defaultVerifyAttestation (hc_hash ex_cloud) (hu_registry (ex_hub ex_online))"
    using ex_online_reachable by (simp add: ex_cloud_def ex_hub_def)
  have "Done (Inr (Destroyed ''digitalocean-42'' ''b'')) \<in> set [snd (ex_destroyed ex_online)]" by (simp add: ex_destroyed_done)
  from destroyed_workspace_gone
    [where port = 8080 and stream = "''d''" and fresh = "''c''" and epoch = "''e''" and socket = 1 and hello = ex_hello, OF ex_destroyed_run ex_hub_ok online this]
  obtain a w where w: "hu_objects (fst (ex_destroyed ex_online)) a = Some w"
    and out: "ws_boxId w = Some (c # b) \<Longrightarrow> ws_generation w = Some k \<Longrightarrow>
       \<exists>m. dial (Some (JStr (c # b))) (Some (JStr k)) 8080 ''d'' (hu_registry (fst (ex_destroyed ex_online)))
         = (Inl m, hu_registry (fst (ex_destroyed ex_online)))" for c b k
    by blast
  have "ws_boxId w = Some ''b''" "ws_generation w = Some ''g''"
    using ex_destroyed_left [of ex_online a] by (simp_all add: w split: if_splits)
  then show ?thesis by (rule out)
qed

theorem workspaces_bound_witness:
  "\<exists>w r. hu_objects (ex_hub ex_online) 0 = Some w \<and> record_of ex_online (keyOf ''b'' ''g'') = Some r
     \<and> br_provider r = ws_provider w \<and> br_instance r = Some (ws_instance w)"
proof -
  have "hub_run defaultVerifyAttestation ex_cloud (ex_hub ex_online) (ex_hub ex_online) []" by simp
  from workspaces_bound [OF this ex_hub_ok, THEN conjunct2] show ?thesis by (simp add: ex_hub_def ex_workspace_def)
qed

end
