(* ===== verification/Box_Agent.thy ===== *)
theory Box_Agent
  imports Cloud_Requests
begin

text \<open>
  \<^verbatim>\<open>oyster-hub/box-agent.mjs\<close>: the agent on a box.  \<^verbatim>\<open>attachDialProtocol\<close> is a state machine over the frames of the
  hub and the events of its local connections, which are objects with addresses: a handler knows its connection and
  the stream id of the frame that opened it.  \<^verbatim>\<open>sendData\<close> is cut at its awaits.  The connection to the hub is an
  asynchronous function of \<^verbatim>\<open>Event_Loop\<close>.  The parser of URLs, the files and the metadata services are parameters.
\<close>

section \<open>The dial protocol\<close>

record target =
  tg_stream :: string \<comment> \<open>\<^verbatim>\<open>message.stream_id\<close> of the frame that opened it\<close>
  tg_connected :: bool
  tg_ended :: bool \<comment> \<open>\<^verbatim>\<open>ended\<close>\<close>
  tg_finished :: bool \<comment> \<open>\<^verbatim>\<open>end()\<close> was called\<close>
  tg_destroyed :: bool
  tg_closed :: bool \<comment> \<open>its close event was handled\<close>
  tg_paused :: bool
  tg_written :: "nat list list"
  tg_sending :: "nat list list option" \<comment> \<open>the parts a running \<^verbatim>\<open>sendData\<close> has still to send\<close>
  tg_waiting :: bool \<comment> \<open>for the callback of \<^verbatim>\<open>socket.send\<close>\<close>

record agent =
  ag_open :: bool \<comment> \<open>\<^verbatim>\<open>readyState\<close>\<close>
  ag_listening :: bool
  ag_streams :: "(string, nat) jsmap"
  ag_targets :: "nat \<Rightarrow> target option"
  ag_next :: nat
  ag_sent :: "json list"
  ag_crashed :: bool \<comment> \<open>an exception in an event listener ended the process\<close>

definition new_agent :: agent where
  "new_agent = \<lparr>ag_open = True, ag_listening = True, ag_streams = [], ag_targets = Map.empty, ag_next = 0, ag_sent = [], ag_crashed = False\<rparr>"

definition new_target :: "string \<Rightarrow> target" where
  "new_target i = \<lparr>tg_stream = i, tg_connected = False, tg_ended = False, tg_finished = False, tg_destroyed = False, tg_closed = False,
     tg_paused = False, tg_written = [], tg_sending = None, tg_waiting = False\<rparr>"

definition agent_frame :: "string \<Rightarrow> string \<Rightarrow> (string \<times> json) list \<Rightarrow> json" where
  "agent_frame kind i extra = JObj ([(''type'', JStr kind), (''stream_id'', JStr i)] @ extra)"

text \<open>\<^verbatim>\<open>send\<close>: it rejects where the socket is not open.\<close>

definition agent_send :: "json \<Rightarrow> agent \<Rightarrow> agent" where
  "agent_send j s = (if ag_open s then s\<lparr>ag_sent := ag_sent s @ [j]\<rparr> else s)"

definition upd_target :: "nat \<Rightarrow> (target \<Rightarrow> target) \<Rightarrow> agent \<Rightarrow> agent" where
  "upd_target a f s = s\<lparr>ag_targets := (ag_targets s)(a := map_option f (ag_targets s a))\<rparr>"

definition closeStream :: "string \<Rightarrow> agent \<Rightarrow> agent" where
  "closeStream i s =
     (case map_of (ag_streams s) i of
        None \<Rightarrow> s
      | Some a \<Rightarrow> upd_target a (\<lambda>t. t\<lparr>tg_destroyed := True\<rparr>) (s\<lparr>ag_streams := jsmap_delete i (ag_streams s)\<rparr>))"

definition target_error :: "nat \<Rightarrow> string \<Rightarrow> agent \<Rightarrow> agent" where
  "target_error a message s =
     (case ag_targets s a of
        None \<Rightarrow> s
      | Some t \<Rightarrow> agent_send (agent_frame ''dial_error'' (tg_stream t) [(''error'', JStr (take 256 (or_text message ''localhost dial failed'')))])
          (upd_target a (\<lambda>t. t\<lparr>tg_destroyed := True\<rparr>) s))"

text \<open>
  \<^verbatim>\<open>target.write\<close> and \<^verbatim>\<open>target.end\<close>; a write after the end, or after the local side has ended, is an error of
  the connection.
\<close>

definition target_write :: "nat \<Rightarrow> nat list \<Rightarrow> agent \<Rightarrow> agent" where
  "target_write a chunk s =
     (case ag_targets s a of
        None \<Rightarrow> s
      | Some t \<Rightarrow>
          if tg_destroyed t then s
          else if tg_finished t then target_error a ''write after end'' s
          else if tg_ended t then target_error a ''This socket has been ended by the other party'' s
          else upd_target a (\<lambda>t. t\<lparr>tg_written := tg_written t @ [chunk]\<rparr>) s)"

definition target_finish :: "nat \<Rightarrow> agent \<Rightarrow> agent" where
  "target_finish a = upd_target a (\<lambda>t. if tg_destroyed t then t else t\<lparr>tg_finished := True\<rparr>)"

definition open_stream :: "json \<Rightarrow> string \<Rightarrow> agent \<Rightarrow> agent" where
  "open_stream message i s =
     (if js_get message ''port'' \<noteq> Some (JNum 8080) \<or> map_of (ag_streams s) i \<noteq> None \<or> length (ag_streams s) \<ge> max_dial_streams
      then agent_send (agent_frame ''dial_error'' i [(''error'', JStr (if js_get message ''port'' \<noteq> Some (JNum 8080)
             then ''localhost port is not permitted'' else ''dial stream rejected''))]) s
      else s\<lparr>ag_targets := (ag_targets s)(ag_next s \<mapsto> new_target i), ag_streams := jsmap_set i (ag_next s) (ag_streams s),
             ag_next := Suc (ag_next s)\<rparr>)"

definition stream_message :: "json \<Rightarrow> string \<Rightarrow> agent \<Rightarrow> agent" where
  "stream_message message i s =
     (case map_of (ag_streams s) i of
        None \<Rightarrow> s
      | Some a \<Rightarrow>
          if js_get message ''type'' = Some (JStr ''dial_data'') then
            (case buffer_from (js_get message ''data'') of
               None \<Rightarrow> closeStream i s
             | Some chunk \<Rightarrow> if length chunk > dial_chunk_bytes then closeStream i s else target_write a chunk s)
          else if js_get message ''type'' = Some (JStr ''dial_end'') then target_finish a s
          else closeStream i s)"

definition agent_kinds :: "json option list" where
  "agent_kinds = map (\<lambda>t. Some (JStr t)) [''dial_open'', ''dial_data'', ''dial_end'', ''dial_close'']"

text \<open>The listener of frames.  On the frame \<^verbatim>\<open>null\<close> the access to \<^verbatim>\<open>message.type\<close> throws.\<close>

definition onMessage :: "bool \<Rightarrow> string \<Rightarrow> agent \<Rightarrow> agent" where
  "onMessage binary frame s =
     (if \<not> ag_listening s \<or> binary then s
      else case json_parse frame of
             None \<Rightarrow> s
           | Some message \<Rightarrow>
               if message = JNull then s\<lparr>ag_crashed := True\<rparr>
               else if js_get message ''type'' \<notin> set agent_kinds \<or> \<not> validIdentity (js_get message ''stream_id'') then s
               else case js_get message ''stream_id'' of
                      Some (JStr i) \<Rightarrow>
                        if js_get message ''type'' = Some (JStr ''dial_open'') then open_stream message i s else stream_message message i s
                    | _ \<Rightarrow> s)"

text \<open>The events of a local connection.\<close>

definition target_connected :: "nat \<Rightarrow> agent \<Rightarrow> agent" where
  "target_connected a s =
     (case ag_targets s a of
        None \<Rightarrow> s
      | Some t \<Rightarrow>
          (let s1 = upd_target a (\<lambda>t. t\<lparr>tg_connected := True\<rparr>) s in
           if ag_open s then agent_send (agent_frame ''dial_opened'' (tg_stream t) []) s1 else closeStream (tg_stream t) s1))"

definition target_data :: "nat \<Rightarrow> nat list \<Rightarrow> agent \<Rightarrow> agent" where
  "target_data a chunk = upd_target a (\<lambda>t. t\<lparr>tg_paused := True, tg_sending := Some (split_parts chunk), tg_waiting := False\<rparr>)"

text \<open>\<^verbatim>\<open>sendData\<close>: when there is capacity the next part is sent; a socket that is not open ends it.\<close>

definition send_failed :: "nat \<Rightarrow> agent \<Rightarrow> agent" where
  "send_failed a s =
     (case ag_targets s a of
        None \<Rightarrow> s
      | Some t \<Rightarrow> closeStream (tg_stream t) (upd_target a (\<lambda>t. t\<lparr>tg_sending := None, tg_waiting := False\<rparr>) s))"

definition send_part :: "nat \<Rightarrow> agent \<Rightarrow> agent" where
  "send_part a s =
     (case ag_targets s a of
        None \<Rightarrow> s
      | Some t \<Rightarrow>
          (case tg_sending t of
             Some (p # ps) \<Rightarrow>
               if ag_open s
               then agent_send (agent_frame ''dial_data'' (tg_stream t) [(''data'', JStr (base64_encode p))])
                      (upd_target a (\<lambda>t. t\<lparr>tg_sending := Some ps, tg_waiting := True\<rparr>) s)
               else send_failed a s
           | _ \<Rightarrow> s))"

definition part_sent :: "nat \<Rightarrow> bool \<Rightarrow> agent \<Rightarrow> agent" where
  "part_sent a ok s =
     (if \<not> ok then send_failed a s
      else upd_target a (\<lambda>t. if tg_sending t = Some [] then t\<lparr>tg_sending := None, tg_waiting := False, tg_paused := False\<rparr>
                             else t\<lparr>tg_waiting := False\<rparr>) s)"

definition target_end :: "nat \<Rightarrow> agent \<Rightarrow> agent" where
  "target_end a s =
     (case ag_targets s a of
        None \<Rightarrow> s
      | Some t \<Rightarrow> agent_send (agent_frame ''dial_end'' (tg_stream t) []) (upd_target a (\<lambda>t. t\<lparr>tg_ended := True\<rparr>) s))"

definition target_close :: "nat \<Rightarrow> agent \<Rightarrow> agent" where
  "target_close a s =
     (case ag_targets s a of
        None \<Rightarrow> s
      | Some t \<Rightarrow>
          (let s1 = (upd_target a (\<lambda>t. t\<lparr>tg_closed := True\<rparr>) s)\<lparr>ag_streams := jsmap_delete (tg_stream t) (ag_streams s)\<rparr> in
           if tg_ended t then s1 else agent_send (agent_frame ''dial_close'' (tg_stream t) []) s1))"

definition agent_onClose :: "agent \<Rightarrow> agent" where
  "agent_onClose s =
     s\<lparr>ag_open := False, ag_listening := False, ag_streams := [],
       ag_targets := (\<lambda>a. if a \<in> snd ` set (ag_streams s) then map_option (\<lambda>t. t\<lparr>tg_destroyed := True\<rparr>) (ag_targets s a) else ag_targets s a)\<rparr>"

text \<open>
  The order in which a connection emits its events: it connects once, data and the end come from one that is neither
  paused nor destroyed, nothing follows the end but an error or the close, and it closes once.
\<close>

inductive agent_event :: "agent \<Rightarrow> agent \<Rightarrow> bool" where
  connects: "ag_targets s a = Some t \<Longrightarrow> \<not> tg_connected t \<Longrightarrow> \<not> tg_destroyed t \<Longrightarrow> agent_event s (target_connected a s)"
| opened_unsent: "ag_targets s a = Some t \<Longrightarrow> tg_connected t \<Longrightarrow> agent_event s (closeStream (tg_stream t) s)"
| part: "ag_targets s a = Some t \<Longrightarrow> \<not> tg_waiting t \<Longrightarrow> agent_event s (send_part a s)"
| sent: "ag_targets s a = Some t \<Longrightarrow> tg_waiting t \<Longrightarrow> agent_event s (part_sent a ok s)"
| ends: "ag_targets s a = Some t \<Longrightarrow> tg_connected t \<Longrightarrow> \<not> tg_destroyed t \<Longrightarrow> \<not> tg_ended t \<Longrightarrow> \<not> tg_paused t
    \<Longrightarrow> agent_event s (target_end a s)"
| fails: "ag_targets s a = Some t \<Longrightarrow> \<not> tg_destroyed t \<Longrightarrow> \<not> tg_closed t \<Longrightarrow> agent_event s (target_error a message s)"
| closes: "ag_targets s a = Some t \<Longrightarrow> tg_destroyed t \<or> tg_ended t \<Longrightarrow> \<not> tg_closed t \<Longrightarrow> agent_event s (target_close a s)"
| closing: "agent_event s (s\<lparr>ag_open := False\<rparr>)"
| shuts: "agent_event s (agent_onClose s)"

definition data_ready :: "target \<Rightarrow> bool" where
  "data_ready t \<longleftrightarrow> tg_connected t \<and> \<not> tg_destroyed t \<and> \<not> tg_ended t \<and> \<not> tg_paused t"

section \<open>Configuration and identity\<close>

record url =
  url_href :: string
  url_protocol :: string
  url_hostname :: string
  url_username :: string
  url_password :: string
  url_search :: string
  url_hash :: string
  url_origin :: string

record agent_config =
  ac_connectUrl :: string
  ac_boxId :: string
  ac_generation :: string
  ac_bootstrapSecret :: "string option"
  ac_provider :: string
  ac_reconnectFile :: string

definition requireEnvironment :: "(string \<Rightarrow> string option) \<Rightarrow> string \<Rightarrow> string + string" where
  "requireEnvironment env name =
     (case env name of
        Some v \<Rightarrow> if js_trim v = [] then Inl (name @ '' is required'') else Inr (js_trim v)
      | None \<Rightarrow> Inl (name @ '' is required''))"

definition trimmed_env :: "(string \<Rightarrow> string option) \<Rightarrow> string \<Rightarrow> string option" where
  "trimmed_env env name = (case env name of Some v \<Rightarrow> if js_trim v = [] then None else Some (js_trim v) | None \<Rightarrow> None)"

definition secure_url :: "url \<Rightarrow> bool" where
  "secure_url u \<longleftrightarrow> url_protocol u = ''wss:''
     \<or> (url_protocol u = ''ws:'' \<and> url_hostname u \<in> {''127.0.0.1'', ''localhost'', ''::1''})"

definition agent_connect_url :: "(string \<Rightarrow> url option) \<Rightarrow> (string \<Rightarrow> string option) \<Rightarrow> string + string" where
  "agent_connect_url parse_url env =
     (case requireEnvironment env ''OYSTER_BOX_CONNECT_URL'' of
        Inl e \<Rightarrow> Inl e
      | Inr v \<Rightarrow>
          (case parse_url v of
             None \<Rightarrow> Inl ''Invalid URL''
           | Some u \<Rightarrow>
               if \<not> secure_url u then Inl ''OYSTER_BOX_CONNECT_URL must use wss (ws is allowed only on loopback)''
               else if url_username u \<noteq> [] \<or> url_password u \<noteq> [] \<or> url_search u \<noteq> [] \<or> url_hash u \<noteq> []
               then Inl ''OYSTER_BOX_CONNECT_URL must not contain credentials, a query, or a fragment''
               else Inr (url_href u)))"

definition loadBoxAgentConfig :: "(string \<Rightarrow> url option) \<Rightarrow> (string \<Rightarrow> string option) \<Rightarrow> string + agent_config" where
  "loadBoxAgentConfig parse_url env =
     (case agent_connect_url parse_url env of
        Inl e \<Rightarrow> Inl e
      | Inr u \<Rightarrow>
     (case requireEnvironment env ''OYSTER_BOX_ID'' of
        Inl e \<Rightarrow> Inl e
      | Inr b \<Rightarrow>
     (case requireEnvironment env ''OYSTER_BOX_GENERATION'' of
        Inl e \<Rightarrow> Inl e
      | Inr g \<Rightarrow>
     (case requireEnvironment env ''OYSTER_BOX_PROVIDER'' of
        Inl e \<Rightarrow> Inl e
      | Inr p \<Rightarrow>
          Inr \<lparr>ac_connectUrl = u, ac_boxId = b, ac_generation = g, ac_bootstrapSecret = trimmed_env env ''OYSTER_BOX_BOOTSTRAP_SECRET'',
            ac_provider = js_lower p,
            ac_reconnectFile = (case trimmed_env env ''OYSTER_BOX_RECONNECT_FILE'' of Some f \<Rightarrow> f
              | None \<Rightarrow> ''/var/lib/oyster-box-agent/reconnect-credential'')\<rparr>))))"

text \<open>\<^verbatim>\<open>parseHetznerMetadata\<close>: JSON, or the lines \<^verbatim>\<open>name: value\<close> of YAML, in any case of letters.\<close>

definition quote_char :: "char \<Rightarrow> bool" where
  "quote_char c \<longleftrightarrow> c = CHR 0x22 \<or> c = CHR 0x27"

definition field_here :: "string \<Rightarrow> string \<Rightarrow> string option" where
  "field_here name t =
     (if prefix_of (js_lower name @ '':'') (js_lower t)
      then (let rest = dropWhile js_space (drop (Suc (length name)) t);
                body = (case rest of c # cs \<Rightarrow> if quote_char c then cs else rest | [] \<Rightarrow> []);
                v = takeWhile (\<lambda>c. \<not> quote_char c \<and> \<not> js_space c) body
            in if v = [] then None else Some v)
      else None)"

fun metadata_field :: "bool \<Rightarrow> string \<Rightarrow> string \<Rightarrow> string" where
  "metadata_field start name [] = []"
| "metadata_field start name (c # cs) =
     (case (if start then field_here name (c # cs) else None) of
        Some v \<Rightarrow> v
      | None \<Rightarrow> metadata_field (c = CHR 0x0A \<or> c = CHR 0x0D) name cs)"

definition parseHetznerMetadata :: "string \<Rightarrow> string \<times> string" where
  "parseHetznerMetadata value =
     (let source = js_trim value in
      case json_parse source of
        None \<Rightarrow> (metadata_field True ''instance-id'' source, or_text (metadata_field True ''region'' source) (metadata_field True ''availability-zone'' source))
      | Some JNull \<Rightarrow> (metadata_field True ''instance-id'' source, or_text (metadata_field True ''region'' source) (metadata_field True ''availability-zone'' source))
      | Some parsed \<Rightarrow>
          (js_trim (js_string (or_json (js_get parsed ''instance-id'') (or_json (js_get parsed ''instance_id'') (or_json (js_get parsed ''instanceId'') (JStr []))))),
           js_trim (js_string (or_json (js_get parsed ''region'') (or_json (js_get parsed ''availability-zone'') (JStr []))))))"

section \<open>Connecting to the hub\<close>

datatype agent_wait =
    Fetch "http_request list" \<comment> \<open>all of them at once\<close>
  | Read_Credential
  | Boot_Id
  | Connect string
  | Welcome
  | Store_Credential string
  | Health

datatype socket_event = Frame bool string | Socket_Closed | Socket_Error string | Timeout

datatype agent_answer =
    Fetched "(string + nat \<times> string) list" \<comment> \<open>the error, or status and text\<close>
  | Contents string
  | No_File
  | Failure string
  | Succeeded
  | Events "socket_event list"
  | Healthy bool

record box_process =
  bp_file :: "string option" \<comment> \<open>the file of the reconnect credential\<close>
  bp_config :: agent_config
  bp_sent :: "json list" \<comment> \<open>on the socket of this connection\<close>
  bp_open :: bool
  bp_attached :: bool
  bp_heartbeat :: "int option" \<comment> \<open>interval\<close>

type_synonym 'a agent_run = "box_process \<Rightarrow> box_process \<times> (agent_wait, agent_answer, box_process, string + 'a) prog"

definition metadata_text :: "string + nat \<times> string \<Rightarrow> string + string" where
  "metadata_text r =
     (case r of
        Inl e \<Rightarrow> Inl e
      | Inr (status, body) \<Rightarrow> if 200 \<le> status \<and> status \<le> 299 then Inr body else Inl (''metadata returned '' @ nat_text status))"

definition metadata_request :: "string \<Rightarrow> string \<Rightarrow> (string \<times> string) list \<Rightarrow> http_request" where
  "metadata_request verb u headers = \<lparr>rq_method = verb, rq_url = u, rq_headers = headers, rq_body = None\<rparr>"

fun all_texts :: "(string + nat \<times> string) list \<Rightarrow> string + string list" where
  "all_texts [] = Inr []"
| "all_texts (r # rs) = (case metadata_text r of Inl e \<Rightarrow> Inl e | Inr t \<Rightarrow> map_sum id (Cons t) (all_texts rs))"

definition metadata :: "http_request list \<Rightarrow> string list agent_run" where
  "metadata qs = wait_for (Fetch qs) (\<lambda>r. case r of Fetched rs \<Rightarrow> give (all_texts rs) | _ \<Rightarrow> give (Inl ''fetch failed''))"

definition identity_json :: "string \<Rightarrow> string \<Rightarrow> (string \<times> json) list \<Rightarrow> json" where
  "identity_json kind instanceId attestation =
     JObj [(''kind'', JStr kind), (''instance_id'', JStr instanceId), (''attestation'', JObj attestation)]"

definition awsIdentity :: "json agent_run" where
  "awsIdentity =
     andOk (metadata [metadata_request ''PUT'' ''http://169.254.169.254/latest/api/token'' [(''x-aws-ec2-metadata-token-ttl-seconds'', ''21600'')]]) (\<lambda>ts.
     (let headers = [(''x-aws-ec2-metadata-token'', concat ts)] in
      andOk (metadata [metadata_request ''GET'' ''http://169.254.169.254/latest/dynamic/instance-identity/document'' headers,
              metadata_request ''GET'' ''http://169.254.169.254/latest/dynamic/instance-identity/rsa2048'' headers]) (\<lambda>ds.
        case ds of
          [document, signature] \<Rightarrow>
            (case json_parse document of
               None \<Rightarrow> give (Inl ''SyntaxError'')
             | Some JNull \<Rightarrow> give (Inl ''TypeError'')
             | Some parsed \<Rightarrow> give (Inr (identity_json ''aws'' (js_string (or_json (js_get parsed ''instanceId'') (JStr [])))
                 [(''format'', JStr ''aws-iid-rsa2048''), (''document'', JStr document), (''signature'', JStr signature)])))
        | _ \<Rightarrow> give (Inl ''TypeError''))))"

definition gcpIdentity :: "(string \<Rightarrow> url option) \<Rightarrow> string \<Rightarrow> json agent_run" where
  "gcpIdentity parse_url connectUrl =
     (case parse_url connectUrl of
        None \<Rightarrow> give (Inl ''Invalid URL'')
      | Some u \<Rightarrow>
          (let base = ''http://metadata.google.internal/computeMetadata/v1/instance/''; headers = [(''Metadata-Flavor'', ''Google'')] in
           andOk (metadata [metadata_request ''GET'' (base @ ''id'') headers, metadata_request ''GET'' (base @ ''zone'') headers,
               metadata_request ''GET'' (base @ ''service-accounts/default/identity?audience='' @ encodeURIComponent (url_origin u) @ ''&format=full'') headers]) (\<lambda>ts.
             case ts of
               [instanceId, zone, token] \<Rightarrow> give (Inr (identity_json ''gcp'' (js_trim instanceId)
                   [(''format'', JStr ''gcp-identity-jwt''), (''token'', JStr (js_trim token)), (''zone'', JStr (last (js_split CHR ''/'' zone)))]))
             | _ \<Rightarrow> give (Inl ''TypeError''))))"

definition digitalOceanIdentity :: "json agent_run" where
  "digitalOceanIdentity =
     andOk (metadata [metadata_request ''GET'' ''http://169.254.169.254/metadata/v1/id'' []]) (\<lambda>is.
     andThen (metadata [metadata_request ''GET'' ''http://169.254.169.254/metadata/v1/region'' []]) (\<lambda>rs.
       give (Inr (identity_json ''digitalocean'' (js_trim (concat is))
         [(''format'', JStr ''digitalocean-metadata-v1''), (''region'', JStr (js_trim (case rs of Inl _ \<Rightarrow> [] | Inr ts \<Rightarrow> concat ts)))]))))"

definition hetznerIdentity :: "json agent_run" where
  "hetznerIdentity =
     andOk (metadata [metadata_request ''GET'' ''http://169.254.169.254/hetzner/v1/metadata'' []]) (\<lambda>ts.
       (let (instanceId, region) = parseHetznerMetadata (concat ts) in
        if instanceId = [] then give (Inl ''Hetzner metadata did not include an instance ID'')
        else give (Inr (identity_json ''hetzner'' instanceId [(''format'', JStr ''hetzner-metadata-v1''), (''region'', JStr region)]))))"

definition collectProviderIdentity :: "(string \<Rightarrow> url option) \<Rightarrow> string \<Rightarrow> string \<Rightarrow> json agent_run" where
  "collectProviderIdentity parse_url provider connectUrl =
     (if provider = ''aws'' then awsIdentity
      else if provider = ''gcp'' then gcpIdentity parse_url connectUrl
      else if provider = ''digitalocean'' then digitalOceanIdentity
      else if provider = ''hetzner'' then hetznerIdentity
      else give (Inl (''unsupported box provider: '' @ provider)))"

text \<open>An empty file counts as none.\<close>

definition stored_credential :: "string option \<Rightarrow> string option" where
  "stored_credential f = (case f of Some t \<Rightarrow> if js_trim t = [] then None else Some (js_trim t) | None \<Rightarrow> None)"

definition readReconnectCredential :: "string option agent_run" where
  "readReconnectCredential =
     wait_for Read_Credential (\<lambda>r. case r of
        Contents t \<Rightarrow> give (Inr (stored_credential (Some t)))
      | No_File \<Rightarrow> give (Inr None)
      | Failure e \<Rightarrow> give (Inl e)
      | _ \<Rightarrow> give (Inl ''TypeError''))"

definition storeReconnectCredential :: "string \<Rightarrow> unit agent_run" where
  "storeReconnectCredential credential =
     wait_for (Store_Credential (credential @ [CHR 0x0A])) (\<lambda>r. case r of
        Succeeded \<Rightarrow> writing (\<lambda>s. s\<lparr>bp_file := Some (credential @ [CHR 0x0A])\<rparr>) (give (Inr ()))
      | Failure e \<Rightarrow> give (Inl e)
      | _ \<Rightarrow> give (Inl ''TypeError''))"

definition hello_auth :: "agent_config \<Rightarrow> string option \<Rightarrow> json" where
  "hello_auth cfg reconnectCredential =
     (case reconnectCredential of
        Some c \<Rightarrow> JObj [(''mode'', JStr ''reconnect''), (''credential'', JStr c)]
      | None \<Rightarrow> JObj [(''mode'', JStr ''bootstrap''), (''secret'', (case ac_bootstrapSecret cfg of Some b \<Rightarrow> JStr b | None \<Rightarrow> JNull))])"

definition box_hello :: "agent_config \<Rightarrow> string option \<Rightarrow> json \<Rightarrow> string \<Rightarrow> json" where
  "box_hello cfg reconnectCredential providerIdentity boot =
     JObj [(''type'', JStr ''box_hello''), (''protocol'', JNum 1), (''box_id'', JStr (ac_boxId cfg)), (''generation'', JStr (ac_generation cfg)),
       (''auth'', hello_auth cfg reconnectCredential), (''provider'', providerIdentity),
       (''agent'', JObj [(''version'', JStr ''0.1.0''), (''boot_id'', JStr boot),
          (''capabilities'', JArr [JStr ''register_v1'', JStr ''heartbeat_v1'', JStr ''dial_v1''])]),
       (''observed'', JObj [(''init_state'', JStr ''complete''), (''service_state'', JStr ''starting'')])]"

text \<open>
  \<^verbatim>\<open>waitForWelcome\<close> on the events of the socket, the first that decides: \<^term>\<open>None\<close> while none does.  A frame that is
  no welcome is passed over; the frame \<^verbatim>\<open>null\<close> throws in the listener, which is not handled.
\<close>

definition error_field :: "json \<Rightarrow> string \<Rightarrow> string \<Rightarrow> string" where
  "error_field message k missing = js_string (or_json (field2 message ''error'' k) (JStr missing))"

fun waitForWelcome :: "socket_event list \<Rightarrow> (string + json) option" where
  "waitForWelcome [] = None"
| "waitForWelcome (Timeout # es) = Some (Inl ''box welcome timed out'')"
| "waitForWelcome (Socket_Closed # es) = Some (Inl ''box connection closed before welcome'')"
| "waitForWelcome (Socket_Error e # es) = Some (Inl e)"
| "waitForWelcome (Frame binary frame # es) =
     (if binary then Some (Inl ''unexpected binary welcome'')
      else case json_parse frame of
             None \<Rightarrow> Some (Inl ''invalid JSON welcome'')
           | Some message \<Rightarrow>
               if message = JNull then Some (Inl ''uncaught TypeError'')
               else if js_get message ''type'' = Some (JStr ''box_error'')
               then Some (Inl (error_field message ''code'' ''registration_failed'' @ '': '' @ error_field message ''message'' ''registration failed''))
               else if js_get message ''type'' \<noteq> Some (JStr ''box_welcome'') \<or> js_get message ''protocol'' \<noteq> Some (JNum 1)
               then waitForWelcome es
               else Some (Inr message))"

definition send_hub :: "json \<Rightarrow> box_process \<Rightarrow> box_process" where
  "send_hub j s = (if bp_open s then s\<lparr>bp_sent := bp_sent s @ [j]\<rparr> else s)"

definition status_json :: "string \<Rightarrow> json" where
  "status_json state = JObj [(''type'', JStr ''status''),
     (''observed'', JObj [(''init_state'', JStr ''complete''), (''service_state'', JStr state), (''oyster_port'', JNum 8080)])]"

definition heartbeat_interval :: "json \<Rightarrow> int" where
  "heartbeat_interval welcome =
     max 5000 (case js_number (field2 welcome ''limits'' ''heartbeat_interval_ms'') of Some n \<Rightarrow> if n = 0 then 15000 else n | None \<Rightarrow> 15000)"

text \<open>The credential of the welcome is stored before the bootstrap secret is forgotten.\<close>

definition keep_credential :: "json \<Rightarrow> unit agent_run" where
  "keep_credential welcome =
     (case js_get welcome ''credential'' of
        Some v \<Rightarrow>
          if truthy_json (Some v)
          then andOk (storeReconnectCredential (js_string v)) (\<lambda>_.
                 writing (\<lambda>s. s\<lparr>bp_config := (bp_config s)\<lparr>ac_bootstrapSecret := None\<rparr>\<rparr>) (give (Inr ())))
          else give (Inr ())
      | None \<Rightarrow> give (Inr ()))"

definition welcomed :: "json \<Rightarrow> json agent_run" where
  "welcomed welcome =
     writing (\<lambda>s. s\<lparr>bp_attached := True\<rparr>) (andOk (keep_credential welcome) (\<lambda>_.
     writing (\<lambda>s. send_hub (status_json ''starting'') (s\<lparr>bp_heartbeat := Some (heartbeat_interval welcome)\<rparr>)) (
     wait_for Health (\<lambda>r.
       writing (send_hub (status_json (if r = Healthy True then ''ready'' else ''degraded''))) (give (Inr welcome))))))"

definition connectOnce :: "(string \<Rightarrow> url option) \<Rightarrow> json agent_run" where
  "connectOnce parse_url =
     reading bp_config (\<lambda>cfg.
     andOk readReconnectCredential (\<lambda>credential.
       if credential = None \<and> ac_bootstrapSecret cfg = None then give (Inl ''no bootstrap or reconnect credential is available'')
       else andOk (collectProviderIdentity parse_url (ac_provider cfg) (ac_connectUrl cfg)) (\<lambda>ident.
         wait_for (Connect (ac_connectUrl cfg)) (\<lambda>opening. case opening of
           Failure e \<Rightarrow> give (Inl e)
         | _ \<Rightarrow>
         writing (\<lambda>s. s\<lparr>bp_open := True, bp_attached := False, bp_heartbeat := None, bp_sent := []\<rparr>) (wait_for Boot_Id (\<lambda>boot. case boot of
           Contents b \<Rightarrow>
             writing (send_hub (box_hello cfg credential ident (js_trim b))) (
             wait_for Welcome (\<lambda>events. case events of
               Events es \<Rightarrow>
                 (case waitForWelcome es of
                    Some (Inr welcome) \<Rightarrow> welcomed welcome
                  | Some (Inl e) \<Rightarrow> give (Inl e)
                  | None \<Rightarrow> give (Inl ''TypeError''))
             | _ \<Rightarrow> give (Inl ''TypeError'')))
         | Failure e \<Rightarrow> give (Inl e)
         | _ \<Rightarrow> give (Inl ''TypeError'')))))))"

text \<open>The loop of \<^verbatim>\<open>runBoxAgent\<close> between two connections: how long it waits, and the next backoff.\<close>

definition next_backoff :: "bool \<Rightarrow> int \<Rightarrow> int" where
  "next_backoff registered backoff = min ((if registered then 1000 else backoff) * 2) 30000"

definition reconnect_delay :: "int \<Rightarrow> int \<Rightarrow> int" where
  "reconnect_delay backoff r = backoff + r mod (min backoff 1000)"

end
