(* ===== verification/Box_Tunnel.thy ===== *)
theory Box_Tunnel
  imports Box_Agent Box_Dial_Properties
begin

text \<open>
  A dial stream from end to end: \<^verbatim>\<open>BoxDialStream\<close> of the hub, the web socket as two queues of frames, and the agent with
  its local connection, all of them interleaved with the other streams of the agent.  The invariant says where the
  bytes are that were written on either side and did not yet arrive on the other.
\<close>

section \<open>Frames of a stream\<close>

definition is_for :: "string \<Rightarrow> json \<Rightarrow> bool" where
  "is_for i j \<longleftrightarrow> js_get j ''stream_id'' = Some (JStr i)"

definition data_frame :: "string \<Rightarrow> nat list \<Rightarrow> json" where
  "data_frame i p = agent_frame ''dial_data'' i [(''data'', JStr (base64_encode p))]"

definition part_ok :: "nat list \<Rightarrow> bool" where
  "part_ok p \<longleftrightarrow> length p \<le> dial_chunk_bytes \<and> p \<noteq> [] \<and> (\<forall>b \<in> set p. b < 256)"

lemma dial_frame_agent: "dial_frame kind d extra = agent_frame kind (ds_id d) extra"
  by (simp add: dial_frame_def agent_frame_def)

lemma is_for_frame [simp]: "is_for i (agent_frame kind j extra) \<longleftrightarrow> i = j" "is_for i (data_frame j p) \<longleftrightarrow> i = j"
  by (auto simp: is_for_def agent_frame_def data_frame_def)

lemma frame_type [simp]: "js_get (agent_frame kind j extra) ''type'' = Some (JStr kind)"
  "js_get (data_frame j p) ''type'' = Some (JStr ''dial_data'')"
  "js_get (data_frame j p) ''data'' = Some (JStr (base64_encode p))"
  "js_get (agent_frame kind j extra) ''stream_id'' = Some (JStr j)" "js_get (data_frame j p) ''stream_id'' = Some (JStr j)"
  by (simp_all add: agent_frame_def data_frame_def)

lemma frame_neq [simp]: "agent_frame kind j extra \<noteq> JNull" "data_frame j p \<noteq> JNull"
  "kind \<noteq> ''dial_data'' \<Longrightarrow> agent_frame kind j extra \<noteq> data_frame j' p" "kind \<noteq> ''dial_data'' \<Longrightarrow> data_frame j' p \<noteq> agent_frame kind j extra"
  by (auto simp: agent_frame_def data_frame_def)

lemma frame_eq [simp]: "agent_frame kind j extra = agent_frame kind' j' extra' \<longleftrightarrow> kind = kind' \<and> j = j' \<and> extra = extra'"
  by (auto simp: agent_frame_def)

lemma wire_data [simp]: "part_ok p \<Longrightarrow> wire_bytes [data_frame i p] = p"
  by (simp add: part_ok_def wire_bytes_def frame_bytes_def dial_data_roundtrip)

lemma wire_quiet [simp]: "kind \<noteq> ''dial_data'' \<Longrightarrow> wire_bytes [agent_frame kind i extra] = []"
  by (simp add: wire_bytes_def frame_bytes_def)

lemma wire_Cons: "wire_bytes (j # js) = wire_bytes [j] @ wire_bytes js"
  by (simp add: wire_bytes_def)

lemma wire_map_data: "\<forall>p \<in> set ps. part_ok p \<Longrightarrow> wire_bytes (map (data_frame i) ps) = concat ps"
proof (induction ps)
  case (Cons p ps)
  then show ?case using wire_Cons [of "data_frame i p" "map (data_frame i) ps"] by simp
qed (simp add: wire_bytes_def)

lemma json_ok_frame: "json_ok (agent_frame kind i extra) \<longleftrightarrow> json_ok (JObj extra) \<and> ''type'' \<notin> fst ` set extra \<and> ''stream_id'' \<notin> fst ` set extra"
  by (auto simp: agent_frame_def)

lemma split_parts_ok: "\<forall>b \<in> set bs. b < 256 \<Longrightarrow> \<forall>p \<in> set (split_parts bs). part_ok p"
  using split_parts_length split_parts_bytes unfolding part_ok_def by blast

section \<open>The agent's side\<close>

definition agent_ok :: "agent \<Rightarrow> bool" where
  "agent_ok s \<longleftrightarrow> (\<forall>k t. ag_targets s k = Some t \<longrightarrow> k < ag_next s)
     \<and> (\<forall>j k. map_of (ag_streams s) j = Some k \<longrightarrow> (\<exists>t. ag_targets s k = Some t \<and> tg_stream t = j))
     \<and> (\<not> ag_listening s \<longrightarrow> (\<forall>j. map_of (ag_streams s) j = None))"

definition end_frame :: "string \<Rightarrow> json" where
  "end_frame i = agent_frame ''dial_end'' i []"

definition sent_for :: "string \<Rightarrow> json list \<Rightarrow> json list" where
  "sent_for i js = filter (is_for i) js"

definition agent_frames :: "string \<Rightarrow> json \<Rightarrow> bool" where
  "agent_frames i j \<longleftrightarrow> (\<exists>p. j = data_frame i p \<and> part_ok p) \<or> j = end_frame i
     \<or> (\<exists>kind extra. j = agent_frame kind i extra \<and> kind \<in> {''dial_opened'', ''dial_error'', ''dial_close''})"

text \<open>
  The connection of the stream, when the frames with the bytes \<open>W\<close> arrived (the last one with \<open>E\<close>), the local side
  produced the bytes \<open>server\<close>, and those in \<open>U\<close> were sent.
\<close>

definition target_ok :: "nat list \<Rightarrow> bool \<Rightarrow> nat list \<Rightarrow> nat list \<Rightarrow> bool \<Rightarrow> target \<Rightarrow> bool" where
  "target_ok W E U server inmap t \<longleftrightarrow>
     (\<exists>rest. W = concat (tg_written t) @ rest)
     \<and> (inmap \<longrightarrow> \<not> tg_destroyed t \<longrightarrow> concat (tg_written t) = W)
     \<and> (tg_finished t \<longrightarrow> concat (tg_written t) = W \<and> E)
     \<and> (\<exists>rest. server = U @ rest)
     \<and> (\<not> tg_paused t \<longrightarrow> U = server \<and> tg_sending t = None)
     \<and> (\<forall>ps. tg_sending t = Some ps \<longrightarrow> U @ concat ps = server \<and> (\<forall>p \<in> set ps. part_ok p))
     \<and> (tg_ended t \<longrightarrow> \<not> tg_paused t)"

definition side :: "string \<Rightarrow> json list \<Rightarrow> nat list \<Rightarrow> agent \<Rightarrow> bool" where
  "side i D server s \<longleftrightarrow> agent_ok s
     \<and> (\<forall>k k' t t'. ag_targets s k = Some t \<longrightarrow> ag_targets s k' = Some t' \<longrightarrow> tg_stream t = i \<longrightarrow> tg_stream t' = i \<longrightarrow> k = k')
     \<and> (D = [] \<longrightarrow> (\<forall>k t. ag_targets s k = Some t \<longrightarrow> tg_stream t \<noteq> i))
     \<and> (\<forall>k t. ag_targets s k = Some t \<longrightarrow> tg_stream t = i \<longrightarrow>
          target_ok (wire_bytes D) (end_frame i \<in> set D) (wire_bytes (sent_for i (ag_sent s))) server (map_of (ag_streams s) i = Some k) t)
     \<and> ((\<forall>k t. ag_targets s k = Some t \<longrightarrow> tg_stream t \<noteq> i) \<longrightarrow> server = [] \<and> wire_bytes (sent_for i (ag_sent s)) = [])
     \<and> (\<forall>m. m < length (ag_sent s) \<longrightarrow> ag_sent s ! m = end_frame i \<longrightarrow>
          wire_bytes (sent_for i (take m (ag_sent s))) = server
          \<and> (\<exists>k t. ag_targets s k = Some t \<and> tg_stream t = i \<and> tg_ended t))
     \<and> (\<forall>j \<in> set (ag_sent s). is_for i j \<longrightarrow> agent_frames i j)"

lemma sideD:
  assumes "side i D server s"
  shows "agent_ok s" "ag_targets s k = Some t \<Longrightarrow> ag_targets s k' = Some t' \<Longrightarrow> tg_stream t = i \<Longrightarrow> tg_stream t' = i \<Longrightarrow> k = k'"
    "D = [] \<Longrightarrow> ag_targets s k = Some t \<Longrightarrow> tg_stream t \<noteq> i"
    "ag_targets s k = Some t \<Longrightarrow> tg_stream t = i \<Longrightarrow>
       target_ok (wire_bytes D) (end_frame i \<in> set D) (wire_bytes (sent_for i (ag_sent s))) server (map_of (ag_streams s) i = Some k) t"
    "(\<And>k t. ag_targets s k = Some t \<Longrightarrow> tg_stream t \<noteq> i) \<Longrightarrow> server = [] \<and> wire_bytes (sent_for i (ag_sent s)) = []"
    "m < length (ag_sent s) \<Longrightarrow> ag_sent s ! m = end_frame i \<Longrightarrow> wire_bytes (sent_for i (take m (ag_sent s))) = server
       \<and> (\<exists>k t. ag_targets s k = Some t \<and> tg_stream t = i \<and> tg_ended t)"
    "j \<in> set (ag_sent s) \<Longrightarrow> is_for i j \<Longrightarrow> agent_frames i j"
proof -
  note c = assms [unfolded side_def]
  show "agent_ok s" by (rule c [THEN conjunct1])
  show "ag_targets s k = Some t \<Longrightarrow> ag_targets s k' = Some t' \<Longrightarrow> tg_stream t = i \<Longrightarrow> tg_stream t' = i \<Longrightarrow> k = k'"
    by (rule c [THEN conjunct2, THEN conjunct1, rule_format])
  show "D = [] \<Longrightarrow> ag_targets s k = Some t \<Longrightarrow> tg_stream t \<noteq> i"
    by (rule c [THEN conjunct2, THEN conjunct2, THEN conjunct1, rule_format])
  show "ag_targets s k = Some t \<Longrightarrow> tg_stream t = i \<Longrightarrow>
       target_ok (wire_bytes D) (end_frame i \<in> set D) (wire_bytes (sent_for i (ag_sent s))) server (map_of (ag_streams s) i = Some k) t"
    by (rule c [THEN conjunct2, THEN conjunct2, THEN conjunct2, THEN conjunct1, rule_format])
  show "(\<And>k t. ag_targets s k = Some t \<Longrightarrow> tg_stream t \<noteq> i) \<Longrightarrow> server = [] \<and> wire_bytes (sent_for i (ag_sent s)) = []"
    by (rule c [THEN conjunct2, THEN conjunct2, THEN conjunct2, THEN conjunct2, THEN conjunct1, THEN mp]) blast
  show "m < length (ag_sent s) \<Longrightarrow> ag_sent s ! m = end_frame i \<Longrightarrow> wire_bytes (sent_for i (take m (ag_sent s))) = server
       \<and> (\<exists>k t. ag_targets s k = Some t \<and> tg_stream t = i \<and> tg_ended t)"
    by (rule c [THEN conjunct2, THEN conjunct2, THEN conjunct2, THEN conjunct2, THEN conjunct2, THEN conjunct1, rule_format])
  show "j \<in> set (ag_sent s) \<Longrightarrow> is_for i j \<Longrightarrow> agent_frames i j"
    by (rule c [THEN conjunct2, THEN conjunct2, THEN conjunct2, THEN conjunct2, THEN conjunct2, THEN conjunct2, rule_format])
qed

lemma target_ok_drop: "target_ok W E U server inmap t \<Longrightarrow> (inmap' \<Longrightarrow> inmap) \<Longrightarrow> target_ok W E U server inmap' t"
  by (auto simp: target_ok_def)

lemma target_ok_destroy: "target_ok W E U server inmap t \<Longrightarrow> target_ok W E U server inmap' (t\<lparr>tg_destroyed := True\<rparr>)"
  by (auto simp: target_ok_def)

text \<open>
  Every operation but the opening of a connection changes the connections in place, forgets streams, and sends at most
  one frame.
\<close>

lemma side_change:
  assumes before: "side i D server s"
    and next_same: "ag_next s' = ag_next s" and deaf: "\<And>j. \<not> ag_listening s' \<Longrightarrow> ag_listening s \<Longrightarrow> map_of (ag_streams s') j = None"
    and streams: "\<And>j k. map_of (ag_streams s') j = Some k \<Longrightarrow> map_of (ag_streams s) j = Some k"
    and targets: "\<And>k. ag_targets s' k = map_option (g k) (ag_targets s k)"
    and stream_same: "\<And>k t. tg_stream (g k t) = tg_stream t"
    and ended_stays: "\<And>k t. tg_ended t \<Longrightarrow> tg_ended (g k t)"
    and sent: "ag_sent s' = ag_sent s @ js" and one: "length js \<le> 1"
    and forms: "\<And>j. j \<in> set js \<Longrightarrow> is_for i j \<Longrightarrow> agent_frames i j"
    and began: "D' = [] \<Longrightarrow> D = []"
    and own: "\<And>k t. ag_targets s k = Some t \<Longrightarrow> tg_stream t = i
      \<Longrightarrow> target_ok (wire_bytes D) (end_frame i \<in> set D) (wire_bytes (sent_for i (ag_sent s))) server (map_of (ag_streams s) i = Some k) t
      \<Longrightarrow> target_ok (wire_bytes D') (end_frame i \<in> set D') (wire_bytes (sent_for i (ag_sent s)) @ wire_bytes (sent_for i js)) server'
            (map_of (ag_streams s') i = Some k) (g k t)"
    and absent: "(\<And>k t. ag_targets s k = Some t \<Longrightarrow> tg_stream t \<noteq> i) \<Longrightarrow> server' = server \<and> wire_bytes (sent_for i js) = []"
    and ending: "end_frame i \<in> set js \<Longrightarrow> server' = server \<and> wire_bytes (sent_for i (ag_sent s)) = server
      \<and> (\<exists>k t. ag_targets s k = Some t \<and> tg_stream t = i \<and> tg_ended (g k t))"
    and server_same: "\<And>k t. ag_targets s k = Some t \<Longrightarrow> tg_stream t = i \<Longrightarrow> tg_ended t \<Longrightarrow> server' = server"
  shows "side i D' server' s'"
proof -
  note d = sideD [OF before]
  have target_before: "\<exists>u. ag_targets s k = Some u \<and> t = g k u \<and> tg_stream u = tg_stream t" if "ag_targets s' k = Some t" for k t
    using that targets [of k] stream_same by auto
  have target_after: "ag_targets s' k = Some (g k u) \<and> tg_stream (g k u) = tg_stream u" if "ag_targets s k = Some u" for k u
    using that targets [of k] stream_same by auto
  have ok_after: "agent_ok s'"
    unfolding agent_ok_def next_same
  proof (intro conjI allI impI)
    show "k < ag_next s" if "ag_targets s' k = Some t" for k t
      using target_before [OF that] d(1) unfolding agent_ok_def by blast
    show "\<exists>t. ag_targets s' k = Some t \<and> tg_stream t = j" if "map_of (ag_streams s') j = Some k" for j k
      using streams [OF that] d(1) target_after unfolding agent_ok_def by metis
    show "map_of (ag_streams s') j = None" if "\<not> ag_listening s'" for j
    proof (cases "ag_listening s")
      case True
      then show ?thesis using deaf that by blast
    next
      case False
      then have "map_of (ag_streams s) j = None" using d(1) unfolding agent_ok_def by blast
      then show ?thesis using streams [of j] by (cases "map_of (ag_streams s') j") auto
    qed
  qed
  have ends_after: "wire_bytes (sent_for i (take m (ag_sent s'))) = server' \<and> (\<exists>k t. ag_targets s' k = Some t \<and> tg_stream t = i \<and> tg_ended t)"
    if m: "m < length (ag_sent s')" "ag_sent s' ! m = end_frame i" for m
  proof (cases "m < length (ag_sent s)")
    case True
    then have "ag_sent s ! m = end_frame i" using m(2) by (simp add: sent nth_append)
    with d(6) [OF True] obtain k t where kt: "wire_bytes (sent_for i (take m (ag_sent s))) = server"
      "ag_targets s k = Some t" "tg_stream t = i" "tg_ended t" by blast
    have "server' = server" by (rule server_same [OF kt(2,3,4)])
    moreover have "ag_targets s' k = Some (g k t)" "tg_stream (g k t) = i" "tg_ended (g k t)"
      using target_after [OF kt(2)] kt(3) ended_stays [OF kt(4)] by simp_all
    ultimately show ?thesis using True kt(1) by (auto simp: sent)
  next
    case False
    with m(1) one have m_eq: "m = length (ag_sent s)" "0 < length js" by (cases js; simp add: sent)+
    then have "js ! 0 = end_frame i" using m(2) by (simp add: sent nth_append)
    with m_eq(2) have "end_frame i \<in> set js" by (metis nth_mem)
    with ending obtain k t where "server' = server" "wire_bytes (sent_for i (ag_sent s)) = server" "ag_targets s k = Some t" "tg_stream t = i" "tg_ended (g k t)"
      by blast
    then show ?thesis using target_after [of k t] m_eq(1) by (auto simp: sent)
  qed
  show ?thesis
    unfolding side_def
  proof (intro conjI allI impI ballI)
    show "agent_ok s'" by (rule ok_after)
    show "k = k'" if "ag_targets s' k = Some t" "ag_targets s' k' = Some t'" "tg_stream t = i" "tg_stream t' = i" for k k' t t'
      using target_before [OF that(1)] target_before [OF that(2)] that(3,4) d(2) by metis
    show "tg_stream t \<noteq> i" if "D' = []" "ag_targets s' k = Some t" for k t
      using target_before [OF that(2)] d(3) [OF began [OF that(1)]] by metis
    have U: "wire_bytes (sent_for i (ag_sent s')) = wire_bytes (sent_for i (ag_sent s)) @ wire_bytes (sent_for i js)"
      by (simp add: sent sent_for_def)
    show "target_ok (wire_bytes D') (end_frame i \<in> set D') (wire_bytes (sent_for i (ag_sent s'))) server' (map_of (ag_streams s') i = Some k) t"
      if "ag_targets s' k = Some t" "tg_stream t = i" for k t
      using target_before [OF that(1)] that(2) own [OF _ _ d(4)] unfolding U by metis
    have "server' = [] \<and> wire_bytes (sent_for i (ag_sent s')) = []" if "\<forall>k t. ag_targets s' k = Some t \<longrightarrow> tg_stream t \<noteq> i"
    proof -
      have none: "tg_stream t \<noteq> i" if "ag_targets s k = Some t" for k t
        using target_after [OF that] \<open>\<forall>k t. ag_targets s' k = Some t \<longrightarrow> tg_stream t \<noteq> i\<close> by metis
      have "server' = server \<and> wire_bytes (sent_for i js) = []" by (rule absent) (rule none)
      moreover have "server = [] \<and> wire_bytes (sent_for i (ag_sent s)) = []" by (rule d(5)) (rule none)
      ultimately show ?thesis unfolding U by simp
    qed
    then show "server' = []" "wire_bytes (sent_for i (ag_sent s')) = []" if "\<forall>k t. ag_targets s' k = Some t \<longrightarrow> tg_stream t \<noteq> i"
      using that by blast+
    show "wire_bytes (sent_for i (take m (ag_sent s'))) = server'" if "m < length (ag_sent s')" "ag_sent s' ! m = end_frame i" for m
      using ends_after [OF that] by blast
    show "\<exists>k t. ag_targets s' k = Some t \<and> tg_stream t = i \<and> tg_ended t" if "m < length (ag_sent s')" "ag_sent s' ! m = end_frame i" for m
      using ends_after [OF that] by blast
    show "agent_frames i j" if "j \<in> set (ag_sent s')" "is_for i j" for j
      using that d(7) forms by (auto simp: sent)
  qed

qed

lemma side_step:
  assumes before: "side i D server s" and next_same: "ag_next s' = ag_next s"
    and deaf: "\<And>j. \<not> ag_listening s' \<Longrightarrow> ag_listening s \<Longrightarrow> map_of (ag_streams s') j = None"
    and streams: "\<And>j k. map_of (ag_streams s') j = Some k \<Longrightarrow> map_of (ag_streams s) j = Some k"
    and targets: "\<And>k. ag_targets s' k = map_option (g k) (ag_targets s k)"
    and g: "\<And>k t. tg_stream (g k t) = tg_stream t" "\<And>k t. tg_ended t \<Longrightarrow> tg_ended (g k t)"
    and sent: "ag_sent s' = ag_sent s @ js" "length js \<le> 1"
    and quiet: "\<And>j. j \<in> set js \<Longrightarrow> is_for i j \<Longrightarrow> \<exists>kind extra. j = agent_frame kind i extra \<and> kind \<in> {''dial_opened'', ''dial_error'', ''dial_close''}"
    and own: "\<And>k t W E U sv inmap inmap'. (inmap' \<Longrightarrow> inmap) \<Longrightarrow> target_ok W E U sv inmap t \<Longrightarrow> target_ok W E U sv inmap' (g k t)"
  shows "side i D server s'"
proof -
  have silent: "wire_bytes (sent_for i js) = []"
    using sent(2) quiet [of "hd js"] by (cases js) (auto simp: sent_for_def wire_bytes_def frame_bytes_def)
  show ?thesis
  proof (rule side_change [OF before next_same deaf streams targets g sent])
    show "agent_frames i j" if "j \<in> set js" "is_for i j" for j
      using quiet [OF that] unfolding agent_frames_def by blast
    show "end_frame i \<in> set js \<Longrightarrow> server = server \<and> wire_bytes (sent_for i (ag_sent s)) = server
      \<and> (\<exists>k t. ag_targets s k = Some t \<and> tg_stream t = i \<and> tg_ended (g k t))"
      using quiet [of "end_frame i"] by (auto simp: end_frame_def)
  qed (use silent own [OF streams] in auto)
qed

lemma side_same:
  assumes "side i D server s" and "ag_next s' = ag_next s" "ag_streams s' = ag_streams s" "ag_targets s' = ag_targets s" "ag_sent s' = ag_sent s"
    "ag_listening s' = ag_listening s"
  shows "side i D server s'"
  by (rule side_step [where g = "\<lambda>_ t. t" and js = "[]", OF assms(1)]) (use assms in \<open>auto simp: option.map_ident intro: target_ok_drop\<close>)

lemma upd_target_simps [simp]: "ag_next (upd_target k f s) = ag_next s" "ag_streams (upd_target k f s) = ag_streams s"
  "ag_sent (upd_target k f s) = ag_sent s" "ag_open (upd_target k f s) = ag_open s" "ag_listening (upd_target k f s) = ag_listening s"
  "ag_targets (upd_target k f s) k' = (if k' = k then map_option f (ag_targets s k) else ag_targets s k')"
  by (simp_all add: upd_target_def)

lemma agent_send_simps [simp]: "ag_next (agent_send j s) = ag_next s" "ag_streams (agent_send j s) = ag_streams s"
  "ag_targets (agent_send j s) = ag_targets s" "ag_open (agent_send j s) = ag_open s" "ag_listening (agent_send j s) = ag_listening s"
  "ag_sent (agent_send j s) = ag_sent s @ (if ag_open s then [j] else [])"
  by (simp_all add: agent_send_def)

text \<open>Changes of one connection, the forgetting of a stream, a frame without bytes.\<close>

lemma side_upd:
  assumes "side i D server s" and "\<And>t. tg_stream (f t) = tg_stream t" "\<And>t. tg_ended t \<Longrightarrow> tg_ended (f t)"
    and "\<And>t W E U sv inmap. target_ok W E U sv inmap t \<Longrightarrow> target_ok W E U sv inmap (f t)"
  shows "side i D server (upd_target k f s)"
  by (rule side_step [where g = "\<lambda>k' t. if k' = k then f t else t" and js = "[]", OF assms(1)])
    (use assms in \<open>auto simp: option.map_ident intro: target_ok_drop target_ok_drop [OF assms(4)]\<close>)

lemma side_forget: "side i D server s \<Longrightarrow> side i D server (s\<lparr>ag_streams := jsmap_delete j (ag_streams s)\<rparr>)"
  by (rule side_step [where g = "\<lambda>_ t. t" and js = "[]"]) (auto simp: option.map_ident intro: target_ok_drop split: if_splits)

lemma side_send:
  assumes "side i D server s" and "kind \<in> {''dial_opened'', ''dial_error'', ''dial_close''}"
  shows "side i D server (agent_send (agent_frame kind j extra) s)"
  by (rule side_step [where g = "\<lambda>_ t. t" and js = "if ag_open s then [agent_frame kind j extra] else []", OF assms(1)])
    (use assms(2) in \<open>auto simp: option.map_ident intro: target_ok_drop split: if_splits\<close>)

lemma side_close: "side i D server s \<Longrightarrow> side i D server (closeStream j s)"
  by (auto simp: closeStream_def intro!: side_upd side_forget target_ok_destroy split: option.splits)

lemma side_error: "side i D server s \<Longrightarrow> side i D server (target_error k m s)"
  by (auto simp: target_error_def intro!: side_send side_upd target_ok_destroy split: option.splits)

lemma side_connected: "side i D server s \<Longrightarrow> side i D server (target_connected k s)"
  by (auto simp: target_connected_def Let_def target_ok_def intro!: side_send side_close side_upd split: option.splits)

lemma side_failed: "side i D server s \<Longrightarrow> side i D server (send_failed k s)"
proof -
  assume s: "side i D server s"
  have "side i D server (upd_target k (\<lambda>t. t\<lparr>tg_sending := None, tg_waiting := False\<rparr>) s)"
    by (rule side_upd [OF s]) (auto simp: target_ok_def)
  then show ?thesis using s by (auto simp: send_failed_def intro: side_close split: option.splits)
qed

lemma side_sent: "side i D server s \<Longrightarrow> side i D server (part_sent k ok s)"
  by (auto simp: part_sent_def target_ok_def intro!: side_failed side_upd)

lemma side_closed: "side i D server s \<Longrightarrow> side i D server (target_close k s)"
proof -
  assume s: "side i D server s"
  have "side i D server (upd_target k (\<lambda>t. t\<lparr>tg_closed := True\<rparr>) s)"
    by (rule side_upd [OF s]) (auto simp: target_ok_def)
  from side_forget [OF this] show ?thesis using s by (auto simp: target_close_def Let_def intro: side_send split: option.splits)
qed

lemma side_shut: "side i D server s \<Longrightarrow> side i D server (agent_onClose s)"
  by (rule side_step [where g = "\<lambda>k t. if k \<in> snd ` set (ag_streams s) then t\<lparr>tg_destroyed := True\<rparr> else t" and js = "[]"])
    (auto simp: agent_onClose_def option.map_ident intro: target_ok_drop target_ok_destroy)

lemma side_unique:
  "side i D server s \<Longrightarrow> ag_targets s k = Some t \<Longrightarrow> ag_targets s k' = Some t' \<Longrightarrow> k' \<noteq> k \<Longrightarrow> tg_stream t' = i \<Longrightarrow> tg_stream t \<noteq> i"
  using sideD(2) by metis

lemma side_part:
  assumes s: "side i D server s" and k: "ag_targets s k = Some t"
  shows "side i D server (send_part k s)"
proof (cases "tg_sending t")
  case (Some qs)
  show ?thesis
  proof (cases qs)
    case (Cons p ps)
    let ?s = "agent_send (data_frame (tg_stream t) p) (upd_target k (\<lambda>t. t\<lparr>tg_sending := Some ps, tg_waiting := True\<rparr>) s)"
    have p: "part_ok p" if "tg_stream t = i" using sideD(4) [OF s k that] Some Cons by (simp add: target_ok_def)
    have "side i D server ?s" if live: "ag_open s"
    proof (rule side_change [where g = "\<lambda>k' t. if k' = k then t\<lparr>tg_sending := Some ps, tg_waiting := True\<rparr> else t"
          and js = "[data_frame (tg_stream t) p]", OF s])
      show "ag_sent ?s = ag_sent s @ [data_frame (tg_stream t) p]" using live by simp
      show "agent_frames i j" if "j \<in> set [data_frame (tg_stream t) p]" "is_for i j" for j
        using that p by (auto simp: agent_frames_def)
      show "target_ok (wire_bytes D) (end_frame i \<in> set D) (wire_bytes (sent_for i (ag_sent s)) @ wire_bytes (sent_for i [data_frame (tg_stream t) p])) server
          (map_of (ag_streams ?s) i = Some k') (if k' = k then u\<lparr>tg_sending := Some ps, tg_waiting := True\<rparr> else u)"
        if "ag_targets s k' = Some u" "tg_stream u = i"
          "target_ok (wire_bytes D) (end_frame i \<in> set D) (wire_bytes (sent_for i (ag_sent s))) server (map_of (ag_streams s) i = Some k') u" for k' u
      proof (cases "k' = k")
        case True
        then show ?thesis using that k Some Cons p by (auto simp: target_ok_def sent_for_def)
      next
        case False
        then have "sent_for i [data_frame (tg_stream t) p] = []" using side_unique [OF s k that(1) _ that(2)] by (simp add: sent_for_def)
        then show ?thesis using False that(3) by (simp add: wire_bytes_def)
      qed
      show "server = server \<and> wire_bytes (sent_for i [data_frame (tg_stream t) p]) = []" if "\<And>k t. ag_targets s k = Some t \<Longrightarrow> tg_stream t \<noteq> i"
        using that [OF k] by (auto simp: sent_for_def wire_bytes_def)
    qed (auto simp: option.map_ident end_frame_def)
    then show ?thesis using k Some Cons s by (auto simp: send_part_def data_frame_def intro: side_failed)
  qed (use k Some s in \<open>simp add: send_part_def\<close>)
qed (use k s in \<open>simp add: send_part_def\<close>)

lemma side_end:
  assumes s: "side i D server s" and k: "ag_targets s k = Some t" "\<not> tg_paused t"
  shows "side i D server (target_end k s)"
proof -
  let ?f = "end_frame (tg_stream t)"
  let ?s = "agent_send ?f (upd_target k (\<lambda>t. t\<lparr>tg_ended := True\<rparr>) s)"
  have "side i D server ?s"
  proof (rule side_change [where g = "\<lambda>k' t. if k' = k then t\<lparr>tg_ended := True\<rparr> else t" and js = "if ag_open s then [?f] else []", OF s])
    show "server = server \<and> wire_bytes (sent_for i (ag_sent s)) = server
        \<and> (\<exists>k' t. ag_targets s k' = Some t \<and> tg_stream t = i \<and> tg_ended (if k' = k then t\<lparr>tg_ended := True\<rparr> else t))"
      if "end_frame i \<in> set (if ag_open s then [?f] else [])"
    proof -
      from that have i: "tg_stream t = i" by (auto simp: end_frame_def split: if_splits)
      then have "wire_bytes (sent_for i (ag_sent s)) = server" using sideD(4) [OF s k(1) i] k(2) by (simp add: target_ok_def)
      then show ?thesis using i k(1) by auto
    qed
    show "target_ok (wire_bytes D) (end_frame i \<in> set D) (wire_bytes (sent_for i (ag_sent s)) @ wire_bytes (sent_for i (if ag_open s then [?f] else []))) server
        (map_of (ag_streams ?s) i = Some k') (if k' = k then u\<lparr>tg_ended := True\<rparr> else u)"
      if "ag_targets s k' = Some u" "tg_stream u = i"
        "target_ok (wire_bytes D) (end_frame i \<in> set D) (wire_bytes (sent_for i (ag_sent s))) server (map_of (ag_streams s) i = Some k') u" for k' u
    proof -
      have "wire_bytes (sent_for i (if ag_open s then [?f] else [])) = []" by (simp add: sent_for_def wire_bytes_def frame_bytes_def end_frame_def)
      then show ?thesis using that k by (auto simp: target_ok_def)
    qed
  qed (auto simp: option.map_ident sent_for_def wire_bytes_def frame_bytes_def end_frame_def agent_frames_def split: if_splits)
  then show ?thesis using k by (simp add: target_end_def end_frame_def)
qed

lemma side_data:
  assumes s: "side i D server s" and k: "ag_targets s k = Some t" "data_ready t" and chunk: "\<forall>b \<in> set chunk. b < 256"
  shows "side i D (if tg_stream t = i then server @ chunk else server) (target_data k chunk s)"
  unfolding target_data_def
proof (rule side_change [where g = "\<lambda>k' t. if k' = k then t\<lparr>tg_paused := True, tg_sending := Some (split_parts chunk), tg_waiting := False\<rparr> else t"
      and js = "[]", OF s])
  let ?sv = "if tg_stream t = i then server @ chunk else server"
  show "target_ok (wire_bytes D) (end_frame i \<in> set D) (wire_bytes (sent_for i (ag_sent s)) @ wire_bytes (sent_for i [])) ?sv
      (map_of (ag_streams (upd_target k (\<lambda>t. t\<lparr>tg_paused := True, tg_sending := Some (split_parts chunk), tg_waiting := False\<rparr>) s)) i = Some k')
      (if k' = k then u\<lparr>tg_paused := True, tg_sending := Some (split_parts chunk), tg_waiting := False\<rparr> else u)"
    if "ag_targets s k' = Some u" "tg_stream u = i"
      "target_ok (wire_bytes D) (end_frame i \<in> set D) (wire_bytes (sent_for i (ag_sent s))) server (map_of (ag_streams s) i = Some k') u" for k' u
  proof (cases "k' = k")
    case True
    then show ?thesis using that k split_parts_ok [OF chunk] by (auto simp: target_ok_def data_ready_def sent_for_def wire_bytes_def)
  next
    case False
    then have "tg_stream t \<noteq> i" using side_unique [OF s k(1) that(1) _ that(2)] by simp
    then show ?thesis using False that(3) by (simp add: sent_for_def wire_bytes_def)
  qed
  show "?sv = server" if "ag_targets s k' = Some u" "tg_stream u = i" "tg_ended u" for k' u
    using that k side_unique [OF s k(1) that(1) _ that(2)] by (cases "k' = k") (auto simp: data_ready_def)
qed (use k in \<open>auto simp: option.map_ident sent_for_def wire_bytes_def\<close>)

lemma side_event: "agent_event s s' \<Longrightarrow> side i D server s \<Longrightarrow> side i D server s'"
proof (induction rule: agent_event.induct)
  case (closing s)
  then show ?case by (rule side_same) simp_all
qed (auto intro: side_connected side_close side_part side_sent side_end side_error side_closed side_shut)

section \<open>The frames of the hub\<close>

definition open_frame :: "string \<Rightarrow> json" where
  "open_frame i = agent_frame ''dial_open'' i [(''port'', JNum 8080)]"

definition close_frame :: "string \<Rightarrow> json" where
  "close_frame i = agent_frame ''dial_close'' i []"

abbreviation added :: "nat \<Rightarrow> string \<Rightarrow> agent \<Rightarrow> agent" where
  "added k j s \<equiv> s\<lparr>ag_targets := (ag_targets s)(k \<mapsto> new_target j), ag_streams := jsmap_set j k (ag_streams s), ag_next := Suc k\<rparr>"

lemma agent_ok_new: "agent_ok s \<Longrightarrow> ag_listening s \<Longrightarrow> agent_ok (added (ag_next s) j s)"
proof -
  assume ok: "agent_ok s" "ag_listening s"
  then have "map_of (ag_streams s) j' \<noteq> Some (ag_next s)" for j' unfolding agent_ok_def by (metis less_irrefl)
  then show ?thesis using ok unfolding agent_ok_def by (auto simp: new_target_def less_Suc_eq)
qed

lemma no_next: "agent_ok s \<Longrightarrow> ag_targets s (ag_next s) = None"
  unfolding agent_ok_def by (metis less_irrefl not_None_eq)

lemma side_new_other:
  assumes s: "side i D server s" and j: "j \<noteq> i" and l: "ag_listening s"
  shows "side i D server (added (ag_next s) j s)"
proof -
  note d = sideD [OF s]
  have old: "k \<noteq> ag_next s \<and> ag_targets s k = Some t" if "ag_targets (added (ag_next s) j s) k = Some t" "tg_stream t = i" for k t
    using that j by (auto simp: new_target_def split: if_splits)
  have same: "ag_targets (added (ag_next s) j s) k = Some t" if "ag_targets s k = Some t" for k t
    using that no_next [OF d(1)] by auto
  show ?thesis
    unfolding side_def
  proof (intro conjI allI impI ballI)
    show "agent_ok (added (ag_next s) j s)" using d(1) l by (rule agent_ok_new)
    show "k = k'" if "ag_targets (added (ag_next s) j s) k = Some t" "ag_targets (added (ag_next s) j s) k' = Some t'" "tg_stream t = i" "tg_stream t' = i"
      for k k' t t' using old that d(2) by metis
    show "tg_stream t \<noteq> i" if "D = []" "ag_targets (added (ag_next s) j s) k = Some t" for k t using old that d(3) by metis
    show "target_ok (wire_bytes D) (end_frame i \<in> set D) (wire_bytes (sent_for i (ag_sent (added (ag_next s) j s)))) server
        (map_of (ag_streams (added (ag_next s) j s)) i = Some k) t" if "ag_targets (added (ag_next s) j s) k = Some t" "tg_stream t = i" for k t
      using old [OF that] d(4) [OF _ that(2)] j by simp
    have "server = [] \<and> wire_bytes (sent_for i (ag_sent s)) = []" if no: "\<forall>k t. ag_targets (added (ag_next s) j s) k = Some t \<longrightarrow> tg_stream t \<noteq> i"
      by (rule d(5)) (use same no in blast)
    then show "server = []" "wire_bytes (sent_for i (ag_sent (added (ag_next s) j s))) = []"
      if "\<forall>k t. ag_targets (added (ag_next s) j s) k = Some t \<longrightarrow> tg_stream t \<noteq> i" using that by simp_all
    fix m assume "m < length (ag_sent (added (ag_next s) j s))" "ag_sent (added (ag_next s) j s) ! m = end_frame i"
    then have m: "m < length (ag_sent s)" "ag_sent s ! m = end_frame i" by simp_all
    show "wire_bytes (sent_for i (take m (ag_sent (added (ag_next s) j s)))) = server" using d(6) [OF m] by simp
    show "\<exists>k t. ag_targets (added (ag_next s) j s) k = Some t \<and> tg_stream t = i \<and> tg_ended t" using d(6) [OF m] same by blast
  next
    fix f assume "f \<in> set (ag_sent (added (ag_next s) j s))" "is_for i f"
    then show "agent_frames i f" using d(7) by simp
  qed
qed

lemma side_new_own:
  assumes s: "side i [] server s" and l: "ag_listening s"
  shows "side i [open_frame i] server (added (ag_next s) i s)"
proof -
  note d = sideD [OF s]
  have none: "tg_stream t \<noteq> i" if "ag_targets s k = Some t" for k t using d(3) [OF refl that] .
  have empty: "server = []" "wire_bytes (sent_for i (ag_sent s)) = []" using d(5) none by blast+
  have only: "k = ag_next s \<and> t = new_target i" if "ag_targets (added (ag_next s) i s) k = Some t" "tg_stream t = i" for k t
    using that none by (auto split: if_splits)
  have no_end: "\<not> (m < length (ag_sent s) \<and> ag_sent s ! m = end_frame i)" for m
    using d(6) none by blast
  show ?thesis
    unfolding side_def
  proof (intro conjI allI impI ballI)
    show "agent_ok (added (ag_next s) i s)" using d(1) l by (rule agent_ok_new)
    show "target_ok (wire_bytes [open_frame i]) (end_frame i \<in> set [open_frame i]) (wire_bytes (sent_for i (ag_sent (added (ag_next s) i s)))) server
        (map_of (ag_streams (added (ag_next s) i s)) i = Some k) t" if "ag_targets (added (ag_next s) i s) k = Some t" "tg_stream t = i" for k t
      using only [OF that] empty by (simp add: target_ok_def new_target_def open_frame_def)
    show "k = k'" if "ag_targets (added (ag_next s) i s) k = Some t" "ag_targets (added (ag_next s) i s) k' = Some t'" "tg_stream t = i" "tg_stream t' = i"
      for k k' t t' using only [OF that(1,3)] only [OF that(2,4)] by simp
    show "server = []" "wire_bytes (sent_for i (ag_sent (added (ag_next s) i s))) = []" using empty by simp_all
    show "tg_stream t \<noteq> i" if "[open_frame i] = []" "ag_targets (added (ag_next s) i s) k = Some t" for k t using that(1) by simp
    show "wire_bytes (sent_for i (take m (ag_sent (added (ag_next s) i s)))) = server"
      "\<exists>k t. ag_targets (added (ag_next s) i s) k = Some t \<and> tg_stream t = i \<and> tg_ended t"
      if "m < length (ag_sent (added (ag_next s) i s))" "ag_sent (added (ag_next s) i s) ! m = end_frame i" for m
      using that no_end [of m] by simp_all
  next
    fix f assume "f \<in> set (ag_sent (added (ag_next s) i s))" "is_for i f"
    then show "agent_frames i f" using d(7) by simp
  qed
qed

lemma side_upd_other:
  assumes s: "side i D server s" and k: "\<And>t. ag_targets s k = Some t \<Longrightarrow> tg_stream t \<noteq> i"
    and f: "\<And>t. tg_stream (f t) = tg_stream t" "\<And>t. tg_ended t \<Longrightarrow> tg_ended (f t)"
  shows "side i D server (upd_target k f s)"
  by (rule side_change [where g = "\<lambda>k' t. if k' = k then f t else t" and js = "[]", OF s])
    (use k f in \<open>auto simp: option.map_ident sent_for_def wire_bytes_def\<close>)

lemma side_write_other:
  assumes s: "side i D server s" and k: "\<And>t. ag_targets s k = Some t \<Longrightarrow> tg_stream t \<noteq> i"
  shows "side i D server (target_write k chunk s)"
proof -
  have "side i D server (upd_target k (\<lambda>t. t\<lparr>tg_written := tg_written t @ [chunk]\<rparr>) s)" by (rule side_upd_other [OF s k]) simp_all
  then show ?thesis using s by (auto simp: target_write_def intro: side_error split: option.splits)
qed

lemma side_other_message:
  assumes s: "side i D server s" and j: "\<And>m. json_parse frame = Some m \<Longrightarrow> \<not> is_for i m"
  shows "side i D server (onMessage binary frame s)"
proof -
  have crash: "side i D server (s\<lparr>ag_crashed := True\<rparr>)" by (rule side_same [OF s]) simp_all
  have openings: "side i D server (open_stream m i' s)" if "i' \<noteq> i" "ag_listening s" for m i'
    using side_send [OF s, of "''dial_error''"] side_new_other [OF s that] by (simp add: open_stream_def)
  have stream: "side i D server (stream_message m i' s)" if i': "i' \<noteq> i" for m i'
  proof (cases "map_of (ag_streams s) i'")
    case (Some k)
    have k: "tg_stream t \<noteq> i" if "ag_targets s k = Some t" for t
      using sideD(1) [OF s] Some that i' unfolding agent_ok_def by fastforce
    have "side i D server (target_finish k s)" unfolding target_finish_def by (rule side_upd_other [OF s k]) auto
    moreover have "side i D server (target_write k chunk s)" for chunk by (rule side_write_other [OF s k])
    ultimately show ?thesis using s Some by (auto simp: stream_message_def intro: side_close split: option.splits)
  qed (use s in \<open>simp add: stream_message_def\<close>)
  show ?thesis using s j crash openings stream by (auto simp: onMessage_def is_for_def split: option.splits json.splits)
qed

lemma deliver_parse:
  assumes "validIdentity (Some (JStr i))" and "kind \<in> {''dial_open'', ''dial_data'', ''dial_end'', ''dial_close''}"
    and "json_ok (agent_frame kind i extra)" and "ag_listening s"
  shows "onMessage False (json_text (agent_frame kind i extra)) s =
    (if kind = ''dial_open'' then open_stream (agent_frame kind i extra) i s else stream_message (agent_frame kind i extra) i s)"
  using assms json_parse_text [OF assms(3)] by (auto simp: onMessage_def agent_kinds_def)

text \<open>A frame without bytes changes only what arrived.\<close>

lemma side_more:
  assumes "side i D server s" and "wire_bytes [x] = []"
  shows "side i (D @ [x]) server s"
  by (rule side_change [where g = "\<lambda>_ t. t" and js = "[]", OF assms(1)])
    (use assms(2) in \<open>auto simp: option.map_ident sent_for_def wire_bytes_def target_ok_def\<close>)

lemma side_bytes:
  assumes s: "side i D server s" and last: "end_frame i \<notin> set D"
    and k: "\<And>k t. ag_targets s k = Some t \<Longrightarrow> tg_stream t = i \<Longrightarrow> map_of (ag_streams s) i = Some k \<Longrightarrow> tg_destroyed t"
  shows "side i (D @ [x]) server s"
  by (rule side_change [where g = "\<lambda>_ t. t" and js = "[]", OF s])
    (use last k in \<open>auto simp: option.map_ident sent_for_def wire_bytes_def target_ok_def\<close>)

lemma side_write:
  assumes s: "side i D server s" and last: "end_frame i \<notin> set D" and p: "part_ok p"
    and k: "map_of (ag_streams s) i = Some k"
  shows "side i (D @ [data_frame i p]) server (target_write k p s)"
proof -
  obtain t where t: "ag_targets s k = Some t" "tg_stream t = i" using sideD(1) [OF s] k unfolding agent_ok_def by blast
  have only: "k' = k \<and> u = t" if "ag_targets s k' = Some u" "tg_stream u = i" for k' u
    using sideD(2) [OF s that(1) t(1) that(2) t(2)] that t(1) by simp
  have ok: "target_ok (wire_bytes D) (end_frame i \<in> set D) (wire_bytes (sent_for i (ag_sent s))) server True t"
    using sideD(4) [OF s t] k by simp
  then have fin: "\<not> tg_finished t" using last by (simp add: target_ok_def)
  have gone: "side i (D @ [data_frame i p]) server (target_error k m s)" for m
  proof (rule side_bytes [OF side_error [OF s] last])
    show "tg_destroyed u" if "ag_targets (target_error k m s) k' = Some u" "tg_stream u = i" for k' u
    proof (cases "k' = k")
      case True
      then show ?thesis using that(1) t(1) by (auto simp: target_error_def)
    next
      case False
      then have "ag_targets s k' = Some u" using that(1) t(1) by (simp add: target_error_def)
      then show ?thesis using only that(2) False by blast
    qed
  qed
  consider "tg_destroyed t" | "\<not> tg_destroyed t" "tg_ended t" | "\<not> tg_destroyed t" "\<not> tg_ended t" by blast
  then show ?thesis
  proof cases
    case 1
    then have "side i (D @ [data_frame i p]) server s" using only by (intro side_bytes [OF s last]) blast
    then show ?thesis using 1 t by (simp add: target_write_def)
  next
    case 2
    then show ?thesis using t fin gone by (simp add: target_write_def)
  next
    case 3
    have "side i (D @ [data_frame i p]) server (upd_target k (\<lambda>t. t\<lparr>tg_written := tg_written t @ [p]\<rparr>) s)"
    proof (rule side_change [where g = "\<lambda>k' t. if k' = k then t\<lparr>tg_written := tg_written t @ [p]\<rparr> else t" and js = "[]", OF s])
      have W: "wire_bytes (D @ [data_frame i p]) = wire_bytes D @ p" using p by simp
      have "concat (tg_written t) = wire_bytes D" using ok 3 by (simp add: target_ok_def)
      then have "target_ok (wire_bytes D @ p) e (wire_bytes (sent_for i (ag_sent s)) @ wire_bytes (sent_for i [])) server m (t\<lparr>tg_written := tg_written t @ [p]\<rparr>)" for e m
        using ok fin by (simp add: target_ok_def sent_for_def wire_bytes_def)
      then show "target_ok (wire_bytes (D @ [data_frame i p])) (end_frame i \<in> set (D @ [data_frame i p])) (wire_bytes (sent_for i (ag_sent s)) @ wire_bytes (sent_for i [])) server
          (map_of (ag_streams (upd_target k (\<lambda>t. t\<lparr>tg_written := tg_written t @ [p]\<rparr>) s)) i = Some k') (if k' = k then u\<lparr>tg_written := tg_written u @ [p]\<rparr> else u)"
        if "ag_targets s k' = Some u" "tg_stream u = i" for k' u
        unfolding W using only [OF that] by simp
    qed (auto simp: option.map_ident sent_for_def wire_bytes_def)
    then show ?thesis using 3 t fin by (simp add: target_write_def)
  qed
qed

lemma side_finish:
  assumes s: "side i D server s" and last: "end_frame i \<in> set D" and k: "map_of (ag_streams s) i = Some k"
  shows "side i D server (target_finish k s)"
  unfolding target_finish_def
  by (rule side_change [where g = "\<lambda>k' t. if k' = k then (if tg_destroyed t then t else t\<lparr>tg_finished := True\<rparr>) else t" and js = "[]", OF s])
    (use last k in \<open>auto simp: option.map_ident sent_for_def target_ok_def wire_bytes_def\<close>)

lemma deaf_stream: "side i D server s \<Longrightarrow> \<not> ag_listening s \<Longrightarrow> map_of (ag_streams s) j = None \<and> onMessage b f s = s"
  using sideD(1) unfolding agent_ok_def onMessage_def by auto

lemma deliver_open:
  assumes i: "validIdentity (Some (JStr i))" and s: "side i [] server s"
  shows "side i [open_frame i] server (onMessage False (json_text (open_frame i)) s)"
proof -
  have more: "side i [open_frame i] server s" using side_more [OF s, of "open_frame i"] by (simp add: open_frame_def)
  show ?thesis
  proof (cases "ag_listening s")
    case True
    have "onMessage False (json_text (open_frame i)) s = open_stream (open_frame i) i s"
      using deliver_parse [OF i _ _ True, of "''dial_open''" "[(''port'', JNum 8080)]"] by (simp add: open_frame_def json_ok_frame)
    moreover have "side i [open_frame i] server (open_stream (open_frame i) i s)"
      using side_send [OF more, of "''dial_error''"] side_new_own [OF s True] by (simp add: open_stream_def)
    ultimately show ?thesis by simp
  qed (use more deaf_stream [OF s] in simp)
qed

lemma deliver_data:
  assumes i: "validIdentity (Some (JStr i))" and s: "side i D server s" and last: "end_frame i \<notin> set D" and p: "part_ok p"
  shows "side i (D @ [data_frame i p]) server (onMessage False (json_text (data_frame i p)) s)"
proof (cases "map_of (ag_streams s) i")
  case None
  then have "side i (D @ [data_frame i p]) server s" by (intro side_bytes [OF s last]) simp
  moreover have "onMessage False (json_text (data_frame i p)) s = s"
    using deliver_parse [OF i, of "''dial_data''" "[(''data'', JStr (base64_encode p))]" s] None deaf_stream [OF s]
    by (cases "ag_listening s") (simp_all add: data_frame_def json_ok_frame stream_message_def)
  ultimately show ?thesis by simp
next
  case (Some k)
  then have l: "ag_listening s" using deaf_stream [OF s] by fastforce
  have "onMessage False (json_text (data_frame i p)) s = stream_message (data_frame i p) i s"
    using deliver_parse [OF i _ _ l, of "''dial_data''" "[(''data'', JStr (base64_encode p))]"] by (simp add: data_frame_def json_ok_frame)
  moreover have "stream_message (data_frame i p) i s = target_write k p s"
    using Some p by (simp add: stream_message_def dial_data_roundtrip part_ok_def)
  ultimately show ?thesis using side_write [OF s last p Some] by simp
qed

lemma deliver_end:
  assumes i: "validIdentity (Some (JStr i))" and s: "side i D server s"
  shows "side i (D @ [end_frame i]) server (onMessage False (json_text (end_frame i)) s)"
proof -
  have more: "side i (D @ [end_frame i]) server s" using side_more [OF s] by (simp add: end_frame_def)
  show ?thesis
  proof (cases "map_of (ag_streams s) i")
    case None
    then have "onMessage False (json_text (end_frame i)) s = s"
      using deliver_parse [OF i, of "''dial_end''" "[]" s] deaf_stream [OF s]
      by (cases "ag_listening s") (simp_all add: end_frame_def json_ok_frame stream_message_def)
    then show ?thesis using more by simp
  next
    case (Some k)
    then have l: "ag_listening s" using deaf_stream [OF s] by fastforce
    have "onMessage False (json_text (end_frame i)) s = target_finish k s"
      using deliver_parse [OF i _ _ l, of "''dial_end''" "[]"] Some by (simp add: end_frame_def json_ok_frame stream_message_def)
    then show ?thesis using side_finish [OF more _ Some] by simp
  qed
qed

lemma deliver_close:
  assumes i: "validIdentity (Some (JStr i))" and s: "side i D server s"
  shows "side i (D @ [close_frame i]) server (onMessage False (json_text (close_frame i)) s)"
proof -
  have more: "side i (D @ [close_frame i]) server s" using side_more [OF s] by (simp add: close_frame_def)
  have "onMessage False (json_text (close_frame i)) s = (if ag_listening s then closeStream i s else s)"
    using deliver_parse [OF i, of "''dial_close''" "[]" s] deaf_stream [OF s]
    by (cases "ag_listening s") (simp_all add: close_frame_def json_ok_frame stream_message_def closeStream_def split: option.split)
  then show ?thesis using more side_close by simp
qed

end
