(* ===== verification/Tunnel_Properties.thy ===== *)
theory Tunnel_Properties
  imports Box_Tunnel
begin

text \<open>
  The two ends of a dial stream together: the hub's side as frames and pending bytes, the transition system of the
  tunnel, and its property, that it is a pipe of bytes in both directions.
\<close>

section \<open>The hub's side\<close>


















section \<open>The tunnel\<close>









lemma dial_destroy_readable [simp]: "ds_received (fst (dial_destroy live err d)) = ds_received d"
  "ds_ended (fst (dial_destroy live err d)) = ds_ended d" "ds_destroyed (fst (dial_destroy live err d))"
  by (simp_all add: dial_destroy_def)

lemma send_next_readable [simp]: "ds_received (fst (send_next live ps q d)) = ds_received d \<and> ds_ended (fst (send_next live ps q d)) = ds_ended d
    \<and> (ds_destroyed d \<longrightarrow> ds_destroyed (fst (send_next live ps q d)))"
  by (induction live ps q d rule: send_next.induct) (auto simp: dial_final_def)

text \<open>The operations of the writable side leave what was received.\<close>

definition quiet_op :: "(dial \<Rightarrow> dial \<times> json list) \<Rightarrow> bool" where
  "quiet_op f \<longleftrightarrow> (\<forall>d. ds_received (fst (f d)) = ds_received d \<and> ds_ended (fst (f d)) = ds_ended d \<and> (ds_destroyed d \<longrightarrow> ds_destroyed (fst (f d))))"

lemma quiet_ops [simp]: "quiet_op (dial_destroy live err)" "quiet_op (dial_write live chunk)" "quiet_op (dial_end live)" "quiet_op (dial_sent live err)"
  by (auto simp: quiet_op_def dial_write_def dial_end_def dial_sent_def dial_final_def split: option.splits)



text \<open>The agent sends frames after those it sent, and never takes one back.\<close>

definition sends_more :: "agent \<Rightarrow> agent \<Rightarrow> bool" where
  "sends_more s s' \<longleftrightarrow> (\<exists>js. ag_sent s' = ag_sent s @ js)"

lemma sends_more_refl [simp]: "sends_more s s"
  by (simp add: sends_more_def)

lemma sends_more_same: "ag_sent s' = ag_sent s \<Longrightarrow> sends_more s s'"
  by (simp add: sends_more_def)

lemma sends_more_send: "ag_sent s' = ag_sent s \<Longrightarrow> sends_more s (agent_send j s')"
  by (simp add: sends_more_def)

lemma closeStream_sent [simp]: "ag_sent (closeStream i s) = ag_sent s"
  by (simp add: closeStream_def split: option.split)

lemma sends_more_error [simp]: "sends_more s (target_error a m s)"
  by (auto simp: target_error_def intro: sends_more_send split: option.split)

lemma sends_more_message [simp]: "sends_more s (onMessage binary frame s)"
proof -
  have "sends_more s (open_stream m j s)" for m j by (auto simp: open_stream_def intro: sends_more_send sends_more_same)
  moreover have "sends_more s (target_write k c s)" for k c by (auto simp: target_write_def intro: sends_more_same split: option.split)
  then have "sends_more s (stream_message m j s)" for m j
    by (auto simp: stream_message_def target_finish_def intro: sends_more_same split: option.split)
  ultimately show ?thesis by (auto simp: onMessage_def intro: sends_more_same split: option.split json.split)
qed





























end
