(* ===== verification/Agent_Properties.thy ===== *)
theory Agent_Properties
  imports Box_Agent Box_Properties
begin

text \<open>
  The credentials between the agent and the registry of the hub: which hello of the agent the registry accepts after
  it took the bootstrap secret, and that the agent forgets its secret only when it stored what replaces it.
\<close>

section \<open>What the registry took\<close>









section \<open>What the agent holds\<close>

definition credential_stored :: "box_process \<Rightarrow> bool" where
  "credential_stored s \<longleftrightarrow> (\<exists>c. bp_file s = Some (c @ [CHR 0x0A]))"

definition handed_over :: "box_process \<Rightarrow> box_process \<Rightarrow> bool" where
  "handed_over s t \<longleftrightarrow> (ac_bootstrapSecret (bp_config t) = ac_bootstrapSecret (bp_config s) \<or> credential_stored t)
     \<and> (credential_stored s \<longrightarrow> credential_stored t)"

interpretation ag: interference "\<lambda>_ _ _. True" handed_over
  by unfold_locales (auto simp: handed_over_def)


lemma send_hub_same [simp]: "bp_config (send_hub j s) = bp_config s" "bp_file (send_hub j s) = bp_file s"
  by (simp_all add: send_hub_def)





lemma steady_json: "(\<And>x. ag.steady K (f x)) \<Longrightarrow> ag.steady K n \<Longrightarrow> ag.steady K (case j of JNull \<Rightarrow> n | x \<Rightarrow> f x)"
  by (simp split: json.split)






section \<open>Concrete runs\<close>












end
