(* ===== verification/Hub_Gateway.thy ===== *)
theory Hub_Gateway
  imports Box_Dial Request_Context
begin

text \<open>
  The gateway of the hub: \<^verbatim>\<open>oyster-hub/ui-gateway.mjs\<close> and \<^verbatim>\<open>workspace-proxy.mjs\<close>, with the check of the token of
  \<^verbatim>\<open>app.mjs\<close>.  The browser sees the sessions of all workspaces under scoped identities; a request goes to the workspace
  its identities name, and what comes back is scoped again.  A URL is its path and its list of parameters.
\<close>

section \<open>Scoped identities\<close>

definition scope_prefix :: string where "scope_prefix = ''oh1.''"
definition session_scope_prefix :: string where "session_scope_prefix = ''ps1_oh1.''"

definition scopeValue :: "string \<Rightarrow> string \<Rightarrow> bool \<Rightarrow> json option \<Rightarrow> json" where
  "scopeValue workspaceId kind sessionKey v =
     (case v of
        None \<Rightarrow> JNull
      | Some x \<Rightarrow>
          if x = JNull \<or> x = JStr [] then x
          else JStr ((if sessionKey then session_scope_prefix else scope_prefix)
                 @ b64_encode (utf8_encode (json_text (JArr [JStr workspaceId, JStr kind, JStr (js_string x)])))))"

text \<open>Bytes that are not UTF-8 count as no scoped value: what replaces them is outside the 8-bit characters.\<close>

definition parseScopedValue :: "string \<Rightarrow> (string \<times> string \<times> string) option" where
  "parseScopedValue v =
     (let rest = (if js_starts_with v session_scope_prefix then Some (drop (length session_scope_prefix) v)
                  else if js_starts_with v scope_prefix then Some (drop (length scope_prefix) v) else None) in
      case Option.bind rest (\<lambda>t. Option.bind (utf8_decode (b64_bytes (List.map_filter std_value t))) json_parse) of
        Some (JArr [JStr w, JStr k, JStr x]) \<Rightarrow> Some (w, k, x)
      | _ \<Rightarrow> None)"

record gateway_workspace =
  gw_id :: string
  gw_name :: string
  gw_url :: string
  gw_token :: "string option"
  gw_environmentId :: "string option"
  gw_environmentName :: "string option"
  gw_spoke :: "string option"

text \<open>Object spread, and \<^verbatim>\<open>??\<close>.\<close>

definition spread :: "json \<Rightarrow> (string, json) jsmap" where
  "spread j =
     (case j of
        JObj fs \<Rightarrow> fs
      | JArr xs \<Rightarrow> zip (map nat_text [0..<length xs]) xs
      | JStr s \<Rightarrow> zip (map nat_text [0..<length s]) (map (\<lambda>c. JStr [c]) s)
      | _ \<Rightarrow> [])"

definition with_fields :: "(string \<times> json) list \<Rightarrow> json \<Rightarrow> json" where
  "with_fields extra j = JObj (fold (\<lambda>(k, v). jsmap_set k v) extra (spread j))"

definition is_object :: "json \<Rightarrow> bool" where
  "is_object j = (case j of JObj _ \<Rightarrow> True | JArr _ \<Rightarrow> True | _ \<Rightarrow> False)"

definition coalesce :: "json option \<Rightarrow> json option \<Rightarrow> json option" where
  "coalesce a b = (if a = None \<or> a = Some JNull then b else a)"

definition some_text :: "string option \<Rightarrow> string \<Rightarrow> string" where
  "some_text v missing = (case v of Some (c # cs) \<Rightarrow> c # cs | _ \<Rightarrow> missing)"

definition workspaceMeta :: "gateway_workspace \<Rightarrow> (string \<times> json) list" where
  "workspaceMeta w =
     (let e = some_text (gw_environmentId w) (some_text (gw_spoke w) ''unassigned-device'') in
      [(''environmentId'', JStr e), (''environmentName'', JStr (some_text (gw_environmentName w) e)),
       (''workspaceId'', JStr (gw_id w)), (''workspaceName'', JStr (gw_name w))])"

definition scope_item :: "gateway_workspace \<Rightarrow> (string \<times> json) list \<Rightarrow> json \<Rightarrow> json" where
  "scope_item w extra j = (if is_object j then with_fields (workspaceMeta w @ extra) j else j)"

definition scopeSession :: "gateway_workspace \<Rightarrow> json \<Rightarrow> json" where
  "scopeSession w s = scope_item w
     [(''id'', scopeValue (gw_id w) ''session-id'' False (js_get s ''id'')),
      (''sessionKey'', scopeValue (gw_id w) ''session'' True (coalesce (js_get s ''sessionKey'') (js_get s ''path''))),
      (''parentSessionKey'', scopeValue (gw_id w) ''session'' True (coalesce (js_get s ''parentSessionKey'') (js_get s ''parentSession''))),
      (''runnerId'', scopeValue (gw_id w) ''runner'' False (js_get s ''runnerId''))] s"

definition scopeRunner :: "gateway_workspace \<Rightarrow> json \<Rightarrow> json" where
  "scopeRunner w r = scope_item w
     [(''id'', scopeValue (gw_id w) ''runner'' False (js_get r ''id'')),
      (''sessionId'', scopeValue (gw_id w) ''session-id'' False (js_get r ''sessionId'')),
      (''sessionKey'', scopeValue (gw_id w) ''session'' True (coalesce (js_get r ''sessionKey'') (js_get r ''sessionFile'')))] r"

definition scopeRoutine :: "gateway_workspace \<Rightarrow> json \<Rightarrow> json" where
  "scopeRoutine w r = scope_item w [(''sessionId'', scopeValue (gw_id w) ''session-id'' False (js_get r ''sessionId''))] r"

definition scopeHublot :: "gateway_workspace \<Rightarrow> json \<Rightarrow> json" where
  "scopeHublot w h = scope_item w
     [(''id'', scopeValue (gw_id w) ''hublot'' False (js_get h ''id'')),
      (''sessionId'', scopeValue (gw_id w) ''session-id'' False (js_get h ''sessionId''))] h"

definition scopePinnedWidgetGroup :: "gateway_workspace \<Rightarrow> json \<Rightarrow> json" where
  "scopePinnedWidgetGroup w g = scope_item w
     [(''id'', scopeValue (gw_id w) ''pinned-widget-group'' False (js_get g ''id'')),
      (''sessionId'', scopeValue (gw_id w) ''session-id'' False (js_get g ''sessionId''))] g"

definition scopePinnedWidget :: "gateway_workspace \<Rightarrow> json \<Rightarrow> json" where
  "scopePinnedWidget w p = scope_item w
     [(''id'', scopeValue (gw_id w) ''pinned-widget'' False (js_get p ''id'')),
      (''groupId'', scopeValue (gw_id w) ''pinned-widget-group'' False (js_get p ''groupId'')),
      (''hublotId'', scopeValue (gw_id w) ''hublot'' False (js_get p ''hublotId'')),
      (''sessionId'', scopeValue (gw_id w) ''session-id'' False (js_get p ''sessionId''))] p"

definition scopeSearchHit :: "gateway_workspace \<Rightarrow> json \<Rightarrow> json" where
  "scopeSearchHit w h = scope_item w
     [(''sessionId'', scopeValue (gw_id w) ''session-id'' False (js_get h ''sessionId'')),
      (''sessionKey'', scopeValue (gw_id w) ''session'' True (coalesce (js_get h ''sessionKey'') (js_get h ''sessionPath'')))] h"

section \<open>The event stream\<close>

definition field_if :: "bool \<Rightarrow> string \<Rightarrow> json \<Rightarrow> (string \<times> json) list" where
  "field_if b k v = (if b then [(k, v)] else [])"

definition the_field :: "json \<Rightarrow> string \<Rightarrow> json" where
  "the_field j k = (case js_get j k of Some v \<Rightarrow> v | None \<Rightarrow> JNull)"

definition array_of :: "json option \<Rightarrow> json list option" where
  "array_of v = (case v of Some (JArr xs) \<Rightarrow> Some xs | _ \<Rightarrow> None)"

definition scope_data :: "gateway_workspace \<Rightarrow> json \<Rightarrow> json" where
  "scope_data w d = with_fields
     (field_if (truthy_json (js_get d ''sessionId'')) ''sessionId'' (scopeValue (gw_id w) ''session-id'' False (js_get d ''sessionId''))
      @ field_if (truthy_json (js_get d ''sessionKey'') \<or> truthy_json (js_get d ''sessionFile'')) ''sessionKey''
          (scopeValue (gw_id w) ''session'' True (coalesce (js_get d ''sessionKey'') (js_get d ''sessionFile'')))) d"

definition scopeEvent :: "gateway_workspace \<Rightarrow> json \<Rightarrow> json list \<Rightarrow> json" where
  "scopeEvent w m otherRunners =
     (if \<not> is_object m then m
      else with_fields
        (field_if (is_object (the_field m ''data'')) ''data'' (scope_data w (the_field m ''data''))
         @ field_if (\<exists>r \<in> set_option (js_get m ''runner''). case r of JStr _ \<Rightarrow> True | _ \<Rightarrow> False) ''runner''
             (scopeValue (gw_id w) ''runner'' False (js_get m ''runner''))
         @ field_if (truthy_json (js_get m ''sessionId'')) ''sessionId'' (scopeValue (gw_id w) ''session-id'' False (js_get m ''sessionId''))
         @ field_if (truthy_json (js_get m ''routine'')) ''routine'' (scopeRoutine w (the_field m ''routine''))
         @ field_if (truthy_json (js_get m ''tunnel'')) ''tunnel'' (scopeHublot w (the_field m ''tunnel''))
         @ field_if (truthy_json (js_get m ''widget'')) ''widget'' (scopePinnedWidget w (the_field m ''widget''))
         @ field_if (truthy_json (js_get m ''widgetId'')) ''widgetId'' (scopeValue (gw_id w) ''pinned-widget'' False (js_get m ''widgetId''))
         @ field_if (truthy_json (js_get m ''group'')) ''group'' (scopePinnedWidgetGroup w (the_field m ''group''))
         @ field_if (truthy_json (js_get m ''groupId'')) ''groupId'' (scopeValue (gw_id w) ''pinned-widget-group'' False (js_get m ''groupId''))
         @ (case array_of (js_get m ''runners'') of
              Some rs \<Rightarrow> [(''runners'', JArr ((if truthy_json (js_get m ''partial'') then [] else otherRunners) @ map (scopeRunner w) rs))]
            | None \<Rightarrow> [])) m)"

text \<open>\<^verbatim>\<open>createSseScopeTransform\<close>.\<close>

record sse_scope =
  se_pending :: string
  se_other :: "json list"
  se_active :: "json list"
  se_finished :: bool

definition new_sse_scope :: sse_scope where
  "new_sse_scope = \<lparr>se_pending = [], se_other = [], se_active = [], se_finished = False\<rparr>"

text \<open>The runners by id, the later ones in the places of the earlier; \<^term>\<open>None\<close> where \<^verbatim>\<open>null\<close> has no \<^verbatim>\<open>id\<close>.\<close>

definition merge_runners :: "json list \<Rightarrow> json list \<Rightarrow> json list option" where
  "merge_runners active scoped =
     (if JNull \<in> set (active @ scoped) then None
      else Some (jsmap_values (fold (\<lambda>r. jsmap_set (js_get r ''id'') r) (active @ scoped) [])))"

definition note_runners :: "gateway_workspace \<Rightarrow> json \<Rightarrow> sse_scope \<Rightarrow> sse_scope option" where
  "note_runners w m s =
     (case array_of (js_get m ''runners'') of
        None \<Rightarrow> Some s
      | Some rs \<Rightarrow>
          if truthy_json (js_get m ''partial'')
          then map_option (\<lambda>a. s\<lparr>se_active := a\<rparr>) (merge_runners (se_active s) (map (scopeRunner w) rs))
          else Some (s\<lparr>se_active := map (scopeRunner w) rs\<rparr>))"

definition data_prefix :: string where "data_prefix = ''data: ''"

definition transformLine :: "gateway_workspace \<Rightarrow> string \<Rightarrow> sse_scope \<Rightarrow> string \<times> sse_scope" where
  "transformLine w line s =
     (if \<not> js_starts_with line data_prefix then (line, s)
      else case json_parse (drop (length data_prefix) line) of
             None \<Rightarrow> (line, s)
           | Some m \<Rightarrow>
               if m = JNull then (line, s)
               else case note_runners w m s of
                      None \<Rightarrow> (line, s)
                    | Some s' \<Rightarrow> (data_prefix @ json_text (scopeEvent w m (se_other s')), s'))"

fun transform_lines :: "gateway_workspace \<Rightarrow> string list \<Rightarrow> sse_scope \<Rightarrow> string list \<times> sse_scope" where
  "transform_lines w [] s = ([], s)"
| "transform_lines w (l # ls) s = (let (t, s') = transformLine w l s; (ts, s'') = transform_lines w ls s' in (t # ts, s''))"

definition sse_chunk :: "gateway_workspace \<Rightarrow> string \<Rightarrow> sse_scope \<Rightarrow> string \<times> sse_scope" where
  "sse_chunk w chunk s =
     (let lines = js_split CHR 0x0A (se_pending s @ chunk);
          (out, s') = transform_lines w (butlast lines) s
      in (js_join [CHR 0x0A] out @ (if butlast lines \<noteq> [] then [CHR 0x0A] else []), s'\<lparr>se_pending := last lines\<rparr>))"

definition sse_flush :: "gateway_workspace \<Rightarrow> sse_scope \<Rightarrow> string \<times> sse_scope" where
  "sse_flush w s =
     (let s1 = s\<lparr>se_finished := True\<rparr> in if se_pending s = [] then ([], s1) else transformLine w (se_pending s) s1)"

definition setOtherRunners :: "json list \<Rightarrow> sse_scope \<Rightarrow> string \<times> sse_scope" where
  "setOtherRunners runners s =
     (let s1 = s\<lparr>se_other := runners\<rparr> in
      if se_active s = [] \<or> se_finished s then ([], s1)
      else (data_prefix @ json_text (JObj [(''type'', JStr ''runners_update''), (''_server'', JBool True), (''runners'', JArr (runners @ se_active s))])
              @ [CHR 0x0A, CHR 0x0A], s1))"

section \<open>Requests\<close>

record hub_request =
  hr_method :: string
  hr_path :: string
  hr_query :: "(string \<times> string) list"
  hr_headers :: "(string, string) jsmap" \<comment> \<open>the names in lower case\<close>
  hr_body :: "nat list"

definition query_get :: "string \<Rightarrow> (string \<times> string) list \<Rightarrow> string option" where
  "query_get name q = map_of q name"

text \<open>\<^verbatim>\<open>URLSearchParams.set\<close> changes the first parameter of the name and removes the others.\<close>

fun query_set :: "string \<Rightarrow> string \<Rightarrow> (string \<times> string) list \<Rightarrow> (string \<times> string) list" where
  "query_set name v [] = [(name, v)]"
| "query_set name v ((n, x) # q) = (if n = name then (n, v) # filter (\<lambda>p. fst p \<noteq> name) q else (n, x) # query_set name v q)"

definition query_delete :: "string \<Rightarrow> (string \<times> string) list \<Rightarrow> (string \<times> string) list" where
  "query_delete name q = filter (\<lambda>p. fst p \<noteq> name) q"

definition requestHasBody :: "hub_request \<Rightarrow> bool" where
  "requestHasBody r =
     (if hr_method r = ''GET'' \<or> hr_method r = ''HEAD'' then False
      else if some_text (jsmap_get (hr_headers r) ''transfer-encoding'') [] \<noteq> [] then True
      else case jsmap_get (hr_headers r) ''content-length'' of
             None \<Rightarrow> False
           | Some t \<Rightarrow> (case js_number (Some (JStr t)) of Some n \<Rightarrow> n > 0 | None \<Rightarrow> False))"

definition json_body_limit :: nat where "json_body_limit = 5 * 1024 * 1024"

text \<open>\<^verbatim>\<open>decodeDeep\<close>: every string of the body that is a scoped value becomes the value, and its workspace is noted.\<close>

definition decode_text :: "string \<Rightarrow> string list \<Rightarrow> string \<times> string list" where
  "decode_text t scopes = (case parseScopedValue t of None \<Rightarrow> (t, scopes) | Some (w, k, v) \<Rightarrow> (v, jsset_add w scopes))"

fun decodeDeep :: "json \<Rightarrow> string list \<Rightarrow> json \<times> string list"
  and decode_items :: "json list \<Rightarrow> string list \<Rightarrow> json list \<times> string list"
  and decode_fields :: "(string \<times> json) list \<Rightarrow> string list \<Rightarrow> (string \<times> json) list \<times> string list" where
  "decodeDeep (JStr t) scopes = (let (v, sc) = decode_text t scopes in (JStr v, sc))"
| "decodeDeep (JArr xs) scopes = (let (vs, sc) = decode_items xs scopes in (JArr vs, sc))"
| "decodeDeep (JObj fs) scopes = (let (vs, sc) = decode_fields fs scopes in (JObj vs, sc))"
| "decodeDeep j scopes = (j, scopes)"
| "decode_items [] scopes = ([], scopes)"
| "decode_items (x # xs) scopes = (let (v, sc) = decodeDeep x scopes; (vs, sc') = decode_items xs sc in (v # vs, sc'))"
| "decode_fields [] scopes = ([], scopes)"
| "decode_fields ((k, x) # fs) scopes = (let (v, sc) = decodeDeep x scopes; (vs, sc') = decode_fields fs sc in ((k, v) # vs, sc'))"

fun decode_query :: "(string \<times> string) list \<Rightarrow> (string \<times> string) list \<Rightarrow> string list \<Rightarrow> (string \<times> string) list \<times> string list" where
  "decode_query [] q scopes = (q, scopes)"
| "decode_query ((n, v) # entries) q scopes =
     (case parseScopedValue v of
        None \<Rightarrow> decode_query entries q scopes
      | Some (w, k, x) \<Rightarrow> decode_query entries (query_set n x q) (jsset_add w scopes))"

record prepared =
  pr_query :: "(string \<times> string) list"
  pr_scopes :: "string list"
  pr_body :: "nat list option"
  pr_streaming :: bool
  pr_transformed :: bool

definition prepareScopedWorkspaceRequest :: "hub_request \<Rightarrow> string + prepared" where
  "prepareScopedWorkspaceRequest r =
     (let (q, scopes) = decode_query (hr_query r) (hr_query r) [] in
      if requestHasBody r \<and> js_includes (js_lower (some_text (jsmap_get (hr_headers r) ''content-type'') [])) ''application/json''
      then (if length (hr_body r) > json_body_limit then Inl ''body_too_large''
            else case Option.bind (utf8_decode (hr_body r)) json_parse of
                   None \<Rightarrow> Inr \<lparr>pr_query = q, pr_scopes = scopes, pr_body = Some (hr_body r), pr_streaming = False, pr_transformed = False\<rparr>
                 | Some j \<Rightarrow>
                     (let (v, sc) = decodeDeep j scopes; body = utf8_encode (json_text v) in
                      Inr \<lparr>pr_query = q, pr_scopes = sc, pr_body = Some body, pr_streaming = False, pr_transformed = (body \<noteq> hr_body r)\<rparr>))
      else Inr \<lparr>pr_query = q, pr_scopes = scopes, pr_body = (if requestHasBody r then Some (hr_body r) else None),
             pr_streaming = requestHasBody r, pr_transformed = False\<rparr>)"

definition hop_by_hop :: "string list" where
  "hop_by_hop = [''connection'', ''keep-alive'', ''proxy-authenticate'', ''proxy-authorization'', ''te'', ''trailer'', ''transfer-encoding'', ''upgrade'', ''host'']"

definition credential_headers :: "string list" where
  "credential_headers = [''authorization'', ''x-api-key'', ''x-auth-token'', ''x-oyster-workspace'', ''cookie'']"

definition workspaceRequestHeaders :: "hub_request \<Rightarrow> gateway_workspace \<Rightarrow> bool \<Rightarrow> (string, string) jsmap" where
  "workspaceRequestHeaders r w bodyTransformed =
     (let kept = filter (\<lambda>(n, v). js_lower n \<notin> set hop_by_hop \<and> js_lower n \<notin> set credential_headers
             \<and> \<not> (bodyTransformed \<and> js_lower n = ''content-length'')) (hr_headers r);
          headers = fold (\<lambda>(n, v). jsmap_set (js_lower n) v) kept []
      in case gw_token w of
           Some (c # cs) \<Rightarrow> jsmap_set ''authorization'' (''Bearer '' @ c # cs) headers
         | _ \<Rightarrow> headers)"

definition publicWorkspaceHeaders :: "(string, string) jsmap \<Rightarrow> (string, string) jsmap" where
  "publicWorkspaceHeaders hs =
     fold (\<lambda>(n, v). jsmap_set n v) (filter (\<lambda>(n, v). js_lower n \<notin> set hop_by_hop \<and> js_lower n \<noteq> ''set-cookie'') hs) []"

section \<open>Uploads at once\<close>

text \<open>\<^verbatim>\<open>createUploadLimiter\<close>: the flags \<^verbatim>\<open>released\<close> of the functions it handed out.\<close>

record upload_limiter =
  ul_active :: int
  ul_released :: "bool list"

definition tryAcquire :: "int \<Rightarrow> upload_limiter \<Rightarrow> nat option \<times> upload_limiter" where
  "tryAcquire maxConcurrent s =
     (if ul_active s \<ge> maxConcurrent then (None, s)
      else (Some (length (ul_released s)), s\<lparr>ul_active := ul_active s + 1, ul_released := ul_released s @ [False]\<rparr>))"

definition release_upload :: "nat \<Rightarrow> upload_limiter \<Rightarrow> upload_limiter" where
  "release_upload i s =
     (if i < length (ul_released s) \<and> \<not> ul_released s ! i
      then s\<lparr>ul_active := ul_active s - 1, ul_released := (ul_released s)[i := True]\<rparr> else s)"

section \<open>Where a request goes\<close>

record forwarded =
  fw_workspace :: gateway_workspace
  fw_method :: string
  fw_url :: string
  fw_query :: "(string \<times> string) list"
  fw_headers :: "(string, string) jsmap"
  fw_body :: "nat list option"
  fw_streaming :: bool

datatype gateway_answer = Refused nat string | Forward forwarded

definition workspace_of :: "gateway_workspace list \<Rightarrow> string \<Rightarrow> gateway_workspace option" where
  "workspace_of ws i = find (\<lambda>w. gw_id w = i) ws"

text \<open>\<^verbatim>\<open>proxy\<close> up to the request it makes.\<close>

definition requested_workspace :: "hub_request \<Rightarrow> string list \<Rightarrow> string" where
  "requested_workspace r scopes =
     some_text (case scopes of i # _ \<Rightarrow> Some i | [] \<Rightarrow> None)
       (case jsmap_get (hr_headers r) ''x-oyster-workspace'' of
          Some v \<Rightarrow> v
        | None \<Rightarrow> (case query_get ''workspace'' (hr_query r) of Some v \<Rightarrow> v | None \<Rightarrow> []))"

definition forward_to :: "hub_request \<Rightarrow> prepared \<Rightarrow> gateway_workspace \<Rightarrow> forwarded" where
  "forward_to r p w =
     \<lparr>fw_workspace = w, fw_method = hr_method r, fw_url = gw_url w @ ''/'' @ dropWhile (\<lambda>c. c = CHR ''/'') (hr_path r),
       fw_query = query_delete ''token'' (query_delete ''workspace'' (pr_query p)),
       fw_headers = workspaceRequestHeaders r w (pr_transformed p), fw_body = pr_body p, fw_streaming = pr_streaming p\<rparr>"

definition gateway_proxy :: "gateway_workspace list \<Rightarrow> hub_request \<Rightarrow> gateway_answer" where
  "gateway_proxy discovered r =
     (case prepareScopedWorkspaceRequest r of
        Inl e \<Rightarrow> Refused 413 e
      | Inr p \<Rightarrow>
          if length (pr_scopes p) > 1 then Refused 400 ''request contains identities from multiple workspaces''
          else if requested_workspace r (pr_scopes p) = [] then Refused 400 ''workspace is required''
          else case workspace_of discovered (requested_workspace r (pr_scopes p)) of
                 None \<Rightarrow> Refused 404 ''workspace not found''
               | Some w \<Rightarrow> Forward (forward_to r p w))"

text \<open>The token of the hub; the candidate of the query counts only where the caller passes the URL.\<close>

definition hub_cookie :: "hub_request \<Rightarrow> string option" where
  "hub_cookie r =
     Option.bind (find (\<lambda>p. js_starts_with p ''oyster_token='') (map js_trim (js_split CHR '';'' (some_text (jsmap_get (hr_headers r) ''cookie'') []))))
       (\<lambda>p. decodeURIComponent (drop 13 p))"

definition hub_token_matches :: "string \<Rightarrow> string option \<Rightarrow> bool" where
  "hub_token_matches expected c = (case c of Some (x # xs) \<Rightarrow> utf8_encode expected = utf8_encode (js_trim (x # xs)) | _ \<Rightarrow> False)"

definition hub_candidates :: "hub_request \<Rightarrow> bool \<Rightarrow> string option list" where
  "hub_candidates r with_url =
     [map_option (\<lambda>b. if js_starts_with b ''Bearer '' then drop 7 b else b) (jsmap_get (hr_headers r) ''authorization''),
      jsmap_get (hr_headers r) ''x-api-key'', jsmap_get (hr_headers r) ''x-auth-token'',
      (if with_url then query_get ''token'' (hr_query r) else None), hub_cookie r]"

definition hub_authorized :: "string \<Rightarrow> hub_request \<Rightarrow> bool \<Rightarrow> bool" where
  "hub_authorized expected r with_url = list_ex (hub_token_matches expected) (hub_candidates r with_url)"

text \<open>\<^verbatim>\<open>handle\<close>: what the gateway does with a request.\<close>

datatype route_kind = Runtime_Config | Auth_Check bool | Manifest | Document | Asset | To_Api | Unauthorized | No_Workspaces
  | Aggregate string | Aggregate_Search | To_Workspace

definition route_word :: "string \<Rightarrow> bool" where
  "route_word t \<longleftrightarrow> t \<noteq> [] \<and> (\<forall>c \<in> set t. b64_alphabet c \<or> c = CHR ''.'')"

definition document_route :: "string \<Rightarrow> bool" where
  "document_route path \<longleftrightarrow> path = ''/'' \<or> path = ''/index.html''
     \<or> (case js_split CHR ''/'' path of
          [e, s, a] \<Rightarrow> e = [] \<and> s = ''s'' \<and> route_word a
        | [e, s, a, m, b] \<Rightarrow> e = [] \<and> s = ''s'' \<and> route_word a \<and> m = ''m'' \<and> route_word b
        | _ \<Rightarrow> False)"

definition gateway_route :: "string \<Rightarrow> (string \<Rightarrow> bool) \<Rightarrow> gateway_workspace list \<Rightarrow> hub_request \<Rightarrow> route_kind" where
  "gateway_route token asset discovered r =
     (let get = (hr_method r = ''GET''); path = hr_path r in
      if get \<and> path = ''/runtime-config.js'' then Runtime_Config
      else if get \<and> path = ''/authcheck'' then Auth_Check (hub_authorized token r True)
      else if get \<and> path = ''/manifest.webmanifest'' then Manifest
      else if get \<and> document_route path then Document
      else if get \<and> asset path then Asset
      else if js_starts_with path ''/api/v1'' \<or> path = ''/health'' then To_Api
      else if \<not> hub_authorized token r True then Unauthorized
      else if discovered = [] then No_Workspaces
      else if get \<and> path = ''/runners'' then Aggregate ''runners''
      else if get \<and> path = ''/sessions'' then Aggregate ''sessions''
      else if get \<and> path = ''/tunnels'' \<and> query_get ''all'' (hr_query r) = Some ''1'' then Aggregate ''tunnels''
      else if get \<and> path = ''/search'' \<and> (case query_get ''scope'' (hr_query r) of Some v \<Rightarrow> v = ''all'' | None \<Rightarrow> True) then Aggregate_Search
      else To_Workspace)"

section \<open>What comes back\<close>

definition item_scope :: "string \<Rightarrow> gateway_workspace \<Rightarrow> json \<Rightarrow> json" where
  "item_scope key = (if key = ''runners'' then scopeRunner else if key = ''sessions'' then scopeSession else scopeHublot)"

text \<open>
  \<^verbatim>\<open>aggregate\<close> over the answers of the workspaces, an error or a value each; \<^term>\<open>None\<close> where one has something else
  than an array, which has no \<^verbatim>\<open>map\<close>.
\<close>

definition listed_items :: "string \<Rightarrow> json \<Rightarrow> json list option" where
  "listed_items key v = (case coalesce (js_get v key) None of None \<Rightarrow> Some [] | Some x \<Rightarrow> array_of (Some x))"

fun collect_items :: "string \<Rightarrow> (gateway_workspace \<Rightarrow> json \<Rightarrow> json) \<Rightarrow> (gateway_workspace \<times> (string + json)) list \<Rightarrow> json list option" where
  "collect_items key f [] = Some []"
| "collect_items key f ((w, Inl e) # results) = collect_items key f results"
| "collect_items key f ((w, Inr v) # results) =
     (case listed_items key v of
        None \<Rightarrow> None
      | Some xs \<Rightarrow> map_option ((@) (map (f w) xs)) (collect_items key f results))"

definition workspace_errors :: "(gateway_workspace \<times> (string + json)) list \<Rightarrow> (string \<times> json) list" where
  "workspace_errors results =
     (let errors = fold (\<lambda>(w, r) m. case r of Inl e \<Rightarrow> jsmap_set (gw_id w) (JStr e) m | Inr _ \<Rightarrow> m) results []
      in if errors \<noteq> [] then [(''workspaceErrors'', JObj errors)] else [])"

definition aggregate :: "string \<Rightarrow> (gateway_workspace \<times> (string + json)) list \<Rightarrow> json option" where
  "aggregate key results =
     map_option (\<lambda>values. JObj ((key, JArr values) # workspace_errors results)) (collect_items key (item_scope key) results)"

text \<open>\<^verbatim>\<open>aggregateSearch\<close>; a count that is no number makes the sum \<^verbatim>\<open>NaN\<close>, which is printed as \<^verbatim>\<open>null\<close>.\<close>

definition searched_files :: "json \<Rightarrow> int option" where
  "searched_files v = (case coalesce (js_get v ''filesSearched'') None of None \<Rightarrow> Some 0 | Some x \<Rightarrow> js_number (Some x))"

definition add_count :: "int option \<Rightarrow> int option \<Rightarrow> int option" where
  "add_count a b = Option.bind a (\<lambda>m. map_option ((+) m) b)"

definition aggregateSearch :: "hub_request \<Rightarrow> (gateway_workspace \<times> (string + json)) list \<Rightarrow> json option" where
  "aggregateSearch r results =
     map_option (\<lambda>hits.
       (let files = fold (\<lambda>(w, x) n. case x of Inl _ \<Rightarrow> n | Inr v \<Rightarrow> add_count n (searched_files v)) results (Some 0);
            truncated = list_ex (\<lambda>(w, x). case x of Inl _ \<Rightarrow> False | Inr v \<Rightarrow> truthy_json (js_get v ''truncated'')) results
        in JObj ([(''q'', JStr (case query_get ''q'' (hr_query r) of Some q \<Rightarrow> q | None \<Rightarrow> [])),
             (''scope'', JStr (case query_get ''scope'' (hr_query r) of Some q \<Rightarrow> q | None \<Rightarrow> ''all'')), (''results'', JArr hits),
             (''filesSearched'', (case files of Some n \<Rightarrow> JNum n | None \<Rightarrow> JNull)), (''truncated'', JBool truncated)] @ workspace_errors results)))
     (collect_items ''results'' scopeSearchHit results)"

definition scoped_list :: "string \<Rightarrow> (json \<Rightarrow> json) \<Rightarrow> json \<Rightarrow> (string \<times> json) list" where
  "scoped_list key f v = (case array_of (js_get v key) of Some xs \<Rightarrow> [(key, JArr (map f xs))] | None \<Rightarrow> [])"

definition scoped_field :: "string \<Rightarrow> (json \<Rightarrow> json) \<Rightarrow> json \<Rightarrow> (string \<times> json) list" where
  "scoped_field key f v = field_if (truthy_json (js_get v key)) key (f (the_field v key))"

definition scope_answer :: "string \<Rightarrow> gateway_workspace \<Rightarrow> json \<Rightarrow> json" where
  "scope_answer path w v =
     (if path = ''/open-session'' \<and> truthy_json (js_get v ''runner'') then with_fields (scoped_field ''runner'' (scopeRunner w) v) v
      else if path = ''/session-by-id'' \<and> truthy_json (js_get v ''session'') then with_fields (scoped_field ''session'' (scopeSession w) v) v
      else if path = ''/runners'' \<and> array_of (js_get v ''runners'') \<noteq> None then with_fields (scoped_list ''runners'' (scopeRunner w) v) v
      else if path = ''/sessions'' \<and> array_of (js_get v ''sessions'') \<noteq> None then with_fields (scoped_list ''sessions'' (scopeSession w) v) v
      else if path = ''/routines'' then with_fields (scoped_list ''routines'' (scopeRoutine w) v @ scoped_field ''routine'' (scopeRoutine w) v) v
      else if path = ''/tunnels'' then with_fields (scoped_list ''tunnels'' (scopeHublot w) v @ scoped_field ''tunnel'' (scopeHublot w) v) v
      else if path \<in> {''/pinned-widgets'', ''/pinned-widget-groups''} then with_fields
        (scoped_list ''widgets'' (scopePinnedWidget w) v @ scoped_list ''groups'' (scopePinnedWidgetGroup w) v
         @ scoped_field ''widget'' (scopePinnedWidget w) v @ scoped_field ''group'' (scopePinnedWidgetGroup w) v
         @ scoped_field ''unpinned'' (\<lambda>x. scopeValue (gw_id w) ''pinned-widget'' False (Some x)) v
         @ scoped_field ''deleted'' (\<lambda>x. scopeValue (gw_id w) ''pinned-widget-group'' False (Some x)) v) v
      else v)"

definition transformJson :: "hub_request \<Rightarrow> gateway_workspace \<Rightarrow> bool \<Rightarrow> json \<Rightarrow> json" where
  "transformJson r w ok v =
     (let scoped = scope_answer (hr_path r) w v;
          label = (if gw_name w \<noteq> [] \<and> gw_name w \<noteq> gw_id w
             then ''workspace '' @ [CHR 0x22] @ gw_name w @ [CHR 0x22] @ '' ('' @ gw_id w @ '')'' else ''workspace '' @ gw_id w) in
      case js_get scoped ''error'' of
        Some (JStr e) \<Rightarrow> if ok then scoped
          else with_fields [(''error'', JStr (hr_method r @ '' '' @ hr_path r @ '' on '' @ label @ '': '' @ e))] scoped
      | _ \<Rightarrow> scoped)"

text \<open>A request that the gateway proxies, with the start of \<^verbatim>\<open>proxyWorkspaceRequest\<close>.\<close>

definition begin_transfer :: "int \<Rightarrow> forwarded \<Rightarrow> upload_limiter \<Rightarrow> gateway_answer \<times> upload_limiter" where
  "begin_transfer maxConcurrent f s =
     (if \<not> fw_streaming f then (Forward f, s)
      else case tryAcquire maxConcurrent s of
             (None, s') \<Rightarrow> (Refused 429 ''too many concurrent workspace uploads'', s')
           | (Some _, s') \<Rightarrow> (Forward f, s'))"

definition gateway_handle :: "string \<Rightarrow> (string \<Rightarrow> bool) \<Rightarrow> gateway_workspace list \<Rightarrow> hub_request \<Rightarrow> gateway_answer option" where
  "gateway_handle token asset discovered r =
     (case gateway_route token asset discovered r of
        Unauthorized \<Rightarrow> Some (Refused 401 ''unauthorized'')
      | No_Workspaces \<Rightarrow> Some (Refused 503 ''no workspaces available'')
      | To_Workspace \<Rightarrow> Some (gateway_proxy discovered r)
      | _ \<Rightarrow> None)"

end
