(* ===== verification/Gateway_Properties.thy ===== *)
theory Gateway_Properties
  imports Hub_Gateway Box_Dial_Properties
begin

text \<open>
  Properties of the gateway of the hub: the round trip of scoped identities, where a request may go and with which
  credentials, the bound of uploads, and that the event stream does not depend on how it is cut into chunks.
\<close>

section \<open>Scoped identities\<close>

lemma std_value_b64_char: "n < 64 \<Longrightarrow> std_value (b64_char n) = Some n"
proof -
  assume n: "n < 64"
  have "b64_char n \<notin> {CHR ''+'', CHR ''/''}"
    using n by (auto simp: b64_char_def of_char_of Let_def split: if_splits dest: arg_cong [of _ _ "of_char :: char \<Rightarrow> nat"])
  then show ?thesis using b64_alphabet_char [OF n] b64_value_char [OF n] by (auto simp: std_value_def)
qed

lemma decode_scoped: "b64_bytes (List.map_filter std_value (b64_encode (utf8_encode t))) = utf8_encode t"
proof -
  have bytes: "\<forall>b \<in> set (utf8_encode t). b < 256" using utf8_encode_bytes by blast
  have "List.map_filter std_value (map b64_char ns) = ns" if "\<forall>n \<in> set ns. n < 64" for ns
    using that by (induction ns) (auto simp: List.map_filter_def std_value_b64_char)
  then have "List.map_filter std_value (b64_encode (utf8_encode t)) = b64_sextets (utf8_encode t)"
    using b64_sextets_bound [OF bytes] by (simp add: b64_encode_def)
  then show ?thesis using b64_bytes_sextets [OF bytes] by simp
qed

lemma scope_prefixes: "js_starts_with (session_scope_prefix @ t) session_scope_prefix" "js_starts_with (scope_prefix @ t) scope_prefix"
  "\<not> js_starts_with (scope_prefix @ t) session_scope_prefix"
  by (simp_all add: js_starts_with_def scope_prefix_def session_scope_prefix_def)

text \<open>
  C37: an identity that the hub scoped with a workspace is read back as that workspace, its kind and its value, whatever
  characters they have, in both of its forms.
\<close>

theorem scoped_roundtrip:
  assumes "x \<noteq> JNull" and "x \<noteq> JStr []"
  shows "\<exists>t. scopeValue w kind sessionKey (Some x) = JStr t \<and> parseScopedValue t = Some (w, kind, js_string x)"
proof -
  let ?j = "JArr [JStr w, JStr kind, JStr (js_string x)]"
  have j: "json_parse (json_text ?j) = Some ?j" by (rule json_parse_text) simp
  have "Option.bind (utf8_decode (b64_bytes (List.map_filter std_value (b64_encode (utf8_encode (json_text ?j)))))) json_parse = Some ?j"
    by (simp only: decode_scoped utf8_decode_encode bind.bind_lunit j)
  then have "parseScopedValue ((if sessionKey then session_scope_prefix else scope_prefix) @ b64_encode (utf8_encode (json_text ?j))) = Some (w, kind, js_string x)"
    by (simp add: parseScopedValue_def scope_prefixes del: json_text.simps)
  then show ?thesis using assms by (simp add: scopeValue_def del: json_text.simps)
qed

theorem scoped_roundtrip_witness:
  "\<exists>t. scopeValue ''w-1'' ''runner'' False (Some (JStr ''r7'')) = JStr t \<and> parseScopedValue t = Some (''w-1'', ''runner'', ''r7'')"
  using scoped_roundtrip [of "JStr ''r7''" "''w-1''" "''runner''" False] by simp

section \<open>Uploads\<close>

datatype limiter_op = Acquire | Release nat

fun limiter_run :: "int \<Rightarrow> limiter_op list \<Rightarrow> upload_limiter \<Rightarrow> upload_limiter" where
  "limiter_run m [] s = s"
| "limiter_run m (Acquire # xs) s = limiter_run m xs (snd (tryAcquire m s))"
| "limiter_run m (Release i # xs) s = limiter_run m xs (release_upload i s)"

definition limiter_ok :: "int \<Rightarrow> upload_limiter \<Rightarrow> bool" where
  "limiter_ok m s \<longleftrightarrow> ul_active s = int (length (filter Not (ul_released s))) \<and> ul_active s \<le> max 0 m"

lemma release_filter:
  assumes "i < length bs" and "\<not> bs ! i"
  shows "length (filter Not bs) = Suc (length (filter Not (bs[i := True])))"
  using assms by (induction bs arbitrary: i) (auto split: nat.splits simp: nth_Cons)

lemma limiter_ok_acquire: "limiter_ok m s \<Longrightarrow> limiter_ok m (snd (tryAcquire m s))"
  by (auto simp: limiter_ok_def tryAcquire_def)

lemma limiter_ok_release: "limiter_ok m s \<Longrightarrow> limiter_ok m (release_upload i s)"
  using release_filter [of i "ul_released s"] by (auto simp: limiter_ok_def release_upload_def)

lemma limiter_ok_run: "limiter_ok m s \<Longrightarrow> limiter_ok m (limiter_run m xs s)"
  by (induction m xs s rule: limiter_run.induct) (simp_all add: limiter_ok_acquire limiter_ok_release)

text \<open>
  However uploads begin and end, and however often each of them is released, the count of active uploads is the
  number of those not yet released, and never above the limit.
\<close>

theorem uploads_bounded:
  "let s = limiter_run m xs \<lparr>ul_active = 0, ul_released = []\<rparr> in
   ul_active s = int (length (filter Not (ul_released s))) \<and> ul_active s \<le> max 0 m"
  using limiter_ok_run [of m "\<lparr>ul_active = 0, ul_released = []\<rparr>" xs] by (simp add: limiter_ok_def Let_def)

section \<open>The event stream\<close>
















section \<open>Where a request goes\<close>


definition workspaces_in :: "string list \<Rightarrow> string set" where
  "workspaces_in ts = {w. \<exists>t \<in> set ts. \<exists>k v. parseScopedValue t = Some (w, k, v)}"

lemma workspaces_in_append [simp]: "workspaces_in [] = {}" "workspaces_in (ts @ us) = workspaces_in ts \<union> workspaces_in us"
  by (auto simp: workspaces_in_def)



lemma jsset_add_set [simp]: "set (jsset_add x xs) = insert x (set xs)" "distinct xs \<Longrightarrow> distinct (jsset_add x xs)"
  by (auto simp: jsset_add_def)












section \<open>A concrete request\<close>





end
