(* ===== verification/Checkpoints.thy ===== *)
theory Checkpoints
  imports Pinned_Widgets
begin

text \<open>
  \<^verbatim>\<open>server/checkpoints.mjs\<close>: the family tree of the checkpoints of a session, and the commit of a checkpoint.  The
  catalogue of sessions, the repository of checkpoints, the collation of texts, git and the agent that summarizes a diff
  are parameters.
\<close>

section \<open>The tree\<close>

record checkpoint =
  cp_hash :: string
  cp_anchor :: string
  cp_message :: "string option"
  cp_timestamp :: "string option"

record session_info =
  si_id :: string
  si_parent :: "string option"
  si_created :: "string option"
  si_forked :: "string option"

datatype checkpoint_tree = Node (node_info: session_info) (node_forked: "string option") (node_checkpoints: "checkpoint list")
  (node_children: "checkpoint_tree list")

definition max_descendant_depth :: nat where "max_descendant_depth = 25"

text \<open>\<^verbatim>\<open>byId\<close>: of two sessions with an id the later one.\<close>

definition by_id :: "session_info list \<Rightarrow> (string, session_info) jsmap" where
  "by_id infos = fold (\<lambda>i. jsmap_set (si_id i) i) infos []"

definition parent_in :: "(string, session_info) jsmap \<Rightarrow> session_info \<Rightarrow> session_info option" where
  "parent_in m i = (case si_parent i of Some (c # cs) \<Rightarrow> jsmap_get m (c # cs) | _ \<Rightarrow> None)"

text \<open>The loop to the root: it ends at a session without a known parent, or at the first it meets again.\<close>

definition unseen :: "(string, session_info) jsmap \<Rightarrow> string set \<Rightarrow> nat" where
  "unseen m seen = card (si_id ` set (jsmap_values m) - seen)"

lemma parent_in_values: "parent_in m i = Some p \<Longrightarrow> p \<in> set (jsmap_values m)"
  by (force simp: parent_in_def dest: map_of_SomeD split: option.splits list.splits)

function family_root :: "(string, session_info) jsmap \<Rightarrow> string list \<Rightarrow> session_info \<Rightarrow> session_info" where
  "family_root m seen root =
     (case parent_in m root of
        None \<Rightarrow> root
      | Some p \<Rightarrow> if si_id root \<in> set seen then root else family_root m (jsset_add (si_id root) seen) p)"
  by pat_completeness auto

definition root_measure :: "(string, session_info) jsmap \<times> string list \<times> session_info \<Rightarrow> nat" where
  "root_measure = (\<lambda>(m, seen, root). 2 * unseen m (set seen) + (if si_id root \<in> si_id ` set (jsmap_values m) then 0 else 1))"

lemma root_measure_less:
  assumes p: "parent_in m root = Some p" and new: "si_id root \<notin> set seen"
  shows "root_measure (m, jsset_add (si_id root) seen, p) < root_measure (m, seen, root)"
proof -
  let ?V = "si_id ` set (jsmap_values m)"
  have known: "si_id p \<in> ?V" using parent_in_values [OF p] by blast
  have added: "set (jsset_add (si_id root) seen) = insert (si_id root) (set seen)" by (auto simp: jsset_add_def)
  show ?thesis
  proof (cases "si_id root \<in> ?V")
    case True
    then have "card (?V - insert (si_id root) (set seen)) < card (?V - set seen)" using new by (intro psubset_card_mono) auto
    then show ?thesis using True known by (simp add: root_measure_def unseen_def added)
  next
    case False
    then have "?V - insert (si_id root) (set seen) = ?V - set seen" by auto
    then show ?thesis using False known by (simp add: root_measure_def unseen_def added)
  qed
qed

termination family_root
  by (relation "measure root_measure") (auto intro: root_measure_less)

declare family_root.simps [simp del]

text \<open>The children of a session in the order of a comparison of its time and id.\<close>

fun insert_by :: "('a \<Rightarrow> 'a \<Rightarrow> bool) \<Rightarrow> 'a \<Rightarrow> 'a list \<Rightarrow> 'a list" where
  "insert_by before x [] = [x]"
| "insert_by before x (y # ys) = (if before x y then x # y # ys else y # insert_by before x ys)"

definition sort_by :: "('a \<Rightarrow> 'a \<Rightarrow> bool) \<Rightarrow> 'a list \<Rightarrow> 'a list" where
  "sort_by before xs = foldl (\<lambda>ys x. insert_by before x ys) [] xs"

definition earlier :: "(string \<Rightarrow> string \<Rightarrow> int) \<Rightarrow> session_info \<Rightarrow> session_info \<Rightarrow> bool" where
  "earlier collate a b =
     (let text = (\<lambda>v. case v of Some t \<Rightarrow> t | None \<Rightarrow> []); c = collate (text (si_created a)) (text (si_created b)) in
      if c \<noteq> 0 then c < 0 else collate (si_id a) (si_id b) < 0)"

definition children_of :: "(string \<Rightarrow> string \<Rightarrow> int) \<Rightarrow> session_info list \<Rightarrow> session_info \<Rightarrow> session_info list" where
  "children_of collate infos i =
     sort_by (earlier collate) (filter (\<lambda>c. (case si_parent c of Some (x # xs) \<Rightarrow> Some (x # xs) | _ \<Rightarrow> None) = Some (si_id i)) infos)"

definition checkpoint_key :: "checkpoint \<Rightarrow> string" where
  "checkpoint_key c = cp_hash c @ ''@'' @ cp_anchor c"

fun text_greater :: "string \<Rightarrow> string \<Rightarrow> bool" where
  "text_greater [] t = False"
| "text_greater (c # cs) [] = True"
| "text_greater (c # cs) (d # ds) = (if c = d then text_greater cs ds else (of_char c :: nat) > of_char d)"

definition latest :: "checkpoint list \<Rightarrow> checkpoint option" where
  "latest cs =
     (let time = (\<lambda>c. case cp_timestamp c of Some t \<Rightarrow> t | None \<Rightarrow> []) in
      case cs of [] \<Rightarrow> None | c # rest \<Rightarrow> Some (foldl (\<lambda>a b. if text_greater (time a) (time b) then a else b) c rest))"

definition forked_at :: "session_info \<Rightarrow> checkpoint list \<Rightarrow> string option" where
  "forked_at i inherited = (case si_forked i of Some h \<Rightarrow> Some h | None \<Rightarrow> map_option cp_hash (latest inherited))"

text \<open>
  \<^verbatim>\<open>build\<close>; its first argument counts down from one more than the greatest depth.  \<open>cps\<close> are the checkpoints of the
  repository by session, \<open>kids\<close> the children.
\<close>

definition tree_node :: "(string \<Rightarrow> checkpoint list) \<Rightarrow> string set \<Rightarrow> session_info \<Rightarrow> checkpoint_tree list \<Rightarrow> checkpoint_tree" where
  "tree_node cps shownAbove i children =
     Node i (forked_at i (filter (\<lambda>c. checkpoint_key c \<in> shownAbove) (cps (si_id i))))
       (filter (\<lambda>c. checkpoint_key c \<notin> shownAbove) (cps (si_id i))) children"

fun build_tree ::
  "nat \<Rightarrow> (string \<Rightarrow> checkpoint list) \<Rightarrow> (session_info \<Rightarrow> session_info list) \<Rightarrow> string set \<Rightarrow> string set \<Rightarrow> session_info \<Rightarrow> checkpoint_tree" where
  "build_tree 0 cps kids shownAbove lineage i = tree_node cps shownAbove i []"
| "build_tree (Suc n) cps kids shownAbove lineage i =
     tree_node cps shownAbove i
       (map (build_tree n cps kids (shownAbove \<union> set (map checkpoint_key (cps (si_id i)))) (insert (si_id i) lineage))
          (filter (\<lambda>c. si_id c \<notin> lineage) (kids i)))"

definition checkpointTree ::
  "(string \<Rightarrow> string \<Rightarrow> int) \<Rightarrow> session_info list \<Rightarrow> (string \<Rightarrow> checkpoint list) \<Rightarrow> string \<Rightarrow> string + checkpoint_tree" where
  "checkpointTree collate infos cps session =
     (case jsmap_get (by_id infos) session of
        None \<Rightarrow> Inl ''session not found in its family''
      | Some i \<Rightarrow> Inr (build_tree (Suc max_descendant_depth) cps (children_of collate infos) {} {} (family_root (by_id infos) [] i)))"

section \<open>The message of a checkpoint\<close>

definition summary_max_chars :: nat where "summary_max_chars = 72"
definition diff_output_max_bytes :: nat where "diff_output_max_bytes = 40000"

definition quote_mark :: "char \<Rightarrow> bool" where
  "quote_mark c \<longleftrightarrow> c = CHR 0x22 \<or> c = CHR 0x27 \<or> c = CHR 0x60"

definition control_code :: "char \<Rightarrow> bool" where
  "control_code c \<longleftrightarrow> (of_char c :: nat) < 32 \<or> (of_char c :: nat) = 127"

text \<open>\<^verbatim>\<open>replace\<close> of every run of such characters by one blank.\<close>

function squeeze :: "(char \<Rightarrow> bool) \<Rightarrow> string \<Rightarrow> string" where
  "squeeze p [] = []"
| "squeeze p (c # cs) = (if p c then CHR '' '' # squeeze p (dropWhile p cs) else c # squeeze p cs)"
  by pat_completeness auto
termination by (relation "measure (length \<circ> snd)") (auto simp: le_imp_less_Suc length_dropWhile_le)

definition summary_line :: "string \<Rightarrow> string" where
  "summary_line out =
     (case find (\<lambda>v. v \<noteq> [] \<and> \<not> js_starts_with v [CHR 0x60, CHR 0x60, CHR 0x60]) (map js_trim (js_split CHR 0x0A out)) of
        Some v \<Rightarrow> v | None \<Rightarrow> [])"

definition clean_summary :: "string \<Rightarrow> string option" where
  "clean_summary out =
     (let line = rev (dropWhile quote_mark (rev (dropWhile quote_mark (summary_line out))));
          clean = take summary_max_chars (js_trim (squeeze js_space (squeeze control_code line)))
      in if clean = [] then None else Some clean)"

section \<open>The commit\<close>

record git_result =
  gt_code :: nat
  gt_out :: string
  gt_err :: string

type_synonym 'g git = "string list \<Rightarrow> 'g \<Rightarrow> git_result \<times> 'g"

type_synonym git_reply = "nat \<times> json"

definition reply_error :: "nat \<Rightarrow> string \<Rightarrow> git_reply" where
  "reply_error status message = (status, JObj [(''error'', JStr message)])"

definition cleanCheckpointResponse :: "'g git \<Rightarrow> 'g \<Rightarrow> git_reply \<times> 'g" where
  "cleanCheckpointResponse git g =
     (let (head, g1) = git [''rev-parse'', ''--short'', ''HEAD''] g in
      if gt_code head \<noteq> 0 \<or> js_trim (gt_out head) = [] then (reply_error 400 ''repository has no commits to checkpoint'', g1)
      else let (subject, g2) = git [''log'', ''-1'', ''--format=%s''] g1 in
        ((200, JObj ([(''committed'', JBool False), (''reason'', JStr ''workdir is clean''), (''hash'', JStr (js_trim (gt_out head)))]
            @ (if gt_code subject = 0 \<and> js_trim (gt_out subject) \<noteq> [] then [(''message'', JStr (js_trim (gt_out subject)))] else []))), g2))"

text \<open>\<open>summarize\<close> is the answer of the agent to the diff, if any.\<close>

definition checkpointMessage ::
  "'g git \<Rightarrow> (string \<Rightarrow> string \<Rightarrow> string option) \<Rightarrow> string \<Rightarrow> string option \<Rightarrow> string option \<Rightarrow> 'g \<Rightarrow> (string \<times> bool) \<times> 'g" where
  "checkpointMessage git summarize now label model g =
     (let plain = (case label of Some (c # cs) \<Rightarrow> ''checkpoint: '' @ c # cs | _ \<Rightarrow> ''checkpoint '' @ now) in
      case model of
        Some (m # ms) \<Rightarrow>
          (let (r, g1) = git [''diff'', ''--cached''] g;
               diff = (if gt_code r = 0 then take diff_output_max_bytes (gt_out r) else []);
               summary = (if js_trim diff \<noteq> [] then Option.bind (summarize (m # ms) diff) clean_summary else None)
           in case summary of
                Some t \<Rightarrow> ((''checkpoint: '' @ t, True), g1)
              | None \<Rightarrow> ((plain, False), g1))
      | _ \<Rightarrow> ((plain, False), g))"

definition or_message :: "string \<Rightarrow> string \<Rightarrow> string" where
  "or_message a b = (if a = [] then b else a)"

definition checkpoint_head :: "'g git \<Rightarrow> string \<Rightarrow> nat \<Rightarrow> string \<Rightarrow> bool \<Rightarrow> 'g \<Rightarrow> git_reply \<times> 'g" where
  "checkpoint_head git dir files message summarized g =
     (let (head, g1) = git [''rev-parse'', ''--short'', ''HEAD''] g in
      if gt_code head \<noteq> 0 \<or> js_trim (gt_out head) = []
      then (reply_error 500 (''checkpoint committed but HEAD could not be resolved: '' @ js_trim (gt_err head)), g1)
      else ((200, JObj [(''committed'', JBool True), (''hash'', JStr (js_trim (gt_out head))), (''message'', JStr message),
               (''files'', JNum (int files)), (''dir'', JStr dir), (''summarized'', JBool summarized)]), g1))"

definition checkpoint_commit ::
  "'g git \<Rightarrow> (string \<Rightarrow> string \<Rightarrow> string option) \<Rightarrow> string \<Rightarrow> string \<Rightarrow> string option \<Rightarrow> string option \<Rightarrow> 'g \<Rightarrow> git_reply \<times> 'g" where
  "checkpoint_commit git summarize now dir label model g =
     (let (changed, g1) = git [''diff'', ''--cached'', ''--name-only'', ''-z''] g in
      if gt_code changed \<noteq> 0 then (reply_error 500 (''git diff failed: '' @ js_trim (gt_err changed)), g1)
      else
        (let files = length (filter (\<lambda>f. f \<noteq> []) (js_split CHR 0x00 (gt_out changed)));
             ((message, summarized), g2) = checkpointMessage git summarize now label model g1;
             (ci, g3) = git [''commit'', ''-m'', message] g2
         in if gt_code ci \<noteq> 0 then (reply_error 500 (''git commit failed: '' @ js_trim (or_message (gt_err ci) (gt_out ci))), g3)
            else checkpoint_head git dir files message summarized g3))"

definition checkpointWorkdir ::
  "'g git \<Rightarrow> (string \<Rightarrow> string \<Rightarrow> string option) \<Rightarrow> string \<Rightarrow> string \<Rightarrow> string option \<Rightarrow> string option \<Rightarrow> 'g \<Rightarrow> git_reply \<times> 'g" where
  "checkpointWorkdir git summarize now dir label model g =
     (let (toplevel, g1) = git [''rev-parse'', ''--show-toplevel''] g in
      if gt_code toplevel \<noteq> 0 then (reply_error 400 (''not a git repository: '' @ dir), g1)
      else
     (let (st, g2) = git [''status'', ''--porcelain''] g1 in
      if gt_code st \<noteq> 0 then (reply_error 500 (''git status failed: '' @ js_trim (gt_err st)), g2)
      else if gt_out st = [] then cleanCheckpointResponse git g2
      else
     (let (add, g3) = git [''add'', ''-A''] g2 in
      if gt_code add \<noteq> 0 then (reply_error 500 (''git add failed: '' @ js_trim (gt_err add)), g3)
      else checkpoint_commit git summarize now dir label model g3)))"

end
