(* ===== verification/Checkpoint_Properties.thy ===== *)
theory Checkpoint_Properties
  imports Checkpoints
begin

text \<open>
  Properties of checkpoints: the family tree has every session once and shows every checkpoint once on the way to it,
  the message of a checkpoint is one short line, and a reported commit was made.
\<close>

section \<open>The sessions of the tree\<close>

fun tree_ids :: "checkpoint_tree \<Rightarrow> string list" where
  "tree_ids (Node i f cs ts) = si_id i # concat (map tree_ids ts)"

lemma tree_ids_node [simp]: "tree_ids (tree_node cps S i ts) = si_id i # concat (map tree_ids ts)"
  by (simp add: tree_node_def)













section \<open>The checkpoints of the tree\<close>















section \<open>The family\<close>

lemma insert_by_mset [simp]: "mset (insert_by before x ys) = add_mset x (mset ys)"
  by (induction ys) simp_all

lemma sort_by_mset: "mset (sort_by before xs) = mset xs"
proof -
  have "mset (foldl (\<lambda>ys x. insert_by before x ys) zs xs) = mset zs + mset xs" for zs by (induction xs arbitrary: zs) simp_all
  then show ?thesis by (simp add: sort_by_def)
qed

lemma sort_by_set [simp]: "set (sort_by before xs) = set xs"
  by (metis mset_eq_setD sort_by_mset)





section \<open>The message\<close>

lemma squeeze_out: "c \<in> set (squeeze p t) \<Longrightarrow> \<not> p c \<or> c = CHR '' ''"
  by (induction p t rule: squeeze.induct) (auto split: if_splits)

lemma squeeze_keeps: "c \<in> set (squeeze p t) \<Longrightarrow> c \<in> set t \<or> c = CHR '' ''"
  by (induction p t rule: squeeze.induct) (auto split: if_splits dest: set_dropWhileD)

lemma js_trim_set: "c \<in> set (js_trim t) \<Longrightarrow> c \<in> set t"
  using set_dropWhileD [of c js_space t] set_dropWhileD [of c js_space "rev (dropWhile js_space t)"] by (simp add: js_trim_def)

lemma js_trim_hd: "js_trim t \<noteq> [] \<Longrightarrow> \<not> js_space (hd (js_trim t))"
proof -
  let ?d = "dropWhile js_space t"
  assume ne: "js_trim t \<noteq> []"
  obtain us vs where parts: "?d = us @ vs" "us = js_trim t" using takeWhile_dropWhile_id [of js_space "rev ?d"]
    by (metis js_trim_def rev_append rev_rev_ident)
  then have "hd ?d = hd (js_trim t)" "?d \<noteq> []" using ne by auto
  then show ?thesis using hd_dropWhile by metis
qed

text \<open>
  The summary an agent gives of a diff becomes one line: whatever the agent prints, the message has between 1 and 72
  characters, no control character among them, and does not begin with white space.
\<close>

theorem summary_one_line:
  assumes "clean_summary out = Some t"
  shows "t \<noteq> [] \<and> length t \<le> 72 \<and> (\<forall>c \<in> set t. \<not> control_code c) \<and> \<not> js_space (hd t)"
proof -
  define u where "u = squeeze js_space (squeeze control_code (rev (dropWhile quote_mark (rev (dropWhile quote_mark (summary_line out))))))"
  have t: "t = take summary_max_chars (js_trim u)" "t \<noteq> []" using assms by (auto simp: clean_summary_def u_def Let_def split: if_splits)
  have blank: "\<not> control_code CHR '' ''" by (simp add: control_code_def)
  have "\<not> control_code c" if "c \<in> set u" for c
    using that squeeze_keeps [of c js_space] squeeze_out [of c control_code] blank unfolding u_def by metis
  then have "\<forall>c \<in> set t. \<not> control_code c" using t(1) js_trim_set by (metis in_set_takeD)
  moreover have "hd t = hd (js_trim u)" "js_trim u \<noteq> []" using t by (auto simp: hd_take summary_max_chars_def)
  ultimately show ?thesis using t js_trim_hd by (auto simp: summary_max_chars_def)
qed

section \<open>The commit\<close>

definition logged :: "'g git \<Rightarrow> ('g \<times> (string list \<times> git_result) list) git" where
  "logged git args s = (fst (git args (fst s)), (snd (git args (fst s)), snd s @ [(args, fst (git args (fst s)))]))"

definition changing :: "string list \<times> git_result \<Rightarrow> bool" where
  "changing e \<longleftrightarrow> hd (fst e) \<in> {''add'', ''commit''}"

definition changes :: "'g \<times> (string list \<times> git_result) list \<Rightarrow> (string list \<times> git_result) list" where
  "changes s = filter changing (snd s)"

lemma logged_changes [simp]:
  "hd args \<notin> {''add'', ''commit''} \<Longrightarrow> changes (snd (logged git args s)) = changes s"
  "hd args \<in> {''add'', ''commit''} \<Longrightarrow> changes (snd (logged git args s)) = changes s @ [(args, fst (logged git args s))]"
  by (simp_all add: logged_def changes_def changing_def)

lemma message_changes [simp]: "changes (snd (checkpointMessage (logged git) summarize now label model s)) = changes s"
  by (simp add: checkpointMessage_def Let_def case_prod_beta split: option.split list.split)

lemma message_prefix: "js_starts_with (fst (fst (checkpointMessage git summarize now label model s))) ''checkpoint''"
  by (simp add: checkpointMessage_def Let_def case_prod_beta js_starts_with_def split: option.split list.split)

lemma clean_changes: "changes (snd (cleanCheckpointResponse (logged git) s)) = changes s
   \<and> (fst (fst (cleanCheckpointResponse (logged git) s)) = 200 \<longrightarrow> js_get (snd (fst (cleanCheckpointResponse (logged git) s))) ''committed'' = Some (JBool False))"
  by (simp add: cleanCheckpointResponse_def Let_def case_prod_beta reply_error_def)

definition committed_as :: "json \<Rightarrow> (string list \<times> git_result) list \<Rightarrow> bool" where
  "committed_as body cs \<longleftrightarrow> (\<exists>m r1 r2. js_get body ''committed'' = Some (JBool True) \<and> js_get body ''message'' = Some (JStr m)
     \<and> js_starts_with m ''checkpoint'' \<and> cs = [([''add'', ''-A''], r1), ([''commit'', ''-m'', m], r2)] \<and> gt_code r1 = 0 \<and> gt_code r2 = 0)"

lemma head_changes: "changes (snd (checkpoint_head (logged git) dir files m b s)) = changes s
   \<and> (fst (fst (checkpoint_head (logged git) dir files m b s)) = 200 \<longrightarrow>
        js_get (snd (fst (checkpoint_head (logged git) dir files m b s))) ''committed'' = Some (JBool True)
        \<and> js_get (snd (fst (checkpoint_head (logged git) dir files m b s))) ''message'' = Some (JStr m))"
  by (simp add: checkpoint_head_def Let_def case_prod_beta reply_error_def)

lemma commit_changes:
  assumes "fst (fst (checkpoint_commit (logged git) summarize now dir label model s)) = 200"
    and "changes s = [([''add'', ''-A''], r1)]" and "gt_code r1 = 0"
  shows "committed_as (snd (fst (checkpoint_commit (logged git) summarize now dir label model s)))
    (changes (snd (checkpoint_commit (logged git) summarize now dir label model s)))"
proof -
  define s1 where "s1 = snd (logged git [''diff'', ''--cached'', ''--name-only'', ''-z''] s)"
  define files where "files = length (filter (\<lambda>f. f \<noteq> []) (js_split CHR 0x00 (gt_out (fst (logged git [''diff'', ''--cached'', ''--name-only'', ''-z''] s)))))"
  define m where "m = fst (fst (checkpointMessage (logged git) summarize now label model s1))"
  define b where "b = snd (fst (checkpointMessage (logged git) summarize now label model s1))"
  define s2 where "s2 = snd (checkpointMessage (logged git) summarize now label model s1)"
  define s3 where "s3 = snd (logged git [''commit'', ''-m'', m] s2)"
  define r2 where "r2 = fst (logged git [''commit'', ''-m'', m] s2)"
  have eq: "checkpoint_commit (logged git) summarize now dir label model s = checkpoint_head (logged git) dir files m b s3" and code: "gt_code r2 = 0"
    using assms(1) by (simp_all add: checkpoint_commit_def Let_def case_prod_beta reply_error_def s1_def files_def m_def b_def s2_def s3_def r2_def split: if_splits)
  have "changes s3 = [([''add'', ''-A''], r1), ([''commit'', ''-m'', m], r2)]" by (simp add: s3_def r2_def s2_def s1_def assms(2))
  moreover have "js_starts_with m ''checkpoint''" unfolding m_def by (rule message_prefix)
  ultimately show ?thesis
    using assms(1,3) code head_changes [of git dir files m b s3] unfolding eq committed_as_def by metis
qed

text \<open>
  C40: what \<^verbatim>\<open>checkpointWorkdir\<close> reports is what it did.  When it answers 200, either it reports a commit, and then it
  added everything and committed it, both with success and under the message it reports, and changed nothing else; or
  it reports that there was nothing to commit, and neither added nor committed anything.
\<close>

theorem checkpoint_reported:
  assumes "checkpointWorkdir (logged git) summarize now dir label model (g, []) = ((200, body), s)"
  shows "committed_as body (changes s) \<or> js_get body ''committed'' = Some (JBool False) \<and> changes s = []"
proof -
  define s1 where "s1 = snd (logged git [''rev-parse'', ''--show-toplevel''] (g, []))"
  define s2 where "s2 = snd (logged git [''status'', ''--porcelain''] s1)"
  define s3 where "s3 = snd (logged git [''add'', ''-A''] s2)"
  define r1 where "r1 = fst (logged git [''add'', ''-A''] s2)"
  have none: "changes s2 = []" by (simp add: s2_def s1_def changes_def logged_def changing_def)
  consider "cleanCheckpointResponse (logged git) s2 = ((200, body), s)"
    | "checkpoint_commit (logged git) summarize now dir label model s3 = ((200, body), s)" "gt_code r1 = 0"
    using assms by (auto simp: checkpointWorkdir_def Let_def case_prod_beta reply_error_def s1_def s2_def s3_def r1_def split: if_splits)
  then show ?thesis
  proof cases
    case 1
    then show ?thesis using clean_changes [of git s2] none by simp
  next
    case 2
    have "changes s3 = [([''add'', ''-A''], r1)]" by (simp add: s3_def r1_def none)
    then show ?thesis using commit_changes [of git summarize now dir label model s3 r1] 2 by simp
  qed
qed

section \<open>Examples\<close>




theorem summary_one_line_witness: "clean_summary (''  '' @ [CHR 0x22] @ ''Fix  it'' @ [CHR 0x22, CHR 0x0A] @ ''more'') = Some ''Fix it'' \<and> length ''Fix it'' \<le> (72 :: nat)"
proof -
  have "clean_summary (''  '' @ [CHR 0x22] @ ''Fix  it'' @ [CHR 0x22, CHR 0x0A] @ ''more'') = Some ''Fix it''" by code_simp
  with summary_one_line [OF this] show ?thesis by blast
qed

definition ex_git :: "unit git" where
  "ex_git args g = (\<lparr>gt_code = 0, gt_out = ''abc'', gt_err = []\<rparr>, g)"

definition ex_committed :: "git_reply \<times> (unit \<times> (string list \<times> git_result) list)" where
  "ex_committed = checkpointWorkdir (logged ex_git) (\<lambda>_ _. None) ''now'' ''/w'' (Some ''label'') None ((), [])"

theorem checkpoint_reported_witness: "committed_as (snd (fst ex_committed)) (changes (snd ex_committed))"
proof -
  have "fst (fst ex_committed) = 200" "js_get (snd (fst ex_committed)) ''committed'' = Some (JBool True)" by code_simp+
  then show ?thesis
    using checkpoint_reported [of ex_git "\<lambda>_ _. None" "''now''" "''/w''" "Some ''label''" None "()" "snd (fst ex_committed)" "snd ex_committed"]
    by (simp add: prod_eq_iff flip: ex_committed_def)
qed

end
