(* ===== verification/Spec2Isabelle.thy ===== *)
theory Spec2Isabelle
  imports Session_Keys Runner_Properties Event_Properties Pinned_Properties Cloud_Auth_Properties Box_Properties Box_Dial_Properties Search_Properties Deletion_Properties Rollback_Properties Routine_Properties Hublot_Properties Credential_Flow_Properties Request_Properties Settings_Properties Browser_Properties Provision_Properties Tunnel_Properties Agent_Properties Gateway_Properties Checkpoint_Properties
begin

text \<open>
  A verification library for Oyster, a server that runs coding agents on a machine and lets a browser follow and steer them,
  and for the hub that connects browsers to remote machines ("boxes").  The names of definitions are those of the functions
  they translate, where HOL allows it.

  \<^bold>\<open>The program.\<close>  A browser sends requests to the server (\<^verbatim>\<open>server/app.mjs\<close>), which checks the credentials and the path
  (\<^verbatim>\<open>server/http/createRequestContext.mjs\<close>) and calls a manager: the runner manager (\<^verbatim>\<open>server/runners.mjs\<close>) starts one agent
  process per session and writes its output as numbered server-sent events, which the store keeps for browsers that
  reconnect; the managers of routines (\<^verbatim>\<open>server/routines.mjs\<close>) and hublots (\<^verbatim>\<open>server/tunnels.mjs\<close>) run scripts and network
  tunnels for a session; pinned widgets (\<^verbatim>\<open>server/pinned-widgets.mjs\<close>) arrange what a session shows.  All of them keep their
  rows in the application store (\<^verbatim>\<open>server/persistence/appStore.mjs\<close>), and the deletion of a session
  (\<^verbatim>\<open>server/persistence/sessionDeletion.mjs\<close>) and the rollback to a checkpoint are journaled there.  The hub
  (\<^verbatim>\<open>oyster-hub/\<close>) authorizes a user with a cloud provider, makes machines there, and tunnels connections to these boxes over one web
  socket each; on a box the agent (\<^verbatim>\<open>box-agent.mjs\<close>) registers with the hub and serves these connections.

  \<^bold>\<open>Ground.\<close>  Oyster_Prelude: insertion-ordered maps and sets, strings, and the locale keyed_store with its interpretation
  on the maps of the model.  Js_Json: JSON values, printing and parsing; the parser runs on fuel, twice the length of the
  text and more, and at most two calls follow a consumed character, so json_parse_text (a printed value whose keys are distinct parses back) shows
  that it is enough.

  \<^bold>\<open>Sessions.\<close>  Session_References and Session_Keys: \<^verbatim>\<open>server/session-references.mjs\<close>, with the round trip of keys
  and their confinement to the configured roots.  Session_Store: the tables of sessions and operations of the application store.
  Session_Owners: \<^verbatim>\<open>server/persistence/sessionOwners.mjs\<close>.  Session_Deletion, Deletion_Invariant, Deletion_Properties:
  \<^verbatim>\<open>sessionDeletion.mjs\<close> and \<^verbatim>\<open>sessionDeletionReconciler.mjs\<close>; a run may stop before any step and the theorems show that
  the next start completes it.  Rollback_Journal, Rollback_Properties: \<^verbatim>\<open>checkpointRollbackJournal.mjs\<close>.
  Checkpoints, Checkpoint_Properties: \<^verbatim>\<open>server/checkpoints.mjs\<close>, the family tree of the checkpoints (26 levels below
  its root, one more than \<^verbatim>\<open>MAX_DESCENDANT_DEPTH\<close>, as in the code; the walk to the root ends because it notes the sessions
  it has seen) and the git commands of a commit.
  Search_Query, Search_Properties: \<^verbatim>\<open>server/sessions/searchQuery.mjs\<close> and \<^verbatim>\<open>searchRescore.mjs\<close>.

  \<^bold>\<open>Runners.\<close>  Runner_Model, Runner_Lifecycle, Runner_Manager: \<^verbatim>\<open>server/runners.mjs\<close> and
  \<^verbatim>\<open>runner-drivers/registry.mjs\<close>, an asynchronous function cut at each of its awaits into the part before and the
  continuation.  Runner_Steps: the transition system over these parts, in which everything else may run between a part
  and its continuation, with the invariant of the manager; Runner_Properties: its consequences.  Event_Log:
  \<^verbatim>\<open>server/sse.mjs\<close>, the writing and replaying of events, and the de-duplication of
  \<^verbatim>\<open>public/src/runtime/eventStream.js\<close>.  Event_Window: the locale bounded_window, of which the server's table and the
  browser's queue are both interpretations; Event_Properties: what a browser that reconnects receives.

  \<^bold>\<open>Resources of a session.\<close>  Pinned_Widgets, Pinned_Invariant, Pinned_Routes, Pinned_Groups, Pinned_Properties:
  \<^verbatim>\<open>server/pinned-widgets.mjs\<close> and its repository; the locale positioned_table is interpreted on widgets and on groups.
  Routine_Store, Routines, Routine_Invariant, Routine_Properties: \<^verbatim>\<open>server/routines.mjs\<close> and its repository, with
  the line protocol of a routine's process.  Process_Identity: \<^verbatim>\<open>server/persistence/processIdentity.mjs\<close>.
  Hublot_Store, Hublots, Hublot_Invariant, Hublot_Properties: \<^verbatim>\<open>server/tunnels.mjs\<close>,
  \<^verbatim>\<open>server/persistence/hublotSupervisor.mjs\<close> and the hublots repository.  The loops that wait for processes to end
  (await_exit) run on fuel: stop_terminates shows that as much fuel as the time limits have milliseconds is enough.

  \<^bold>\<open>Access.\<close>  Request_Context, Request_Properties: \<^verbatim>\<open>server/http/createRequestContext.mjs\<close>,
  \<^verbatim>\<open>pathContainment.mjs\<close> and the dispatch of \<^verbatim>\<open>server/app.mjs\<close>.  Credential_Flows, Credential_Flow_Properties:
  \<^verbatim>\<open>server/pi-oauth-flow-service.mjs\<close>.  Server_Settings, Settings_Properties: \<^verbatim>\<open>server/persistence/appSettings.mjs\<close>
  and the settings repository.

  \<^bold>\<open>Hub.\<close>  Cloud_Authorization, Cloud_Auth_Properties: \<^verbatim>\<open>oyster-hub/cloud-authorization.mjs\<close>.  Box_Dial,
  Box_Dial_Properties, Box_Registry, Box_Properties: \<^verbatim>\<open>oyster-hub/box-registry.mjs\<close>, the byte streams over a web
  socket and the registrations of boxes.  Event_Loop: asynchronous functions as resumptions, and the locale interference
  with the rules that prove one function at a time against a relation all of them keep; loop_step runs any number of
  them interleaved.  Cloud_Requests, Cloud_Provisioning: \<^verbatim>\<open>oyster-hub/cloud-provisioning.mjs\<close>, the requests to the
  four providers and the service of credentials and workspaces on top of the registry; Provision_Properties interprets
  interference on the service (hub_keeps), so that its theorems hold for all calls interleaved with the steps of the
  registry.  The loop over project pages runs at most ten times, as in the code.  Box_Agent: \<^verbatim>\<open>oyster-hub/box-agent.mjs\<close>,
  the events of its web socket and its local connections as a step relation, the connection to the hub as a resumption.
  Box_Tunnel, Tunnel_Properties: a dial stream with both of its ends, the frames between them and every other stream of
  the agent in one transition system (tunnel_step), and that it is a pipe.  Agent_Properties: the credentials that pass
  between agent and registry, with interference interpreted on the agent (handed_over).  Hub_Gateway, Gateway_Properties:
  \<^verbatim>\<open>oyster-hub/ui-gateway.mjs\<close>, \<^verbatim>\<open>workspace-proxy.mjs\<close> and the token of \<^verbatim>\<open>app.mjs\<close>: scoped identities, which workspace
  a request reaches and what goes along, and the scoping of what comes back.

  \<^bold>\<open>Browser.\<close>  Browser_Transcript, Browser_Properties: \<^verbatim>\<open>public/src/lib/sessionSearchHighlight.js\<close> and parts of
  \<^verbatim>\<open>public/src/runtime/transcriptRuntime.js\<close>.

  \<^bold>\<open>How it is modelled.\<close>  Rows, objects and options are records; a table or a Map is an insertion-ordered association
  list; a thrown error is the left side of a sum, with its message or its status.  An asynchronous function that awaits
  something that can let others run is one definition per part, and a step relation or a list of steps interleaves the
  parts.  The clock, random identifiers, digests, the file system, the process table and the network are parameters,
  instantiated by functions in the witnesses.  Strings are lists of 8-bit characters, so case conversion and white space
  are those of that range.  Numbers are integers: a value of the program that is not one is outside the model.

  \<^bold>\<open>What the lemmas show.\<close>  Each component has its invariant and a lemma per operation that keeps it; the properties
  are consequences for every reachable state: ownership of processes, no lost or doubled event, single use of secrets
  and states, confinement of paths and keys, recovery after a stop, termination, round trips, and equivalence of the
  optimised routines (the sliding window of the search, the throttle, the check of settings) with what they compute.

  \<^bold>\<open>Not modelled.\<close>  The formats of vendor login files and the drivers of the agent programs, which translate undocumented
  output of programs that are not part of the repository; the scans of session files and usage statistics; git
  itself and the agent that summarizes a diff; migrations and importers of earlier releases; startup and hot reload,
  which load modules; the HTTP routes that only call a manager; web push, MCP and model routing; the hub's HTTP server
  and its routes to the services, the transfer of bytes through its proxy, the boot scripts of boxes, the catalogues of sizes and images and the encrypted state file of the hub; the agent's polling
  of the health endpoint, of which the answer counts; Svelte components, stores and DOM controllers of the browser;
  scripts and the agent extensions written in TypeScript.
\<close>

end
